(* ===== verification/Prelude.thy ===== *)
theory Prelude
  imports Main "HOL-Library.Word"
begin

unbundle bit_operations_syntax

text \<open>
  Shared vocabulary of the development: the machine integers of the ILP32 target ABI, the
  outcome of a C function, byte blocks of memory with bounds-checked access, the C string
  functions the library uses, and the little-endian layout of 16- and 32-bit fields.

  A pointer is an option (\<open>None\<close> is \<open>NULL\<close>). A pair of a \<open>const void *\<close> and its \<open>size_t\<close>
  that together describe a readable region is one byte list: its length is the size, and any
  access past it is undefined behaviour.
\<close>

named_theorems mem_simps \<open>evaluation of bounds-checked memory accesses\<close>
named_theorems layout_simps \<open>sizes and byte layouts of packed structures\<close>

section \<open>Machine integers\<close>

type_synonym u8 = "8 word"
type_synonym u16 = "16 word"
type_synonym u32 = "32 word"

lemma unat_u8_less: "unat (b :: u8) < 256"
  by (rule less_le_trans [OF unsigned_less]) simp

lemma unat_u16_less: "unat (b :: u16) < 65536"
  by (rule less_le_trans [OF unsigned_less]) simp

lemma of_nat_unat_id: "of_nat (unat (w :: 'a :: len word)) = w"
  by simp

lemma sint_small_nat: "n < 2 ^ 31 \<Longrightarrow> sint (of_nat n :: u32) = int n"
  by (simp add: signed_of_nat signed_take_bit_int_eq_self)

section \<open>Outcomes of C functions\<close>

text \<open>
  \<open>Done v\<close>: the function returned success (0, or a non-null pointer) and produced \<open>v\<close>.
  \<open>Fail\<close>: it returned its error value (a negative number or \<open>NULL\<close>).
  \<open>Undef\<close>: it ran into undefined behaviour: a null dereference or an access out of bounds.
\<close>

datatype 'a outcome = Done 'a | Fail | Undef

primrec obind :: "'a outcome \<Rightarrow> ('a \<Rightarrow> 'b outcome) \<Rightarrow> 'b outcome" where
  "obind (Done a) f = f a"
| "obind Fail f = Fail"
| "obind Undef f = Undef"

lemma obind_Done_iff:
  "obind m f = Done b \<longleftrightarrow> (\<exists>a. m = Done a \<and> f a = Done b)"
  by (cases m) auto

lemma obind_assoc: "obind (obind m f) g = obind m (\<lambda>x. obind (f x) g)"
  by (cases m) auto

lemma obind_cong [fundef_cong]:
  "m = m' \<Longrightarrow> (\<And>a. m' = Done a \<Longrightarrow> f a = g a) \<Longrightarrow> obind m f = obind m' g"
  by (cases m') auto

text \<open>The int a C function returns for its outcome: 0 or -1.\<close>

fun rc_of :: "'a outcome \<Rightarrow> int" where
  "rc_of (Done _) = 0"
| "rc_of _ = -1"

section \<open>Memory blocks\<close>

definition calloc :: "nat \<Rightarrow> u8 list" where
  "calloc n = replicate n 0"

definition peek :: "nat \<Rightarrow> nat \<Rightarrow> u8 list \<Rightarrow> u8 list outcome" where
  "peek off n buf =
     (if off + n \<le> length buf then Done (take n (drop off buf)) else Undef)"

definition peek8 :: "nat \<Rightarrow> u8 list \<Rightarrow> u8 outcome" where
  "peek8 off buf = (if off < length buf then Done (buf ! off) else Undef)"

definition poke :: "nat \<Rightarrow> u8 list \<Rightarrow> u8 list \<Rightarrow> u8 list outcome" where
  "poke off src buf =
     (if off + length src \<le> length buf
      then Done (take off buf @ src @ drop (off + length src) buf) else Undef)"

lemma length_calloc [simp]: "length (calloc n) = n"
  by (simp add: calloc_def)

lemma take_calloc [simp]: "take k (calloc n) = calloc (min k n)"
  by (simp add: calloc_def)

lemma drop_calloc [simp]: "drop k (calloc n) = calloc (n - k)"
  by (simp add: calloc_def)

lemma calloc_0 [simp]: "calloc 0 = []"
  by (simp add: calloc_def)

lemma calloc_append: "calloc m @ calloc n = calloc (m + n)"
  by (simp add: calloc_def replicate_add)

lemma poke_Done_iff:
  "poke off src buf = Done buf' \<longleftrightarrow>
     off + length src \<le> length buf \<and>
     buf' = take off buf @ src @ drop (off + length src) buf"
  by (auto simp: poke_def)

lemma poke_length: "poke off src buf = Done buf' \<Longrightarrow> length buf' = length buf"
  by (auto simp: poke_Done_iff)

lemma poke_Undef_iff: "poke off src buf = Undef \<longleftrightarrow> length buf < off + length src"
  by (auto simp: poke_def)

text \<open>A block filled front to back: writing right after a prefix of a zeroed block.\<close>

lemma poke_calloc [mem_simps]:
  "length src \<le> n \<Longrightarrow>
   poke (length pre) src (pre @ calloc n) = Done ((pre @ src) @ calloc (n - length src))"
  by (simp add: poke_def)

lemma poke_calloc0 [mem_simps]:
  "length src \<le> n \<Longrightarrow> poke 0 src (calloc n) = Done (src @ calloc (n - length src))"
  by (simp add: poke_def)

lemma peek_middle [mem_simps]:
  "length pre = off \<Longrightarrow> length mid = n \<Longrightarrow> peek off n (pre @ mid @ post) = Done mid"
  by (auto simp: peek_def)

lemma peek_prefix [mem_simps]: "length mid = n \<Longrightarrow> peek 0 n (mid @ post) = Done mid"
  by (auto simp: peek_def)

lemma peek_Done_length: "peek off n buf = Done bs \<Longrightarrow> length bs = n"
  by (auto simp: peek_def split: if_splits)

lemma peek8_nth [mem_simps]: "off < length buf \<Longrightarrow> peek8 off buf = Done (buf ! off)"
  by (simp add: peek8_def)

text \<open>\<open>memcpy (p, src, n); p += n;\<close> for one source after the other.\<close>

fun pokes :: "nat \<Rightarrow> u8 list list \<Rightarrow> u8 list \<Rightarrow> u8 list outcome" where
  "pokes off [] buf = Done buf"
| "pokes off (src # srcs) buf = obind (poke off src buf) (pokes (off + length src) srcs)"

lemma pokes_calloc_from:
  "length (concat srcs) \<le> n \<Longrightarrow>
   pokes (length pre) srcs (pre @ calloc n) =
     Done (pre @ concat srcs @ calloc (n - length (concat srcs)))"
proof (induction srcs arbitrary: pre n)
  case Nil
  then show ?case by simp
next
  case (Cons src srcs)
  then have "pokes (length (pre @ src)) srcs ((pre @ src) @ calloc (n - length src)) =
      Done ((pre @ src) @ concat srcs @ calloc (n - length src - length (concat srcs)))"
    by (intro Cons.IH) simp
  with Cons.prems show ?case
    by (simp add: poke_calloc)
qed

lemma pokes_exact [mem_simps]:
  "length (concat srcs) = n \<Longrightarrow> pokes 0 srcs (calloc n) = Done (concat srcs)"
  using pokes_calloc_from [of srcs n "[]"] by simp

lemma pokes_Undef:
  "length buf < off + length (concat srcs) \<Longrightarrow> off \<le> length buf \<Longrightarrow> pokes off srcs buf = Undef"
proof (induction srcs arbitrary: off buf)
  case Nil
  then show ?case by simp
next
  case (Cons src srcs)
  show ?case
  proof (cases "poke off src buf")
    case (Done buf')
    then have "length buf' = length buf" and "off + length src \<le> length buf"
      by (auto simp: poke_Done_iff)
    with Cons Done show ?thesis by simp
  qed (auto simp: poke_def split: if_splits)
qed

section \<open>C strings\<close>

text \<open>
  A \<open>const char *\<close> is the list of the bytes before its terminating zero byte; the zero byte
  itself stands implicitly at the end. A zero byte inside the list ends the string early, as
  it does in C.
\<close>

definition cstr :: "u8 list \<Rightarrow> u8 list" where
  "cstr s = takeWhile (\<lambda>c. c \<noteq> 0) s"

definition strlen :: "u8 list \<Rightarrow> nat" where
  "strlen s = length (cstr s)"

text \<open>The \<open>n\<close> bytes that \<open>strncpy (dst, s, n)\<close> stores: the string, padded with zero bytes.\<close>

definition strncpy :: "nat \<Rightarrow> u8 list \<Rightarrow> u8 list" where
  "strncpy n s = take n (cstr s @ calloc n)"

text \<open>\<open>strncmp (a, b, n) == 0\<close>.\<close>

fun strncmp_eq :: "nat \<Rightarrow> u8 list \<Rightarrow> u8 list \<Rightarrow> bool" where
  "strncmp_eq 0 a b = True"
| "strncmp_eq (Suc n) [] [] = True"
| "strncmp_eq (Suc n) (x # a) [] = (x = 0)"
| "strncmp_eq (Suc n) [] (y # b) = (y = 0)"
| "strncmp_eq (Suc n) (x # a) (y # b) =
     (if x \<noteq> y then False else if x = 0 then True else strncmp_eq n a b)"

lemma length_strncpy [simp]: "length (strncpy n s) = n"
  by (simp add: strncpy_def)

lemma cstr_append_zero [simp]: "cstr (s @ calloc n) = cstr s"
  by (induction s) (auto simp: cstr_def calloc_def)

lemma strlen_le: "strlen s \<le> length s"
  by (simp add: strlen_def cstr_def length_takeWhile_le)

lemma cstr_id: "0 \<notin> set s \<Longrightarrow> cstr s = s"
  by (auto simp: cstr_def takeWhile_eq_all_conv)

lemma strlen_id: "0 \<notin> set s \<Longrightarrow> strlen s = length s"
  by (simp add: strlen_def cstr_id)

lemma strncpy_short: "strlen s \<le> n \<Longrightarrow> strncpy n s = cstr s @ calloc (n - strlen s)"
  by (simp add: strncpy_def strlen_def)

lemma strncpy_long: "n \<le> strlen s \<Longrightarrow> strncpy n s = take n (cstr s)"
  by (simp add: strncpy_def strlen_def)

lemma strncpy_id: "0 \<notin> set s \<Longrightarrow> strncpy (length s) s = s"
  by (simp add: strncpy_def cstr_id)

lemma strncmp_eq_iff: "strncmp_eq n a b \<longleftrightarrow> take n (cstr a) = take n (cstr b)"
  by (induction n a b rule: strncmp_eq.induct) (auto simp: cstr_def)

text \<open>
  \<open>strncpy\<close> from a region of memory that need not hold a terminated string: the copy reads
  up to \<open>n\<close> bytes or up to the first zero byte, whichever comes first.
\<close>

definition strncpy_from :: "nat \<Rightarrow> u8 list \<Rightarrow> u8 list outcome" where
  "strncpy_from n mem =
     (if n \<le> length mem \<or> 0 \<in> set mem then Done (strncpy n (take n mem)) else Undef)"

lemma strncpy_from_id:
  "length s = n \<Longrightarrow> 0 \<notin> set s \<Longrightarrow> strncpy_from n (s @ rest) = Done s"
  by (auto simp: strncpy_from_def strncpy_id)

text \<open>
  The recurring way the builders store a string in a fixed array of a cleared structure: the
  length is clipped to the size of the array, stored in a byte, and that many bytes copied.
\<close>

definition clip_length :: "nat \<Rightarrow> u8 list \<Rightarrow> nat" where
  "clip_length n s = (if n < strlen s then n else strlen s)"

definition clip_field :: "nat \<Rightarrow> u8 list \<Rightarrow> u8 list" where
  "clip_field n s = strncpy (clip_length n s) s @ calloc (n - clip_length n s)"

lemma clip_length_le: "clip_length n s \<le> n"
  by (simp add: clip_length_def)

lemma length_clip_field [simp]: "length (clip_field n s) = n"
  using clip_length_le [of n s] by (simp add: clip_field_def)

lemma clip_field_prefix: "take (clip_length n s) (clip_field n s) = take n (cstr s)"
  by (auto simp: clip_field_def clip_length_def strncpy_def strlen_def)

lemma clip_length_byte: "n < 256 \<Longrightarrow> unat (of_nat (clip_length n s) :: u8) = clip_length n s"
  using clip_length_le [of n s] by (simp add: unat_of_nat)

section \<open>Little-endian fields\<close>

definition le16 :: "u16 \<Rightarrow> u8 list" where
  "le16 w = [ucast w, ucast (drop_bit 8 w)]"

definition le32 :: "u32 \<Rightarrow> u8 list" where
  "le32 w = [ucast w, ucast (drop_bit 8 w), ucast (drop_bit 16 w), ucast (drop_bit 24 w)]"

definition get16 :: "u8 list \<Rightarrow> u16" where
  "get16 bs = ucast (bs ! 0) OR push_bit 8 (ucast (bs ! 1))"

definition get32 :: "u8 list \<Rightarrow> u32" where
  "get32 bs = ucast (bs ! 0) OR push_bit 8 (ucast (bs ! 1)) OR
              push_bit 16 (ucast (bs ! 2)) OR push_bit 24 (ucast (bs ! 3))"

lemma length_le16 [simp, layout_simps]: "length (le16 w) = 2"
  by (simp add: le16_def)

lemma length_le32 [simp, layout_simps]: "length (le32 w) = 4"
  by (simp add: le32_def)

lemma get16_le16 [layout_simps]: "get16 (le16 w) = w"
  by (rule bit_word_eqI) (auto simp: get16_def le16_def bit_simps)

lemma get32_le32 [layout_simps]: "get32 (le32 w) = w"
proof (rule bit_word_eqI)
  fix n
  assume "n < LENGTH(32)"
  then show "bit (get32 (le32 w)) n = bit w n"
    by (cases "n < 24"; cases "n < 16") (auto simp: get32_def le32_def bit_simps)
qed

text \<open>A field is read back at its place in a packed structure.\<close>

lemma get16_prefix [layout_simps]: "get16 (le16 w @ bs) = w"
  using get16_le16 [of w] by (simp add: get16_def le16_def)

lemma get32_prefix [layout_simps]: "get32 (le32 w @ bs) = w"
  using get32_le32 [of w] by (simp add: get32_def le32_def)


lemma le16_get16: "le16 (get16 (a # b # bs)) = [a, b]"
proof -
  have big: "\<not> bit (x :: u8) n" if "8 \<le> n" for x n
    using that bit_imp_le_length [of x n] by auto
  show ?thesis
    by (auto simp: le16_def get16_def intro!: bit_word_eqI simp: bit_simps big)
qed

lemma le32_get32: "le32 (get32 (a # b # c # d # bs)) = [a, b, c, d]"
proof -
  have "bit (ucast (get32 (a # b # c # d # bs)) :: u8) n = bit a n"
    "bit (ucast (drop_bit 8 (get32 (a # b # c # d # bs))) :: u8) n = bit b n"
    "bit (ucast (drop_bit 16 (get32 (a # b # c # d # bs))) :: u8) n = bit c n"
    "bit (ucast (drop_bit 24 (get32 (a # b # c # d # bs))) :: u8) n = bit d n"
    if "n < LENGTH(8)" for n
    using that by (auto simp: get32_def bit_simps dest: bit_imp_le_length)
  then have "ucast (get32 (a # b # c # d # bs)) = a" "ucast (drop_bit 8 (get32 (a # b # c # d # bs))) = b"
    "ucast (drop_bit 16 (get32 (a # b # c # d # bs))) = c" "ucast (drop_bit 24 (get32 (a # b # c # d # bs))) = d"
    by (intro bit_word_eqI, blast)+
  then show ?thesis by (simp add: le32_def)
qed

end
