(* ===== verification/Protocol.thy ===== *)
theory Protocol
  imports Prelude
begin

text \<open>
  The wire protocol: commands and groups (include/protocol.h), the message structure
  (include/samsung-ipc.h), the packed FMT and RFS headers, and the functions of
  samsung-ipc/ipc_utils.c that fill a header from a message and a message from a header.
\<close>

unbundle bit_operations_syntax

section \<open>Command codes\<close>

definition IPC_GROUP_RFS :: u8 where "IPC_GROUP_RFS = 0x42"

definition IPC_COMMAND :: "u8 \<Rightarrow> u8 \<Rightarrow> u16" where
  "IPC_COMMAND grp index = push_bit 8 (ucast grp) OR ucast index"

definition IPC_GROUP :: "u16 \<Rightarrow> u8" where
  "IPC_GROUP command = ucast (drop_bit 8 command)"

definition IPC_INDEX :: "u16 \<Rightarrow> u8" where
  "IPC_INDEX command = ucast (command AND 0xff)"

lemma IPC_INDEX_ucast: "IPC_INDEX c = ucast c"
proof -
  have m: "(0xff :: u16) = mask 8" by (simp add: mask_eq_exp_minus_1)
  show ?thesis
    unfolding IPC_INDEX_def m
    by (rule bit_word_eqI) (simp only: bit_simps, auto)
qed

lemma IPC_GROUP_COMMAND [simp]: "IPC_GROUP (IPC_COMMAND g i) = g"
  by (rule bit_word_eqI) (auto simp: IPC_GROUP_def IPC_COMMAND_def bit_simps dest: bit_imp_le_length)

lemma IPC_INDEX_COMMAND [simp]: "IPC_INDEX (IPC_COMMAND g i) = i"
  by (rule bit_word_eqI)
    (auto simp: IPC_INDEX_ucast IPC_COMMAND_def bit_simps)

lemma IPC_COMMAND_GROUP_INDEX [simp]: "IPC_COMMAND (IPC_GROUP c) (IPC_INDEX c) = c"
proof (rule bit_word_eqI)
  fix n
  assume "n < LENGTH(16)"
  then show "bit (IPC_COMMAND (IPC_GROUP c) (IPC_INDEX c)) n = bit c n"
    by (cases "n < 8")
      (auto simp: IPC_GROUP_def IPC_INDEX_ucast IPC_COMMAND_def bit_simps)
qed

section \<open>Structures\<close>

text \<open>
  \<open>struct ipc_message\<close>: \<open>msg_data\<close> is the block \<open>data\<close> points to (\<open>None\<close> for \<open>NULL\<close>) and
  \<open>msg_size\<close> the \<open>size_t size\<close> field; the code never ties the two together.
\<close>

record ipc_message =
  msg_mseq :: u8
  msg_aseq :: u8
  msg_command :: u16
  msg_type :: u8
  msg_data :: "u8 list option"
  msg_size :: u32

record ipc_fmt_header =
  fmt_length :: u16
  fmt_mseq :: u8
  fmt_aseq :: u8
  fmt_group :: u8
  fmt_index :: u8
  fmt_type :: u8

record ipc_rfs_header =
  rfs_length :: u32
  rfs_index :: u8
  rfs_id :: u8

text \<open>\<open>sizeof\<close> of the packed structures and their bytes in memory.\<close>

definition sizeof_fmt_header :: nat where "sizeof_fmt_header = 7"
definition sizeof_rfs_header :: nat where "sizeof_rfs_header = 6"

definition fmt_header_bytes :: "ipc_fmt_header \<Rightarrow> u8 list" where
  "fmt_header_bytes h = le16 (fmt_length h) @
     [fmt_mseq h, fmt_aseq h, fmt_group h, fmt_index h, fmt_type h]"

definition fmt_header_of :: "u8 list \<Rightarrow> ipc_fmt_header" where
  "fmt_header_of bs = \<lparr>fmt_length = get16 bs, fmt_mseq = bs ! 2, fmt_aseq = bs ! 3,
     fmt_group = bs ! 4, fmt_index = bs ! 5, fmt_type = bs ! 6\<rparr>"

definition rfs_header_bytes :: "ipc_rfs_header \<Rightarrow> u8 list" where
  "rfs_header_bytes h = le32 (rfs_length h) @ [rfs_index h, rfs_id h]"

definition rfs_header_of :: "u8 list \<Rightarrow> ipc_rfs_header" where
  "rfs_header_of bs = \<lparr>rfs_length = get32 bs, rfs_index = bs ! 4, rfs_id = bs ! 5\<rparr>"

lemma length_fmt_header_bytes [simp, layout_simps]: "length (fmt_header_bytes h) = 7"
  by (simp add: fmt_header_bytes_def)

lemma length_rfs_header_bytes [simp, layout_simps]: "length (rfs_header_bytes h) = 6"
  by (simp add: rfs_header_bytes_def)

lemma fmt_header_of_bytes [layout_simps]: "fmt_header_of (fmt_header_bytes h @ bs) = h"
  by (simp add: fmt_header_of_def fmt_header_bytes_def get16_prefix)
    (simp add: le16_def)

lemma rfs_header_of_bytes [layout_simps]: "rfs_header_of (rfs_header_bytes h @ bs) = h"
  by (simp add: rfs_header_of_def rfs_header_bytes_def get32_prefix)
    (simp add: le32_def)

lemma split_at_7:
  assumes "7 \<le> length bs"
  obtains a b c d e f g rest where "bs = a # b # c # d # e # f # g # rest"
  using assms by (auto simp: numeral_eq_Suc Suc_le_length_iff)

lemma split_at_6:
  assumes "6 \<le> length bs"
  obtains a b c d e f rest where "bs = a # b # c # d # e # f # rest"
  using assms by (auto simp: numeral_eq_Suc Suc_le_length_iff)

lemma fmt_header_bytes_of: "7 \<le> length bs \<Longrightarrow> fmt_header_bytes (fmt_header_of bs) = take 7 bs"
  by (erule split_at_7) (simp add: fmt_header_bytes_def fmt_header_of_def le16_get16)

lemma rfs_header_bytes_of: "6 \<le> length bs \<Longrightarrow> rfs_header_bytes (rfs_header_of bs) = take 6 bs"
  by (erule split_at_6) (simp add: rfs_header_bytes_def rfs_header_of_def le32_get32)

section \<open>Sequence numbers\<close>

definition ipc_seq_valid :: "u8 \<Rightarrow> int" where
  "ipc_seq_valid seq = (if seq = 0x00 \<or> seq = 0xff then 0 else 1)"

section \<open>Filling headers and messages\<close>

text \<open>
  The first argument is the memory the output pointer designates (\<open>None\<close> for \<open>NULL\<close>); every
  function clears it before it fills it, so the old contents never matter.
\<close>

definition ipc_fmt_header_setup ::
  "ipc_fmt_header option \<Rightarrow> ipc_message option \<Rightarrow> ipc_fmt_header outcome" where
  "ipc_fmt_header_setup header message =
     (case (header, message) of
        (Some _, Some m) \<Rightarrow>
          Done \<lparr>fmt_length = ucast (msg_size m + of_nat sizeof_fmt_header),
                fmt_mseq = msg_mseq m, fmt_aseq = msg_aseq m,
                fmt_group = IPC_GROUP (msg_command m),
                fmt_index = IPC_INDEX (msg_command m),
                fmt_type = msg_type m\<rparr>
      | _ \<Rightarrow> Fail)"

definition ipc_fmt_message_setup ::
  "ipc_fmt_header option \<Rightarrow> ipc_message option \<Rightarrow> ipc_message outcome" where
  "ipc_fmt_message_setup header message =
     (case (header, message) of
        (Some h, Some _) \<Rightarrow>
          Done \<lparr>msg_mseq = fmt_mseq h, msg_aseq = fmt_aseq h,
                msg_command = IPC_COMMAND (fmt_group h) (fmt_index h),
                msg_type = fmt_type h, msg_data = None, msg_size = 0\<rparr>
      | _ \<Rightarrow> Fail)"

definition ipc_rfs_header_setup ::
  "ipc_rfs_header option \<Rightarrow> ipc_message option \<Rightarrow> ipc_rfs_header outcome" where
  "ipc_rfs_header_setup header message =
     (case (header, message) of
        (Some _, Some m) \<Rightarrow>
          Done \<lparr>rfs_length = msg_size m + of_nat sizeof_rfs_header,
                rfs_index = IPC_INDEX (msg_command m), rfs_id = msg_mseq m\<rparr>
      | _ \<Rightarrow> Fail)"

definition ipc_rfs_message_setup ::
  "ipc_rfs_header option \<Rightarrow> ipc_message option \<Rightarrow> ipc_message outcome" where
  "ipc_rfs_message_setup header message =
     (case (header, message) of
        (Some h, Some _) \<Rightarrow>
          Done \<lparr>msg_mseq = 0, msg_aseq = rfs_id h,
                msg_command = IPC_COMMAND IPC_GROUP_RFS (rfs_index h),
                msg_type = 0, msg_data = None, msg_size = 0\<rparr>
      | _ \<Rightarrow> Fail)"

section \<open>Properties\<close>

lemma unat_fmt_length:
  "unat (ucast (s + of_nat sizeof_fmt_header :: u32) :: u16) = (unat s + 7) mod 65536"
  by (simp add: sizeof_fmt_header_def unsigned_ucast_eq unat_word_ariths mod_mod_cancel
      take_bit_eq_mod)

text \<open>
  A message whose header is set up, written to the wire in its packed layout and read back
  by the receiver gives the same sequence numbers, command and type; its payload is left for
  the transport to attach.
\<close>

theorem fmt_header_roundtrip:
  "obind (ipc_fmt_header_setup (Some h0) (Some m))
     (\<lambda>h. ipc_fmt_message_setup (Some (fmt_header_of (fmt_header_bytes h @ payload))) (Some m0)) =
   Done (m\<lparr>msg_data := None, msg_size := 0\<rparr>)"
  by (simp add: ipc_fmt_header_setup_def ipc_fmt_message_setup_def fmt_header_of_bytes)

end
