(* ===== verification/Call.thy ===== *)
theory Call
  imports Protocol
begin

text \<open>
  samsung-ipc/call.c with the structures of include/call.h: building the outgoing-call request
  and the DTMF burst, and walking the call list the modem reports.
\<close>

section \<open>Structures\<close>

record ipc_call_outgoing_data =
  co_unknown :: u8
  co_type :: u8
  co_identity :: u8
  co_number_length :: u8
  co_prefix :: u8
  co_number :: "u8 list"

record ipc_call_list_entry =
  cle_unknown1 :: u8
  cle_type :: u8
  cle_id :: u8
  cle_term :: u8
  cle_status :: u8
  cle_mpty :: u8
  cle_number_length :: u8
  cle_unknown2 :: u8

record ipc_call_burst_dtmf_request_entry =
  dtmf_status :: u8
  dtmf_tone :: u8

definition sizeof_call_list_header :: nat where "sizeof_call_list_header = 1"
definition sizeof_call_list_entry :: nat where "sizeof_call_list_entry = 8"

definition call_list_entry_bytes :: "ipc_call_list_entry \<Rightarrow> u8 list" where
  "call_list_entry_bytes e = [cle_unknown1 e, cle_type e, cle_id e, cle_term e, cle_status e,
     cle_mpty e, cle_number_length e, cle_unknown2 e]"

definition dtmf_entry_bytes :: "ipc_call_burst_dtmf_request_entry \<Rightarrow> u8 list" where
  "dtmf_entry_bytes e = [dtmf_status e, dtmf_tone e]"

section \<open>Outgoing call\<close>

definition ipc_call_outgoing_setup ::
  "ipc_call_outgoing_data option \<Rightarrow> u8 \<Rightarrow> u8 \<Rightarrow> u8 \<Rightarrow> u8 list option \<Rightarrow>
   ipc_call_outgoing_data outcome" where
  "ipc_call_outgoing_setup data type identity prefix number =
     (case (data, number) of
        (Some _, Some s) \<Rightarrow>
          Done \<lparr>co_unknown = 0, co_type = type, co_identity = identity,
                co_number_length = of_nat (clip_length 86 s), co_prefix = prefix,
                co_number = clip_field 86 s\<rparr>
      | _ \<Rightarrow> Fail)"

section \<open>The call list\<close>

definition ipc_call_list_count_extract :: "u8 list option \<Rightarrow> u8" where
  "ipc_call_list_count_extract data =
     (case data of None \<Rightarrow> 0
      | Some bs \<Rightarrow> if length bs < sizeof_call_list_header then 0 else bs ! 0)"

text \<open>
  The loop over the entries: \<open>n\<close> iterations are left; each reads the \<open>number_length\<close> byte of
  the entry at the current offset and moves past the entry and its number. The result is the
  offset of the last entry visited and the offset behind it.
\<close>

fun call_list_walk :: "nat \<Rightarrow> u8 list \<Rightarrow> nat \<Rightarrow> nat \<Rightarrow> (nat \<times> nat) outcome" where
  "call_list_walk 0 bs entry off = Done (entry, off)"
| "call_list_walk (Suc n) bs entry off =
     obind (peek8 (off + 6) bs)
       (\<lambda>number_length. call_list_walk n bs off
          (off + sizeof_call_list_entry + unat number_length))"

text \<open>The returned pointer is given as its offset in the block.\<close>

definition ipc_call_list_entry_extract :: "u8 list option \<Rightarrow> nat \<Rightarrow> nat outcome" where
  "ipc_call_list_entry_extract data index =
     (case data of None \<Rightarrow> Fail
      | Some bs \<Rightarrow>
          let count = ipc_call_list_count_extract data in
          if count = 0 \<or> unat count \<le> index then Fail
          else obind (call_list_walk (index + 1) bs 0 sizeof_call_list_header)
                 (\<lambda>(entry, off). if length bs < off then Fail else Done entry))"

text \<open>The argument is the memory from the entry on; the result is the new string's block.\<close>

definition ipc_call_list_entry_number_extract :: "u8 list option \<Rightarrow> u8 list outcome" where
  "ipc_call_list_entry_number_extract entry =
     (case entry of None \<Rightarrow> Fail
      | Some mem \<Rightarrow>
          obind (peek8 6 mem) (\<lambda>number_length.
          obind (strncpy_from (unat number_length) (drop sizeof_call_list_entry mem)) (\<lambda>number.
          Done (number @ [0]))))"

section \<open>DTMF burst\<close>

definition ipc_call_burst_dtmf_size_setup ::
  "ipc_call_burst_dtmf_request_entry list option \<Rightarrow> u8 \<Rightarrow> nat" where
  "ipc_call_burst_dtmf_size_setup entries count =
     (case entries of None \<Rightarrow> 0 | Some _ \<Rightarrow> 1 + unat count * 2)"

definition ipc_call_burst_dtmf_setup ::
  "ipc_call_burst_dtmf_request_entry list option \<Rightarrow> u8 \<Rightarrow> u8 list outcome" where
  "ipc_call_burst_dtmf_setup entries count =
     (case entries of None \<Rightarrow> Fail
      | Some es \<Rightarrow>
          let size = ipc_call_burst_dtmf_size_setup entries count in
          if size = 0 then Fail
          else obind (poke 0 [count] (calloc size)) (\<lambda>block.
               obind (peek 0 (unat count * 2) (concat (map dtmf_entry_bytes es))) (\<lambda>src.
               poke 1 src block)))"

section \<open>Walking a list the modem built\<close>

text \<open>The bytes of a call list: the count, then each entry followed by its number.\<close>

definition call_item_bytes :: "ipc_call_list_entry \<times> u8 list \<Rightarrow> u8 list" where
  "call_item_bytes it = call_list_entry_bytes (fst it) @ snd it"

definition call_list_bytes :: "(ipc_call_list_entry \<times> u8 list) list \<Rightarrow> u8 list" where
  "call_list_bytes items = of_nat (length items) # concat (map call_item_bytes items)"

definition call_item_ok :: "ipc_call_list_entry \<times> u8 list \<Rightarrow> bool" where
  "call_item_ok it \<longleftrightarrow> length (snd it) = unat (cle_number_length (fst it)) \<and> 0 \<notin> set (snd it)"

lemma length_call_item_bytes [simp]: "length (call_item_bytes it) = 8 + length (snd it)"
  by (simp add: call_item_bytes_def call_list_entry_bytes_def)

lemma call_item_number_length:
  "peek8 (length pre + 6) (pre @ call_item_bytes it @ post) = Done (cle_number_length (fst it))"
  by (simp add: peek8_def nth_append call_item_bytes_def call_list_entry_bytes_def)

lemma call_list_walk_step:
  assumes "call_item_ok it"
  shows "call_list_walk (Suc n) (pre @ call_item_bytes it @ post) e (length pre) =
    call_list_walk n ((pre @ call_item_bytes it) @ post) (length pre)
      (length (pre @ call_item_bytes it))"
  using assms call_item_number_length [of pre it post]
  by (simp add: sizeof_call_list_entry_def call_item_ok_def add.assoc)

text \<open>After walking over a list of items the walk stands behind its last one.\<close>

lemma call_list_walk_items:
  "\<forall>it \<in> set (its @ [last_it]). call_item_ok it \<Longrightarrow>
   call_list_walk (Suc (length its))
     (pre @ concat (map call_item_bytes its) @ call_item_bytes last_it @ post) e (length pre) =
   Done (length pre + length (concat (map call_item_bytes its)),
         length pre + length (concat (map call_item_bytes its)) + length (call_item_bytes last_it))"
proof (induction its arbitrary: pre e)
  case Nil
  then have "call_item_ok last_it" by simp
  from call_list_walk_step [OF this, of 0 pre post e] show ?case by simp
next
  case (Cons it its)
  let ?rest = "concat (map call_item_bytes its) @ call_item_bytes last_it @ post"
  from Cons.prems have "call_item_ok it" by simp
  then have "call_list_walk (Suc (Suc (length its))) (pre @ call_item_bytes it @ ?rest) e (length pre) =
      call_list_walk (Suc (length its)) ((pre @ call_item_bytes it) @ ?rest) (length pre)
        (length (pre @ call_item_bytes it))"
    by (rule call_list_walk_step)
  also have "\<dots> = Done
      (length (pre @ call_item_bytes it) + length (concat (map call_item_bytes its)),
       length (pre @ call_item_bytes it) + length (concat (map call_item_bytes its)) +
         length (call_item_bytes last_it))"
    using Cons.prems by (intro Cons.IH) simp
  finally show ?case by (simp add: add.assoc)
qed

text \<open>Whatever the block holds, the walk ends right behind the last entry it visited.\<close>

lemma call_list_walk_bounds:
  "call_list_walk (Suc n) bs e off = Done (e', off') \<Longrightarrow>
   off \<le> e' \<and> e' + 6 < length bs \<and> off' = e' + 8 + unat (bs ! (e' + 6))"
proof (induction n arbitrary: e off)
  case 0
  then show ?case by (auto simp: sizeof_call_list_entry_def peek8_def split: if_splits)
next
  case (Suc n)
  from Suc.prems obtain l :: u8 where step:
      "call_list_walk (Suc n) bs off (off + sizeof_call_list_entry + unat l) = Done (e', off')"
    unfolding call_list_walk.simps(2) [of "Suc n"] obind_Done_iff by blast
  from Suc.IH [OF step] show ?case by simp
qed

section \<open>Properties\<close>

text \<open>
  For every call list of fewer than 256 entries laid out the way the modem sends it, asking
  for entry \<open>i\<close> returns the offset of that entry, and reading the number at that entry gives
  exactly its number, zero-terminated.
\<close>

theorem call_list_entry_found:
  assumes "length items < 256" and "i < length items" and "\<forall>it \<in> set items. call_item_ok it"
  defines "off \<equiv> 1 + length (concat (map call_item_bytes (take i items)))"
  shows "ipc_call_list_entry_extract (Some (call_list_bytes items)) i = Done off \<and>
    take 8 (drop off (call_list_bytes items)) = call_list_entry_bytes (fst (items ! i)) \<and>
    ipc_call_list_entry_number_extract (Some (drop off (call_list_bytes items))) =
      Done (snd (items ! i) @ [0])"
proof -
  let ?it = "items ! i" and ?pre = "concat (map call_item_bytes (take i items))"
  let ?post = "concat (map call_item_bytes (drop (Suc i) items))"
  let ?count = "of_nat (length items) :: u8"
  have split: "items = take i items @ ?it # drop (Suc i) items"
    using assms(2) by (rule id_take_nth_drop)
  have bytes: "call_list_bytes items = ?count # ?pre @ call_item_bytes ?it @ ?post"
    unfolding call_list_bytes_def by (subst (2) split) simp
  have cnt: "unat ?count = length items"
    using assms(1) by (simp add: unat_of_nat)
  have ok: "call_item_ok ?it" "\<forall>it \<in> set (take i items @ [?it]). call_item_ok it"
    using assms(2,3) by (auto dest: in_set_takeD)
  have walk: "call_list_walk (Suc i) (call_list_bytes items) 0 1 =
      Done (off, off + length (call_item_bytes ?it))"
    using call_list_walk_items [OF ok(2), of "[?count]" ?post 0] assms(2)
    by (simp add: bytes off_def del: call_list_walk.simps)
  have drop_off: "drop off (call_list_bytes items) = call_item_bytes ?it @ ?post"
    by (simp add: bytes off_def)
  have len: "off + length (call_item_bytes ?it) \<le> length (call_list_bytes items)"
    by (simp add: bytes off_def)
  have "?count \<noteq> 0"
    using cnt assms(2) by (metis not_less_zero unsigned_0)
  then have "ipc_call_list_entry_extract (Some (call_list_bytes items)) i = Done off"
    using walk cnt assms(2) len
    by (simp add: ipc_call_list_entry_extract_def ipc_call_list_count_extract_def bytes
        sizeof_call_list_header_def del: call_list_walk.simps)
  moreover have "take 8 (drop off (call_list_bytes items)) = call_list_entry_bytes (fst ?it)"
    by (simp add: drop_off call_item_bytes_def call_list_entry_bytes_def)
  moreover have "ipc_call_list_entry_number_extract (Some (drop off (call_list_bytes items))) =
      Done (snd ?it @ [0])"
    using ok(1) by (simp add: drop_off ipc_call_list_entry_number_extract_def peek8_def
        call_item_bytes_def call_list_entry_bytes_def sizeof_call_list_entry_def call_item_ok_def
        strncpy_from_id)
  ultimately show ?thesis by simp
qed

theorem call_list_entry_found_witness:
  "ipc_call_list_entry_extract (Some (call_list_bytes
     [(\<lparr>cle_unknown1 = 0, cle_type = 1, cle_id = 1, cle_term = 1, cle_status = 1, cle_mpty = 0,
        cle_number_length = 2, cle_unknown2 = 0\<rparr>, [0x31, 0x32])])) 0 = Done 1"
  using call_list_entry_found [of "[(\<lparr>cle_unknown1 = 0, cle_type = 1, cle_id = 1, cle_term = 1,
      cle_status = 1, cle_mpty = 0, cle_number_length = 2, cle_unknown2 = 0\<rparr>, [0x31, 0x32])]" 0]
  by (simp add: call_item_ok_def)

text \<open>
  Whatever bytes the modem sent: when the extraction returns an entry, the entry and its
  number lie inside the block, and reading the number at that entry never leaves the block.
\<close>

theorem call_list_entry_in_bounds:
  assumes "ipc_call_list_entry_extract (Some bs) i = Done e"
  shows "e + 8 + unat (bs ! (e + 6)) \<le> length bs \<and>
    (\<exists>number. ipc_call_list_entry_number_extract (Some (drop e bs)) = Done number \<and>
       length number = unat (bs ! (e + 6)) + 1)"
proof -
  from assms obtain off where walk: "call_list_walk (Suc i) bs 0 1 = Done (e, off)"
      and off: "off \<le> length bs"
    by (auto simp: ipc_call_list_entry_extract_def Let_def obind_Done_iff
        sizeof_call_list_header_def simp del: call_list_walk.simps split: if_splits)
  from call_list_walk_bounds [OF walk] off
  have len: "e + 8 + unat (bs ! (e + 6)) \<le> length bs" by simp
  then have "6 < length bs - e" and "unat (bs ! (e + 6)) \<le> length bs - (8 + e)" by simp_all
  with len show ?thesis
    by (simp add: ipc_call_list_entry_number_extract_def peek8_def sizeof_call_list_entry_def
        strncpy_from_def)
qed

theorem call_list_entry_in_bounds_witness:
  "(1::nat) + 8 + unat ([1, 0, 1, 1, 1, 1, 0, 1, 0, 0x35 :: u8] ! (1 + 6)) \<le>
     length [1, 0, 1, 1, 1, 1, 0, 1, 0, 0x35 :: u8]"
proof -
  have "ipc_call_list_entry_extract (Some [1, 0, 1, 1, 1, 1, 0, 1, 0, 0x35]) 0 = Done 1"
    by code_simp
  from call_list_entry_in_bounds [OF this] show ?thesis by simp
qed

text \<open>
  The bounds test comes after the walk: on a block that ends before the entries its count
  announces, the walk itself reads past the end.
\<close>

lemma call_list_entry_over_read: "ipc_call_list_entry_extract (Some [1]) 0 = Undef"
  by code_simp

text \<open>
  An outgoing call request stores the requested parameters and the first 86 bytes of the
  number in its fixed field, with the length byte telling how many of them are valid.
\<close>

theorem call_outgoing_number:
  assumes "ipc_call_outgoing_setup data type identity prefix (Some number) = Done d"
  shows "co_type d = type \<and> co_identity d = identity \<and> co_prefix d = prefix \<and>
    length (co_number d) = 86 \<and>
    take (unat (co_number_length d)) (co_number d) = take 86 (cstr number)"
  using assms
  by (auto simp: ipc_call_outgoing_setup_def clip_length_byte clip_field_prefix
      split: option.splits)

theorem call_outgoing_number_witness:
  "\<exists>d. ipc_call_outgoing_setup (Some \<lparr>co_unknown = 9, co_type = 9, co_identity = 9,
      co_number_length = 9, co_prefix = 9, co_number = []\<rparr>) 1 0 0x11 (Some [0x31, 0x32, 0x33]) =
      Done d \<and> take (unat (co_number_length d)) (co_number d) = take 86 (cstr [0x31, 0x32, 0x33])"
proof -
  obtain d where "ipc_call_outgoing_setup (Some \<lparr>co_unknown = 9, co_type = 9, co_identity = 9,
      co_number_length = 9, co_prefix = 9, co_number = []\<rparr>) 1 0 0x11 (Some [0x31, 0x32, 0x33]) = Done d"
    by (simp add: ipc_call_outgoing_setup_def)
  with call_outgoing_number [OF this] show ?thesis by blast
qed

text \<open>The DTMF burst is the count followed by exactly that many entries.\<close>

lemma call_burst_dtmf_bytes:
  assumes "length es = unat count"
  shows "ipc_call_burst_dtmf_setup (Some es) count =
    Done (count # concat (map dtmf_entry_bytes es))"
proof -
  have "length (concat (map dtmf_entry_bytes es)) = length es * 2" for es
    by (induction es) (auto simp: dtmf_entry_bytes_def)
  then have len: "length (concat (map dtmf_entry_bytes es)) = unat count * 2"
    by (simp add: assms)
  with peek_prefix [OF len, of "[]"] poke_calloc [of "concat (map dtmf_entry_bytes es)" _ "[count]"]
  show ?thesis
    by (simp add: ipc_call_burst_dtmf_setup_def ipc_call_burst_dtmf_size_setup_def mem_simps)
qed

end
