(* ===== verification/Extract.thy ===== *)
theory Extract
  imports Protocol
begin

text \<open>
  Two contracts that several message families share.

  \<open>sized_payload\<close>: a header of fixed size holds the length of the payload behind it; one
  function returns the length and one the payload, and both refuse a length that does not fit
  the block. The SMS, SEC and RFS extractors provide it.

  \<open>fixed_entries\<close>: a count byte followed by entries of one size; a function returns the
  \<open>index\<close>-th entry. The NET and SVC list extractors provide it.
\<close>

section \<open>A payload behind a header with a length\<close>

locale sized_payload =
  fixes hdr :: nat
    and len_of :: "u8 list \<Rightarrow> nat"
    and size_extract :: "u8 list option \<Rightarrow> nat outcome"
    and region_of :: "u8 list option \<Rightarrow> nat outcome"
  assumes region_None: "region_of None = Fail"
    and region_short: "length bs < hdr \<Longrightarrow> region_of (Some bs) = Fail"
    and region_eq: "hdr \<le> length bs \<Longrightarrow> region_of (Some bs) =
        (if len_of bs = 0 \<or> length bs - hdr < len_of bs then Fail else Done hdr)"
    and size_extract_eq: "hdr \<le> length bs \<Longrightarrow> size_extract (Some bs) =
        (if len_of bs = 0 \<or> length bs - hdr < len_of bs then Done 0 else Done (len_of bs))"
begin

lemma never_undef: "region_of data \<noteq> Undef"
  by (cases data; cases "length (the data) < hdr")
    (auto simp: region_None region_short region_eq)

text \<open>The returned region lies behind the header and inside the block.\<close>

lemma region_in_bounds:
  assumes "region_of (Some bs) = Done off"
  shows "\<exists>n. size_extract (Some bs) = Done n \<and> 0 < n \<and> off = hdr \<and> off + n \<le> length bs"
proof -
  have "hdr \<le> length bs"
    using assms region_short [of bs] by (cases "length bs < hdr") auto
  with assms region_eq size_extract_eq show ?thesis
    by (auto split: if_splits)
qed

text \<open>The two functions agree on which blocks carry a payload.\<close>

lemma sizes_agree:
  assumes "hdr \<le> length bs"
  shows "region_of (Some bs) = Fail \<longleftrightarrow> size_extract (Some bs) = Done 0"
  using assms by (auto simp: region_eq size_extract_eq)

text \<open>A well-formed block yields its payload.\<close>

lemma payload_found:
  assumes "length h = hdr" and "len_of (h @ p @ rest) = length p" and "p \<noteq> []"
  shows "region_of (Some (h @ p @ rest)) = Done hdr \<and>
    size_extract (Some (h @ p @ rest)) = Done (length p) \<and>
    take (length p) (drop hdr (h @ p @ rest)) = p"
  using assms by (simp add: region_eq size_extract_eq)

end

section \<open>Entries of one size behind a count\<close>

text \<open>
  The loop all these extractors run: \<open>n\<close> iterations left, each remembers the current offset as
  the entry and moves one entry on.
\<close>

fun entry_walk :: "nat \<Rightarrow> nat \<Rightarrow> nat \<Rightarrow> nat \<Rightarrow> nat \<times> nat" where
  "entry_walk 0 esize entry off = (entry, off)"
| "entry_walk (Suc n) esize entry off = entry_walk n esize off (off + esize)"

lemma entry_walk_Suc:
  "entry_walk (Suc n) esize entry off = (off + n * esize, off + n * esize + esize)"
  by (induction n arbitrary: entry off) auto

locale fixed_entries =
  fixes esize :: nat
    and entry_extract :: "u8 list option \<Rightarrow> nat \<Rightarrow> nat outcome"
  assumes entry_extract_eq: "entry_extract (Some bs) i =
        (if bs = [] \<or> bs ! 0 = 0 \<or> unat (bs ! 0) \<le> i \<or> length bs < 1 + i * esize + esize
         then Fail else Done (1 + i * esize))"
begin

lemma entry_in_bounds:
  assumes "entry_extract (Some bs) i = Done e"
  shows "i < unat (bs ! 0) \<and> e = 1 + i * esize \<and> e + esize \<le> length bs"
  using assms by (auto simp: entry_extract_eq split: if_splits)

text \<open>Distinct indices give disjoint entries.\<close>

lemma entries_disjoint:
  assumes "entry_extract (Some bs) i = Done e" and "entry_extract (Some bs) j = Done e'" and "i < j"
  shows "e + esize \<le> e'"
proof -
  have "i * esize + esize = Suc i * esize" by simp
  also have "\<dots> \<le> j * esize" using assms(3) by (intro mult_le_mono1) simp
  finally show ?thesis
    using assms(1,2) by (auto simp: entry_extract_eq split: if_splits)
qed

text \<open>The entries of a well-formed list are found at their index.\<close>

lemma entry_found:
  assumes "length es < 256" and "i < length es" and "\<forall>e \<in> set es. length e = esize"
  shows "\<exists>off. entry_extract (Some (of_nat (length es) # concat es)) i = Done off \<and>
    take esize (drop off (of_nat (length es) # concat es)) = es ! i"
proof -
  let ?bs = "of_nat (length es) # concat es :: u8 list"
  have cnt: "unat (of_nat (length es) :: u8) = length es"
    using assms(1) by (simp add: unat_of_nat)
  have len: "length (concat xs) = length xs * esize" if "\<forall>e \<in> set xs. length e = esize" for xs :: "u8 list list"
    using that by (induction xs) auto
  have "take i es @ es ! i # drop (Suc i) es = es"
    using assms(2) by (simp add: id_take_nth_drop [symmetric])
  then have split: "concat es = concat (take i es) @ es ! i @ concat (drop (Suc i) es)"
    by (metis concat.simps(2) concat_append)
  have pre: "length (concat (take i es)) = i * esize"
    using len [of "take i es"] assms(2,3) by (auto dest: in_set_takeD)
  have "length (es ! i) = esize" using assms(2,3) by simp
  then have "take esize (drop (1 + i * esize) ?bs) = es ! i"
    and "1 + i * esize + esize \<le> length ?bs"
    by (simp_all add: split pre)
  moreover have "(of_nat (length es) :: u8) \<noteq> 0"
    using cnt assms(2) by (metis not_less_zero unsigned_0)
  ultimately show ?thesis
    using cnt assms(2) by (simp add: entry_extract_eq)
qed

end

end
