(* ===== verification/Sms.thy ===== *)
theory Sms
  imports Extract
begin

text \<open>
  samsung-ipc/sms.c with the structures of include/sms.h: building the send, save and delete
  requests, and extracting the PDU of an incoming message and the service-centre address.
\<close>

section \<open>Structures\<close>

record ipc_sms_send_msg_request_header =
  ssm_type :: u8
  ssm_msg_type :: u8
  ssm_unknown :: u8
  ssm_length :: u8

record ipc_sms_save_msg_request_header =
  svm_magic :: u8
  svm_index :: u16
  svm_status :: u8
  svm_length :: u8

record ipc_sms_del_msg_request_data =
  sdm_magic :: u8
  sdm_index :: u16

definition send_msg_header_bytes :: "ipc_sms_send_msg_request_header \<Rightarrow> u8 list" where
  "send_msg_header_bytes h = [ssm_type h, ssm_msg_type h, ssm_unknown h, ssm_length h]"

definition save_msg_header_bytes :: "ipc_sms_save_msg_request_header \<Rightarrow> u8 list" where
  "save_msg_header_bytes h =
     [svm_magic h] @ le16 (svm_index h) @ [svm_status h, svm_length h]"

section \<open>Sending a message\<close>

definition ipc_sms_send_msg_size_setup ::
  "ipc_sms_send_msg_request_header option \<Rightarrow> u8 list option \<Rightarrow> u8 list option \<Rightarrow> nat" where
  "ipc_sms_send_msg_size_setup header smsc pdu =
     (case (header, smsc, pdu) of
        (Some _, Some s, Some p) \<Rightarrow>
          if length s = 0 \<or> length p = 0 then 0 else 4 + 1 + length s + length p
      | _ \<Rightarrow> 0)"

text \<open>The result is the allocated block and the caller's header, whose length the call sets.\<close>

definition ipc_sms_send_msg_setup ::
  "ipc_sms_send_msg_request_header option \<Rightarrow> u8 list option \<Rightarrow> u8 list option \<Rightarrow>
   (u8 list \<times> ipc_sms_send_msg_request_header) outcome" where
  "ipc_sms_send_msg_setup header smsc pdu =
     (case (header, smsc, pdu) of
        (Some h, Some s, Some p) \<Rightarrow>
          if length s = 0 \<or> length p = 0 then Fail
          else
            let smsc_length = of_nat (length s);
                h' = h\<lparr>ssm_length := of_nat (1 + length s + length p)\<rparr>;
                size = ipc_sms_send_msg_size_setup (Some h') smsc pdu
            in if size = 0 then Fail
               else obind (pokes 0 [send_msg_header_bytes h', [smsc_length], s, p] (calloc size))
                      (\<lambda>block. Done (block, h'))
      | _ \<Rightarrow> Fail)"

section \<open>Incoming messages\<close>

definition ipc_sms_incoming_msg_pdu_size_extract :: "u8 list option \<Rightarrow> nat outcome" where
  "ipc_sms_incoming_msg_pdu_size_extract data =
     (case data of None \<Rightarrow> Undef
      | Some bs \<Rightarrow>
          obind (peek8 5 bs) (\<lambda>len.
            if len = 0 \<or> length bs - 6 < unat len then Done 0 else Done (unat len)))"

definition ipc_sms_incoming_msg_pdu_extract :: "u8 list option \<Rightarrow> nat outcome" where
  "ipc_sms_incoming_msg_pdu_extract data =
     (case data of None \<Rightarrow> Fail
      | Some bs \<Rightarrow>
          if length bs < 6 then Fail
          else obind (peek8 5 bs) (\<lambda>len.
            if len = 0 \<or> length bs - 6 < unat len then Fail else Done 6))"

section \<open>Saving and deleting a message\<close>

definition ipc_sms_save_msg_size_setup ::
  "ipc_sms_save_msg_request_header option \<Rightarrow> u8 list option \<Rightarrow> u8 list option \<Rightarrow> nat" where
  "ipc_sms_save_msg_size_setup header smsc pdu =
     (case (header, pdu) of
        (Some _, Some p) \<Rightarrow>
          if length p = 0 then 0
          else 5 + 1 + (case smsc of None \<Rightarrow> 0 | Some s \<Rightarrow> length s) + length p
      | _ \<Rightarrow> 0)"

definition ipc_sms_save_msg_setup ::
  "ipc_sms_save_msg_request_header option \<Rightarrow> u8 list option \<Rightarrow> u8 list option \<Rightarrow>
   (u8 list \<times> ipc_sms_save_msg_request_header) outcome" where
  "ipc_sms_save_msg_setup header smsc pdu =
     (case (header, pdu) of
        (Some h, Some p) \<Rightarrow>
          if length p = 0 then Fail
          else
            let smsc_size = (case smsc of None \<Rightarrow> 0 | Some s \<Rightarrow> length s);
                smsc_length = of_nat smsc_size;
                h' = h\<lparr>svm_magic := 2, svm_index := 12 - 1,
                       svm_length := of_nat (1 + smsc_size + length p)\<rparr>;
                size = ipc_sms_save_msg_size_setup (Some h') smsc pdu;
                smsc_part = (case smsc of Some s \<Rightarrow> if 0 < smsc_size then [s] else [] | None \<Rightarrow> [])
            in if size = 0 then Fail
               else obind (pokes 0 ([save_msg_header_bytes h', [smsc_length]] @ smsc_part @ [p])
                             (calloc size))
                      (\<lambda>block. Done (block, h'))
      | _ \<Rightarrow> Fail)"

definition ipc_sms_del_msg_setup ::
  "ipc_sms_del_msg_request_data option \<Rightarrow> u16 \<Rightarrow> ipc_sms_del_msg_request_data outcome" where
  "ipc_sms_del_msg_setup data index =
     (case data of None \<Rightarrow> Fail
      | Some _ \<Rightarrow> Done \<lparr>sdm_magic = 2, sdm_index = index\<rparr>)"

section \<open>Service-centre address\<close>

definition ipc_sms_svc_center_addr_smsc_size_extract :: "u8 list option \<Rightarrow> nat outcome" where
  "ipc_sms_svc_center_addr_smsc_size_extract data =
     (case data of None \<Rightarrow> Done 0
      | Some bs \<Rightarrow>
          if length bs < 1 then Done 0
          else obind (peek8 0 bs) (\<lambda>len.
            if len = 0 \<or> length bs - 1 < unat len then Done 0 else Done (unat len)))"

definition ipc_sms_svc_center_addr_smsc_extract :: "u8 list option \<Rightarrow> nat outcome" where
  "ipc_sms_svc_center_addr_smsc_extract data =
     (case data of None \<Rightarrow> Fail
      | Some bs \<Rightarrow>
          if length bs < 1 then Fail
          else obind (peek8 0 bs) (\<lambda>len.
            if len = 0 \<or> length bs - 1 < unat len then Fail else Done 1))"

section \<open>The extractors as sized payloads\<close>

interpretation sms_incoming: sized_payload 6 "\<lambda>bs. unat (bs ! 5)"
    ipc_sms_incoming_msg_pdu_size_extract ipc_sms_incoming_msg_pdu_extract
  by unfold_locales
    (auto simp: ipc_sms_incoming_msg_pdu_size_extract_def ipc_sms_incoming_msg_pdu_extract_def
      peek8_def unat_eq_zero)

interpretation sms_svc_center: sized_payload 1 "\<lambda>bs. unat (bs ! 0)"
    ipc_sms_svc_center_addr_smsc_size_extract ipc_sms_svc_center_addr_smsc_extract
  by unfold_locales
    (auto simp: ipc_sms_svc_center_addr_smsc_size_extract_def
      ipc_sms_svc_center_addr_smsc_extract_def peek8_def unat_eq_zero)

section \<open>Properties\<close>

text \<open>
  A send request built from a header, a non-empty service-centre address and a non-empty
  PDU is the header with its length set, the address length, the address and the PDU, filling
  the block of the announced size exactly; nothing is written outside the block.
\<close>

theorem sms_send_layout:
  fixes h :: ipc_sms_send_msg_request_header
  assumes "smsc \<noteq> []" and "pdu \<noteq> []"
  defines "h' \<equiv> h\<lparr>ssm_length := of_nat (1 + length smsc + length pdu)\<rparr>"
  shows "ipc_sms_send_msg_setup (Some h) (Some smsc) (Some pdu) =
      Done (send_msg_header_bytes h' @ [of_nat (length smsc)] @ smsc @ pdu, h') \<and>
    length (send_msg_header_bytes h' @ [of_nat (length smsc)] @ smsc @ pdu) =
      ipc_sms_send_msg_size_setup (Some h) (Some smsc) (Some pdu)"
proof -
  let ?parts = "[send_msg_header_bytes h', [of_nat (length smsc)], smsc, pdu]"
  have "length (concat ?parts) = 4 + 1 + length smsc + length pdu"
    by (simp add: send_msg_header_bytes_def)
  then have "pokes 0 ?parts (calloc (4 + 1 + length smsc + length pdu)) = Done (concat ?parts)"
    by (rule pokes_exact)
  then show ?thesis
    using assms(1,2)
    by (simp add: ipc_sms_send_msg_setup_def ipc_sms_send_msg_size_setup_def Let_def h'_def
        send_msg_header_bytes_def del: pokes.simps)
qed

theorem sms_send_layout_witness:
  "ipc_sms_send_msg_setup (Some \<lparr>ssm_type = 2, ssm_msg_type = 2, ssm_unknown = 0, ssm_length = 0\<rparr>)
     (Some [0x91]) (Some [0x01, 0x02]) =
   Done ([2, 2, 0, 4, 1, 0x91, 1, 2],
     \<lparr>ssm_type = 2, ssm_msg_type = 2, ssm_unknown = 0, ssm_length = 4\<rparr>)"
  using sms_send_layout [of "[0x91]" "[0x01, 0x02]"
      "\<lparr>ssm_type = 2, ssm_msg_type = 2, ssm_unknown = 0, ssm_length = 0\<rparr>"]
  by (simp add: send_msg_header_bytes_def)

text \<open>
  A save request has the fixed magic and index, and its block holds the header, the address
  length (0 when there is no address), the address and the PDU.
\<close>

theorem sms_save_layout:
  fixes h :: ipc_sms_save_msg_request_header and smsc :: "u8 list option"
  assumes "pdu \<noteq> []"
  defines "s \<equiv> (case smsc of None \<Rightarrow> [] | Some s \<Rightarrow> s)"
  defines "h' \<equiv> h\<lparr>svm_magic := 2, svm_index := 11, svm_length := of_nat (1 + length s + length pdu)\<rparr>"
  shows "ipc_sms_save_msg_setup (Some h) smsc (Some pdu) =
    Done (save_msg_header_bytes h' @ [of_nat (length s)] @ s @ pdu, h')"
proof -
  let ?sp = "if s = [] then [] else [s]"
  let ?parts = "[save_msg_header_bytes h', [of_nat (length s)]] @ ?sp @ [pdu]"
  have "length (concat ?parts) = 5 + 1 + length s + length pdu"
    by (simp add: save_msg_header_bytes_def)
  then have "pokes 0 ?parts (calloc (5 + 1 + length s + length pdu)) = Done (concat ?parts)"
    by (rule pokes_exact)
  moreover have "concat ?parts = save_msg_header_bytes h' @ [of_nat (length s)] @ s @ pdu"
    by simp
  ultimately show ?thesis
    using assms(1)
    by (cases smsc)
      (auto simp: ipc_sms_save_msg_setup_def ipc_sms_save_msg_size_setup_def Let_def h'_def s_def
        simp del: pokes.simps split: if_splits)
qed

theorem sms_save_layout_witness:
  "ipc_sms_save_msg_setup (Some \<lparr>svm_magic = 0, svm_index = 0, svm_status = 3, svm_length = 0\<rparr>)
     None (Some [0xAB]) =
   Done ([2, 11, 0, 3, 2, 0, 0xAB],
     \<lparr>svm_magic = 2, svm_index = 11, svm_status = 3, svm_length = 2\<rparr>)"
  using sms_save_layout [of "[0xAB]"
      "\<lparr>svm_magic = 0, svm_index = 0, svm_status = 3, svm_length = 0\<rparr>" None]
  by (simp add: save_msg_header_bytes_def le16_def)

text \<open>
  When the PDU of an incoming message is extracted, the region it designates starts behind
  the six-byte header, has the length the size function reports, and lies inside the block.
\<close>

theorem sms_incoming_pdu_in_bounds:
  assumes "ipc_sms_incoming_msg_pdu_extract (Some bs) = Done off"
  shows "\<exists>n. ipc_sms_incoming_msg_pdu_size_extract (Some bs) = Done n \<and> 0 < n \<and>
    off = 6 \<and> off + n \<le> length bs"
  using assms by (rule sms_incoming.region_in_bounds)

theorem sms_incoming_pdu_in_bounds_witness:
  "\<exists>n. ipc_sms_incoming_msg_pdu_size_extract (Some [2, 1, 0, 0, 1, 2, 0xAA, 0xBB]) = Done n \<and> 0 < n"
proof -
  have "ipc_sms_incoming_msg_pdu_extract (Some [2, 1, 0, 0, 1, 2, 0xAA, 0xBB]) = Done 6"
    by (simp add: ipc_sms_incoming_msg_pdu_extract_def peek8_def)
  from sms_incoming_pdu_in_bounds [OF this] show ?thesis by blast
qed

text \<open>
  The size function of incoming messages has no guard of its own: a null pointer or a block
  shorter than the header is undefined behaviour, where its sibling reports an error.
\<close>

lemma sms_incoming_size_unguarded:
  "ipc_sms_incoming_msg_pdu_size_extract None = Undef"
  "length bs < 6 \<Longrightarrow> ipc_sms_incoming_msg_pdu_size_extract (Some bs) = Undef"
  by (simp_all add: ipc_sms_incoming_msg_pdu_size_extract_def peek8_def)

end
