(* ===== verification/Sec.thy ===== *)
theory Sec
  imports Extract
begin

text \<open>
  samsung-ipc/sec.c with the structures of include/sec.h: PIN and password requests, raw SIM
  access in both directions, and the lock-information request.
\<close>

section \<open>Structures\<close>

record ipc_sec_pin_status_request_data =
  pin_type :: u8
  pin1_length :: u8
  pin2_length :: u8
  pin1 :: "u8 list"
  pin2 :: "u8 list"

record ipc_sec_phone_lock_request_set_data =
  pl_facility_type :: u8
  pl_active :: u8
  pl_password_length :: u8
  pl_password :: "u8 list"

record ipc_sec_change_locking_pw_data =
  clp_facility_type :: u8
  password_old_length :: u8
  password_new_length :: u8
  password_old :: "u8 list"
  password_new :: "u8 list"

record ipc_sec_rsim_access_request_header =
  rsim_command :: u8
  rsim_file_id :: u16
  rsim_p1 :: u8
  rsim_p2 :: u8
  rsim_p3 :: u8

record ipc_sec_lock_information_request_data =
  li_magic :: u8
  li_type :: u8

definition rsim_header_bytes :: "ipc_sec_rsim_access_request_header \<Rightarrow> u8 list" where
  "rsim_header_bytes h =
     [rsim_command h] @ le16 (rsim_file_id h) @ [rsim_p1 h, rsim_p2 h, rsim_p3 h]"

section \<open>PINs and passwords\<close>

definition ipc_sec_pin_status_setup ::
  "ipc_sec_pin_status_request_data option \<Rightarrow> u8 \<Rightarrow> u8 list option \<Rightarrow> u8 list option \<Rightarrow>
   ipc_sec_pin_status_request_data outcome" where
  "ipc_sec_pin_status_setup data type p1 p2 =
     (case data of None \<Rightarrow> Fail
      | Some _ \<Rightarrow>
          let d0 = \<lparr>pin_type = type, pin1_length = 0, pin2_length = 0,
                    pin1 = calloc 8, pin2 = calloc 8\<rparr>;
              d1 = (case p1 of None \<Rightarrow> d0
                    | Some s \<Rightarrow> d0\<lparr>pin1_length := of_nat (clip_length 8 s),
                                   pin1 := clip_field 8 s\<rparr>);
              d2 = (case p2 of None \<Rightarrow> d1
                    | Some s \<Rightarrow> d1\<lparr>pin2_length := of_nat (clip_length 8 s),
                                   pin2 := clip_field 8 s\<rparr>)
          in Done d2)"

definition ipc_sec_phone_lock_request_set_setup ::
  "ipc_sec_phone_lock_request_set_data option \<Rightarrow> u8 \<Rightarrow> u8 \<Rightarrow> u8 list option \<Rightarrow>
   ipc_sec_phone_lock_request_set_data outcome" where
  "ipc_sec_phone_lock_request_set_setup data facility_type active password =
     (case data of None \<Rightarrow> Fail
      | Some _ \<Rightarrow>
          let d0 = \<lparr>pl_facility_type = facility_type, pl_active = active,
                    pl_password_length = 0, pl_password = calloc 39\<rparr>
          in (case password of
                Some s \<Rightarrow> Done (d0\<lparr>pl_password_length := of_nat (clip_length 39 s),
                                    pl_password := clip_field 39 s\<rparr>)
              | None \<Rightarrow> Done (d0\<lparr>pl_password_length := 0\<rparr>)))"

definition ipc_sec_change_locking_pw_setup ::
  "ipc_sec_change_locking_pw_data option \<Rightarrow> u8 \<Rightarrow> u8 list option \<Rightarrow> u8 list option \<Rightarrow>
   ipc_sec_change_locking_pw_data outcome" where
  "ipc_sec_change_locking_pw_setup data facility_type old new =
     (case data of None \<Rightarrow> Fail
      | Some _ \<Rightarrow>
          let d0 = \<lparr>clp_facility_type = facility_type, password_old_length = 0,
                    password_new_length = 0, password_old = calloc 39, password_new = calloc 39\<rparr>;
              d1 = (case old of
                      Some s \<Rightarrow> d0\<lparr>password_old_length := of_nat (clip_length 39 s),
                                    password_old := clip_field 39 s\<rparr>
                    | None \<Rightarrow> d0\<lparr>password_old_length := 0\<rparr>);
              d2 = (case new of
                      Some s \<Rightarrow> d1\<lparr>password_new_length := of_nat (clip_length 39 s),
                                    password_new := clip_field 39 s\<rparr>
                    | None \<Rightarrow> d1\<lparr>password_new_length := 0\<rparr>)
          in Done d2)"

section \<open>Raw SIM access\<close>

definition ipc_sec_rsim_access_size_setup ::
  "ipc_sec_rsim_access_request_header option \<Rightarrow> u8 list option \<Rightarrow> nat" where
  "ipc_sec_rsim_access_size_setup header sim_io =
     (case header of None \<Rightarrow> 0
      | Some _ \<Rightarrow> 6 + (case sim_io of None \<Rightarrow> 0 | Some d \<Rightarrow> length d))"

definition ipc_sec_rsim_access_setup ::
  "ipc_sec_rsim_access_request_header option \<Rightarrow> u8 list option \<Rightarrow> u8 list outcome" where
  "ipc_sec_rsim_access_setup header sim_io =
     (case header of None \<Rightarrow> Fail
      | Some h \<Rightarrow>
          let size = ipc_sec_rsim_access_size_setup header sim_io;
              io_part = (case sim_io of Some d \<Rightarrow> if 0 < length d then [d] else [] | None \<Rightarrow> [])
          in if size = 0 then Fail
             else pokes 0 (rsim_header_bytes h # io_part) (calloc size))"

definition ipc_sec_rsim_access_size_extract :: "u8 list option \<Rightarrow> nat outcome" where
  "ipc_sec_rsim_access_size_extract data =
     (case data of None \<Rightarrow> Done 0
      | Some bs \<Rightarrow>
          if length bs < 3 then Done 0
          else obind (peek8 2 bs) (\<lambda>len.
            if len = 0 \<or> length bs - 3 < unat len then Done 0 else Done (unat len)))"

definition ipc_sec_rsim_access_extract :: "u8 list option \<Rightarrow> nat outcome" where
  "ipc_sec_rsim_access_extract data =
     (case data of None \<Rightarrow> Fail
      | Some bs \<Rightarrow>
          if length bs < 3 then Fail
          else obind (peek8 2 bs) (\<lambda>len.
            if len = 0 \<or> length bs - 3 < unat len then Fail else Done 3))"

interpretation sec_rsim: sized_payload 3 "\<lambda>bs. unat (bs ! 2)"
    ipc_sec_rsim_access_size_extract ipc_sec_rsim_access_extract
  by unfold_locales
    (auto simp: ipc_sec_rsim_access_size_extract_def ipc_sec_rsim_access_extract_def
      peek8_def unat_eq_zero)

section \<open>Lock information\<close>

definition ipc_sec_lock_information_setup ::
  "ipc_sec_lock_information_request_data option \<Rightarrow> u8 \<Rightarrow>
   ipc_sec_lock_information_request_data outcome" where
  "ipc_sec_lock_information_setup data type =
     (case data of None \<Rightarrow> Fail | Some _ \<Rightarrow> Done \<lparr>li_magic = 0x01, li_type = type\<rparr>)"

section \<open>Properties\<close>

text \<open>
  A locking-password change stores each password given in its own 39-byte field with its own
  length: the valid bytes of each field are the first 39 bytes of its password, and a password
  that is not given leaves its field cleared with length 0.
\<close>

theorem sec_change_pw_fields:
  assumes "ipc_sec_change_locking_pw_setup (Some d0) facility_type old new = Done d"
  defines "text \<equiv> (\<lambda>s. case s of None \<Rightarrow> [] | Some t \<Rightarrow> take 39 (cstr t))"
  shows "clp_facility_type d = facility_type \<and>
    length (password_old d) = 39 \<and> length (password_new d) = 39 \<and>
    take (unat (password_old_length d)) (password_old d) = text old \<and>
    take (unat (password_new_length d)) (password_new d) = text new"
  using assms(1)
  by (cases old; cases new)
    (auto simp: ipc_sec_change_locking_pw_setup_def text_def clip_length_byte clip_field_prefix)

theorem sec_change_pw_fields_witness:
  "\<exists>d. ipc_sec_change_locking_pw_setup (Some \<lparr>clp_facility_type = 0, password_old_length = 0,
      password_new_length = 0, password_old = [], password_new = []\<rparr>) 3 (Some [0x31]) None = Done d \<and>
    take (unat (password_old_length d)) (password_old d) = [0x31]"
proof -
  obtain d where d: "ipc_sec_change_locking_pw_setup (Some \<lparr>clp_facility_type = 0,
      password_old_length = 0, password_new_length = 0, password_old = [], password_new = []\<rparr>)
      3 (Some [0x31]) None = Done d"
    by (simp add: ipc_sec_change_locking_pw_setup_def)
  show ?thesis using d sec_change_pw_fields [OF d] by (simp add: cstr_def)
qed

lemma sec_pin_fields:
  assumes "ipc_sec_pin_status_setup (Some d0) type (Some p1) (Some p2) = Done d"
  shows "take (unat (pin1_length d)) (pin1 d) = take 8 (cstr p1) \<and>
    take (unat (pin2_length d)) (pin2 d) = take 8 (cstr p2) \<and>
    length (pin1 d) = 8 \<and> length (pin2 d) = 8"
  using assms
  by (auto simp: ipc_sec_pin_status_setup_def clip_length_byte clip_field_prefix)

text \<open>A SIM access request is its header followed by the data, in a block of exactly that size.\<close>

lemma sec_rsim_layout:
  "ipc_sec_rsim_access_setup (Some h) sim_io =
     Done (rsim_header_bytes h @ (case sim_io of None \<Rightarrow> [] | Some d \<Rightarrow> d))"
proof -
  let ?d = "case sim_io of None \<Rightarrow> [] | Some d \<Rightarrow> d"
  let ?parts = "rsim_header_bytes h # (if ?d = [] then [] else [?d])"
  have "length (concat ?parts) = 6 + length ?d"
    by (simp add: rsim_header_bytes_def)
  then have "pokes 0 ?parts (calloc (6 + length ?d)) = Done (concat ?parts)"
    by (rule pokes_exact)
  then show ?thesis
    by (cases sim_io)
      (auto simp: ipc_sec_rsim_access_setup_def ipc_sec_rsim_access_size_setup_def Let_def
        simp del: pokes.simps split: if_splits)
qed

text \<open>
  The SIM response: when the data is extracted, it starts behind the three-byte header, has
  the length the size function reports and lies inside the block.
\<close>

theorem sec_rsim_in_bounds:
  assumes "ipc_sec_rsim_access_extract (Some bs) = Done off"
  shows "\<exists>n. ipc_sec_rsim_access_size_extract (Some bs) = Done n \<and> 0 < n \<and>
    off = 3 \<and> off + n \<le> length bs"
  using assms by (rule sec_rsim.region_in_bounds)

theorem sec_rsim_in_bounds_witness:
  "\<exists>n. ipc_sec_rsim_access_size_extract (Some [0x90, 0, 1, 0x7F]) = Done n \<and> 0 < n"
proof -
  have "ipc_sec_rsim_access_extract (Some [0x90, 0, 1, 0x7F]) = Done 3"
    by (simp add: ipc_sec_rsim_access_extract_def peek8_def)
  from sec_rsim_in_bounds [OF this] show ?thesis by blast
qed

end
