(* ===== verification/Net.thy ===== *)
theory Net
  imports Extract
begin

text \<open>
  samsung-ipc/net.c and samsung-ipc/svc.c with the structures of include/net.h and
  include/svc.h: network selection and registration requests, the list of networks, and the
  service-mode screens.
\<close>

section \<open>Structures and values\<close>

definition IPC_NET_PLMN_SEL_AUTO :: u8 where "IPC_NET_PLMN_SEL_AUTO = 0x02"
definition IPC_NET_ACCESS_TECHNOLOGY_UNKNOWN :: u8 where
  "IPC_NET_ACCESS_TECHNOLOGY_UNKNOWN = 0xFF"
definition IPC_SVC_MODE_MONITOR :: u8 where "IPC_SVC_MODE_MONITOR = 0x04"

record ipc_net_plmn_sel_request_data =
  ps_mode_sel :: u8
  ps_plmn :: "u8 list"
  ps_act :: u8

record ipc_net_regist_request_data =
  rg_act :: u8
  rg_domain :: u8

record ipc_svc_enter_data =
  se_mode :: u8
  se_type :: u8
  se_magic :: u8

definition sizeof_plmn_list_entry :: nat where "sizeof_plmn_list_entry = 10"
definition sizeof_display_screen_entry :: nat where "sizeof_display_screen_entry = 34"

section \<open>Network selection\<close>

definition ipc_net_plmn_sel_setup ::
  "ipc_net_plmn_sel_request_data option \<Rightarrow> u8 \<Rightarrow> u8 list option \<Rightarrow> u8 \<Rightarrow>
   ipc_net_plmn_sel_request_data outcome" where
  "ipc_net_plmn_sel_setup data mode_sel plmn act =
     (case data of None \<Rightarrow> Fail
      | Some _ \<Rightarrow>
          let d0 = \<lparr>ps_mode_sel = mode_sel, ps_plmn = calloc 6, ps_act = 0\<rparr> in
          if mode_sel = IPC_NET_PLMN_SEL_AUTO
          then Done (d0\<lparr>ps_act := IPC_NET_ACCESS_TECHNOLOGY_UNKNOWN\<rparr>)
          else
            (case plmn of None \<Rightarrow> Undef
             | Some s \<Rightarrow>
                 let plmn_length = clip_length 6 s in
                 obind (poke 0 (take plmn_length s) (ps_plmn d0)) (\<lambda>field.
                 obind (if plmn_length < 6
                        then poke plmn_length (replicate (6 - plmn_length) 0x23) field
                        else Done field) (\<lambda>field'.
                 Done (d0\<lparr>ps_plmn := field', ps_act := act\<rparr>)))))"

definition ipc_net_regist_setup ::
  "ipc_net_regist_request_data option \<Rightarrow> u8 \<Rightarrow> ipc_net_regist_request_data outcome" where
  "ipc_net_regist_setup data domain =
     (case data of None \<Rightarrow> Fail
      | Some _ \<Rightarrow> Done \<lparr>rg_act = IPC_NET_ACCESS_TECHNOLOGY_UNKNOWN, rg_domain = domain\<rparr>)"

section \<open>The list of networks\<close>

definition ipc_net_plmn_list_count_extract :: "u8 list option \<Rightarrow> u8" where
  "ipc_net_plmn_list_count_extract data =
     (case data of None \<Rightarrow> 0 | Some bs \<Rightarrow> if length bs < 1 then 0 else bs ! 0)"

definition ipc_net_plmn_list_entry_extract :: "u8 list option \<Rightarrow> nat \<Rightarrow> nat outcome" where
  "ipc_net_plmn_list_entry_extract data index =
     (case data of None \<Rightarrow> Fail
      | Some bs \<Rightarrow>
          let count = ipc_net_plmn_list_count_extract data in
          if count = 0 \<or> unat count \<le> index then Fail
          else
            let (entry, off) = entry_walk (index + 1) sizeof_plmn_list_entry 0 1 in
            if length bs < off then Fail else Done entry)"

section \<open>Service mode\<close>

definition ipc_svc_enter_setup ::
  "ipc_svc_enter_data option \<Rightarrow> u8 \<Rightarrow> u8 \<Rightarrow> ipc_svc_enter_data outcome" where
  "ipc_svc_enter_setup data mode type =
     (case data of None \<Rightarrow> Fail
      | Some _ \<Rightarrow> Done \<lparr>se_mode = mode, se_type = type,
                         se_magic = (if mode = IPC_SVC_MODE_MONITOR then 0x00 else 0x10)\<rparr>)"

definition ipc_svc_display_screen_count_extract :: "u8 list option \<Rightarrow> u8" where
  "ipc_svc_display_screen_count_extract data =
     (case data of None \<Rightarrow> 0 | Some bs \<Rightarrow> if length bs < 1 then 0 else bs ! 0)"

definition ipc_svc_display_screen_extract :: "u8 list option \<Rightarrow> nat \<Rightarrow> nat outcome" where
  "ipc_svc_display_screen_extract data index =
     (case data of None \<Rightarrow> Fail
      | Some bs \<Rightarrow>
          let count = ipc_svc_display_screen_count_extract data in
          if count = 0 \<or> unat count \<le> index then Fail
          else
            let (entry, off) = entry_walk (index + 1) sizeof_display_screen_entry 0 1 in
            if length bs < off then Fail else Done entry)"

section \<open>Both lists have entries of one size\<close>

interpretation net_plmn: fixed_entries sizeof_plmn_list_entry ipc_net_plmn_list_entry_extract
  by unfold_locales
    (auto simp: ipc_net_plmn_list_entry_extract_def ipc_net_plmn_list_count_extract_def
      entry_walk_Suc Let_def simp del: entry_walk.simps)

interpretation svc_screen: fixed_entries sizeof_display_screen_entry ipc_svc_display_screen_extract
  by unfold_locales
    (auto simp: ipc_svc_display_screen_extract_def ipc_svc_display_screen_count_extract_def
      entry_walk_Suc Let_def simp del: entry_walk.simps)

section \<open>Properties\<close>

text \<open>
  Manual network selection fills the six PLMN bytes with the given code, clipped to six
  bytes and padded with \<open>#\<close> when it is shorter; the access technology is the caller's.
\<close>

theorem net_plmn_sel_manual:
  assumes "mode_sel \<noteq> IPC_NET_PLMN_SEL_AUTO"
  shows "ipc_net_plmn_sel_setup (Some d0) mode_sel (Some plmn) act =
    Done \<lparr>ps_mode_sel = mode_sel,
          ps_plmn = take 6 (cstr plmn) @ replicate (6 - length (cstr plmn)) 0x23,
          ps_act = act\<rparr>"
proof -
  have "take (clip_length 6 plmn) plmn = take 6 (cstr plmn)"
  proof -
    have "take (length (cstr plmn)) plmn = cstr plmn"
      unfolding cstr_def by (metis takeWhile_eq_take length_takeWhile_le take_eq_Nil
          take_all_iff takeWhile_dropWhile_id append_eq_conv_conj)
    then show ?thesis
      by (simp add: clip_length_def strlen_def) (metis min.strict_order_iff min_def take_take)
  qed
  moreover have "clip_length 6 plmn = length (take 6 (cstr plmn))"
    by (simp add: clip_length_def strlen_def)
  ultimately show ?thesis
    using assms
    by (auto simp: ipc_net_plmn_sel_setup_def Let_def poke_def calloc_def min_def)
qed

theorem net_plmn_sel_manual_witness:
  "ipc_net_plmn_sel_setup (Some \<lparr>ps_mode_sel = 0, ps_plmn = [], ps_act = 0\<rparr>) 0x03
     (Some [0x32, 0x30, 0x38, 0x30, 0x31]) 0x04 =
   Done \<lparr>ps_mode_sel = 0x03, ps_plmn = [0x32, 0x30, 0x38, 0x30, 0x31, 0x23], ps_act = 0x04\<rparr>"
  using net_plmn_sel_manual [of "0x03" "\<lparr>ps_mode_sel = 0, ps_plmn = [], ps_act = 0\<rparr>"
      "[0x32, 0x30, 0x38, 0x30, 0x31]" "0x04"]
  by (simp add: IPC_NET_PLMN_SEL_AUTO_def cstr_def)

text \<open>Automatic selection ignores the network code; manual selection dereferences it unchecked.\<close>

lemma net_plmn_sel_auto:
  "ipc_net_plmn_sel_setup (Some d0) IPC_NET_PLMN_SEL_AUTO plmn act =
     Done \<lparr>ps_mode_sel = IPC_NET_PLMN_SEL_AUTO, ps_plmn = calloc 6,
           ps_act = IPC_NET_ACCESS_TECHNOLOGY_UNKNOWN\<rparr>"
  by (simp add: ipc_net_plmn_sel_setup_def)

lemma net_plmn_sel_null:
  "mode_sel \<noteq> IPC_NET_PLMN_SEL_AUTO \<Longrightarrow>
   ipc_net_plmn_sel_setup (Some d0) mode_sel None act = Undef"
  by (simp add: ipc_net_plmn_sel_setup_def)

text \<open>
  Every network of a well-formed list of fewer than 256 networks is found at its index.
\<close>

theorem net_plmn_entry_found:
  assumes "length es < 256" and "i < length es"
    and "\<forall>e \<in> set es. length e = sizeof_plmn_list_entry"
  shows "\<exists>off. ipc_net_plmn_list_entry_extract (Some (of_nat (length es) # concat es)) i = Done off \<and>
    take sizeof_plmn_list_entry (drop off (of_nat (length es) # concat es)) = es ! i"
  using assms by (rule net_plmn.entry_found)

theorem net_plmn_entry_found_witness:
  "\<exists>off. ipc_net_plmn_list_entry_extract
     (Some (of_nat (length [replicate 10 7, replicate 10 9]) #
        concat [replicate 10 7, replicate 10 (9 :: u8)])) 1 = Done off"
proof -
  have "\<forall>e \<in> set [replicate 10 7, replicate 10 (9 :: u8)]. length e = sizeof_plmn_list_entry"
    by (simp add: sizeof_plmn_list_entry_def)
  from net_plmn_entry_found [OF _ _ this, of 1] show ?thesis by auto
qed

text \<open>
  Whatever bytes arrive, a service screen entry that is returned lies inside the block, at
  the place its index determines.
\<close>

theorem svc_screen_in_bounds:
  assumes "ipc_svc_display_screen_extract (Some bs) i = Done e"
  shows "i < unat (bs ! 0) \<and> e = 1 + i * sizeof_display_screen_entry \<and>
    e + sizeof_display_screen_entry \<le> length bs"
  using assms by (rule svc_screen.entry_in_bounds)

theorem svc_screen_in_bounds_witness:
  "(1::nat) + sizeof_display_screen_entry \<le> length ((1 :: u8) # replicate 34 0)"
proof -
  have "ipc_svc_display_screen_extract (Some (1 # replicate 34 0)) 0 = Done 1"
    by (simp add: ipc_svc_display_screen_extract_def ipc_svc_display_screen_count_extract_def
        sizeof_display_screen_entry_def)
  from svc_screen_in_bounds [OF this] show ?thesis by blast
qed

end
