(* ===== verification/Misc.thy ===== *)
theory Misc
  imports Protocol
begin

text \<open>
  samsung-ipc/misc.c, gprs.c and gen.c with the structures of include/misc.h, gprs.h and gen.h:
  identity strings, packet-data contexts, the port list and the generic response check.
\<close>

section \<open>Structures\<close>

record ipc_misc_me_version_request_data =
  mv_magic :: u8

record ipc_misc_me_sn_response_data =
  sn_type :: u8
  sn_length :: u8
  sn_data :: "u8 list"

record ipc_gprs_define_pdp_context_data =
  dpc_enable :: u8
  dpc_cid :: u8
  dpc_magic :: u8
  dpc_apn :: "u8 list"

record ipc_gprs_pdp_context_request_set_data =
  pcs_enable :: u8
  pcs_cid :: u8
  pcs_magic1 :: "u8 list"
  pcs_username :: "u8 list"
  pcs_password :: "u8 list"
  pcs_unknown :: "u8 list"
  pcs_magic2 :: u8

record ipc_gen_phone_res_data =
  gpr_group :: u8
  gpr_index :: u8
  gpr_type :: u8
  gpr_code :: u16

definition IPC_GEN_PHONE_RES_CODE_SUCCESS :: u16 where
  "IPC_GEN_PHONE_RES_CODE_SUCCESS = 0x8000"

section \<open>Identity strings\<close>

definition ipc_misc_me_version_setup ::
  "ipc_misc_me_version_request_data option \<Rightarrow> ipc_misc_me_version_request_data outcome" where
  "ipc_misc_me_version_setup data =
     (case data of None \<Rightarrow> Fail | Some _ \<Rightarrow> Done \<lparr>mv_magic = 0xff\<rparr>)"

text \<open>The length byte of the header is not compared with the size of the block.\<close>

definition ipc_misc_me_imsi_imsi_extract :: "u8 list option \<Rightarrow> u8 list outcome" where
  "ipc_misc_me_imsi_imsi_extract data =
     (case data of None \<Rightarrow> Fail
      | Some bs \<Rightarrow>
          if length bs < 1 then Fail
          else obind (peek8 0 bs) (\<lambda>len.
               obind (strncpy_from (unat len) (drop 1 bs)) (\<lambda>imsi.
               Done (imsi @ [0]))))"

definition ipc_misc_me_sn_extract ::
  "ipc_misc_me_sn_response_data option \<Rightarrow> u8 list outcome" where
  "ipc_misc_me_sn_extract data =
     (case data of None \<Rightarrow> Fail
      | Some d \<Rightarrow>
          if 32 < unat (sn_length d) then Fail
          else obind (strncpy_from (unat (sn_length d)) (sn_data d)) (\<lambda>s. Done (s @ [0])))"

section \<open>Packet data\<close>

definition ipc_gprs_define_pdp_context_setup ::
  "ipc_gprs_define_pdp_context_data option \<Rightarrow> u8 \<Rightarrow> u8 \<Rightarrow> u8 list option \<Rightarrow>
   ipc_gprs_define_pdp_context_data outcome" where
  "ipc_gprs_define_pdp_context_setup data enable cid apn =
     (case (data, apn) of
        (Some _, Some s) \<Rightarrow>
          Done \<lparr>dpc_enable = enable, dpc_cid = cid, dpc_magic = 0x02, dpc_apn = strncpy 124 s\<rparr>
      | _ \<Rightarrow> Fail)"

definition ipc_gprs_pdp_context_request_set_setup ::
  "ipc_gprs_pdp_context_request_set_data option \<Rightarrow> u8 \<Rightarrow> u8 \<Rightarrow> u8 list option \<Rightarrow>
   u8 list option \<Rightarrow> ipc_gprs_pdp_context_request_set_data outcome" where
  "ipc_gprs_pdp_context_request_set_setup data enable cid username password =
     (case data of None \<Rightarrow> Fail
      | Some _ \<Rightarrow>
          let d0 = \<lparr>pcs_enable = enable, pcs_cid = cid, pcs_magic1 = calloc 4,
                    pcs_username = calloc 32, pcs_password = calloc 32,
                    pcs_unknown = calloc 32, pcs_magic2 = 0\<rparr>
          in (case (username, password) of
                (Some u, Some p) \<Rightarrow>
                  if enable \<noteq> 0
                  then Done (d0\<lparr>pcs_magic1 := (calloc 4)[2 := 0x13], pcs_magic2 := 0x01,
                                pcs_username := strncpy 32 u, pcs_password := strncpy 32 p\<rparr>)
                  else Done d0
              | _ \<Rightarrow> Done d0))"

definition gprs_port_list_magic :: "u8 list" where
  "gprs_port_list_magic = [0x02, 0x04, 0x16, 0x00, 0x17, 0x00, 0x87, 0x00, 0xBD, 0x01]"

definition ipc_gprs_port_list_setup :: "u8 list option \<Rightarrow> u8 list outcome" where
  "ipc_gprs_port_list_setup data =
     (case data of None \<Rightarrow> Fail | Some _ \<Rightarrow> poke 0 gprs_port_list_magic (calloc 804))"

section \<open>Generic responses\<close>

definition ipc_gen_phone_res_check :: "ipc_gen_phone_res_data option \<Rightarrow> int" where
  "ipc_gen_phone_res_check data =
     (case data of None \<Rightarrow> -1
      | Some d \<Rightarrow>
          if and (gpr_code d) IPC_GEN_PHONE_RES_CODE_SUCCESS \<noteq> 0 then 0 else -1)"

section \<open>Properties\<close>

text \<open>
  A subscriber identity reported in a block that holds as many bytes as its length byte
  announces is returned as a zero-terminated copy of them.
\<close>

theorem me_imsi_copied:
  assumes "length imsi = unat len" and "0 \<notin> set imsi"
  shows "ipc_misc_me_imsi_imsi_extract (Some (len # imsi @ rest)) = Done (imsi @ [0])"
  using assms
  by (simp add: ipc_misc_me_imsi_imsi_extract_def peek8_def strncpy_from_id)

theorem me_imsi_copied_witness:
  "ipc_misc_me_imsi_imsi_extract (Some [3, 0x32, 0x30, 0x38]) = Done [0x32, 0x30, 0x38, 0]"
  using me_imsi_copied [of "[0x32, 0x30, 0x38]" 3 "[]"] by simp

text \<open>A length byte larger than the block makes the copy read past the end of the block.\<close>

lemma me_imsi_over_read:
  assumes "length imsi < unat len" and "0 \<notin> set imsi"
  shows "ipc_misc_me_imsi_imsi_extract (Some (len # imsi)) = Undef"
  using assms
  by (simp add: ipc_misc_me_imsi_imsi_extract_def peek8_def strncpy_from_def)

text \<open>
  The serial-number extractor checks its length byte: for every response structure it
  either refuses, exactly when the length exceeds the 32-byte field, or returns a block of
  length + 1 bytes; it never reads outside the field.
\<close>

theorem me_sn_checked:
  assumes "length (sn_data d) = 32"
  shows "ipc_misc_me_sn_extract (Some d) =
    (if 32 < unat (sn_length d) then Fail
     else Done (strncpy (unat (sn_length d)) (take (unat (sn_length d)) (sn_data d)) @ [0]))"
  using assms by (simp add: ipc_misc_me_sn_extract_def strncpy_from_def)

theorem me_sn_checked_witness:
  "ipc_misc_me_sn_extract (Some \<lparr>sn_type = 1, sn_length = 2, sn_data = 0x41 # 0x42 # replicate 30 0\<rparr>) =
   Done [0x41, 0x42, 0]"
  by (rule trans [OF me_sn_checked]) (simp, code_simp)

text \<open>
  Credentials go into a packet-data request only when the context is enabled and both are
  given; every field keeps its size, and without credentials all of them stay cleared.
\<close>

theorem pdp_credentials:
  assumes "ipc_gprs_pdp_context_request_set_setup (Some d0) enable cid username password = Done d"
  shows "length (pcs_username d) = 32 \<and> length (pcs_password d) = 32 \<and>
    length (pcs_magic1 d) = 4 \<and>
    (if enable \<noteq> 0 \<and> username \<noteq> None \<and> password \<noteq> None
     then pcs_magic2 d = 1 \<and> pcs_magic1 d ! 2 = 0x13 \<and>
       pcs_username d = strncpy 32 (the username) \<and> pcs_password d = strncpy 32 (the password)
     else pcs_magic2 d = 0 \<and> pcs_username d = calloc 32 \<and> pcs_password d = calloc 32)"
  using assms
  by (auto simp: ipc_gprs_pdp_context_request_set_setup_def Let_def
      split: option.splits if_splits)

theorem pdp_credentials_witness:
  "\<exists>d. ipc_gprs_pdp_context_request_set_setup (Some \<lparr>pcs_enable = 0, pcs_cid = 0, pcs_magic1 = [],
      pcs_username = [], pcs_password = [], pcs_unknown = [], pcs_magic2 = 0\<rparr>) 1 1
      (Some [0x61]) (Some [0x62]) = Done d \<and> pcs_magic2 d = 1"
proof -
  obtain d where d: "ipc_gprs_pdp_context_request_set_setup (Some \<lparr>pcs_enable = 0, pcs_cid = 0,
      pcs_magic1 = [], pcs_username = [], pcs_password = [], pcs_unknown = [], pcs_magic2 = 0\<rparr>) 1 1
      (Some [0x61]) (Some [0x62]) = Done d"
    by (simp add: ipc_gprs_pdp_context_request_set_setup_def)
  show ?thesis using d pdp_credentials [OF d] by simp
qed

lemma gprs_port_list_bytes:
  "ipc_gprs_port_list_setup (Some d0) = Done (gprs_port_list_magic @ calloc 794)"
  by (simp add: ipc_gprs_port_list_setup_def gprs_port_list_magic_def poke_calloc0)

text \<open>
  A generic response reports success exactly when bit 15 of its code is set, whatever the other
  bits are.
\<close>

lemma gen_phone_res_bit15:
  "ipc_gen_phone_res_check (Some d) = (if bit (gpr_code d) 15 then 0 else -1)"
proof -
  have e: "IPC_GEN_PHONE_RES_CODE_SUCCESS = 2 ^ 15"
    by (simp add: IPC_GEN_PHONE_RES_CODE_SUCCESS_def)
  have "and (gpr_code d) IPC_GEN_PHONE_RES_CODE_SUCCESS \<noteq> 0 \<longleftrightarrow> bit (gpr_code d) 15"
    unfolding e and_exp_eq_0_iff_not_bit by (rule not_not)
  then show ?thesis by (simp add: ipc_gen_phone_res_check_def)
qed

end
