(* ===== verification/Strings.thy ===== *)
theory Strings
  imports Protocol
begin

text \<open>
  samsung-ipc/ipc_strings.c: the names of message types, commands, groups and client types that
  the log shows. Each \<open>switch\<close> is a table from codes to names, one table per command group in
  the order of the source; the \<open>default\<close> branch prints the value into a static buffer with
  \<open>snprintf\<close>.
\<close>

section \<open>Printing a number in hexadecimal\<close>

definition hexchar :: "nat \<Rightarrow> char" where
  "hexchar n = ''0123456789abcdef'' ! (n mod 16)"

text \<open>\<open>%0kx\<close>: at least \<open>k\<close> digits, padded with zeros.\<close>

fun hexpad :: "nat \<Rightarrow> nat \<Rightarrow> string" where
  "hexpad 0 n = (if n = 0 then [] else hexpad 0 (n div 16) @ [hexchar n])"
| "hexpad (Suc k) n = hexpad k (n div 16) @ [hexchar n]"

declare hexpad.simps(1) [simp del]

lemma hexpad_0_0 [simp]: "hexpad 0 0 = []"
  by (simp add: hexpad.simps(1))

text \<open>\<open>snprintf (buf, n, ...)\<close> keeps at most \<open>n - 1\<close> characters.\<close>

definition snprintf :: "nat \<Rightarrow> string \<Rightarrow> string" where
  "snprintf n s = take (n - 1) s"

section \<open>The tables\<close>

definition request_type_names :: "(u8 \<times> string) list" where
  "request_type_names =
    [(0x01, ''IPC_TYPE_EXEC''),
     (0x02, ''IPC_TYPE_GET''),
     (0x03, ''IPC_TYPE_SET''),
     (0x04, ''IPC_TYPE_CFRM''),
     (0x05, ''IPC_TYPE_EVENT'')]"

definition response_type_names :: "(u8 \<times> string) list" where
  "response_type_names =
    [(0x01, ''IPC_TYPE_INDI''),
     (0x02, ''IPC_TYPE_RESP''),
     (0x03, ''IPC_TYPE_NOTI'')]"

definition pwr_command_names :: "(u16 \<times> string) list" where
  "pwr_command_names =
    [(0x0101, ''IPC_PWR_PHONE_PWR_UP''),
     (0x0102, ''IPC_PWR_PHONE_PWR_OFF''),
     (0x0103, ''IPC_PWR_PHONE_RESET''),
     (0x0104, ''IPC_PWR_BATT_STATUS''),
     (0x0105, ''IPC_PWR_BATT_TYPE''),
     (0x0106, ''IPC_PWR_BATT_COMP''),
     (0x0107, ''IPC_PWR_PHONE_STATE'')]"

definition call_command_names :: "(u16 \<times> string) list" where
  "call_command_names =
    [(0x0201, ''IPC_CALL_OUTGOING''),
     (0x0202, ''IPC_CALL_INCOMING''),
     (0x0203, ''IPC_CALL_RELEASE''),
     (0x0204, ''IPC_CALL_ANSWER''),
     (0x0205, ''IPC_CALL_STATUS''),
     (0x0206, ''IPC_CALL_LIST''),
     (0x0207, ''IPC_CALL_BURST_DTMF''),
     (0x0208, ''IPC_CALL_CONT_DTMF''),
     (0x0209, ''IPC_CALL_WAITING''),
     (0x020A, ''IPC_CALL_LINE_ID'')]"

definition sms_command_names :: "(u16 \<times> string) list" where
  "sms_command_names =
    [(0x0401, ''IPC_SMS_SEND_MSG''),
     (0x0402, ''IPC_SMS_INCOMING_MSG''),
     (0x0403, ''IPC_SMS_READ_MSG''),
     (0x0404, ''IPC_SMS_SAVE_MSG''),
     (0x0405, ''IPC_SMS_DEL_MSG''),
     (0x0406, ''IPC_SMS_DELIVER_REPORT''),
     (0x0407, ''IPC_SMS_DEVICE_READY''),
     (0x0408, ''IPC_SMS_SEL_MEM''),
     (0x0409, ''IPC_SMS_STORED_MSG_COUNT''),
     (0x040A, ''IPC_SMS_SVC_CENTER_ADDR''),
     (0x040B, ''IPC_SMS_SVC_OPTION''),
     (0x040C, ''IPC_SMS_MEM_STATUS''),
     (0x040D, ''IPC_SMS_CBS_MSG''),
     (0x040E, ''IPC_SMS_CBS_CFG''),
     (0x040F, ''IPC_SMS_STORED_MSG_STATUS''),
     (0x0410, ''IPC_SMS_PARAM_COUNT''),
     (0x0411, ''IPC_SMS_PARAM'')]"

definition sec_command_names :: "(u16 \<times> string) list" where
  "sec_command_names =
    [(0x0501, ''IPC_SEC_PIN_STATUS''),
     (0x0502, ''IPC_SEC_PHONE_LOCK''),
     (0x0503, ''IPC_SEC_CHANGE_LOCKING_PW''),
     (0x0504, ''IPC_SEC_SIM_LANG''),
     (0x0505, ''IPC_SEC_RSIM_ACCESS''),
     (0x0506, ''IPC_SEC_GSIM_ACCESS''),
     (0x0507, ''IPC_SEC_SIM_ICC_TYPE''),
     (0x0508, ''IPC_SEC_LOCK_INFORMATION''),
     (0x0509, ''IPC_SEC_IMS_AUTH'')]"

definition pb_command_names :: "(u16 \<times> string) list" where
  "pb_command_names =
    [(0x0601, ''IPC_PB_ACCESS''),
     (0x0602, ''IPC_PB_STORAGE''),
     (0x0603, ''IPC_PB_STORAGE_LIST''),
     (0x0604, ''IPC_PB_ENTRY_INFO''),
     (0x0605, ''IPC_PB_3GPB_CAPA'')]"

definition disp_command_names :: "(u16 \<times> string) list" where
  "disp_command_names =
    [(0x0701, ''IPC_DISP_ICON_INFO''),
     (0x0702, ''IPC_DISP_HOMEZONE_INFO''),
     (0x0706, ''IPC_DISP_RSSI_INFO'')]"

definition net_command_names :: "(u16 \<times> string) list" where
  "net_command_names =
    [(0x0801, ''IPC_NET_PREF_PLMN''),
     (0x0802, ''IPC_NET_PLMN_SEL''),
     (0x0803, ''IPC_NET_SERVING_NETWORK''),
     (0x0804, ''IPC_NET_PLMN_LIST''),
     (0x0805, ''IPC_NET_REGIST''),
     (0x0806, ''IPC_NET_SUBSCRIBER_NUM''),
     (0x0807, ''IPC_NET_BAND_SEL''),
     (0x0808, ''IPC_NET_SERVICE_DOMAIN_CONFIG''),
     (0x0809, ''IPC_NET_POWERON_ATTACH''),
     (0x080A, ''IPC_NET_MODE_SEL''),
     (0x080B, ''IPC_NET_ACQ_ORDER''),
     (0x080C, ''IPC_NET_IDENTITY''),
     (0x080D, ''IPC_NET_PREFERRED_NETWORK_INFO'')]"

definition snd_command_names :: "(u16 \<times> string) list" where
  "snd_command_names =
    [(0x0901, ''IPC_SND_SPKR_VOLUME_CTRL''),
     (0x0902, ''IPC_SND_MIC_MUTE_CTRL''),
     (0x0903, ''IPC_SND_AUDIO_PATH_CTRL''),
     (0x0904, ''IPC_SND_AUDIO_SOURCE_CTRL''),
     (0x0905, ''IPC_SND_LOOPBACK_CTRL''),
     (0x0906, ''IPC_SND_VOICE_RECORDING_CTRL''),
     (0x0907, ''IPC_SND_VIDEO_CALL_CTRL''),
     (0x0908, ''IPC_SND_RINGBACK_TONE_CTRL''),
     (0x0909, ''IPC_SND_CLOCK_CTRL''),
     (0x090A, ''IPC_SND_WB_AMR_STATUS'')]"

definition misc_command_names :: "(u16 \<times> string) list" where
  "misc_command_names =
    [(0x0A01, ''IPC_MISC_ME_VERSION''),
     (0x0A02, ''IPC_MISC_ME_IMSI''),
     (0x0A03, ''IPC_MISC_ME_SN''),
     (0x0A05, ''IPC_MISC_TIME_INFO''),
     (0x0A0C, ''IPC_MISC_DEBUG_LEVEL'')]"

definition svc_command_names :: "(u16 \<times> string) list" where
  "svc_command_names =
    [(0x0B01, ''IPC_SVC_ENTER''),
     (0x0B02, ''IPC_SVC_END''),
     (0x0B03, ''IPC_SVC_PRO_KEYCODE''),
     (0x0B04, ''IPC_SVC_SCREEN_CFG''),
     (0x0B05, ''IPC_SVC_DISPLAY_SCREEN''),
     (0x0B06, ''IPC_SVC_CHANGE_SVC_MODE''),
     (0x0B07, ''IPC_SVC_DEVICE_TEST''),
     (0x0B08, ''IPC_SVC_DEBUG_DUMP''),
     (0x0B09, ''IPC_SVC_DEBUG_STRING'')]"

definition ss_command_names :: "(u16 \<times> string) list" where
  "ss_command_names =
    [(0x0C01, ''IPC_SS_WAITING''),
     (0x0C02, ''IPC_SS_CLI''),
     (0x0C03, ''IPC_SS_BARRING''),
     (0x0C04, ''IPC_SS_BARRING_PW''),
     (0x0C05, ''IPC_SS_FORWARDING''),
     (0x0C06, ''IPC_SS_INFO''),
     (0x0C07, ''IPC_SS_MANAGE_CALL''),
     (0x0C08, ''IPC_SS_USSD''),
     (0x0C09, ''IPC_SS_AOC''),
     (0x0C0A, ''IPC_SS_RELEASE_COMPLETE'')]"

definition gprs_command_names :: "(u16 \<times> string) list" where
  "gprs_command_names =
    [(0x0D01, ''IPC_GPRS_DEFINE_PDP_CONTEXT''),
     (0x0D02, ''IPC_GPRS_QOS''),
     (0x0D03, ''IPC_GPRS_PS''),
     (0x0D04, ''IPC_GPRS_PDP_CONTEXT''),
     (0x0D05, ''IPC_GPRS_ENTER_DATA''),
     (0x0D06, ''IPC_GPRS_SHOW_PDP_ADDR''),
     (0x0D07, ''IPC_GPRS_MS_CLASS''),
     (0x0D08, ''IPC_GPRS_3G_QUAL_SRVC_PROFILE''),
     (0x0D09, ''IPC_GPRS_IP_CONFIGURATION''),
     (0x0D0A, ''IPC_GPRS_DEFINE_SEC_PDP_CONTEXT''),
     (0x0D0B, ''IPC_GPRS_TFT''),
     (0x0D0C, ''IPC_GPRS_HSDPA_STATUS''),
     (0x0D0D, ''IPC_GPRS_CURRENT_SESSION_DATA_COUNTER''),
     (0x0D0E, ''IPC_GPRS_DATA_DORMANT''),
     (0x0D0F, ''IPC_GPRS_PIN_CTRL''),
     (0x0D10, ''IPC_GPRS_CALL_STATUS''),
     (0x0D11, ''IPC_GPRS_PORT_LIST'')]"

definition sat_command_names :: "(u16 \<times> string) list" where
  "sat_command_names =
    [(0x0E01, ''IPC_SAT_PROFILE_DOWNLOAD''),
     (0x0E02, ''IPC_SAT_ENVELOPE_CMD''),
     (0x0E03, ''IPC_SAT_PROACTIVE_CMD''),
     (0x0E04, ''IPC_SAT_TERMINATE_USAT_SESSION''),
     (0x0E05, ''IPC_SAT_EVENT_DOWNLOAD''),
     (0x0E06, ''IPC_SAT_PROVIDE_LOCAL_INFO''),
     (0x0E07, ''IPC_SAT_POLLING''),
     (0x0E08, ''IPC_SAT_REFRESH''),
     (0x0E09, ''IPC_SAT_SETUP_EVENT_LIST''),
     (0x0E0A, ''IPC_SAT_CALL_CONTROL_RESULT''),
     (0x0E0B, ''IPC_SAT_IMAGE_CLUT''),
     (0x0E0C, ''IPC_SAT_SETUP_CALL_PROCESSING'')]"

definition imei_command_names :: "(u16 \<times> string) list" where
  "imei_command_names =
    [(0x1001, ''IPC_IMEI_START''),
     (0x1002, ''IPC_IMEI_CHECK_DEVICE_INFO'')]"

definition rfs_command_names :: "(u16 \<times> string) list" where
  "rfs_command_names =
    [(0x4201, ''IPC_RFS_NV_READ_ITEM''),
     (0x4202, ''IPC_RFS_NV_WRITE_ITEM'')]"

definition gen_command_names :: "(u16 \<times> string) list" where
  "gen_command_names =
    [(0x8001, ''IPC_GEN_PHONE_RES'')]"

definition command_names :: "(u16 \<times> string) list" where
  "command_names =
     pwr_command_names @
     call_command_names @
     sms_command_names @
     sec_command_names @
     pb_command_names @
     disp_command_names @
     net_command_names @
     snd_command_names @
     misc_command_names @
     svc_command_names @
     ss_command_names @
     gprs_command_names @
     sat_command_names @
     imei_command_names @
     rfs_command_names @
     gen_command_names"

definition group_names :: "(u8 \<times> string) list" where
  "group_names =
    [(0x01, ''IPC_GROUP_PWR''),
     (0x02, ''IPC_GROUP_CALL''),
     (0x04, ''IPC_GROUP_SMS''),
     (0x05, ''IPC_GROUP_SEC''),
     (0x06, ''IPC_GROUP_PB''),
     (0x07, ''IPC_GROUP_DISP''),
     (0x08, ''IPC_GROUP_NET''),
     (0x09, ''IPC_GROUP_SND''),
     (0x0A, ''IPC_GROUP_MISC''),
     (0x0B, ''IPC_GROUP_SVC''),
     (0x0C, ''IPC_GROUP_SS''),
     (0x0D, ''IPC_GROUP_GPRS''),
     (0x0E, ''IPC_GROUP_SAT''),
     (0x0F, ''IPC_GROUP_CFG''),
     (0x10, ''IPC_GROUP_IMEI''),
     (0x11, ''IPC_GROUP_GPS''),
     (0x12, ''IPC_GROUP_SAP''),
     (0x42, ''IPC_GROUP_RFS''),
     (0x80, ''IPC_GROUP_GEN'')]"

definition client_type_names :: "(u8 \<times> string) list" where
  "client_type_names =
    [(0x00, ''IPC_CLIENT_TYPE_FMT''),
     (0x01, ''IPC_CLIENT_TYPE_RFS''),
     (0x02, ''IPC_CLIENT_TYPE_DUMMY'')]"

section \<open>The functions\<close>

definition ipc_request_type_string :: "u8 \<Rightarrow> string" where
  "ipc_request_type_string type =
     (case map_of request_type_names type of Some s \<Rightarrow> s
      | None \<Rightarrow> snprintf 5 (''0x'' @ hexpad 2 (unat type)))"

definition ipc_response_type_string :: "u8 \<Rightarrow> string" where
  "ipc_response_type_string type =
     (case map_of response_type_names type of Some s \<Rightarrow> s
      | None \<Rightarrow> snprintf 5 (''0x'' @ hexpad 2 (unat type)))"

definition ipc_command_string :: "u16 \<Rightarrow> string" where
  "ipc_command_string command =
     (case map_of command_names command of Some s \<Rightarrow> s
      | None \<Rightarrow> snprintf 7 (''0x'' @ hexpad 4 (unat command)))"

text \<open>
  The next two print, for an unknown code, not the code but the address of the static buffer,
  cast to an unsigned int; the address is the parameter \<open>buf_addr\<close>.
\<close>

definition ipc_group_string :: "u32 \<Rightarrow> u8 \<Rightarrow> string" where
  "ipc_group_string buf_addr grp =
     (case map_of group_names grp of Some s \<Rightarrow> s
      | None \<Rightarrow> snprintf 5 (''0x'' @ hexpad 2 (unat buf_addr)))"

definition ipc_client_type_string :: "u32 \<Rightarrow> u8 \<Rightarrow> string" where
  "ipc_client_type_string buf_addr client_type =
     (case map_of client_type_names client_type of Some s \<Rightarrow> s
      | None \<Rightarrow> snprintf 5 (''0x'' @ hexpad 2 (unat buf_addr)))"

section \<open>Properties\<close>

lemmas command_name_tables = command_names_def pwr_command_names_def call_command_names_def sms_command_names_def sec_command_names_def pb_command_names_def disp_command_names_def net_command_names_def snd_command_names_def misc_command_names_def svc_command_names_def ss_command_names_def gprs_command_names_def sat_command_names_def imei_command_names_def rfs_command_names_def gen_command_names_def

text \<open>The part of a command's name that names its group, as in \<open>IPC_\<close>\<open>NET\<close>\<open>_REGIST\<close>.\<close>

definition group_token :: "string \<Rightarrow> string" where
  "group_token s = takeWhile (\<lambda>c. c \<noteq> CHR ''_'') (drop 4 s)"

lemma command_codes_distinct: "distinct (map fst command_names)"
proof -
  have "successively (<) (map fst command_names)"
    by (simp add: command_name_tables)
  then have "sorted_wrt (<) (map fst command_names)"
    by (simp add: successively_conv_sorted_wrt)
  then show ?thesis by (simp add: strict_sorted_iff)
qed

lemma command_name_group:
  "list_all (\<lambda>(c, s). map_of group_names (IPC_GROUP c) = Some (''IPC_GROUP_'' @ group_token s))
     command_names"
  by code_simp

text \<open>Lists whose members carry their list's key are disjoint when the keys are.\<close>

lemma distinct_concat_keyed:
  "distinct (map fst ps) \<Longrightarrow> list_all (\<lambda>(k, xs). distinct xs \<and> list_all (\<lambda>x. f x = k) xs) ps \<Longrightarrow>
   distinct (concat (map snd ps))"
proof (induction ps)
  case Nil
  then show ?case by simp
next
  case (Cons p ps)
  obtain k xs where p: "p = (k, xs)" by (cases p)
  have "f y \<in> fst ` set ps" if y: "y \<in> set (concat (map snd ps))" for y
  proof -
    from y obtain q where q: "q \<in> set ps" "y \<in> set (snd q)" by auto
    with Cons.prems(2) have "f y = fst q"
      by (auto simp: list_all_iff split: prod.splits)
    with q(1) show ?thesis by simp
  qed
  moreover have "f x = k" if "x \<in> set xs" for x
    using Cons.prems(2) p that by (auto simp: list_all_iff)
  moreover have "k \<notin> fst ` set ps"
    using Cons.prems(1) p by simp
  ultimately have "set xs \<inter> set (concat (map snd ps)) = {}" by blast
  moreover have "distinct (concat (map snd ps))" and "distinct xs"
    using Cons p by simp_all
  ultimately show ?case by (simp add: p)
qed

definition names_by_group :: "(string \<times> string list) list" where
  "names_by_group =
    [(''PWR'', map snd pwr_command_names),
     (''CALL'', map snd call_command_names),
     (''SMS'', map snd sms_command_names),
     (''SEC'', map snd sec_command_names),
     (''PB'', map snd pb_command_names),
     (''DISP'', map snd disp_command_names),
     (''NET'', map snd net_command_names),
     (''SND'', map snd snd_command_names),
     (''MISC'', map snd misc_command_names),
     (''SVC'', map snd svc_command_names),
     (''SS'', map snd ss_command_names),
     (''GPRS'', map snd gprs_command_names),
     (''SAT'', map snd sat_command_names),
     (''IMEI'', map snd imei_command_names),
     (''RFS'', map snd rfs_command_names),
     (''GEN'', map snd gen_command_names)]"

lemma names_by_group_keyed:
  "list_all (\<lambda>(k, xs). distinct xs \<and> list_all (\<lambda>s. group_token s = k) xs) names_by_group"
  by code_simp

lemma command_names_distinct: "distinct (map snd command_names)"
proof -
  have "distinct (map fst names_by_group)"
    by (simp add: names_by_group_def)
  from distinct_concat_keyed [OF this names_by_group_keyed]
  show ?thesis by (simp only: names_by_group_def command_names_def) simp
qed

subsection \<open>Hexadecimal is injective\<close>

lemma hexchar_inj: "hexchar m = hexchar n \<Longrightarrow> m mod 16 = n mod 16"
proof -
  have "distinct ''0123456789abcdef''" by simp
  then show "hexchar m = hexchar n \<Longrightarrow> m mod 16 = n mod 16"
    unfolding hexchar_def by (subst (asm) nth_eq_iff_index_eq) auto
qed

lemma length_hexpad: "n < 16 ^ k \<Longrightarrow> length (hexpad k n) = k"
proof (induction k arbitrary: n)
  case 0
  then show ?case by simp
next
  case (Suc k)
  then have "n div 16 < 16 ^ k" by (simp add: div_less_iff_less_mult mult.commute)
  with Suc.IH show ?case by simp
qed

lemma hexpad_inj: "m < 16 ^ k \<Longrightarrow> n < 16 ^ k \<Longrightarrow> hexpad k m = hexpad k n \<Longrightarrow> m = n"
proof (induction k arbitrary: m n)
  case 0
  then show ?case by simp
next
  case (Suc k)
  then have lt: "m div 16 < 16 ^ k" "n div 16 < 16 ^ k"
    by (simp_all add: div_less_iff_less_mult mult.commute)
  from Suc.prems(3) have eqs: "hexpad k (m div 16) = hexpad k (n div 16)" "hexchar m = hexchar n"
    by simp_all
  have "m = m div 16 * 16 + m mod 16" by simp
  also have "\<dots> = n div 16 * 16 + n mod 16"
    by (simp only: Suc.IH [OF lt eqs(1)] hexchar_inj [OF eqs(2)])
  finally show ?case by simp
qed

lemma ipc_command_string_cases:
  "(command, ipc_command_string command) \<in> set command_names \<or>
   command \<notin> fst ` set command_names \<and>
   ipc_command_string command = ''0x'' @ hexpad 4 (unat command)"
proof (cases "map_of command_names command")
  case None
  have "length (hexpad 4 (unat command)) = 4"
    using unsigned_less [of command] by (intro length_hexpad) simp
  then have "ipc_command_string command = ''0x'' @ hexpad 4 (unat command)"
    by (simp add: ipc_command_string_def None snprintf_def)
  moreover from None have "command \<notin> fst ` set command_names"
    by (simp add: map_of_eq_None_iff)
  ultimately show ?thesis by blast
next
  case (Some s)
  then show ?thesis by (simp add: ipc_command_string_def map_of_SomeD)
qed

lemma command_name_starts: "list_all (\<lambda>s. take 1 s = ''I'') (map snd command_names)"
  by code_simp

text \<open>
  The log names every command: no two of the 65536 command codes are shown by the same
  string, whether they have a name or are printed in hexadecimal.
\<close>

theorem command_string_injective: "inj ipc_command_string"
proof (rule injI)
  fix c d
  assume eq: "ipc_command_string c = ipc_command_string d"
  have named: "take 1 s = ''I''" if "(b, s) \<in> set command_names" for b s
    using command_name_starts that by (auto simp: list_all_iff)
  have hex: "take 1 (''0x'' @ t) = ''0''" for t by simp
  from ipc_command_string_cases [of c] ipc_command_string_cases [of d]
  consider "(c, ipc_command_string c) \<in> set command_names" "(d, ipc_command_string d) \<in> set command_names"
    | "(c, ipc_command_string c) \<in> set command_names" "take 1 (ipc_command_string d) = ''0''"
    | "(d, ipc_command_string d) \<in> set command_names" "take 1 (ipc_command_string c) = ''0''"
    | "hexpad 4 (unat c) = hexpad 4 (unat d)"
    using eq hex by auto
  then show "c = d"
  proof cases
    case 1
    have "inj_on snd (set command_names)"
      using command_names_distinct by (simp only: distinct_map)
    then have "(c, ipc_command_string c) = (d, ipc_command_string d)"
      by (rule inj_onD) (use 1 eq in simp_all)
    then show ?thesis by simp
  next
    case 2
    with eq named show ?thesis by fastforce
  next
    case 3
    with eq named show ?thesis by fastforce
  next
    case 4
    then have "unat c = unat d"
      using unsigned_less [of c] unsigned_less [of d] by (intro hexpad_inj) simp_all
    then show ?thesis by (rule unsigned_word_eqI)
  qed
qed

text \<open>
  The group and client-type names do not have this: for every code without a name the string
  shown depends only on the address of the buffer, so all unknown groups look the same.
\<close>

lemma group_string_loses_code:
  "g \<notin> fst ` set group_names \<Longrightarrow> g' \<notin> fst ` set group_names \<Longrightarrow>
   ipc_group_string buf_addr g = ipc_group_string buf_addr g'"
  by (simp add: ipc_group_string_def map_of_eq_None_iff [THEN iffD2])

lemma client_type_string_loses_code:
  "t \<notin> fst ` set client_type_names \<Longrightarrow> t' \<notin> fst ` set client_type_names \<Longrightarrow>
   ipc_client_type_string buf_addr t = ipc_client_type_string buf_addr t'"
  by (simp add: ipc_client_type_string_def map_of_eq_None_iff [THEN iffD2])

end
