(* ===== verification/System.thy ===== *)
theory System
  imports Prelude "HOL-Library.Stream"
begin

text \<open>
  The operating system as the library sees it. The world holds the regular files, the answers
  the kernel will give (infinite streams, so that every behaviour of the kernel and of the
  modem behind it is one world), and the trace of what was done to devices.

  An I/O computation takes the world and returns an outcome and the next world. \<open>Fail\<close> is the
  \<open>goto error\<close> of the source: later steps are skipped, what was done before stays done.
\<close>

named_theorems io_simps \<open>evaluation of I/O computations\<close>

section \<open>The world\<close>

datatype event =
    EvOpen string int              \<comment> \<open>path, descriptor returned\<close>
  | EvClose int
  | EvWrite int "u8 list"          \<comment> \<open>the bytes a write on a descriptor accepted\<close>
  | EvRead "u8 list"               \<comment> \<open>the bytes a read from a device delivered\<close>
  | EvIoctl int u32 int            \<comment> \<open>descriptor, request, argument\<close>
  | EvStore nat "u8 list"          \<comment> \<open>bytes stored at an offset of mapped device memory\<close>
  | EvSeek int nat                 \<comment> \<open>the position a descriptor of a device was set to\<close>

record world =
  w_files :: "string \<Rightarrow> u8 list option"
  w_fio :: "int stream"
  w_open :: "int stream"
  w_sel :: "int stream"
  w_ready :: "int list stream"
  w_rd :: "u8 list option stream"
  w_wr :: "int stream"
  w_ioc :: "int stream"
  w_trace :: "event list"
  w_heap :: "nat \<Rightarrow> int option"
  w_next :: nat

type_synonym 'a io = "world \<Rightarrow> 'a outcome \<times> world"

section \<open>Sequencing\<close>

definition ret :: "'a \<Rightarrow> 'a io" where
  "ret a w = (Done a, w)"

definition fail :: "'a io" where
  "fail w = (Fail, w)"

definition undef :: "'a io" where
  "undef w = (Undef, w)"

definition bnd :: "'a io \<Rightarrow> ('a \<Rightarrow> 'b io) \<Rightarrow> 'b io" where
  "bnd m f w = (case m w of
       (Done a, w') \<Rightarrow> f a w'
     | (Fail, w') \<Rightarrow> (Fail, w')
     | (Undef, w') \<Rightarrow> (Undef, w'))"

definition check :: "bool \<Rightarrow> unit io" where
  "check b = (if b then ret () else fail)"

definition lift_outcome :: "'a outcome \<Rightarrow> 'a io" where
  "lift_outcome r w = (r, w)"

text \<open>A failing step whose failure the caller ignores: it sees the return code -1.\<close>

definition try_rc :: "'a io \<Rightarrow> int io" where
  "try_rc m w = (case m w of
       (Done _, w') \<Rightarrow> (Done 0, w')
     | (Fail, w') \<Rightarrow> (Done (-1), w')
     | (Undef, w') \<Rightarrow> (Undef, w'))"

lemma ret_eq [io_simps]: "ret a w = (Done a, w)"
  by (simp add: ret_def)

lemma fail_eq [io_simps]: "fail w = (Fail, w)"
  by (simp add: fail_def)

lemma undef_eq [io_simps]: "undef w = (Undef, w)"
  by (simp add: undef_def)

lemma bnd_Done [io_simps]: "m w = (Done a, w') \<Longrightarrow> bnd m f w = f a w'"
  by (simp add: bnd_def)

lemma bnd_Fail [io_simps]: "m w = (Fail, w') \<Longrightarrow> bnd m f w = (Fail, w')"
  by (simp add: bnd_def)

lemma bnd_Undef [io_simps]: "m w = (Undef, w') \<Longrightarrow> bnd m f w = (Undef, w')"
  by (simp add: bnd_def)

lemma check_eq [io_simps]: "check b w = (if b then Done () else Fail, w)"
  by (simp add: check_def ret_def fail_def)

lemma lift_outcome_eq [io_simps]: "lift_outcome r w = (r, w)"
  by (simp add: lift_outcome_def)

lemma bnd_eq_Done:
  "bnd m f w = (Done b, w') \<longleftrightarrow> (\<exists>a w1. m w = (Done a, w1) \<and> f a w1 = (Done b, w'))"
  by (auto simp: bnd_def split: prod.splits outcome.splits)

lemma bnd_assoc: "bnd (bnd m f) g = bnd m (\<lambda>x. bnd (f x) g)"
  by (rule ext) (simp add: bnd_def split: prod.split outcome.split)

lemma check_eq_Done: "check b w = (Done u, w') \<longleftrightarrow> b \<and> w' = w"
  by (auto simp: check_eq)

lemma ret_eq_Done: "ret a w = (Done b, w') \<longleftrightarrow> b = a \<and> w' = w"
  by (auto simp: ret_eq)

lemma fail_not_Done: "fail w \<noteq> (Done b, w')"
  by (simp add: fail_eq)

lemma lift_outcome_eq_Done: "lift_outcome r w = (Done b, w') \<longleftrightarrow> r = Done b \<and> w' = w"
  by (auto simp: lift_outcome_eq)

lemma try_rc_eq_Done:
  "try_rc m w = (Done rc, w') \<longleftrightarrow>
     (\<exists>a. m w = (Done a, w') \<and> rc = 0) \<or> (m w = (Fail, w') \<and> rc = -1)"
  by (auto simp: try_rc_def split: prod.splits outcome.splits)

lemma bnd_lift: "bnd (lift_outcome (Done a)) f = f a"
  by (rule ext) (simp add: bnd_def lift_outcome_eq)

lemmas io_Done = bnd_eq_Done check_eq_Done ret_eq_Done fail_not_Done lift_outcome_eq_Done

section \<open>Calls on devices\<close>

definition emit :: "event \<Rightarrow> unit io" where
  "emit e w = (Done (), w\<lparr>w_trace := w_trace w @ [e]\<rparr>)"

text \<open>\<open>open\<close> of a device node: the kernel returns a descriptor or a negative value.\<close>

definition sys_open :: "string \<Rightarrow> int io" where
  "sys_open path w =
     (let fd = shd (w_open w); w' = w\<lparr>w_open := stl (w_open w)\<rparr>
      in if fd < 0 then (Done (-1), w')
         else (Done fd, w'\<lparr>w_trace := w_trace w' @ [EvOpen path fd]\<rparr>))"

definition sys_close :: "int \<Rightarrow> unit io" where
  "sys_close fd = emit (EvClose fd)"

text \<open>\<open>select\<close> on one descriptor: negative is an error, 0 a timeout, positive is ready.\<close>

definition sys_select :: "int io" where
  "sys_select w = (Done (shd (w_sel w)), w\<lparr>w_sel := stl (w_sel w)\<rparr>)"

text \<open>
  \<open>select\<close> on a set of descriptors: an error leaves the set as it is, otherwise it keeps the
  ready ones and returns their number. \<open>FD_SET\<close> and \<open>FD_ISSET\<close> are defined for descriptors
  from 0 to 1023 only.
\<close>

definition sys_select_set :: "int list \<Rightarrow> (int \<times> int list) io" where
  "sys_select_set fds w =
     (let w' = w\<lparr>w_sel := stl (w_sel w), w_ready := stl (w_ready w)\<rparr>;
          ready = filter (\<lambda>fd. fd \<in> set (shd (w_ready w))) fds
      in if shd (w_sel w) < 0 then (Done (-1, fds), w')
         else (Done (int (length (remdups ready)), ready), w'))"

definition fd_set_ok :: "int \<Rightarrow> bool" where
  "fd_set_ok fd \<longleftrightarrow> 0 \<le> fd \<and> fd < 1024"

text \<open>\<open>read\<close> of at most \<open>n\<close> bytes: \<open>None\<close> is -1, \<open>Some bs\<close> the bytes stored.\<close>

definition sys_read :: "nat \<Rightarrow> u8 list option io" where
  "sys_read n w =
     (let w' = w\<lparr>w_rd := stl (w_rd w)\<rparr>
      in case shd (w_rd w) of
           None \<Rightarrow> (Done None, w')
         | Some bs \<Rightarrow> (Done (Some (take n bs)), w'\<lparr>w_trace := w_trace w' @ [EvRead (take n bs)]\<rparr>))"

text \<open>\<open>write\<close>: negative is an error, otherwise the number of bytes taken, at most all.\<close>

definition sys_write :: "int \<Rightarrow> u8 list \<Rightarrow> int io" where
  "sys_write fd bs w =
     (let d = shd (w_wr w); w' = w\<lparr>w_wr := stl (w_wr w)\<rparr>
      in if d < 0 then (Done (-1), w')
         else let n = min (nat d) (length bs)
              in (Done (int n), w'\<lparr>w_trace := w_trace w' @ [EvWrite fd (take n bs)]\<rparr>))"

definition sys_ioctl :: "int \<Rightarrow> u32 \<Rightarrow> int \<Rightarrow> int io" where
  "sys_ioctl fd request arg w =
     (Done (shd (w_ioc w)),
      w\<lparr>w_ioc := stl (w_ioc w), w_trace := w_trace w @ [EvIoctl fd request arg]\<rparr>)"

lemma sys_read_length:
  "sys_read n w = (Done (Some bs), w') \<Longrightarrow> length bs \<le> n"
  by (auto simp: sys_read_def Let_def split: option.splits)

lemma sys_write_range:
  "sys_write fd bs w = (Done rc, w') \<Longrightarrow> -1 \<le> rc \<and> rc \<le> int (length bs)"
  by (auto simp: sys_write_def Let_def split: if_splits)

lemma sys_write_accepts:
  "0 \<le> shd (w_wr w) \<Longrightarrow>
   \<exists>w'. sys_write fd bs w = (Done (int (min (nat (shd (w_wr w))) (length bs))), w') \<and>
     w_wr w' = stl (w_wr w)"
  by (simp add: sys_write_def Let_def)

section \<open>Heap objects\<close>

text \<open>
  The structures the library keeps behind \<open>void *\<close> members hold one descriptor each:
  \<open>w_heap\<close> maps the address of a live object to its member \<open>fd\<close>. \<open>None\<close> is a null pointer.
\<close>

type_synonym ptr = "nat option"

definition heap_calloc :: "nat io" where
  "heap_calloc w = (Done (w_next w),
     w\<lparr>w_heap := (w_heap w)(w_next w \<mapsto> 0), w_next := w_next w + 1\<rparr>)"

definition heap_free :: "nat \<Rightarrow> unit io" where
  "heap_free a w = (case w_heap w a of
       None \<Rightarrow> (Undef, w)
     | Some _ \<Rightarrow> (Done (), w\<lparr>w_heap := (w_heap w)(a := None)\<rparr>))"

definition heap_get :: "nat \<Rightarrow> int io" where
  "heap_get a w = (case w_heap w a of None \<Rightarrow> (Undef, w) | Some fd \<Rightarrow> (Done fd, w))"

definition heap_set :: "nat \<Rightarrow> int \<Rightarrow> unit io" where
  "heap_set a fd w = (case w_heap w a of
       None \<Rightarrow> (Undef, w)
     | Some _ \<Rightarrow> (Done (), w\<lparr>w_heap := (w_heap w)(a \<mapsto> fd)\<rparr>))"

section \<open>What reached a descriptor\<close>

fun sent_by :: "int \<Rightarrow> event \<Rightarrow> u8 list" where
  "sent_by fd (EvWrite fd' bs) = (if fd' = fd then bs else [])"
| "sent_by fd _ = []"

text \<open>All bytes that writes on \<open>fd\<close> accepted, in order.\<close>

definition sent :: "int \<Rightarrow> world \<Rightarrow> u8 list" where
  "sent fd w = concat (map (sent_by fd) (w_trace w))"

lemma sent_trace_append:
  "w_trace w' = w_trace w @ es \<Longrightarrow> sent fd w' = sent fd w @ concat (map (sent_by fd) es)"
  by (simp add: sent_def)

lemma sys_select_sent [io_simps]: "sys_select w = (Done rc, w') \<Longrightarrow> sent fd w' = sent fd w"
  by (auto simp: sys_select_def sent_def)

lemma sys_read_sent [io_simps]: "sys_read n w = (Done r, w') \<Longrightarrow> sent fd w' = sent fd w"
  by (auto simp: sys_read_def sent_def Let_def split: option.splits)

lemma sys_write_sent:
  "sys_write fd bs w = (Done rc, w') \<Longrightarrow>
   sent fd w' = sent fd w @ take (nat rc) bs"
  by (auto simp: sys_write_def sent_def Let_def min_def split: if_splits)

text \<open>All bytes that reads delivered, in order.\<close>

fun got_by :: "event \<Rightarrow> u8 list" where
  "got_by (EvRead bs) = bs"
| "got_by _ = []"

definition received :: "world \<Rightarrow> u8 list" where
  "received w = concat (map got_by (w_trace w))"

lemma sys_read_received:
  "sys_read n w = (Done r, w') \<Longrightarrow>
   received w' = received w @ (case r of None \<Rightarrow> [] | Some bs \<Rightarrow> bs)"
  by (auto simp: sys_read_def received_def Let_def split: option.splits)

lemma sys_write_received: "sys_write fd bs w = (r, w') \<Longrightarrow> received w' = received w"
  by (auto simp: sys_write_def received_def Let_def split: if_splits)

lemma sys_ioctl_trace:
  "sys_ioctl fd request arg w = (r, w') \<Longrightarrow> sent fd' w' = sent fd' w \<and> received w' = received w"
  by (auto simp: sys_ioctl_def sent_def received_def)

text \<open>Calls on devices never touch regular files.\<close>

lemma sys_select_files: "sys_select w = (r, w') \<Longrightarrow> w_files w' = w_files w"
  by (auto simp: sys_select_def)

lemma sys_read_files: "sys_read n w = (r, w') \<Longrightarrow> w_files w' = w_files w"
  by (auto simp: sys_read_def Let_def split: option.splits)

lemma sys_write_files: "sys_write fd bs w = (r, w') \<Longrightarrow> w_files w' = w_files w"
  by (auto simp: sys_write_def Let_def split: if_splits)

section \<open>Calls on regular files\<close>

text \<open>
  Each call takes one decision of the kernel: a negative one makes it fail; for a read or a
  write a positive one bounds the number of bytes transferred, so short transfers are covered.
\<close>

definition fio :: "int io" where
  "fio w = (Done (shd (w_fio w)), w\<lparr>w_fio := stl (w_fio w)\<rparr>)"

definition file_of :: "world \<Rightarrow> string \<Rightarrow> u8 list" where
  "file_of w path = (case w_files w path of None \<Rightarrow> [] | Some c \<Rightarrow> c)"

text \<open>\<open>stat\<close>: the size, or \<open>None\<close> for -1.\<close>

definition sys_stat :: "string \<Rightarrow> nat option io" where
  "sys_stat path w = (if shd (w_fio w) < 0 then (Done None, w\<lparr>w_fio := stl (w_fio w)\<rparr>)
     else (Done (map_option length (w_files w path)), w\<lparr>w_fio := stl (w_fio w)\<rparr>))"

text \<open>\<open>open (path, O_RDONLY)\<close> of a regular file; \<open>True\<close> is a valid descriptor.\<close>

definition sys_open_read :: "string \<Rightarrow> bool io" where
  "sys_open_read path w =
     (Done (0 \<le> shd (w_fio w) \<and> w_files w path \<noteq> None), w\<lparr>w_fio := stl (w_fio w)\<rparr>)"

text \<open>\<open>open (path, O_WRONLY | O_CREAT, mode)\<close>: creates an empty file, never truncates.\<close>

definition sys_open_write :: "string \<Rightarrow> bool io" where
  "sys_open_write path w =
     (let w' = w\<lparr>w_fio := stl (w_fio w)\<rparr>
      in if shd (w_fio w) < 0 then (Done False, w')
         else (Done True, w'\<lparr>w_files := (w_files w)(path \<mapsto> file_of w path)\<rparr>))"

text \<open>\<open>lseek (fd, off, SEEK_SET)\<close> on a fresh descriptor: the value returned and the position.\<close>

definition sys_lseek :: "int \<Rightarrow> int \<times> nat" where
  "sys_lseek off = (if off < 0 then (-1, 0) else (off, nat off))"

definition sys_file_read :: "string \<Rightarrow> nat \<Rightarrow> nat \<Rightarrow> u8 list option io" where
  "sys_file_read path pos n w =
     (let d = shd (w_fio w); w' = w\<lparr>w_fio := stl (w_fio w)\<rparr>
      in if d < 0 then (Done None, w')
         else (Done (Some (take (min n (max 1 (nat d))) (drop pos (file_of w path)))), w'))"

text \<open>A file with \<open>bs\<close> stored at \<open>pos\<close>; a gap before \<open>pos\<close> reads as zeros.\<close>

definition file_splice :: "nat \<Rightarrow> u8 list \<Rightarrow> u8 list \<Rightarrow> u8 list" where
  "file_splice pos bs c = take pos (c @ calloc (pos - length c)) @ bs @ drop (pos + length bs) c"

definition sys_file_write :: "string \<Rightarrow> nat \<Rightarrow> u8 list \<Rightarrow> int io" where
  "sys_file_write path pos bs w =
     (let d = shd (w_fio w); w' = w\<lparr>w_fio := stl (w_fio w)\<rparr>
      in if d < 0 then (Done (-1), w')
         else let n = min (nat d) (length bs)
              in (Done (int n), w'\<lparr>w_files := (w_files w)(path \<mapsto>
                    (if n = 0 then file_of w path else file_splice pos (take n bs) (file_of w path)))\<rparr>))"

definition sys_unlink :: "string \<Rightarrow> int io" where
  "sys_unlink path w =
     (let w' = w\<lparr>w_fio := stl (w_fio w)\<rparr>
      in if shd (w_fio w) < 0 \<or> w_files w path = None then (Done (-1), w')
         else (Done 0, w'\<lparr>w_files := (w_files w)(path := None)\<rparr>))"

subsection \<open>Splicing\<close>

lemma file_splice_Nil_file: "file_splice 0 bs [] = bs"
  by (simp add: file_splice_def)

lemma file_splice_0: "length c \<le> length bs \<Longrightarrow> file_splice 0 bs c = bs"
  by (simp add: file_splice_def)

lemma length_file_splice [simp]: "length (file_splice pos bs c) = max (pos + length bs) (length c)"
  by (auto simp: file_splice_def)

lemma file_splice_splice:
  "file_splice (pos + length a) b (file_splice pos a c) = file_splice pos (a @ b) c"
  by (cases "pos \<le> length c") (auto simp: file_splice_def ac_simps)

lemma file_splice_read: "take (length bs) (drop pos (file_splice pos bs c)) = bs"
  by (auto simp: file_splice_def)

lemma file_splice_before: "i < pos \<Longrightarrow> i < length c \<Longrightarrow> file_splice pos bs c ! i = c ! i"
  by (auto simp: file_splice_def nth_append)

lemma file_splice_after: "pos + length bs \<le> i \<Longrightarrow> i < length c \<Longrightarrow> file_splice pos bs c ! i = c ! i"
  by (auto simp: file_splice_def nth_append min_def)

section \<open>A cooperative kernel\<close>

text \<open>No call on a regular file fails and every transfer makes progress.\<close>

definition files_ok :: "world \<Rightarrow> bool" where
  "files_ok w \<longleftrightarrow> (\<forall>d \<in> sset (w_fio w). 0 < d)"

lemma files_ok_shd: "files_ok w \<Longrightarrow> 0 < shd (w_fio w)"
  by (simp add: files_ok_def shd_sset)

lemma files_ok_stl: "files_ok w \<Longrightarrow> w_fio w' = stl (w_fio w) \<Longrightarrow> files_ok w'"
  by (auto simp: files_ok_def dest: stl_sset)

end
