(* ===== verification/Files.thy ===== *)
theory Files
  imports System Strings
begin

text \<open>
  samsung-ipc/utils.c: transferring blocks between memory and descriptors or files, sysfs
  attributes, and the conversion between bytes and hexadecimal text.
\<close>

section \<open>Regular files\<close>

text \<open>
  The loop of \<open>file_data_read\<close>: \<open>acc\<close> is the part of the buffer filled so far, its length the
  variable \<open>count\<close>; \<open>pos\<close> is the position of the descriptor.
\<close>

function file_read_loop ::
  "string \<Rightarrow> nat \<Rightarrow> nat \<Rightarrow> nat \<Rightarrow> u8 list \<Rightarrow> u8 list io" where
  "file_read_loop path sz chunk_size pos acc w =
     (let count = length acc in
      if count < sz then
        (case sys_file_read path pos
                (if sz - count > chunk_size then chunk_size else sz - count) w of
           (Done (Some bs), w') \<Rightarrow>
             if bs = [] then (Fail, w')
             else file_read_loop path sz chunk_size (pos + length bs) (acc @ bs) w'
         | (_, w') \<Rightarrow> (Fail, w'))
      else (Done acc, w))"
  by pat_completeness auto
termination
  by (relation "measure (\<lambda>(path, sz, chunk_size, pos, acc, w). sz - length acc)")
    (auto simp: diff_less_mono2)

declare file_read_loop.simps [simp del]

definition file_data_read ::
  "string option \<Rightarrow> nat \<Rightarrow> nat \<Rightarrow> u32 \<Rightarrow> u8 list io" where
  "file_data_read path sz chunk_size offset =
     (case path of None \<Rightarrow> fail
      | Some p \<Rightarrow>
          if sz = 0 \<or> chunk_size = 0 \<or> sz < chunk_size then fail
          else
            bnd (sys_open_read p) (\<lambda>opened.
            bnd (check opened) (\<lambda>_.
            let (seek, pos) = sys_lseek (sint offset) in
            bnd (check (\<not> seek < sint offset)) (\<lambda>_.
            file_read_loop p sz chunk_size pos []))))"

text \<open>The loop of \<open>file_data_write\<close>: \<open>p\<close> is what is left to write.\<close>

function file_write_loop :: "string \<Rightarrow> nat \<Rightarrow> nat \<Rightarrow> u8 list \<Rightarrow> unit io" where
  "file_write_loop path chunk_size pos p w =
     (if p \<noteq> [] then
        (case sys_file_write path pos
                (take (if length p > chunk_size then chunk_size else length p) p) w of
           (Done rc, w') \<Rightarrow>
             if rc \<le> 0 then (Fail, w')
             else file_write_loop path chunk_size (pos + nat rc) (drop (nat rc) p) w'
         | (_, w') \<Rightarrow> (Fail, w'))
      else (Done (), w))"
  by pat_completeness auto
termination
  by (relation "measure (\<lambda>(path, chunk_size, pos, p, w). length p)") auto

declare file_write_loop.simps [simp del]

text \<open>The region \<open>data\<close>, \<open>size\<close> is one byte list.\<close>

definition file_data_write ::
  "string option \<Rightarrow> u8 list option \<Rightarrow> nat \<Rightarrow> u32 \<Rightarrow> unit io" where
  "file_data_write path data chunk_size offset =
     (case (path, data) of
        (Some p, Some bs) \<Rightarrow>
          if length bs = 0 \<or> chunk_size = 0 \<or> length bs < chunk_size then fail
          else
            bnd (sys_open_write p) (\<lambda>opened.
            bnd (check opened) (\<lambda>_.
            let (seek, pos) = sys_lseek (sint offset) in
            bnd (check (\<not> seek < sint offset)) (\<lambda>_.
            file_write_loop p chunk_size pos bs)))
      | _ \<Rightarrow> fail)"

text \<open>\<open>open\<close> and \<open>lseek (fd, 0, SEEK_END)\<close>: the size of the file.\<close>

definition file_data_size :: "string option \<Rightarrow> nat io" where
  "file_data_size path =
     (case path of None \<Rightarrow> fail
      | Some p \<Rightarrow>
          bnd (sys_open_read p) (\<lambda>opened.
          bnd (check opened) (\<lambda>_ w. (Done (length (file_of w p)), w))))"

section \<open>Descriptors: data_read and data_write\<close>

text \<open>
  Both loops pass the same buffer and the same count to every call. They end only when the
  bytes transferred add up to \<open>count\<close>; a call that keeps returning 0 never ends them, which is
  the value \<open>None\<close> here. The variable \<open>remaining\<close> starts as \<open>count\<close> cast to \<open>ssize_t\<close>.
\<close>

partial_function (option) data_read_loop ::
  "nat \<Rightarrow> int \<Rightarrow> u8 list \<Rightarrow> world \<Rightarrow> (u8 list outcome \<times> world) option" where
  "data_read_loop count remaining buf w =
     (if 0 < remaining then
        (case sys_read count w of
           (Done (Some bs), w') \<Rightarrow>
             data_read_loop count (remaining - int (length bs)) (bs @ drop (length bs) buf) w'
         | (_, w') \<Rightarrow> Some (Fail, w'))
      else Some (Done buf, w))"

definition data_read :: "nat \<Rightarrow> u8 list \<Rightarrow> world \<Rightarrow> (u8 list outcome \<times> world) option" where
  "data_read count buf w = data_read_loop count (sint (of_nat count :: u32)) buf w"

partial_function (option) data_write_loop ::
  "int \<Rightarrow> u8 list \<Rightarrow> int \<Rightarrow> world \<Rightarrow> (unit outcome \<times> world) option" where
  "data_write_loop fd buf remaining w =
     (if 0 < remaining then
        (case sys_write fd buf w of
           (Done rc, w') \<Rightarrow>
             if rc = -1 then Some (Fail, w')
             else data_write_loop fd buf (remaining - rc) w'
         | (_, w') \<Rightarrow> Some (Fail, w'))
      else Some (Done (), w))"

definition data_write :: "int \<Rightarrow> u8 list \<Rightarrow> world \<Rightarrow> (unit outcome \<times> world) option" where
  "data_write fd buf w = data_write_loop fd buf (sint (of_nat (length buf) :: u32)) w"

section \<open>Hexadecimal text\<close>

definition ascii :: "string \<Rightarrow> u8 list" where
  "ascii s = map of_char s"

definition data2string_length :: "u8 list option \<Rightarrow> nat" where
  "data2string_length data =
     (case data of None \<Rightarrow> 0 | Some bs \<Rightarrow> if length bs = 0 then 0 else length bs * 2 + 1)"

text \<open>
  The loop prints byte \<open>i\<close> with its terminating zero at \<open>2 * i\<close>; the next print overwrites the
  zero. The result is the whole block.
\<close>

fun data2string_loop :: "u8 list \<Rightarrow> nat \<Rightarrow> u8 list \<Rightarrow> u8 list outcome" where
  "data2string_loop [] p string = Done string"
| "data2string_loop (b # bs) p string =
     obind (poke p (ascii (hexpad 2 (unat b)) @ [0]) string) (data2string_loop bs (p + 2))"

definition data2string :: "u8 list option \<Rightarrow> u8 list outcome" where
  "data2string data =
     (case data of None \<Rightarrow> Fail
      | Some bs \<Rightarrow>
          if length bs = 0 then Fail
          else
            let len = data2string_length data in
            if len = 0 then Fail else data2string_loop bs 0 (calloc len))"

definition string2data_size :: "u8 list option \<Rightarrow> nat" where
  "string2data_size string =
     (case string of None \<Rightarrow> 0
      | Some s \<Rightarrow>
          let len = strlen s in
          if len = 0 then 0
          else if len mod 2 = 0 then len div 2
          else (len - len mod 2) div 2 + 1)"

text \<open>
  \<open>sscanf (p, "%01x", &b)\<close>: white space is skipped, then one character is converted if it is
  a hexadecimal digit; otherwise there is no conversion and the code takes 0.
\<close>

definition hexval :: "u8 \<Rightarrow> nat option" where
  "hexval c =
     (let n = unat c in
      if 48 \<le> n \<and> n \<le> 57 then Some (n - 48)
      else if 97 \<le> n \<and> n \<le> 102 then Some (n - 87)
      else if 65 \<le> n \<and> n \<le> 70 then Some (n - 55)
      else None)"

definition isspace :: "u8 \<Rightarrow> bool" where
  "isspace c \<longleftrightarrow> c = 32 \<or> (9 \<le> unat c \<and> unat c \<le> 13)"

definition sscanf_1x :: "u8 list \<Rightarrow> nat option" where
  "sscanf_1x s = (case dropWhile isspace s of [] \<Rightarrow> None | c # _ \<Rightarrow> hexval c)"

text \<open>One round of the loop per character: \<open>p\<close> is the byte being filled.\<close>

fun string2data_loop :: "u8 list \<Rightarrow> nat \<Rightarrow> nat \<Rightarrow> u8 list \<Rightarrow> u8 list outcome" where
  "string2data_loop [] parity p data = Done data"
| "string2data_loop (c # cs) parity p data =
     (let b = (case sscanf_1x (c # cs) of None \<Rightarrow> 0 | Some v \<Rightarrow> of_nat v) :: u8 in
      obind (peek8 p data) (\<lambda>old.
        if parity mod 2 = 0
        then string2data_loop cs (parity + 1) p (data[p := or old (push_bit 4 (and b 0x0f))])
        else string2data_loop cs (parity + 1) (p + 1) (data[p := or old (and b 0x0f)])))"

definition string2data :: "u8 list option \<Rightarrow> u8 list outcome" where
  "string2data string =
     (case string of None \<Rightarrow> Fail
      | Some s \<Rightarrow>
          let len = strlen s in
          if len = 0 then Fail
          else
            let parity = (if len mod 2 = 0 then 0 else 1);
                size = string2data_size string
            in if size = 0 then Fail
               else string2data_loop (cstr s) parity 0 (calloc size))"

section \<open>Sysfs attributes\<close>

text \<open>The text of \<open>%d\<close>, and \<open>atoi\<close> on memory that need not hold a terminated string.\<close>

fun dec_digits :: "nat \<Rightarrow> u8 list" where
  "dec_digits n = (if n < 10 then [] else dec_digits (n div 10)) @ [of_nat (48 + n mod 10)]"

declare dec_digits.simps [simp del]

definition print_int :: "int \<Rightarrow> u8 list" where
  "print_int v = (if v < 0 then 45 # dec_digits (nat (- v)) else dec_digits (nat v))"

fun atoi_digits :: "int \<Rightarrow> u8 list \<Rightarrow> int outcome" where
  "atoi_digits acc [] = Undef"
| "atoi_digits acc (c # cs) =
     (if 48 \<le> unat c \<and> unat c \<le> 57 then atoi_digits (acc * 10 + int (unat c - 48)) cs
      else if acc < 2 ^ 31 then Done acc else Undef)"

fun atoi :: "u8 list \<Rightarrow> int outcome" where
  "atoi [] = Undef"
| "atoi (c # cs) =
     (if isspace c then atoi cs
      else if c = 45 then obind (atoi_digits 0 cs) (\<lambda>v. Done (- v))
      else if c = 43 then atoi_digits 0 cs
      else atoi_digits 0 (c # cs))"

text \<open>The functions return the value, with -1 for every failure.\<close>

definition sysfs_value_read :: "string option \<Rightarrow> int io" where
  "sysfs_value_read path =
     (case path of None \<Rightarrow> ret (-1)
      | Some p \<Rightarrow>
          bnd (sys_open_read p) (\<lambda>opened.
          if \<not> opened then ret (-1)
          else bnd (sys_file_read p 0 100) (\<lambda>r.
            case r of None \<Rightarrow> ret (-1)
            | Some bs \<Rightarrow> if bs = [] then ret (-1) else lift_outcome (atoi bs))))"

text \<open>\<open>open (path, O_WRONLY)\<close> does not create the file.\<close>

definition sysfs_value_write :: "string option \<Rightarrow> int \<Rightarrow> unit io" where
  "sysfs_value_write path v =
     (case path of None \<Rightarrow> fail
      | Some p \<Rightarrow>
          bnd (sys_open_read p) (\<lambda>opened.
          bnd (check opened) (\<lambda>_.
          let buffer = take 99 (print_int v @ [10]) in
          bnd (sys_file_write p 0 (cstr buffer)) (\<lambda>rc.
          check (\<not> rc < int (strlen buffer))))))"

definition sysfs_string_read :: "string option \<Rightarrow> nat \<Rightarrow> u8 list io" where
  "sysfs_string_read path len =
     (case path of None \<Rightarrow> fail
      | Some p \<Rightarrow>
          if len = 0 then fail
          else
            bnd (sys_open_read p) (\<lambda>opened.
            bnd (check opened) (\<lambda>_.
            bnd (sys_file_read p 0 len) (\<lambda>r.
            case r of None \<Rightarrow> fail
            | Some bs \<Rightarrow> if bs = [] then fail else ret (bs @ calloc (len - length bs))))))"

definition sysfs_string_write :: "string option \<Rightarrow> u8 list option \<Rightarrow> unit io" where
  "sysfs_string_write path buffer =
     (case (path, buffer) of
        (Some p, Some bs) \<Rightarrow>
          if length bs = 0 then fail
          else
            bnd (sys_open_read p) (\<lambda>opened.
            bnd (check opened) (\<lambda>_.
            bnd (sys_file_write p 0 bs) (\<lambda>rc.
            check (\<not> rc < int (length bs)))))
      | _ \<Rightarrow> fail)"

section \<open>Reading and writing files: what the loops do\<close>

lemma sys_file_read_Some:
  assumes "sys_file_read path pos n w = (Done (Some bs), w')"
  shows "bs = take (length bs) (drop pos (file_of w path)) \<and> length bs \<le> n \<and>
    w_files w' = w_files w \<and> w_trace w' = w_trace w"
  using assms by (auto simp: sys_file_read_def Let_def min_def split: if_splits)

lemma file_of_cong: "w_files w' = w_files w \<Longrightarrow> file_of w' path = file_of w path"
  by (simp add: file_of_def)

lemma file_read_loop_Done:
  "file_read_loop path sz chunk_size pos acc w = (Done data, w') \<Longrightarrow> length acc \<le> sz \<Longrightarrow>
   data = acc @ take (sz - length acc) (drop pos (file_of w path)) \<and> length data = sz \<and>
   w_files w' = w_files w \<and> w_trace w' = w_trace w"
proof (induction path sz chunk_size pos acc w rule: file_read_loop.induct)
  case (1 path sz chunk_size pos acc w)
  show ?case
  proof (cases "length acc < sz")
    case False
    with "1.prems" show ?thesis by (simp add: file_read_loop.simps [of path sz])
  next
    case True
    let ?n = "if sz - length acc > chunk_size then chunk_size else sz - length acc"
    from "1.prems"(1) True obtain bs w1 where
        rd: "sys_file_read path pos ?n w = (Done (Some bs), w1)" and ne: "bs \<noteq> []" and
        rest: "file_read_loop path sz chunk_size (pos + length bs) (acc @ bs) w1 = (Done data, w')"
      by (subst (asm) file_read_loop.simps)
        (auto simp: Let_def split: prod.splits outcome.splits option.splits if_splits)
    from sys_file_read_Some [OF rd] have bs: "bs = take (length bs) (drop pos (file_of w path))"
        and len: "length (acc @ bs) \<le> sz" and fr: "w_files w1 = w_files w" "w_trace w1 = w_trace w"
      using True by (auto split: if_splits)
    have d: "data = (acc @ bs) @ take (sz - length (acc @ bs)) (drop (pos + length bs) (file_of w path))"
      and l: "length data = sz" and fr': "w_files w' = w_files w" "w_trace w' = w_trace w"
      using "1.IH" [OF refl True rd [symmetric] refl refl ne rest len] fr
      by (auto simp only: file_of_cong [OF fr(1)])
    have "bs @ take (sz - length (acc @ bs)) (drop (pos + length bs) (file_of w path)) =
        take (sz - length acc) (drop pos (file_of w path))"
    proof -
      have "sz - length acc = length bs + (sz - length (acc @ bs))" using len by simp
      then show ?thesis
        by (subst (1) bs) (simp only: take_add drop_drop add.commute)
    qed
    with d have "data = acc @ take (sz - length acc) (drop pos (file_of w path))" by simp
    with l fr' show ?thesis by blast
  qed
qed

lemma sys_file_read_ok:
  assumes "files_ok w" and "0 < n" and "pos < length (file_of w path)"
  shows "\<exists>bs w'. sys_file_read path pos n w = (Done (Some bs), w') \<and> bs \<noteq> [] \<and> files_ok w'"
  using files_ok_shd [OF assms(1)] files_ok_stl [OF assms(1)] assms(2,3)
  by (auto simp: sys_file_read_def Let_def)

lemma file_read_loop_ok:
  "files_ok w \<Longrightarrow> 0 < chunk_size \<Longrightarrow> length acc \<le> sz \<Longrightarrow>
   pos + (sz - length acc) \<le> length (file_of w path) \<Longrightarrow>
   \<exists>data w'. file_read_loop path sz chunk_size pos acc w = (Done data, w') \<and> files_ok w'"
proof (induction path sz chunk_size pos acc w rule: file_read_loop.induct)
  case (1 path sz chunk_size pos acc w)
  show ?case
  proof (cases "length acc < sz")
    case False
    with "1.prems" show ?thesis by (simp add: file_read_loop.simps [of path sz])
  next
    case True
    let ?n = "if sz - length acc > chunk_size then chunk_size else sz - length acc"
    have "0 < ?n" and "pos < length (file_of w path)" using True "1.prems" by auto
    from sys_file_read_ok [OF "1.prems"(1) this] obtain bs w1 where
        rd: "sys_file_read path pos ?n w = (Done (Some bs), w1)" and ne: "bs \<noteq> []" and
        ok: "files_ok w1" by blast
    from sys_file_read_Some [OF rd] have len: "length (acc @ bs) \<le> sz"
        and fr: "w_files w1 = w_files w"
      using True by (auto split: if_splits)
    have "pos + length bs + (sz - length (acc @ bs)) \<le> length (file_of w1 path)"
      using "1.prems"(4) len by (simp add: file_of_cong [OF fr])
    from "1.IH" [OF refl True rd [symmetric] refl refl ne ok "1.prems"(2) len this]
    show ?thesis
      using True rd ne by (simp add: file_read_loop.simps [of path sz] Let_def)
  qed
qed

lemma sys_file_write_pos:
  assumes "sys_file_write path pos bs w = (Done rc, w')" and "0 < rc"
  shows "nat rc \<le> length bs \<and>
    w_files w' = (w_files w)(path \<mapsto> file_splice pos (take (nat rc) bs) (file_of w path)) \<and>
    w_trace w' = w_trace w"
  using assms by (auto simp: sys_file_write_def Let_def split: if_splits)

lemma file_write_loop_Done:
  "file_write_loop path chunk_size pos p w = (Done u, w') \<Longrightarrow>
   w_trace w' = w_trace w \<and>
   w_files w' = (if p = [] then w_files w
                 else (w_files w)(path \<mapsto> file_splice pos p (file_of w path)))"
proof (induction path chunk_size pos p w rule: file_write_loop.induct)
  case (1 path chunk_size pos p w)
  show ?case
  proof (cases "p = []")
    case True
    with "1.prems" show ?thesis by (simp add: file_write_loop.simps [of path chunk_size])
  next
    case False
    let ?bs = "take (if length p > chunk_size then chunk_size else length p) p"
    from "1.prems" False obtain rc w1 where
        wr: "sys_file_write path pos ?bs w = (Done rc, w1)" and rc: "\<not> rc \<le> 0" and
        rest: "file_write_loop path chunk_size (pos + nat rc) (drop (nat rc) p) w1 = (Done u, w')"
      by (subst (asm) file_write_loop.simps)
        (auto simp: Let_def split: prod.splits outcome.splits if_splits)
    let ?k = "nat rc"
    have le: "?k \<le> length p" and tk: "take ?k ?bs = take ?k p"
      using sys_file_write_pos [OF wr] rc by (auto split: if_splits)
    have fs: "w_files w1 = (w_files w)(path \<mapsto> file_splice pos (take ?k p) (file_of w path))"
        and tr: "w_trace w1 = w_trace w"
      using sys_file_write_pos [OF wr] rc tk by simp_all
    have ih: "w_trace w' = w_trace w1 \<and> w_files w' = (if drop ?k p = [] then w_files w1
        else (w_files w1)(path \<mapsto> file_splice (pos + ?k) (drop ?k p) (file_of w1 path)))"
      using "1.IH" [OF False wr [symmetric] refl rc rest] .
    have "file_splice (pos + length (take ?k p)) (drop ?k p) (file_splice pos (take ?k p) (file_of w path)) =
        file_splice pos p (file_of w path)"
      by (simp only: file_splice_splice append_take_drop_id)
    then show ?thesis
      using ih fs tr le False by (auto simp: file_of_def min_def)
  qed
qed

lemma file_write_loop_ok:
  "files_ok w \<Longrightarrow> 0 < chunk_size \<Longrightarrow>
   \<exists>w'. file_write_loop path chunk_size pos p w = (Done (), w') \<and> files_ok w'"
proof (induction path chunk_size pos p w rule: file_write_loop.induct)
  case (1 path chunk_size pos p w)
  show ?case
  proof (cases "p = []")
    case True
    with "1.prems" show ?thesis by (simp add: file_write_loop.simps [of path chunk_size])
  next
    case False
    let ?bs = "take (if length p > chunk_size then chunk_size else length p) p"
    have "?bs \<noteq> []" using False "1.prems"(2) by simp
    then obtain rc w1 where wr: "sys_file_write path pos ?bs w = (Done rc, w1)" and
        rc: "\<not> rc \<le> 0" and ok: "files_ok w1"
      using files_ok_shd [OF "1.prems"(1)] files_ok_stl [OF "1.prems"(1)]
      by (auto simp: sys_file_write_def Let_def)
    from "1.IH" [OF False wr [symmetric] refl rc ok "1.prems"(2)]
    show ?thesis
      using False wr rc by (simp add: file_write_loop.simps [of path chunk_size] Let_def)
  qed
qed

section \<open>The two functions\<close>

text \<open>Where a fresh descriptor stands after the seek both functions do.\<close>

definition seek_pos :: "u32 \<Rightarrow> nat" where
  "seek_pos offset = snd (sys_lseek (sint offset))"

lemma seek_passes: "\<not> fst (sys_lseek (sint offset)) < sint (offset :: u32)"
  by (simp add: sys_lseek_def)

lemma check_True_bnd: "bnd (check True) f = f ()"
  by (rule ext) (simp add: bnd_def check_eq)

lemma file_data_read_eq:
  "file_data_read (Some p) sz chunk_size offset =
     (if sz = 0 \<or> chunk_size = 0 \<or> sz < chunk_size then fail
      else bnd (sys_open_read p) (\<lambda>opened. bnd (check opened) (\<lambda>_.
        file_read_loop p sz chunk_size (seek_pos offset) [])))"
  by (simp add: file_data_read_def seek_pos_def Let_def split_beta seek_passes check_True_bnd)

lemma file_data_write_eq:
  "file_data_write (Some p) (Some bs) chunk_size offset =
     (if length bs = 0 \<or> chunk_size = 0 \<or> length bs < chunk_size then fail
      else bnd (sys_open_write p) (\<lambda>opened. bnd (check opened) (\<lambda>_.
        file_write_loop p chunk_size (seek_pos offset) bs)))"
  by (simp add: file_data_write_def seek_pos_def Let_def split_beta seek_passes check_True_bnd)

lemma file_data_read_Done:
  assumes "file_data_read (Some p) sz chunk_size offset w = (Done data, w')"
  shows "\<exists>c. w_files w p = Some c \<and> data = take sz (drop (seek_pos offset) c) \<and>
    length data = sz \<and> w_files w' = w_files w \<and> w_trace w' = w_trace w"
proof -
  let ?w1 = "w\<lparr>w_fio := stl (w_fio w)\<rparr>"
  from assms have "w_files w p \<noteq> None"
      and loop: "file_read_loop p sz chunk_size (seek_pos offset) [] ?w1 = (Done data, w')"
    by (auto simp: file_data_read_eq io_Done sys_open_read_def split: if_splits)
  then obtain c where c: "w_files w p = Some c" by auto
  then have "file_of ?w1 p = c" by (simp add: file_of_def)
  with file_read_loop_Done [OF loop] c show ?thesis by auto
qed

lemma file_data_read_ok:
  assumes "files_ok w" and "w_files w p = Some c" and "0 < chunk_size" and "chunk_size \<le> sz"
    and "seek_pos offset + sz \<le> length c"
  shows "\<exists>w'. file_data_read (Some p) sz chunk_size offset w =
      (Done (take sz (drop (seek_pos offset) c)), w') \<and> files_ok w' \<and> w_files w' = w_files w"
proof -
  let ?w1 = "w\<lparr>w_fio := stl (w_fio w)\<rparr>"
  have ok1: "files_ok ?w1" using files_ok_stl [OF assms(1)] by simp
  have c1: "file_of ?w1 p = c" using assms(2) by (simp add: file_of_def)
  from file_read_loop_ok [OF ok1 assms(3), of "[]" sz "seek_pos offset" p] assms(5) c1
  obtain data w' where loop: "file_read_loop p sz chunk_size (seek_pos offset) [] ?w1 = (Done data, w')"
      and ok': "files_ok w'" by auto
  have "0 \<le> shd (w_fio w)" using files_ok_shd [OF assms(1)] by simp
  then have "file_data_read (Some p) sz chunk_size offset w = (Done data, w')"
    using assms(2-4) loop by (simp add: file_data_read_eq bnd_def sys_open_read_def check_eq)
  with file_read_loop_Done [OF loop] c1 ok' show ?thesis by simp
qed

lemma file_data_write_Done:
  assumes "file_data_write (Some p) (Some bs) chunk_size offset w = (Done u, w')"
  shows "w_files w' = (w_files w)(p \<mapsto> file_splice (seek_pos offset) bs (file_of w p)) \<and>
    w_trace w' = w_trace w"
proof -
  let ?w1 = "w\<lparr>w_fio := stl (w_fio w), w_files := (w_files w)(p \<mapsto> file_of w p)\<rparr>"
  from assms have ne: "bs \<noteq> []"
      and loop: "file_write_loop p chunk_size (seek_pos offset) bs ?w1 = (Done u, w')"
    by (auto simp: file_data_write_eq io_Done sys_open_write_def Let_def split: if_splits)
  have "file_of ?w1 p = file_of w p" by (simp add: file_of_def)
  with file_write_loop_Done [OF loop] ne show ?thesis by simp
qed

lemma file_data_write_ok:
  assumes "files_ok w" and "0 < chunk_size" and "chunk_size \<le> length bs"
  shows "\<exists>w'. file_data_write (Some p) (Some bs) chunk_size offset w = (Done (), w') \<and> files_ok w'"
proof -
  let ?w1 = "w\<lparr>w_fio := stl (w_fio w), w_files := (w_files w)(p \<mapsto> file_of w p)\<rparr>"
  have ok1: "files_ok ?w1" using files_ok_stl [OF assms(1)] by simp
  from file_write_loop_ok [OF this assms(2)] obtain w' where
      loop: "file_write_loop p chunk_size (seek_pos offset) bs ?w1 = (Done (), w')" and "files_ok w'"
    by blast
  moreover have "\<not> shd (w_fio w) < 0" using files_ok_shd [OF assms(1)] by simp
  ultimately show ?thesis
    using assms(2,3)
    by (auto simp: file_data_write_eq bnd_def sys_open_write_def check_eq Let_def file_of_def)
qed


section \<open>Which files a computation can touch, and computations that succeed\<close>

text \<open>Whatever the kernel does and however it ends, \<open>m\<close> changes no file outside \<open>S\<close>.\<close>

definition keeps :: "string set \<Rightarrow> 'a io \<Rightarrow> bool" where
  "keeps S m \<longleftrightarrow> (\<forall>w r w'. m w = (r, w') \<longrightarrow> (\<forall>p. p \<notin> S \<longrightarrow> w_files w' p = w_files w p))"

named_theorems keeps_intros \<open>frame rules\<close>

lemma keepsD: "keeps S m \<Longrightarrow> m w = (r, w') \<Longrightarrow> p \<notin> S \<Longrightarrow> w_files w' p = w_files w p"
  by (auto simp: keeps_def)

lemma keeps_empty: "keeps {} m \<Longrightarrow> m w = (r, w') \<Longrightarrow> w_files w' = w_files w"
  by (auto simp: keeps_def fun_eq_iff)

lemma keepsI: "(\<And>w. \<forall>p. p \<notin> S \<longrightarrow> w_files (snd (m w)) p = w_files w p) \<Longrightarrow> keeps S m"
  unfolding keeps_def by (metis snd_conv)

lemma keeps_bnd [keeps_intros]: "keeps S m \<Longrightarrow> (\<And>a. keeps S (f a)) \<Longrightarrow> keeps S (bnd m f)"
  unfolding keeps_def bnd_def
  by (auto split: prod.splits outcome.splits)

lemma keeps_try_rc [keeps_intros]: "keeps S m \<Longrightarrow> keeps S (try_rc m)"
  unfolding keeps_def try_rc_def by (auto split: prod.splits outcome.splits)

lemma keeps_simple [keeps_intros]:
  "keeps S (check b)" "keeps S (ret a)" "keeps S fail" "keeps S undef" "keeps S (lift_outcome r)"
  by (auto simp: keeps_def check_eq ret_eq fail_eq undef_eq lift_outcome_eq)

lemma keeps_if [keeps_intros]: "keeps S m \<Longrightarrow> keeps S n \<Longrightarrow> keeps S (if b then m else n)"
  by simp

lemma keeps_calls [keeps_intros]:
  "keeps S (sys_stat p)" "keeps S (sys_open_read p)" "keeps S (sys_file_read p pos n)"
  by (auto simp: keeps_def sys_stat_def sys_open_read_def sys_file_read_def Let_def split: if_splits)

lemma keeps_updates [keeps_intros]:
  "p \<in> S \<Longrightarrow> keeps S (sys_unlink p)" "p \<in> S \<Longrightarrow> keeps S (sys_open_write p)"
  "p \<in> S \<Longrightarrow> keeps S (sys_file_write p pos bs)"
  by (auto simp: keeps_def sys_unlink_def sys_open_write_def sys_file_write_def Let_def split: if_splits)

lemma keeps_file_read_loop [keeps_intros]: "keeps S (file_read_loop path sz chunk_size pos acc)"
proof (rule keepsI)
  fix w
  show "\<forall>p. p \<notin> S \<longrightarrow> w_files (snd (file_read_loop path sz chunk_size pos acc w)) p = w_files w p"
  proof (induction path sz chunk_size pos acc w rule: file_read_loop.induct)
    case (1 path sz chunk_size pos acc w)
    obtain r w1 where rd: "sys_file_read path pos (if sz - length acc > chunk_size then chunk_size
        else sz - length acc) w = (r, w1)" by fastforce
    have "w_files w1 = w_files w" by (rule keeps_empty [OF keeps_calls(3) rd])
    with "1.IH" [OF refl _ rd [symmetric]] rd show ?case
      by (subst file_read_loop.simps)
        (auto simp: Let_def split: outcome.splits option.splits)
  qed
qed

lemma keeps_file_write_loop [keeps_intros]: "path \<in> S \<Longrightarrow> keeps S (file_write_loop path chunk_size pos p)"
proof (rule keepsI)
  fix w
  show "path \<in> S \<Longrightarrow> \<forall>q. q \<notin> S \<longrightarrow> w_files (snd (file_write_loop path chunk_size pos p w)) q = w_files w q"
  proof (induction path chunk_size pos p w rule: file_write_loop.induct)
    case (1 path chunk_size pos p w)
    obtain r w1 where wr: "sys_file_write path pos (take (if length p > chunk_size then chunk_size
        else length p) p) w = (r, w1)" by fastforce
    have "\<forall>q. q \<notin> S \<longrightarrow> w_files w1 q = w_files w q"
      using keepsD [OF keeps_updates(3) wr] "1.prems" by blast
    with "1.IH" [OF _ wr [symmetric]] "1.prems" wr show ?case
      by (subst file_write_loop.simps) (auto split: outcome.splits)
  qed
qed

lemma keeps_file_data_read [keeps_intros]: "keeps S (file_data_read path sz chunk_size offset)"
  by (cases path) (auto simp: file_data_read_eq, auto simp: file_data_read_def intro!: keeps_intros)

lemma keeps_file_data_write [keeps_intros]:
  "p \<in> S \<Longrightarrow> keeps S (file_data_write (Some p) data chunk_size offset)"
  by (cases data) (auto simp: file_data_write_eq, auto simp: file_data_write_def intro!: keeps_intros)

text \<open>However it ends, \<open>m\<close> does nothing undefined and leaves a cooperative kernel cooperative.\<close>

definition tame :: "'a io \<Rightarrow> bool" where
  "tame m \<longleftrightarrow> (\<forall>w r w'. m w = (r, w') \<longrightarrow> r \<noteq> Undef \<and> (files_ok w \<longrightarrow> files_ok w'))"

named_theorems tame_intros \<open>computations without undefined behaviour\<close>

lemma tameD: "tame m \<Longrightarrow> m w = (r, w') \<Longrightarrow> r \<noteq> Undef \<and> (files_ok w \<longrightarrow> files_ok w')"
  by (simp add: tame_def)

lemma tameI: "(\<And>w. fst (m w) \<noteq> Undef \<and> (files_ok w \<longrightarrow> files_ok (snd (m w)))) \<Longrightarrow> tame m"
  unfolding tame_def by (metis fst_conv snd_conv)

lemma tame_bnd [tame_intros]: "tame m \<Longrightarrow> (\<And>a. tame (f a)) \<Longrightarrow> tame (bnd m f)"
  unfolding tame_def bnd_def by (fastforce split: prod.splits outcome.splits)

lemma tame_try_rc [tame_intros]: "tame m \<Longrightarrow> tame (try_rc m)"
  unfolding tame_def try_rc_def by (auto split: prod.splits outcome.splits)

lemma tame_simple [tame_intros]:
  "tame (check b)" "tame (ret a)" "tame fail" "r \<noteq> Undef \<Longrightarrow> tame (lift_outcome r)"
  by (auto simp: tame_def check_eq ret_eq fail_eq lift_outcome_eq)

lemma tame_if [tame_intros]: "tame m \<Longrightarrow> tame n \<Longrightarrow> tame (if b then m else n)"
  by simp

lemma tame_calls [tame_intros]:
  "tame (sys_stat p)" "tame (sys_open_read p)" "tame (sys_file_read p pos n)" "tame (sys_unlink p)"
  "tame (sys_open_write p)" "tame (sys_file_write p pos bs)"
  by (auto simp: tame_def sys_stat_def sys_open_read_def sys_file_read_def sys_unlink_def
      sys_open_write_def sys_file_write_def Let_def files_ok_def split: if_splits dest: stl_sset)

lemma tame_file_read_loop [tame_intros]: "tame (file_read_loop path sz chunk_size pos acc)"
proof (rule tameI)
  fix w
  show "fst (file_read_loop path sz chunk_size pos acc w) \<noteq> Undef \<and>
    (files_ok w \<longrightarrow> files_ok (snd (file_read_loop path sz chunk_size pos acc w)))"
  proof (induction path sz chunk_size pos acc w rule: file_read_loop.induct)
    case (1 path sz chunk_size pos acc w)
    obtain r w1 where rd: "sys_file_read path pos (if sz - length acc > chunk_size then chunk_size
        else sz - length acc) w = (r, w1)" by fastforce
    from tameD [OF tame_calls(3) rd] "1.IH" [OF refl _ rd [symmetric]] rd show ?case
      by (subst (1 2) file_read_loop.simps) (auto simp: Let_def split: outcome.splits option.splits)
  qed
qed

lemma tame_file_write_loop [tame_intros]: "tame (file_write_loop path chunk_size pos p)"
proof (rule tameI)
  fix w
  show "fst (file_write_loop path chunk_size pos p w) \<noteq> Undef \<and>
    (files_ok w \<longrightarrow> files_ok (snd (file_write_loop path chunk_size pos p w)))"
  proof (induction path chunk_size pos p w rule: file_write_loop.induct)
    case (1 path chunk_size pos p w)
    obtain r w1 where wr: "sys_file_write path pos (take (if length p > chunk_size then chunk_size
        else length p) p) w = (r, w1)" by fastforce
    from tameD [OF tame_calls(6) wr] "1.IH" [OF _ wr [symmetric]] wr show ?case
      by (subst (1 2) file_write_loop.simps) (auto split: outcome.splits)
  qed
qed

lemma tame_file_data [tame_intros]:
  "tame (file_data_read path sz chunk_size offset)" "tame (file_data_write path data chunk_size offset)"
  by (cases path, simp_all add: file_data_read_eq, simp_all add: file_data_read_def tame_intros)
    (cases path; cases data; auto simp: file_data_write_eq intro!: tame_intros;
      simp add: file_data_write_def tame_intros)+

text \<open>With a cooperative kernel \<open>m\<close> returns \<open>a\<close> and leaves the files \<open>fs\<close>.\<close>

definition runs_to :: "'a io \<Rightarrow> world \<Rightarrow> 'a \<Rightarrow> (string \<Rightarrow> u8 list option) \<Rightarrow> bool" where
  "runs_to m w a fs \<longleftrightarrow> (\<exists>w'. m w = (Done a, w') \<and> files_ok w' \<and> w_files w' = fs)"

lemma runs_to_bnd:
  "runs_to m w a fs \<Longrightarrow> (\<And>w1. files_ok w1 \<Longrightarrow> w_files w1 = fs \<Longrightarrow> runs_to (f a) w1 b fs') \<Longrightarrow>
   runs_to (bnd m f) w b fs'"
  unfolding runs_to_def bnd_def by fastforce

lemma runs_to_pure:
  "files_ok w \<Longrightarrow> b \<Longrightarrow> w_files w = fs \<Longrightarrow> runs_to (check b) w () fs"
  "files_ok w \<Longrightarrow> w_files w = fs \<Longrightarrow> runs_to (ret a) w a fs"
  "files_ok w \<Longrightarrow> r = Done a \<Longrightarrow> w_files w = fs \<Longrightarrow> runs_to (lift_outcome r) w a fs"
  by (auto simp: runs_to_def check_eq ret_eq lift_outcome_eq)

lemma runs_to_stat:
  "files_ok w \<Longrightarrow> runs_to (sys_stat p) w (map_option length (w_files w p)) (w_files w)"
  using files_ok_shd [of w] files_ok_stl [of w] by (auto simp: runs_to_def sys_stat_def)

lemma runs_to_unlink:
  "files_ok w \<Longrightarrow> runs_to (sys_unlink p) w (if w_files w p = None then -1 else 0) ((w_files w)(p := None))"
  using files_ok_shd [of w] files_ok_stl [of w]
  by (auto simp: runs_to_def sys_unlink_def Let_def fun_upd_idem)

lemma runs_to_read:
  "files_ok w \<Longrightarrow> w_files w p = Some c \<Longrightarrow> 0 < ck \<Longrightarrow> ck \<le> sz \<Longrightarrow> seek_pos offset + sz \<le> length c \<Longrightarrow>
   runs_to (file_data_read (Some p) sz ck offset) w (take sz (drop (seek_pos offset) c)) (w_files w)"
  unfolding runs_to_def by (rule file_data_read_ok)

lemma runs_to_write:
  "files_ok w \<Longrightarrow> 0 < ck \<Longrightarrow> ck \<le> length bs \<Longrightarrow>
   runs_to (file_data_write (Some p) (Some bs) ck offset) w ()
     ((w_files w)(p \<mapsto> file_splice (seek_pos offset) bs (file_of w p)))"
  unfolding runs_to_def using file_data_write_ok [of w ck bs p offset] file_data_write_Done by fastforce

lemma seek_pos_0 [simp]: "seek_pos 0 = 0"
  by (simp add: seek_pos_def sys_lseek_def)

section \<open>What the functions guarantee\<close>

text \<open>
  Whatever the kernel does (failures and short reads included), \<open>file_data_read\<close> either
  fails or returns exactly the \<open>size\<close> bytes of the file from the position sought; a kernel that
  makes progress lets it succeed whenever the file is long enough, for every chunk size.
\<close>

theorem file_data_read_exact:
  "(\<forall>data w'. file_data_read (Some p) sz chunk_size offset w = (Done data, w') \<longrightarrow>
      length data = sz \<and> data = take sz (drop (seek_pos offset) (file_of w p)) \<and>
      w_files w' = w_files w) \<and>
   (files_ok w \<and> w_files w p = Some c \<and> 0 < chunk_size \<and> chunk_size \<le> sz \<and>
      seek_pos offset + sz \<le> length c \<longrightarrow>
    (\<exists>w'. file_data_read (Some p) sz chunk_size offset w =
      (Done (take sz (drop (seek_pos offset) c)), w')))"
proof (intro conjI allI impI)
  fix data w'
  assume "file_data_read (Some p) sz chunk_size offset w = (Done data, w')"
  from file_data_read_Done [OF this]
  show "length data = sz" and "data = take sz (drop (seek_pos offset) (file_of w p))"
    and "w_files w' = w_files w"
    by (auto simp: file_of_def)
next
  assume "files_ok w \<and> w_files w p = Some c \<and> 0 < chunk_size \<and> chunk_size \<le> sz \<and>
    seek_pos offset + sz \<le> length c"
  with file_data_read_ok [of w p c chunk_size sz offset]
  show "\<exists>w'. file_data_read (Some p) sz chunk_size offset w =
      (Done (take sz (drop (seek_pos offset) c)), w')"
    by blast
qed

definition demo_world :: world where
  "demo_world = \<lparr>w_files = [''nv'' \<mapsto> [1, 2, 3, 4, 5]], w_fio = sconst 2, w_open = sconst 3,
     w_sel = sconst 1, w_ready = sconst [3], w_rd = sconst (Some []), w_wr = sconst 7, w_ioc = sconst 0, w_trace = [],
     w_heap = Map.empty, w_next = 1\<rparr>"

lemma demo_world_ok: "files_ok demo_world"
  by (simp add: files_ok_def demo_world_def)

lemma seek_pos_2: "seek_pos 2 = 2"
  by code_simp

theorem file_data_read_exact_witness:
  "\<exists>w'. file_data_read (Some ''nv'') 3 2 2 demo_world = (Done [3, 4, 5], w')"
proof -
  have c: "w_files demo_world ''nv'' = Some [1, 2, 3, 4, 5]" by (simp add: demo_world_def)
  have "\<exists>w'. file_data_read (Some ''nv'') 3 2 2 demo_world =
      (Done (take 3 (drop (seek_pos 2) [1, 2, 3, 4, 5])), w')"
    by (rule file_data_read_exact [THEN conjunct2, rule_format])
      (simp add: c demo_world_ok seek_pos_2)
  then show ?thesis by (simp add: seek_pos_2)
qed

text \<open>
  C40: when \<open>file_data_write\<close> succeeds the file holds exactly the data at the position sought
  and its old bytes everywhere else, no other file changed, and reading the same range back
  (with any chunk size) yields the data; a kernel that makes progress lets both succeed.
\<close>

theorem file_data_write_read:
  assumes "file_data_write (Some p) (Some bs) chunk_size offset w = (Done u, w')"
    and "files_ok w'" and "0 < chunk_size'" and "chunk_size' \<le> length bs"
  shows "w_files w' = (w_files w)(p \<mapsto> file_splice (seek_pos offset) bs (file_of w p)) \<and>
    (\<exists>w''. file_data_read (Some p) (length bs) chunk_size' offset w' = (Done bs, w'') \<and>
       w_files w'' = w_files w')"
proof -
  have fs: "w_files w' = (w_files w)(p \<mapsto> file_splice (seek_pos offset) bs (file_of w p))"
    using file_data_write_Done [OF assms(1)] by blast
  have "\<exists>w''. file_data_read (Some p) (length bs) chunk_size' offset w' =
      (Done (take (length bs) (drop (seek_pos offset) (file_splice (seek_pos offset) bs (file_of w p)))), w'')
      \<and> files_ok w'' \<and> w_files w'' = w_files w'"
    by (rule file_data_read_ok) (use assms(2-4) in \<open>simp_all add: fs\<close>)
  with fs show ?thesis by (auto simp: file_splice_read)
qed

theorem file_data_write_read_witness:
  "\<exists>w'. file_data_write (Some ''nv'') (Some [9, 8]) 1 2 demo_world = (Done (), w') \<and>
     w_files w' ''nv'' = Some [1, 2, 9, 8, 5] \<and>
     (\<exists>w''. file_data_read (Some ''nv'') 2 2 2 w' = (Done [9, 8], w''))"
proof -
  have "\<exists>w'. file_data_write (Some ''nv'') (Some [9, 8]) 1 2 demo_world = (Done (), w') \<and> files_ok w'"
    by (rule file_data_write_ok) (simp_all add: demo_world_ok)
  then obtain w' where w: "file_data_write (Some ''nv'') (Some [9, 8]) 1 2 demo_world = (Done (), w')"
    and ok: "files_ok w'" by blast
  have c: "file_of demo_world ''nv'' = [1, 2, 3, 4, 5]" by (simp add: demo_world_def file_of_def)
  have s: "file_splice 2 [9, 8] [1, 2, 3, 4, 5] = [1, 2, 9, 8, 5]" by (simp add: file_splice_def)
  show ?thesis
    using w file_data_write_read [OF w ok, of 2] by (auto simp: seek_pos_2 c s s [unfolded numeral_2_eq_2] numeral_2_eq_2)
qed

text \<open>
  An offset with the top bit set becomes a negative \<open>off_t\<close>: the seek fails, its result -1 is
  not below the offset, and the file is read from its start instead.
\<close>

lemma file_data_read_large_offset:
  assumes "file_data_read (Some p) sz chunk_size 0x80000000 w = (Done data, w')"
  shows "data = take sz (file_of w p)"
proof -
  have "seek_pos 0x80000000 = 0" by code_simp
  with file_data_read_Done [OF assms] show ?thesis by (auto simp: file_of_def)
qed


section \<open>Hexadecimal text: what the conversions do\<close>

text \<open>The value of a string of digits, two to a byte.\<close>

fun pack_nibbles :: "nat list \<Rightarrow> u8 list" where
  "pack_nibbles (a # b # r) = of_nat (16 * a + b) # pack_nibbles r"
| "pack_nibbles _ = []"

definition digit_vals :: "u8 list \<Rightarrow> nat list" where
  "digit_vals s = map (\<lambda>c. the (hexval c)) s"

definition hex_digits :: "u8 list \<Rightarrow> bool" where
  "hex_digits s \<longleftrightarrow> (\<forall>c \<in> set s. hexval c \<noteq> None)"

definition hex_text :: "u8 list \<Rightarrow> u8 list" where
  "hex_text bs = concat (map (\<lambda>b. ascii (hexpad 2 (unat b))) bs)"

lemma hexval_lt: "hexval c = Some v \<Longrightarrow> v < 16"
  by (auto simp: hexval_def Let_def split: if_splits)

lemma hexval_not_space: "hexval c = Some v \<Longrightarrow> \<not> isspace c \<and> c \<noteq> 0"
  by (auto simp: hexval_def Let_def isspace_def split: if_splits)

lemma sscanf_1x_digit: "hexval c = Some v \<Longrightarrow> sscanf_1x (c # s) = Some v"
  using hexval_not_space [of c v] by (simp add: sscanf_1x_def)

lemma nibble_table:
  "\<forall>a \<in> set [0..<16]. \<forall>b \<in> set [0..<16].
     or (or 0 (push_bit 4 (and (of_nat a) 0x0f))) (and (of_nat b) 0x0f) = (of_nat (16 * a + b) :: u8)"
  by code_simp

lemma nibble_table1: "\<forall>a \<in> set [0..<16]. or 0 (and (of_nat a) 0x0f) = (of_nat a :: u8)"
  by code_simp

lemma nibbles:
  "a < 16 \<Longrightarrow> b < 16 \<Longrightarrow>
   or (or 0 (push_bit 4 (and (of_nat a) 0x0f))) (and (of_nat b) 0x0f) = (of_nat (16 * a + b) :: u8)"
  by (rule nibble_table [rule_format]) simp_all

lemma nibble1: "a < 16 \<Longrightarrow> or 0 (and (of_nat a) 0x0f) = (of_nat a :: u8)"
  by (rule nibble_table1 [rule_format]) simp_all

lemma string2data_loop_even:
  "hex_digits s \<Longrightarrow> length s = 2 * n \<Longrightarrow> parity mod 2 = 0 \<Longrightarrow>
   string2data_loop s parity (length pre) (pre @ calloc n) = Done (pre @ pack_nibbles (digit_vals s))"
proof (induction n arbitrary: s parity pre)
  case 0
  then show ?case by (simp add: digit_vals_def)
next
  case (Suc n)
  then obtain c d s' where s: "s = c # d # s'" and len: "length s' = 2 * n"
    by (cases s; cases "tl s") auto
  from Suc.prems(1) obtain a b where ab: "hexval c = Some a" "hexval d = Some b"
    and s': "hex_digits s'"
    by (auto simp: s hex_digits_def)
  let ?v = "of_nat (16 * a + b) :: u8"
  have z: "calloc (Suc n) = 0 # calloc n" by (simp add: calloc_def)
  have p: "(parity + 1) mod 2 = 1" "(parity + 1 + 1) mod 2 = 0"
    using Suc.prems(3) by presburger+
  have v: "or (or 0 (push_bit 4 (and (of_nat a) 0x0f))) (and (of_nat b) 0x0f) = ?v"
    by (rule nibbles) (use ab hexval_lt in auto)
  have "string2data_loop s parity (length pre) (pre @ calloc (Suc n)) =
      string2data_loop s' (parity + 1 + 1) (length (pre @ [?v])) ((pre @ [?v]) @ calloc n)"
    using Suc.prems(3) p(1) v
    by (simp only: s z string2data_loop.simps sscanf_1x_digit [OF ab(1)] sscanf_1x_digit [OF ab(2)])
      (simp add: peek8_def nth_append)
  also have "\<dots> = Done ((pre @ [?v]) @ pack_nibbles (digit_vals s'))"
    by (rule Suc.IH [OF s' len p(2)])
  finally show ?case by (simp add: s digit_vals_def ab)
qed

lemma string2data_hex:
  assumes "hex_digits s" and "s \<noteq> []"
  shows "string2data (Some s) =
    Done (pack_nibbles ((if odd (length s) then [0] else []) @ digit_vals s))"
proof -
  have nz: "0 \<notin> set s"
    using assms(1) hexval_not_space by (auto simp: hex_digits_def)
  have len: "strlen s = length s" using nz by (rule strlen_id)
  show ?thesis
  proof (cases "odd (length s)")
    case False
    moreover have "0 < length s" using assms(2) by simp
    ultimately have "length s = 2 * (length s div 2)" "0 < length s div 2" by presburger+
    with string2data_loop_even [OF assms(1) this(1), of 0 "[]"] assms(2) False show ?thesis
      by (auto simp: string2data_def string2data_size_def len cstr_id [OF nz] Let_def)
  next
    case True
    then obtain n where n: "length s = 2 * n + 1" by (auto elim: oddE)
    from assms(2) obtain c s' where s: "s = c # s'" by (cases s) auto
    from assms(1) obtain a where a: "hexval c = Some a" and s': "hex_digits s'"
      by (auto simp: s hex_digits_def)
    have z: "calloc (n + 1) = 0 # calloc n" by (simp add: calloc_def)
    have v: "or 0 (and (of_nat a) 0x0f) = (of_nat a :: u8)"
      by (rule nibble1) (use a hexval_lt in auto)
    have size: "string2data_size (Some s) = n + 1"
      using n by (simp add: string2data_size_def len)
    have par: "(if length s mod 2 = 0 then 0 else 1) = (1::nat)" using n by simp
    have "string2data (Some s) = string2data_loop s 1 0 (calloc (n + 1))"
      using n by (simp add: string2data_def len size cstr_id [OF nz] Let_def par)
    also have "\<dots> = string2data_loop s' (1 + 1) (length [of_nat a :: u8]) ([of_nat a] @ calloc n)"
      using v by (simp only: s z string2data_loop.simps sscanf_1x_digit [OF a]) (simp add: peek8_def)
    also have "\<dots> = Done ([of_nat a] @ pack_nibbles (digit_vals s'))"
      by (rule string2data_loop_even [OF s']) (use n in \<open>simp_all add: s\<close>)
    finally show ?thesis using True by (simp add: s a digit_vals_def)
  qed
qed


lemma hex_char_table:
  "\<forall>n \<in> set [0..<16]. hexval (of_char (hexchar n)) = Some n"
  by code_simp

lemma hexval_hexchar: "hexval (of_char (hexchar n)) = Some (n mod 16)"
proof -
  have "n mod 16 \<in> set [0..<16]" by simp
  moreover have "hexchar n = hexchar (n mod 16)" by (simp add: hexchar_def)
  ultimately show ?thesis using hex_char_table by metis
qed

lemma hex_text_Cons:
  "hex_text (b # bs) =
     of_char (hexchar (unat b div 16)) # of_char (hexchar (unat b)) # hex_text bs"
proof -
  have "unat b div 16 div 16 = 0" using unat_u8_less [of b] by simp
  then show ?thesis by (simp add: hex_text_def ascii_def numeral_2_eq_2)
qed

lemma hex_text_digits: "hex_digits (hex_text bs)"
  by (induction bs) (auto simp: hex_text_Cons hex_digits_def hexval_hexchar, simp add: hex_text_def)

lemma length_hex_text: "length (hex_text bs) = 2 * length bs"
  by (induction bs) (auto simp: hex_text_Cons, simp add: hex_text_def)

lemma pack_hex_text: "pack_nibbles (digit_vals (hex_text bs)) = bs"
proof (induction bs)
  case Nil
  then show ?case by (simp add: hex_text_def digit_vals_def)
next
  case (Cons b bs)
  have "16 * (unat b div 16 mod 16) + unat b mod 16 = unat b"
    using unat_u8_less [of b] by (simp add: div_less_iff_less_mult)
  with Cons show ?case by (simp add: hex_text_Cons digit_vals_def hexval_hexchar)
qed

lemma data2string_loop_text:
  "data2string_loop bs (length pre) (pre @ calloc (2 * length bs + 1)) = Done (pre @ hex_text bs @ [0])"
proof (induction bs arbitrary: pre)
  case Nil
  then show ?case by (simp add: hex_text_def calloc_def)
next
  case (Cons b bs)
  let ?h = "ascii (hexpad 2 (unat b))"
  have "unat b div 16 div 16 = 0" using unat_u8_less [of b] by simp
  then have h: "length ?h = 2" by (simp add: ascii_def numeral_2_eq_2)
  have "poke (length pre) (?h @ [0]) (pre @ calloc (2 * length (b # bs) + 1)) =
      Done ((pre @ ?h) @ calloc (2 * length bs + 1))"
    using h poke_calloc [of "?h @ [0]" "2 * length (b # bs) + 1" pre] by (simp add: calloc_def)
  moreover have "length pre + 2 = length (pre @ ?h)" using h by simp
  ultimately show ?case using Cons.IH [of "pre @ ?h"] by (simp add: hex_text_def)
qed

lemma hex_roundtrip_text: "bs \<noteq> [] \<Longrightarrow> data2string (Some bs) = Done (hex_text bs @ [0])"
  using data2string_loop_text [of bs "[]"]
  by (simp add: data2string_def data2string_length_def Let_def mult.commute)

text \<open>
  \<open>data2string\<close> prints every non-empty block as a terminated string of two digits per
  byte, exactly filling the block it allocated, and \<open>string2data\<close> reads it back; a string of
  digits of odd length is read as if it started with one more zero digit.
\<close>

theorem hex_roundtrip:
  "(bs \<noteq> [] \<longrightarrow> data2string (Some bs) = Done (hex_text bs @ [0]) \<and>
      string2data (Some (hex_text bs @ [0])) = Done bs) \<and>
   (hex_digits s \<and> odd (length s) \<longrightarrow> string2data (Some s) = string2data (Some (48 # s)))"
proof (intro conjI impI)
  assume ne: "bs \<noteq> []"
  have "0 \<notin> set (hex_text bs)"
    using hex_text_digits [of bs] hexval_not_space by (auto simp: hex_digits_def)
  then have z: "cstr (hex_text bs @ [0]) = hex_text bs" "cstr (hex_text bs) = hex_text bs"
    using cstr_append_zero [of "hex_text bs" 1] by (simp_all add: calloc_def cstr_id)
  have ht: "hex_text bs \<noteq> []" "even (length (hex_text bs))"
    using ne length_hex_text [of bs] by auto
  show "data2string (Some bs) = Done (hex_text bs @ [0])"
    using ne by (rule hex_roundtrip_text)
  show "string2data (Some (hex_text bs @ [0])) = Done bs"
    using string2data_hex [OF hex_text_digits ht(1)] ht
    by (auto simp: string2data_def string2data_size_def strlen_def z pack_hex_text Let_def
        split: if_splits)
next
  assume s: "hex_digits s \<and> odd (length s)"
  have "hexval 48 = Some 0" by code_simp
  with s have "hex_digits (48 # s)" "digit_vals (48 # s) = 0 # digit_vals s"
    by (simp_all add: hex_digits_def digit_vals_def)
  moreover have "s \<noteq> []" using s by auto
  ultimately show "string2data (Some s) = string2data (Some (48 # s))"
    using s string2data_hex [of s] string2data_hex [of "48 # s"] by simp
qed

theorem hex_roundtrip_witness:
  "data2string (Some [0xa5, 0x0f]) = Done (hex_text [0xa5, 0x0f] @ [0]) \<and>
   string2data (Some (hex_text [0xa5, 0x0f] @ [0])) = Done [0xa5, 0x0f] \<and>
   string2data (Some (ascii ''A53'')) = string2data (Some (48 # ascii ''A53''))"
proof -
  have "hex_digits (ascii ''A53'')" and "odd (length (ascii ''A53''))" by code_simp+
  with hex_roundtrip [of "[0xa5, 0x0f]" "ascii ''A53''"] show ?thesis by simp
qed

section \<open>data_read and data_write: what they do\<close>

lemma sconst_shd: "shd (sconst x) = x" and sconst_stl: "stl (sconst x) = sconst x"
  by simp_all

text \<open>The world after a call of \<open>read\<close> that the kernel answers with \<open>bs\<close>.\<close>

definition after_read :: "nat \<Rightarrow> u8 list \<Rightarrow> world \<Rightarrow> world" where
  "after_read n bs w = w\<lparr>w_rd := stl (w_rd w), w_trace := w_trace w @ [EvRead (take n bs)]\<rparr>"

lemma w_rd_after_read [simp]: "w_rd (after_read n bs w) = stl (w_rd w)"
  by (simp add: after_read_def)

lemma data_read_loop_step:
  "0 < remaining \<Longrightarrow> shd (w_rd w) = Some bs \<Longrightarrow>
   data_read_loop count remaining buf w =
     data_read_loop count (remaining - int (length (take count bs)))
       (take count bs @ drop (length (take count bs)) buf) (after_read count bs w)"
  by (subst data_read_loop.simps) (simp add: sys_read_def after_read_def)

lemma data_read_loop_done:
  "\<not> 0 < remaining \<Longrightarrow> data_read_loop count remaining buf w = Some (Done buf, w)"
  by (subst data_read_loop.simps) simp

lemma data_read_loop_returned:
  "data_read_loop count remaining buf w = Some y \<Longrightarrow> 0 < remaining \<Longrightarrow> w_rd w \<noteq> sconst (Some [])"
proof (rule data_read_loop.raw_induct
    [of "\<lambda>count remaining buf w y. 0 < remaining \<longrightarrow> w_rd w \<noteq> sconst (Some [])", rule_format])
  fix loop and count :: nat and remaining :: int and buf :: "u8 list" and w :: world and y
  assume IH: "\<And>count remaining buf w y. loop count remaining buf w = Some y \<Longrightarrow> 0 < remaining \<Longrightarrow>
        w_rd w \<noteq> sconst (Some [])"
    and body: "(if 0 < remaining
       then case sys_read count w of
           (Done None, w') \<Rightarrow> Some (Fail, w')
         | (Done (Some bs), w') \<Rightarrow>
             loop count (remaining - int (length bs)) (bs @ drop (length bs) buf) w'
         | (_, w') \<Rightarrow> Some (Fail, w')
       else Some (Done buf, w)) = Some y"
    and pos: "0 < remaining"
  show "w_rd w \<noteq> sconst (Some [])"
  proof
    assume eof: "w_rd w = sconst (Some [])"
    let ?w1 = "after_read count [] w"
    from eof have "shd (w_rd w) = Some []" and rd: "w_rd ?w1 = sconst (Some [])"
      by simp_all
    then have "sys_read count w = (Done (Some []), ?w1)"
      by (simp add: sys_read_def after_read_def)
    with body pos have "loop count remaining buf ?w1 = Some y" by simp
    from IH [OF this pos] rd show False by blast
  qed
qed

lemma data_read_loop_eof:
  "0 < remaining \<Longrightarrow> w_rd w = sconst (Some []) \<Longrightarrow> data_read_loop count remaining buf w = None"
  using data_read_loop_returned [of count remaining buf w]
  by (cases "data_read_loop count remaining buf w") blast+

text \<open>
  \<open>data_read\<close> delivers the bytes when one call of \<open>read\<close> returns them all. When the
  kernel splits them over two calls, the second part is stored over the first: the bytes of
  the first part that it does not cover survive, the others are lost, and the tail of the
  buffer is never written. At the end of the file it never returns.
\<close>

theorem data_read_outcomes:
  assumes buf: "length buf = count" and pos: "0 < count" and lt: "count < 2 ^ 31"
    and rd: "w_rd w = a ## b ## rest"
  shows "(a = Some bs \<and> length bs = count \<longrightarrow>
      data_read count buf w = Some (Done bs, after_read count bs w)) \<and>
    (a = Some xs \<and> b = Some ys \<and> xs \<noteq> [] \<and> length xs + length ys = count \<and> ys \<noteq> [] \<longrightarrow>
      data_read count buf w =
        Some (Done (ys @ drop (length ys) (xs @ drop (length xs) buf)),
          after_read count ys (after_read count xs w))) \<and>
    (w_rd w = sconst (Some []) \<longrightarrow> data_read count buf w = None)"
proof (intro conjI impI)
  have start: "data_read count buf w = data_read_loop count (int count) buf w"
    using lt by (simp add: data_read_def sint_small_nat)
  show "data_read count buf w = Some (Done bs, after_read count bs w)"
    if "a = Some bs \<and> length bs = count"
    using that pos buf rd start
    by (simp add: data_read_loop_step [of "int count"] data_read_loop_done)
  show "data_read count buf w =
      Some (Done (ys @ drop (length ys) (xs @ drop (length xs) buf)),
        after_read count ys (after_read count xs w))"
    if h: "a = Some xs \<and> b = Some ys \<and> xs \<noteq> [] \<and> length xs + length ys = count \<and> ys \<noteq> []"
  proof -
    let ?w1 = "after_read count xs w" and ?buf1 = "xs @ drop (length xs) buf"
    have diff: "int count - int (length xs) = int (length ys)" using h by linarith
    have "data_read count buf w = data_read_loop count (int (length ys)) ?buf1 ?w1"
      using h pos rd start diff by (simp add: data_read_loop_step [of "int count"])
    also have "\<dots> = Some (Done (ys @ drop (length ys) ?buf1), after_read count ys ?w1)"
      using h rd by (simp add: data_read_loop_step [of "int (length ys)"] data_read_loop_done)
    finally show ?thesis .
  qed
  show "data_read count buf w = None" if "w_rd w = sconst (Some [])"
    using data_read_loop_eof [OF _ that] pos start by simp
qed

theorem data_read_outcomes_witness:
  "\<exists>w'. data_read 4 [0, 0, 0, 0] (demo_world\<lparr>w_rd := Some [1, 2, 3] ## Some [4] ## sconst None\<rparr>) =
     Some (Done [4, 2, 3, 0], w')"
  using data_read_outcomes [of "[0, 0, 0, 0]" 4
      "demo_world\<lparr>w_rd := Some [1, 2, 3] ## Some [4] ## sconst None\<rparr>" "Some [1, 2, 3]" "Some [4]"
      "sconst None" "[]" "[1, 2, 3]" "[4]"]
  by simp


text \<open>\<open>data_write\<close> delivers the block when one call of \<open>write\<close> accepts it all.\<close>

lemma data_write_loop_step:
  "0 < remaining \<Longrightarrow> sys_write fd buf w = (Done rc, w') \<Longrightarrow> rc \<noteq> -1 \<Longrightarrow>
   data_write_loop fd buf remaining w = data_write_loop fd buf (remaining - rc) w'"
  by (subst data_write_loop.simps) simp

lemma data_write_loop_done: "\<not> 0 < remaining \<Longrightarrow> data_write_loop fd buf remaining w = Some (Done (), w)"
  by (subst data_write_loop.simps) simp

lemma data_write_start:
  "length buf < 2 ^ 31 \<Longrightarrow> data_write fd buf w = data_write_loop fd buf (int (length buf)) w"
  by (simp add: data_write_def sint_small_nat)

lemma data_write_full:
  assumes "buf \<noteq> []" and "length buf < 2 ^ 31" and "int (length buf) \<le> shd (w_wr w)"
  shows "\<exists>w'. data_write fd buf w = Some (Done (), w') \<and> sent fd w' = sent fd w @ buf"
proof -
  obtain w' where wr: "sys_write fd buf w = (Done (int (length buf)), w')"
    using sys_write_accepts [of w fd buf] assms(3) by auto
  show ?thesis
    using assms(1) sys_write_sent [OF wr]
    by (simp add: data_write_start [OF assms(2)] data_write_loop_step [OF _ wr] data_write_loop_done)
qed

text \<open>
  After a short \<open>write\<close> of \<open>k\<close> bytes the whole block is offered again from its start, so the
  descriptor receives its first \<open>k\<close> bytes twice and never the last ones.
\<close>

lemma data_write_short:
  assumes lt: "length buf < 2 ^ 31" and wr: "w_wr w = int k ## int m ## rest"
    and pos: "0 < k" "0 < m" and sum: "length buf = k + m"
  shows "\<exists>w'. data_write fd buf w = Some (Done (), w') \<and>
    sent fd w' = sent fd w @ take k buf @ take m buf"
proof -
  obtain w1 where wr1: "sys_write fd buf w = (Done (int k), w1)" and w1: "w_wr w1 = int m ## rest"
    using sys_write_accepts [of w fd buf] wr sum by auto
  obtain w2 where wr2: "sys_write fd buf w1 = (Done (int m), w2)"
    using sys_write_accepts [of w1 fd buf] w1 sum by auto
  have "data_write fd buf w = data_write_loop fd buf (int m) w1"
    using data_write_start [OF lt, of fd w] data_write_loop_step [OF _ wr1, of "int (k + m)"] pos
    by (simp add: sum)
  also have "\<dots> = Some (Done (), w2)"
    using data_write_loop_step [OF _ wr2, of "int m"] data_write_loop_done [of 0 fd buf w2] pos by simp
  finally show ?thesis using sys_write_sent [OF wr1] sys_write_sent [OF wr2] by simp
qed

section \<open>Sysfs attributes: what the functions do\<close>

lemma digit_byte: "unat (of_nat (48 + n mod 10) :: u8) = 48 + n mod 10"
  by (subst unat_of_nat) simp

lemma dec_digits_byte:
  "c \<in> set (dec_digits n) \<Longrightarrow> 48 \<le> unat c \<and> unat c \<le> 57"
proof (induction n rule: dec_digits.induct)
  case (1 n)
  show ?case
  proof (cases "c = of_nat (48 + n mod 10)")
    case True
    then have "unat c = 48 + n mod 10" by (simp only: digit_byte)
    then show ?thesis by simp
  next
    case False
    with "1.prems" have "c \<in> set (dec_digits (n div 10))" "\<not> n < 10"
      by (auto simp: dec_digits.simps [of n] split: if_splits)
    with "1.IH" show ?thesis by simp
  qed
qed

lemma atoi_digits_dec:
  "atoi_digits acc (dec_digits n @ rest) =
     atoi_digits (acc * 10 ^ length (dec_digits n) + int n) rest"
proof (induction n arbitrary: acc rest rule: dec_digits.induct)
  case (1 n)
  have step: "atoi_digits a (of_nat (48 + n mod 10) # r) = atoi_digits (a * 10 + int (n mod 10)) r"
    for a r
  proof -
    have "n mod 10 \<le> 9" by presburger
    then show ?thesis by (simp only: atoi_digits.simps digit_byte) simp
  qed
  show ?case
  proof (cases "n < 10")
    case True
    then show ?thesis using step by (simp add: dec_digits.simps [of n])
  next
    case False
    have n: "int n = int (n div 10) * 10 + int (n mod 10)" by presburger
    have "atoi_digits acc (dec_digits n @ rest) =
        atoi_digits ((acc * 10 ^ length (dec_digits (n div 10)) + int (n div 10)) * 10 + int (n mod 10)) rest"
      using False 1 [OF False] step by (simp add: dec_digits.simps [of n])
    also have "(acc * 10 ^ length (dec_digits (n div 10)) + int (n div 10)) * 10 + int (n mod 10) =
        acc * 10 ^ length (dec_digits n) + int n"
      using False n by (simp add: dec_digits.simps [of n] algebra_simps)
    finally show ?thesis .
  qed
qed

lemma dec_digits_ne: "dec_digits n \<noteq> []"
  by (simp add: dec_digits.simps [of n])

lemma atoi_print:
  assumes "\<bar>v\<bar> < 2 ^ 31"
  shows "atoi (print_int v @ 10 # rest) = Done v"
proof -
  have pos: "atoi (dec_digits n @ 10 # rest) = atoi_digits 0 (dec_digits n @ 10 # rest)" for n
  proof -
    obtain c cs where d: "dec_digits n = c # cs" using dec_digits_ne [of n] by (cases "dec_digits n") auto
    have "48 \<le> unat c \<and> unat c \<le> 57" using dec_digits_byte [of c n] d by simp
    then show ?thesis by (auto simp: d isspace_def)
  qed
  have val: "int n < 2 ^ 31 \<Longrightarrow> atoi_digits 0 (dec_digits n @ 10 # rest) = Done (int n)" for n
    using atoi_digits_dec [of 0 n "10 # rest"] by simp
  show ?thesis
    using assms val [of "nat (- v)"] val [of "nat v"] pos
    by (simp add: print_int_def isspace_def)
qed


lemma length_dec_digits: "n < 10 ^ k \<Longrightarrow> 0 < k \<Longrightarrow> length (dec_digits n) \<le> k"
proof (induction k arbitrary: n)
  case 0
  then show ?case by simp
next
  case (Suc k)
  show ?case
  proof (cases "n < 10")
    case True
    then show ?thesis by (simp add: dec_digits.simps [of n])
  next
    case False
    then have "n div 10 < 10 ^ k" "0 < k" using Suc.prems by (auto simp: div_less_iff_less_mult intro: gr0I)
    with Suc.IH [of "n div 10"] False show ?thesis by (simp add: dec_digits.simps [of n])
  qed
qed

lemma print_int_length: "\<bar>v\<bar> < 2 ^ 31 \<Longrightarrow> length (print_int v) \<le> 11"
proof -
  assume v: "\<bar>v\<bar> < 2 ^ 31"
  have "length (dec_digits (nat \<bar>v\<bar>)) \<le> 10" by (rule length_dec_digits) (use v in auto)
  then show ?thesis by (cases "v < 0") (simp_all add: print_int_def)
qed

lemma print_int_nonzero: "0 \<notin> set (print_int v @ [10])"
  using dec_digits_byte [of 0] by (auto simp: print_int_def)

text \<open>What \<open>sysfs_value_write\<close> leaves in the attribute parses as the value written.\<close>

lemma sysfs_value_written:
  assumes "sysfs_value_write (Some p) v w = (Done u, w')" and "\<bar>v\<bar> < 2 ^ 31"
  shows "\<exists>rest. file_of w' p = print_int v @ [10] @ rest \<and> atoi (file_of w' p) = Done v"
proof -
  let ?t = "print_int v @ [10]"
  have t: "take 99 ?t = ?t" using print_int_length [OF assms(2)] by simp
  have c: "cstr ?t = ?t" "strlen ?t = length ?t"
    by (rule cstr_id [OF print_int_nonzero], rule strlen_id [OF print_int_nonzero])
  obtain w1 rc where wr: "sys_file_write p 0 ?t w1 = (Done rc, w')" and rc: "\<not> rc < int (length ?t)"
    using assms(1)
    by (auto simp: sysfs_value_write_def io_Done Let_def t c simp del: take_append length_append)
  have "0 < rc" using rc by simp
  from sys_file_write_pos [OF wr this] rc
  have "w_files w' = (w_files w1)(p \<mapsto> file_splice 0 ?t (file_of w1 p))" by simp
  then have "file_of w' p = ?t @ drop (length ?t) (file_of w1 p)"
    by (simp add: file_of_def file_splice_def)
  then show ?thesis using atoi_print [OF assms(2)] by simp
qed

end
