(* ===== verification/Client.thy ===== *)
theory Client
  imports Files Protocol
begin

text \<open>
  samsung-ipc/ipc.c and ipc.h: clients, their operations and handlers, and the functions that
  dispatch a call to them.

  A handler takes a \<open>struct ipc_client *\<close> only to log, so that argument is dropped; an
  operation uses the client's handlers and specifications, so it takes the client without its
  operations (\<open>client_env\<close>). A null function pointer is \<open>None\<close>.
\<close>

definition IPC_CLIENT_TYPE_FMT :: int where "IPC_CLIENT_TYPE_FMT = 0"
definition IPC_CLIENT_TYPE_RFS :: int where "IPC_CLIENT_TYPE_RFS = 1"
definition IPC_CLIENT_TYPE_DUMMY :: int where "IPC_CLIENT_TYPE_DUMMY = 2"

lemmas client_types = IPC_CLIENT_TYPE_FMT_def IPC_CLIENT_TYPE_RFS_def IPC_CLIENT_TYPE_DUMMY_def

section \<open>Structures\<close>

text \<open>\<open>struct ipc_poll_fds\<close>: the array \<open>fds\<close> and the member \<open>count\<close>.\<close>

record ipc_poll_fds =
  pf_fds :: "int list option"
  pf_count :: u32

text \<open>The three data pointers of the handlers, and a pointer to one of them.\<close>

record handler_data =
  hd_transport :: ptr
  hd_power :: ptr
  hd_gprs :: ptr

datatype slot = TransportSlot | PowerSlot | GprsSlot

fun slot_set :: "slot \<Rightarrow> ptr \<Rightarrow> handler_data \<Rightarrow> handler_data" where
  "slot_set TransportSlot p d = d\<lparr>hd_transport := p\<rparr>"
| "slot_set PowerSlot p d = d\<lparr>hd_power := p\<rparr>"
| "slot_set GprsSlot p d = d\<lparr>hd_gprs := p\<rparr>"

type_synonym open_handler = "ptr \<Rightarrow> int \<Rightarrow> unit io"
type_synonym close_handler = "ptr \<Rightarrow> unit io"
type_synonym read_handler = "ptr \<Rightarrow> nat \<Rightarrow> u8 list option io"
type_synonym write_handler = "ptr \<Rightarrow> u8 list \<Rightarrow> int io"
type_synonym poll_handler = "ptr \<Rightarrow> ipc_poll_fds option \<Rightarrow> (int \<times> ipc_poll_fds option) io"
type_synonym power_handler = "ptr \<Rightarrow> unit io"
type_synonym gprs_handler = "ptr \<Rightarrow> u32 \<Rightarrow> unit io"

record ipc_client_handlers =
  h_open :: "open_handler option"
  h_close :: "close_handler option"
  h_read :: "read_handler option"
  h_write :: "write_handler option"
  h_poll :: "poll_handler option"
  h_power_on :: "power_handler option"
  h_power_off :: "power_handler option"
  h_gprs_activate :: "gprs_handler option"
  h_gprs_deactivate :: "gprs_handler option"
  h_data_create :: "(slot option \<Rightarrow> slot option \<Rightarrow> slot option \<Rightarrow> handler_data \<Rightarrow> handler_data io) option"
  h_data_destroy :: "(ptr \<Rightarrow> ptr \<Rightarrow> ptr \<Rightarrow> unit io) option"
  h_data :: handler_data

record ipc_client_gprs_specs =
  gs_get_iface :: "(u32 \<Rightarrow> string outcome) option"
  gs_get_capabilities :: "(u32 option \<Rightarrow> u32 outcome) option"

record ipc_client_nv_data_specs =
  nv_data_path :: "string option"
  nv_data_md5_path :: "string option"
  nv_data_backup_path :: "string option"
  nv_data_backup_md5_path :: "string option"
  nv_data_secret :: "u8 list option"
  nv_data_size :: nat
  nv_data_chunk_size :: nat

record client_env =
  cl_type :: int
  cl_log_callback :: ptr
  cl_log_data :: ptr
  cl_handlers :: "ipc_client_handlers option"
  cl_gprs_specs :: "ipc_client_gprs_specs option"
  cl_nv_data_specs :: "ipc_client_nv_data_specs option"

record ipc_client_ops =
  op_boot :: "(client_env \<Rightarrow> unit io) option"
  op_send :: "(client_env \<Rightarrow> ipc_message option \<Rightarrow> unit io) option"
  op_recv :: "(client_env \<Rightarrow> ipc_message option \<Rightarrow> ipc_message io) option"

record ipc_client = client_env +
  cl_ops :: "ipc_client_ops option"

definition env_of :: "ipc_client \<Rightarrow> client_env" where
  "env_of c = client_env.truncate c"

record ipc_device_desc =
  dev_name :: "string option"
  dev_board_name :: "string option"
  dev_kernel_version :: "string option"
  dev_fmt_ops :: "ipc_client_ops option"
  dev_rfs_ops :: "ipc_client_ops option"
  dev_handlers :: "ipc_client_handlers option"
  dev_gprs_specs :: "ipc_client_gprs_specs option"
  dev_nv_data_specs :: "ipc_client_nv_data_specs option"

section \<open>Creating and destroying a client\<close>

text \<open>The structures \<open>calloc\<close> returns.\<close>

definition zero_client :: ipc_client where
  "zero_client = \<lparr>cl_type = 0, cl_log_callback = None, cl_log_data = None, cl_handlers = None,
     cl_gprs_specs = None, cl_nv_data_specs = None, cl_ops = None\<rparr>"

definition zero_handlers :: ipc_client_handlers where
  "zero_handlers = \<lparr>h_open = None, h_close = None, h_read = None, h_write = None, h_poll = None,
     h_power_on = None, h_power_off = None, h_gprs_activate = None, h_gprs_deactivate = None,
     h_data_create = None, h_data_destroy = None,
     h_data = \<lparr>hd_transport = None, hd_power = None, hd_gprs = None\<rparr>\<rparr>"

definition ipc_device_detect :: int where
  "ipc_device_detect = 0"

definition ipc_dummy_client_create :: "ipc_client outcome" where
  "ipc_dummy_client_create = Done (zero_client\<lparr>cl_type := IPC_CLIENT_TYPE_DUMMY\<rparr>)"

text \<open>
  \<open>ipc_devices\<close> is the list, \<open>ipc_devices_count\<close> its length; \<open>rc\<close> is what the detection
  returned. An index past the end of the table reads outside it.
\<close>

definition ipc_transport_client_create :: "ipc_device_desc list \<Rightarrow> int \<Rightarrow> int \<Rightarrow> ipc_client outcome" where
  "ipc_transport_client_create ipc_devices rc type =
     (if type < 0 \<or> type > IPC_CLIENT_TYPE_RFS then Fail
      else if rc < 0 then Fail
      else
        let device_index = nat rc in
        if device_index > length ipc_devices then Fail
        else if device_index = length ipc_devices then Undef
        else
          let dev = ipc_devices ! device_index;
              client = zero_client\<lparr>cl_type := type\<rparr>;
              client = (if type = IPC_CLIENT_TYPE_RFS then client\<lparr>cl_ops := dev_rfs_ops dev\<rparr>
                        else client\<lparr>cl_ops := dev_fmt_ops dev\<rparr>);
              client = client\<lparr>cl_gprs_specs := dev_gprs_specs dev,
                              cl_nv_data_specs := dev_nv_data_specs dev\<rparr>;
              handlers = (case dev_handlers dev of None \<Rightarrow> zero_handlers | Some h \<Rightarrow> h)
          in Done (client\<lparr>cl_handlers := Some handlers\<rparr>))"

definition ipc_client_create :: "ipc_device_desc list \<Rightarrow> int \<Rightarrow> ipc_client outcome" where
  "ipc_client_create ipc_devices type =
     (if type = IPC_CLIENT_TYPE_RFS \<or> type = IPC_CLIENT_TYPE_FMT
      then ipc_transport_client_create ipc_devices ipc_device_detect type
      else if type = IPC_CLIENT_TYPE_DUMMY then ipc_dummy_client_create
      else Fail)"

text \<open>The client is freed: a caller is left without one.\<close>

definition ipc_client_destroy :: "ipc_client option \<Rightarrow> unit outcome" where
  "ipc_client_destroy client = (case client of None \<Rightarrow> Fail | Some _ \<Rightarrow> Done ())"

section \<open>Registering handlers\<close>

text \<open>\<open>if (f != NULL) member = f\<close>.\<close>

definition override_with :: "'a option \<Rightarrow> 'a option \<Rightarrow> 'a option" where
  "override_with new old = (case new of None \<Rightarrow> old | Some f \<Rightarrow> Some f)"

definition with_handlers ::
  "ipc_client option \<Rightarrow> (ipc_client_handlers \<Rightarrow> ipc_client_handlers) \<Rightarrow> ipc_client outcome" where
  "with_handlers client f =
     (case client of None \<Rightarrow> Fail
      | Some c \<Rightarrow>
          (case cl_handlers c of None \<Rightarrow> Fail
           | Some h \<Rightarrow> Done (c\<lparr>cl_handlers := Some (f h)\<rparr>)))"

definition ipc_client_transport_handlers_register ::
  "ipc_client option \<Rightarrow> open_handler option \<Rightarrow> close_handler option \<Rightarrow> read_handler option \<Rightarrow>
   write_handler option \<Rightarrow> poll_handler option \<Rightarrow> ptr \<Rightarrow> ipc_client outcome" where
  "ipc_client_transport_handlers_register client open close read write poll transport_data =
     with_handlers client (\<lambda>h. h\<lparr>
       h_read := override_with read (h_read h),
       h_write := override_with write (h_write h),
       h_poll := override_with poll (h_poll h),
       h_open := override_with open (h_open h),
       h_close := override_with close (h_close h),
       h_data := (h_data h)\<lparr>hd_transport := override_with transport_data (hd_transport (h_data h))\<rparr>\<rparr>)"

definition ipc_client_power_handlers_register ::
  "ipc_client option \<Rightarrow> power_handler option \<Rightarrow> power_handler option \<Rightarrow> ptr \<Rightarrow> ipc_client outcome" where
  "ipc_client_power_handlers_register client power_on power_off power_data =
     with_handlers client (\<lambda>h. h\<lparr>
       h_power_on := override_with power_on (h_power_on h),
       h_power_off := override_with power_off (h_power_off h),
       h_data := (h_data h)\<lparr>hd_power := override_with power_data (hd_power (h_data h))\<rparr>\<rparr>)"

definition ipc_client_gprs_handlers_register ::
  "ipc_client option \<Rightarrow> gprs_handler option \<Rightarrow> gprs_handler option \<Rightarrow> ptr \<Rightarrow> ipc_client outcome" where
  "ipc_client_gprs_handlers_register client gprs_activate gprs_deactivate gprs_data =
     with_handlers client (\<lambda>h. h\<lparr>
       h_gprs_activate := override_with gprs_activate (h_gprs_activate h),
       h_gprs_deactivate := override_with gprs_deactivate (h_gprs_deactivate h),
       h_data := (h_data h)\<lparr>hd_gprs := override_with gprs_data (hd_gprs (h_data h))\<rparr>\<rparr>)"

definition ipc_client_log_callback_register ::
  "ipc_client option \<Rightarrow> ptr \<Rightarrow> ptr \<Rightarrow> ipc_client outcome" where
  "ipc_client_log_callback_register client log_callback log_data =
     (case client of None \<Rightarrow> Fail
      | Some c \<Rightarrow> Done (c\<lparr>cl_log_callback := log_callback, cl_log_data := log_data\<rparr>))"


section \<open>Operations\<close>

text \<open>A member of the operations or the handlers, when every pointer on the way is non-null.\<close>

definition client_op :: "ipc_client option \<Rightarrow> (ipc_client_ops \<Rightarrow> 'f option) \<Rightarrow> (client_env \<times> 'f) option" where
  "client_op client sel =
     (case client of None \<Rightarrow> None
      | Some c \<Rightarrow> (case cl_ops c of None \<Rightarrow> None
        | Some ops \<Rightarrow> map_option (\<lambda>f. (env_of c, f)) (sel ops)))"

definition client_handler ::
  "ipc_client option \<Rightarrow> (ipc_client_handlers \<Rightarrow> 'f option) \<Rightarrow> (handler_data \<times> 'f) option" where
  "client_handler client sel =
     (case client of None \<Rightarrow> None
      | Some c \<Rightarrow> (case cl_handlers c of None \<Rightarrow> None
        | Some h \<Rightarrow> map_option (\<lambda>f. (h_data h, f)) (sel h)))"

definition ipc_client_boot :: "ipc_client option \<Rightarrow> unit io" where
  "ipc_client_boot client =
     (case client_op client op_boot of None \<Rightarrow> fail | Some (env, boot) \<Rightarrow> boot env)"

definition ipc_client_send ::
  "ipc_client option \<Rightarrow> u8 \<Rightarrow> u16 \<Rightarrow> u8 \<Rightarrow> u8 list option \<Rightarrow> u32 \<Rightarrow> unit io" where
  "ipc_client_send client mseq command type data sz =
     (case client_op client op_send of None \<Rightarrow> fail
      | Some (env, send) \<Rightarrow>
          send env (Some \<lparr>msg_mseq = mseq, msg_aseq = 0xff, msg_command = command,
                          msg_type = type, msg_data = data, msg_size = sz\<rparr>))"

definition ipc_client_recv :: "ipc_client option \<Rightarrow> ipc_message option \<Rightarrow> ipc_message io" where
  "ipc_client_recv client message =
     (case client_op client op_recv of None \<Rightarrow> fail
      | Some (env, recv) \<Rightarrow> if message = None then fail else recv env message)"

section \<open>Handlers\<close>

text \<open>
  \<open>ipc_client_open\<close> reports which of the three pointers is null by testing all of them in turn,
  so it dereferences a null client, and null handlers, on its way.
\<close>

definition ipc_client_open :: "ipc_client option \<Rightarrow> unit io" where
  "ipc_client_open client =
     (case client of None \<Rightarrow> undef
      | Some c \<Rightarrow> (case cl_handlers c of None \<Rightarrow> undef
        | Some h \<Rightarrow> (case h_open h of None \<Rightarrow> fail
          | Some open \<Rightarrow> open (hd_transport (h_data h)) (cl_type c))))"

definition ipc_client_close :: "ipc_client option \<Rightarrow> unit io" where
  "ipc_client_close client =
     (case client_handler client h_close of None \<Rightarrow> fail
      | Some (d, close) \<Rightarrow> close (hd_transport d))"

definition ipc_client_poll ::
  "ipc_client option \<Rightarrow> ipc_poll_fds option \<Rightarrow> (int \<times> ipc_poll_fds option) io" where
  "ipc_client_poll client fds =
     (case client_handler client h_poll of None \<Rightarrow> fail
      | Some (d, poll) \<Rightarrow> poll (hd_transport d) fds)"

definition ipc_client_power_on :: "ipc_client option \<Rightarrow> unit io" where
  "ipc_client_power_on client =
     (case client_handler client h_power_on of None \<Rightarrow> fail
      | Some (d, power_on) \<Rightarrow> power_on (hd_power d))"

definition ipc_client_power_off :: "ipc_client option \<Rightarrow> unit io" where
  "ipc_client_power_off client =
     (case client_handler client h_power_off of None \<Rightarrow> fail
      | Some (d, power_off) \<Rightarrow> power_off (hd_power d))"

definition ipc_client_gprs_activate :: "ipc_client option \<Rightarrow> u32 \<Rightarrow> unit io" where
  "ipc_client_gprs_activate client cid =
     (case client_handler client h_gprs_activate of None \<Rightarrow> fail
      | Some (d, gprs_activate) \<Rightarrow> gprs_activate (hd_gprs d) cid)"

definition ipc_client_gprs_deactivate :: "ipc_client option \<Rightarrow> u32 \<Rightarrow> unit io" where
  "ipc_client_gprs_deactivate client cid =
     (case client_handler client h_gprs_deactivate of None \<Rightarrow> fail
      | Some (d, gprs_deactivate) \<Rightarrow> gprs_deactivate (hd_gprs d) cid)"

text \<open>The third argument of both calls is the power data.\<close>

definition ipc_client_data_create :: "ipc_client option \<Rightarrow> ipc_client io" where
  "ipc_client_data_create client =
     (case client of None \<Rightarrow> fail
      | Some c \<Rightarrow> (case cl_handlers c of None \<Rightarrow> fail
        | Some h \<Rightarrow> (case h_data_create h of None \<Rightarrow> fail
          | Some data_create \<Rightarrow>
              bnd (data_create (Some TransportSlot) (Some PowerSlot) (Some PowerSlot) (h_data h))
                (\<lambda>d. ret (c\<lparr>cl_handlers := Some (h\<lparr>h_data := d\<rparr>)\<rparr>)))))"

definition ipc_client_data_destroy :: "ipc_client option \<Rightarrow> unit io" where
  "ipc_client_data_destroy client =
     (case client_handler client h_data_destroy of None \<Rightarrow> fail
      | Some (d, data_destroy) \<Rightarrow> data_destroy (hd_transport d) (hd_power d) (hd_power d))"

section \<open>Specifications\<close>

definition ipc_client_gprs_get_iface :: "ipc_client option \<Rightarrow> u32 \<Rightarrow> string outcome" where
  "ipc_client_gprs_get_iface client cid =
     (case client of None \<Rightarrow> Fail
      | Some c \<Rightarrow> (case cl_gprs_specs c of None \<Rightarrow> Fail
        | Some specs \<Rightarrow> (case gs_get_iface specs of None \<Rightarrow> Fail | Some f \<Rightarrow> f cid)))"

definition ipc_client_gprs_get_capabilities :: "ipc_client option \<Rightarrow> u32 option \<Rightarrow> u32 outcome" where
  "ipc_client_gprs_get_capabilities client capabilities =
     (case client of None \<Rightarrow> Fail
      | Some c \<Rightarrow> (case cl_gprs_specs c of None \<Rightarrow> Fail
        | Some specs \<Rightarrow> (case gs_get_capabilities specs of None \<Rightarrow> Fail
          | Some f \<Rightarrow> f capabilities)))"

text \<open>The accessors take the part of the client the operations hold.\<close>

definition nv_spec :: "client_env option \<Rightarrow> (ipc_client_nv_data_specs \<Rightarrow> 'a option) \<Rightarrow> 'a option" where
  "nv_spec client sel =
     (case client of None \<Rightarrow> None
      | Some c \<Rightarrow> (case cl_nv_data_specs c of None \<Rightarrow> None | Some specs \<Rightarrow> sel specs))"

definition ipc_client_nv_data_path :: "client_env option \<Rightarrow> string option" where
  "ipc_client_nv_data_path client = nv_spec client nv_data_path"

definition ipc_client_nv_data_md5_path :: "client_env option \<Rightarrow> string option" where
  "ipc_client_nv_data_md5_path client = nv_spec client nv_data_md5_path"

definition ipc_client_nv_data_backup_path :: "client_env option \<Rightarrow> string option" where
  "ipc_client_nv_data_backup_path client = nv_spec client nv_data_backup_path"

definition ipc_client_nv_data_backup_md5_path :: "client_env option \<Rightarrow> string option" where
  "ipc_client_nv_data_backup_md5_path client = nv_spec client nv_data_backup_md5_path"

definition ipc_client_nv_data_secret :: "client_env option \<Rightarrow> u8 list option" where
  "ipc_client_nv_data_secret client = nv_spec client nv_data_secret"

definition ipc_client_nv_data_size :: "client_env option \<Rightarrow> nat" where
  "ipc_client_nv_data_size client =
     (case nv_spec client (\<lambda>s. Some (nv_data_size s)) of None \<Rightarrow> 0 | Some n \<Rightarrow> n)"

definition ipc_client_nv_data_chunk_size :: "client_env option \<Rightarrow> nat" where
  "ipc_client_nv_data_chunk_size client =
     (case nv_spec client (\<lambda>s. Some (nv_data_chunk_size s)) of None \<Rightarrow> 0 | Some n \<Rightarrow> n)"

lemmas nv_accessors = ipc_client_nv_data_path_def ipc_client_nv_data_md5_path_def
  ipc_client_nv_data_backup_path_def ipc_client_nv_data_backup_md5_path_def
  ipc_client_nv_data_secret_def ipc_client_nv_data_size_def ipc_client_nv_data_chunk_size_def
  nv_spec_def

section \<open>What the dispatcher does\<close>

text \<open>
  A created FMT or RFS client carries its own type, the operations of that type of the
  detected device, and a private copy of the device's handlers (all null if it has none), so
  that \<open>ipc_client_send\<close> hands the device's own \<open>send\<close> exactly one message, with the
  acknowledged sequence number 0xff; every other type but DUMMY is refused.
\<close>

theorem client_create_and_send:
  assumes "ipc_client_create devices type = Done c" and "type \<noteq> IPC_CLIENT_TYPE_DUMMY"
  shows "(type = IPC_CLIENT_TYPE_FMT \<or> type = IPC_CLIENT_TYPE_RFS) \<and> cl_type c = type \<and>
    devices \<noteq> [] \<and>
    cl_ops c = (if type = IPC_CLIENT_TYPE_RFS then dev_rfs_ops (hd devices) else dev_fmt_ops (hd devices)) \<and>
    cl_handlers c = Some (case dev_handlers (hd devices) of None \<Rightarrow> zero_handlers | Some h \<Rightarrow> h) \<and>
    (\<forall>ops f. cl_ops c = Some ops \<and> op_send ops = Some f \<longrightarrow>
      ipc_client_send (Some c) mseq command t data sz =
        f (env_of c) (Some \<lparr>msg_mseq = mseq, msg_aseq = 0xff, msg_command = command, msg_type = t,
             msg_data = data, msg_size = sz\<rparr>))"
  using assms
  by (auto simp: ipc_client_create_def ipc_transport_client_create_def ipc_device_detect_def
      client_types zero_client_def Let_def hd_conv_nth ipc_client_send_def client_op_def
      split: if_splits)

definition demo_ops :: ipc_client_ops where
  "demo_ops = \<lparr>op_boot = None, op_send = Some (\<lambda>_ m. check (m \<noteq> None)), op_recv = None\<rparr>"

definition demo_device :: ipc_device_desc where
  "demo_device = \<lparr>dev_name = Some ''demo'', dev_board_name = None, dev_kernel_version = None, dev_fmt_ops = Some demo_ops, dev_rfs_ops = None,
     dev_handlers = None, dev_gprs_specs = None, dev_nv_data_specs = None\<rparr>"

theorem client_create_and_send_witness:
  "\<exists>c. ipc_client_create [demo_device] 0 = Done c \<and>
     ipc_client_send (Some c) 1 0x0001 2 None 0 demo_world = (Done (), demo_world)"
proof -
  have "\<exists>c. ipc_client_create [demo_device] 0 = Done c"
    by (simp add: ipc_client_create_def ipc_transport_client_create_def ipc_device_detect_def
        client_types Let_def)
  then obtain c where c: "ipc_client_create [demo_device] 0 = Done c" ..
  have "(0::int) \<noteq> IPC_CLIENT_TYPE_DUMMY" by (simp add: client_types)
  from client_create_and_send [OF c this, of 1 "0x0001" 2 None 0]
  have "ipc_client_send (Some c) 1 0x0001 2 None 0 demo_world = (Done (), demo_world)"
    by (auto simp: demo_device_def demo_ops_def client_types check_eq)
  with c show ?thesis by blast
qed

text \<open>The bound lets an index equal to the number of devices through.\<close>

lemma device_index_out_of_table:
  assumes "type = IPC_CLIENT_TYPE_FMT \<or> type = IPC_CLIENT_TYPE_RFS"
  shows "ipc_transport_client_create devices (int (length devices)) type = Undef"
  using assms by (auto simp: ipc_transport_client_create_def client_types Let_def)

text \<open>
  Registering transport handlers replaces exactly the handlers given: each non-null
  argument is what the client calls from then on (with the registered data pointer), each null
  one keeps the old handler, and the power, GPRS and data handlers and the operations are
  untouched.
\<close>

theorem transport_handlers_registered:
  assumes "cl_handlers c = Some h"
  shows "\<exists>c' h'. ipc_client_transport_handlers_register (Some c) op cls rd wr pl td = Done c' \<and>
    cl_handlers c' = Some h' \<and>
    h_read h' = (if rd = None then h_read h else rd) \<and>
    h_write h' = (if wr = None then h_write h else wr) \<and>
    (\<forall>f p. op = Some f \<and> td = Some p \<longrightarrow> ipc_client_open (Some c') = f (Some p) (cl_type c)) \<and>
    (\<forall>f p. cls = Some f \<and> td = Some p \<longrightarrow> ipc_client_close (Some c') = f (Some p)) \<and>
    (cls = None \<and> td = None \<longrightarrow> ipc_client_close (Some c') = ipc_client_close (Some c)) \<and>
    (pl = None \<and> td = None \<longrightarrow> ipc_client_poll (Some c') = ipc_client_poll (Some c)) \<and>
    ipc_client_power_on (Some c') = ipc_client_power_on (Some c) \<and>
    ipc_client_power_off (Some c') = ipc_client_power_off (Some c) \<and>
    ipc_client_gprs_activate (Some c') = ipc_client_gprs_activate (Some c) \<and>
    ipc_client_gprs_deactivate (Some c') = ipc_client_gprs_deactivate (Some c) \<and>
    ipc_client_data_destroy (Some c') = (if td = None then ipc_client_data_destroy (Some c)
      else ipc_client_data_destroy (Some (c\<lparr>cl_handlers := Some (h\<lparr>h_data := (h_data h)\<lparr>hd_transport := td\<rparr>\<rparr>)\<rparr>))) \<and>
    cl_ops c' = cl_ops c"
  using assms
  by (cases td; cases cls; cases pl)
    (auto simp: fun_eq_iff ipc_client_transport_handlers_register_def with_handlers_def override_with_def
      ipc_client_open_def ipc_client_close_def ipc_client_poll_def ipc_client_power_on_def
      ipc_client_power_off_def ipc_client_gprs_activate_def ipc_client_gprs_deactivate_def
      ipc_client_data_destroy_def client_handler_def split: option.split)

theorem transport_handlers_registered_witness:
  "\<exists>c'. ipc_client_transport_handlers_register (Some (zero_client\<lparr>cl_handlers := Some zero_handlers\<rparr>))
      None (Some (\<lambda>p. check (p = Some 5))) None None None (Some 5) = Done c' \<and>
    ipc_client_close (Some c') demo_world = (Done (), demo_world)"
proof -
  have "cl_handlers (zero_client\<lparr>cl_handlers := Some zero_handlers\<rparr>) = Some zero_handlers" by simp
  from transport_handlers_registered [OF this, of None "Some (\<lambda>p. check (p = Some 5))" None None None "Some 5"]
  show ?thesis by (auto simp: check_eq)
qed

text \<open>
  \<open>ipc_client_data_create\<close> hands the handler the address of the power data twice: a
  handler that stores a pointer of its own for the GPRS data stores it over its power data, the
  client's GPRS data stays what it was, and \<open>data_destroy\<close> gets the power data in its place.
\<close>

theorem data_create_gprs_lost:
  assumes "cl_handlers c = Some h"
    and "h_data_create h = Some (\<lambda>t pw g d. ret (slot_set (the g) q (slot_set (the pw) p d)))"
  shows "\<exists>c' h'. ipc_client_data_create (Some c) w = (Done c', w) \<and> cl_handlers c' = Some h' \<and>
    hd_gprs (h_data h') = hd_gprs (h_data h) \<and> hd_power (h_data h') = q \<and>
    (\<forall>f. h_data_destroy h = Some f \<longrightarrow>
      ipc_client_data_destroy (Some c') = f (hd_transport (h_data h)) q q)"
  using assms
  by (simp add: ipc_client_data_create_def bnd_def ret_eq ipc_client_data_destroy_def client_handler_def)

theorem data_create_gprs_lost_witness:
  "\<exists>c' h'. ipc_client_data_create
      (Some (zero_client\<lparr>cl_handlers := Some (zero_handlers\<lparr>h_data_create :=
         Some (\<lambda>t pw g d. ret (slot_set (the g) (Some 8) (slot_set (the pw) (Some 7) d)))\<rparr>)\<rparr>)) demo_world =
      (Done c', demo_world) \<and> cl_handlers c' = Some h' \<and> hd_power (h_data h') = Some 8 \<and>
    hd_gprs (h_data h') = None"
  using data_create_gprs_lost [of "zero_client\<lparr>cl_handlers := Some (zero_handlers\<lparr>h_data_create :=
         Some (\<lambda>t pw g d. ret (slot_set (the g) (Some 8) (slot_set (the pw) (Some 7) d)))\<rparr>)\<rparr>"
      "zero_handlers\<lparr>h_data_create :=
         Some (\<lambda>t pw g d. ret (slot_set (the g) (Some 8) (slot_set (the pw) (Some 7) d)))\<rparr>"
      "Some 8" "Some 7" demo_world]
  by (auto simp: zero_handlers_def)

text \<open>
  Every other entry point refuses a null client or a null handler; \<open>ipc_client_open\<close> alone
  dereferences them.
\<close>

lemma null_client_refused:
  "ipc_client_boot None w = (Fail, w)" "ipc_client_close None w = (Fail, w)"
  "ipc_client_poll None fds w = (Fail, w)" "ipc_client_power_on None w = (Fail, w)"
  "ipc_client_power_off None w = (Fail, w)" "ipc_client_gprs_activate None cid w = (Fail, w)"
  "ipc_client_data_create None w = (Fail, w)" "ipc_client_data_destroy None w = (Fail, w)"
  "ipc_client_open None w = (Undef, w)"
  "cl_handlers c = None \<Longrightarrow> ipc_client_open (Some c) w = (Undef, w)"
  by (simp_all add: ipc_client_boot_def ipc_client_close_def ipc_client_poll_def
      ipc_client_power_on_def ipc_client_power_off_def ipc_client_gprs_activate_def
      ipc_client_data_create_def ipc_client_data_destroy_def ipc_client_open_def client_op_def
      client_handler_def fail_eq undef_eq)

end
