(* ===== verification/Transport.thy ===== *)
theory Transport
  imports Client
begin

text \<open>
  The loops every modem driver is made of, over the handler or descriptor they use, and the two
  contracts the drivers rely on.

  \<open>modem_out\<close>: a write accepts a prefix of the block it is given, and \<open>out\<close> grows by just that
  prefix. \<open>modem_in\<close>: a read delivers at most the bytes asked for, and \<open>inp\<close> grows by them. Both
  hold, and are kept, while the object behind the handler is \<open>live\<close>.
\<close>

section \<open>Writing everything\<close>

text \<open>
  \<open>while (count < length) { rc = write (p, length - count); ... count += rc; p += rc; }\<close>, with an
  optional bound on the size of one call.
\<close>

function write_loop :: "(u8 list \<Rightarrow> int io) \<Rightarrow> nat option \<Rightarrow> u8 list \<Rightarrow> unit io" where
  "write_loop wr chunk p w =
     (if p \<noteq> [] then
        (case wr (case chunk of None \<Rightarrow> p | Some k \<Rightarrow> take (if k < length p then k else length p) p) w of
           (Done rc, w') \<Rightarrow>
             if rc \<le> 0 then (Fail, w') else write_loop wr chunk (drop (nat rc) p) w'
         | (Fail, w') \<Rightarrow> (Fail, w')
         | (Undef, w') \<Rightarrow> (Undef, w'))
      else (Done (), w))"
  by pat_completeness auto
termination
  by (relation "measure (\<lambda>(wr, chunk, p, w). length p)") auto

declare write_loop.simps [simp del]

section \<open>Reading a block of known size\<close>

text \<open>
  \<open>while (count < size) { rc = read (p, size - count); ... }\<close>: \<open>acc\<close> is what the block holds so
  far. A read that stored more than it was asked for has written past the block.
\<close>

function read_loop :: "(nat \<Rightarrow> u8 list option io) \<Rightarrow> nat \<Rightarrow> u8 list \<Rightarrow> u8 list io" where
  "read_loop rd sz acc w =
     (if length acc < sz then
        (case rd (sz - length acc) w of
           (Done (Some bs), w') \<Rightarrow>
             if bs = [] then (Fail, w')
             else if sz < length acc + length bs then (Undef, w')
             else read_loop rd sz (acc @ bs) w'
         | (Done None, w') \<Rightarrow> (Fail, w')
         | (Fail, w') \<Rightarrow> (Fail, w')
         | (Undef, w') \<Rightarrow> (Undef, w'))
      else (Done acc, w))"
  by pat_completeness auto
termination
  by (relation "measure (\<lambda>(rd, sz, acc, w). sz - length acc)") (auto intro!: diff_less_mono2)

declare read_loop.simps [simp del]

section \<open>The contracts\<close>

locale modem_out =
  fixes wr :: "u8 list \<Rightarrow> int io"
    and out :: "world \<Rightarrow> u8 list"
    and live :: "world \<Rightarrow> bool"
  assumes accepted: "live w \<Longrightarrow> wr bs w = (Done rc, w') \<Longrightarrow>
      rc \<le> int (length bs) \<and> out w' = out w @ take (nat rc) bs"
    and refused: "live w \<Longrightarrow> wr bs w = (Fail, w') \<Longrightarrow> out w' = out w"
    and defined: "live w \<Longrightarrow> wr bs w \<noteq> (Undef, w')"
    and stays_live: "live w \<Longrightarrow> wr bs w = (r, w') \<Longrightarrow> live w'"
begin

text \<open>However the loop ends, what went out is a prefix of the block; on success it is the block.\<close>

lemma write_loop_out:
  "write_loop wr chunk p w = (r, w') \<Longrightarrow> live w \<Longrightarrow>
   (\<exists>n. out w' = out w @ take n p) \<and> (r = Done () \<longrightarrow> out w' = out w @ p) \<and> r \<noteq> Undef"
proof (induction "length p" arbitrary: p w rule: less_induct)
  case less
  show ?case
  proof (cases "p = []")
    case True
    with less.prems show ?thesis by (auto simp: write_loop.simps [of wr chunk])
  next
    case False
    let ?c = "case chunk of None \<Rightarrow> p | Some k \<Rightarrow> take (if k < length p then k else length p) p"
    obtain r1 w1 where wr1: "wr ?c w = (r1, w1)" by fastforce
    have eq: "write_loop wr chunk p w = (case (r1, w1) of
           (Done rc, w') \<Rightarrow> if rc \<le> 0 then (Fail, w') else write_loop wr chunk (drop (nat rc) p) w'
         | (Fail, w') \<Rightarrow> (Fail, w') | (Undef, w') \<Rightarrow> (Undef, w'))"
      using False by (subst write_loop.simps) (simp add: wr1)
    show ?thesis
    proof (cases r1)
      case (Done rc)
      have acc: "rc \<le> int (length ?c)" "out w1 = out w @ take (nat rc) ?c"
        using accepted [OF less.prems(2)] wr1 Done by blast+
      have live1: "live w1" using stays_live [OF less.prems(2) wr1] .
      have tk: "take (nat rc) ?c = take (nat rc) p"
        using acc(1) by (cases chunk) (auto simp: min_def)
      show ?thesis
      proof (cases "rc \<le> 0")
        case True
        with less.prems eq Done acc(2) show ?thesis by (auto intro: exI [of _ 0])
      next
        case rc: False
        with less.prems eq Done have rest: "write_loop wr chunk (drop (nat rc) p) w1 = (r, w')" by simp
        have "length (drop (nat rc) p) < length p" using rc False by simp
        from less.hyps [OF this rest live1] obtain n where n: "out w' = out w1 @ take n (drop (nat rc) p)"
          and full: "r = Done () \<longrightarrow> out w' = out w1 @ drop (nat rc) p" and nu: "r \<noteq> Undef" by blast
        have "out w' = out w @ take (nat rc + n) p" using n acc(2) tk by (simp add: take_add)
        moreover have "r = Done () \<longrightarrow> out w' = out w @ p"
          using full acc(2) tk by (simp add: append_take_drop_id)
        ultimately show ?thesis using nu by blast
      qed
    next
      case Fail
      with less.prems eq refused [of w ?c w1] wr1 show ?thesis by (auto intro: exI [of _ 0])
    next
      case Undef
      with wr1 defined [OF less.prems(2)] show ?thesis by blast
    qed
  qed
qed

end

locale modem_in =
  fixes rd :: "nat \<Rightarrow> u8 list option io"
    and inp :: "world \<Rightarrow> u8 list"
    and live :: "world \<Rightarrow> bool"
  assumes delivered: "live w \<Longrightarrow> rd n w = (Done (Some bs), w') \<Longrightarrow> length bs \<le> n \<and> inp w' = inp w @ bs"
    and rd_defined: "live w \<Longrightarrow> rd n w \<noteq> (Undef, w')"
    and rd_stays_live: "live w \<Longrightarrow> rd n w = (r, w') \<Longrightarrow> live w'"
begin

text \<open>The block is what it held before followed by exactly the bytes taken from the modem.\<close>

lemma read_loop_inp:
  "read_loop rd sz acc w = (r, w') \<Longrightarrow> live w \<Longrightarrow>
   r \<noteq> Undef \<and> (\<forall>d. r = Done d \<longrightarrow> (\<exists>bs. d = acc @ bs \<and> inp w' = inp w @ bs \<and>
     (length acc \<le> sz \<longrightarrow> length d = sz)))"
proof (induction "sz - length acc" arbitrary: acc w rule: less_induct)
  case less
  show ?case
  proof (cases "length acc < sz")
    case False
    with less.prems show ?thesis by (auto simp: read_loop.simps [of rd])
  next
    case True
    obtain r1 w1 where rd1: "rd (sz - length acc) w = (r1, w1)" by fastforce
    have eq: "read_loop rd sz acc w = (case (r1, w1) of
           (Done (Some bs), w') \<Rightarrow> if bs = [] then (Fail, w')
             else if sz < length acc + length bs then (Undef, w') else read_loop rd sz (acc @ bs) w'
         | (Done None, w') \<Rightarrow> (Fail, w') | (Fail, w') \<Rightarrow> (Fail, w') | (Undef, w') \<Rightarrow> (Undef, w'))"
      using True by (subst read_loop.simps) (simp add: rd1)
    show ?thesis
    proof (cases "\<exists>bs. r1 = Done (Some bs) \<and> bs \<noteq> []")
      case False
      with less.prems eq rd1 rd_defined [OF less.prems(2)] show ?thesis
        by (cases r1) (auto split: option.splits)
    next
      case r1: True
      then obtain bs where bs: "r1 = Done (Some bs)" "bs \<noteq> []" by blast
      with delivered [OF less.prems(2)] rd1 have del: "length bs \<le> sz - length acc" "inp w1 = inp w @ bs" by blast+
      then have fits: "\<not> sz < length acc + length bs" using True by simp
      with less.prems eq bs have rest: "read_loop rd sz (acc @ bs) w1 = (r, w')" by simp
      have "sz - length (acc @ bs) < sz - length acc" using bs True by (auto intro!: diff_less_mono2)
      from less.hyps [OF this rest rd_stays_live [OF less.prems(2) rd1]] del fits show ?thesis by auto
    qed
  qed
qed

end

section \<open>Descriptors\<close>

text \<open>A plain descriptor honours both contracts.\<close>

interpretation fd_out: modem_out "sys_write fd" "sent fd" "\<lambda>_. True" for fd
proof
  show "sys_write fd bs w = (Done rc, w') \<Longrightarrow>
      rc \<le> int (length bs) \<and> sent fd w' = sent fd w @ take (nat rc) bs" for bs w rc w'
    using sys_write_range sys_write_sent by blast
qed (auto simp: sys_write_def Let_def split: if_splits)

interpretation fd_in: modem_in sys_read received "\<lambda>_. True"
proof
  show "sys_read n w = (Done (Some bs), w') \<Longrightarrow> length bs \<le> n \<and> received w' = received w @ bs"
    for n w bs w'
    using sys_read_length sys_read_received by fastforce
qed (auto simp: sys_read_def Let_def split: option.splits)

end
