(* ===== verification/NvData.thy ===== *)
theory NvData
  imports Client Extract
begin

text \<open>
  samsung-ipc/rfs.c: the modem's NV data, kept in a file beside a file with its MD5 in hexadecimal
  text and a backup of both, and the RFS item messages.

  MD5 is OpenSSL's: the parameter \<open>md5\<close> maps a byte string to its digest. \<open>MD5_Final\<close> fills the
  16 bytes of the local array \<open>md5_hash\<close>, which starts cleared.
\<close>

definition MD5_DIGEST_LENGTH :: nat where "MD5_DIGEST_LENGTH = 16"
definition MD5_DIGEST_LENGTH_ASCII :: nat where "MD5_DIGEST_LENGTH_ASCII = 2 * MD5_DIGEST_LENGTH"

lemmas md5_lengths = MD5_DIGEST_LENGTH_def MD5_DIGEST_LENGTH_ASCII_def

section \<open>NV data\<close>

definition md5_hash :: "(u8 list \<Rightarrow> u8 list) \<Rightarrow> u8 list \<Rightarrow> u8 list \<Rightarrow> u8 list" where
  "md5_hash md5 data secret =
     take MD5_DIGEST_LENGTH (md5 (data @ cstr secret) @ calloc MD5_DIGEST_LENGTH)"

definition ipc_nv_data_md5_calculate ::
  "(u8 list \<Rightarrow> u8 list) \<Rightarrow> string \<Rightarrow> u8 list option \<Rightarrow> nat \<Rightarrow> nat \<Rightarrow> u8 list io" where
  "ipc_nv_data_md5_calculate md5 path secret sz chunk_size =
     (case secret of None \<Rightarrow> fail
      | Some s \<Rightarrow>
          bnd (sys_stat path) (\<lambda>st.
          bnd (check (st = Some sz)) (\<lambda>_.
          bnd (file_data_read (Some path) sz chunk_size 0) (\<lambda>data.
          lift_outcome (data2string (Some (md5_hash md5 data s)))))))"

definition ipc_nv_data_path_check :: "client_env option \<Rightarrow> unit io" where
  "ipc_nv_data_path_check client =
     (case ipc_client_nv_data_path client of None \<Rightarrow> fail
      | Some path \<Rightarrow>
          if ipc_client_nv_data_size client = 0 then fail
          else bnd (sys_stat path) (\<lambda>st. check (st = Some (ipc_client_nv_data_size client))))"

definition ipc_nv_data_md5_path_check :: "client_env option \<Rightarrow> unit io" where
  "ipc_nv_data_md5_path_check client =
     (case ipc_client_nv_data_md5_path client of None \<Rightarrow> fail
      | Some md5_path \<Rightarrow>
          bnd (sys_stat md5_path) (\<lambda>st. check (st = Some MD5_DIGEST_LENGTH_ASCII)))"

definition ipc_nv_data_backup_path_check :: "client_env option \<Rightarrow> unit io" where
  "ipc_nv_data_backup_path_check client =
     (case ipc_client_nv_data_backup_path client of None \<Rightarrow> fail
      | Some backup_path \<Rightarrow>
          if ipc_client_nv_data_size client = 0 then fail
          else bnd (sys_stat backup_path) (\<lambda>st. check (st = Some (ipc_client_nv_data_size client))))"

definition ipc_nv_data_backup_md5_path_check :: "client_env option \<Rightarrow> unit io" where
  "ipc_nv_data_backup_md5_path_check client =
     (case ipc_client_nv_data_backup_md5_path client of None \<Rightarrow> fail
      | Some backup_md5_path \<Rightarrow>
          bnd (sys_stat backup_md5_path) (\<lambda>st. check (st = Some MD5_DIGEST_LENGTH_ASCII)))"

definition ipc_nv_data_check :: "(u8 list \<Rightarrow> u8 list) \<Rightarrow> client_env option \<Rightarrow> unit io" where
  "ipc_nv_data_check md5 client =
     (case (ipc_client_nv_data_path client, ipc_client_nv_data_md5_path client,
            ipc_client_nv_data_secret client) of
        (Some path, Some md5_path, Some secret) \<Rightarrow>
          if ipc_client_nv_data_size client = 0 \<or> ipc_client_nv_data_chunk_size client = 0 then fail
          else
            bnd (ipc_nv_data_path_check client) (\<lambda>_.
            bnd (ipc_nv_data_md5_path_check client) (\<lambda>_.
            bnd (ipc_nv_data_md5_calculate md5 path (Some secret)
                   (ipc_client_nv_data_size client) (ipc_client_nv_data_chunk_size client))
              (\<lambda>md5_string.
            bnd (file_data_read (Some md5_path) (strlen md5_string) (strlen md5_string) 0) (\<lambda>buffer.
            check (strncmp_eq (strlen md5_string) md5_string (cstr buffer))))))
      | _ \<Rightarrow> fail)"

definition ipc_nv_data_backup_check :: "(u8 list \<Rightarrow> u8 list) \<Rightarrow> client_env option \<Rightarrow> unit io" where
  "ipc_nv_data_backup_check md5 client =
     (case (ipc_client_nv_data_backup_path client, ipc_client_nv_data_backup_md5_path client,
            ipc_client_nv_data_secret client) of
        (Some backup_path, Some backup_md5_path, Some secret) \<Rightarrow>
          if ipc_client_nv_data_size client = 0 \<or> ipc_client_nv_data_chunk_size client = 0 then fail
          else
            bnd (ipc_nv_data_backup_path_check client) (\<lambda>_.
            bnd (ipc_nv_data_backup_md5_path_check client) (\<lambda>_.
            bnd (ipc_nv_data_md5_calculate md5 backup_path (Some secret)
                   (ipc_client_nv_data_size client) (ipc_client_nv_data_chunk_size client))
              (\<lambda>md5_string.
            bnd (file_data_read (Some backup_md5_path) (strlen md5_string) (strlen md5_string) 0)
              (\<lambda>buffer.
            check (strncmp_eq (strlen md5_string) md5_string (cstr buffer))))))
      | _ \<Rightarrow> fail)"

text \<open>The result of \<open>unlink\<close> is only logged.\<close>

definition ipc_nv_data_backup :: "(u8 list \<Rightarrow> u8 list) \<Rightarrow> client_env option \<Rightarrow> unit io" where
  "ipc_nv_data_backup md5 client =
     (case (ipc_client_nv_data_path client, ipc_client_nv_data_backup_path client,
            ipc_client_nv_data_backup_md5_path client, ipc_client_nv_data_secret client) of
        (Some path, Some backup_path, Some backup_md5_path, Some secret) \<Rightarrow>
          let sz = ipc_client_nv_data_size client;
              chunk_size = ipc_client_nv_data_chunk_size client
          in if sz = 0 \<or> chunk_size = 0 then fail
          else
            bnd (ipc_nv_data_path_check client) (\<lambda>_.
            bnd (file_data_read (Some path) sz chunk_size 0) (\<lambda>data.
            bnd (ipc_nv_data_md5_calculate md5 path (Some secret) sz chunk_size) (\<lambda>md5_string.
            bnd (sys_unlink backup_path) (\<lambda>_.
            bnd (file_data_write (Some backup_path) (Some data) chunk_size 0) (\<lambda>_.
            bnd (sys_unlink backup_md5_path) (\<lambda>_.
            file_data_write (Some backup_md5_path) (Some (take (strlen md5_string) md5_string))
              (strlen md5_string) 0))))))
      | _ \<Rightarrow> fail)"

definition ipc_nv_data_restore :: "(u8 list \<Rightarrow> u8 list) \<Rightarrow> client_env option \<Rightarrow> unit io" where
  "ipc_nv_data_restore md5 client =
     (case (ipc_client_nv_data_path client, ipc_client_nv_data_md5_path client,
            ipc_client_nv_data_backup_path client, ipc_client_nv_data_backup_md5_path client,
            ipc_client_nv_data_secret client) of
        (Some path, Some md5_path, Some backup_path, Some backup_md5_path, Some secret) \<Rightarrow>
          let sz = ipc_client_nv_data_size client;
              chunk_size = ipc_client_nv_data_chunk_size client;
              len = MD5_DIGEST_LENGTH_ASCII
          in if sz = 0 \<or> chunk_size = 0 then fail
          else
            bnd (ipc_nv_data_backup_check md5 client) (\<lambda>_.
            bnd (file_data_read (Some backup_path) sz chunk_size 0) (\<lambda>data.
            bnd (sys_unlink path) (\<lambda>_.
            bnd (file_data_write (Some path) (Some data) chunk_size 0) (\<lambda>_.
            bnd (file_data_read (Some backup_md5_path) len len 0) (\<lambda>data.
            bnd (sys_unlink md5_path) (\<lambda>_.
            file_data_write (Some md5_path) (Some data) len 0))))))
      | _ \<Rightarrow> fail)"

definition ipc_nv_data_load :: "(u8 list \<Rightarrow> u8 list) \<Rightarrow> client_env option \<Rightarrow> u8 list io" where
  "ipc_nv_data_load md5 client =
     (case ipc_client_nv_data_path client of None \<Rightarrow> fail
      | Some path \<Rightarrow>
          let sz = ipc_client_nv_data_size client;
              chunk_size = ipc_client_nv_data_chunk_size client
          in if sz = 0 \<or> chunk_size = 0 then fail
          else
            bnd (try_rc (ipc_nv_data_check md5 client)) (\<lambda>rc.
            bnd (if rc < 0
                 then bnd (ipc_nv_data_restore md5 client) (\<lambda>_. ipc_nv_data_check md5 client)
                 else ret ()) (\<lambda>_.
            bnd (try_rc (ipc_nv_data_backup_path_check client)) (\<lambda>rc.
            bnd (if rc < 0 then try_rc (ipc_nv_data_backup md5 client) else ret 0) (\<lambda>_.
            file_data_read (Some path) sz chunk_size 0)))))"

definition ipc_nv_data_read :: "client_env option \<Rightarrow> nat \<Rightarrow> u32 \<Rightarrow> u8 list io" where
  "ipc_nv_data_read client sz offset =
     (case ipc_client_nv_data_path client of None \<Rightarrow> fail
      | Some path \<Rightarrow>
          let chunk_size = ipc_client_nv_data_chunk_size client
          in if chunk_size = 0 then fail
          else
            bnd (ipc_nv_data_path_check client) (\<lambda>_.
            file_data_read (Some path) sz (if chunk_size > sz then sz else chunk_size) offset))"

definition ipc_nv_data_write ::
  "(u8 list \<Rightarrow> u8 list) \<Rightarrow> client_env option \<Rightarrow> u8 list option \<Rightarrow> u32 \<Rightarrow> unit io" where
  "ipc_nv_data_write md5 client data offset =
     (case (ipc_client_nv_data_path client, ipc_client_nv_data_md5_path client,
            ipc_client_nv_data_secret client) of
        (Some path, Some md5_path, Some secret) \<Rightarrow>
          let chunk_size = ipc_client_nv_data_chunk_size client;
              sz = (case data of None \<Rightarrow> 0 | Some bs \<Rightarrow> length bs)
          in if chunk_size = 0 then fail
          else
            bnd (ipc_nv_data_path_check client) (\<lambda>_.
            bnd (file_data_write (Some path) data (if chunk_size > sz then sz else chunk_size) offset)
              (\<lambda>_.
            let nv_size = ipc_client_nv_data_size client in
            bnd (check (nv_size \<noteq> 0)) (\<lambda>_.
            bnd (ipc_nv_data_md5_calculate md5 path (Some secret) nv_size chunk_size) (\<lambda>md5_string.
            bnd (sys_unlink md5_path) (\<lambda>rc.
            bnd (check (\<not> rc < 0)) (\<lambda>_.
            file_data_write (Some md5_path) (Some (take (strlen md5_string) md5_string))
              (strlen md5_string) 0))))))
      | _ \<Rightarrow> fail)"


section \<open>The configuration of a device\<close>

text \<open>
  What \<open>rfs.c\<close> relies on from the device: the four paths are set and distinct, the secret is
  set, and a chunk is not empty and not larger than the data. The locale holds the facts about
  one such device; the devices of the library provide it.
\<close>

definition nv_configured ::
  "client_env \<Rightarrow> string \<Rightarrow> string \<Rightarrow> string \<Rightarrow> string \<Rightarrow> u8 list \<Rightarrow> nat \<Rightarrow> nat \<Rightarrow> bool" where
  "nv_configured client path md5_path backup_path backup_md5_path secret sz chunk_size \<longleftrightarrow>
     ipc_client_nv_data_path (Some client) = Some path \<and>
     ipc_client_nv_data_md5_path (Some client) = Some md5_path \<and>
     ipc_client_nv_data_backup_path (Some client) = Some backup_path \<and>
     ipc_client_nv_data_backup_md5_path (Some client) = Some backup_md5_path \<and>
     ipc_client_nv_data_secret (Some client) = Some secret \<and>
     ipc_client_nv_data_size (Some client) = sz \<and>
     ipc_client_nv_data_chunk_size (Some client) = chunk_size \<and>
     distinct [path, md5_path, backup_path, backup_md5_path] \<and>
     0 < chunk_size \<and> chunk_size \<le> sz"

text \<open>The text of the digest of a file's contents, and files with a matching digest beside them.\<close>

definition nv_digest :: "(u8 list \<Rightarrow> u8 list) \<Rightarrow> u8 list \<Rightarrow> u8 list \<Rightarrow> u8 list" where
  "nv_digest md5 secret c = hex_text (md5_hash md5 c secret)"

definition nv_valid ::
  "(u8 list \<Rightarrow> u8 list) \<Rightarrow> u8 list \<Rightarrow> nat \<Rightarrow> (string \<Rightarrow> u8 list option) \<Rightarrow> string \<Rightarrow> string \<Rightarrow> bool" where
  "nv_valid md5 secret sz fs p m \<longleftrightarrow>
     (case fs p of None \<Rightarrow> False
      | Some c \<Rightarrow> length c = sz \<and> fs m = Some (nv_digest md5 secret c))"

lemma length_md5_hash [simp]: "length (md5_hash md5 c secret) = 16"
  by (simp add: md5_hash_def md5_lengths)

lemma length_nv_digest [simp]: "length (nv_digest md5 secret c) = 32"
  by (simp add: nv_digest_def length_hex_text)

lemma nv_digest_nonzero: "0 \<notin> set (nv_digest md5 secret c)"
  using hex_text_digits [of "md5_hash md5 c secret"] hexval_not_space
  by (auto simp: nv_digest_def hex_digits_def)

lemma md5_string: "data2string (Some (md5_hash md5 c secret)) = Done (nv_digest md5 secret c @ [0])"
proof -
  have "md5_hash md5 c secret \<noteq> []"
    using length_md5_hash [of md5 c secret] by (metis list.size(3) zero_neq_numeral)
  then show ?thesis using hex_roundtrip_text by (simp add: nv_digest_def)
qed

lemma nv_string [simp]:
  "strlen (nv_digest md5 secret c @ [0]) = 32"
  "cstr (nv_digest md5 secret c @ [0]) = nv_digest md5 secret c"
  using nv_digest_nonzero [of md5 secret c] cstr_append_zero [of "nv_digest md5 secret c" 1]
  by (simp_all add: strlen_def calloc_def cstr_id)

lemma digest_matches:
  assumes "length b = 32"
  shows "strncmp_eq 32 (nv_digest md5 secret c @ [0]) (cstr b) \<longleftrightarrow> b = nv_digest md5 secret c"
proof -
  have le: "length (cstr b) \<le> 32" using strlen_le [of b] assms by (simp add: strlen_def)
  have eq: "cstr b = b" if "length (cstr b) = 32"
    using that assms takeWhile_eq_take [of "\<lambda>c. c \<noteq> 0" b] by (simp add: cstr_def)
  have eq': "cstr b = b" if "nv_digest md5 secret c = cstr b"
    using eq length_nv_digest [of md5 secret c] by (simp only: that)
  have idem: "cstr (cstr b) = cstr b"
    by (rule cstr_id) (auto simp: cstr_def dest: set_takeWhileD)
  show ?thesis
    using le eq' nv_digest_nonzero [of md5 secret c]
    by (auto simp: strncmp_eq_iff idem cstr_id length_nv_digest)
qed

section \<open>Facts about one device\<close>

locale nv_device =
  fixes md5 :: "u8 list \<Rightarrow> u8 list"
    and client :: client_env
    and path md5_path backup_path backup_md5_path :: string
    and secret :: "u8 list"
    and sz chunk_size :: nat
  assumes configured:
    "nv_configured client path md5_path backup_path backup_md5_path secret sz chunk_size"
begin

abbreviation valid :: "(string \<Rightarrow> u8 list option) \<Rightarrow> string \<Rightarrow> string \<Rightarrow> bool" where
  "valid \<equiv> nv_valid md5 secret sz"

lemma specs [simp]:
  "ipc_client_nv_data_path (Some client) = Some path"
  "ipc_client_nv_data_md5_path (Some client) = Some md5_path"
  "ipc_client_nv_data_backup_path (Some client) = Some backup_path"
  "ipc_client_nv_data_backup_md5_path (Some client) = Some backup_md5_path"
  "ipc_client_nv_data_secret (Some client) = Some secret"
  "ipc_client_nv_data_size (Some client) = sz"
  "ipc_client_nv_data_chunk_size (Some client) = chunk_size"
  using configured by (simp_all add: nv_configured_def)

lemma paths [simp]:
  "path \<noteq> md5_path" "path \<noteq> backup_path" "path \<noteq> backup_md5_path" "md5_path \<noteq> path"
  "backup_path \<noteq> path" "backup_md5_path \<noteq> path" "md5_path \<noteq> backup_path" "md5_path \<noteq> backup_md5_path"
  "backup_path \<noteq> md5_path" "backup_md5_path \<noteq> md5_path" "backup_path \<noteq> backup_md5_path"
  "backup_md5_path \<noteq> backup_path"
  using configured by (auto simp: nv_configured_def)

lemma sizes [simp]: "0 < chunk_size" "chunk_size \<le> sz" "0 < sz" "sz \<noteq> 0" "chunk_size \<noteq> 0"
  using configured by (auto simp: nv_configured_def)

text \<open>What a computation that succeeded must have seen, whatever the kernel did.\<close>

lemma calculate_Done:
  assumes "ipc_nv_data_md5_calculate md5 p (Some secret) sz chunk_size w = (Done s, w')"
  shows "w_files w' = w_files w \<and>
    (\<exists>c. w_files w p = Some c \<and> length c = sz \<and> s = nv_digest md5 secret c @ [0])"
proof -
  from assms obtain w1 data where st: "sys_stat p w = (Done (Some sz), w1)"
    and rd: "file_data_read (Some p) sz chunk_size 0 w1 = (Done data, w')"
    and s: "data2string (Some (md5_hash md5 data secret)) = Done s"
    by (auto simp: ipc_nv_data_md5_calculate_def io_Done)
  have w1: "w_files w1 = w_files w" by (rule keeps_empty [OF keeps_calls(1) st])
  from file_data_read_Done [OF rd] obtain c where c: "w_files w1 p = Some c"
    and data: "data = take sz c" "length data = sz" and fs: "w_files w' = w_files w1" by auto
  have "length c = sz" using st c w1 by (auto simp: sys_stat_def split: if_splits)
  with c data s md5_string [of md5 data secret] w1 fs show ?thesis by simp
qed

lemma check_files_Done:
  assumes "bnd (ipc_nv_data_md5_calculate md5 p (Some secret) sz chunk_size) (\<lambda>s.
      bnd (file_data_read (Some m) (strlen s) (strlen s) 0) (\<lambda>buffer.
        check (strncmp_eq (strlen s) s (cstr buffer)))) w = (Done u, w')"
    and "\<exists>w0 w1. sys_stat m w0 = (Done (Some MD5_DIGEST_LENGTH_ASCII), w1) \<and> w_files w0 = w_files w"
  shows "w_files w' = w_files w \<and> valid (w_files w) p m"
proof -
  from assms(1) obtain s w1 buffer where
      calc: "ipc_nv_data_md5_calculate md5 p (Some secret) sz chunk_size w = (Done s, w1)" and
      rd: "file_data_read (Some m) (strlen s) (strlen s) 0 w1 = (Done buffer, w')" and
      cmp: "strncmp_eq (strlen s) s (cstr buffer)"
    by (auto simp: io_Done)
  from calculate_Done [OF calc] obtain c where w1: "w_files w1 = w_files w"
    and c: "w_files w p = Some c" "length c = sz" and s: "s = nv_digest md5 secret c @ [0]" by blast
  from file_data_read_Done [OF rd] s obtain d where d: "w_files w1 m = Some d"
    and b: "buffer = take 32 d" "length buffer = 32" and fs: "w_files w' = w_files w1" by auto
  have "length d = 32"
    using assms(2) d w1 by (auto simp: sys_stat_def md5_lengths split: if_splits)
  with b cmp s digest_matches [of buffer md5 secret c] have "d = nv_digest md5 secret c" by simp
  with c d w1 fs show ?thesis by (simp add: nv_valid_def)
qed

lemma check_Done:
  assumes "ipc_nv_data_check md5 (Some client) w = (Done u, w')"
  shows "w_files w' = w_files w \<and> valid (w_files w) path md5_path"
proof -
  from assms obtain w1 w2 where
      s1: "sys_stat path w = (Done (Some sz), w1)" and
      s2: "sys_stat md5_path w1 = (Done (Some MD5_DIGEST_LENGTH_ASCII), w2)" and
      rest: "bnd (ipc_nv_data_md5_calculate md5 path (Some secret) sz chunk_size) (\<lambda>s.
        bnd (file_data_read (Some md5_path) (strlen s) (strlen s) 0) (\<lambda>buffer.
          check (strncmp_eq (strlen s) s (cstr buffer)))) w2 = (Done u, w')"
    by (auto simp: ipc_nv_data_check_def ipc_nv_data_path_check_def ipc_nv_data_md5_path_check_def
        io_Done split: if_splits)
  have fs: "w_files w1 = w_files w" "w_files w2 = w_files w1"
    by (rule keeps_empty [OF keeps_calls(1) s1], rule keeps_empty [OF keeps_calls(1) s2])
  then show ?thesis using check_files_Done [OF rest] s2 by metis
qed

lemma backup_check_Done:
  assumes "ipc_nv_data_backup_check md5 (Some client) w = (Done u, w')"
  shows "w_files w' = w_files w \<and> valid (w_files w) backup_path backup_md5_path"
proof -
  from assms obtain w1 w2 where
      s1: "sys_stat backup_path w = (Done (Some sz), w1)" and
      s2: "sys_stat backup_md5_path w1 = (Done (Some MD5_DIGEST_LENGTH_ASCII), w2)" and
      rest: "bnd (ipc_nv_data_md5_calculate md5 backup_path (Some secret) sz chunk_size) (\<lambda>s.
        bnd (file_data_read (Some backup_md5_path) (strlen s) (strlen s) 0) (\<lambda>buffer.
          check (strncmp_eq (strlen s) s (cstr buffer)))) w2 = (Done u, w')"
    by (auto simp: ipc_nv_data_backup_check_def ipc_nv_data_backup_path_check_def
        ipc_nv_data_backup_md5_path_check_def io_Done split: if_splits)
  have fs: "w_files w1 = w_files w" "w_files w2 = w_files w1"
    by (rule keeps_empty [OF keeps_calls(1) s1], rule keeps_empty [OF keeps_calls(1) s2])
  then show ?thesis using check_files_Done [OF rest] s2 by metis
qed

text \<open>Frames: which files each function can touch, whatever the kernel does.\<close>

lemma keeps_checks:
  "keeps S (ipc_nv_data_path_check (Some client))"
  "keeps S (ipc_nv_data_backup_path_check (Some client))"
  "keeps S (ipc_nv_data_md5_calculate md5 p (Some secret) n k)"
  "keeps S (ipc_nv_data_backup_check md5 (Some client))"
  by (auto simp: ipc_nv_data_path_check_def ipc_nv_data_backup_path_check_def
      ipc_nv_data_md5_calculate_def ipc_nv_data_backup_check_def ipc_nv_data_backup_md5_path_check_def
      intro!: keeps_intros)

lemma keeps_backup: "keeps {backup_path, backup_md5_path} (ipc_nv_data_backup md5 (Some client))"
  by (auto simp: ipc_nv_data_backup_def Let_def intro!: keeps_intros keeps_checks)

lemma keeps_restore: "keeps {path, md5_path} (ipc_nv_data_restore md5 (Some client))"
  by (auto simp: ipc_nv_data_restore_def Let_def intro!: keeps_intros keeps_checks)

lemma keeps_write: "keeps {path, md5_path} (ipc_nv_data_write md5 (Some client) data offset)"
  by (auto simp: ipc_nv_data_write_def Let_def intro!: keeps_intros keeps_checks)

lemma keeps_load:
  "keeps {path, md5_path, backup_path, backup_md5_path} (ipc_nv_data_load md5 (Some client))"
proof -
  have m: "keeps S n \<Longrightarrow> S \<subseteq> T \<Longrightarrow> keeps T n" for S T and n :: "unit io"
    unfolding keeps_def by blast
  have "keeps {path, md5_path, backup_path, backup_md5_path} (ipc_nv_data_backup md5 (Some client))"
    "keeps {path, md5_path, backup_path, backup_md5_path} (ipc_nv_data_restore md5 (Some client))"
    by (rule m [OF keeps_backup], blast, rule m [OF keeps_restore], blast)
  then show ?thesis
    by (auto simp: ipc_nv_data_load_def ipc_nv_data_check_def ipc_nv_data_md5_path_check_def Let_def
        intro!: keeps_intros keeps_checks)
qed

text \<open>Without a valid backup nothing is restored over the data.\<close>

lemma restore_refused:
  assumes "\<not> valid (w_files w) backup_path backup_md5_path"
    and "ipc_nv_data_restore md5 (Some client) w = (r, w')"
  shows "(\<forall>u. r \<noteq> Done u) \<and> w_files w' = w_files w"
proof -
  obtain r1 w1 where chk: "ipc_nv_data_backup_check md5 (Some client) w = (r1, w1)" by fastforce
  have fs: "w_files w1 = w_files w" by (rule keeps_empty [OF keeps_checks(4) chk])
  have "r1 \<noteq> Done ()" using backup_check_Done [of w "()" w1] chk assms(1) by auto
  with chk fs assms(2) show ?thesis
    by (cases r1) (auto simp: ipc_nv_data_restore_def bnd_def)
qed

text \<open>What \<open>load\<close> returns matches the digest stored beside it.\<close>

lemma load_Done:
  assumes "ipc_nv_data_load md5 (Some client) w = (Done data, w')"
  shows "w_files w' path = Some data \<and> valid (w_files w') path md5_path"
proof -
  from assms obtain rc1 w1 w2 rc2 w3 rc3 w4 where
      c1: "try_rc (ipc_nv_data_check md5 (Some client)) w = (Done rc1, w1)" and
      c2: "(if rc1 < 0 then bnd (ipc_nv_data_restore md5 (Some client))
              (\<lambda>_. ipc_nv_data_check md5 (Some client)) else ret ()) w1 = (Done (), w2)" and
      c3: "try_rc (ipc_nv_data_backup_path_check (Some client)) w2 = (Done rc2, w3)" and
      c4: "(if rc2 < 0 then try_rc (ipc_nv_data_backup md5 (Some client)) else ret 0) w3 = (Done rc3, w4)" and
      rd: "file_data_read (Some path) sz chunk_size 0 w4 = (Done data, w')"
    by (auto simp: ipc_nv_data_load_def bnd_eq_Done)
  have v2: "valid (w_files w2) path md5_path"
  proof (cases "rc1 < 0")
    case True
    with c2 obtain w1' where "ipc_nv_data_check md5 (Some client) w1' = (Done (), w2)"
      by (auto simp: bnd_eq_Done)
    from check_Done [OF this] show ?thesis by simp
  next
    case False
    with c1 have "ipc_nv_data_check md5 (Some client) w = (Done (), w1)" by (auto simp: try_rc_eq_Done)
    moreover have "w2 = w1" using c2 False by (simp add: ret_eq)
    ultimately show ?thesis using check_Done by metis
  qed
  have f3: "w_files w3 = w_files w2"
    using c3 by (rule keeps_empty [rotated]) (intro keeps_intros keeps_checks)
  have "keeps {backup_path, backup_md5_path}
      (if rc2 < 0 then try_rc (ipc_nv_data_backup md5 (Some client)) else ret 0)"
    by (intro keeps_intros keeps_backup)
  from keepsD [OF this c4] have f4: "w_files w4 path = w_files w2 path" "w_files w4 md5_path = w_files w2 md5_path"
    by (simp_all add: f3)
  from file_data_read_Done [OF rd] obtain c where c: "w_files w4 path = Some c" and d: "data = take sz c"
    and fs: "w_files w' = w_files w4" by auto
  have c2: "w_files w2 path = Some c" using f4 c by simp
  from v2 c2 have "length c = sz" by (simp add: nv_valid_def)
  with v2 f4 c c2 d fs show ?thesis by (simp add: nv_valid_def)
qed

text \<open>With a cooperative kernel the computations succeed.\<close>

lemma calculate_runs:
  "files_ok w \<Longrightarrow> w_files w p = Some c \<Longrightarrow> length c = sz \<Longrightarrow>
   runs_to (ipc_nv_data_md5_calculate md5 p (Some secret) sz chunk_size) w
     (nv_digest md5 secret c @ [0]) (w_files w)"
proof -
  assume ok: "files_ok w" and c: "w_files w p = Some c" "length c = sz"
  have rd: "runs_to (file_data_read (Some p) sz chunk_size 0) w1 c (w_files w)"
    if "files_ok w1" "w_files w1 = w_files w" for w1
    using runs_to_read [OF that(1), of p c chunk_size sz 0] c that(2) by simp
  have tail: "runs_to (bnd (file_data_read (Some p) sz chunk_size 0)
      (\<lambda>data. lift_outcome (data2string (Some (md5_hash md5 data secret))))) w1
      (nv_digest md5 secret c @ [0]) (w_files w)"
    if "files_ok w1" "w_files w1 = w_files w" for w1
    by (rule runs_to_bnd [OF rd [OF that]]) (auto intro: runs_to_pure(3) simp: md5_string)
  show ?thesis
    unfolding ipc_nv_data_md5_calculate_def option.case
    by (rule runs_to_bnd [OF runs_to_stat [OF ok]], rule runs_to_bnd [OF runs_to_pure(1)], assumption)
      (use c tail in auto)
qed

lemma path_check_runs:
  "files_ok w \<Longrightarrow> w_files w path = Some c \<Longrightarrow> length c = sz \<Longrightarrow>
   runs_to (ipc_nv_data_path_check (Some client)) w () (w_files w)"
  "files_ok w \<Longrightarrow> w_files w backup_path = Some c \<Longrightarrow> length c = sz \<Longrightarrow>
   runs_to (ipc_nv_data_backup_path_check (Some client)) w () (w_files w)"
  "files_ok w \<Longrightarrow> w_files w md5_path = Some c \<Longrightarrow> length c = 32 \<Longrightarrow>
   runs_to (ipc_nv_data_md5_path_check (Some client)) w () (w_files w)"
  "files_ok w \<Longrightarrow> w_files w backup_md5_path = Some c \<Longrightarrow> length c = 32 \<Longrightarrow>
   runs_to (ipc_nv_data_backup_md5_path_check (Some client)) w () (w_files w)"
  unfolding ipc_nv_data_path_check_def ipc_nv_data_backup_path_check_def
    ipc_nv_data_md5_path_check_def ipc_nv_data_backup_md5_path_check_def
  by (auto intro!: runs_to_bnd [OF runs_to_stat] runs_to_pure(1) simp: md5_lengths)

lemma compare_runs:
  assumes "files_ok w" and "valid (w_files w) p m"
  shows "runs_to (bnd (ipc_nv_data_md5_calculate md5 p (Some secret) sz chunk_size) (\<lambda>s.
      bnd (file_data_read (Some m) (strlen s) (strlen s) 0) (\<lambda>buffer.
        check (strncmp_eq (strlen s) s (cstr buffer))))) w () (w_files w)"
proof -
  from assms(2) obtain c where c: "w_files w p = Some c" "length c = sz"
    and d: "w_files w m = Some (nv_digest md5 secret c)"
    by (auto simp: nv_valid_def split: option.splits)
  show ?thesis
  proof (rule runs_to_bnd [OF calculate_runs [OF assms(1) c]])
    fix w1
    assume ok1: "files_ok w1" and fs1: "w_files w1 = w_files w"
    have "runs_to (file_data_read (Some m) 32 32 0) w1 (nv_digest md5 secret c) (w_files w1)"
      using runs_to_read [OF ok1, of m "nv_digest md5 secret c" 32 32 0] d fs1 by simp
    then show "runs_to (bnd (file_data_read (Some m) (strlen (nv_digest md5 secret c @ [0]))
          (strlen (nv_digest md5 secret c @ [0])) 0) (\<lambda>buffer. check (strncmp_eq
          (strlen (nv_digest md5 secret c @ [0])) (nv_digest md5 secret c @ [0]) (cstr buffer)))) w1 ()
        (w_files w)"
      unfolding nv_string(1)
      by (rule runs_to_bnd) (auto simp: digest_matches fs1 intro!: runs_to_pure(1))
  qed
qed

lemma check_runs:
  assumes "files_ok w" and "valid (w_files w) path md5_path"
  shows "runs_to (ipc_nv_data_check md5 (Some client)) w () (w_files w)"
proof -
  from assms(2) obtain c where c: "w_files w path = Some c" "length c = sz"
    and d: "w_files w md5_path = Some (nv_digest md5 secret c)"
    by (auto simp: nv_valid_def split: option.splits)
  have cmp: "runs_to (bnd (ipc_nv_data_md5_calculate md5 path (Some secret) sz chunk_size) (\<lambda>s.
      bnd (file_data_read (Some md5_path) (strlen s) (strlen s) 0) (\<lambda>buffer.
        check (strncmp_eq (strlen s) s (cstr buffer))))) w1 () (w_files w)"
    if "files_ok w1" "w_files w1 = w_files w" for w1
    using compare_runs [OF that(1), of path md5_path] assms(2) by (simp only: that(2))
  have "runs_to (bnd (ipc_nv_data_path_check (Some client)) (\<lambda>_.
      bnd (ipc_nv_data_md5_path_check (Some client)) (\<lambda>_.
      bnd (ipc_nv_data_md5_calculate md5 path (Some secret) sz chunk_size) (\<lambda>s.
      bnd (file_data_read (Some md5_path) (strlen s) (strlen s) 0) (\<lambda>buffer.
        check (strncmp_eq (strlen s) s (cstr buffer))))))) w () (w_files w)"
    by (rule runs_to_bnd [OF path_check_runs(1) [OF assms(1) c]],
        rule runs_to_bnd [OF path_check_runs(3) [of _ "nv_digest md5 secret c"]])
      (use assms(2) d cmp in auto)
  then show ?thesis by (simp add: ipc_nv_data_check_def)
qed

lemma backup_check_runs:
  assumes "files_ok w" and "valid (w_files w) backup_path backup_md5_path"
  shows "runs_to (ipc_nv_data_backup_check md5 (Some client)) w () (w_files w)"
proof -
  from assms(2) obtain c where c: "w_files w backup_path = Some c" "length c = sz"
    and d: "w_files w backup_md5_path = Some (nv_digest md5 secret c)"
    by (auto simp: nv_valid_def split: option.splits)
  have cmp: "runs_to (bnd (ipc_nv_data_md5_calculate md5 backup_path (Some secret) sz chunk_size) (\<lambda>s.
      bnd (file_data_read (Some backup_md5_path) (strlen s) (strlen s) 0) (\<lambda>buffer.
        check (strncmp_eq (strlen s) s (cstr buffer))))) w1 () (w_files w)"
    if "files_ok w1" "w_files w1 = w_files w" for w1
    using compare_runs [OF that(1), of backup_path backup_md5_path] assms(2) by (simp only: that(2))
  have "runs_to (bnd (ipc_nv_data_backup_path_check (Some client)) (\<lambda>_.
      bnd (ipc_nv_data_backup_md5_path_check (Some client)) (\<lambda>_.
      bnd (ipc_nv_data_md5_calculate md5 backup_path (Some secret) sz chunk_size) (\<lambda>s.
      bnd (file_data_read (Some backup_md5_path) (strlen s) (strlen s) 0) (\<lambda>buffer.
        check (strncmp_eq (strlen s) s (cstr buffer))))))) w () (w_files w)"
    by (rule runs_to_bnd [OF path_check_runs(2) [OF assms(1) c]],
        rule runs_to_bnd [OF path_check_runs(4) [of _ "nv_digest md5 secret c"]])
      (use assms(2) d cmp in auto)
  then show ?thesis by (simp add: ipc_nv_data_backup_check_def)
qed

text \<open>Replacing a file: \<open>unlink\<close>, then write.\<close>

lemma replace_runs:
  assumes "files_ok w" and "0 < k" and "k \<le> length bs"
  shows "runs_to (bnd (sys_unlink p) (\<lambda>_. file_data_write (Some p) (Some bs) k 0)) w ()
    ((w_files w)(p \<mapsto> bs))"
proof (rule runs_to_bnd [OF runs_to_unlink [OF assms(1)]])
  fix w1
  assume "files_ok w1" and fs: "w_files w1 = (w_files w)(p := None)"
  from runs_to_write [OF this(1) assms(2,3), of p 0]
  show "runs_to (file_data_write (Some p) (Some bs) k 0) w1 () ((w_files w)(p \<mapsto> bs))"
    by (simp add: fs file_of_def file_splice_Nil_file)
qed

lemma backup_runs:
  assumes ok: "files_ok w" and c: "w_files w path = Some c" "length c = sz"
  shows "runs_to (ipc_nv_data_backup md5 (Some client)) w ()
    ((w_files w)(backup_path \<mapsto> c, backup_md5_path \<mapsto> nv_digest md5 secret c))"
proof -
  let ?d = "nv_digest md5 secret c"
  let ?fs = "(w_files w)(backup_path \<mapsto> c)"
  have rd: "runs_to (file_data_read (Some path) sz chunk_size 0) w1 c (w_files w)"
    if "files_ok w1" "w_files w1 = w_files w" for w1
    using runs_to_read [OF that(1), of path c chunk_size sz 0] c that(2) by simp
  have "runs_to (bnd (ipc_nv_data_path_check (Some client)) (\<lambda>_.
      bnd (file_data_read (Some path) sz chunk_size 0) (\<lambda>data.
      bnd (ipc_nv_data_md5_calculate md5 path (Some secret) sz chunk_size) (\<lambda>s.
      bnd (bnd (sys_unlink backup_path) (\<lambda>_. file_data_write (Some backup_path) (Some data) chunk_size 0))
        (\<lambda>_. bnd (sys_unlink backup_md5_path) (\<lambda>_.
        file_data_write (Some backup_md5_path) (Some (take (strlen s) s)) (strlen s) 0)))))) w ()
      (?fs(backup_md5_path \<mapsto> ?d))"
  proof (rule runs_to_bnd [OF path_check_runs(1) [OF ok c]], rule runs_to_bnd [OF rd], assumption, assumption)
    fix w2
    assume ok2: "files_ok w2" and fs2: "w_files w2 = w_files w"
    show "runs_to (bnd (ipc_nv_data_md5_calculate md5 path (Some secret) sz chunk_size) (\<lambda>s.
        bnd (bnd (sys_unlink backup_path) (\<lambda>_. file_data_write (Some backup_path) (Some c) chunk_size 0))
        (\<lambda>_. bnd (sys_unlink backup_md5_path) (\<lambda>_.
        file_data_write (Some backup_md5_path) (Some (take (strlen s) s)) (strlen s) 0)))) w2 ()
        (?fs(backup_md5_path \<mapsto> ?d))"
    proof (rule runs_to_bnd [OF calculate_runs [OF ok2 _ c(2)]])
      show "w_files w2 path = Some c" by (simp add: fs2 c)
    next
      fix w3
      assume ok3: "files_ok w3" and fs3: "w_files w3 = w_files w2"
      have r1: "runs_to (bnd (sys_unlink backup_path)
          (\<lambda>_. file_data_write (Some backup_path) (Some c) chunk_size 0)) w3 () ?fs"
        using replace_runs [OF ok3, of chunk_size c backup_path] c(2) by (simp add: fs2 fs3)
      have r2: "runs_to (bnd (sys_unlink backup_md5_path)
          (\<lambda>_. file_data_write (Some backup_md5_path) (Some ?d) 32 0)) w4 () (?fs(backup_md5_path \<mapsto> ?d))"
        if "files_ok w4" "w_files w4 = ?fs" for w4
        using replace_runs [OF that(1), of 32 ?d backup_md5_path] by (simp add: that(2))
      show "runs_to (bnd (bnd (sys_unlink backup_path) (\<lambda>_. file_data_write (Some backup_path) (Some c) chunk_size 0))
        (\<lambda>_. bnd (sys_unlink backup_md5_path) (\<lambda>_. file_data_write (Some backup_md5_path)
          (Some (take (strlen (?d @ [0])) (?d @ [0]))) (strlen (?d @ [0])) 0))) w3 ()
        (?fs(backup_md5_path \<mapsto> ?d))"
        by (rule runs_to_bnd [OF r1]) (use r2 in simp)
    qed
  qed
  then show ?thesis by (simp add: ipc_nv_data_backup_def Let_def bnd_assoc)
qed

lemma restore_runs:
  assumes ok: "files_ok w" and c: "w_files w backup_path = Some c"
    and v: "valid (w_files w) backup_path backup_md5_path"
  shows "runs_to (ipc_nv_data_restore md5 (Some client)) w ()
    ((w_files w)(path \<mapsto> c, md5_path \<mapsto> nv_digest md5 secret c))"
proof -
  let ?d = "nv_digest md5 secret c"
  let ?fs = "(w_files w)(path \<mapsto> c)"
  from c v have len: "length c = sz" and d: "w_files w backup_md5_path = Some ?d"
    by (auto simp: nv_valid_def)
  have rd: "runs_to (file_data_read (Some backup_path) sz chunk_size 0) w1 c (w_files w)"
    if "files_ok w1" "w_files w1 = w_files w" for w1
    using runs_to_read [OF that(1), of backup_path c chunk_size sz 0] c len that(2) by simp
  have r1: "runs_to (bnd (sys_unlink path) (\<lambda>_. file_data_write (Some path) (Some c) chunk_size 0)) w1 () ?fs"
    if "files_ok w1" "w_files w1 = w_files w" for w1
    using replace_runs [OF that(1), of chunk_size c path] len by (simp add: that(2))
  have rd2: "runs_to (file_data_read (Some backup_md5_path) 32 32 0) w1 ?d ?fs"
    if "files_ok w1" "w_files w1 = ?fs" for w1
    using runs_to_read [OF that(1), of backup_md5_path ?d 32 32 0] d by (simp add: that(2))
  have r2: "runs_to (bnd (sys_unlink md5_path) (\<lambda>_. file_data_write (Some md5_path) (Some ?d) 32 0)) w1 ()
      (?fs(md5_path \<mapsto> ?d))"
    if "files_ok w1" "w_files w1 = ?fs" for w1
    using replace_runs [OF that(1), of 32 ?d md5_path] by (simp add: that(2))
  have "runs_to (bnd (ipc_nv_data_backup_check md5 (Some client)) (\<lambda>_.
      bnd (file_data_read (Some backup_path) sz chunk_size 0) (\<lambda>data.
      bnd (bnd (sys_unlink path) (\<lambda>_. file_data_write (Some path) (Some data) chunk_size 0)) (\<lambda>_.
      bnd (file_data_read (Some backup_md5_path) 32 32 0) (\<lambda>data.
      bnd (sys_unlink md5_path) (\<lambda>_. file_data_write (Some md5_path) (Some data) 32 0)))))) w ()
      (?fs(md5_path \<mapsto> ?d))"
    by (rule runs_to_bnd [OF backup_check_runs [OF ok v]], rule runs_to_bnd [OF rd], assumption,
        assumption, rule runs_to_bnd [OF r1], assumption, assumption, rule runs_to_bnd [OF rd2],
        assumption, assumption, rule r2)
  then show ?thesis by (simp add: ipc_nv_data_restore_def Let_def bnd_assoc md5_lengths)
qed

text \<open>A write that succeeds stores the bytes and brings the digest up to date.\<close>

lemma write_Done:
  assumes "ipc_nv_data_write md5 (Some client) (Some bs) offset w = (Done u, w')"
  shows "\<exists>c. w_files w path = Some c \<and> w_files w' path = Some (file_splice (seek_pos offset) bs c) \<and>
    valid (w_files w') path md5_path"
proof -
  let ?ck = "if length bs < chunk_size then length bs else chunk_size"
  from assms obtain w1 w2 w3 w4 s rc where
      pc: "ipc_nv_data_path_check (Some client) w = (Done (), w1)" and
      wr: "file_data_write (Some path) (Some bs) ?ck offset w1 = (Done (), w2)" and
      calc: "ipc_nv_data_md5_calculate md5 path (Some secret) sz chunk_size w2 = (Done s, w3)" and
      ul: "sys_unlink md5_path w3 = (Done rc, w4)" and rc: "\<not> rc < 0" and
      wm: "file_data_write (Some md5_path) (Some (take (strlen s) s)) (strlen s) 0 w4 = (Done u, w')"
    by (auto simp: ipc_nv_data_write_def io_Done Let_def)
  have f1: "w_files w1 = w_files w" by (rule keeps_empty [OF keeps_checks(1) pc])
  from pc obtain c where c: "w_files w path = Some c"
    by (auto simp: ipc_nv_data_path_check_def io_Done sys_stat_def split: if_splits)
  have f2: "w_files w2 = (w_files w)(path \<mapsto> file_splice (seek_pos offset) bs c)"
    using file_data_write_Done [OF wr] f1 c by (simp add: file_of_def)
  from calculate_Done [OF calc] f2 have f3: "w_files w3 = w_files w2"
    and len: "length (file_splice (seek_pos offset) bs c) = sz"
    and s: "s = nv_digest md5 secret (file_splice (seek_pos offset) bs c) @ [0]" by auto
  have f4: "w_files w4 = (w_files w3)(md5_path := None)"
    using ul rc by (auto simp: sys_unlink_def Let_def split: if_splits)
  have "w_files w' = (w_files w4)(md5_path \<mapsto> nv_digest md5 secret (file_splice (seek_pos offset) bs c))"
    using file_data_write_Done [OF wm] s f4 by (simp add: file_of_def file_splice_Nil_file)
  with c len show ?thesis by (simp add: f2 f3 f4 nv_valid_def)
qed

text \<open>Nothing in this file runs into undefined behaviour.\<close>

lemma tame_calculate [tame_intros]: "tame (ipc_nv_data_md5_calculate md5 p s n k)"
  by (cases s) (auto simp: ipc_nv_data_md5_calculate_def md5_string intro!: tame_intros)

lemma tame_path_checks [tame_intros]:
  "tame (ipc_nv_data_path_check (Some client))" "tame (ipc_nv_data_md5_path_check (Some client))"
  "tame (ipc_nv_data_backup_path_check (Some client))"
  "tame (ipc_nv_data_backup_md5_path_check (Some client))"
  by (auto simp: ipc_nv_data_path_check_def ipc_nv_data_backup_path_check_def
      ipc_nv_data_md5_path_check_def ipc_nv_data_backup_md5_path_check_def intro!: tame_intros)

lemma tame_checks [tame_intros]:
  "tame (ipc_nv_data_check md5 (Some client))" "tame (ipc_nv_data_backup_check md5 (Some client))"
  by (auto simp: ipc_nv_data_check_def ipc_nv_data_backup_check_def intro!: tame_intros)

lemma tame_updates [tame_intros]:
  "tame (ipc_nv_data_backup md5 (Some client))" "tame (ipc_nv_data_restore md5 (Some client))"
  by (auto simp: ipc_nv_data_backup_def ipc_nv_data_restore_def Let_def intro!: tame_intros)

lemma check_rc:
  assumes ok: "files_ok w"
  shows "runs_to (try_rc (ipc_nv_data_check md5 (Some client))) w
    (if valid (w_files w) path md5_path then 0 else -1) (w_files w)"
proof -
  obtain r w1 where m: "ipc_nv_data_check md5 (Some client) w = (r, w1)" by fastforce
  have k: "keeps {} (ipc_nv_data_check md5 (Some client))"
    by (auto simp: ipc_nv_data_check_def ipc_nv_data_md5_path_check_def intro!: keeps_intros keeps_checks)
  from tameD [OF tame_checks(1) m] ok keeps_empty [OF k m] check_Done [of w _ w1] m
    check_runs [OF ok]
  show ?thesis
    by (cases r) (auto simp: try_rc_def runs_to_def)
qed

lemma load_runs:
  assumes ok: "files_ok w" and c: "w_files w p = Some c"
    and v: "valid (w_files w) path md5_path \<and> p = path \<or>
      \<not> valid (w_files w) path md5_path \<and> valid (w_files w) backup_path backup_md5_path \<and> p = backup_path"
  shows "\<exists>w'. ipc_nv_data_load md5 (Some client) w = (Done c, w')"
proof -
  let ?ok = "valid (w_files w) path md5_path"
  let ?fs = "if ?ok then w_files w else (w_files w)(path \<mapsto> c, md5_path \<mapsto> nv_digest md5 secret c)"
  have vfs: "valid ?fs path md5_path" "?fs path = Some c"
    using v c by (auto simp: nv_valid_def)
  then have len: "length c = sz" by (auto simp: nv_valid_def)
  have mend: "runs_to (if (if ?ok then 0 else -1 :: int) < 0
      then bnd (ipc_nv_data_restore md5 (Some client)) (\<lambda>_. ipc_nv_data_check md5 (Some client))
      else ret ()) w1 () ?fs" if "files_ok w1" "w_files w1 = w_files w" for w1
  proof (cases ?ok)
    case True
    then show ?thesis using that by (simp add: runs_to_pure)
  next
    case False
    then have p: "p = backup_path" and vb: "valid (w_files w) backup_path backup_md5_path" using v by auto
    have r: "runs_to (ipc_nv_data_restore md5 (Some client)) w1 () ?fs"
      using restore_runs [OF that(1), of c] c vb p False by (simp only: that(2)) simp
    have "runs_to (ipc_nv_data_check md5 (Some client)) w2 () ?fs" if "files_ok w2" "w_files w2 = ?fs" for w2
      using check_runs [OF that(1)] vfs by (simp only: that(2))
    then have "runs_to (bnd (ipc_nv_data_restore md5 (Some client))
        (\<lambda>_. ipc_nv_data_check md5 (Some client))) w1 () ?fs"
      by (rule runs_to_bnd [OF r])
    then show ?thesis using False by simp
  qed
  have "runs_to (bnd (try_rc (ipc_nv_data_check md5 (Some client))) (\<lambda>rc. if rc < 0
        then bnd (ipc_nv_data_restore md5 (Some client)) (\<lambda>_. ipc_nv_data_check md5 (Some client))
        else ret ())) w () ?fs"
    by (rule runs_to_bnd [OF check_rc [OF ok]]) (rule mend)
  then obtain w2 where
      m2: "bnd (try_rc (ipc_nv_data_check md5 (Some client))) (\<lambda>rc. if rc < 0
        then bnd (ipc_nv_data_restore md5 (Some client)) (\<lambda>_. ipc_nv_data_check md5 (Some client))
        else ret ()) w = (Done (), w2)" and ok2: "files_ok w2" and fs2: "w_files w2 = ?fs"
    by (auto simp: runs_to_def)
  let ?bk = "bnd (try_rc (ipc_nv_data_backup_path_check (Some client)))
      (\<lambda>rc. if rc < 0 then try_rc (ipc_nv_data_backup md5 (Some client)) else ret 0)"
  obtain r3 w3 where m3: "?bk w2 = (r3, w3)" by fastforce
  have "tame ?bk" by (intro tame_intros)
  from tameD [OF this m3] ok2 have r3: "r3 \<noteq> Undef" and ok3: "files_ok w3" by auto
  have "r3 \<noteq> Fail"
    using m3 by (auto simp: bnd_def try_rc_def ret_eq split: prod.splits outcome.splits if_splits)
  with r3 obtain rc3 where m3': "?bk w2 = (Done rc3, w3)" using m3 by (cases r3) auto
  have "keeps {backup_path, backup_md5_path} ?bk" by (intro keeps_intros keeps_checks keeps_backup)
  from keepsD [OF this m3'] fs2 vfs(2) have "w_files w3 path = Some c" by simp
  from runs_to_read [OF ok3 this, of chunk_size sz 0] len obtain w4 where
      "file_data_read (Some path) sz chunk_size 0 w3 = (Done c, w4)" by (auto simp: runs_to_def)
  moreover have "ipc_nv_data_load md5 (Some client) w =
      bnd (bnd (try_rc (ipc_nv_data_check md5 (Some client))) (\<lambda>rc. if rc < 0
        then bnd (ipc_nv_data_restore md5 (Some client)) (\<lambda>_. ipc_nv_data_check md5 (Some client))
        else ret ())) (\<lambda>_. bnd ?bk (\<lambda>_. file_data_read (Some path) sz chunk_size 0)) w"
    by (simp add: ipc_nv_data_load_def Let_def bnd_assoc)
  moreover have "bnd (bnd (try_rc (ipc_nv_data_check md5 (Some client))) (\<lambda>rc. if rc < 0
        then bnd (ipc_nv_data_restore md5 (Some client)) (\<lambda>_. ipc_nv_data_check md5 (Some client))
        else ret ())) f w = f () w2" for f :: "unit \<Rightarrow> u8 list io"
    by (rule bnd_Done) (rule m2)
  moreover have "bnd ?bk f w2 = f rc3 w3" for f :: "int \<Rightarrow> u8 list io"
    by (rule bnd_Done) (rule m3')
  ultimately show ?thesis by simp
qed

lemma write_runs:
  assumes ok: "files_ok w" and c: "w_files w path = Some c" "length c = sz"
    and m: "w_files w md5_path \<noteq> None" and bs: "bs \<noteq> []" and fits: "seek_pos offset + length bs \<le> sz"
  shows "\<exists>w'. ipc_nv_data_write md5 (Some client) (Some bs) offset w = (Done (), w') \<and> files_ok w'"
proof -
  let ?c = "file_splice (seek_pos offset) bs c" and ?ck = "if length bs < chunk_size then length bs else chunk_size"
  let ?fs = "(w_files w)(path \<mapsto> ?c)" and ?d = "nv_digest md5 secret (file_splice (seek_pos offset) bs c)"
  have len: "length ?c = sz" using fits c(2) by simp
  have wr: "runs_to (file_data_write (Some path) (Some bs) ?ck offset) w1 () ?fs"
    if "files_ok w1" "w_files w1 = w_files w" for w1
    using runs_to_write [OF that(1), of ?ck bs path offset] bs c that(2) by (simp add: file_of_def)
  have calc: "runs_to (ipc_nv_data_md5_calculate md5 path (Some secret) sz chunk_size) w1 (?d @ [0]) ?fs"
    if "files_ok w1" "w_files w1 = ?fs" for w1
    using calculate_runs [OF that(1), of path ?c] len by (simp add: that(2))
  have ul: "runs_to (sys_unlink md5_path) w1 0 (?fs(md5_path := None))"
    if "files_ok w1" "w_files w1 = ?fs" for w1
    using runs_to_unlink [OF that(1), of md5_path] m that(2) by simp
  have wm: "runs_to (file_data_write (Some md5_path) (Some ?d) 32 0) w1 () (?fs(md5_path \<mapsto> ?d))"
    if "files_ok w1" "w_files w1 = ?fs(md5_path := None)" for w1
    using runs_to_write [OF that(1), of 32 ?d md5_path 0] that(2)
    by (simp add: file_of_def file_splice_Nil_file)
  have "runs_to (bnd (ipc_nv_data_path_check (Some client)) (\<lambda>_.
      bnd (file_data_write (Some path) (Some bs) ?ck offset) (\<lambda>_.
      bnd (ipc_nv_data_md5_calculate md5 path (Some secret) sz chunk_size) (\<lambda>s.
      bnd (sys_unlink md5_path) (\<lambda>rc. bnd (check (\<not> rc < 0)) (\<lambda>_.
      file_data_write (Some md5_path) (Some (take (strlen s) s)) (strlen s) 0)))))) w ()
      (?fs(md5_path \<mapsto> ?d))"
    by (rule runs_to_bnd [OF path_check_runs(1) [OF ok c]], rule runs_to_bnd [OF wr], assumption,
        assumption, rule runs_to_bnd [OF calc], assumption, assumption, rule runs_to_bnd [OF ul],
        assumption, assumption, rule runs_to_bnd [OF runs_to_pure(1)]) (use wm in auto)
  then show ?thesis
    by (auto simp: ipc_nv_data_write_def Let_def check_True_bnd runs_to_def)
qed

end


lemma nv_deviceI:
  "nv_configured client p m bp bm secret sz ck \<Longrightarrow> nv_device client p m bp bm secret sz ck"
  by (rule nv_device.intro)

section \<open>Properties of the NV data\<close>

text \<open>
  C38: with a cooperative kernel \<open>ipc_nv_data_check\<close> succeeds exactly when the file has the
  configured size and the file beside it is the hexadecimal digest of the contents and the
  secret; with any kernel success implies that, the answer is never undefined behaviour, and
  no file changes.
\<close>

theorem nv_check_exact:
  assumes "nv_configured client p m bp bm secret sz ck"
    and "ipc_nv_data_check md5 (Some client) w = (r, w')"
  shows "(r = Done () \<longrightarrow> nv_valid md5 secret sz (w_files w) p m) \<and>
    (files_ok w \<longrightarrow> (r = Done () \<longleftrightarrow> nv_valid md5 secret sz (w_files w) p m)) \<and>
    r \<noteq> Undef \<and> (r = Done () \<longrightarrow> w_files w' = w_files w)"
proof -
  note dev = nv_deviceI [OF assms(1)]
  have "r = Done ()" if "files_ok w" "nv_valid md5 secret sz (w_files w) p m"
    using nv_device.check_runs [OF dev that] assms(2) by (auto simp: runs_to_def)
  moreover have "nv_valid md5 secret sz (w_files w) p m \<and> w_files w' = w_files w" if "r = Done ()"
    using nv_device.check_Done [OF dev, of md5 w "()" w'] assms(2) that by auto
  moreover have "r \<noteq> Undef" using tameD [OF nv_device.tame_checks(1) [OF dev] assms(2)] by blast
  ultimately show ?thesis by blast
qed

text \<open>A configuration and two worlds for the instances below.\<close>

definition demo_env :: client_env where
  "demo_env = \<lparr>cl_type = 0, cl_log_callback = None, cl_log_data = None, cl_handlers = None,
     cl_gprs_specs = None, cl_nv_data_specs = Some \<lparr>nv_data_path = Some ''nv'',
       nv_data_md5_path = Some ''nv.md5'', nv_data_backup_path = Some ''bak'',
       nv_data_backup_md5_path = Some ''bak.md5'', nv_data_secret = Some [7],
       nv_data_size = 5, nv_data_chunk_size = 2\<rparr>\<rparr>"

lemma demo_configured: "nv_configured demo_env ''nv'' ''nv.md5'' ''bak'' ''bak.md5'' [7] 5 2"
  by (simp add: nv_configured_def nv_accessors demo_env_def)

definition demo_md5 :: "u8 list \<Rightarrow> u8 list" where
  "demo_md5 bs = bs"

definition demo_nv_world :: world where
  "demo_nv_world = demo_world\<lparr>w_files := (w_files demo_world)
     (''nv.md5'' \<mapsto> nv_digest demo_md5 [7] [1, 2, 3, 4, 5])\<rparr>"

lemma demo_nv_world_ok: "files_ok demo_nv_world"
  using demo_world_ok by (simp add: demo_nv_world_def files_ok_def)

lemma demo_nv_file: "w_files demo_nv_world ''nv'' = Some [1, 2, 3, 4, 5]"
  by (simp add: demo_nv_world_def demo_world_def)

lemma demo_nv_valid: "nv_valid demo_md5 [7] 5 (w_files demo_nv_world) ''nv'' ''nv.md5''"
  by (simp add: nv_valid_def demo_nv_world_def demo_world_def)

theorem nv_check_exact_witness:
  "fst (ipc_nv_data_check demo_md5 (Some demo_env) demo_nv_world) = Done () \<and>
   fst (ipc_nv_data_check demo_md5 (Some demo_env) demo_world) \<noteq> Done ()"
proof -
  have "\<not> nv_valid demo_md5 [7] 5 (w_files demo_world) ''nv'' ''nv.md5''"
    by (simp add: nv_valid_def demo_world_def)
  moreover obtain r1 w1 where "ipc_nv_data_check demo_md5 (Some demo_env) demo_nv_world = (r1, w1)"
    by fastforce
  moreover obtain r2 w2 where "ipc_nv_data_check demo_md5 (Some demo_env) demo_world = (r2, w2)"
    by fastforce
  ultimately show ?thesis
    using nv_check_exact [OF demo_configured, of demo_md5 demo_nv_world r1 w1] demo_nv_world_ok
      nv_check_exact [OF demo_configured, of demo_md5 demo_world r2 w2] demo_nv_valid by auto
qed

text \<open>
  C15: a backup is what a restore brings back: with a cooperative kernel \<open>ipc_nv_data_backup\<close> of
  data of the configured size writes the copy and its digest and no other file, and in any
  later state in which those two files are as it left them, whatever happened to the data
  and its digest, \<open>ipc_nv_data_restore\<close> recreates the data with a digest that checks.
\<close>

theorem nv_backup_restore:
  assumes cfg: "nv_configured client p m bp bm secret sz ck"
    and ok: "files_ok w" and c: "w_files w p = Some c" "length c = sz"
    and ok2: "files_ok w2"
    and kept: "w_files w2 bp = Some c" "w_files w2 bm = Some (nv_digest md5 secret c)"
  shows "(\<exists>w1. ipc_nv_data_backup md5 (Some client) w = (Done (), w1) \<and>
      w_files w1 = (w_files w)(bp \<mapsto> c, bm \<mapsto> nv_digest md5 secret c)) \<and>
    (\<exists>w3. ipc_nv_data_restore md5 (Some client) w2 = (Done (), w3) \<and>
      w_files w3 = (w_files w2)(p \<mapsto> c, m \<mapsto> nv_digest md5 secret c) \<and>
      nv_valid md5 secret sz (w_files w3) p m)"
proof -
  note dev = nv_deviceI [OF cfg]
  have "nv_valid md5 secret sz (w_files w2) bp bm" using kept c(2) by (simp add: nv_valid_def)
  moreover have "p \<noteq> m" using cfg by (simp add: nv_configured_def)
  ultimately show ?thesis
    using nv_device.backup_runs [OF dev ok c, of md5] nv_device.restore_runs [OF dev ok2 kept(1), of md5] c(2)
    by (auto simp: runs_to_def nv_valid_def)
qed

theorem nv_backup_restore_witness:
  "\<exists>w1 w3. ipc_nv_data_backup demo_md5 (Some demo_env) demo_nv_world = (Done (), w1) \<and>
     w_files w1 ''bak'' = Some [1, 2, 3, 4, 5] \<and>
     ipc_nv_data_restore demo_md5 (Some demo_env) (demo_world\<lparr>w_files :=
       [''nv'' \<mapsto> [9], ''bak'' \<mapsto> [1, 2, 3, 4, 5],
        ''bak.md5'' \<mapsto> nv_digest demo_md5 [7] [1, 2, 3, 4, 5]]\<rparr>) = (Done (), w3) \<and>
     w_files w3 ''nv'' = Some [1, 2, 3, 4, 5]"
proof -
  have "files_ok (demo_world\<lparr>w_files := fs\<rparr>)" for fs
    using demo_world_ok by (simp add: files_ok_def)
  from nv_backup_restore [OF demo_configured demo_nv_world_ok demo_nv_file _ this [of
      "[''nv'' \<mapsto> [9], ''bak'' \<mapsto> [1, 2, 3, 4, 5],
        ''bak.md5'' \<mapsto> nv_digest demo_md5 [7] [1, 2, 3, 4, 5]]"], of demo_md5]
  show ?thesis by auto
qed

text \<open>
  C17: \<open>ipc_nv_data_restore\<close> is safe with any kernel: it touches no file but the data and its
  digest, and unless the backup has the configured size and a matching digest it fails and
  changes nothing.
\<close>

theorem nv_restore_safe:
  assumes "nv_configured client p m bp bm secret sz ck"
    and "ipc_nv_data_restore md5 (Some client) w = (r, w')"
  shows "r \<noteq> Undef \<and> (\<forall>q. q \<noteq> p \<and> q \<noteq> m \<longrightarrow> w_files w' q = w_files w q) \<and>
    (\<not> nv_valid md5 secret sz (w_files w) bp bm \<longrightarrow> r = Fail \<and> w_files w' = w_files w)"
proof -
  note dev = nv_deviceI [OF assms(1)]
  have nu: "r \<noteq> Undef" using tameD [OF nv_device.tame_updates(2) [OF dev] assms(2)] by blast
  then show ?thesis
    using keepsD [OF nv_device.keeps_restore [OF dev] assms(2)]
      nv_device.restore_refused [OF dev _ assms(2)] by (cases r) auto
qed

theorem nv_restore_safe_witness:
  "\<exists>w'. ipc_nv_data_restore demo_md5 (Some demo_env) demo_nv_world = (Fail, w') \<and>
     w_files w' = w_files demo_nv_world"
proof -
  obtain r w' where r: "ipc_nv_data_restore demo_md5 (Some demo_env) demo_nv_world = (r, w')"
    by fastforce
  have "\<not> nv_valid demo_md5 [7] 5 (w_files demo_nv_world) ''bak'' ''bak.md5''"
    by (simp add: nv_valid_def demo_nv_world_def demo_world_def)
  with nv_restore_safe [OF demo_configured r] r show ?thesis by auto
qed

text \<open>
  C14: with any kernel \<open>ipc_nv_data_load\<close> returns only data that is what the file holds and
  that matches the digest beside it; with a cooperative kernel it returns the data when that is
  valid, and the backup when only the backup is.
\<close>

theorem nv_load_valid:
  assumes cfg: "nv_configured client p m bp bm secret sz ck"
  shows "(ipc_nv_data_load md5 (Some client) w = (Done data, w') \<longrightarrow>
      w_files w' p = Some data \<and> nv_valid md5 secret sz (w_files w') p m) \<and>
    (files_ok w \<and> nv_valid md5 secret sz (w_files w) p m \<longrightarrow>
      (\<exists>c w'. w_files w p = Some c \<and> ipc_nv_data_load md5 (Some client) w = (Done c, w'))) \<and>
    (files_ok w \<and> \<not> nv_valid md5 secret sz (w_files w) p m \<and> nv_valid md5 secret sz (w_files w) bp bm \<longrightarrow>
      (\<exists>c w'. w_files w bp = Some c \<and> ipc_nv_data_load md5 (Some client) w = (Done c, w')))"
proof -
  note dev = nv_deviceI [OF cfg]
  have ex: "\<exists>c. fs q = Some c" if "nv_valid md5 secret sz fs q q'" for fs q q'
    using that by (auto simp: nv_valid_def split: option.splits)
  show ?thesis
    using nv_device.load_Done [OF dev, of md5 w data w'] nv_device.load_runs [OF dev, of w _ _ md5]
      ex [of "w_files w" p m] ex [of "w_files w" bp bm] by blast
qed

theorem nv_load_valid_witness:
  "(\<exists>w'. ipc_nv_data_load demo_md5 (Some demo_env) demo_nv_world = (Done [1, 2, 3, 4, 5], w'))"
  using nv_load_valid [OF demo_configured, of demo_md5 demo_nv_world] demo_nv_valid demo_nv_world_ok
    demo_nv_file by auto

text \<open>
  C16: with any kernel, when \<open>ipc_nv_data_write\<close> succeeds the data holds the bytes at the
  offset and its old bytes elsewhere, has the configured size and matches its digest, and
  the backup is as before; with a cooperative kernel it succeeds for every non-empty block
  that fits, and the same range then reads back.
\<close>

theorem nv_write_sync:
  assumes cfg: "nv_configured client p m bp bm secret sz ck"
  shows "(ipc_nv_data_write md5 (Some client) (Some bs) offset w = (Done u, w') \<longrightarrow>
      (\<exists>c. w_files w p = Some c \<and> w_files w' p = Some (file_splice (seek_pos offset) bs c)) \<and>
      nv_valid md5 secret sz (w_files w') p m \<and> w_files w' bp = w_files w bp \<and> w_files w' bm = w_files w bm) \<and>
    (files_ok w \<and> w_files w p \<noteq> None \<and> length (file_of w p) = sz \<and> w_files w m \<noteq> None \<and> bs \<noteq> [] \<and>
      seek_pos offset + length bs \<le> sz \<longrightarrow>
      (\<exists>w1 w2. ipc_nv_data_write md5 (Some client) (Some bs) offset w = (Done (), w1) \<and>
        ipc_nv_data_read (Some client) (length bs) offset w1 = (Done bs, w2)))"
proof (intro conjI impI)
  note dev = nv_deviceI [OF cfg]
  {
    assume wr: "ipc_nv_data_write md5 (Some client) (Some bs) offset w = (Done u, w')"
    from nv_device.write_Done [OF dev wr]
    show "\<exists>c. w_files w p = Some c \<and> w_files w' p = Some (file_splice (seek_pos offset) bs c)"
      and "nv_valid md5 secret sz (w_files w') p m" by blast+
    from keepsD [OF nv_device.keeps_write [OF dev] wr] cfg
    show "w_files w' bp = w_files w bp" and "w_files w' bm = w_files w bm"
      by (auto simp: nv_configured_def)
  }
  assume h: "files_ok w \<and> w_files w p \<noteq> None \<and> length (file_of w p) = sz \<and> w_files w m \<noteq> None \<and>
    bs \<noteq> [] \<and> seek_pos offset + length bs \<le> sz"
  then obtain c where c: "w_files w p = Some c" "length c = sz" by (auto simp: file_of_def)
  with h nv_device.write_runs [OF dev, of w c bs offset md5] obtain w1 where
      wr: "ipc_nv_data_write md5 (Some client) (Some bs) offset w = (Done (), w1)" and ok1: "files_ok w1"
    by blast
  from nv_device.write_Done [OF dev wr] c have f1: "w_files w1 p = Some (file_splice (seek_pos offset) bs c)"
    by auto
  let ?ck = "if ck > length bs then length bs else ck"
  have len: "length (file_splice (seek_pos offset) bs c) = sz" using h c by simp
  have spec: "ipc_client_nv_data_path (Some client) = Some p" "ipc_client_nv_data_chunk_size (Some client) = ck"
      "ck \<noteq> 0" using cfg by (auto simp: nv_configured_def)
  have "runs_to (file_data_read (Some p) (length bs) ?ck offset) wx bs (w_files w1)"
    if "files_ok wx" "w_files wx = w_files w1" for wx
    using runs_to_read [OF that(1), of p "file_splice (seek_pos offset) bs c" ?ck "length bs" offset]
      f1 h spec by (simp add: that(2) file_splice_read)
  then have "runs_to (bnd (ipc_nv_data_path_check (Some client))
      (\<lambda>_. file_data_read (Some p) (length bs) ?ck offset)) w1 bs (w_files w1)"
    by (rule runs_to_bnd [OF nv_device.path_check_runs(1) [OF dev ok1 f1 len]])
  then have "\<exists>w2. ipc_nv_data_read (Some client) (length bs) offset w1 = (Done bs, w2)"
    using spec by (auto simp: ipc_nv_data_read_def Let_def runs_to_def)
  with wr show "\<exists>w1 w2. ipc_nv_data_write md5 (Some client) (Some bs) offset w = (Done (), w1) \<and>
      ipc_nv_data_read (Some client) (length bs) offset w1 = (Done bs, w2)" by blast
qed

theorem nv_write_sync_witness:
  "\<exists>w1 w2. ipc_nv_data_write demo_md5 (Some demo_env) (Some [8, 9]) 2 demo_nv_world = (Done (), w1) \<and>
     ipc_nv_data_read (Some demo_env) 2 2 w1 = (Done [8, 9], w2)"
proof -
  have "w_files demo_nv_world ''nv.md5'' \<noteq> None" by (simp add: demo_nv_world_def)
  moreover have "length (file_of demo_nv_world ''nv'') = 5" by (simp add: file_of_def demo_nv_file)
  ultimately show ?thesis
    using nv_write_sync [OF demo_configured, of demo_md5 "[8, 9]" 2 demo_nv_world] demo_nv_world_ok
      demo_nv_file by (auto simp: seek_pos_2 numeral_2_eq_2)
qed


section \<open>RFS item messages\<close>

record ipc_rfs_nv_read_item_response_header =
  nvr_confirm :: u8
  nvr_offset :: u32
  nvr_length :: u32

definition sizeof_nv_read_item_response_header :: nat where
  "sizeof_nv_read_item_response_header = 9"

definition sizeof_nv_write_item_request_header :: nat where
  "sizeof_nv_write_item_request_header = 8"

definition nv_read_item_response_bytes :: "ipc_rfs_nv_read_item_response_header \<Rightarrow> u8 list" where
  "nv_read_item_response_bytes h = nvr_confirm h # le32 (nvr_offset h) @ le32 (nvr_length h)"

text \<open>The local \<open>size\<close> starts at 0 and is what is added to the size of the header.\<close>

definition ipc_rfs_nv_data_item_size_setup ::
  "ipc_rfs_nv_read_item_response_header option \<Rightarrow> u8 list option \<Rightarrow> nat" where
  "ipc_rfs_nv_data_item_size_setup header nv_data =
     (case (header, nv_data) of
        (Some _, Some bs) \<Rightarrow>
          if length bs = 0 then 0 else let sz = 0 in sizeof_nv_read_item_response_header + sz
      | _ \<Rightarrow> 0)"

definition ipc_rfs_nv_read_item_setup ::
  "ipc_rfs_nv_read_item_response_header option \<Rightarrow> u8 list option \<Rightarrow> u8 list outcome" where
  "ipc_rfs_nv_read_item_setup header nv_data =
     (case (header, nv_data) of
        (Some h, Some bs) \<Rightarrow>
          if length bs = 0 then Fail
          else
            let sz = ipc_rfs_nv_data_item_size_setup header nv_data
            in if sz = 0 then Fail
               else pokes 0 [nv_read_item_response_bytes h, bs] (calloc sz)
      | _ \<Rightarrow> Fail)"

text \<open>The member \<open>length\<close> of a write request.\<close>

definition nv_write_item_length :: "u8 list \<Rightarrow> nat" where
  "nv_write_item_length bs = unat (get32 (drop 4 bs))"

definition ipc_rfs_nv_write_item_size_extract :: "u8 list option \<Rightarrow> nat outcome" where
  "ipc_rfs_nv_write_item_size_extract data =
     (case data of None \<Rightarrow> Done 0
      | Some bs \<Rightarrow>
          if length bs < sizeof_nv_write_item_request_header then Done 0
          else if nv_write_item_length bs = 0 \<or>
                  length bs - sizeof_nv_write_item_request_header < nv_write_item_length bs then Done 0
          else Done (nv_write_item_length bs))"

definition ipc_rfs_nv_write_item_extract :: "u8 list option \<Rightarrow> nat outcome" where
  "ipc_rfs_nv_write_item_extract data =
     (case data of None \<Rightarrow> Fail
      | Some bs \<Rightarrow>
          if length bs < sizeof_nv_write_item_request_header then Fail
          else if nv_write_item_length bs = 0 \<or>
                  length bs - sizeof_nv_write_item_request_header < nv_write_item_length bs then Fail
          else Done sizeof_nv_write_item_request_header)"

interpretation nv_write_item: sized_payload sizeof_nv_write_item_request_header nv_write_item_length
  ipc_rfs_nv_write_item_size_extract ipc_rfs_nv_write_item_extract
  by unfold_locales
    (auto simp: ipc_rfs_nv_write_item_size_extract_def ipc_rfs_nv_write_item_extract_def)

text \<open>
  C39: \<open>ipc_rfs_nv_read_item_setup\<close> allocates room for the header alone, so for every header
  and every non-empty block of NV data its second copy runs past the end of the allocation.
\<close>

theorem nv_read_item_setup_overflow:
  assumes "bs \<noteq> []"
  shows "ipc_rfs_nv_data_item_size_setup (Some h) (Some bs) = length (nv_read_item_response_bytes h) \<and>
    ipc_rfs_nv_read_item_setup (Some h) (Some bs) = Undef"
proof -
  have len: "length (nv_read_item_response_bytes h) = 9" by (simp add: nv_read_item_response_bytes_def)
  have "pokes 0 [nv_read_item_response_bytes h, bs] (calloc 9) = Undef"
    by (rule pokes_Undef) (use assms len in simp_all)
  with assms len show ?thesis
    by (simp add: ipc_rfs_nv_read_item_setup_def ipc_rfs_nv_data_item_size_setup_def
        sizeof_nv_read_item_response_header_def)
qed

theorem nv_read_item_setup_overflow_witness:
  "ipc_rfs_nv_read_item_setup (Some \<lparr>nvr_confirm = 1, nvr_offset = 0, nvr_length = 2\<rparr>) (Some [1, 2]) = Undef"
  using nv_read_item_setup_overflow [of "[1, 2]" "\<lparr>nvr_confirm = 1, nvr_offset = 0, nvr_length = 2\<rparr>"]
  by simp

text \<open>
  When the payload of an NV write request is returned, it starts right behind the header,
  the size reported for it is the length field of the header and not zero, and it lies inside
  the message.
\<close>

theorem nv_write_item_in_bounds:
  assumes "ipc_rfs_nv_write_item_extract (Some bs) = Done off"
  shows "off = 8 \<and> (\<exists>n. ipc_rfs_nv_write_item_size_extract (Some bs) = Done n \<and> 0 < n \<and>
    off + n \<le> length bs \<and> n = unat (get32 (drop 4 bs)))"
  using nv_write_item.region_in_bounds [OF assms] assms
  by (auto simp: sizeof_nv_write_item_request_header_def ipc_rfs_nv_write_item_size_extract_def
      nv_write_item_length_def split: if_splits)

theorem nv_write_item_in_bounds_witness:
  "ipc_rfs_nv_write_item_size_extract (Some [0, 0, 0, 0, 2, 0, 0, 0, 5, 6]) = Done 2"
proof -
  have "ipc_rfs_nv_write_item_extract (Some [0, 0, 0, 0, 2, 0, 0, 0, 5, 6]) = Done 8" by code_simp
  from nv_write_item_in_bounds [OF this]
  have "ipc_rfs_nv_write_item_size_extract (Some [0, 0, 0, 0, 2, 0, 0, 0, 5, 6]) =
      Done (unat (get32 (drop 4 [0, 0, 0, 0, 2, 0, 0, 0, 5, 6])))" by blast
  also have "unat (get32 (drop 4 [0, 0, 0, 0, 2, 0, 0, 0, 5, 6])) = 2" by code_simp
  finally show ?thesis .
qed

end
