(* ===== verification/Smdk4412.thy ===== *)
theory Smdk4412
  imports Transport NvData
begin

text \<open>
  modems/xmm626/xmm626_kernel_smdk4412.c: power and link control through ioctls and sysfs, the
  FMT and RFS transports, descriptors, polling and the GPRS interfaces; and the transport
  handlers of devices/i9300/i9300.c (those of n7100.c and n5100.c differ in names only).

  Logging and \<open>usleep\<close> have no effect on the state and are left out.
\<close>

section \<open>Requests and states\<close>

text \<open>\<open>_IO ('o', nr)\<close>.\<close>

definition IO_o :: "u32 \<Rightarrow> u32" where
  "IO_o nr = or 0x6f00 nr"

definition IOCTL_MODEM_ON :: u32 where "IOCTL_MODEM_ON = IO_o 0x19"
definition IOCTL_MODEM_OFF :: u32 where "IOCTL_MODEM_OFF = IO_o 0x20"
definition IOCTL_MODEM_BOOT_ON :: u32 where "IOCTL_MODEM_BOOT_ON = IO_o 0x22"
definition IOCTL_MODEM_BOOT_OFF :: u32 where "IOCTL_MODEM_BOOT_OFF = IO_o 0x23"
definition IOCTL_MODEM_STATUS :: u32 where "IOCTL_MODEM_STATUS = IO_o 0x27"
definition IOCTL_LINK_CONTROL_ENABLE :: u32 where "IOCTL_LINK_CONTROL_ENABLE = IO_o 0x30"
definition IOCTL_LINK_CONTROL_ACTIVE :: u32 where "IOCTL_LINK_CONTROL_ACTIVE = IO_o 0x31"
definition IOCTL_LINK_GET_HOSTWAKE :: u32 where "IOCTL_LINK_GET_HOSTWAKE = IO_o 0x32"
definition IOCTL_LINK_CONNECTED :: u32 where "IOCTL_LINK_CONNECTED = IO_o 0x33"

definition STATE_BOOTING :: int where "STATE_BOOTING = 3"
definition STATE_ONLINE :: int where "STATE_ONLINE = 4"

definition XMM626_DATA_SIZE :: nat where "XMM626_DATA_SIZE = 0x1000"
definition XMM626_DATA_SIZE_LIMIT :: nat where "XMM626_DATA_SIZE_LIMIT = 0x80000"
definition XMM626_SEC_MODEM_GPRS_IFACE_COUNT :: u32 where "XMM626_SEC_MODEM_GPRS_IFACE_COUNT = 3"

section \<open>Power and link\<close>

definition xmm626_kernel_smdk4412_power :: "int \<Rightarrow> int \<Rightarrow> unit io" where
  "xmm626_kernel_smdk4412_power device_fd pwr =
     (if device_fd < 0 then fail
      else bnd (sys_ioctl device_fd (if pwr \<noteq> 0 then IOCTL_MODEM_ON else IOCTL_MODEM_OFF) 0)
             (\<lambda>rc. check (\<not> rc < 0)))"

definition xmm626_kernel_smdk4412_boot_power :: "int \<Rightarrow> int \<Rightarrow> unit io" where
  "xmm626_kernel_smdk4412_boot_power device_fd pwr =
     (if device_fd < 0 then fail
      else bnd (sys_ioctl device_fd (if pwr \<noteq> 0 then IOCTL_MODEM_BOOT_ON else IOCTL_MODEM_BOOT_OFF) 0)
             (\<lambda>rc. check (\<not> rc < 0)))"

text \<open>At most \<open>n\<close> requests, until one answers as wanted.\<close>

fun ioctl_wait :: "nat \<Rightarrow> int \<Rightarrow> u32 \<Rightarrow> (int \<Rightarrow> bool) \<Rightarrow> unit io" where
  "ioctl_wait 0 device_fd request wanted = fail"
| "ioctl_wait (Suc n) device_fd request wanted =
     bnd (sys_ioctl device_fd request 0) (\<lambda>status.
       if wanted status then ret () else ioctl_wait n device_fd request wanted)"

definition xmm626_kernel_smdk4412_status_online_wait :: "int \<Rightarrow> unit io" where
  "xmm626_kernel_smdk4412_status_online_wait device_fd =
     (if device_fd < 0 then fail
      else ioctl_wait 100 device_fd IOCTL_MODEM_STATUS (\<lambda>status. status = STATE_ONLINE))"

definition xmm626_kernel_smdk4412_hci_power :: "int \<Rightarrow> unit io" where
  "xmm626_kernel_smdk4412_hci_power pwr =
     (let value = (if pwr \<noteq> 0 then 1 else 0)
      in bnd (try_rc (sysfs_value_write (Some ''/sys/devices/platform/s5p-ehci/ehci_power'') value))
           (\<lambda>ehci_rc.
         bnd (try_rc (sysfs_value_write (Some ''/sys/devices/platform/s5p-ohci/ohci_power'') value))
           (\<lambda>ohci_rc.
         check (\<not> (ehci_rc < 0 \<and> ohci_rc < 0)))))"

definition xmm626_kernel_smdk4412_link_control_enable :: "int \<Rightarrow> int \<Rightarrow> unit io" where
  "xmm626_kernel_smdk4412_link_control_enable device_fd enable =
     (if device_fd < 0 then fail
      else bnd (sys_ioctl device_fd IOCTL_LINK_CONTROL_ENABLE enable) (\<lambda>rc. check (\<not> rc < 0)))"

definition xmm626_kernel_smdk4412_link_control_active :: "int \<Rightarrow> int \<Rightarrow> unit io" where
  "xmm626_kernel_smdk4412_link_control_active device_fd active =
     (if device_fd < 0 then fail
      else bnd (sys_ioctl device_fd IOCTL_LINK_CONTROL_ACTIVE active) (\<lambda>rc. check (\<not> rc < 0)))"

definition xmm626_kernel_smdk4412_link_connected_wait :: "int \<Rightarrow> unit io" where
  "xmm626_kernel_smdk4412_link_connected_wait device_fd =
     (if device_fd < 0 then fail
      else ioctl_wait 100 device_fd IOCTL_LINK_CONNECTED (\<lambda>status. status \<noteq> 0))"

definition xmm626_kernel_smdk4412_link_get_hostwake_wait :: "int \<Rightarrow> unit io" where
  "xmm626_kernel_smdk4412_link_get_hostwake_wait device_fd =
     (if device_fd < 0 then fail
      else ioctl_wait 10 device_fd IOCTL_LINK_GET_HOSTWAKE (\<lambda>status. status \<noteq> 0))"

section \<open>Sending and receiving messages\<close>

text \<open>
  The buffer both \<open>send\<close> functions build: \<open>len\<close> cleared bytes, the header, and \<open>size\<close> bytes read
  from \<open>data\<close> behind it.
\<close>

definition frame_buffer :: "nat \<Rightarrow> u8 list \<Rightarrow> ipc_message \<Rightarrow> u8 list outcome" where
  "frame_buffer len hdr m =
     obind (poke 0 hdr (calloc len)) (\<lambda>buffer.
       case msg_data m of None \<Rightarrow> Done buffer
       | Some data \<Rightarrow>
           if msg_size m > 0
           then obind (peek 0 (unat (msg_size m)) data) (\<lambda>src. poke (length hdr) src buffer)
           else Done buffer)"

definition handler_write :: "client_env \<Rightarrow> (u8 list \<Rightarrow> int io) option" where
  "handler_write client =
     (case cl_handlers client of None \<Rightarrow> None
      | Some h \<Rightarrow> map_option (\<lambda>wr. wr (hd_transport (h_data h))) (h_write h))"

definition handler_read :: "client_env \<Rightarrow> (nat \<Rightarrow> u8 list option io) option" where
  "handler_read client =
     (case cl_handlers client of None \<Rightarrow> None
      | Some h \<Rightarrow> map_option (\<lambda>rd. rd (hd_transport (h_data h))) (h_read h))"

definition xmm626_kernel_smdk4412_fmt_send :: "client_env \<Rightarrow> ipc_message option \<Rightarrow> unit io" where
  "xmm626_kernel_smdk4412_fmt_send client message =
     (case (handler_write client, message) of
        (Some wr, Some m) \<Rightarrow>
          bnd (lift_outcome (ipc_fmt_header_setup (Some (fmt_header_of (calloc 7))) (Some m))) (\<lambda>header.
          bnd (lift_outcome (frame_buffer (unat (fmt_length header)) (fmt_header_bytes header) m))
            (\<lambda>buffer. write_loop wr None buffer))
      | _ \<Rightarrow> fail)"

definition xmm626_kernel_smdk4412_rfs_send :: "client_env \<Rightarrow> ipc_message option \<Rightarrow> unit io" where
  "xmm626_kernel_smdk4412_rfs_send client message =
     (case (handler_write client, message) of
        (Some wr, Some m) \<Rightarrow>
          bnd (lift_outcome (ipc_rfs_header_setup (Some (rfs_header_of (calloc 6))) (Some m))) (\<lambda>header.
          bnd (lift_outcome (frame_buffer (unat (rfs_length header)) (rfs_header_bytes header) m))
            (\<lambda>buffer. write_loop wr None buffer))
      | _ \<Rightarrow> fail)"

text \<open>
  The first read of both \<open>recv\<close> functions, into a buffer of \<open>XMM626_DATA_SIZE\<close> bytes, and the
  rest: what the first read brought beyond the header is copied into a block of the size the
  header announces, and the block is filled up.
\<close>

definition recv_first :: "(nat \<Rightarrow> u8 list option io) \<Rightarrow> nat \<Rightarrow> u8 list io" where
  "recv_first rd hdr =
     bnd (rd XMM626_DATA_SIZE) (\<lambda>r.
       case r of None \<Rightarrow> fail
       | Some bs \<Rightarrow>
           if length bs > XMM626_DATA_SIZE then undef
           else if length bs < hdr then fail
           else ret bs)"

definition recv_rest ::
  "(nat \<Rightarrow> u8 list option io) \<Rightarrow> nat \<Rightarrow> nat \<Rightarrow> u8 list \<Rightarrow> ipc_message \<Rightarrow> ipc_message io" where
  "recv_rest rd hdr len bs m =
     (if len > hdr then
        let sz = len - hdr in
        bnd (lift_outcome (poke 0 (drop hdr bs) (calloc sz))) (\<lambda>_.
        bnd (read_loop rd sz (drop hdr bs)) (\<lambda>data.
        ret (m\<lparr>msg_size := of_nat sz, msg_data := Some data\<rparr>)))
      else ret m)"

definition xmm626_kernel_smdk4412_fmt_recv :: "client_env \<Rightarrow> ipc_message option \<Rightarrow> ipc_message io" where
  "xmm626_kernel_smdk4412_fmt_recv client message =
     (case (handler_read client, message) of
        (Some rd, Some m0) \<Rightarrow>
          bnd (recv_first rd sizeof_fmt_header) (\<lambda>bs.
          let header = fmt_header_of bs in
          bnd (lift_outcome (ipc_fmt_message_setup (Some header) (Some m0))) (\<lambda>m.
          recv_rest rd sizeof_fmt_header (unat (fmt_length header)) bs m))
      | _ \<Rightarrow> fail)"

definition xmm626_kernel_smdk4412_rfs_recv :: "client_env \<Rightarrow> ipc_message option \<Rightarrow> ipc_message io" where
  "xmm626_kernel_smdk4412_rfs_recv client message =
     (case (handler_read client, message) of
        (Some rd, Some m0) \<Rightarrow>
          bnd (recv_first rd sizeof_rfs_header) (\<lambda>bs.
          let header = rfs_header_of bs in
          bnd (check (\<not> unat (rfs_length header) > XMM626_DATA_SIZE_LIMIT)) (\<lambda>_.
          bnd (lift_outcome (ipc_rfs_message_setup (Some header) (Some m0))) (\<lambda>m.
          recv_rest rd sizeof_rfs_header (unat (rfs_length header)) bs m)))
      | _ \<Rightarrow> fail)"

section \<open>Descriptors\<close>

definition xmm626_kernel_smdk4412_open :: "int \<Rightarrow> int io" where
  "xmm626_kernel_smdk4412_open type =
     (if type = IPC_CLIENT_TYPE_FMT then sys_open ''/dev/umts_ipc0''
      else if type = IPC_CLIENT_TYPE_RFS then sys_open ''/dev/umts_rfs0''
      else ret (-1))"

definition xmm626_kernel_smdk4412_close :: "int \<Rightarrow> unit io" where
  "xmm626_kernel_smdk4412_close fd = (if fd < 0 then fail else sys_close fd)"

definition xmm626_kernel_smdk4412_read :: "int \<Rightarrow> nat \<Rightarrow> u8 list option io" where
  "xmm626_kernel_smdk4412_read fd len =
     (if fd < 0 \<or> len = 0 then ret None
      else bnd (sys_ioctl fd IOCTL_MODEM_STATUS 0) (\<lambda>status.
        if status \<noteq> STATE_ONLINE \<and> status \<noteq> STATE_BOOTING then ret None else sys_read len))"

definition xmm626_kernel_smdk4412_write :: "int \<Rightarrow> u8 list \<Rightarrow> int io" where
  "xmm626_kernel_smdk4412_write fd buffer =
     (if fd < 0 \<or> length buffer = 0 then ret (-1)
      else bnd (sys_ioctl fd IOCTL_MODEM_STATUS 0) (\<lambda>status.
        if status \<noteq> STATE_ONLINE \<and> status \<noteq> STATE_BOOTING then ret (-1) else sys_write fd buffer))"

text \<open>
  \<open>poll\<close>: the array is examined up to \<open>count\<close>; entries that are not ready become -1 and are
  taken off \<open>count\<close>. \<open>FD_SET\<close> skips negative entries, \<open>FD_ISSET\<close> does not.
\<close>

definition poll_set :: "int \<Rightarrow> ipc_poll_fds option \<Rightarrow> int list outcome" where
  "poll_set fd fds =
     (if \<not> fd_set_ok fd then Undef
      else case fds of None \<Rightarrow> Done [fd]
        | Some p \<Rightarrow> (case pf_fds p of None \<Rightarrow> Done [fd]
          | Some xs \<Rightarrow>
              if unat (pf_count p) > length xs then Undef
              else
                let ys = filter (\<lambda>x. 0 \<le> x) (take (unat (pf_count p)) xs)
                in if \<forall>y \<in> set ys. fd_set_ok y then Done (fd # ys) else Undef))"

definition poll_result :: "int list \<Rightarrow> ipc_poll_fds option \<Rightarrow> ipc_poll_fds option outcome" where
  "poll_result ready fds =
     (case fds of None \<Rightarrow> Done None
      | Some p \<Rightarrow> (case pf_fds p of None \<Rightarrow> Done (Some p)
        | Some xs \<Rightarrow>
            let n = unat (pf_count p); ys = take n xs
            in if \<forall>y \<in> set ys. fd_set_ok y
               then Done (Some (p\<lparr>
                 pf_fds := Some (map (\<lambda>y. if y \<in> set ready then y else -1) ys @ drop n xs),
                 pf_count := pf_count p - of_nat (length (filter (\<lambda>y. y \<notin> set ready) ys))\<rparr>))
               else Undef))"

definition xmm626_kernel_smdk4412_poll ::
  "int \<Rightarrow> ipc_poll_fds option \<Rightarrow> (int \<times> ipc_poll_fds option) io" where
  "xmm626_kernel_smdk4412_poll fd fds =
     (if fd < 0 then fail
      else
        bnd (lift_outcome (poll_set fd fds)) (\<lambda>fdset.
        bnd (sys_select_set fdset) (\<lambda>(rc, ready).
        bnd (if fd \<in> set ready
             then bnd (sys_ioctl fd IOCTL_MODEM_STATUS 0) (\<lambda>status.
               check (\<not> (status \<noteq> STATE_ONLINE \<and> status \<noteq> STATE_BOOTING)))
             else ret ()) (\<lambda>_.
        bnd (lift_outcome (poll_result ready fds)) (\<lambda>fds'. ret (rc, fds'))))))"

section \<open>GPRS interfaces\<close>

definition char_string :: "u8 list \<Rightarrow> string" where
  "char_string bs = map (\<lambda>b. char_of (unat b)) bs"

text \<open>\<open>%d\<close> shows \<open>cid - 1\<close>, an \<open>unsigned int\<close>, as a signed number.\<close>

definition xmm626_kernel_smdk4412_gprs_get_iface :: "u32 \<Rightarrow> string outcome" where
  "xmm626_kernel_smdk4412_gprs_get_iface cid =
     (if cid > XMM626_SEC_MODEM_GPRS_IFACE_COUNT then Fail
      else Done (''rmnet'' @ char_string (print_int (sint (cid - 1)))))"

definition xmm626_kernel_smdk4412_gprs_get_capabilities :: "u32 option \<Rightarrow> u32 outcome" where
  "xmm626_kernel_smdk4412_gprs_get_capabilities capabilities =
     (case capabilities of None \<Rightarrow> Fail | Some _ \<Rightarrow> Done XMM626_SEC_MODEM_GPRS_IFACE_COUNT)"

section \<open>The handlers of the i9300\<close>

definition i9300_open :: open_handler where
  "i9300_open data type =
     (case data of None \<Rightarrow> fail
      | Some a \<Rightarrow>
          bnd (xmm626_kernel_smdk4412_open type) (\<lambda>fd.
          bnd (heap_set a fd) (\<lambda>_. check (\<not> fd < 0))))"

definition i9300_close :: close_handler where
  "i9300_close data =
     (case data of None \<Rightarrow> fail
      | Some a \<Rightarrow>
          bnd (heap_get a) (\<lambda>fd.
          bnd (try_rc (xmm626_kernel_smdk4412_close fd)) (\<lambda>_. heap_set a (-1))))"

definition i9300_read :: read_handler where
  "i9300_read data len =
     (case data of None \<Rightarrow> ret None
      | Some a \<Rightarrow> bnd (heap_get a) (\<lambda>fd. xmm626_kernel_smdk4412_read fd len))"

definition i9300_write :: write_handler where
  "i9300_write data buffer =
     (case data of None \<Rightarrow> ret (-1)
      | Some a \<Rightarrow> bnd (heap_get a) (\<lambda>fd. xmm626_kernel_smdk4412_write fd buffer))"

definition i9300_poll :: poll_handler where
  "i9300_poll data fds =
     (case data of None \<Rightarrow> fail
      | Some a \<Rightarrow> bnd (heap_get a) (\<lambda>fd. xmm626_kernel_smdk4412_poll fd fds))"

definition i9300_power_on :: power_handler where
  "i9300_power_on data = ret ()"

definition i9300_power_off :: power_handler where
  "i9300_power_off data =
     bnd (sys_open ''/dev/umts_boot0'') (\<lambda>fd.
     if fd < 0 then fail
     else
       bnd (try_rc (xmm626_kernel_smdk4412_power fd 0)) (\<lambda>rc.
       bnd (sys_close fd) (\<lambda>_. check (\<not> rc < 0))))"

definition i9300_gprs_activate :: gprs_handler where
  "i9300_gprs_activate data cid = ret ()"

definition i9300_gprs_deactivate :: gprs_handler where
  "i9300_gprs_deactivate data cid = ret ()"

definition i9300_data_create ::
  "slot option \<Rightarrow> slot option \<Rightarrow> slot option \<Rightarrow> handler_data \<Rightarrow> handler_data io" where
  "i9300_data_create transport_data power_data gprs_data d =
     (case transport_data of None \<Rightarrow> fail
      | Some s \<Rightarrow> bnd heap_calloc (\<lambda>a. ret (slot_set s (Some a) d)))"

definition i9300_data_destroy :: "ptr \<Rightarrow> ptr \<Rightarrow> ptr \<Rightarrow> unit io" where
  "i9300_data_destroy transport_data power_data gprs_data =
     (case transport_data of None \<Rightarrow> fail | Some a \<Rightarrow> heap_free a)"

definition i9300_handlers :: ipc_client_handlers where
  "i9300_handlers = \<lparr>h_open = Some i9300_open, h_close = Some i9300_close, h_read = Some i9300_read,
     h_write = Some i9300_write, h_poll = Some i9300_poll, h_power_on = Some i9300_power_on,
     h_power_off = Some i9300_power_off, h_gprs_activate = Some i9300_gprs_activate,
     h_gprs_deactivate = Some i9300_gprs_deactivate, h_data_create = Some i9300_data_create,
     h_data_destroy = Some i9300_data_destroy,
     h_data = \<lparr>hd_transport = None, hd_power = None, hd_gprs = None\<rparr>\<rparr>"

definition i9300_gprs_specs :: ipc_client_gprs_specs where
  "i9300_gprs_specs = \<lparr>gs_get_iface = Some xmm626_kernel_smdk4412_gprs_get_iface,
     gs_get_capabilities = Some xmm626_kernel_smdk4412_gprs_get_capabilities\<rparr>"

definition i9300_nv_data_specs :: ipc_client_nv_data_specs where
  "i9300_nv_data_specs = \<lparr>nv_data_path = Some ''/efs/nv_data.bin'',
     nv_data_md5_path = Some ''/efs/nv_data.bin.md5'', nv_data_backup_path = Some ''/efs/.nv_data.bak'',
     nv_data_backup_md5_path = Some ''/efs/.nv_data.bak.md5'',
     nv_data_secret = Some (ascii ''Samsung_Android_RIL''), nv_data_size = 0x200000,
     nv_data_chunk_size = 0x1000\<rparr>"

definition i9300_rfs_ops :: ipc_client_ops where
  "i9300_rfs_ops = \<lparr>op_boot = None, op_send = Some xmm626_kernel_smdk4412_rfs_send,
     op_recv = Some xmm626_kernel_smdk4412_rfs_recv\<rparr>"


section \<open>The contracts of the descriptors and handlers\<close>

lemma smdk4412_write_cases:
  "xmm626_kernel_smdk4412_write fd bs w = (r, w') \<Longrightarrow>
   (r = Done (-1) \<and> w_heap w' = w_heap w \<and> sent fd' w' = sent fd' w \<and> received w' = received w) \<or>
   (\<exists>w1. sys_write fd bs w1 = (r, w') \<and> w_heap w1 = w_heap w \<and> sent fd' w1 = sent fd' w \<and>
      received w1 = received w)"
  by (auto simp: xmm626_kernel_smdk4412_write_def ret_eq bnd_def sys_ioctl_def sent_def received_def
      split: if_splits)

lemma smdk4412_read_cases:
  "xmm626_kernel_smdk4412_read fd n w = (r, w') \<Longrightarrow>
   (r = Done None \<and> w_heap w' = w_heap w \<and> received w' = received w) \<or>
   (\<exists>w1. sys_read n w1 = (r, w') \<and> w_heap w1 = w_heap w \<and> received w1 = received w)"
  by (auto simp: xmm626_kernel_smdk4412_read_def ret_eq bnd_def sys_ioctl_def received_def
      split: if_splits)

lemma sys_write_heap: "sys_write fd bs w = (r, w') \<Longrightarrow> w_heap w' = w_heap w"
  by (auto simp: sys_write_def Let_def split: if_splits)

lemma sys_read_heap: "sys_read n w = (r, w') \<Longrightarrow> w_heap w' = w_heap w"
  by (auto simp: sys_read_def Let_def split: option.splits)

interpretation smdk4412_out: modem_out "xmm626_kernel_smdk4412_write fd" "sent fd" "\<lambda>_. True" for fd
proof
  fix w w' :: world and bs rc r
  show "rc \<le> int (length bs) \<and> sent fd w' = sent fd w @ take (nat rc) bs"
    if "xmm626_kernel_smdk4412_write fd bs w = (Done rc, w')"
    using smdk4412_write_cases [OF that, of fd] fd_out.accepted [where fd = fd and bs = bs and rc = rc and w' = w'] by auto
  show "sent fd w' = sent fd w" if "xmm626_kernel_smdk4412_write fd bs w = (Fail, w')"
    using smdk4412_write_cases [OF that, of fd] fd_out.refused [where fd = fd and bs = bs and w' = w'] by auto
  show "xmm626_kernel_smdk4412_write fd bs w \<noteq> (Undef, w')"
    using smdk4412_write_cases [of fd bs w Undef w' fd] fd_out.defined [where fd = fd and bs = bs and w' = w'] by auto
qed simp

interpretation smdk4412_in: modem_in "xmm626_kernel_smdk4412_read fd" received "\<lambda>_. True" for fd
proof
  fix w w' :: world and n bs r
  show "length bs \<le> n \<and> received w' = received w @ bs"
    if "xmm626_kernel_smdk4412_read fd n w = (Done (Some bs), w')"
    using smdk4412_read_cases [OF that] fd_in.delivered [where n = n and bs = bs and w' = w'] by auto
  show "xmm626_kernel_smdk4412_read fd n w \<noteq> (Undef, w')"
    using smdk4412_read_cases [of fd n w Undef w'] fd_in.rd_defined [where n = n and w' = w'] by auto
qed simp

text \<open>The handlers do the same on the descriptor their object holds, and leave the object alone.\<close>

lemma heap_get_live: "w_heap w a = Some fd \<Longrightarrow> heap_get a w = (Done fd, w)"
  by (simp add: heap_get_def)

lemma i9300_write_live:
  "w_heap w a = Some fd \<Longrightarrow> i9300_write (Some a) bs w = xmm626_kernel_smdk4412_write fd bs w"
  by (simp add: i9300_write_def bnd_Done [OF heap_get_live])

lemma i9300_read_live:
  "w_heap w a = Some fd \<Longrightarrow> i9300_read (Some a) n w = xmm626_kernel_smdk4412_read fd n w"
  by (simp add: i9300_read_def bnd_Done [OF heap_get_live])

interpretation i9300_out: modem_out "i9300_write (Some a)" "sent fd" "\<lambda>w. w_heap w a = Some fd" for a fd
proof
  fix w w' :: world and bs rc r
  assume live: "w_heap w a = Some fd"
  show "rc \<le> int (length bs) \<and> sent fd w' = sent fd w @ take (nat rc) bs"
    if "i9300_write (Some a) bs w = (Done rc, w')"
    using that smdk4412_out.accepted by (simp add: i9300_write_live [OF live])
  show "sent fd w' = sent fd w" if "i9300_write (Some a) bs w = (Fail, w')"
    using that smdk4412_out.refused by (simp add: i9300_write_live [OF live])
  show "i9300_write (Some a) bs w \<noteq> (Undef, w')"
    using smdk4412_out.defined by (simp add: i9300_write_live [OF live])
  show "w_heap w' a = Some fd" if "i9300_write (Some a) bs w = (r, w')"
    using that live smdk4412_write_cases [of fd bs w r w' fd] sys_write_heap [of fd bs _ r w']
    by (auto simp: i9300_write_live [OF live])
qed

interpretation i9300_in: modem_in "i9300_read (Some a)" received "\<lambda>w. w_heap w a = Some fd" for a fd
proof
  fix w w' :: world and n bs r
  assume live: "w_heap w a = Some fd"
  show "length bs \<le> n \<and> received w' = received w @ bs"
    if "i9300_read (Some a) n w = (Done (Some bs), w')"
    using that smdk4412_in.delivered by (simp add: i9300_read_live [OF live])
  show "i9300_read (Some a) n w \<noteq> (Undef, w')"
    using smdk4412_in.rd_defined by (simp add: i9300_read_live [OF live])
  show "w_heap w' a = Some fd" if "i9300_read (Some a) n w = (r, w')"
    using that live smdk4412_read_cases [of fd n w r w'] sys_read_heap [of n _ r w']
    by (auto simp: i9300_read_live [OF live])
qed

section \<open>Frames\<close>

text \<open>
  A message whose data block has the size it announces; a message without data is sent as
  zeros. The bytes of its frames, written down independently of the code.
\<close>

definition msg_ok :: "ipc_message \<Rightarrow> bool" where
  "msg_ok m \<longleftrightarrow> (case msg_data m of None \<Rightarrow> True | Some d \<Rightarrow> length d = unat (msg_size m))"

definition msg_payload :: "ipc_message \<Rightarrow> u8 list" where
  "msg_payload m = (case msg_data m of None \<Rightarrow> calloc (unat (msg_size m)) | Some d \<Rightarrow> d)"

definition fmt_frame :: "ipc_message \<Rightarrow> u8 list" where
  "fmt_frame m = le16 (of_nat (unat (msg_size m) + 7)) @
     [msg_mseq m, msg_aseq m, IPC_GROUP (msg_command m), IPC_INDEX (msg_command m), msg_type m] @
     msg_payload m"

definition rfs_frame :: "ipc_message \<Rightarrow> u8 list" where
  "rfs_frame m = le32 (of_nat (unat (msg_size m) + 6)) @ [IPC_INDEX (msg_command m), msg_mseq m] @
     msg_payload m"

lemma length_msg_payload: "msg_ok m \<Longrightarrow> length (msg_payload m) = unat (msg_size m)"
  by (auto simp: msg_ok_def msg_payload_def split: option.splits)

lemma frame_buffer_ok:
  assumes "msg_ok m" and "len = length hdr + unat (msg_size m)"
  shows "frame_buffer len hdr m = Done (hdr @ msg_payload m)"
proof -
  have h: "poke 0 hdr (calloc len) = Done (hdr @ calloc (unat (msg_size m)))"
    using assms(2) by (simp add: poke_calloc0)
  show ?thesis
  proof (cases "msg_data m")
    case None
    with h show ?thesis by (simp add: frame_buffer_def msg_payload_def)
  next
    case (Some d)
    with assms(1) have d: "length d = unat (msg_size m)" by (simp add: msg_ok_def)
    have n: "unat (msg_size m) = length d" using d by simp
    have "0 < msg_size m \<longleftrightarrow> d \<noteq> []"
    proof -
      have "unat (msg_size m) = 0 \<longleftrightarrow> d = []" unfolding d [symmetric] by simp
      then show ?thesis by (simp add: word_gt_0 unat_eq_zero)
    qed
    moreover have "poke (length hdr) d (hdr @ calloc (length d)) = Done (hdr @ d)"
      by (simp add: poke_calloc)
    ultimately show ?thesis
      using h Some by (auto simp: frame_buffer_def msg_payload_def peek_def n)
  qed
qed


section \<open>Receiving\<close>

context modem_in
begin

lemma recv_first_Done:
  assumes "live w" and "recv_first rd hdr w = (Done bs, w')"
  shows "hdr \<le> length bs \<and> length bs \<le> XMM626_DATA_SIZE \<and> inp w' = inp w @ bs \<and> live w'"
proof -
  from assms(2) have rd: "rd XMM626_DATA_SIZE w = (Done (Some bs), w')" and "hdr \<le> length bs"
    by (auto simp: recv_first_def bnd_def ret_eq fail_eq undef_eq
        split: prod.splits outcome.splits option.splits if_splits)
  with delivered [OF assms(1) rd] rd_stays_live [OF assms(1) rd] show ?thesis by simp
qed

lemma recv_rest_Done:
  assumes "live w" and "hdr \<le> length bs" and "recv_rest rd hdr len bs m w = (Done m', w')"
  shows "if hdr < len
    then \<exists>more. inp w' = inp w @ more \<and> hdr + length (drop hdr bs @ more) = len \<and>
      m' = m\<lparr>msg_size := of_nat (len - hdr), msg_data := Some (drop hdr bs @ more)\<rparr>
    else inp w' = inp w \<and> m' = m"
proof (cases "hdr < len")
  case False
  with assms(3) show ?thesis by (simp add: recv_rest_def ret_eq)
next
  case True
  with assms(3) obtain buf d where
      fit: "poke 0 (drop hdr bs) (calloc (len - hdr)) = Done buf" and
      rl: "read_loop rd (len - hdr) (drop hdr bs) w = (Done d, w')" and
      m': "m' = m\<lparr>msg_size := of_nat (len - hdr), msg_data := Some d\<rparr>"
    by (auto simp: recv_rest_def io_Done Let_def)
  from fit have "length (drop hdr bs) \<le> len - hdr" by (simp add: poke_Done_iff)
  with read_loop_inp [OF rl assms(1)] obtain more where
      "d = drop hdr bs @ more" "inp w' = inp w @ more" "length d = len - hdr" by auto
  with True m' show ?thesis by auto
qed

text \<open>More bytes in the first read than the header announces run over the block.\<close>

lemma recv_rest_overflow:
  "hdr < len \<Longrightarrow> len < length bs \<Longrightarrow> recv_rest rd hdr len bs m w = (Undef, w)"
proof -
  assume "hdr < len" "len < length bs"
  then have "\<not> length bs - hdr \<le> len - hdr" by simp
  with \<open>hdr < len\<close> show ?thesis
    by (simp add: recv_rest_def Let_def bnd_def lift_outcome_eq poke_def)
qed

end

section \<open>Properties of the transports\<close>

text \<open>A client that uses the handlers of the i9300 with the object \<open>a\<close>.\<close>

definition i9300_client :: "client_env \<Rightarrow> nat \<Rightarrow> bool" where
  "i9300_client client a \<longleftrightarrow>
     handler_write client = Some (i9300_write (Some a)) \<and> handler_read client = Some (i9300_read (Some a))"

lemma fmt_header_of_message:
  assumes "unat (msg_size m) + 7 < 65536"
  shows "\<exists>h. ipc_fmt_header_setup (Some h0) (Some m) = Done h \<and>
    unat (fmt_length h) = unat (msg_size m) + 7 \<and> fmt_frame m = fmt_header_bytes h @ msg_payload m"
proof -
  let ?l = "ucast (msg_size m + of_nat sizeof_fmt_header) :: u16"
  have l: "unat ?l = unat (msg_size m) + 7" using assms by (simp add: unat_fmt_length)
  have "?l = of_nat (unat (msg_size m) + 7)"
    by (rule trans [of _ "of_nat (unat ?l)"]) (simp only: of_nat_unat_id, simp only: l)
  with l show ?thesis
    by (simp add: ipc_fmt_header_setup_def fmt_frame_def fmt_header_bytes_def)
qed

text \<open>
  Sending a message that fits a frame puts on the device's descriptor nothing but a prefix
  of its frame, whatever the kernel answers, and exactly its frame when it succeeds; the frame
  is the length, the sequence numbers, the command, the type and the data.
\<close>

theorem fmt_send_frame:
  assumes "i9300_client client a" and "w_heap w a = Some fd" and "msg_ok m"
    and "unat (msg_size m) + 7 < 65536"
    and "xmm626_kernel_smdk4412_fmt_send client (Some m) w = (r, w')"
  shows "r \<noteq> Undef \<and> (\<exists>n. sent fd w' = sent fd w @ take n (fmt_frame m)) \<and>
    (r = Done () \<longrightarrow> sent fd w' = sent fd w @ fmt_frame m)"
proof -
  from fmt_header_of_message [OF assms(4)] obtain h where
      h: "ipc_fmt_header_setup (Some (fmt_header_of (calloc 7))) (Some m) = Done h"
         "unat (fmt_length h) = unat (msg_size m) + 7" "fmt_frame m = fmt_header_bytes h @ msg_payload m"
    by blast
  have "frame_buffer (unat (fmt_length h)) (fmt_header_bytes h) m = Done (fmt_frame m)"
    using frame_buffer_ok [OF assms(3), of "unat (fmt_length h)" "fmt_header_bytes h"] h by simp
  then have "write_loop (i9300_write (Some a)) None (fmt_frame m) w = (r, w')"
    using assms(1,5) h(1)
    by (simp add: xmm626_kernel_smdk4412_fmt_send_def i9300_client_def bnd_def lift_outcome_eq)
  from i9300_out.write_loop_out [OF this assms(2)] show ?thesis by blast
qed

text \<open>A client of the i9300 with its transport data set, and the one the instances use.\<close>

definition i9300_env :: "int \<Rightarrow> ptr \<Rightarrow> client_env" where
  "i9300_env type td = \<lparr>cl_type = type, cl_log_callback = None, cl_log_data = None,
     cl_handlers = Some (i9300_handlers\<lparr>h_data := \<lparr>hd_transport = td, hd_power = None, hd_gprs = None\<rparr>\<rparr>),
     cl_gprs_specs = Some i9300_gprs_specs, cl_nv_data_specs = Some i9300_nv_data_specs\<rparr>"

abbreviation demo_i9300_env :: client_env where
  "demo_i9300_env \<equiv> i9300_env 0 (Some 1)"

lemma demo_i9300_client: "i9300_client demo_i9300_env 1"
  by (simp add: i9300_client_def i9300_env_def handler_write_def handler_read_def i9300_handlers_def)

text \<open>The NV data configuration of the i9300 is one the NV data store can rely on.\<close>

interpretation i9300_nv: nv_device md5 "i9300_env type td" "''/efs/nv_data.bin''"
  "''/efs/nv_data.bin.md5''" "''/efs/.nv_data.bak''" "''/efs/.nv_data.bak.md5''"
  "ascii ''Samsung_Android_RIL''" "0x200000" "0x1000" for md5 type td
  by unfold_locales (simp add: nv_configured_def nv_accessors i9300_env_def i9300_nv_data_specs_def)

text \<open>The modem is online and takes four bytes at a time.\<close>

definition demo_online :: world where
  "demo_online = demo_world\<lparr>w_heap := [1 \<mapsto> 3], w_ioc := sconst 4, w_wr := sconst 4\<rparr>"

definition demo_msg :: ipc_message where
  "demo_msg = \<lparr>msg_mseq = 1, msg_aseq = 0xff, msg_command = 0x0102, msg_type = 3,
     msg_data = Some [0xaa, 0xbb], msg_size = 2\<rparr>"

theorem fmt_send_frame_witness:
  "fst (xmm626_kernel_smdk4412_fmt_send demo_i9300_env (Some demo_msg) demo_online) \<noteq> Undef \<and>
   fmt_frame demo_msg = [9, 0, 1, 0xff, 1, 2, 3, 0xaa, 0xbb]"
proof -
  obtain r w' where s: "xmm626_kernel_smdk4412_fmt_send demo_i9300_env (Some demo_msg) demo_online = (r, w')"
    by fastforce
  have "w_heap demo_online 1 = Some 3" by (simp add: demo_online_def)
  moreover have "msg_ok demo_msg" "unat (msg_size demo_msg) + 7 < 65536"
    by (simp_all add: msg_ok_def demo_msg_def)
  moreover have "fmt_frame demo_msg = [9, 0, 1, 0xff, 1, 2, 3, 0xaa, 0xbb]" by code_simp
  ultimately show ?thesis using fmt_send_frame [OF demo_i9300_client _ _ _ s] s by simp
qed

text \<open>
  The length field has 16 bits: a message whose frame is longer gets a buffer of the truncated
  length, and the copy of its data runs over it.
\<close>

lemma fmt_send_overflow:
  assumes "i9300_client client a" and "msg_data m = Some d" and "length d = unat (msg_size m)"
    and "65536 \<le> unat (msg_size m) + 7" and "unat (msg_size m) + 7 < 2 ^ 32"
  shows "xmm626_kernel_smdk4412_fmt_send client (Some m) w = (Undef, w)"
proof -
  let ?l = "(unat (msg_size m) + 7) mod 65536"
  have "msg_size m \<noteq> 0" using assms(4) by auto
  then have gt: "0 < msg_size m" by (simp add: word_gt_0)
  have lt: "?l < length d + 7" using assms(3,4) by simp
  have "frame_buffer ?l hdr m = Undef" if "length hdr = 7" for hdr
    using lt gt assms(2,3) that
    by (cases "7 \<le> ?l") (auto simp: frame_buffer_def poke_calloc0 poke_def peek_def)
  then show ?thesis
    using assms(1)
    by (simp add: xmm626_kernel_smdk4412_fmt_send_def i9300_client_def bnd_def lift_outcome_eq
        ipc_fmt_header_setup_def unat_fmt_length)
qed


text \<open>
  A message that \<open>fmt_recv\<close> returns is the decoding of exactly the bytes it took from the
  modem: a header, and as its data all the bytes behind the header, as many as the header
  announces; if the header announces none, the message has no data (and whatever came with the
  header is dropped).
\<close>

theorem fmt_recv_decodes:
  assumes "i9300_client client a" and "w_heap w a = Some fd"
    and "xmm626_kernel_smdk4412_fmt_recv client (Some m0) w = (Done m, w')"
  shows "\<exists>h data. received w' = received w @ fmt_header_bytes h @ data \<and>
    msg_mseq m = fmt_mseq h \<and> msg_aseq m = fmt_aseq h \<and>
    msg_command m = IPC_COMMAND (fmt_group h) (fmt_index h) \<and> msg_type m = fmt_type h \<and>
    (if 7 < unat (fmt_length h)
     then msg_data m = Some data \<and> 7 + length data = unat (fmt_length h) \<and> unat (msg_size m) = length data
     else msg_data m = None \<and> msg_size m = 0)"
proof -
  from assms(1,3) obtain bs w1 m1 where
      first: "recv_first (i9300_read (Some a)) 7 w = (Done bs, w1)" and
      m1: "ipc_fmt_message_setup (Some (fmt_header_of bs)) (Some m0) = Done m1" and
      rest: "recv_rest (i9300_read (Some a)) 7 (unat (fmt_length (fmt_header_of bs))) bs m1 w1 = (Done m, w')"
    by (auto simp: xmm626_kernel_smdk4412_fmt_recv_def i9300_client_def io_Done Let_def sizeof_fmt_header_def)
  from i9300_in.recv_first_Done [OF assms(2) first] have len: "7 \<le> length bs"
    and in1: "received w1 = received w @ bs" and live: "w_heap w1 a = Some fd" by auto
  let ?h = "fmt_header_of bs"
  have bs: "bs = fmt_header_bytes ?h @ drop 7 bs"
    using fmt_header_bytes_of [OF len] by (metis append_take_drop_id)
  have lt: "unat (fmt_length ?h) < 65536" by (rule unat_u16_less)
  show ?thesis
  proof (cases "7 < unat (fmt_length ?h)")
    case True
    with i9300_in.recv_rest_Done [OF live len rest] obtain more where
        more: "received w' = received w1 @ more" "7 + length (drop 7 bs @ more) = unat (fmt_length ?h)"
        "m = m1\<lparr>msg_size := of_nat (unat (fmt_length ?h) - 7), msg_data := Some (drop 7 bs @ more)\<rparr>"
      by auto
    have "received w' = received w @ fmt_header_bytes ?h @ drop 7 bs @ more"
      using more(1) in1 bs by (metis append.assoc)
    moreover have "unat (of_nat (unat (fmt_length ?h) - 7) :: u32) = unat (fmt_length ?h) - 7"
      using lt by (simp add: unat_of_nat)
    ultimately show ?thesis
      using more m1 True
      by (intro exI [of _ ?h] exI [of _ "drop 7 bs @ more"]) (auto simp: ipc_fmt_message_setup_def)
  next
    case False
    with i9300_in.recv_rest_Done [OF live len rest] have "received w' = received w1" "m = m1" by auto
    moreover have "received w1 = received w @ fmt_header_bytes ?h @ drop 7 bs" using in1 bs by metis
    ultimately show ?thesis
      using m1 False
      by (intro exI [of _ ?h] exI [of _ "drop 7 bs"]) (auto simp: ipc_fmt_message_setup_def)
  qed
qed

text \<open>Receiving a frame that arrives in one read while the modem is online.\<close>

lemma i9300_read_online:
  assumes "w_heap w a = Some fd" and "0 \<le> fd" and "0 < n" and "shd (w_ioc w) = STATE_ONLINE"
    and "shd (w_rd w) = Some bs" and "length bs \<le> n"
  shows "\<exists>w'. i9300_read (Some a) n w = (Done (Some bs), w')"
  using assms
  by (simp add: i9300_read_live xmm626_kernel_smdk4412_read_def bnd_def sys_ioctl_def sys_read_def
      STATE_ONLINE_def Let_def)

lemma recv_whole_frame:
  assumes "rd XMM626_DATA_SIZE w = (Done (Some (hdr @ data)), w')" and "length (hdr @ data) \<le> XMM626_DATA_SIZE"
    and "length hdr = n"
  shows "recv_first rd n w = (Done (hdr @ data), w')"
    and "recv_rest rd n (n + length data) (hdr @ data) m w' =
      (Done (if data = [] then m else m\<lparr>msg_size := of_nat (length data), msg_data := Some data\<rparr>), w')"
  using assms
  by (auto simp: recv_first_def recv_rest_def bnd_def ret_eq lift_outcome_eq poke_def Let_def
      read_loop.simps [of rd])

lemma fmt_recv_frame:
  assumes m: "msg_ok m" "unat (msg_size m) \<le> 4089"
    and recv: "i9300_client client b" "w_heap w b = Some fd" "0 \<le> fd" "shd (w_ioc w) = STATE_ONLINE"
    and wire: "shd (w_rd w) = Some (fmt_frame m)"
  shows "\<exists>w'. xmm626_kernel_smdk4412_fmt_recv client (Some m0) w =
    (Done (m\<lparr>msg_data := (if msg_size m = 0 then None else Some (msg_payload m))\<rparr>), w')"
proof -
  from m(2) fmt_header_of_message [of m "fmt_header_of (calloc 7)"] obtain h where
      h: "ipc_fmt_header_setup (Some (fmt_header_of (calloc 7))) (Some m) = Done h"
         "unat (fmt_length h) = unat (msg_size m) + 7" "fmt_frame m = fmt_header_bytes h @ msg_payload m"
    by auto
  have len: "length (msg_payload m) = unat (msg_size m)" by (rule length_msg_payload [OF m(1)])
  have le: "length (fmt_header_bytes h @ msg_payload m) \<le> XMM626_DATA_SIZE"
    using m(2) by (simp add: len XMM626_DATA_SIZE_def)
  from i9300_read_online [OF recv(2,3) _ recv(4) wire [unfolded h(3)] le] obtain w1 where
      rd: "i9300_read (Some b) XMM626_DATA_SIZE w = (Done (Some (fmt_header_bytes h @ msg_payload m)), w1)"
    by (auto simp: XMM626_DATA_SIZE_def)
  note whole = recv_whole_frame [where hdr = "fmt_header_bytes h" and rd = "i9300_read (Some b)",
      OF rd le length_fmt_header_bytes]
  obtain m1 where m1: "ipc_fmt_message_setup (Some h) (Some m0) = Done m1"
      "m1 = m\<lparr>msg_data := None, msg_size := 0\<rparr>"
    using h(1) by (auto simp: ipc_fmt_header_setup_def ipc_fmt_message_setup_def)
  have z: "msg_payload m = [] \<longleftrightarrow> msg_size m = 0" using len by (auto simp flip: unat_eq_zero)
  have "xmm626_kernel_smdk4412_fmt_recv client (Some m0) w =
      recv_rest (i9300_read (Some b)) 7 (7 + length (msg_payload m))
        (fmt_header_bytes h @ msg_payload m) m1 w1"
    using recv(1) whole(1) m1(1) h(2)
    by (simp add: xmm626_kernel_smdk4412_fmt_recv_def i9300_client_def sizeof_fmt_header_def bnd_def
        fmt_header_of_bytes lift_outcome_eq Let_def len add.commute)
  with whole(2) z m1(2) show ?thesis by (auto simp: len of_nat_unat_id)
qed

text \<open>Sending a frame that the kernel accepts in one call.\<close>

lemma i9300_write_online:
  assumes "w_heap w a = Some fd" and "0 \<le> fd" and "bs \<noteq> []" and "shd (w_ioc w) = STATE_ONLINE"
    and "int (length bs) \<le> shd (w_wr w)"
  shows "\<exists>w'. i9300_write (Some a) bs w = (Done (int (length bs)), w')"
  using assms
  by (simp add: i9300_write_live xmm626_kernel_smdk4412_write_def bnd_def sys_ioctl_def sys_write_def
      STATE_ONLINE_def Let_def)

lemma write_loop_one:
  "wr p w = (Done (int (length p)), w') \<Longrightarrow> p \<noteq> [] \<Longrightarrow> write_loop wr None p w = (Done (), w')"
  by (simp add: write_loop.simps [of wr None p] write_loop.simps [of wr None "[]"])

lemma fmt_send_online:
  assumes "msg_ok m" and "unat (msg_size m) + 7 < 65536" and "i9300_client client a"
    and "w_heap w a = Some fd" "0 \<le> fd" "shd (w_ioc w) = STATE_ONLINE"
    and "int (unat (msg_size m) + 7) \<le> shd (w_wr w)"
  shows "\<exists>w'. xmm626_kernel_smdk4412_fmt_send client (Some m) w = (Done (), w')"
proof -
  from fmt_header_of_message [OF assms(2)] obtain h where
      h: "ipc_fmt_header_setup (Some (fmt_header_of (calloc 7))) (Some m) = Done h"
         "unat (fmt_length h) = unat (msg_size m) + 7" "fmt_frame m = fmt_header_bytes h @ msg_payload m"
    by blast
  have "frame_buffer (unat (fmt_length h)) (fmt_header_bytes h) m = Done (fmt_frame m)"
    using frame_buffer_ok [OF assms(1), of "unat (fmt_length h)" "fmt_header_bytes h"] h by simp
  moreover have len: "length (fmt_frame m) = unat (msg_size m) + 7"
    using h(3) length_msg_payload [OF assms(1)] by simp
  then have ne: "fmt_frame m \<noteq> []" by auto
  obtain w' where "i9300_write (Some a) (fmt_frame m) w = (Done (int (length (fmt_frame m))), w')"
    using i9300_write_online [OF assms(4,5) ne assms(6)] assms(7) len by auto
  from write_loop_one [of "i9300_write (Some a)", OF this ne] calculation show ?thesis
    using assms(3) h(1)
    by (simp add: xmm626_kernel_smdk4412_fmt_send_def i9300_client_def bnd_def lift_outcome_eq)
qed

text \<open>Receiving a frame that arrives in pieces: the modem is asked for its state before each read.\<close>

lemma i9300_read_piece:
  assumes "w_heap w b = Some fd" "0 \<le> fd" "0 < n" "length c \<le> n" "w_rd w = map Some (c # cs) @- rest"
    and "\<forall>x \<in> set (stake (length (c # cs)) (w_ioc w)). x = STATE_ONLINE \<or> x = STATE_BOOTING"
  shows "\<exists>w'. i9300_read (Some b) n w = (Done (Some c), w') \<and> w_heap w' = w_heap w \<and> w_rd w' = map Some cs @- rest \<and>
    w_ioc w' = stl (w_ioc w)"
  using assms
  by (simp add: i9300_read_live xmm626_kernel_smdk4412_read_def bnd_def sys_ioctl_def sys_read_def Let_def) blast

lemma read_loop_pieces:
  "w_heap w b = Some fd \<Longrightarrow> 0 \<le> fd \<Longrightarrow> [] \<notin> set cs \<Longrightarrow> length acc + length (concat cs) = sz \<Longrightarrow> w_rd w = map Some cs @- rest \<Longrightarrow>
   \<forall>x \<in> set (stake (length cs) (w_ioc w)). x = STATE_ONLINE \<or> x = STATE_BOOTING \<Longrightarrow>
   \<exists>w'. read_loop (i9300_read (Some b)) sz acc w = (Done (acc @ concat cs), w')"
proof (induction cs arbitrary: acc w)
  case Nil
  then show ?case by (simp add: read_loop.simps [of _ sz])
next
  case (Cons c cs)
  have c: "c \<noteq> []" "length acc < sz" "length c \<le> sz - length acc" "length acc + length c \<le> sz"
    using Cons.prems(3,4) by auto
  obtain w1 where w1: "i9300_read (Some b) (sz - length acc) w = (Done (Some c), w1)" "w_heap w1 = w_heap w"
    "w_rd w1 = map Some cs @- rest" "w_ioc w1 = stl (w_ioc w)"
    using i9300_read_piece [OF Cons.prems(1,2) _ c(3) Cons.prems(5,6)] c(2) by auto
  have "\<exists>w'. read_loop (i9300_read (Some b)) sz (acc @ c) w1 = (Done ((acc @ c) @ concat cs), w')"
    using Cons.prems w1 by (intro Cons.IH) auto
  moreover have "read_loop (i9300_read (Some b)) sz acc w = read_loop (i9300_read (Some b)) sz (acc @ c) w1"
    using c w1(1) by (simp add: read_loop.simps [of _ sz acc])
  ultimately show ?case by simp
qed

lemma recv_pieces:
  assumes live: "w_heap w b = Some fd" "0 \<le> fd" and cs: "w_rd w = map Some (c # cs) @- rest" "[] \<notin> set cs"
    and frame: "concat (c # cs) = hdr @ data" "length hdr = n" "n \<le> length c" "length c \<le> XMM626_DATA_SIZE"
    and online: "\<forall>x \<in> set (stake (length (c # cs)) (w_ioc w)). x = STATE_ONLINE \<or> x = STATE_BOOTING"
  shows "\<exists>v1 v2. recv_first (i9300_read (Some b)) n w = (Done c, v1) \<and> c = hdr @ drop n c \<and>
    (\<forall>m. recv_rest (i9300_read (Some b)) n (n + length data) c m v1 =
      (Done (if data = [] then m else m\<lparr>msg_size := of_nat (length data), msg_data := Some data\<rparr>), v2))"
proof -
  have "0 < XMM626_DATA_SIZE" by (simp add: XMM626_DATA_SIZE_def)
  from i9300_read_piece [OF live this frame(4) cs(1) online] obtain v1 where
    v1: "i9300_read (Some b) XMM626_DATA_SIZE w = (Done (Some c), v1)" "w_heap v1 = w_heap w" "w_rd v1 = map Some cs @- rest"
      "w_ioc v1 = stl (w_ioc w)" by blast
  have c: "c = hdr @ drop n c" "drop n c @ concat cs = data"
    using frame(1-3) by (auto simp: append_eq_append_conv2 intro: append_take_drop_id)
  have first: "recv_first (i9300_read (Some b)) n w = (Done c, v1)"
    using v1(1) frame(3,4) by (simp add: recv_first_def bnd_def ret_eq)
  show ?thesis
  proof (cases "data = []")
    case True
    with first c(1) show ?thesis by (intro exI [of _ v1]) (simp add: recv_rest_def ret_eq)
  next
    case False
    have len: "length (drop n c) + length (concat cs) = length data" by (simp flip: c(2))
    from read_loop_pieces [of v1 b fd cs "drop n c" "length data" rest, OF _ live(2) cs(2) len v1(3)] v1 online live(1)
    obtain v2 where l: "read_loop (i9300_read (Some b)) (length data) (drop n c) v1 = (Done data, v2)"
      using c(2) by auto
    have "poke 0 (drop n c) (calloc (length data)) \<noteq> Fail \<and> poke 0 (drop n c) (calloc (length data)) \<noteq> Undef"
      using len by (auto simp: poke_def)
    then obtain buf where "poke 0 (drop n c) (calloc (length data)) = Done buf" by (cases "poke 0 (drop n c) (calloc (length data))") auto
    with l False first c(1) show ?thesis
      by (intro exI [of _ v1] exI [of _ v2]) (simp add: recv_rest_def Let_def bnd_def lift_outcome_eq ret_eq)
  qed
qed

text \<open>
  C12: the transport is lossless: when what a successful send of a message put on the wire, however many
  writes that took, arrives at a receiver in pieces, \<open>fmt_recv\<close> returns the sender's message. The message
  has to fit the 16 bits of the length in its header. The frame may be cut anywhere into pieces that are
  not empty, if the first has the header and fits the buffer of 4096 bytes; each read gives one of them,
  and before each the modem says that it is online or booting.
\<close>

theorem fmt_send_recv:
  assumes send: "i9300_client client a" "w_heap w a = Some fd" "msg_ok m" "unat (msg_size m) + 7 < 65536"
      "xmm626_kernel_smdk4412_fmt_send client (Some m) w = (Done (), w1)"
    and recv: "i9300_client client' b" "w_heap w2 b = Some fd'" "0 \<le> fd'"
      "\<forall>x \<in> set (stake (length (c # cs)) (w_ioc w2)). x = STATE_ONLINE \<or> x = STATE_BOOTING"
    and wire: "sent fd w1 = sent fd w @ concat (c # cs)" "w_rd w2 = map Some (c # cs) @- rest"
      "7 \<le> length c" "length c \<le> XMM626_DATA_SIZE" "[] \<notin> set cs"
  shows "\<exists>w3. xmm626_kernel_smdk4412_fmt_recv client' (Some m0) w2 =
    (Done (m\<lparr>msg_data := (if msg_size m = 0 then None else Some (msg_payload m))\<rparr>), w3)"
proof -
  from fmt_header_of_message [OF send(4)] obtain h where
      h: "ipc_fmt_header_setup (Some (fmt_header_of (calloc 7))) (Some m) = Done h"
         "unat (fmt_length h) = unat (msg_size m) + 7" "fmt_frame m = fmt_header_bytes h @ msg_payload m"
    by blast
  have len: "length (msg_payload m) = unat (msg_size m)" by (rule length_msg_payload [OF send(3)])
  have "frame_buffer (unat (fmt_length h)) (fmt_header_bytes h) m = Done (fmt_frame m)"
    using frame_buffer_ok [OF send(3), of "unat (fmt_length h)" "fmt_header_bytes h"] h by simp
  then have "write_loop (i9300_write (Some a)) None (fmt_frame m) w = (Done (), w1)"
    using send(1,5) h(1)
    by (simp add: xmm626_kernel_smdk4412_fmt_send_def i9300_client_def bnd_def lift_outcome_eq)
  from i9300_out.write_loop_out [OF this send(2)] wire(1) have frame: "concat (c # cs) = fmt_frame m" by simp
  from recv_pieces [OF recv(2,3) wire(2,5) frame [unfolded h(3)] length_fmt_header_bytes wire(3,4) recv(4)]
  obtain v1 v2 where first: "recv_first (i9300_read (Some b)) 7 w2 = (Done c, v1)" and c: "c = fmt_header_bytes h @ drop 7 c"
    and last: "\<And>m'. recv_rest (i9300_read (Some b)) 7 (7 + length (msg_payload m)) c m' v1 =
      (Done (if msg_payload m = [] then m' else m'\<lparr>msg_size := of_nat (length (msg_payload m)), msg_data := Some (msg_payload m)\<rparr>), v2)"
    by blast
  have hdr: "fmt_header_of c = h" by (subst c, rule fmt_header_of_bytes)
  have m1: "ipc_fmt_message_setup (Some h) (Some m0) = Done (m\<lparr>msg_data := None, msg_size := 0\<rparr>)"
    using h(1) by (auto simp: ipc_fmt_header_setup_def ipc_fmt_message_setup_def)
  have z: "msg_payload m = [] \<longleftrightarrow> msg_size m = 0" using len by (auto simp flip: unat_eq_zero)
  have "xmm626_kernel_smdk4412_fmt_recv client' (Some m0) w2 =
      recv_rest (i9300_read (Some b)) 7 (7 + length (msg_payload m)) c (m\<lparr>msg_data := None, msg_size := 0\<rparr>) v1"
    using recv(1) first m1 h(2) hdr
    by (simp add: xmm626_kernel_smdk4412_fmt_recv_def i9300_client_def sizeof_fmt_header_def bnd_def
        lift_outcome_eq Let_def len add.commute)
  with last z show ?thesis by (auto simp: len of_nat_unat_id)
qed

text \<open>Worlds in which the modem is online, and sends one frame.\<close>

definition demo_tx :: world where
  "demo_tx = demo_online\<lparr>w_wr := sconst 100\<rparr>"

definition demo_rx :: world where
  "demo_rx = demo_online\<lparr>w_rd := sconst (Some (fmt_frame demo_msg))\<rparr>"

lemma demo_msg_ok: "msg_ok demo_msg" "unat (msg_size demo_msg) \<le> 4089" "unat (msg_size demo_msg) + 7 < 65536"
  by (simp_all add: msg_ok_def demo_msg_def)

lemma demo_tx_rx:
  "w_heap demo_tx 1 = Some 3" "shd (w_ioc demo_tx) = STATE_ONLINE" "shd (w_wr demo_tx) = 100"
  "w_heap demo_rx 1 = Some 3" "shd (w_ioc demo_rx) = STATE_ONLINE"
  "shd (w_rd demo_rx) = Some (fmt_frame demo_msg)"
  by (simp_all add: demo_tx_def demo_rx_def demo_online_def STATE_ONLINE_def)

theorem fmt_recv_decodes_witness:
  "\<exists>m w' h data. xmm626_kernel_smdk4412_fmt_recv demo_i9300_env (Some demo_msg) demo_rx = (Done m, w') \<and>
     received w' = received demo_rx @ fmt_header_bytes h @ data \<and> msg_type m = fmt_type h"
proof -
  obtain m w' where r: "xmm626_kernel_smdk4412_fmt_recv demo_i9300_env (Some demo_msg) demo_rx = (Done m, w')"
    using fmt_recv_frame [OF demo_msg_ok(1,2) demo_i9300_client demo_tx_rx(4) _ demo_tx_rx(5,6), of demo_msg]
    by auto
  from fmt_recv_decodes [OF demo_i9300_client demo_tx_rx(4) r] r show ?thesis by blast
qed

text \<open>The frame of nine bytes in three pieces.\<close>

theorem fmt_send_recv_witness:
  "\<exists>w3. xmm626_kernel_smdk4412_fmt_recv demo_i9300_env (Some demo_msg)
       (demo_online\<lparr>w_rd := map Some [[9, 0, 1, 0xff, 1, 2, 3], [0xaa], [0xbb]] @- sconst None\<rparr>) =
     (Done (demo_msg\<lparr>msg_data := Some [0xaa, 0xbb]\<rparr>), w3)"
proof -
  let ?pieces = "[[9, 0, 1, 0xff, 1, 2, 3], [0xaa], [0xbb]] :: u8 list list"
  let ?w2 = "demo_online\<lparr>w_rd := map Some ?pieces @- sconst None\<rparr>"
  have "int (unat (msg_size demo_msg) + 7) \<le> shd (w_wr demo_tx)"
    unfolding demo_tx_rx by (simp add: demo_msg_def)
  from fmt_send_online [OF demo_msg_ok(1,3) demo_i9300_client demo_tx_rx(1) _ demo_tx_rx(2) this]
  obtain w1 where s: "xmm626_kernel_smdk4412_fmt_send demo_i9300_env (Some demo_msg) demo_tx = (Done (), w1)"
    by auto
  have "fmt_frame demo_msg = concat ?pieces" by code_simp
  with fmt_send_frame [OF demo_i9300_client demo_tx_rx(1) demo_msg_ok(1,3) s]
  have "sent 3 w1 = sent 3 demo_tx @ concat ?pieces" by simp
  from fmt_send_recv [OF demo_i9300_client demo_tx_rx(1) demo_msg_ok(1,3) s demo_i9300_client _ _ _ this,
      where ?w2.0 = ?w2 and fd' = 3 and rest = "sconst None" and ?m0.0 = demo_msg]
  show ?thesis by (simp add: msg_payload_def demo_msg_def demo_online_def XMM626_DATA_SIZE_def STATE_ONLINE_def)
qed

text \<open>
  RFS messages: sending one whose frame fits 32 bits puts on the descriptor nothing but a
  prefix of its frame, and the whole frame when it succeeds; a received one is the decoding of
  exactly the bytes taken from the modem, its length never above the limit of 0x80000.
\<close>

theorem rfs_transport:
  assumes "i9300_client client a" and "w_heap w a = Some fd"
  shows "(msg_ok m \<and> unat (msg_size m) + 6 < 2 ^ 32 \<and>
      xmm626_kernel_smdk4412_rfs_send client (Some m) w = (r, w') \<longrightarrow>
      r \<noteq> Undef \<and> (\<exists>n. sent fd w' = sent fd w @ take n (rfs_frame m)) \<and>
      (r = Done () \<longrightarrow> sent fd w' = sent fd w @ rfs_frame m)) \<and>
    (xmm626_kernel_smdk4412_rfs_recv client (Some m0) w = (Done m', w2) \<longrightarrow>
      (\<exists>h data. received w2 = received w @ rfs_header_bytes h @ data \<and> unat (rfs_length h) \<le> 0x80000 \<and>
        msg_aseq m' = rfs_id h \<and> msg_command m' = IPC_COMMAND IPC_GROUP_RFS (rfs_index h) \<and>
        (if 6 < unat (rfs_length h)
         then msg_data m' = Some data \<and> 6 + length data = unat (rfs_length h) \<and>
           unat (msg_size m') = length data
         else msg_data m' = None \<and> msg_size m' = 0)))"
proof (intro conjI impI; (elim conjE)?)
  assume ok: "msg_ok m" and fits: "unat (msg_size m) + 6 < 2 ^ 32"
    and s: "xmm626_kernel_smdk4412_rfs_send client (Some m) w = (r, w')"
  let ?h = "\<lparr>rfs_length = of_nat (unat (msg_size m) + 6), rfs_index = IPC_INDEX (msg_command m),
      rfs_id = msg_mseq m\<rparr>"
  have l: "unat (rfs_length ?h) = unat (msg_size m) + 6" using fits by (simp only: ipc_rfs_header.simps unat_of_nat) simp
  have h: "ipc_rfs_header_setup (Some (rfs_header_of (calloc 6))) (Some m) = Done ?h"
    by (simp add: ipc_rfs_header_setup_def sizeof_rfs_header_def)
  have f: "rfs_frame m = rfs_header_bytes ?h @ msg_payload m"
    by (simp add: rfs_frame_def rfs_header_bytes_def)
  have "frame_buffer (unat (rfs_length ?h)) (rfs_header_bytes ?h) m = Done (rfs_frame m)"
    unfolding f by (rule frame_buffer_ok [OF ok]) (simp only: l length_rfs_header_bytes add.commute)
  then have "write_loop (i9300_write (Some a)) None (rfs_frame m) w = (r, w')"
    using assms(1) s h
    by (simp add: xmm626_kernel_smdk4412_rfs_send_def i9300_client_def bnd_def lift_outcome_eq)
  from i9300_out.write_loop_out [OF this assms(2)]
  show "r \<noteq> Undef" and "\<exists>n. sent fd w' = sent fd w @ take n (rfs_frame m)"
    and "r = Done () \<Longrightarrow> sent fd w' = sent fd w @ rfs_frame m" by blast+
next
  assume r: "xmm626_kernel_smdk4412_rfs_recv client (Some m0) w = (Done m', w2)"
  from r assms(1) obtain bs w1 m1 where
      first: "recv_first (i9300_read (Some a)) 6 w = (Done bs, w1)" and
      lim: "unat (rfs_length (rfs_header_of bs)) \<le> 0x80000" and
      m1: "ipc_rfs_message_setup (Some (rfs_header_of bs)) (Some m0) = Done m1" and
      rest: "recv_rest (i9300_read (Some a)) 6 (unat (rfs_length (rfs_header_of bs))) bs m1 w1 = (Done m', w2)"
    by (auto simp: xmm626_kernel_smdk4412_rfs_recv_def i9300_client_def io_Done Let_def
        sizeof_rfs_header_def XMM626_DATA_SIZE_LIMIT_def)
  from i9300_in.recv_first_Done [OF assms(2) first] have len: "6 \<le> length bs"
    and in1: "received w1 = received w @ bs" and live: "w_heap w1 a = Some fd" by auto
  let ?h = "rfs_header_of bs"
  have bs: "bs = rfs_header_bytes ?h @ drop 6 bs"
    using rfs_header_bytes_of [OF len] by (metis append_take_drop_id)
  show "\<exists>h data. received w2 = received w @ rfs_header_bytes h @ data \<and> unat (rfs_length h) \<le> 0x80000 \<and>
        msg_aseq m' = rfs_id h \<and> msg_command m' = IPC_COMMAND IPC_GROUP_RFS (rfs_index h) \<and>
        (if 6 < unat (rfs_length h)
         then msg_data m' = Some data \<and> 6 + length data = unat (rfs_length h) \<and>
           unat (msg_size m') = length data
         else msg_data m' = None \<and> msg_size m' = 0)"
  proof (cases "6 < unat (rfs_length ?h)")
    case True
    with i9300_in.recv_rest_Done [OF live len rest] obtain more where
        more: "received w2 = received w1 @ more" "6 + length (drop 6 bs @ more) = unat (rfs_length ?h)"
        "m' = m1\<lparr>msg_size := of_nat (unat (rfs_length ?h) - 6), msg_data := Some (drop 6 bs @ more)\<rparr>"
      by auto
    have "received w2 = received w @ rfs_header_bytes ?h @ drop 6 bs @ more"
      using more(1) in1 bs by (metis append.assoc)
    moreover have "unat (of_nat (unat (rfs_length ?h) - 6) :: u32) = unat (rfs_length ?h) - 6"
      using lim by (simp only: unat_of_nat) simp
    ultimately show ?thesis
      using more m1 True lim
      by (intro exI [of _ ?h] exI [of _ "drop 6 bs @ more"]) (auto simp: ipc_rfs_message_setup_def)
  next
    case False
    with i9300_in.recv_rest_Done [OF live len rest] have "received w2 = received w1" "m' = m1" by auto
    moreover have "received w1 = received w @ rfs_header_bytes ?h @ drop 6 bs" using in1 bs by metis
    ultimately show ?thesis
      using m1 False lim
      by (intro exI [of _ ?h] exI [of _ "drop 6 bs"]) (auto simp: ipc_rfs_message_setup_def)
  qed
qed

theorem rfs_transport_witness:
  "fst (xmm626_kernel_smdk4412_rfs_send demo_i9300_env (Some demo_msg) demo_tx) \<noteq> Undef \<and>
   rfs_frame demo_msg = [8, 0, 0, 0, 2, 1, 0xaa, 0xbb]"
proof -
  obtain r w' where s: "xmm626_kernel_smdk4412_rfs_send demo_i9300_env (Some demo_msg) demo_tx = (r, w')"
    by fastforce
  have "unat (msg_size demo_msg) + 6 < 2 ^ 32" by (simp add: demo_msg_def)
  moreover have "rfs_frame demo_msg = [8, 0, 0, 0, 2, 1, 0xaa, 0xbb]" by code_simp
  ultimately show ?thesis
    using rfs_transport [OF demo_i9300_client demo_tx_rx(1), of demo_msg r w'] s demo_msg_ok(1) by simp
qed

text \<open>
  A first read that brings more than the header announces (two messages in one read are enough)
  is copied past the end of the block for the first message's data.
\<close>

lemma fmt_recv_overflow:
  assumes "i9300_client client b" and "w_heap w b = Some fd" "0 \<le> fd" "shd (w_ioc w) = STATE_ONLINE"
    and "msg_ok m" "0 < unat (msg_size m)" "extra \<noteq> []"
    and "length (fmt_frame m @ extra) \<le> 4096" and "shd (w_rd w) = Some (fmt_frame m @ extra)"
  shows "\<exists>w'. xmm626_kernel_smdk4412_fmt_recv client (Some m0) w = (Undef, w')"
proof -
  have len: "length (msg_payload m) = unat (msg_size m)" by (rule length_msg_payload [OF assms(5)])
  have fl: "length (fmt_frame m) = unat (msg_size m) + 7" by (simp add: fmt_frame_def len)
  then have "unat (msg_size m) + 7 < 65536" using assms(8) by simp
  with fmt_header_of_message [of m "fmt_header_of (calloc 7)"] obtain h where
      h: "unat (fmt_length h) = unat (msg_size m) + 7" "fmt_frame m = fmt_header_bytes h @ msg_payload m"
    by blast
  have le: "length (fmt_frame m @ extra) \<le> XMM626_DATA_SIZE" using assms(8) by (simp add: XMM626_DATA_SIZE_def)
  from i9300_read_online [OF assms(2,3) _ assms(4,9) le] obtain w1 where
      rd: "i9300_read (Some b) XMM626_DATA_SIZE w = (Done (Some (fmt_header_bytes h @ msg_payload m @ extra)), w1)"
    by (auto simp: XMM626_DATA_SIZE_def h(2))
  have "length (fmt_header_bytes h @ msg_payload m @ extra) \<le> XMM626_DATA_SIZE" using le by (simp add: h(2))
  note first = recv_whole_frame(1) [where hdr = "fmt_header_bytes h" and rd = "i9300_read (Some b)",
      OF rd this length_fmt_header_bytes]
  have "length extra > 0" using assms(7) by simp
  then have "recv_rest (i9300_read (Some b)) 7 (unat (msg_size m) + 7)
      (fmt_header_bytes h @ msg_payload m @ extra) m1 w1 = (Undef, w1)" for m1
    by (intro i9300_in.recv_rest_overflow) (use assms(6) in \<open>simp_all add: len\<close>)
  with first show ?thesis
    using assms(1) h(1)
    by (simp add: xmm626_kernel_smdk4412_fmt_recv_def i9300_client_def sizeof_fmt_header_def bnd_def
        fmt_header_of_bytes lift_outcome_eq Let_def ipc_fmt_message_setup_def)
qed


section \<open>Polling and interfaces\<close>

lemma length_filter_not: "length (filter (\<lambda>y. y \<notin> R) xs) + length (filter (\<lambda>y. y \<in> R) xs) = length xs"
  using sum_length_filter_compl [of "\<lambda>y. y \<in> R" xs] by simp

text \<open>
  Polling with valid descriptors never touches memory it should not; when it returns, each
  entry of the array holds its descriptor if that is ready and -1 if not, and \<open>count\<close> is the
  number of ready entries (while these stay at their old places in the array).
\<close>

theorem poll_marks_ready:
  assumes "fd_set_ok fd" and "\<forall>y \<in> set xs. fd_set_ok y" and "length xs < 2 ^ 32"
    and "xmm626_kernel_smdk4412_poll fd (Some \<lparr>pf_fds = Some xs, pf_count = of_nat (length xs)\<rparr>) w = (r, w')"
  shows "r \<noteq> Undef \<and> (\<forall>rc q. r = Done (rc, q) \<longrightarrow>
    (\<exists>R. q = Some \<lparr>pf_fds = Some (map (\<lambda>y. if y \<in> R then y else -1) xs),
             pf_count = of_nat (length (filter (\<lambda>y. y \<in> R) xs))\<rparr> \<and>
       (0 \<le> shd (w_sel w) \<longrightarrow> (\<forall>y \<in> set xs. y \<in> R \<longleftrightarrow> y \<in> set (shd (w_ready w))))))"
proof -
  let ?p = "\<lparr>pf_fds = Some xs, pf_count = of_nat (length xs) :: u32\<rparr>"
  have n: "unat (of_nat (length xs) :: u32) = length xs" using assms(3) by (simp only: unat_of_nat) simp
  have fd: "\<not> fd < 0" using assms(1) by (simp add: fd_set_ok_def)
  have pos: "filter (\<lambda>x. 0 \<le> x) xs = xs" using assms(2) by (auto simp: fd_set_ok_def filter_id_conv)
  have set: "poll_set fd (Some ?p) = Done (fd # xs)"
    using assms(1,2) by (simp add: poll_set_def n pos)
  have "\<exists>rc ready w1. sys_select_set (fd # xs) w = (Done (rc, ready), w1)"
    by (cases "shd (w_sel w) < 0") (simp_all add: sys_select_set_def Let_def)
  then obtain rc ready w1 where sel: "sys_select_set (fd # xs) w = (Done (rc, ready), w1)" by blast
  have rdy: "y \<in> set ready \<longleftrightarrow> y \<in> set (shd (w_ready w))" if "0 \<le> shd (w_sel w)" "y \<in> set xs" for y
    using sel that by (auto simp: sys_select_set_def Let_def split: if_splits)
  have diff: "of_nat (length xs) - of_nat (length (filter (\<lambda>y. y \<notin> set ready) xs)) =
      (of_nat (length (filter (\<lambda>y. y \<in> set ready) xs)) :: u32)"
    by (simp flip: length_filter_not [of "set ready" xs])
  have res: "poll_result ready (Some ?p) = Done (Some \<lparr>pf_fds = Some (map (\<lambda>y. if y \<in> set ready then y else -1) xs),
      pf_count = of_nat (length (filter (\<lambda>y. y \<in> set ready) xs))\<rparr>)"
    using assms(2) by (simp add: poll_result_def n diff)
  have "xmm626_kernel_smdk4412_poll fd (Some ?p) w =
      bnd (if fd \<in> set ready
             then bnd (sys_ioctl fd IOCTL_MODEM_STATUS 0) (\<lambda>status.
               check (\<not> (status \<noteq> STATE_ONLINE \<and> status \<noteq> STATE_BOOTING)))
             else ret ()) (\<lambda>_.
        bnd (lift_outcome (poll_result ready (Some ?p))) (\<lambda>fds'. ret (rc, fds'))) w1"
    using fd by (simp add: xmm626_kernel_smdk4412_poll_def bnd_def lift_outcome_eq set sel)
  with assms(4) have "r = Fail \<or> r = Done (rc, Some \<lparr>pf_fds = Some (map (\<lambda>y. if y \<in> set ready then y else -1) xs),
      pf_count = of_nat (length (filter (\<lambda>y. y \<in> set ready) xs))\<rparr>)"
    by (auto simp: bnd_def sys_ioctl_def check_eq ret_eq lift_outcome_eq res split: if_splits)
  with rdy show ?thesis by auto
qed

theorem poll_marks_ready_witness:
  "\<exists>w'. xmm626_kernel_smdk4412_poll 3 (Some \<lparr>pf_fds = Some [5, 6], pf_count = 2\<rparr>)
      (demo_online\<lparr>w_ready := sconst [6]\<rparr>) =
    (Done (1, Some \<lparr>pf_fds = Some [-1, 6], pf_count = 1\<rparr>), w')"
proof -
  let ?w = "demo_online\<lparr>w_ready := sconst [6]\<rparr>"
  obtain r w' where p: "xmm626_kernel_smdk4412_poll 3 (Some \<lparr>pf_fds = Some [5, 6], pf_count = of_nat (length [5, 6 :: int])\<rparr>) ?w =
      (r, w')" by fastforce
  then have "\<exists>q. r = Done (1, q)"
    by (auto simp: xmm626_kernel_smdk4412_poll_def poll_set_def poll_result_def fd_set_ok_def bnd_def
        lift_outcome_eq sys_select_set_def demo_online_def demo_world_def ret_eq Let_def)
  then obtain q where q: "r = Done (1, q)" ..
  have "fd_set_ok 3" "\<forall>y \<in> set [5, 6]. fd_set_ok y" by (simp_all add: fd_set_ok_def)
  from poll_marks_ready [OF this _ p] q obtain R where
      "q = Some \<lparr>pf_fds = Some (map (\<lambda>y. if y \<in> R then y else -1) [5, 6]),
             pf_count = of_nat (length (filter (\<lambda>y. y \<in> R) [5, 6]))\<rparr>" and
      "\<forall>y \<in> set [5, 6 :: int]. y \<in> R \<longleftrightarrow> y \<in> set (shd (w_ready ?w))"
    by (auto simp: demo_online_def demo_world_def)
  with p q show ?thesis by simp
qed

text \<open>
  A negative entry, which the first loop skips, is passed to \<open>FD_ISSET\<close> by the second: polling
  a second time with the array the first call left behind is undefined.
\<close>

lemma poll_negative_entry:
  "y \<in> set (take (unat (pf_count p)) xs) \<Longrightarrow> y < 0 \<Longrightarrow> pf_fds p = Some xs \<Longrightarrow>
   poll_result ready (Some p) = Undef"
  by (auto simp: poll_result_def fd_set_ok_def Let_def intro!: bexI [of _ y])

text \<open>Connection 0 is not refused: its interface would be number -1.\<close>

lemma gprs_iface_zero: "xmm626_kernel_smdk4412_gprs_get_iface 0 = Done ''rmnet-1''"
  by code_simp

lemma gprs_iface_names:
  "map xmm626_kernel_smdk4412_gprs_get_iface [1, 2, 3, 4] =
     [Done ''rmnet0'', Done ''rmnet1'', Done ''rmnet2'', Fail]"
  by code_simp

text \<open>Any non-zero answer ends the waits for the link, the error -1 included.\<close>

lemma link_connected_on_error:
  "0 \<le> fd \<Longrightarrow> shd (w_ioc w) = -1 \<Longrightarrow>
   \<exists>w'. xmm626_kernel_smdk4412_link_connected_wait fd w = (Done (), w')"
  by (simp add: xmm626_kernel_smdk4412_link_connected_wait_def eval_nat_numeral bnd_def sys_ioctl_def ret_eq)

section \<open>The life of a transport object\<close>

text \<open>
  A device opened through the client's transport: creating the data, opening and closing
  it acquires one descriptor of the right node and releases just that one; until it is opened
  the object holds descriptor 0, and after closing -1, on which reads and writes fail without
  reaching the kernel.
\<close>

theorem transport_life:
  assumes "type = IPC_CLIENT_TYPE_FMT \<or> type = IPC_CLIENT_TYPE_RFS" and "0 \<le> shd (w_open w)"
  shows "\<exists>a w1 w2 w3. i9300_data_create (Some TransportSlot) pw g d w = (Done (d\<lparr>hd_transport := Some a\<rparr>), w1) \<and>
    w_heap w1 a = Some 0 \<and>
    i9300_open (Some a) type w1 = (Done (), w2) \<and> w_heap w2 a = Some (shd (w_open w)) \<and>
    i9300_close (Some a) w2 = (Done (), w3) \<and> w_heap w3 a = Some (-1) \<and>
    w_trace w3 = w_trace w @ [EvOpen (if type = IPC_CLIENT_TYPE_FMT then ''/dev/umts_ipc0'' else ''/dev/umts_rfs0'')
      (shd (w_open w)), EvClose (shd (w_open w))] \<and>
    (\<forall>n bs. i9300_read (Some a) n w3 = (Done None, w3) \<and> i9300_write (Some a) bs w3 = (Done (-1), w3))"
  using assms
  by (auto simp: i9300_data_create_def heap_calloc_def bnd_def ret_eq i9300_open_def
      xmm626_kernel_smdk4412_open_def client_types sys_open_def Let_def heap_set_def check_eq
      i9300_close_def heap_get_def xmm626_kernel_smdk4412_close_def sys_close_def emit_def try_rc_def
      i9300_read_def i9300_write_def xmm626_kernel_smdk4412_read_def xmm626_kernel_smdk4412_write_def)

theorem transport_life_witness:
  "\<exists>a w1 w2. i9300_data_create (Some TransportSlot) None None
      \<lparr>hd_transport = None, hd_power = None, hd_gprs = None\<rparr> demo_world =
      (Done \<lparr>hd_transport = Some a, hd_power = None, hd_gprs = None\<rparr>, w1) \<and>
    i9300_open (Some a) IPC_CLIENT_TYPE_RFS w1 = (Done (), w2) \<and> w_heap w2 a = Some 3"
proof -
  have o: "shd (w_open demo_world) = 3" by (simp add: demo_world_def)
  have "IPC_CLIENT_TYPE_RFS = IPC_CLIENT_TYPE_FMT \<or> IPC_CLIENT_TYPE_RFS = IPC_CLIENT_TYPE_RFS" by simp
  from transport_life [OF this, of demo_world None None "\<lparr>hd_transport = None, hd_power = None, hd_gprs = None\<rparr>"] o
  show ?thesis by auto
qed

end
