(* ===== verification/Trace.thy ===== *)
theory Trace
  imports Transport NvData
begin

text \<open>
  What a computation can add to the trace, however it ends: \<open>adds Q m\<close> says that every event
  \<open>m\<close> adds satisfies \<open>Q\<close>. And what it leaves alone: \<open>unchanged f m\<close> says that the part \<open>f\<close> of
  the world is the same before and after, as are all parts but the files for the functions on
  regular files and sysfs attributes.
\<close>

definition adds :: "(event \<Rightarrow> bool) \<Rightarrow> 'a io \<Rightarrow> bool" where
  "adds Q m \<longleftrightarrow> (\<forall>w r w'. m w = (r, w') \<longrightarrow>
     (\<exists>es. w_trace w' = w_trace w @ es \<and> (\<forall>e \<in> set es. Q e)))"

named_theorems adds_intros \<open>which events a computation can add\<close>

section \<open>Rules\<close>

lemma addsI: "(\<And>w. \<exists>es. w_trace (snd (m w)) = w_trace w @ es \<and> (\<forall>e \<in> set es. Q e)) \<Longrightarrow> adds Q m"
  unfolding adds_def by (metis snd_conv)

lemma addsD: "adds Q m \<Longrightarrow> m w = (r, w') \<Longrightarrow> \<exists>es. w_trace w' = w_trace w @ es \<and> (\<forall>e \<in> set es. Q e)"
  unfolding adds_def by blast

text \<open>A computation that adds no event leaves the trace as it is.\<close>

lemma adds_none: "adds (\<lambda>_. False) m \<Longrightarrow> m w = (r, w') \<Longrightarrow> w_trace w' = w_trace w"
  by (drule addsD) auto

lemma adds_mono: "adds P m \<Longrightarrow> (\<And>e. P e \<Longrightarrow> Q e) \<Longrightarrow> adds Q m"
  unfolding adds_def by meson

lemma adds_trans:
  "\<exists>es. w_trace w1 = w_trace w @ es \<and> (\<forall>e \<in> set es. Q e) \<Longrightarrow>
   \<exists>es. w_trace w2 = w_trace w1 @ es \<and> (\<forall>e \<in> set es. Q e) \<Longrightarrow>
   \<exists>es. w_trace w2 = w_trace w @ es \<and> (\<forall>e \<in> set es. Q e)"
proof (elim exE conjE)
  fix es es'
  assume "w_trace w1 = w_trace w @ es" "\<forall>e \<in> set es. Q e" "w_trace w2 = w_trace w1 @ es'" "\<forall>e \<in> set es'. Q e"
  then show "\<exists>es. w_trace w2 = w_trace w @ es \<and> (\<forall>e \<in> set es. Q e)"
    by (intro exI [of _ "es @ es'"]) auto
qed

lemma adds_bnd [adds_intros]:
  assumes "adds Q m" "\<And>a. adds Q (f a)"
  shows "adds Q (bnd m f)"
proof (rule addsI)
  fix w :: world
  obtain r w1 where m: "m w = (r, w1)" by fastforce
  note step = addsD [OF assms(1) m]
  show "\<exists>es. w_trace (snd (bnd m f w)) = w_trace w @ es \<and> (\<forall>e \<in> set es. Q e)"
  proof (cases r)
    case (Done a)
    obtain r2 w2 where "f a w1 = (r2, w2)" by fastforce
    with adds_trans [OF step addsD [OF assms(2)]] m Done show ?thesis by (simp add: bnd_def)
  qed (use step m in \<open>simp_all add: bnd_def\<close>)
qed

lemma adds_try_rc [adds_intros]: "adds Q m \<Longrightarrow> adds Q (try_rc m)"
  unfolding adds_def try_rc_def by (auto split: prod.splits outcome.splits)

lemma adds_simple [adds_intros]:
  "adds Q (check b)" "adds Q (ret a)" "adds Q fail" "adds Q undef" "adds Q (lift_outcome r)"
  by (auto simp: adds_def check_eq ret_eq fail_eq undef_eq lift_outcome_eq)

lemma adds_if [adds_intros]: "adds Q m \<Longrightarrow> adds Q n \<Longrightarrow> adds Q (if b then m else n)"
  by simp

lemma adds_option [adds_intros]:
  "adds Q m \<Longrightarrow> (\<And>x. adds Q (f x)) \<Longrightarrow> adds Q (case r of None \<Rightarrow> m | Some x \<Rightarrow> f x)"
  by (cases r) auto

lemma adds_calls [adds_intros]:
  "adds Q sys_select" "(\<And>bs. Q (EvRead bs)) \<Longrightarrow> adds Q (sys_read n)"
  "(\<And>bs. Q (EvWrite fd bs)) \<Longrightarrow> adds Q (sys_write fd p)"
  "Q (EvIoctl fd request arg) \<Longrightarrow> adds Q (sys_ioctl fd request arg)"
  by (auto simp: adds_def sys_select_def sys_read_def sys_write_def sys_ioctl_def Let_def
      split: option.splits if_splits)

section \<open>Parts of the world that stay as they are\<close>

definition unchanged :: "(world \<Rightarrow> 'b) \<Rightarrow> 'a io \<Rightarrow> bool" where
  "unchanged f m \<longleftrightarrow> (\<forall>w r w'. m w = (r, w') \<longrightarrow> f w' = f w)"

named_theorems unchanged_intros \<open>parts of the world a computation leaves alone\<close>

lemma unchangedI: "(\<And>w. f (snd (m w)) = f w) \<Longrightarrow> unchanged f m"
  unfolding unchanged_def by (metis snd_conv)

lemma unchangedD: "unchanged f m \<Longrightarrow> m w = (r, w') \<Longrightarrow> f w' = f w"
  by (simp add: unchanged_def)

lemma unchanged_bnd [unchanged_intros]: "unchanged f m \<Longrightarrow> (\<And>a. unchanged f (g a)) \<Longrightarrow> unchanged f (bnd m g)"
  unfolding unchanged_def bnd_def by (auto split: prod.splits outcome.splits)

lemma unchanged_try_rc [unchanged_intros]: "unchanged f m \<Longrightarrow> unchanged f (try_rc m)"
  unfolding unchanged_def try_rc_def by (auto split: prod.splits outcome.splits)

lemma unchanged_simple [unchanged_intros]:
  "unchanged f (check b)" "unchanged f (ret a)" "unchanged f fail" "unchanged f undef"
  "unchanged f (lift_outcome r)"
  by (auto simp: unchanged_def check_eq ret_eq fail_eq undef_eq lift_outcome_eq)

lemma unchanged_if [unchanged_intros]:
  "unchanged f m \<Longrightarrow> unchanged f n \<Longrightarrow> unchanged f (if b then m else n)"
  by simp

lemma unchanged_option [unchanged_intros]:
  "unchanged f m \<Longrightarrow> (\<And>x. unchanged f (g x)) \<Longrightarrow> unchanged f (case r of None \<Rightarrow> m | Some x \<Rightarrow> g x)"
  by (cases r) auto

text \<open>
  An invariant: \<open>stable J m\<close> says that \<open>m\<close> keeps \<open>J\<close>, however it ends. The functions on files keep
  every invariant that neither speaks of the files nor breaks when the kernel's decisions on
  them are used up one by one.
\<close>

definition stable :: "(world \<Rightarrow> bool) \<Rightarrow> 'a io \<Rightarrow> bool" where
  "stable J m \<longleftrightarrow> (\<forall>w r w'. m w = (r, w') \<longrightarrow> J w \<longrightarrow> J w')"

named_theorems stable_intros \<open>invariants of computations\<close>

lemma stableI: "(\<And>w. J w \<Longrightarrow> J (snd (m w))) \<Longrightarrow> stable J m"
  unfolding stable_def by (metis snd_conv)

lemma stableD: "stable J m \<Longrightarrow> m w = (r, w') \<Longrightarrow> J w \<Longrightarrow> J w'"
  by (simp add: stable_def)

lemma stable_bnd [stable_intros]: "stable J m \<Longrightarrow> (\<And>a. stable J (g a)) \<Longrightarrow> stable J (bnd m g)"
  unfolding stable_def bnd_def by (auto split: prod.splits outcome.splits)

lemma stable_try_rc [stable_intros]: "stable J m \<Longrightarrow> stable J (try_rc m)"
  unfolding stable_def try_rc_def by (auto split: prod.splits outcome.splits)

lemma stable_simple [stable_intros]:
  "stable J (check b)" "stable J (ret a)" "stable J fail" "stable J undef" "stable J (lift_outcome r)"
  by (auto simp: stable_def check_eq ret_eq fail_eq undef_eq lift_outcome_eq)

lemma stable_if [stable_intros]: "stable J m \<Longrightarrow> stable J n \<Longrightarrow> stable J (if b then m else n)"
  by simp

lemma stable_option [stable_intros]:
  "stable J m \<Longrightarrow> (\<And>x. stable J (g x)) \<Longrightarrow> stable J (case r of None \<Rightarrow> m | Some x \<Rightarrow> g x)"
  by (cases r) auto

lemma unchanged_stable: "(\<And>c. stable (\<lambda>w. f w = c) m) \<Longrightarrow> unchanged f m"
  unfolding unchanged_def stable_def by blast

definition file_stable :: "(world \<Rightarrow> bool) \<Rightarrow> bool" where
  "file_stable J \<longleftrightarrow> (\<forall>w x. J w \<longrightarrow> J (w\<lparr>w_files := x\<rparr>)) \<and> (\<forall>w. J w \<longrightarrow> J (w\<lparr>w_fio := stl (w_fio w)\<rparr>))"

lemma file_stableD:
  assumes "file_stable J" "J w"
  shows "J (w\<lparr>w_fio := stl (w_fio w)\<rparr>)" "J (w\<lparr>w_fio := stl (w_fio w), w_files := x\<rparr>)"
  using assms by (simp_all add: file_stable_def)

lemma stable_file_calls [stable_intros]:
  assumes "file_stable J"
  shows "stable J (sys_stat p)" "stable J (sys_open_read p)" "stable J (sys_file_read p pos n)"
    "stable J (sys_unlink p)" "stable J (sys_open_write p)" "stable J (sys_file_write p pos bs)"
  by (auto simp: stable_def sys_stat_def sys_open_read_def sys_file_read_def sys_unlink_def
      sys_open_write_def sys_file_write_def Let_def intro: file_stableD [OF assms] split: if_splits)

lemma stable_file_read_loop [stable_intros]:
  assumes "file_stable J"
  shows "stable J (file_read_loop path sz chunk_size pos acc)"
proof (rule stableI)
  fix w :: world
  show "J w \<Longrightarrow> J (snd (file_read_loop path sz chunk_size pos acc w))"
  proof (induction path sz chunk_size pos acc w rule: file_read_loop.induct)
    case (1 path sz chunk_size pos acc w)
    obtain r w1 where rd: "sys_file_read path pos (if sz - length acc > chunk_size then chunk_size
        else sz - length acc) w = (r, w1)" by fastforce
    have "J w1" by (rule stableD [OF stable_file_calls(3) [OF assms] rd "1.prems"])
    with "1.IH" [OF refl _ rd [symmetric]] "1.prems" rd show ?case
      by (subst file_read_loop.simps) (auto simp: Let_def split: outcome.splits option.splits)
  qed
qed

lemma stable_file_write_loop [stable_intros]:
  assumes "file_stable J"
  shows "stable J (file_write_loop path chunk_size pos p)"
proof (rule stableI)
  fix w :: world
  show "J w \<Longrightarrow> J (snd (file_write_loop path chunk_size pos p w))"
  proof (induction path chunk_size pos p w rule: file_write_loop.induct)
    case (1 path chunk_size pos p w)
    obtain r w1 where wr: "sys_file_write path pos (take (if length p > chunk_size then chunk_size
        else length p) p) w = (r, w1)" by fastforce
    have "J w1" by (rule stableD [OF stable_file_calls(6) [OF assms] wr "1.prems"])
    with "1.IH" [OF _ wr [symmetric]] "1.prems" wr show ?case
      by (subst file_write_loop.simps) (auto split: outcome.splits)
  qed
qed

lemma stable_files [stable_intros]:
  assumes "file_stable J"
  shows "stable J (file_data_read path sz chunk_size offset)"
    "stable J (file_data_write path data chunk_size offset)" "stable J (sysfs_value_write path v)"
  by (auto simp: file_data_read_def file_data_write_def sysfs_value_write_def Let_def
      intro!: stable_intros assms split: option.split prod.split)

lemma stable_nv_paths [stable_intros]:
  assumes "file_stable J"
  shows "stable J (ipc_nv_data_md5_calculate md5 path secret n k)"
    "stable J (ipc_nv_data_path_check client)" "stable J (ipc_nv_data_md5_path_check client)"
    "stable J (ipc_nv_data_backup_path_check client)" "stable J (ipc_nv_data_backup_md5_path_check client)"
  by (auto simp: ipc_nv_data_md5_calculate_def ipc_nv_data_path_check_def ipc_nv_data_md5_path_check_def
      ipc_nv_data_backup_path_check_def ipc_nv_data_backup_md5_path_check_def Let_def
      intro!: stable_intros assms split: option.split)

lemma stable_nv [stable_intros]:
  assumes "file_stable J"
  shows "stable J (ipc_nv_data_check md5 client)" "stable J (ipc_nv_data_backup_check md5 client)"
    "stable J (ipc_nv_data_backup md5 client)" "stable J (ipc_nv_data_restore md5 client)"
    "stable J (ipc_nv_data_load md5 client)"
proof -
  show c: "stable J (ipc_nv_data_check md5 client)" "stable J (ipc_nv_data_backup_check md5 client)"
    by (auto simp: ipc_nv_data_check_def ipc_nv_data_backup_check_def Let_def
        intro!: stable_intros assms split: option.split)
  show u: "stable J (ipc_nv_data_backup md5 client)" "stable J (ipc_nv_data_restore md5 client)"
    by (auto simp: ipc_nv_data_backup_def ipc_nv_data_restore_def Let_def
        intro!: stable_intros c assms split: option.split)
  show "stable J (ipc_nv_data_load md5 client)"
    by (auto simp: ipc_nv_data_load_def Let_def intro!: stable_intros c u assms split: option.split)
qed

lemma trace_stable: "file_stable (\<lambda>w. w_trace w = c)"
  by (simp add: file_stable_def)

text \<open>So no function on files adds an event.\<close>

lemma adds_unchanged: "unchanged w_trace m \<Longrightarrow> adds Q m"
  unfolding unchanged_def adds_def by fastforce

lemmas adds_files [adds_intros] =
  stable_files(1) [OF trace_stable, THEN unchanged_stable, THEN adds_unchanged]
  stable_files(3) [OF trace_stable, THEN unchanged_stable, THEN adds_unchanged]
  stable_nv(5) [OF trace_stable, THEN unchanged_stable, THEN adds_unchanged]

text \<open>Parts that do not see the traffic with a device.\<close>

definition device_blind :: "(world \<Rightarrow> 'b) \<Rightarrow> bool" where
  "device_blind f \<longleftrightarrow> (\<forall>w x. f (w\<lparr>w_sel := x\<rparr>) = f w) \<and> (\<forall>w x. f (w\<lparr>w_rd := x\<rparr>) = f w) \<and>
     (\<forall>w x. f (w\<lparr>w_wr := x\<rparr>) = f w) \<and> (\<forall>w x. f (w\<lparr>w_trace := x\<rparr>) = f w)"

lemma unchanged_device_calls [unchanged_intros]:
  assumes "device_blind f"
  shows "unchanged f sys_select" "unchanged f (sys_read n)" "unchanged f (sys_write fd bs)"
proof -
  have b: "f (w\<lparr>w_sel := s\<rparr>) = f w" "f (w\<lparr>w_rd := r\<rparr>) = f w" "f (w\<lparr>w_wr := o'\<rparr>) = f w"
    "f (w\<lparr>w_rd := r, w_trace := t\<rparr>) = f w" "f (w\<lparr>w_wr := o', w_trace := t\<rparr>) = f w" for w s r o' t
    using assms unfolding device_blind_def by metis+
  show "unchanged f sys_select" "unchanged f (sys_read n)" "unchanged f (sys_write fd bs)"
    by (auto simp: unchanged_def sys_select_def sys_read_def sys_write_def Let_def b split: option.splits if_splits)
qed

section \<open>Loops\<close>

text \<open>
  \<open>adds\<close> and \<open>unchanged\<close> both relate the world before to the world after by a reflexive and
  transitive relation, so a loop is treated once, for any such relation.
\<close>

definition moves :: "(world \<Rightarrow> world \<Rightarrow> bool) \<Rightarrow> 'a io \<Rightarrow> bool" where
  "moves R m \<longleftrightarrow> (\<forall>w. R w (snd (m w)))"

lemma movesD: "moves R m \<Longrightarrow> m w = (r, w') \<Longrightarrow> R w w'"
  unfolding moves_def by (metis snd_conv)

definition extends :: "(event \<Rightarrow> bool) \<Rightarrow> world \<Rightarrow> world \<Rightarrow> bool" where
  "extends Q w w' \<longleftrightarrow> (\<exists>es. w_trace w' = w_trace w @ es \<and> (\<forall>e \<in> set es. Q e))"

lemma extends_order: "reflp (extends Q)" "transp (extends Q)"
  by (auto simp: reflp_def extends_def, auto simp: transp_def extends_def intro: adds_trans)

lemma adds_moves: "adds Q m \<longleftrightarrow> moves (extends Q) m"
  unfolding adds_def moves_def extends_def by (metis prod.collapse snd_conv)

lemma unchanged_moves: "unchanged f m \<longleftrightarrow> moves (\<lambda>w w'. f w' = f w) m"
  unfolding unchanged_def moves_def by (metis prod.collapse snd_conv)

lemma equal_part_order: "reflp (\<lambda>w w'. f w' = f w)" "transp (\<lambda>w w'. f w' = f w)"
  by (auto simp: reflp_def transp_def)

lemma moves_write_loop:
  assumes R: "reflp R" "transp R" and wr: "\<And>bs. moves R (wr bs)"
  shows "moves R (write_loop wr chunk p)"
  unfolding moves_def
proof
  fix w :: world
  show "R w (snd (write_loop wr chunk p w))"
  proof (induction "length p" arbitrary: p w rule: less_induct)
    case less
    show ?case
    proof (cases "p = []")
      case True
      then show ?thesis using reflpD [OF R(1)] by (simp add: write_loop.simps)
    next
      case False
      let ?c = "case chunk of None \<Rightarrow> p | Some k \<Rightarrow> take (if k < length p then k else length p) p"
      obtain r w1 where c: "wr ?c w = (r, w1)" by fastforce
      note step = movesD [OF wr c]
      have "R w (snd (write_loop wr chunk (drop (nat rc) p) w1))" if "0 < rc" for rc
        using transpD [OF R(2) step less [of "drop (nat rc) p" w1]] that False by simp
      then show ?thesis
        using False c step by (subst write_loop.simps) (auto split: outcome.split)
    qed
  qed
qed

lemma adds_write_loop [adds_intros]: "(\<And>bs. adds Q (wr bs)) \<Longrightarrow> adds Q (write_loop wr chunk p)"
  unfolding adds_moves by (rule moves_write_loop [OF extends_order])

lemma unchanged_write_loop [unchanged_intros]: "(\<And>bs. unchanged f (wr bs)) \<Longrightarrow> unchanged f (write_loop wr chunk p)"
  unfolding unchanged_moves by (rule moves_write_loop [OF equal_part_order])

end
