(* ===== verification/Xmm626.thy ===== *)
theory Xmm626
  imports Trace
begin

text \<open>
  modems/xmm626/xmm626.c and xmm626.h, and what the loaders over HSIC and MIPI have in common:
  the steps they are made of, what a stage sends (\<open>emits\<close>), the answers that let it succeed
  (\<open>completes\<close>), and what it leaves alone.

  \<open>select\<close> is always called with a one-element set and a timeout, and only its result matters.
\<close>

section \<open>Checksum\<close>

definition xmm626_crc_calculate :: "u8 list option \<Rightarrow> u8" where
  "xmm626_crc_calculate data = (case data of None \<Rightarrow> 0 | Some bs \<Rightarrow> foldl (XOR) 0 bs)"

section \<open>Constants\<close>

definition XMM626_AT :: "u8 list" where "XMM626_AT = ascii ''ATAT''"
definition XMM626_PSI_PADDING :: u8 where "XMM626_PSI_PADDING = 0xFF"
definition XMM626_PSI_MAGIC :: u8 where "XMM626_PSI_MAGIC = 0x30"
definition XMM626_SEC_END_MAGIC :: u16 where "XMM626_SEC_END_MAGIC = 0"
definition XMM626_HW_RESET_MAGIC :: u32 where "XMM626_HW_RESET_MAGIC = 0x111001"
definition XMM626_COMMAND_SET_PORT_CONFIG :: u16 where "XMM626_COMMAND_SET_PORT_CONFIG = 0x86"
definition XMM626_COMMAND_SEC_START :: u16 where "XMM626_COMMAND_SEC_START = 0x204"
definition XMM626_COMMAND_SEC_END :: u16 where "XMM626_COMMAND_SEC_END = 0x205"
definition XMM626_COMMAND_HW_RESET :: u16 where "XMM626_COMMAND_HW_RESET = 0x208"
definition XMM626_COMMAND_FLASH_SET_ADDRESS :: u16 where "XMM626_COMMAND_FLASH_SET_ADDRESS = 0x802"
definition XMM626_COMMAND_FLASH_WRITE_BLOCK :: u16 where "XMM626_COMMAND_FLASH_WRITE_BLOCK = 0x804"
definition XMM626_FIRMWARE_ADDRESS :: u32 where "XMM626_FIRMWARE_ADDRESS = 0x60300000"
definition XMM626_NV_DATA_ADDRESS :: u32 where "XMM626_NV_DATA_ADDRESS = 0x60E80000"

section \<open>Steps every stage uses\<close>

text \<open>\<open>rc = write (...); if (rc < (int) length) goto error;\<close>\<close>

definition write_whole :: "int \<Rightarrow> u8 list \<Rightarrow> unit io" where
  "write_whole fd bs = bnd (sys_write fd bs) (\<lambda>rc. check (\<not> rc < int (length bs)))"

text \<open>\<open>rc = select (...); if (rc <= 0) goto error;\<close>\<close>

definition select_ready :: "unit io" where
  "select_ready = bnd sys_select (\<lambda>rc. check (\<not> rc \<le> 0))"

text \<open>\<open>rc = read (...); if (rc < (int) length) goto error;\<close>\<close>

definition read_whole :: "nat \<Rightarrow> u8 list io" where
  "read_whole n = bnd (sys_read n) (\<lambda>r.
     case r of None \<Rightarrow> fail | Some bs \<Rightarrow> if length bs < n then fail else ret bs)"

text \<open>The \<open>for\<close> loop of the acknowledgement: \<open>n\<close> rounds left, values of \<open>sz\<close> bytes.\<close>

fun ack_loop :: "nat \<Rightarrow> nat \<Rightarrow> u16 \<Rightarrow> unit io" where
  "ack_loop 0 sz ack = fail"
| "ack_loop (Suc n) sz ack =
     bnd select_ready (\<lambda>_.
     bnd (sys_read sz) (\<lambda>r.
       case r of None \<Rightarrow> ack_loop n sz ack
       | Some bs \<Rightarrow>
           if length bs < sz then ack_loop n sz ack
           else if get16 bs = ack then ret () else ack_loop n sz ack))"

text \<open>
  The \<open>do ... while (rc == 0)\<close> that wakes the modem up; with \<open>n\<close> rounds left the counter \<open>i\<close> is
  \<open>51 - n\<close>, and \<open>i++ > 50\<close> ends the last round.
\<close>

fun at_loop :: "nat \<Rightarrow> int \<Rightarrow> unit io" where
  "at_loop 0 device_fd =
     bnd (write_whole device_fd XMM626_AT) (\<lambda>_. bnd sys_select (\<lambda>_. fail))"
| "at_loop (Suc n) device_fd =
     bnd (write_whole device_fd XMM626_AT) (\<lambda>_.
     bnd sys_select (\<lambda>rc.
     bnd (check (\<not> rc < 0)) (\<lambda>_.
     if rc = 0 then at_loop n device_fd else ret ())))"

text \<open>\<open>n\<close> single bytes, whatever they are.\<close>

fun read_bytes :: "nat \<Rightarrow> unit io" where
  "read_bytes 0 = ret ()"
| "read_bytes (Suc n) = bnd select_ready (\<lambda>_. bnd (read_whole 1) (\<lambda>_. read_bytes n))"

fun checksum_loop :: "u16 \<Rightarrow> u8 list \<Rightarrow> u16" where
  "checksum_loop acc [] = acc"
| "checksum_loop acc (b # bs) = checksum_loop (acc + ucast b) bs"

section \<open>What a stage puts on the descriptor\<close>

text \<open>Whenever \<open>m\<close> succeeds, the bytes it added to those sent on \<open>fd\<close> satisfy \<open>P\<close>.\<close>

definition emits :: "int \<Rightarrow> 'a io \<Rightarrow> (u8 list \<Rightarrow> bool) \<Rightarrow> bool" where
  "emits fd m P \<longleftrightarrow> (\<forall>w a w'. m w = (Done a, w') \<longrightarrow> (\<exists>bs. sent fd w' = sent fd w @ bs \<and> P bs))"

definition silent :: "int \<Rightarrow> 'a io \<Rightarrow> bool" where
  "silent fd m \<longleftrightarrow> emits fd m (\<lambda>bs. bs = [])"

named_theorems silent_intros \<open>computations that send nothing\<close>

lemma emitsD: "emits fd m P \<Longrightarrow> m w = (Done a, w') \<Longrightarrow> \<exists>bs. sent fd w' = sent fd w @ bs \<and> P bs"
  unfolding emits_def by blast

lemma emits_bnd:
  "emits fd m P \<Longrightarrow> (\<And>a. emits fd (f a) Q) \<Longrightarrow> (\<And>b c. P b \<Longrightarrow> Q c \<Longrightarrow> R (b @ c)) \<Longrightarrow>
   emits fd (bnd m f) R"
  unfolding emits_def bnd_eq_Done by (metis append.assoc)

lemma emits_skip: "silent fd m \<Longrightarrow> (\<And>a. emits fd (f a) P) \<Longrightarrow> emits fd (bnd m f) P"
  unfolding silent_def by (rule emits_bnd [where P = "\<lambda>bs. bs = []" and Q = P]) auto

lemma emits_last: "emits fd m P \<Longrightarrow> (\<And>a. silent fd (f a)) \<Longrightarrow> emits fd (bnd m f) P"
  unfolding silent_def by (rule emits_bnd [where P = P and Q = "\<lambda>bs. bs = []"]) auto

lemma emits_mono: "emits fd m P \<Longrightarrow> (\<And>bs. P bs \<Longrightarrow> Q bs) \<Longrightarrow> emits fd m Q"
  unfolding emits_def by blast

lemma emits_fail: "emits fd fail P"
  by (simp add: emits_def fail_eq)

lemma emits_if: "(b \<Longrightarrow> emits fd m P) \<Longrightarrow> (\<not> b \<Longrightarrow> emits fd n P) \<Longrightarrow> emits fd (if b then m else n) P"
  by simp

text \<open>A step whose value the rest depends on.\<close>

lemma emits_skip_value:
  "silent fd m \<Longrightarrow> (\<And>a w w'. m w = (Done a, w') \<Longrightarrow> emits fd (f a) P) \<Longrightarrow> emits fd (bnd m f) P"
  unfolding silent_def emits_def bnd_eq_Done by (metis append_Nil2)

lemma silent_bnd [silent_intros]: "silent fd m \<Longrightarrow> (\<And>a. silent fd (f a)) \<Longrightarrow> silent fd (bnd m f)"
  unfolding silent_def
  by (rule emits_bnd [where P = "\<lambda>bs. bs = []" and Q = "\<lambda>bs. bs = []"]) auto

lemma silent_simple [silent_intros]:
  "silent fd (check b)" "silent fd (ret a)" "silent fd fail" "silent fd undef" "silent fd (lift_outcome r)"
  by (auto simp: silent_def emits_def check_eq ret_eq fail_eq undef_eq lift_outcome_eq)

lemma silent_if [silent_intros]: "silent fd m \<Longrightarrow> silent fd n \<Longrightarrow> silent fd (if b then m else n)"
  by simp

lemma silent_calls [silent_intros]: "silent fd sys_select" "silent fd (sys_read n)"
  by (auto simp: silent_def emits_def intro: sys_select_sent sys_read_sent)

lemma silent_option [silent_intros]:
  "silent fd m \<Longrightarrow> (\<And>x. silent fd (f x)) \<Longrightarrow> silent fd (case r of None \<Rightarrow> m | Some x \<Rightarrow> f x)"
  by (cases r) auto

lemma silent_steps [silent_intros]: "silent fd select_ready" "silent fd (read_whole n)"
  unfolding select_ready_def read_whole_def by (intro silent_intros)+

lemma silent_ack_loop [silent_intros]: "silent fd (ack_loop n sz ack)"
  by (induction n) (auto intro!: silent_intros)

lemma silent_read_bytes [silent_intros]: "silent fd (read_bytes n)"
  by (induction n) (auto intro!: silent_intros)

lemma emits_write_whole: "emits fd (write_whole fd bs) (\<lambda>out. out = bs)"
  unfolding emits_def write_whole_def bnd_eq_Done check_eq_Done
  using sys_write_sent sys_write_range by fastforce

lemma emits_write_loop: "emits fd (write_loop (sys_write fd) chunk p) (\<lambda>out. out = p)"
  unfolding emits_def using fd_out.write_loop_out [of fd chunk p] by fastforce

text \<open>The wake-up loop sends its text once per round, from 1 to \<open>n\<close> times.\<close>

lemma emits_at_loop:
  "emits fd (at_loop n fd) (\<lambda>out. \<exists>k. 1 \<le> k \<and> k \<le> n \<and> out = concat (replicate k XMM626_AT))"
proof (induction n)
  case 0
  have "emits fd (bnd sys_select (\<lambda>_. fail)) (\<lambda>_. False)"
    by (rule emits_skip [OF silent_calls(1) emits_fail])
  then show ?case unfolding at_loop.simps by (rule emits_bnd [OF emits_write_whole]) simp
next
  case (Suc n)
  have "emits fd (bnd sys_select (\<lambda>rc. bnd (check (\<not> rc < 0)) (\<lambda>_. if rc = 0 then at_loop n fd else ret ())))
      (\<lambda>out. \<exists>k \<le> n. out = concat (replicate k XMM626_AT))"
  proof (rule emits_skip [OF silent_calls(1)], rule emits_skip [OF silent_simple(1)], rule emits_if)
    show "emits fd (at_loop n fd) (\<lambda>out. \<exists>k \<le> n. out = concat (replicate k XMM626_AT))"
      using Suc by (rule emits_mono) blast
    show "emits fd (ret ()) (\<lambda>out. \<exists>k \<le> n. out = concat (replicate k XMM626_AT))"
      using silent_simple(2) [of fd "()"] unfolding silent_def
      by (rule emits_mono) (auto intro: exI [of _ 0])
  qed
  then show ?case
    unfolding at_loop.simps
    by (rule emits_bnd [OF emits_write_whole]) (metis Suc_le_mono concat.simps(2) le_add1 plus_1_eq_Suc replicate_Suc)
qed

section \<open>A modem that answers\<close>

text \<open>
  The kernel reports every descriptor as ready and takes whole blocks of up to 32 KiB, more than
  the largest frame of the protocol.
\<close>

definition willing :: "world \<Rightarrow> bool" where
  "willing w \<longleftrightarrow> (\<forall>x \<in> sset (w_sel w). 0 < x) \<and> (\<forall>x \<in> sset (w_wr w). 0x8000 \<le> x)"

text \<open>
  In a world that satisfies \<open>I\<close>, \<open>m\<close> succeeds with a result in \<open>P\<close> once it has read just the
  answers \<open>rs\<close>, and \<open>I\<close> still holds.
\<close>

definition completes :: "(world \<Rightarrow> bool) \<Rightarrow> 'a io \<Rightarrow> u8 list list \<Rightarrow> ('a \<Rightarrow> bool) \<Rightarrow> bool" where
  "completes I m rs P \<longleftrightarrow> (\<forall>w rest. I w \<longrightarrow> w_rd w = map Some rs @- rest \<longrightarrow>
     (\<exists>a w'. m w = (Done a, w') \<and> P a \<and> I w' \<and> w_rd w' = rest))"

lemma completesI:
  "(\<And>w rest. I w \<Longrightarrow> w_rd w = map Some rs @- rest \<Longrightarrow>
     \<exists>a w'. m w = (Done a, w') \<and> P a \<and> I w' \<and> w_rd w' = rest) \<Longrightarrow> completes I m rs P"
  unfolding completes_def by blast

lemma completesD:
  "completes I m rs P \<Longrightarrow> I w \<Longrightarrow> w_rd w = map Some rs @- rest \<Longrightarrow>
   \<exists>a w'. m w = (Done a, w') \<and> P a \<and> I w' \<and> w_rd w' = rest"
  unfolding completes_def by blast

lemma completes_bnd:
  assumes "completes I m rs P" "\<And>a. P a \<Longrightarrow> completes I (f a) ss Q"
  shows "completes I (bnd m f) (rs @ ss) Q"
proof (rule completesI)
  fix w :: world and rest
  assume "I w" "w_rd w = map Some (rs @ ss) @- rest"
  then obtain a w1 where "m w = (Done a, w1)" "P a" "I w1" "w_rd w1 = map Some ss @- rest"
    using completesD [OF assms(1), of w "map Some ss @- rest"] by auto
  then show "\<exists>a w'. bnd m f w = (Done a, w') \<and> Q a \<and> I w' \<and> w_rd w' = rest"
    using completesD [OF assms(2), of a w1 rest] by (simp add: bnd_Done)
qed

lemma completes_then:
  "completes I m [] P \<Longrightarrow> (\<And>a. P a \<Longrightarrow> completes I (f a) rs Q) \<Longrightarrow> completes I (bnd m f) rs Q"
  using completes_bnd [of I m "[]" P f rs Q] by simp

lemma completes_mono: "completes I m rs P \<Longrightarrow> (\<And>a. P a \<Longrightarrow> Q a) \<Longrightarrow> completes I m rs Q"
  unfolding completes_def by meson

text \<open>More than \<open>I\<close> is kept when \<open>m\<close> leaves the part of the world it speaks of alone.\<close>

lemma completes_frame:
  assumes "completes I m rs P" "unchanged f m" "\<And>w. J w \<longleftrightarrow> I w \<and> R (f w)"
  shows "completes J m rs P"
proof (rule completesI)
  fix w :: world and rest
  assume "J w" "w_rd w = map Some rs @- rest"
  then obtain a w' where "m w = (Done a, w')" "P a" "I w'" "w_rd w' = rest"
    using completesD [OF assms(1), of w rest] assms(3) by blast
  then show "\<exists>a w'. m w = (Done a, w') \<and> P a \<and> J w' \<and> w_rd w' = rest"
    using unchangedD [OF assms(2)] \<open>J w\<close> assms(3) by metis
qed

lemma completes_ret: "P a \<Longrightarrow> completes I (ret a) [] P"
  by (rule completesI) (simp add: ret_eq)

lemma completes_check: "b \<Longrightarrow> completes I (check b) [] (\<lambda>_. True)"
  by (rule completesI) (simp add: check_eq)

lemma completes_lift: "P a \<Longrightarrow> completes I (lift_outcome (Done a)) [] P"
  by (rule completesI) (simp add: lift_outcome_eq)

lemma completes_sys_select: "completes willing sys_select [] (\<lambda>rc. 0 < rc)"
  by (rule completesI) (auto simp: sys_select_def willing_def shd_sset dest: stl_sset)

lemma completes_sys_read: "completes willing (sys_read n) [bs] (\<lambda>r. r = Some (take n bs))"
  by (rule completesI) (simp add: sys_read_def Let_def willing_def)

lemma completes_select_ready: "completes willing select_ready [] (\<lambda>_. True)"
  unfolding select_ready_def
  by (rule completes_then [OF completes_sys_select]) (auto intro: completes_check)

lemma completes_read_whole: "length bs = n \<Longrightarrow> completes willing (read_whole n) [bs] (\<lambda>r. r = bs)"
  unfolding read_whole_def
  by (rule completes_bnd [OF completes_sys_read, where ss = "[]", simplified]) (auto intro: completes_ret)

lemma willing_write:
  assumes "willing w" "length bs \<le> 0x8000"
  shows "\<exists>w'. sys_write fd bs w = (Done (int (length bs)), w') \<and> willing w' \<and> w_rd w' = w_rd w"
proof -
  have "0x8000 \<le> shd (w_wr w)" using assms(1) by (simp add: willing_def shd_sset)
  with assms show ?thesis by (auto simp: sys_write_def Let_def willing_def min_def dest: stl_sset)
qed

lemma completes_write_whole: "length bs \<le> 0x8000 \<Longrightarrow> completes willing (write_whole fd bs) [] (\<lambda>_. True)"
proof (rule completesI)
  fix w :: world and rest
  assume len: "length bs \<le> 0x8000" and w: "willing w" "w_rd w = map Some [] @- rest"
  from willing_write [OF w(1) len, of fd] obtain w' where
    "sys_write fd bs w = (Done (int (length bs)), w')" "willing w'" "w_rd w' = w_rd w" by blast
  with w(2) show "\<exists>a w'. write_whole fd bs w = (Done a, w') \<and> True \<and> willing w' \<and> w_rd w' = rest"
    by (simp add: write_whole_def bnd_Done check_eq)
qed

text \<open>Any positive progress is enough for the loop.\<close>

lemma willing_progress:
  assumes "willing w" "bs \<noteq> []"
  shows "\<exists>n w'. sys_write fd bs w = (Done (int n), w') \<and> 0 < n \<and> n \<le> length bs \<and> willing w' \<and> w_rd w' = w_rd w"
proof -
  have "0x8000 \<le> shd (w_wr w)" using assms(1) by (simp add: willing_def shd_sset)
  then have "sys_write fd bs w = (Done (int (min (nat (shd (w_wr w))) (length bs))), snd (sys_write fd bs w))"
      "0 < min (nat (shd (w_wr w))) (length bs)" "willing (snd (sys_write fd bs w))"
      "w_rd (snd (sys_write fd bs w)) = w_rd w"
    using assms by (auto simp: sys_write_def Let_def willing_def dest: stl_sset)
  then show ?thesis by (metis min.cobounded2)
qed

lemma write_loop_completes:
  assumes "chunk \<noteq> Some 0" "willing w"
  shows "\<exists>w'. write_loop (sys_write fd) chunk p w = (Done (), w') \<and> willing w' \<and> w_rd w' = w_rd w"
  using assms(2)
proof (induction "length p" arbitrary: p w rule: less_induct)
  case less
  let ?c = "case chunk of None \<Rightarrow> p | Some k \<Rightarrow> take (if k < length p then k else length p) p"
  show ?case
  proof (cases "p = []")
    case True
    with less.prems show ?thesis by (simp add: write_loop.simps)
  next
    case False
    then have "?c \<noteq> []" using assms(1) by (cases chunk) auto
    from willing_progress [OF less.prems this, of fd] obtain n w1 where
      w1: "sys_write fd ?c w = (Done (int n), w1)" "0 < n" "willing w1" "w_rd w1 = w_rd w" by blast
    have "length (drop n p) < length p" using False w1(2) by simp
    from less.hyps [OF this w1(3)] obtain w' where
      "write_loop (sys_write fd) chunk (drop n p) w1 = (Done (), w')" "willing w'" "w_rd w' = w_rd w"
      using w1(4) by auto
    moreover have "write_loop (sys_write fd) chunk p w = write_loop (sys_write fd) chunk (drop n p) w1"
      using w1(2) by (subst write_loop.simps) (simp add: False w1(1))
    ultimately show ?thesis by simp
  qed
qed

lemma completes_write_loop: "chunk \<noteq> Some 0 \<Longrightarrow> completes willing (write_loop (sys_write fd) chunk p) [] (\<lambda>_. True)"
  by (rule completesI) (use write_loop_completes in fastforce)

lemma completes_at_loop: "completes willing (at_loop (Suc n) fd) [] (\<lambda>_. True)"
  unfolding at_loop.simps
  by (rule completes_then [OF completes_write_whole completes_then [OF completes_sys_select
      completes_then [OF completes_check]]])
    (auto simp: XMM626_AT_def ascii_def intro: completes_ret)

lemma completes_read_bytes:
  "length rs = n \<Longrightarrow> (\<forall>r \<in> set rs. length r = 1) \<Longrightarrow> completes willing (read_bytes n) rs (\<lambda>_. True)"
proof (induction n arbitrary: rs)
  case 0
  then show ?case by (simp add: completes_ret)
next
  case (Suc n)
  then obtain r rs' where rs: "rs = [r] @ rs'" "length r = 1" "length rs' = n" "\<forall>r \<in> set rs'. length r = 1"
    by (cases rs) auto
  have "completes willing (bnd (read_whole 1) (\<lambda>_. read_bytes n)) ([r] @ rs') (\<lambda>_. True)"
    by (rule completes_bnd [OF completes_read_whole Suc.IH]) (use rs in auto)
  then show ?case
    unfolding rs(1) read_bytes.simps by (rule completes_then [OF completes_select_ready])
qed

lemma completes_ack_loop:
  assumes "length bs = sz" "get16 bs = ack"
  shows "completes willing (ack_loop (Suc n) sz ack) [bs] (\<lambda>_. True)"
proof -
  have "completes willing (bnd (sys_read sz) (\<lambda>r. case r of None \<Rightarrow> ack_loop n sz ack
       | Some bs \<Rightarrow> if length bs < sz then ack_loop n sz ack
           else if get16 bs = ack then ret () else ack_loop n sz ack)) ([bs] @ []) (\<lambda>_. True)"
    by (rule completes_bnd [OF completes_sys_read]) (use assms in \<open>auto intro: completes_ret\<close>)
  then show ?thesis
    unfolding ack_loop.simps by (intro completes_then [OF completes_select_ready]) simp
qed

section \<open>Checksums and blocks\<close>

lemma checksum_loop_sum: "checksum_loop acc bs = acc + sum_list (map ucast bs)"
  by (induction bs arbitrary: acc) (simp_all add: add.assoc)

definition command_checksum :: "u16 \<Rightarrow> u8 list \<Rightarrow> u16" where
  "command_checksum code data = of_nat (length data) + code + sum_list (map ucast data)"

lemma of_nat_mod_u16: "(of_nat (n mod 0x10000) :: u16) = of_nat n"
  by (simp add: word_unat_eq_iff unat_of_nat)

text \<open>An image cut into blocks of \<open>n\<close> bytes: all full but the last, none empty.\<close>

definition blocks_of :: "nat \<Rightarrow> u8 list list \<Rightarrow> u8 list \<Rightarrow> bool" where
  "blocks_of n cs p \<longleftrightarrow> concat cs = p \<and> (\<forall>c \<in> set cs. 0 < length c \<and> length c \<le> n) \<and>
     (\<forall>c \<in> set (butlast cs). length c = n)"

lemma blocks_of_Nil: "blocks_of n [] p \<longleftrightarrow> p = []"
  by (auto simp: blocks_of_def)

lemma blocks_of_ConsD: "blocks_of n (c # cs) p \<Longrightarrow> c = take n p \<and> p \<noteq> [] \<and> blocks_of n cs (drop n p)"
  by (cases "cs = []") (auto simp: blocks_of_def)

lemma blocks_of_Cons: "blocks_of n cs (drop n p) \<Longrightarrow> p \<noteq> [] \<Longrightarrow> 0 < n \<Longrightarrow> blocks_of n (take n p # cs) p"
  by (cases "drop n p = []") (auto simp: blocks_of_def)

section \<open>What a stage leaves alone\<close>

text \<open>Reads and writes are the only events of a stage.\<close>

fun transfer :: "event \<Rightarrow> bool" where
  "transfer (EvOpen path fd) \<longleftrightarrow> False"
| "transfer (EvClose fd) \<longleftrightarrow> False"
| "transfer _ \<longleftrightarrow> True"

lemma adds_steps [adds_intros]:
  "(\<And>bs. Q (EvWrite fd bs)) \<Longrightarrow> adds Q (write_whole fd bs)" "adds Q select_ready"
  "(\<And>bs. Q (EvRead bs)) \<Longrightarrow> adds Q (read_whole n)"
  by (auto simp: write_whole_def select_ready_def read_whole_def intro!: adds_intros split: option.split)

text \<open>Events that are no writes leave what was sent as it is.\<close>

lemma silent_adds: "adds (\<lambda>e. sent_by fd e = []) m \<Longrightarrow> silent fd m"
  unfolding silent_def emits_def by (auto dest!: addsD simp: sent_def)

lemma adds_loops [adds_intros]:
  "adds transfer (ack_loop n sz ack)" "adds transfer (at_loop n fd)" "adds transfer (read_bytes n)"
  by (induction n) (auto intro!: adds_intros)

lemma unchanged_steps [unchanged_intros]:
  assumes "device_blind f"
  shows "unchanged f (write_whole fd bs)" "unchanged f select_ready" "unchanged f (read_whole n)"
  by (auto simp: write_whole_def select_ready_def read_whole_def intro!: unchanged_intros assms split: option.split)

lemma unchanged_loops [unchanged_intros]:
  assumes "device_blind f"
  shows "unchanged f (ack_loop n sz ack)" "unchanged f (at_loop n fd)" "unchanged f (read_bytes n)"
  by (induction n) (auto intro!: unchanged_intros assms)

section \<open>Sending an image block by block\<close>

text \<open>
  Both loaders send an image with the same loop over a command of their own for one block. What
  they promise about that command is carried over to the whole image here.
\<close>

locale block_sender =
  fixes send_block :: "int \<Rightarrow> u8 list \<Rightarrow> unit io"
    and frame :: "u8 list \<Rightarrow> u8 list"
    and reply :: "u8 list list \<Rightarrow> bool"
    and chunk :: nat
    and loop :: "int \<Rightarrow> u8 list \<Rightarrow> unit io"
  assumes loop_step: "loop fd p =
      (if p \<noteq> [] then bnd (send_block fd (take chunk p)) (\<lambda>_. loop fd (drop chunk p)) else ret ())"
    and chunk_positive: "0 < chunk"
    and block_sent: "emits fd (send_block fd c) (\<lambda>out. out = frame c)"
    and block_accepted: "0 \<le> fd \<Longrightarrow> 0 < length c \<Longrightarrow> length c \<le> chunk \<Longrightarrow> reply rs \<Longrightarrow>
      completes willing (send_block fd c) rs (\<lambda>_. True)"
    and block_events: "adds transfer (send_block fd c)"
begin

lemma image_induct [case_names empty block]:
  assumes "P []" "\<And>p. p \<noteq> [] \<Longrightarrow> P (drop chunk p) \<Longrightarrow> P p"
  shows "P p"
proof (induction "length p" arbitrary: p rule: less_induct)
  case less
  with assms chunk_positive show ?case by (cases "p = []") auto
qed

lemma image_sent: "emits fd (loop fd p) (\<lambda>out. \<exists>cs. blocks_of chunk cs p \<and> out = concat (map frame cs))"
proof (induction p rule: image_induct)
  case empty
  show ?case by (subst loop_step) (auto simp: emits_def ret_eq blocks_of_Nil intro!: exI [of _ "[]"])
next
  case (block p)
  have "emits fd (bnd (send_block fd (take chunk p)) (\<lambda>_. loop fd (drop chunk p)))
      (\<lambda>out. \<exists>cs. blocks_of chunk cs p \<and> out = concat (map frame cs))"
    by (rule emits_bnd [OF block_sent block.IH])
      (use blocks_of_Cons [OF _ block.hyps chunk_positive] in fastforce)
  with block.hyps show ?case by (subst loop_step) simp
qed

lemma image_accepted:
  "blocks_of chunk cs p \<Longrightarrow> length rss = length cs \<Longrightarrow> \<forall>rs \<in> set rss. reply rs \<Longrightarrow> 0 \<le> fd \<Longrightarrow>
   completes willing (loop fd p) (concat rss) (\<lambda>_. True)"
proof (induction cs arbitrary: p rss)
  case Nil
  then show ?case by (subst loop_step) (simp add: blocks_of_Nil completes_ret)
next
  case (Cons c cs)
  note b = blocks_of_ConsD [OF Cons.prems(1)]
  from Cons.prems(2) obtain rs rss' where rss: "rss = rs # rss'" by (cases rss) auto
  have "completes willing (bnd (send_block fd (take chunk p)) (\<lambda>_. loop fd (drop chunk p))) (rs @ concat rss') (\<lambda>_. True)"
    by (rule completes_bnd [OF block_accepted Cons.IH]) (use b rss Cons.prems chunk_positive in auto)
  with b rss show ?case by (subst loop_step) simp
qed

lemma image_events: "adds transfer (loop fd p)"
proof (induction p rule: image_induct)
  case empty
  show ?case by (subst loop_step) (simp add: adds_simple)
next
  case (block p)
  then show ?case by (subst loop_step) (auto intro: adds_bnd block_events)
qed

lemma image_unchanged: "(\<And>c. unchanged f (send_block fd c)) \<Longrightarrow> unchanged f (loop fd p)"
proof (induction p rule: image_induct)
  case empty
  show ?case by (subst loop_step) (simp add: unchanged_simple)
next
  case (block p)
  then show ?case by (subst loop_step) (auto intro: unchanged_bnd)
qed

end

lemma blocks_exist: "0 < n \<Longrightarrow> \<exists>cs. blocks_of n cs p"
proof (induction "length p" arbitrary: p rule: less_induct)
  case less
  show ?case
  proof (cases "p = []")
    case True
    then show ?thesis using blocks_of_Nil by blast
  next
    case False
    with less.hyps [of "drop n p"] less.prems blocks_of_Cons [OF _ False less.prems] show ?thesis by auto
  qed
qed

section \<open>A world for the examples\<close>

definition demo_boot :: "u8 list list \<Rightarrow> world" where
  "demo_boot answers = demo_nv_world\<lparr>w_sel := sconst 1, w_wr := sconst 0x8000,
     w_rd := map Some answers @- sconst None, w_trace := []\<rparr>"

lemma demo_boot_simps: "willing (demo_boot answers)" "w_rd (demo_boot answers) = map Some answers @- sconst None"
  "sent fd (demo_boot answers) = []"
  by (simp_all add: demo_boot_def willing_def sent_def)

end
