(* ===== verification/Hsic.thy ===== *)
theory Hsic
  imports Xmm626
begin

text \<open>
  modems/xmm626/xmm626_hsic.c: loading the XMM626 modem over HSIC. Each stage writes to one
  descriptor and waits for the modem's answers.
\<close>

section \<open>Constants and acknowledgements\<close>

definition XMM626_HSIC_PSI_UNKNOWN_COUNT :: nat where "XMM626_HSIC_PSI_UNKNOWN_COUNT = 22"
definition XMM626_HSIC_PSI_CRC_ACK_COUNT :: nat where "XMM626_HSIC_PSI_CRC_ACK_COUNT = 2"
definition XMM626_HSIC_PSI_ACK :: u16 where "XMM626_HSIC_PSI_ACK = 0xAA00"
definition XMM626_HSIC_EBL_SIZE_ACK :: u16 where "XMM626_HSIC_EBL_SIZE_ACK = 0xCCCC"
definition XMM626_HSIC_EBL_ACK :: u16 where "XMM626_HSIC_EBL_ACK = 0xA551"
definition XMM626_HSIC_EBL_CHUNK :: nat where "XMM626_HSIC_EBL_CHUNK = 0x4000"
definition XMM626_HSIC_PORT_CONFIG_SIZE :: nat where "XMM626_HSIC_PORT_CONFIG_SIZE = 0x4C"
definition XMM626_HSIC_SET_PORT_CONFIG_SIZE :: nat where "XMM626_HSIC_SET_PORT_CONFIG_SIZE = 0x800"
definition XMM626_HSIC_SEC_START_SIZE :: nat where "XMM626_HSIC_SEC_START_SIZE = 0x4000"
definition XMM626_HSIC_SEC_END_SIZE :: nat where "XMM626_HSIC_SEC_END_SIZE = 0x4000"
definition XMM626_HSIC_HW_RESET_SIZE :: nat where "XMM626_HSIC_HW_RESET_SIZE = 0x4000"
definition XMM626_HSIC_FLASH_SET_ADDRESS_SIZE :: nat where "XMM626_HSIC_FLASH_SET_ADDRESS_SIZE = 0x4000"
definition XMM626_HSIC_FLASH_WRITE_BLOCK_SIZE :: nat where "XMM626_HSIC_FLASH_WRITE_BLOCK_SIZE = 0x4000"
definition XMM626_HSIC_MODEM_DATA_CHUNK :: nat where "XMM626_HSIC_MODEM_DATA_CHUNK = 0x4000"

lemmas hsic_sizes = XMM626_HSIC_EBL_CHUNK_def XMM626_HSIC_PORT_CONFIG_SIZE_def
  XMM626_HSIC_SET_PORT_CONFIG_SIZE_def XMM626_HSIC_SEC_START_SIZE_def XMM626_HSIC_SEC_END_SIZE_def
  XMM626_HSIC_HW_RESET_SIZE_def XMM626_HSIC_FLASH_SET_ADDRESS_SIZE_def
  XMM626_HSIC_FLASH_WRITE_BLOCK_SIZE_def XMM626_HSIC_MODEM_DATA_CHUNK_def

definition xmm626_hsic_ack_read :: "int \<Rightarrow> u16 \<Rightarrow> unit io" where
  "xmm626_hsic_ack_read device_fd ack = ack_loop 50 2 ack"

section \<open>PSI\<close>

definition psi_header_bytes :: "u16 \<Rightarrow> u8 list" where
  "psi_header_bytes psi_size = [XMM626_PSI_MAGIC] @ le16 psi_size @ [XMM626_PSI_PADDING]"

definition xmm626_hsic_psi_send ::
  "client_env option \<Rightarrow> int \<Rightarrow> u8 list option \<Rightarrow> u16 \<Rightarrow> unit io" where
  "xmm626_hsic_psi_send client device_fd psi_data psi_size =
     (case (client, psi_data) of
        (Some _, Some mem) \<Rightarrow>
          if device_fd < 0 \<or> psi_size = 0 then fail
          else
            bnd (at_loop 51 device_fd) (\<lambda>_.
            bnd (read_bytes 1) (\<lambda>_.
            bnd (read_bytes 1) (\<lambda>_.
            bnd (write_whole device_fd (psi_header_bytes psi_size)) (\<lambda>_.
            bnd (lift_outcome (peek 0 (unat psi_size) mem)) (\<lambda>psi.
            bnd (write_loop (sys_write device_fd) None psi) (\<lambda>_.
            bnd (write_whole device_fd [xmm626_crc_calculate (Some psi)]) (\<lambda>_.
            bnd (read_bytes XMM626_HSIC_PSI_UNKNOWN_COUNT) (\<lambda>_.
            bnd (read_bytes XMM626_HSIC_PSI_CRC_ACK_COUNT) (\<lambda>_.
            xmm626_hsic_ack_read device_fd XMM626_HSIC_PSI_ACK)))))))))
      | _ \<Rightarrow> fail)"

section \<open>EBL\<close>

text \<open>The data and its size are one byte list; \<open>size_t\<close> has four bytes.\<close>

definition xmm626_hsic_ebl_send :: "client_env option \<Rightarrow> int \<Rightarrow> u8 list option \<Rightarrow> unit io" where
  "xmm626_hsic_ebl_send client device_fd ebl_data =
     (case (client, ebl_data) of
        (Some _, Some ebl) \<Rightarrow>
          if device_fd < 0 \<or> length ebl = 0 then fail
          else
            bnd (write_whole device_fd (le32 (of_nat (length ebl)))) (\<lambda>_.
            bnd (xmm626_hsic_ack_read device_fd XMM626_HSIC_EBL_SIZE_ACK) (\<lambda>_.
            bnd (write_loop (sys_write device_fd) (Some XMM626_HSIC_EBL_CHUNK) ebl) (\<lambda>_.
            bnd (write_whole device_fd [xmm626_crc_calculate (Some ebl)]) (\<lambda>_.
            xmm626_hsic_ack_read device_fd XMM626_HSIC_EBL_ACK))))
      | _ \<Rightarrow> fail)"

section \<open>Commands\<close>

record xmm626_hsic_command_header =
  hch_checksum :: u16
  hch_code :: u16
  hch_data_size :: u32

definition hsic_command_header_bytes :: "xmm626_hsic_command_header \<Rightarrow> u8 list" where
  "hsic_command_header_bytes h = le16 (hch_checksum h) @ le16 (hch_code h) @ le32 (hch_data_size h)"

definition xmm626_hsic_command_send ::
  "int \<Rightarrow> u16 \<Rightarrow> u8 list option \<Rightarrow> nat \<Rightarrow> bool \<Rightarrow> unit io" where
  "xmm626_hsic_command_send device_fd code data command_data_size ack =
     (case data of None \<Rightarrow> fail
      | Some bs \<Rightarrow>
          let sz = length bs in
          if device_fd < 0 \<or> sz = 0 \<or> command_data_size = 0 \<or> command_data_size < sz then fail
          else
            let header = \<lparr>hch_checksum = checksum_loop (of_nat (sz mod 0x10000) + code) bs,
                          hch_code = code, hch_data_size = of_nat sz\<rparr>
            in
            bnd (lift_outcome (pokes 0 [hsic_command_header_bytes header, bs] (calloc (command_data_size + 8))))
              (\<lambda>buffer.
            bnd (write_whole device_fd buffer) (\<lambda>_.
            if \<not> ack then ret ()
            else
              bnd select_ready (\<lambda>_.
              bnd (read_whole 8) (\<lambda>header.
              bnd select_ready (\<lambda>_.
              bnd (read_whole command_data_size) (\<lambda>_.
              check (get16 (drop 2 header) = code)))))))
     )"

function modem_data_loop :: "int \<Rightarrow> u8 list \<Rightarrow> unit io" where
  "modem_data_loop device_fd p =
     (if p \<noteq> [] then
        bnd (xmm626_hsic_command_send device_fd XMM626_COMMAND_FLASH_WRITE_BLOCK
               (Some (take XMM626_HSIC_MODEM_DATA_CHUNK p)) XMM626_HSIC_FLASH_WRITE_BLOCK_SIZE False)
          (\<lambda>_. modem_data_loop device_fd (drop XMM626_HSIC_MODEM_DATA_CHUNK p))
      else ret ())"
  by pat_completeness auto
termination
  by (relation "measure (\<lambda>(device_fd, p). length p)") (auto simp: XMM626_HSIC_MODEM_DATA_CHUNK_def)

declare modem_data_loop.simps [simp del]

definition xmm626_hsic_modem_data_send :: "int \<Rightarrow> u8 list option \<Rightarrow> u32 \<Rightarrow> unit io" where
  "xmm626_hsic_modem_data_send device_fd data address =
     (case data of None \<Rightarrow> fail
      | Some bs \<Rightarrow>
          if device_fd < 0 \<or> length bs = 0 then fail
          else
            bnd (xmm626_hsic_command_send device_fd XMM626_COMMAND_FLASH_SET_ADDRESS
                   (Some (le32 address)) XMM626_HSIC_FLASH_SET_ADDRESS_SIZE True)
              (\<lambda>_. modem_data_loop device_fd bs))"

definition xmm626_hsic_port_config_send :: "client_env option \<Rightarrow> int \<Rightarrow> unit io" where
  "xmm626_hsic_port_config_send client device_fd =
     (if client = None \<or> device_fd < 0 then fail
      else
        bnd select_ready (\<lambda>_.
        bnd select_ready (\<lambda>_.
        bnd (read_whole XMM626_HSIC_PORT_CONFIG_SIZE) (\<lambda>buffer.
        xmm626_hsic_command_send device_fd XMM626_COMMAND_SET_PORT_CONFIG (Some buffer)
          XMM626_HSIC_SET_PORT_CONFIG_SIZE True))))"

definition xmm626_hsic_sec_start_send :: "client_env option \<Rightarrow> int \<Rightarrow> u8 list option \<Rightarrow> unit io" where
  "xmm626_hsic_sec_start_send client device_fd sec_data =
     (case (client, sec_data) of
        (Some _, Some bs) \<Rightarrow>
          if device_fd < 0 \<or> length bs = 0 then fail
          else xmm626_hsic_command_send device_fd XMM626_COMMAND_SEC_START (Some bs)
                 XMM626_HSIC_SEC_START_SIZE True
      | _ \<Rightarrow> fail)"

definition xmm626_hsic_sec_end_send :: "client_env option \<Rightarrow> int \<Rightarrow> unit io" where
  "xmm626_hsic_sec_end_send client device_fd =
     (if client = None \<or> device_fd < 0 then fail
      else xmm626_hsic_command_send device_fd XMM626_COMMAND_SEC_END (Some (le16 XMM626_SEC_END_MAGIC))
             XMM626_HSIC_SEC_END_SIZE True)"

definition xmm626_hsic_firmware_send :: "client_env option \<Rightarrow> int \<Rightarrow> u8 list option \<Rightarrow> unit io" where
  "xmm626_hsic_firmware_send client device_fd firmware_data =
     (case (client, firmware_data) of
        (Some _, Some bs) \<Rightarrow>
          if device_fd < 0 \<or> length bs = 0 then fail
          else xmm626_hsic_modem_data_send device_fd (Some bs) XMM626_FIRMWARE_ADDRESS
      | _ \<Rightarrow> fail)"

definition xmm626_hsic_nv_data_send :: "(u8 list \<Rightarrow> u8 list) \<Rightarrow> client_env option \<Rightarrow> int \<Rightarrow> unit io" where
  "xmm626_hsic_nv_data_send md5 client device_fd =
     (if client = None \<or> device_fd < 0 then fail
      else if ipc_client_nv_data_size client = 0 then fail
      else
        bnd (ipc_nv_data_load md5 client) (\<lambda>nv_data.
        xmm626_hsic_modem_data_send device_fd (Some nv_data) XMM626_NV_DATA_ADDRESS))"

definition xmm626_hsic_hw_reset_send :: "client_env option \<Rightarrow> int \<Rightarrow> unit io" where
  "xmm626_hsic_hw_reset_send client device_fd =
     (if client = None \<or> device_fd < 0 then fail
      else xmm626_hsic_command_send device_fd XMM626_COMMAND_HW_RESET (Some (le32 XMM626_HW_RESET_MAGIC))
             XMM626_HSIC_HW_RESET_SIZE False)"


lemma silent_ack_read [silent_intros]: "silent fd (xmm626_hsic_ack_read fd' ack)"
  unfolding xmm626_hsic_ack_read_def by (rule silent_intros)

section \<open>What the PSI stage sends\<close>

definition psi_stage :: "nat \<Rightarrow> u16 \<Rightarrow> u8 list \<Rightarrow> u8 list" where
  "psi_stage k psi_size psi = concat (replicate k XMM626_AT) @ [0x30] @ le16 psi_size @ [0xff] @ psi @
     [foldl (XOR) 0 psi]"

lemma emits_psi_send:
  "emits fd (xmm626_hsic_psi_send client fd (Some mem) psi_size)
     (\<lambda>out. \<exists>k psi. 1 \<le> k \<and> k \<le> 51 \<and> psi = take (unat psi_size) mem \<and> length psi = unat psi_size \<and>
       out = psi_stage k psi_size psi)"
proof -
  let ?psi = "take (unat psi_size) mem"
  let ?tail = "\<lambda>psi. bnd (write_loop (sys_write fd) None psi) (\<lambda>_.
            bnd (write_whole fd [xmm626_crc_calculate (Some psi)]) (\<lambda>_.
            bnd (read_bytes XMM626_HSIC_PSI_UNKNOWN_COUNT) (\<lambda>_.
            bnd (read_bytes XMM626_HSIC_PSI_CRC_ACK_COUNT) (\<lambda>_.
            xmm626_hsic_ack_read fd XMM626_HSIC_PSI_ACK))))"
  let ?good = "\<lambda>out. out = ?psi @ [foldl (XOR) 0 ?psi] \<and> length ?psi = unat psi_size"
  have crc: "emits fd (bnd (write_whole fd [xmm626_crc_calculate (Some psi)]) (\<lambda>_.
            bnd (read_bytes XMM626_HSIC_PSI_UNKNOWN_COUNT) (\<lambda>_.
            bnd (read_bytes XMM626_HSIC_PSI_CRC_ACK_COUNT) (\<lambda>_.
            xmm626_hsic_ack_read fd XMM626_HSIC_PSI_ACK)))) (\<lambda>out. out = [foldl (XOR) 0 psi])" for psi
    by (rule emits_last [OF emits_mono [OF emits_write_whole]])
      (auto simp: xmm626_crc_calculate_def intro!: silent_intros)
  have body: "emits fd (bnd (lift_outcome (peek 0 (unat psi_size) mem)) ?tail) ?good"
  proof (rule emits_skip_value [OF silent_simple(5)])
    fix psi v v'
    assume "lift_outcome (peek 0 (unat psi_size) mem) v = (Done psi, v')"
    then have psi: "psi = ?psi" "length ?psi = unat psi_size"
      by (auto simp: lift_outcome_eq peek_def split: if_splits)
    show "emits fd (?tail psi) ?good"
      by (rule emits_bnd [OF emits_write_loop crc]) (use psi in auto)
  qed
  have image: "emits fd (bnd (write_whole fd (psi_header_bytes psi_size)) (\<lambda>_.
      bnd (lift_outcome (peek 0 (unat psi_size) mem)) ?tail))
      (\<lambda>out. out = psi_header_bytes psi_size @ ?psi @ [foldl (XOR) 0 ?psi] \<and> length ?psi = unat psi_size)"
    by (rule emits_bnd [OF emits_write_whole body]) blast
  have "emits fd (bnd (at_loop 51 fd) (\<lambda>_. bnd (read_bytes 1) (\<lambda>_. bnd (read_bytes 1) (\<lambda>_.
      bnd (write_whole fd (psi_header_bytes psi_size)) (\<lambda>_.
      bnd (lift_outcome (peek 0 (unat psi_size) mem)) ?tail)))))
      (\<lambda>out. \<exists>k. 1 \<le> k \<and> k \<le> 51 \<and> length ?psi = unat psi_size \<and>
        out = concat (replicate k XMM626_AT) @ psi_header_bytes psi_size @ ?psi @ [foldl (XOR) 0 ?psi])"
    by (rule emits_bnd [OF emits_at_loop emits_skip [OF silent_read_bytes
          emits_skip [OF silent_read_bytes image]]]) blast
  then show ?thesis
    by (auto simp: xmm626_hsic_psi_send_def psi_header_bytes_def XMM626_PSI_MAGIC_def XMM626_PSI_PADDING_def
        psi_stage_def emits_fail split: option.splits elim!: emits_mono)
qed


lemma completes_ack_read: "completes willing (xmm626_hsic_ack_read fd ack) [le16 ack] (\<lambda>_. True)"
  using completes_ack_loop [of "le16 ack" 2 ack 49] by (simp add: xmm626_hsic_ack_read_def layout_simps)

section \<open>Frames\<close>

definition hsic_frame :: "u16 \<Rightarrow> nat \<Rightarrow> u8 list \<Rightarrow> u8 list" where
  "hsic_frame code n data =
     le16 (command_checksum code data) @ le16 code @ le32 (of_nat (length data)) @ data @ calloc (n - length data)"

lemma hsic_frame_length: "length data \<le> n \<Longrightarrow> length (hsic_frame code n data) = 8 + n"
  by (simp add: hsic_frame_def)

lemma command_buffer:
  assumes "length data \<le> n"
  shows "pokes 0 [hsic_command_header_bytes \<lparr>hch_checksum = checksum_loop (of_nat (length data mod 0x10000) + code) data,
       hch_code = code, hch_data_size = of_nat (length data)\<rparr>, data] (calloc (n + 8)) = Done (hsic_frame code n data)"
  using assms pokes_calloc_from [of "[le16 (command_checksum code data) @ le16 code @ le32 (of_nat (length data)), data]" "n + 8" "[]"]
  by (simp add: hsic_command_header_bytes_def hsic_frame_def command_checksum_def checksum_loop_sum
      of_nat_mod_u16 layout_simps)

text \<open>The body of the command once its arguments are accepted.\<close>

lemma command_send_eq:
  assumes "0 \<le> fd" "data \<noteq> []" "length data \<le> n"
  shows "xmm626_hsic_command_send fd code (Some data) n ack =
    bnd (write_whole fd (hsic_frame code n data)) (\<lambda>_.
      if \<not> ack then ret ()
      else bnd select_ready (\<lambda>_. bnd (read_whole 8) (\<lambda>header. bnd select_ready (\<lambda>_.
        bnd (read_whole n) (\<lambda>_. check (get16 (drop 2 header) = code))))))"
proof -
  have "n \<noteq> 0" using assms(2,3) by (cases data) auto
  with assms show ?thesis
    by (simp add: xmm626_hsic_command_send_def Let_def command_buffer bnd_lift del: pokes.simps)
qed

lemma command_send_refused:
  "fd < 0 \<or> data = [] \<or> n < length data \<Longrightarrow> xmm626_hsic_command_send fd code (Some data) n ack = fail"
  by (auto simp: xmm626_hsic_command_send_def Let_def)

lemma emits_command:
  "emits fd (xmm626_hsic_command_send fd code (Some data) n ack) (\<lambda>out. out = hsic_frame code n data)"
proof (cases "fd < 0 \<or> data = [] \<or> n < length data")
  case True
  then show ?thesis unfolding command_send_refused [OF True] by (simp add: emits_fail)
next
  case False
  then have ok: "0 \<le> fd" "data \<noteq> []" "length data \<le> n" by auto
  show ?thesis
    unfolding command_send_eq [OF ok]
    by (rule emits_last [OF emits_write_whole]) (intro silent_intros)
qed

lemma completes_command:
  assumes "0 \<le> fd" "data \<noteq> []" "length data \<le> n" "n \<le> 0x4000"
  shows "completes willing (xmm626_hsic_command_send fd code (Some data) n False) [] (\<lambda>_. True)"
    and "length header = 8 \<Longrightarrow> length body = n \<Longrightarrow> get16 (drop 2 header) = code \<Longrightarrow>
      completes willing (xmm626_hsic_command_send fd code (Some data) n True) [header, body] (\<lambda>_. True)"
proof -
  have out: "completes willing (write_whole fd (hsic_frame code n data)) [] (\<lambda>_. True)"
    by (rule completes_write_whole) (use assms in \<open>simp add: hsic_frame_length\<close>)
  show "completes willing (xmm626_hsic_command_send fd code (Some data) n False) [] (\<lambda>_. True)"
    unfolding command_send_eq [OF assms(1-3)]
    by (rule completes_then [OF out]) (simp add: completes_ret)
  assume h: "length header = 8" "length body = n" "get16 (drop 2 header) = code"
  have last: "completes willing (bnd (read_whole n) (\<lambda>_. check (get16 (drop 2 hd) = code))) [body] (\<lambda>_. True)"
    if "hd = header" for hd
    using completes_bnd [OF completes_read_whole [OF h(2)], where ss = "[]" and
      f = "\<lambda>_. check (get16 (drop 2 hd) = code)" and Q = "\<lambda>_. True"] h(3) that by (simp add: completes_check)
  have "completes willing (bnd (read_whole 8) (\<lambda>hd. bnd select_ready (\<lambda>_. bnd (read_whole n)
      (\<lambda>_. check (get16 (drop 2 hd) = code))))) ([header] @ [body]) (\<lambda>_. True)"
    by (rule completes_bnd [OF completes_read_whole [OF h(1)]])
      (intro completes_then [OF completes_select_ready] last)
  then show "completes willing (xmm626_hsic_command_send fd code (Some data) n True) [header, body] (\<lambda>_. True)"
    unfolding command_send_eq [OF assms(1-3)]
    by (intro completes_then [OF out]) (simp add: completes_then [OF completes_select_ready])
qed

definition hsic_image :: "u8 list list \<Rightarrow> u8 list" where
  "hsic_image cs = concat (map (hsic_frame 0x804 0x4000) cs)"

lemma modem_data_loop_step:
  "modem_data_loop fd p = (if p \<noteq> [] then
     bnd (xmm626_hsic_command_send fd 0x804 (Some (take 0x4000 p)) 0x4000 False) (\<lambda>_. modem_data_loop fd (drop 0x4000 p))
   else ret ())"
  by (subst modem_data_loop.simps) (simp add: XMM626_HSIC_MODEM_DATA_CHUNK_def
      XMM626_COMMAND_FLASH_WRITE_BLOCK_def XMM626_HSIC_FLASH_WRITE_BLOCK_SIZE_def)

lemma adds_hsic_command [adds_intros]:
  "adds transfer (xmm626_hsic_command_send fd code data n ack)"
  by (auto simp: xmm626_hsic_command_send_def Let_def intro!: adds_intros split: option.split)

text \<open>A block of the image needs no answer.\<close>

interpretation hsic_data: block_sender "\<lambda>fd c. xmm626_hsic_command_send fd 0x804 (Some c) 0x4000 False"
  "hsic_frame 0x804 0x4000" "\<lambda>rs. rs = []" "0x4000" modem_data_loop
proof
  show "0 \<le> fd \<Longrightarrow> 0 < length c \<Longrightarrow> length c \<le> 0x4000 \<Longrightarrow> rs = [] \<Longrightarrow>
      completes willing (xmm626_hsic_command_send fd 0x804 (Some c) 0x4000 False) rs (\<lambda>_. True)" for fd c rs
    using completes_command(1) by simp
qed (rule modem_data_loop_step, simp, rule emits_command, rule adds_hsic_command)

lemma completes_modem_data_loop: "0 \<le> fd \<Longrightarrow> completes willing (modem_data_loop fd p) [] (\<lambda>_. True)"
proof -
  assume fd: "0 \<le> fd"
  obtain cs where cs: "blocks_of 0x4000 cs p" using blocks_exist [of "0x4000" p] by auto
  from hsic_data.image_accepted [OF cs, where rss = "replicate (length cs) []"] fd show ?thesis by simp
qed

text \<open>The answer to a command: a header that repeats its code, then a block of the same size.\<close>

definition hsic_reply :: "u16 \<Rightarrow> nat \<Rightarrow> u8 list list \<Rightarrow> bool" where
  "hsic_reply code n rs \<longleftrightarrow> (\<exists>header body. rs = [header, body] \<and> length header = 8 \<and> length body = n \<and>
     get16 (drop 2 header) = code)"

lemma completes_acked:
  "0 \<le> fd \<Longrightarrow> data \<noteq> [] \<Longrightarrow> length data \<le> n \<Longrightarrow> n \<le> 0x4000 \<Longrightarrow> hsic_reply code n rs \<Longrightarrow>
   completes willing (xmm626_hsic_command_send fd code (Some data) n True) rs (\<lambda>_. True)"
  using completes_command(2) [of fd data n] unfolding hsic_reply_def by blast

lemma completes_psi_send:
  assumes "0 \<le> fd" "psi_size \<noteq> 0" "unat psi_size \<le> length mem"
    and "length bytes = 26" "\<forall>r \<in> set bytes. length r = 1"
  shows "completes willing (xmm626_hsic_psi_send (Some c) fd (Some mem) psi_size) (bytes @ [le16 XMM626_HSIC_PSI_ACK]) (\<lambda>_. True)"
proof -
  define b1 b2 b3 b4 where b: "b1 = take 1 bytes" "b2 = take 1 (drop 1 bytes)" "b3 = take 22 (drop 2 bytes)" "b4 = drop 24 bytes"
  have "drop 2 bytes = b3 @ b4"
    using append_take_drop_id [of 22 "drop 2 bytes"] by (simp add: b)
  moreover have "drop 1 bytes = b2 @ drop 2 bytes"
    using append_take_drop_id [of 1 "drop 1 bytes"] by (simp add: b numeral_2_eq_2)
  moreover have "bytes = b1 @ drop 1 bytes" by (simp add: b)
  ultimately have split: "bytes = b1 @ b2 @ b3 @ b4" by simp
  have l: "length b1 = 1" "length b2 = 1" "length b3 = 22" "length b4 = 2"
    using assms(4) by (simp_all add: b)
  have s: "\<forall>r \<in> set b1. length r = 1" "\<forall>r \<in> set b2. length r = 1" "\<forall>r \<in> set b3. length r = 1" "\<forall>r \<in> set b4. length r = 1"
    using assms(5) by (simp_all add: split)
  have small: "length (psi_header_bytes psi_size) \<le> 0x8000" "length [xmm626_crc_calculate x] \<le> 0x8000" for x
    by (simp_all add: psi_header_bytes_def)
  have ack: "completes willing (bnd (read_bytes XMM626_HSIC_PSI_UNKNOWN_COUNT) (\<lambda>_.
      bnd (read_bytes XMM626_HSIC_PSI_CRC_ACK_COUNT) (\<lambda>_. xmm626_hsic_ack_read fd XMM626_HSIC_PSI_ACK)))
      (b3 @ b4 @ [le16 XMM626_HSIC_PSI_ACK]) (\<lambda>_. True)"
    by (intro completes_bnd [OF completes_read_bytes] completes_ack_read)
      (use l s in \<open>simp_all add: XMM626_HSIC_PSI_UNKNOWN_COUNT_def XMM626_HSIC_PSI_CRC_ACK_COUNT_def\<close>)
  have image: "completes willing (bnd (write_whole fd (psi_header_bytes psi_size)) (\<lambda>_.
      bnd (write_loop (sys_write fd) None psi) (\<lambda>_.
      bnd (write_whole fd [xmm626_crc_calculate (Some psi)]) (\<lambda>_.
      bnd (read_bytes XMM626_HSIC_PSI_UNKNOWN_COUNT) (\<lambda>_.
      bnd (read_bytes XMM626_HSIC_PSI_CRC_ACK_COUNT) (\<lambda>_. xmm626_hsic_ack_read fd XMM626_HSIC_PSI_ACK))))))
      (b3 @ b4 @ [le16 XMM626_HSIC_PSI_ACK]) (\<lambda>_. True)" for psi
    by (intro completes_then [OF completes_write_whole] completes_then [OF completes_write_loop] ack small) simp
  have "completes willing (bnd (at_loop 51 fd) (\<lambda>_. bnd (read_bytes 1) (\<lambda>_. bnd (read_bytes 1) (\<lambda>_.
      bnd (write_whole fd (psi_header_bytes psi_size)) (\<lambda>_.
      bnd (write_loop (sys_write fd) None psi) (\<lambda>_.
      bnd (write_whole fd [xmm626_crc_calculate (Some psi)]) (\<lambda>_.
      bnd (read_bytes XMM626_HSIC_PSI_UNKNOWN_COUNT) (\<lambda>_.
      bnd (read_bytes XMM626_HSIC_PSI_CRC_ACK_COUNT) (\<lambda>_. xmm626_hsic_ack_read fd XMM626_HSIC_PSI_ACK)))))))))
      (b1 @ b2 @ b3 @ b4 @ [le16 XMM626_HSIC_PSI_ACK]) (\<lambda>_. True)" for psi
    using completes_at_loop [of 50 fd] l s
    by (intro completes_then [OF _ completes_bnd [OF completes_read_bytes completes_bnd [OF completes_read_bytes image]]])
      simp_all
  with assms(1-3) show ?thesis
    unfolding split append_assoc by (simp add: xmm626_hsic_psi_send_def peek_def bnd_lift)
qed

section \<open>The stages\<close>

definition ebl_stage :: "u8 list \<Rightarrow> u8 list" where
  "ebl_stage ebl = le32 (of_nat (length ebl)) @ ebl @ [foldl (XOR) 0 ebl]"

definition modem_data_stage :: "u32 \<Rightarrow> u8 list list \<Rightarrow> u8 list" where
  "modem_data_stage address cs = hsic_frame 0x802 0x4000 (le32 address) @ hsic_image cs"

lemma emits_ebl_send:
  "emits fd (xmm626_hsic_ebl_send client fd (Some ebl)) (\<lambda>out. out = ebl_stage ebl)"
proof -
  have crc: "emits fd (bnd (write_whole fd [xmm626_crc_calculate (Some ebl)])
      (\<lambda>_. xmm626_hsic_ack_read fd XMM626_HSIC_EBL_ACK)) (\<lambda>out. out = [foldl (XOR) 0 ebl])"
    by (rule emits_last [OF emits_mono [OF emits_write_whole] silent_ack_read])
      (simp add: xmm626_crc_calculate_def)
  have rest: "emits fd (bnd (write_loop (sys_write fd) (Some XMM626_HSIC_EBL_CHUNK) ebl) (\<lambda>_.
      bnd (write_whole fd [xmm626_crc_calculate (Some ebl)]) (\<lambda>_.
      xmm626_hsic_ack_read fd XMM626_HSIC_EBL_ACK))) (\<lambda>out. out = ebl @ [foldl (XOR) 0 ebl])"
    by (rule emits_bnd [OF emits_write_loop crc]) simp
  have "emits fd (bnd (write_whole fd (le32 (of_nat (length ebl)))) (\<lambda>_.
      bnd (xmm626_hsic_ack_read fd XMM626_HSIC_EBL_SIZE_ACK) (\<lambda>_.
      bnd (write_loop (sys_write fd) (Some XMM626_HSIC_EBL_CHUNK) ebl) (\<lambda>_.
      bnd (write_whole fd [xmm626_crc_calculate (Some ebl)]) (\<lambda>_.
      xmm626_hsic_ack_read fd XMM626_HSIC_EBL_ACK))))) (\<lambda>out. out = ebl_stage ebl)"
    by (rule emits_bnd [OF emits_write_whole emits_skip [OF silent_ack_read rest]]) (simp add: ebl_stage_def)
  then show ?thesis
    by (simp add: xmm626_hsic_ebl_send_def emits_fail split: option.split)
qed

lemma completes_ebl_send:
  assumes "0 \<le> fd" "ebl \<noteq> []"
  shows "completes willing (xmm626_hsic_ebl_send (Some c) fd (Some ebl))
    [le16 XMM626_HSIC_EBL_SIZE_ACK, le16 XMM626_HSIC_EBL_ACK] (\<lambda>_. True)"
proof -
  have "completes willing (bnd (write_loop (sys_write fd) (Some XMM626_HSIC_EBL_CHUNK) ebl) (\<lambda>_.
      bnd (write_whole fd [xmm626_crc_calculate (Some ebl)]) (\<lambda>_.
      xmm626_hsic_ack_read fd XMM626_HSIC_EBL_ACK))) [le16 XMM626_HSIC_EBL_ACK] (\<lambda>_. True)"
    by (intro completes_then [OF completes_write_loop] completes_then [OF completes_write_whole] completes_ack_read)
      (simp_all add: hsic_sizes)
  from completes_bnd [OF completes_ack_read [of fd XMM626_HSIC_EBL_SIZE_ACK] this]
  have "completes willing (bnd (write_whole fd (le32 (of_nat (length ebl)))) (\<lambda>_.
      bnd (xmm626_hsic_ack_read fd XMM626_HSIC_EBL_SIZE_ACK) (\<lambda>_.
      bnd (write_loop (sys_write fd) (Some XMM626_HSIC_EBL_CHUNK) ebl) (\<lambda>_.
      bnd (write_whole fd [xmm626_crc_calculate (Some ebl)]) (\<lambda>_.
      xmm626_hsic_ack_read fd XMM626_HSIC_EBL_ACK)))))
      [le16 XMM626_HSIC_EBL_SIZE_ACK, le16 XMM626_HSIC_EBL_ACK] (\<lambda>_. True)"
    by (intro completes_then [OF completes_write_whole]) simp_all
  with assms show ?thesis by (simp add: xmm626_hsic_ebl_send_def)
qed

lemma emits_modem_data_send:
  "emits fd (xmm626_hsic_modem_data_send fd (Some bs) address)
     (\<lambda>out. \<exists>cs. blocks_of 0x4000 cs bs \<and> out = modem_data_stage address cs)"
proof -
  have "emits fd (bnd (xmm626_hsic_command_send fd XMM626_COMMAND_FLASH_SET_ADDRESS
      (Some (le32 address)) XMM626_HSIC_FLASH_SET_ADDRESS_SIZE True) (\<lambda>_. modem_data_loop fd bs))
     (\<lambda>out. \<exists>cs. blocks_of 0x4000 cs bs \<and> out = modem_data_stage address cs)"
    by (rule emits_bnd [OF emits_command hsic_data.image_sent])
      (auto simp: modem_data_stage_def hsic_image_def XMM626_COMMAND_FLASH_SET_ADDRESS_def hsic_sizes)
  then show ?thesis by (simp add: xmm626_hsic_modem_data_send_def emits_fail)
qed

lemma completes_modem_data_send:
  assumes "0 \<le> fd" "bs \<noteq> []" "hsic_reply 0x802 0x4000 rs"
  shows "completes willing (xmm626_hsic_modem_data_send fd (Some bs) address) rs (\<lambda>_. True)"
proof -
  have "completes willing (xmm626_hsic_command_send fd XMM626_COMMAND_FLASH_SET_ADDRESS
      (Some (le32 address)) XMM626_HSIC_FLASH_SET_ADDRESS_SIZE True) rs (\<lambda>_. True)"
    by (rule completes_acked)
      (use assms in \<open>simp_all add: le32_def hsic_sizes XMM626_COMMAND_FLASH_SET_ADDRESS_def\<close>)
  from completes_bnd [OF this completes_modem_data_loop [OF assms(1), of bs]] assms show ?thesis
    by (simp add: xmm626_hsic_modem_data_send_def)
qed

text \<open>The stages that are one command.\<close>

lemma emits_commands:
  "emits fd (xmm626_hsic_sec_start_send client fd (Some bs)) (\<lambda>out. out = hsic_frame 0x204 0x4000 bs)"
  "emits fd (xmm626_hsic_sec_end_send client fd) (\<lambda>out. out = hsic_frame 0x205 0x4000 [0, 0])"
  "emits fd (xmm626_hsic_hw_reset_send client fd) (\<lambda>out. out = hsic_frame 0x208 0x4000 [0x01, 0x10, 0x11, 0])"
proof -
  have m: "le16 XMM626_SEC_END_MAGIC = [0, 0]" "le32 XMM626_HW_RESET_MAGIC = [0x01, 0x10, 0x11, 0]"
    by (simp_all add: XMM626_SEC_END_MAGIC_def XMM626_HW_RESET_MAGIC_def le16_def le32_def drop_bit_eq_div)
  show "emits fd (xmm626_hsic_sec_start_send client fd (Some bs)) (\<lambda>out. out = hsic_frame 0x204 0x4000 bs)"
    using emits_command by (auto simp: xmm626_hsic_sec_start_send_def emits_fail XMM626_COMMAND_SEC_START_def
        hsic_sizes split: option.split)
  show "emits fd (xmm626_hsic_sec_end_send client fd) (\<lambda>out. out = hsic_frame 0x205 0x4000 [0, 0])"
    using emits_command by (auto simp: xmm626_hsic_sec_end_send_def emits_fail XMM626_COMMAND_SEC_END_def
        hsic_sizes m)
  show "emits fd (xmm626_hsic_hw_reset_send client fd) (\<lambda>out. out = hsic_frame 0x208 0x4000 [0x01, 0x10, 0x11, 0])"
    using emits_command by (auto simp: xmm626_hsic_hw_reset_send_def emits_fail XMM626_COMMAND_HW_RESET_def
        hsic_sizes m)
qed

text \<open>The port configuration goes back to the modem as the modem sent it.\<close>

lemma emits_port_config:
  "emits fd (xmm626_hsic_port_config_send client fd)
     (\<lambda>out. \<exists>config. length config = 0x4C \<and> out = hsic_frame 0x86 0x800 config)"
proof -
  have "emits fd (bnd (read_whole 0x4C) (\<lambda>buffer. xmm626_hsic_command_send fd 0x86 (Some buffer) 0x800 True))
     (\<lambda>out. \<exists>config. length config = 0x4C \<and> out = hsic_frame 0x86 0x800 config)"
  proof (rule emits_skip_value [OF silent_steps(2)])
    fix a w w'
    assume rd: "read_whole 0x4C w = (Done a, w')"
    then obtain r w1 where r: "sys_read 0x4C w = (Done r, w1)" "r = Some a" "\<not> length a < 0x4C"
      by (auto simp: read_whole_def bnd_eq_Done fail_eq ret_eq split: option.splits if_splits)
    with sys_read_length have "length a = 0x4C" by fastforce
    then show "emits fd (xmm626_hsic_command_send fd 0x86 (Some a) 0x800 True)
        (\<lambda>out. \<exists>config. length config = 0x4C \<and> out = hsic_frame 0x86 0x800 config)"
      by (intro emits_mono [OF emits_command]) blast
  qed
  then show ?thesis
    by (auto simp: xmm626_hsic_port_config_send_def emits_fail hsic_sizes XMM626_COMMAND_SET_PORT_CONFIG_def
        intro!: emits_skip [OF silent_steps(1)])
qed

lemmas adds_modem_data_loop [adds_intros] = hsic_data.image_events

lemma adds_hsic_stages [adds_intros]:
  "adds transfer (xmm626_hsic_psi_send client fd mem psi_size)"
  "adds transfer (xmm626_hsic_ebl_send client fd ebl)"
  "adds transfer (xmm626_hsic_port_config_send client fd)"
  "adds transfer (xmm626_hsic_sec_start_send client fd sec)"
  "adds transfer (xmm626_hsic_sec_end_send client fd)"
  "adds transfer (xmm626_hsic_firmware_send client fd firmware)"
  "adds transfer (xmm626_hsic_nv_data_send md5 client fd)"
  "adds transfer (xmm626_hsic_hw_reset_send client fd)"
  by (auto simp: xmm626_hsic_psi_send_def xmm626_hsic_ebl_send_def xmm626_hsic_ack_read_def
      xmm626_hsic_port_config_send_def xmm626_hsic_sec_start_send_def xmm626_hsic_sec_end_send_def
      xmm626_hsic_firmware_send_def xmm626_hsic_nv_data_send_def xmm626_hsic_hw_reset_send_def
      xmm626_hsic_modem_data_send_def intro!: adds_intros split: option.split)

lemma unchanged_hsic_command [unchanged_intros]:
  "device_blind f \<Longrightarrow> unchanged f (xmm626_hsic_command_send fd code data n ack)"
  by (auto simp: xmm626_hsic_command_send_def Let_def intro!: unchanged_intros split: option.split)

lemma unchanged_modem_data_loop [unchanged_intros]: "device_blind f \<Longrightarrow> unchanged f (modem_data_loop fd p)"
  by (rule hsic_data.image_unchanged) (rule unchanged_hsic_command)

lemma unchanged_hsic_stages [unchanged_intros]:
  assumes "device_blind f"
  shows "unchanged f (xmm626_hsic_psi_send client fd mem psi_size)"
    "unchanged f (xmm626_hsic_ebl_send client fd ebl)"
    "unchanged f (xmm626_hsic_port_config_send client fd)"
    "unchanged f (xmm626_hsic_sec_start_send client fd sec)"
    "unchanged f (xmm626_hsic_sec_end_send client fd)"
    "unchanged f (xmm626_hsic_firmware_send client fd firmware)"
    "unchanged f (xmm626_hsic_modem_data_send fd data address)"
    "unchanged f (xmm626_hsic_hw_reset_send client fd)"
  by (auto simp: xmm626_hsic_psi_send_def xmm626_hsic_ebl_send_def xmm626_hsic_ack_read_def
      xmm626_hsic_port_config_send_def xmm626_hsic_sec_start_send_def xmm626_hsic_sec_end_send_def
      xmm626_hsic_firmware_send_def xmm626_hsic_hw_reset_send_def
      xmm626_hsic_modem_data_send_def intro!: unchanged_intros assms split: option.split)

text \<open>The NV data stage sends what the NV data store then holds and vouches for.\<close>

lemma nv_data_send_Done:
  assumes "nv_configured c p m bp bm secret sz ck"
    and "xmm626_hsic_nv_data_send md5 (Some c) fd w = (Done u, w')"
  shows "\<exists>nv cs. blocks_of 0x4000 cs nv \<and> sent fd w' = sent fd w @ modem_data_stage XMM626_NV_DATA_ADDRESS cs \<and>
    w_files w' p = Some nv \<and> nv_valid md5 secret sz (w_files w') p m"
proof -
  obtain nv w1 where ld: "ipc_nv_data_load md5 (Some c) w = (Done nv, w1)" and
      snd: "xmm626_hsic_modem_data_send fd (Some nv) XMM626_NV_DATA_ADDRESS w1 = (Done u, w')"
    using assms(2) by (auto simp: xmm626_hsic_nv_data_send_def fail_eq bnd_eq_Done split: if_splits)
  have v: "w_files w1 p = Some nv \<and> nv_valid md5 secret sz (w_files w1) p m"
    by (rule nv_device.load_Done [OF nv_deviceI [OF assms(1)] ld])
  have "sent fd w1 = sent fd w"
    using unchangedD [OF stable_nv(5) [OF trace_stable, THEN unchanged_stable] ld] by (simp add: sent_def)
  moreover have "w_files w' = w_files w1"
    by (rule unchangedD [OF unchanged_hsic_stages(7) snd]) (simp add: device_blind_def)
  ultimately show ?thesis using emitsD [OF emits_modem_data_send snd] v by metis
qed

section \<open>Properties\<close>

text \<open>
  C31: when the PSI stage succeeds, the modem was sent the wake-up text 1 to 51 times, the PSI
  header with the length of the image, the whole image and the exclusive or of its bytes, in
  this order and nothing else; and the stage succeeds when the modem sends 26 single bytes and
  the acknowledgement 0xAA00.
\<close>

theorem psi_send_bytes:
  "(xmm626_hsic_psi_send client fd (Some mem) psi_size w = (Done u, w') \<longrightarrow>
      (\<exists>k psi. 1 \<le> k \<and> k \<le> 51 \<and> psi = take (unat psi_size) mem \<and> length psi = unat psi_size \<and>
        sent fd w' = sent fd w @ concat (replicate k (ascii ''ATAT'')) @ [0x30] @ le16 psi_size @ [0xff] @ psi @
          [foldl (XOR) 0 psi])) \<and>
   (willing w \<and> 0 \<le> fd \<and> psi_size \<noteq> 0 \<and> unat psi_size \<le> length mem \<and> client \<noteq> None \<and>
      length bytes = 26 \<and> (\<forall>r \<in> set bytes. length r = 1) \<and>
      w_rd w = map Some (bytes @ [[0x00, 0xAA]]) @- rest \<longrightarrow>
      (\<exists>w'. xmm626_hsic_psi_send client fd (Some mem) psi_size w = (Done (), w') \<and> w_rd w' = rest))"
proof (intro conjI impI)
  assume "xmm626_hsic_psi_send client fd (Some mem) psi_size w = (Done u, w')"
  from emitsD [OF emits_psi_send this]
  show "\<exists>k psi. 1 \<le> k \<and> k \<le> 51 \<and> psi = take (unat psi_size) mem \<and> length psi = unat psi_size \<and>
      sent fd w' = sent fd w @ concat (replicate k (ascii ''ATAT'')) @ [0x30] @ le16 psi_size @ [0xff] @ psi @
        [foldl (XOR) 0 psi]"
    by (auto simp: psi_stage_def XMM626_AT_def)
next
  have "[0x00, 0xAA] = le16 XMM626_HSIC_PSI_ACK"
    by (simp add: XMM626_HSIC_PSI_ACK_def le16_def drop_bit_eq_div)
  moreover assume "willing w \<and> 0 \<le> fd \<and> psi_size \<noteq> 0 \<and> unat psi_size \<le> length mem \<and> client \<noteq> None \<and>
      length bytes = 26 \<and> (\<forall>r \<in> set bytes. length r = 1) \<and> w_rd w = map Some (bytes @ [[0x00, 0xAA]]) @- rest"
  ultimately show "\<exists>w'. xmm626_hsic_psi_send client fd (Some mem) psi_size w = (Done (), w') \<and> w_rd w' = rest"
    using completesD [OF completes_psi_send [of fd psi_size mem bytes], of w rest] by fastforce
qed

theorem psi_send_bytes_witness:
  "\<exists>k w'. 1 \<le> k \<and> k \<le> 51 \<and>
     xmm626_hsic_psi_send (Some demo_env) 3 (Some [1, 2, 3]) 2 (demo_boot (replicate 26 [7] @ [[0x00, 0xAA]])) = (Done (), w') \<and>
     sent 3 w' = concat (replicate k (ascii ''ATAT'')) @ [0x30, 2, 0, 0xff, 1, 2, 3]"
proof -
  let ?w = "demo_boot (replicate 26 [7] @ [[0x00, 0xAA]])"
  obtain w' where w': "xmm626_hsic_psi_send (Some demo_env) 3 (Some [1, 2, 3]) 2 ?w = (Done (), w')"
    using psi_send_bytes [of "Some demo_env" 3 "[1, 2, 3]" 2 ?w "()" undefined "replicate 26 [7]" "sconst None"]
    by (auto simp: demo_boot_simps)
  then obtain k where "1 \<le> k" "k \<le> 51" "sent 3 w' = sent 3 ?w @ concat (replicate k (ascii ''ATAT'')) @ [0x30] @
      le16 2 @ [0xff] @ take (unat (2 :: u16)) [1, 2, 3] @ [foldl (XOR) 0 (take (unat (2 :: u16)) [1, 2, 3])]"
    using psi_send_bytes [of "Some demo_env" 3 "[1, 2, 3]" 2 ?w "()" w'] by blast
  moreover have "le16 2 = [2, 0]" "take (unat (2 :: u16)) [1, 2, 3 :: u8] = [1, 2]"
    by (simp_all add: le16_def drop_bit_eq_div take_Cons')
  ultimately show ?thesis using w' by (auto simp: demo_boot_simps)
qed

text \<open>
  When the EBL stage succeeds, the modem was sent the length of the image as four bytes, the
  whole image, however the kernel cuts its 16 KiB chunks, and the exclusive or of its bytes; and
  the stage succeeds when the modem acknowledges the length and then the image.
\<close>

theorem ebl_send_bytes:
  "(xmm626_hsic_ebl_send client fd (Some ebl) w = (Done u, w') \<longrightarrow>
      sent fd w' = sent fd w @ le32 (of_nat (length ebl)) @ ebl @ [foldl (XOR) 0 ebl]) \<and>
   (willing w \<and> 0 \<le> fd \<and> ebl \<noteq> [] \<and> client \<noteq> None \<and>
      w_rd w = map Some [[0xCC, 0xCC], [0x51, 0xA5]] @- rest \<longrightarrow>
      (\<exists>w'. xmm626_hsic_ebl_send client fd (Some ebl) w = (Done (), w') \<and> w_rd w' = rest))"
proof (intro conjI impI)
  assume "xmm626_hsic_ebl_send client fd (Some ebl) w = (Done u, w')"
  from emitsD [OF emits_ebl_send this]
  show "sent fd w' = sent fd w @ le32 (of_nat (length ebl)) @ ebl @ [foldl (XOR) 0 ebl]"
    by (auto simp: ebl_stage_def)
next
  have "[[0xCC, 0xCC], [0x51, 0xA5]] = [le16 XMM626_HSIC_EBL_SIZE_ACK, le16 XMM626_HSIC_EBL_ACK]"
    by (simp add: XMM626_HSIC_EBL_SIZE_ACK_def XMM626_HSIC_EBL_ACK_def le16_def drop_bit_eq_div)
  moreover assume "willing w \<and> 0 \<le> fd \<and> ebl \<noteq> [] \<and> client \<noteq> None \<and>
      w_rd w = map Some [[0xCC, 0xCC], [0x51, 0xA5]] @- rest"
  ultimately show "\<exists>w'. xmm626_hsic_ebl_send client fd (Some ebl) w = (Done (), w') \<and> w_rd w' = rest"
    using completesD [OF completes_ebl_send [of fd ebl], of w rest] by fastforce
qed

theorem ebl_send_bytes_witness:
  "\<exists>w'. xmm626_hsic_ebl_send (Some demo_env) 3 (Some [5, 6]) (demo_boot [[0xCC, 0xCC], [0x51, 0xA5]]) = (Done (), w') \<and>
     sent 3 w' = [2, 0, 0, 0, 5, 6, 3]"
proof -
  let ?w = "demo_boot [[0xCC, 0xCC], [0x51, 0xA5]]"
  obtain w' where w': "xmm626_hsic_ebl_send (Some demo_env) 3 (Some [5, 6]) ?w = (Done (), w')"
    using ebl_send_bytes [of "Some demo_env" 3 "[5, 6]" ?w "()" undefined "sconst None"]
    by (auto simp: demo_boot_simps)
  moreover have "le32 2 = [2, 0, 0, 0]" by (simp add: le32_def drop_bit_eq_div)
  ultimately show ?thesis
    using ebl_send_bytes [of "Some demo_env" 3 "[5, 6]" ?w "()" w'] by (auto simp: demo_boot_simps)
qed

text \<open>
  When sending the firmware succeeds, the modem was sent its load address in one command
  and then the image in blocks of 16 KiB, the last of what is left: every block in a frame
  of its own with its checksum, code and length, zero-padded to 16 KiB, and the blocks in
  order are the image; it succeeds when the modem answers the address command.
\<close>

theorem firmware_send_blocks:
  "(xmm626_hsic_firmware_send client fd (Some firmware) w = (Done u, w') \<longrightarrow>
      (\<exists>cs. concat cs = firmware \<and> (\<forall>c \<in> set cs. 0 < length c \<and> length c \<le> 0x4000) \<and>
        (\<forall>c \<in> set (butlast cs). length c = 0x4000) \<and>
        sent fd w' = sent fd w @ hsic_frame 0x802 0x4000 [0, 0, 0x30, 0x60] @
          concat (map (hsic_frame 0x804 0x4000) cs))) \<and>
   (willing w \<and> 0 \<le> fd \<and> firmware \<noteq> [] \<and> client \<noteq> None \<and> hsic_reply 0x802 0x4000 rs \<and>
      w_rd w = map Some rs @- rest \<longrightarrow>
      (\<exists>w'. xmm626_hsic_firmware_send client fd (Some firmware) w = (Done (), w') \<and> w_rd w' = rest))"
proof (intro conjI impI)
  have a: "le32 XMM626_FIRMWARE_ADDRESS = [0, 0, 0x30, 0x60]"
    by (simp add: XMM626_FIRMWARE_ADDRESS_def le32_def drop_bit_eq_div)
  assume "xmm626_hsic_firmware_send client fd (Some firmware) w = (Done u, w')"
  then have "xmm626_hsic_modem_data_send fd (Some firmware) XMM626_FIRMWARE_ADDRESS w = (Done u, w')"
    by (auto simp: xmm626_hsic_firmware_send_def fail_eq split: option.splits if_splits)
  from emitsD [OF emits_modem_data_send this]
  show "\<exists>cs. concat cs = firmware \<and> (\<forall>c \<in> set cs. 0 < length c \<and> length c \<le> 0x4000) \<and>
        (\<forall>c \<in> set (butlast cs). length c = 0x4000) \<and>
        sent fd w' = sent fd w @ hsic_frame 0x802 0x4000 [0, 0, 0x30, 0x60] @
          concat (map (hsic_frame 0x804 0x4000) cs)"
    unfolding blocks_of_def modem_data_stage_def hsic_image_def a by blast
next
  assume "willing w \<and> 0 \<le> fd \<and> firmware \<noteq> [] \<and> client \<noteq> None \<and> hsic_reply 0x802 0x4000 rs \<and>
      w_rd w = map Some rs @- rest"
  then show "\<exists>w'. xmm626_hsic_firmware_send client fd (Some firmware) w = (Done (), w') \<and> w_rd w' = rest"
    using completesD [OF completes_modem_data_send [of fd firmware rs], of w rest]
    by (fastforce simp: xmm626_hsic_firmware_send_def)
qed

theorem firmware_send_blocks_witness:
  "\<exists>cs w'. xmm626_hsic_firmware_send (Some demo_env) 3 (Some (replicate 0x4001 9))
      (demo_boot [[0, 0, 2, 8, 0, 0, 0, 0], calloc 0x4000]) = (Done (), w') \<and> concat cs = replicate 0x4001 9 \<and>
     sent 3 w' = hsic_frame 0x802 0x4000 [0, 0, 0x30, 0x60] @ concat (map (hsic_frame 0x804 0x4000) cs)"
proof -
  let ?rs = "[[0, 0, 2, 8, 0, 0, 0, 0], calloc 0x4000]"
  let ?fw = "replicate 0x4001 (9 :: u8)"
  have r: "hsic_reply 0x802 0x4000 ?rs" by (simp add: hsic_reply_def get16_def push_bit_eq_mult)
  have ne: "?fw \<noteq> []" by simp
  have "willing (demo_boot ?rs) \<and> (0 :: int) \<le> 3 \<and> ?fw \<noteq> [] \<and> Some demo_env \<noteq> None \<and>
      hsic_reply 0x802 0x4000 ?rs \<and> w_rd (demo_boot ?rs) = map Some ?rs @- sconst None"
    by (intro conjI r ne) (simp_all only: demo_boot_simps, simp_all)
  from firmware_send_blocks [THEN conjunct2, THEN mp, OF this]
  obtain w' where w': "xmm626_hsic_firmware_send (Some demo_env) 3 (Some ?fw) (demo_boot ?rs) = (Done (), w')"
    by blast
  from firmware_send_blocks [THEN conjunct1, THEN mp, OF this] w' show ?thesis
    unfolding demo_boot_simps append_Nil by blast
qed

end
