(* ===== verification/Boot.thy ===== *)
theory Boot
  imports Smdk4412 Hsic
begin

text \<open>
  Booting the XMM626 modem over HSIC: \<open>i9300_boot\<close>, \<open>n7100_boot\<close>, \<open>n5100_boot\<close> and
  \<open>galaxys2_boot\<close> of devices/*/*.c. The four functions are the same text up to the layout of the
  modem image and the steps that bring the link up, so both are parameters here.

  The image is a block device mapped into memory. \<open>munmap\<close> has no effect on the state.
\<close>

section \<open>Definitions\<close>

text \<open>The constants of devices/*/*.h.\<close>

record boot_image =
  bi_device :: string
  bi_size :: nat
  bi_psi_offset :: nat
  bi_psi_size :: u16
  bi_ebl_offset :: nat
  bi_ebl_size :: nat
  bi_sec_start_offset :: nat
  bi_sec_start_size :: nat
  bi_firmware_offset :: nat
  bi_firmware_size :: nat

text \<open>
  \<open>mmap\<close> of the first \<open>n\<close> bytes of a device: \<open>None\<close> is a null pointer or \<open>MAP_FAILED\<close>. Touching
  a page behind the end of the device is undefined.
\<close>

definition sys_mmap :: "string \<Rightarrow> nat \<Rightarrow> u8 list option io" where
  "sys_mmap path n w =
     (Done (if shd (w_fio w) < 0 then None else Some (take n (file_of w path))), w\<lparr>w_fio := stl (w_fio w)\<rparr>)"

text \<open>The part of the image from \<open>p = image + offset\<close> on that a stage reads.\<close>

definition image_part :: "nat \<Rightarrow> nat \<Rightarrow> u8 list \<Rightarrow> u8 list io" where
  "image_part offset n mem = lift_outcome (peek offset n mem)"

definition close_valid :: "int \<Rightarrow> unit io" where
  "close_valid fd = (if 0 \<le> fd then sys_close fd else ret ())"

text \<open>What follows the label \<open>complete\<close> runs after success and after \<open>goto error\<close>.\<close>

definition complete :: "unit io \<Rightarrow> unit io \<Rightarrow> unit io" where
  "complete body cleanup =
     bnd (try_rc body) (\<lambda>rc. bnd cleanup (\<lambda>_. check (\<not> rc < 0)))"

text \<open>From turning the modem off to turning it on, as in \<open>i9300_boot\<close>.\<close>

definition i9300_turn_on :: "int \<Rightarrow> int \<Rightarrow> unit io" where
  "i9300_turn_on modem_boot_fd modem_link_fd =
     bnd (xmm626_kernel_smdk4412_hci_power 0) (\<lambda>_.
     bnd (xmm626_kernel_smdk4412_power modem_boot_fd 1) (\<lambda>_.
     xmm626_kernel_smdk4412_hci_power 1))"

text \<open>The same part of \<open>galaxys2_boot\<close>.\<close>

definition galaxys2_turn_on :: "int \<Rightarrow> int \<Rightarrow> unit io" where
  "galaxys2_turn_on modem_boot_fd modem_link_fd =
     bnd (xmm626_kernel_smdk4412_power modem_boot_fd 0) (\<lambda>_.
     bnd (xmm626_kernel_smdk4412_link_control_enable modem_link_fd 0) (\<lambda>_.
     bnd (xmm626_kernel_smdk4412_hci_power 0) (\<lambda>_.
     bnd (xmm626_kernel_smdk4412_link_control_active modem_link_fd 0) (\<lambda>_.
     bnd (xmm626_kernel_smdk4412_power modem_boot_fd 1) (\<lambda>_.
     bnd (xmm626_kernel_smdk4412_link_control_enable modem_link_fd 1) (\<lambda>_.
     bnd (xmm626_kernel_smdk4412_hci_power 1) (\<lambda>_.
     xmm626_kernel_smdk4412_link_control_active modem_link_fd 1)))))))"

text \<open>The eight stages that load the modem.\<close>

definition boot_load ::
  "boot_image \<Rightarrow> (u8 list \<Rightarrow> u8 list) \<Rightarrow> client_env option \<Rightarrow> int \<Rightarrow> u8 list \<Rightarrow> unit io" where
  "boot_load img md5 client modem_boot_fd mem =
     bnd (xmm626_hsic_psi_send client modem_boot_fd (Some (drop (bi_psi_offset img) mem)) (bi_psi_size img)) (\<lambda>_.
     bnd (image_part (bi_ebl_offset img) (bi_ebl_size img) mem) (\<lambda>ebl.
     bnd (xmm626_hsic_ebl_send client modem_boot_fd (Some ebl)) (\<lambda>_.
     bnd (xmm626_hsic_port_config_send client modem_boot_fd) (\<lambda>_.
     bnd (image_part (bi_sec_start_offset img) (bi_sec_start_size img) mem) (\<lambda>sec.
     bnd (xmm626_hsic_sec_start_send client modem_boot_fd (Some sec)) (\<lambda>_.
     bnd (image_part (bi_firmware_offset img) (bi_firmware_size img) mem) (\<lambda>firmware.
     bnd (xmm626_hsic_firmware_send client modem_boot_fd (Some firmware)) (\<lambda>_.
     bnd (xmm626_hsic_nv_data_send md5 client modem_boot_fd) (\<lambda>_.
     bnd (xmm626_hsic_sec_end_send client modem_boot_fd) (\<lambda>_.
     xmm626_hsic_hw_reset_send client modem_boot_fd))))))))))"

text \<open>The link goes down and up again; only the first wait for the host may fail.\<close>

definition boot_relink :: "int \<Rightarrow> unit io" where
  "boot_relink modem_link_fd =
     bnd (try_rc (xmm626_kernel_smdk4412_link_get_hostwake_wait modem_link_fd)) (\<lambda>_.
     bnd (xmm626_kernel_smdk4412_link_control_enable modem_link_fd 0) (\<lambda>_.
     bnd (xmm626_kernel_smdk4412_hci_power 0) (\<lambda>_.
     bnd (xmm626_kernel_smdk4412_link_control_active modem_link_fd 0) (\<lambda>_.
     bnd (xmm626_kernel_smdk4412_link_get_hostwake_wait modem_link_fd) (\<lambda>_.
     bnd (xmm626_kernel_smdk4412_link_control_enable modem_link_fd 1) (\<lambda>_.
     bnd (xmm626_kernel_smdk4412_hci_power 1) (\<lambda>_.
     bnd (xmm626_kernel_smdk4412_link_control_active modem_link_fd 1) (\<lambda>_.
     xmm626_kernel_smdk4412_link_connected_wait modem_link_fd))))))))"

text \<open>Everything between opening the three devices and the label \<open>complete\<close>.\<close>

definition boot_steps ::
  "boot_image \<Rightarrow> (int \<Rightarrow> int \<Rightarrow> unit io) \<Rightarrow> (u8 list \<Rightarrow> u8 list) \<Rightarrow> client_env option \<Rightarrow>
   int \<Rightarrow> int \<Rightarrow> u8 list \<Rightarrow> unit io" where
  "boot_steps img turn_on md5 client modem_boot_fd modem_link_fd mem =
     bnd (turn_on modem_boot_fd modem_link_fd) (\<lambda>_.
     bnd (xmm626_kernel_smdk4412_link_connected_wait modem_link_fd) (\<lambda>_.
     bnd (boot_load img md5 client modem_boot_fd mem) (\<lambda>_.
     boot_relink modem_link_fd)))"

text \<open>
  A descriptor that was not opened is -1 and its \<open>open\<close> skipped; all that are open are closed at
  the end, in the order of the code.
\<close>

definition hsic_boot ::
  "boot_image \<Rightarrow> (int \<Rightarrow> int \<Rightarrow> unit io) \<Rightarrow> (u8 list \<Rightarrow> u8 list) \<Rightarrow> client_env option \<Rightarrow> unit io" where
  "hsic_boot img turn_on md5 client =
     (if client = None then fail
      else
        bnd (sys_open (bi_device img)) (\<lambda>modem_image_fd.
        bnd (if modem_image_fd < 0 then ret None else sys_mmap (bi_device img) (bi_size img)) (\<lambda>modem_image_data.
        bnd (if modem_image_data = None then ret (-1) else sys_open ''/dev/umts_boot0'') (\<lambda>modem_boot_fd.
        bnd (if modem_boot_fd < 0 then ret (-1) else sys_open ''/dev/link_pm'') (\<lambda>modem_link_fd.
        complete
          (if modem_link_fd < 0 then fail
           else boot_steps img turn_on md5 client modem_boot_fd modem_link_fd (the modem_image_data))
          (bnd (close_valid modem_image_fd) (\<lambda>_.
           bnd (close_valid modem_boot_fd) (\<lambda>_.
           close_valid modem_link_fd))))))))"

definition i9300_image :: boot_image where
  "i9300_image = \<lparr>bi_device = ''/dev/mmcblk0p7'', bi_size = 0x1000000,
     bi_psi_offset = 0x1000, bi_psi_size = 0xE000, bi_ebl_offset = 0xF000, bi_ebl_size = 0x19000,
     bi_sec_start_offset = 0x9FF800, bi_sec_start_size = 0x800,
     bi_firmware_offset = 0x28000, bi_firmware_size = 0x9D7800\<rparr>"

definition i9300_boot :: "(u8 list \<Rightarrow> u8 list) \<Rightarrow> client_env option \<Rightarrow> unit io" where
  "i9300_boot md5 client = hsic_boot i9300_image i9300_turn_on md5 client"

definition i9300_fmt_ops :: "(u8 list \<Rightarrow> u8 list) \<Rightarrow> ipc_client_ops" where
  "i9300_fmt_ops md5 = \<lparr>op_boot = Some (\<lambda>client. i9300_boot md5 (Some client)),
     op_send = Some xmm626_kernel_smdk4412_fmt_send, op_recv = Some xmm626_kernel_smdk4412_fmt_recv\<rparr>"

definition n7100_image :: boot_image where
  "n7100_image = \<lparr>bi_device = ''/dev/block/mmcblk0p10'', bi_size = 0x1000000,
     bi_psi_offset = 0x1000, bi_psi_size = 0xE000, bi_ebl_offset = 0xF000, bi_ebl_size = 0x19000,
     bi_sec_start_offset = 0x9FF800, bi_sec_start_size = 0x800,
     bi_firmware_offset = 0x28000, bi_firmware_size = 0x9D7800\<rparr>"

definition n7100_boot :: "(u8 list \<Rightarrow> u8 list) \<Rightarrow> client_env option \<Rightarrow> unit io" where
  "n7100_boot md5 client = hsic_boot n7100_image i9300_turn_on md5 client"

definition n7100_fmt_ops :: "(u8 list \<Rightarrow> u8 list) \<Rightarrow> ipc_client_ops" where
  "n7100_fmt_ops md5 = \<lparr>op_boot = Some (\<lambda>client. n7100_boot md5 (Some client)),
     op_send = Some xmm626_kernel_smdk4412_fmt_send, op_recv = Some xmm626_kernel_smdk4412_fmt_recv\<rparr>"

definition n5100_image :: boot_image where
  "n5100_image = \<lparr>bi_device = ''/dev/block/platform/dw_mmc/by-name/RADIO'', bi_size = 0x1000000,
     bi_psi_offset = 0x1000, bi_psi_size = 0xE000, bi_ebl_offset = 0xF000, bi_ebl_size = 0x19000,
     bi_sec_start_offset = 0x9FF800, bi_sec_start_size = 0x800,
     bi_firmware_offset = 0x28000, bi_firmware_size = 0x9D7800\<rparr>"

definition n5100_boot :: "(u8 list \<Rightarrow> u8 list) \<Rightarrow> client_env option \<Rightarrow> unit io" where
  "n5100_boot md5 client = hsic_boot n5100_image i9300_turn_on md5 client"

definition n5100_fmt_ops :: "(u8 list \<Rightarrow> u8 list) \<Rightarrow> ipc_client_ops" where
  "n5100_fmt_ops md5 = \<lparr>op_boot = Some (\<lambda>client. n5100_boot md5 (Some client)),
     op_send = Some xmm626_kernel_smdk4412_fmt_send, op_recv = Some xmm626_kernel_smdk4412_fmt_recv\<rparr>"

definition galaxys2_image :: boot_image where
  "galaxys2_image = \<lparr>bi_device = ''/dev/block/mmcblk0p8'', bi_size = 0x1000000,
     bi_psi_offset = 0, bi_psi_size = 0xF000, bi_ebl_offset = 0xF000, bi_ebl_size = 0x19000,
     bi_sec_start_offset = 0x9FF800, bi_sec_start_size = 0x800,
     bi_firmware_offset = 0x28000, bi_firmware_size = 0x9D8000\<rparr>"

definition galaxys2_boot :: "(u8 list \<Rightarrow> u8 list) \<Rightarrow> client_env option \<Rightarrow> unit io" where
  "galaxys2_boot md5 client = hsic_boot galaxys2_image galaxys2_turn_on md5 client"

definition galaxys2_fmt_ops :: "(u8 list \<Rightarrow> u8 list) \<Rightarrow> ipc_client_ops" where
  "galaxys2_fmt_ops md5 = \<lparr>op_boot = Some (\<lambda>client. galaxys2_boot md5 (Some client)),
     op_send = Some xmm626_kernel_smdk4412_fmt_send, op_recv = Some xmm626_kernel_smdk4412_fmt_recv\<rparr>"

section \<open>Descriptors\<close>

definition opens :: "string \<Rightarrow> int \<Rightarrow> event list" where
  "opens path fd = (if 0 \<le> fd then [EvOpen path fd] else [])"

definition closes :: "int \<Rightarrow> event list" where
  "closes fd = (if 0 \<le> fd then [EvClose fd] else [])"

lemma sys_open_shape:
  "\<exists>fd w'. sys_open path w = (Done fd, w') \<and> w_trace w' = w_trace w @ opens path fd \<and> w_files w' = w_files w"
  by (simp add: sys_open_def opens_def Let_def)

lemma open_if_shape:
  "\<exists>fd w'. (if b then ret (-1) else sys_open path) w = (Done fd, w') \<and> (b \<longrightarrow> fd = -1) \<and>
     w_trace w' = w_trace w @ opens path fd \<and> w_files w' = w_files w"
  using sys_open_shape [of path w] by (cases b) (auto simp: ret_eq opens_def)

lemma mmap_if_shape:
  "\<exists>mem w'. (if b then ret None else sys_mmap path n) w = (Done mem, w') \<and> (b \<longrightarrow> mem = None) \<and>
     (mem = None \<or> mem = Some (take n (file_of w path))) \<and> w_trace w' = w_trace w \<and> w_files w' = w_files w"
  by (cases b) (auto simp: ret_eq sys_mmap_def)

lemma close_valid_shape: "close_valid fd w = (Done (), w\<lparr>w_trace := w_trace w @ closes fd\<rparr>)"
  by (simp add: close_valid_def closes_def sys_close_def emit_def ret_eq)

lemma close_all_shape:
  "bnd (close_valid f1) (\<lambda>_. bnd (close_valid f2) (\<lambda>_. close_valid f3)) w =
     (Done (), w\<lparr>w_trace := w_trace w @ closes f1 @ closes f2 @ closes f3\<rparr>)"
  by (simp add: bnd_def close_valid_shape)

lemma complete_shape:
  assumes "complete body cleanup w = (r, w')" "\<And>v. cleanup v = (Done (), f v)" "r \<noteq> Undef"
  obtains r1 w1 where "body w = (r1, w1)" "r1 \<noteq> Undef" "r = Done () \<longleftrightarrow> r1 = Done ()" "w' = f w1"
proof -
  obtain r1 w1 where b: "body w = (r1, w1)" by fastforce
  with assms show ?thesis
    by (intro that [OF b]; cases r1) (auto simp: complete_def try_rc_def bnd_def check_eq)
qed

text \<open>
  However booting ends: the devices are opened one after the other, then the steps run, if all
  three are open, and then what is open is closed.
\<close>

lemma hsic_boot_shape:
  assumes "hsic_boot img turn_on md5 (Some c) w = (r, w')" "r \<noteq> Undef"
  obtains f1 f2 f3 w1 r1 w2 where
    "w_trace w1 = w_trace w @ opens (bi_device img) f1 @ opens ''/dev/umts_boot0'' f2 @ opens ''/dev/link_pm'' f3"
    "w_files w1 = w_files w"
    "if f3 < 0 then r1 = Fail \<and> w2 = w1
     else 0 \<le> f1 \<and> 0 \<le> f2 \<and> boot_steps img turn_on md5 (Some c) f2 f3
       (take (bi_size img) (file_of w (bi_device img))) w1 = (r1, w2)"
    "r1 \<noteq> Undef" "r = Done () \<longleftrightarrow> r1 = Done ()"
    "w' = w2\<lparr>w_trace := w_trace w2 @ closes f1 @ closes f2 @ closes f3\<rparr>"
proof -
  obtain f1 v1 where o1: "sys_open (bi_device img) w = (Done f1, v1)"
      "w_trace v1 = w_trace w @ opens (bi_device img) f1" "w_files v1 = w_files w"
    using sys_open_shape by blast
  obtain mem v2 where m: "(if f1 < 0 then ret None else sys_mmap (bi_device img) (bi_size img)) v1 = (Done mem, v2)"
      "f1 < 0 \<longrightarrow> mem = None" "mem = None \<or> mem = Some (take (bi_size img) (file_of v1 (bi_device img)))"
      "w_trace v2 = w_trace v1" "w_files v2 = w_files v1"
    using mmap_if_shape by blast
  obtain f2 v3 where o2: "(if mem = None then ret (-1) else sys_open ''/dev/umts_boot0'') v2 = (Done f2, v3)"
      "mem = None \<longrightarrow> f2 = -1" "w_trace v3 = w_trace v2 @ opens ''/dev/umts_boot0'' f2" "w_files v3 = w_files v2"
    using open_if_shape by blast
  obtain f3 v4 where o3: "(if f2 < 0 then ret (-1) else sys_open ''/dev/link_pm'') v3 = (Done f3, v4)"
      "f2 < 0 \<longrightarrow> f3 = -1" "w_trace v4 = w_trace v3 @ opens ''/dev/link_pm'' f3" "w_files v4 = w_files v3"
    using open_if_shape by blast
  have b1: "bnd (sys_open (bi_device img)) g w = g f1 v1" for g :: "int \<Rightarrow> unit io"
    by (rule bnd_Done, rule o1(1))
  have b2: "bnd (if f1 < 0 then ret None else sys_mmap (bi_device img) (bi_size img)) g v1 = g mem v2"
    for g :: "u8 list option \<Rightarrow> unit io" by (rule bnd_Done, rule m(1))
  have b3: "bnd (if mem = None then ret (-1) else sys_open ''/dev/umts_boot0'') g v2 = g f2 v3"
    for g :: "int \<Rightarrow> unit io" by (rule bnd_Done, rule o2(1))
  have b4: "bnd (if f2 < 0 then ret (-1) else sys_open ''/dev/link_pm'') g v3 = g f3 v4"
    for g :: "int \<Rightarrow> unit io" by (rule bnd_Done, rule o3(1))
  have "complete (if f3 < 0 then fail else boot_steps img turn_on md5 (Some c) f2 f3 (the mem))
      (bnd (close_valid f1) (\<lambda>_. bnd (close_valid f2) (\<lambda>_. close_valid f3))) v4 = (r, w')"
    using assms(1) unfolding hsic_boot_def by (simp only: option.simps if_False b1 b2 b3 b4)
  from complete_shape [OF this close_all_shape assms(2)]
  obtain r1 w2 where body: "(if f3 < 0 then fail else boot_steps img turn_on md5 (Some c) f2 f3 (the mem)) v4 = (r1, w2)"
      and r1: "r1 \<noteq> Undef" "r = Done () \<longleftrightarrow> r1 = Done ()"
        "w' = w2\<lparr>w_trace := w_trace w2 @ closes f1 @ closes f2 @ closes f3\<rparr>" .
  have f: "file_of v1 (bi_device img) = file_of w (bi_device img)" using o1(3) by (simp add: file_of_def)
  show ?thesis
  proof (rule that [of v4 f1 f2 f3 r1 w2])
    show "w_trace v4 = w_trace w @ opens (bi_device img) f1 @ opens ''/dev/umts_boot0'' f2 @ opens ''/dev/link_pm'' f3"
      using o1 m o2 o3 by simp
    show "if f3 < 0 then r1 = Fail \<and> w2 = v4 else 0 \<le> f1 \<and> 0 \<le> f2 \<and> boot_steps img turn_on md5 (Some c) f2 f3
        (take (bi_size img) (file_of w (bi_device img))) v4 = (r1, w2)"
      using body m(2,3) o2(2) o3(2) f by (auto simp: fail_eq)
  qed (use o1 m o2 o3 r1 in simp_all)
qed

section \<open>Events of the steps\<close>

lemma adds_ioctl_wait [adds_intros]:
  "(\<And>fd request arg. Q (EvIoctl fd request arg)) \<Longrightarrow> adds Q (ioctl_wait n fd request wanted)"
  by (induction n) (auto intro!: adds_intros)

text \<open>Power and link control add requests to the drivers and nothing else.\<close>

lemma adds_link [adds_intros]:
  assumes "\<And>fd request arg. Q (EvIoctl fd request arg)"
  shows "adds Q (xmm626_kernel_smdk4412_power fd pwr)" "adds Q (xmm626_kernel_smdk4412_hci_power pwr)"
    "adds Q (xmm626_kernel_smdk4412_link_control_enable fd v)"
    "adds Q (xmm626_kernel_smdk4412_link_control_active fd v)"
    "adds Q (xmm626_kernel_smdk4412_link_connected_wait fd)"
    "adds Q (xmm626_kernel_smdk4412_link_get_hostwake_wait fd)"
  by (auto simp: xmm626_kernel_smdk4412_power_def xmm626_kernel_smdk4412_hci_power_def
      xmm626_kernel_smdk4412_link_control_enable_def xmm626_kernel_smdk4412_link_control_active_def
      xmm626_kernel_smdk4412_link_connected_wait_def xmm626_kernel_smdk4412_link_get_hostwake_wait_def
      Let_def intro!: adds_intros assms)

lemma adds_turn_on [adds_intros]:
  assumes "\<And>fd request arg. Q (EvIoctl fd request arg)"
  shows "adds Q (i9300_turn_on b l)" "adds Q (galaxys2_turn_on b l)" "adds Q (boot_relink l)"
  by (auto simp: i9300_turn_on_def galaxys2_turn_on_def boot_relink_def intro!: adds_intros assms)

lemma adds_boot_load [adds_intros]: "adds transfer (boot_load img md5 client fd mem)"
  by (auto simp: boot_load_def image_part_def intro!: adds_intros)

lemma adds_boot_steps:
  "turn_on \<in> {i9300_turn_on, galaxys2_turn_on} \<Longrightarrow> adds transfer (boot_steps img turn_on md5 client b l mem)"
  by (auto simp: boot_steps_def intro!: adds_intros)

fun opened :: "event list \<Rightarrow> int list" where
  "opened [] = []"
| "opened (EvOpen path fd # es) = fd # opened es"
| "opened (_ # es) = opened es"

fun closed :: "event list \<Rightarrow> int list" where
  "closed [] = []"
| "closed (EvClose fd # es) = fd # closed es"
| "closed (_ # es) = closed es"

lemma opened_append [simp]: "opened (es @ es') = opened es @ opened es'"
  by (induction es rule: opened.induct) auto

lemma closed_append [simp]: "closed (es @ es') = closed es @ closed es'"
  by (induction es rule: closed.induct) auto

lemma transfer_neither: "\<forall>e \<in> set es. transfer e \<Longrightarrow> opened es = [] \<and> closed es = []"
proof (induction es)
  case (Cons e es)
  then show ?case by (cases e) auto
qed simp

text \<open>The boot functions of the four devices, with the layout of their images.\<close>

definition boot_devices ::
  "(((u8 list \<Rightarrow> u8 list) \<Rightarrow> client_env option \<Rightarrow> unit io) \<times> boot_image) set" where
  "boot_devices = {(i9300_boot, i9300_image), (n7100_boot, n7100_image), (n5100_boot, n5100_image),
     (galaxys2_boot, galaxys2_image)}"

lemma boot_devices_hsic:
  assumes "(boot, img) \<in> boot_devices"
  obtains turn_on where "boot = hsic_boot img turn_on" "turn_on \<in> {i9300_turn_on, galaxys2_turn_on}"
proof -
  have "\<exists>turn_on \<in> {i9300_turn_on, galaxys2_turn_on}. boot = hsic_boot img turn_on"
    using assms unfolding boot_devices_def
    by (auto simp: fun_eq_iff i9300_boot_def n7100_boot_def n5100_boot_def galaxys2_boot_def)
  with that show ?thesis by blast
qed

text \<open>
  C24: however booting an HSIC device ends, it has closed just the descriptors it opened, in the
  order in which it opened them; and only with all three devices open can it succeed.
\<close>

theorem boot_closes_descriptors:
  assumes "(boot, img) \<in> boot_devices" and "boot md5 client w = (r, w')" and "r \<noteq> Undef"
  shows "\<exists>es. w_trace w' = w_trace w @ es \<and> opened es = closed es \<and> (r = Done () \<longrightarrow> length (opened es) = 3)"
proof (cases client)
  case None
  with assms show ?thesis
    using boot_devices_hsic [OF assms(1)] by (metis (no_types, lifting) append_Nil2 fail_eq hsic_boot_def
        closed.simps(1) opened.simps(1) outcome.distinct(1) prod.inject)
next
  case (Some c)
  obtain turn_on where boot: "boot = hsic_boot img turn_on" and t: "turn_on \<in> {i9300_turn_on, galaxys2_turn_on}"
    by (rule boot_devices_hsic [OF assms(1)])
  from assms(2) Some boot have "hsic_boot img turn_on md5 (Some c) w = (r, w')" by simp
  from hsic_boot_shape [OF this assms(3)] obtain f1 f2 f3 w1 r1 w2 where
    tr: "w_trace w1 = w_trace w @ opens (bi_device img) f1 @ opens ''/dev/umts_boot0'' f2 @ opens ''/dev/link_pm'' f3" and
    st: "if f3 < 0 then r1 = Fail \<and> w2 = w1
     else 0 \<le> f1 \<and> 0 \<le> f2 \<and> boot_steps img turn_on md5 (Some c) f2 f3
       (take (bi_size img) (file_of w (bi_device img))) w1 = (r1, w2)" and
    r: "r = Done () \<longleftrightarrow> r1 = Done ()" and
    w': "w' = w2\<lparr>w_trace := w_trace w2 @ closes f1 @ closes f2 @ closes f3\<rparr>" .
  obtain es where es: "w_trace w2 = w_trace w1 @ es" "\<forall>e \<in> set es. transfer e"
    using st addsD [OF adds_boot_steps [OF t]] by (cases "f3 < 0") force+
  have "opened (opens p f) = closed (closes f)" "closed (opens p f) = []" "opened (closes f) = []" for p f
    by (simp_all add: opens_def closes_def)
  moreover have "r = Done () \<Longrightarrow> 0 \<le> f1 \<and> 0 \<le> f2 \<and> 0 \<le> f3" using st r by (auto split: if_splits)
  ultimately show ?thesis
    using tr es(1) transfer_neither [OF es(2)] w'
    by (intro exI [of _ "opens (bi_device img) f1 @ opens ''/dev/umts_boot0'' f2 @ opens ''/dev/link_pm'' f3 @ es @
        closes f1 @ closes f2 @ closes f3"]) (auto simp: closes_def)
qed

section \<open>What the modem is loaded with\<close>

text \<open>The part of the image at \<open>offset\<close>, all of it inside the image.\<close>

definition part_of :: "nat \<Rightarrow> nat \<Rightarrow> u8 list \<Rightarrow> u8 list \<Rightarrow> bool" where
  "part_of offset n mem part \<longleftrightarrow> part = take n (drop offset mem) \<and> offset + n \<le> length mem"

lemma image_part_Done: "image_part offset n mem w = (Done part, w') \<Longrightarrow> part_of offset n mem part \<and> w' = w"
  by (auto simp: image_part_def lift_outcome_eq peek_def part_of_def split: if_splits)

definition boot_bytes ::
  "boot_image \<Rightarrow> u8 list \<Rightarrow> u8 list \<Rightarrow> u8 list \<Rightarrow> bool" where
  "boot_bytes img mem nv out \<longleftrightarrow> (\<exists>k psi ebl config sec firmware fcs ncs.
     1 \<le> k \<and> k \<le> 51 \<and> length config = 0x4C \<and> blocks_of 0x4000 fcs firmware \<and> blocks_of 0x4000 ncs nv \<and>
     part_of (bi_psi_offset img) (unat (bi_psi_size img)) mem psi \<and>
     part_of (bi_ebl_offset img) (bi_ebl_size img) mem ebl \<and>
     part_of (bi_sec_start_offset img) (bi_sec_start_size img) mem sec \<and>
     part_of (bi_firmware_offset img) (bi_firmware_size img) mem firmware \<and>
     out = psi_stage k (bi_psi_size img) psi @ ebl_stage ebl @ hsic_frame 0x86 0x800 config @
       hsic_frame 0x204 0x4000 sec @ modem_data_stage XMM626_FIRMWARE_ADDRESS fcs @
       modem_data_stage XMM626_NV_DATA_ADDRESS ncs @ hsic_frame 0x205 0x4000 [0, 0] @
       hsic_frame 0x208 0x4000 [0x01, 0x10, 0x11, 0])"

lemma boot_load_Done:
  assumes cfg: "nv_configured c p m bp bm secret sz ck"
    and load: "boot_load img md5 (Some c) fd mem w = (Done u, w')" and psi: "bi_psi_size img \<noteq> 0"
  shows "\<exists>nv out. boot_bytes img mem nv out \<and> sent fd w' = sent fd w @ out \<and>
    w_files w' p = Some nv \<and> nv_valid md5 secret sz (w_files w') p m"
proof -
  obtain u1 w1 ebl w2 u3 w3 u4 w4 sec w5 u6 w6 firmware w7 u8 w8 u9 w9 u10 w10 where
    s1: "xmm626_hsic_psi_send (Some c) fd (Some (drop (bi_psi_offset img) mem)) (bi_psi_size img) w = (Done u1, w1)" and
    s2: "image_part (bi_ebl_offset img) (bi_ebl_size img) mem w1 = (Done ebl, w2)" and
    s3: "xmm626_hsic_ebl_send (Some c) fd (Some ebl) w2 = (Done u3, w3)" and
    s4: "xmm626_hsic_port_config_send (Some c) fd w3 = (Done u4, w4)" and
    s5: "image_part (bi_sec_start_offset img) (bi_sec_start_size img) mem w4 = (Done sec, w5)" and
    s6: "xmm626_hsic_sec_start_send (Some c) fd (Some sec) w5 = (Done u6, w6)" and
    s7: "image_part (bi_firmware_offset img) (bi_firmware_size img) mem w6 = (Done firmware, w7)" and
    s8: "xmm626_hsic_firmware_send (Some c) fd (Some firmware) w7 = (Done u8, w8)" and
    s9: "xmm626_hsic_nv_data_send md5 (Some c) fd w8 = (Done u9, w9)" and
    s10: "xmm626_hsic_sec_end_send (Some c) fd w9 = (Done u10, w10)" and
    s11: "xmm626_hsic_hw_reset_send (Some c) fd w10 = (Done u, w')"
    using load unfolding boot_load_def bnd_eq_Done by blast
  note p2 = image_part_Done [OF s2] and p5 = image_part_Done [OF s5] and p7 = image_part_Done [OF s7]
  obtain k psi where e1: "sent fd w1 = sent fd w @ psi_stage k (bi_psi_size img) psi" "1 \<le> k" "k \<le> 51"
      "psi = take (unat (bi_psi_size img)) (drop (bi_psi_offset img) mem)" "length psi = unat (bi_psi_size img)"
    using emitsD [OF emits_psi_send s1] by blast
  then have psi_part: "part_of (bi_psi_offset img) (unat (bi_psi_size img)) mem psi"
    using unat_gt_0 [of "bi_psi_size img"] psi by (auto simp: part_of_def min_def split: if_splits)
  have e3: "sent fd w3 = sent fd w2 @ ebl_stage ebl" using emitsD [OF emits_ebl_send s3] by blast
  obtain config where e4: "length config = 0x4C" "sent fd w4 = sent fd w3 @ hsic_frame 0x86 0x800 config"
    using emitsD [OF emits_port_config s4] by blast
  have e6: "sent fd w6 = sent fd w5 @ hsic_frame 0x204 0x4000 sec" using emitsD [OF emits_commands(1) s6] by blast
  have "xmm626_hsic_modem_data_send fd (Some firmware) XMM626_FIRMWARE_ADDRESS w7 = (Done u8, w8)"
    using s8 by (auto simp: xmm626_hsic_firmware_send_def fail_eq split: if_splits)
  from emitsD [OF emits_modem_data_send this]
  obtain fcs where e8: "blocks_of 0x4000 fcs firmware" "sent fd w8 = sent fd w7 @ modem_data_stage XMM626_FIRMWARE_ADDRESS fcs"
    by blast
  obtain nv ncs where e9: "blocks_of 0x4000 ncs nv" "sent fd w9 = sent fd w8 @ modem_data_stage XMM626_NV_DATA_ADDRESS ncs"
      "w_files w9 p = Some nv" "nv_valid md5 secret sz (w_files w9) p m"
    using nv_data_send_Done [OF cfg s9] by blast
  have e10: "sent fd w10 = sent fd w9 @ hsic_frame 0x205 0x4000 [0, 0]"
    using emitsD [OF emits_commands(2) s10] by blast
  have e11: "sent fd w' = sent fd w10 @ hsic_frame 0x208 0x4000 [0x01, 0x10, 0x11, 0]"
    using emitsD [OF emits_commands(3) s11] by blast
  have blind: "device_blind w_files" by (simp add: device_blind_def)
  have files: "w_files w' = w_files w9"
    using unchangedD [OF unchanged_hsic_stages(5) [OF blind] s10]
      unchangedD [OF unchanged_hsic_stages(8) [OF blind] s11] by simp
  let ?out = "psi_stage k (bi_psi_size img) psi @ ebl_stage ebl @ hsic_frame 0x86 0x800 config @
       hsic_frame 0x204 0x4000 sec @ modem_data_stage XMM626_FIRMWARE_ADDRESS fcs @
       modem_data_stage XMM626_NV_DATA_ADDRESS ncs @ hsic_frame 0x205 0x4000 [0, 0] @
       hsic_frame 0x208 0x4000 [0x01, 0x10, 0x11, 0]"
  have "boot_bytes img mem nv ?out"
    unfolding boot_bytes_def using e1 e4 e8(1) e9(1) psi_part p2 p5 p7 by blast
  moreover have "sent fd w' = sent fd w @ ?out"
    using e1(1) e3 e4(2) e6 e8(2) e9(2) e10 e11 p2 p5 p7 by simp
  ultimately show ?thesis using e9(3,4) files by metis
qed

lemma keeps_link:
  assumes "''/sys/devices/platform/s5p-ehci/ehci_power'' \<in> S" "''/sys/devices/platform/s5p-ohci/ohci_power'' \<in> S"
  shows "keeps S (boot_relink l)"
proof -
  have io: "keeps S (sys_ioctl fd request arg)" for fd request arg
    by (auto simp: keeps_def sys_ioctl_def)
  have wait: "keeps S (ioctl_wait n fd request wanted)" for n fd request wanted
    by (induction n) (auto intro!: keeps_intros io)
  have sysfs: "p \<in> S \<Longrightarrow> keeps S (sysfs_value_write (Some p) v)" for p v
    by (auto simp: sysfs_value_write_def Let_def intro!: keeps_intros)
  show ?thesis
    by (auto simp: boot_relink_def xmm626_kernel_smdk4412_hci_power_def
        xmm626_kernel_smdk4412_link_control_enable_def xmm626_kernel_smdk4412_link_control_active_def
        xmm626_kernel_smdk4412_link_connected_wait_def xmm626_kernel_smdk4412_link_get_hostwake_wait_def
        Let_def intro!: keeps_intros io wait sysfs assms)
qed

lemma sent_trace: "w_trace w' = w_trace w @ es \<Longrightarrow> (\<forall>e \<in> set es. sent_by fd e = []) \<Longrightarrow> sent fd w' = sent fd w"
  by (simp add: sent_def)

lemma adds_sent:
  "adds (\<lambda>e. sent_by fd e = []) m \<Longrightarrow> m w = (r, w') \<Longrightarrow> sent fd w' = sent fd w"
  by (drule (1) addsD, elim exE conjE, rule sent_trace)

lemma boot_steps_Done:
  assumes cfg: "nv_configured c p m bp bm secret sz ck"
    and sysfs: "{p, m} \<inter> {''/sys/devices/platform/s5p-ehci/ehci_power'', ''/sys/devices/platform/s5p-ohci/ohci_power''} = {}"
    and t: "turn_on \<in> {i9300_turn_on, galaxys2_turn_on}" and psi: "bi_psi_size img \<noteq> 0"
    and steps: "boot_steps img turn_on md5 (Some c) fd l mem w = (Done u, w')"
  shows "\<exists>nv out. boot_bytes img mem nv out \<and> sent fd w' = sent fd w @ out \<and>
    w_files w' p = Some nv \<and> nv_valid md5 secret sz (w_files w') p m"
proof -
  let ?quiet = "\<lambda>e. sent_by fd e = []"
  obtain u1 w1 u2 w2 u3 w3 where
    s1: "turn_on fd l w = (Done u1, w1)" and
    s2: "xmm626_kernel_smdk4412_link_connected_wait l w1 = (Done u2, w2)" and
    s3: "boot_load img md5 (Some c) fd mem w2 = (Done u3, w3)" and
    s4: "boot_relink l w3 = (Done u, w')"
    using steps unfolding boot_steps_def bnd_eq_Done by blast
  have "adds ?quiet (turn_on fd l)" using t by (auto intro!: adds_intros)
  from adds_sent [OF this s1] have q1: "sent fd w1 = sent fd w" .
  have "adds ?quiet (xmm626_kernel_smdk4412_link_connected_wait l)" by (intro adds_intros) simp
  from adds_sent [OF this s2] have q2: "sent fd w2 = sent fd w1" .
  have "adds ?quiet (boot_relink l)" by (intro adds_intros) simp
  from adds_sent [OF this s4] have q4: "sent fd w' = sent fd w3" .
  obtain nv out where l: "boot_bytes img mem nv out" "sent fd w3 = sent fd w2 @ out"
    "w_files w3 p = Some nv" "nv_valid md5 secret sz (w_files w3) p m"
    using boot_load_Done [OF cfg s3 psi] by blast
  let ?S = "{''/sys/devices/platform/s5p-ehci/ehci_power'', ''/sys/devices/platform/s5p-ohci/ohci_power''}"
  have k: "keeps ?S (boot_relink l)" by (rule keeps_link) simp_all
  have "w_files w' p = w_files w3 p" "w_files w' m = w_files w3 m"
    by (rule keepsD [OF k s4], use sysfs in blast)+
  with l have "w_files w' p = Some nv" "nv_valid md5 secret sz (w_files w') p m"
    by (simp_all add: nv_valid_def)
  with l q1 q2 q4 show ?thesis by metis
qed

lemma boot_images:
  "(boot, img) \<in> boot_devices \<Longrightarrow> bi_psi_size img \<noteq> 0"
  by (auto simp: boot_devices_def i9300_image_def n7100_image_def n5100_image_def galaxys2_image_def)

lemma boot_device_loads:
  assumes "(boot, img) \<in> boot_devices" and cfg: "nv_configured c p m bp bm secret sz ck"
    and sysfs: "{p, m} \<inter> {''/sys/devices/platform/s5p-ehci/ehci_power'', ''/sys/devices/platform/s5p-ohci/ohci_power''} = {}"
    and "boot md5 (Some c) w = (Done u, w')"
  shows "\<exists>fd nv out. EvOpen ''/dev/umts_boot0'' fd \<in> set (drop (length (w_trace w)) (w_trace w')) \<and>
    sent fd w' = sent fd w @ out \<and> boot_bytes img (take (bi_size img) (file_of w (bi_device img))) nv out \<and>
    w_files w' p = Some nv \<and> nv_valid md5 secret sz (w_files w') p m"
proof -
  obtain turn_on where boot: "boot = hsic_boot img turn_on" and t: "turn_on \<in> {i9300_turn_on, galaxys2_turn_on}"
    by (rule boot_devices_hsic [OF assms(1)])
  let ?mem = "take (bi_size img) (file_of w (bi_device img))"
  from assms(4) boot have "hsic_boot img turn_on md5 (Some c) w = (Done u, w')" by simp
  from hsic_boot_shape [OF this] obtain f1 f2 f3 w1 r1 w2 where
    tr: "w_trace w1 = w_trace w @ opens (bi_device img) f1 @ opens ''/dev/umts_boot0'' f2 @ opens ''/dev/link_pm'' f3" and
    st: "if f3 < 0 then r1 = Fail \<and> w2 = w1
     else 0 \<le> f1 \<and> 0 \<le> f2 \<and> boot_steps img turn_on md5 (Some c) f2 f3 ?mem w1 = (r1, w2)" and
    r: "Done u = Done () \<longleftrightarrow> r1 = Done ()" and
    w': "w' = w2\<lparr>w_trace := w_trace w2 @ closes f1 @ closes f2 @ closes f3\<rparr>"
    by (metis outcome.distinct(3))
  from st r have f: "0 \<le> f2" and steps: "boot_steps img turn_on md5 (Some c) f2 f3 ?mem w1 = (Done (), w2)"
    by (auto split: if_splits)
  obtain nv out where l: "boot_bytes img ?mem nv out" "sent f2 w2 = sent f2 w1 @ out"
    "w_files w2 p = Some nv" "nv_valid md5 secret sz (w_files w2) p m"
    using boot_steps_Done [OF cfg sysfs t boot_images [OF assms(1)] steps] by blast
  obtain es where es: "w_trace w2 = w_trace w1 @ es"
    using addsD [OF adds_boot_steps [OF t] steps] by blast
  have "sent f2 w1 = sent f2 w" by (rule sent_trace [OF tr]) (auto simp: opens_def)
  moreover have "sent f2 w' = sent f2 w2"
    by (rule sent_trace [of _ _ "closes f1 @ closes f2 @ closes f3"]) (auto simp: w' closes_def)
  moreover have "EvOpen ''/dev/umts_boot0'' f2 \<in> set (drop (length (w_trace w)) (w_trace w'))"
    using tr es w' f by (auto simp: opens_def)
  moreover have "w_files w' = w_files w2" using w' by simp
  ultimately show ?thesis using l by metis
qed

text \<open>
  C1: when booting an HSIC device succeeds, the boot device was sent, in this order and nothing
  else: the PSI, EBL, port configuration, security, firmware, NV data, end and reset stages, each
  with its part of the modem image; and the NV data that was sent is what the NV data file
  then holds, and matches its digest.
\<close>

theorem boot_loads_modem:
  assumes "(boot, img) \<in> boot_devices" and cfg: "nv_configured c p m bp bm secret sz ck"
    and sysfs: "{p, m} \<inter> {''/sys/devices/platform/s5p-ehci/ehci_power'', ''/sys/devices/platform/s5p-ohci/ohci_power''} = {}"
    and "boot md5 (Some c) w = (Done u, w')"
  shows "\<exists>fd nv out. EvOpen ''/dev/umts_boot0'' fd \<in> set (drop (length (w_trace w)) (w_trace w')) \<and>
    sent fd w' = sent fd w @ out \<and> boot_bytes img (take (bi_size img) (file_of w (bi_device img))) nv out \<and>
    w_files w' p = Some nv \<and> nv_valid md5 secret sz (w_files w') p m"
  using assms by (rule boot_device_loads)

section \<open>A kernel, a link and a modem that answer\<close>

text \<open>
  Besides \<open>willing\<close>: every request to a driver answers a positive status, every call on a file
  succeeds and transfers at least the two bytes of an attribute, the EHCI attribute exists, and
  the NV data is valid.
\<close>

definition ehci :: string where "ehci = ''/sys/devices/platform/s5p-ehci/ehci_power''"
definition ohci :: string where "ohci = ''/sys/devices/platform/s5p-ohci/ohci_power''"

definition host_ok :: "world \<Rightarrow> bool" where
  "host_ok w \<longleftrightarrow> willing w \<and> (\<forall>x \<in> sset (w_ioc w). 0 < x) \<and> (\<forall>x \<in> sset (w_fio w). 2 \<le> x)"

definition boot_files ::
  "(u8 list \<Rightarrow> u8 list) \<Rightarrow> u8 list \<Rightarrow> nat \<Rightarrow> string \<Rightarrow> string \<Rightarrow> (string \<Rightarrow> u8 list option) \<Rightarrow> bool" where
  "boot_files md5 secret sz p m fs \<longleftrightarrow> fs ehci \<noteq> None \<and> nv_valid md5 secret sz fs p m"

definition boot_ok ::
  "(u8 list \<Rightarrow> u8 list) \<Rightarrow> u8 list \<Rightarrow> nat \<Rightarrow> string \<Rightarrow> string \<Rightarrow> world \<Rightarrow> bool" where
  "boot_ok md5 secret sz p m w \<longleftrightarrow> host_ok w \<and> boot_files md5 secret sz p m (w_files w)"

lemma host_ok_stable: "file_stable (\<lambda>w. host_ok w \<and> w_rd w = rest)"
  by (auto simp: file_stable_def host_ok_def willing_def dest: stl_sset)

lemma host_ok_files: "host_ok w \<Longrightarrow> files_ok w"
  by (fastforce simp: host_ok_def files_ok_def)

lemma boot_ok_ioctl:
  "boot_ok md5 secret sz p m w \<Longrightarrow> \<exists>rc w'. sys_ioctl fd request arg w = (Done rc, w') \<and> 0 < rc \<and>
     boot_ok md5 secret sz p m w' \<and> w_rd w' = w_rd w"
  by (auto simp: sys_ioctl_def boot_ok_def host_ok_def willing_def shd_sset dest: stl_sset)

lemma completes_ioctl: "completes (boot_ok md5 secret sz p m) (sys_ioctl fd request arg) [] (\<lambda>rc. 0 < rc)"
  by (rule completesI) (use boot_ok_ioctl in fastforce)

lemma completes_ioctl_wait:
  "(\<And>rc. 0 < rc \<Longrightarrow> wanted rc) \<Longrightarrow>
   completes (boot_ok md5 secret sz p m) (ioctl_wait (Suc n) fd request wanted) [] (\<lambda>_. True)"
  by (simp, rule completes_then [OF completes_ioctl]) (auto intro: completes_ret)

lemma completes_link_requests:
  assumes "0 \<le> fd"
  shows "completes (boot_ok md5 secret sz p m) (xmm626_kernel_smdk4412_power fd v) [] (\<lambda>_. True)"
    "completes (boot_ok md5 secret sz p m) (xmm626_kernel_smdk4412_link_control_enable fd v) [] (\<lambda>_. True)"
    "completes (boot_ok md5 secret sz p m) (xmm626_kernel_smdk4412_link_control_active fd v) [] (\<lambda>_. True)"
    "completes (boot_ok md5 secret sz p m) (xmm626_kernel_smdk4412_link_connected_wait fd) [] (\<lambda>_. True)"
    "completes (boot_ok md5 secret sz p m) (xmm626_kernel_smdk4412_link_get_hostwake_wait fd) [] (\<lambda>_. True)"
  using assms completes_ioctl_wait [where n = 99] completes_ioctl_wait [where n = 9]
  by (auto simp: xmm626_kernel_smdk4412_power_def xmm626_kernel_smdk4412_link_control_enable_def
      xmm626_kernel_smdk4412_link_control_active_def xmm626_kernel_smdk4412_link_connected_wait_def
      xmm626_kernel_smdk4412_link_get_hostwake_wait_def
      intro!: completes_then [OF completes_ioctl] completes_check simp del: ioctl_wait.simps)

lemma tame_sysfs_value_write: "tame (sysfs_value_write (Some q) v)"
  by (auto simp: sysfs_value_write_def Let_def intro!: tame_intros)

lemma keeps_sysfs_value_write: "q \<in> S \<Longrightarrow> keeps S (sysfs_value_write (Some q) v)"
  by (auto simp: sysfs_value_write_def Let_def intro!: keeps_intros)

text \<open>An attribute that exists takes a value of one digit, and goes on existing.\<close>

lemma sysfs_digit_written:
  assumes "host_ok w" "w_files w q \<noteq> None" "v = 0 \<or> v = 1"
  shows "\<exists>w'. sysfs_value_write (Some q) v w = (Done (), w') \<and> w_files w' q \<noteq> None"
proof -
  have p: "print_int v @ [10] = [if v = 0 then 48 else 49, 10]"
    using assms(3) by (auto simp: print_int_def dec_digits.simps)
  have t: "take 99 (print_int v @ [10]) = print_int v @ [10]" unfolding p by simp
  have c: "cstr (print_int v @ [10]) = print_int v @ [10]" "strlen (print_int v @ [10]) = 2"
    by (rule cstr_id [OF print_int_nonzero], subst strlen_id [OF print_int_nonzero]) (simp add: p)
  let ?w1 = "w\<lparr>w_fio := stl (w_fio w)\<rparr>"
  have f: "0 \<le> shd (w_fio w)" "2 \<le> shd (stl (w_fio w))"
    using assms(1) stl_sset [of "shd (stl (w_fio w))" "w_fio w"]
    by (auto simp: host_ok_def shd_sset) (meson order_trans shd_sset zero_le_numeral)
  then have o: "sys_open_read q w = (Done True, ?w1)" using assms(2) by (simp add: sys_open_read_def)
  have n: "min (nat (shd (stl (w_fio w)))) (Suc (Suc 0)) = 2" using f(2) by linarith
  obtain w2 where wr: "sys_file_write q 0 (print_int v @ [10]) ?w1 = (Done 2, w2)" "w_files w2 q \<noteq> None"
    using f(2) n by (simp add: sys_file_write_def Let_def p)
  show ?thesis
    by (rule exI [of _ w2]) (simp add: sysfs_value_write_def bnd_def o check_eq Let_def t c wr del: take_append)
qed

lemma sysfs_keeps_host:
  "sysfs_value_write path v w = (r, w') \<Longrightarrow> host_ok w \<Longrightarrow> host_ok w' \<and> w_rd w' = w_rd w"
  using stableD [OF stable_files(3) [OF host_ok_stable [of "w_rd w"]]] by fast

lemma completes_hci_power:
  assumes "ehci \<notin> {p, m}" "ohci \<notin> {p, m}" "v = 0 \<or> v = 1"
  shows "completes (boot_ok md5 secret sz p m) (xmm626_kernel_smdk4412_hci_power v) [] (\<lambda>_. True)"
proof (rule completesI)
  fix w :: world and rest
  assume w: "boot_ok md5 secret sz p m w" and rd: "w_rd w = map Some [] @- rest"
  then have host: "host_ok w" and ex: "w_files w ehci \<noteq> None" and nv: "nv_valid md5 secret sz (w_files w) p m"
    by (simp_all add: boot_ok_def boot_files_def)
  obtain w1 where e: "sysfs_value_write (Some ehci) v w = (Done (), w1)" "w_files w1 ehci \<noteq> None"
    using sysfs_digit_written [OF host ex assms(3)] by blast
  obtain r w2 where o: "sysfs_value_write (Some ohci) v w1 = (r, w2)" by fastforce
  have host2: "host_ok w2 \<and> w_rd w2 = rest"
    using sysfs_keeps_host [OF e(1) host] sysfs_keeps_host [OF o] rd by simp
  have "r \<noteq> Undef" using tameD [OF tame_sysfs_value_write o] by blast
  then obtain rc where rc: "try_rc (sysfs_value_write (Some ohci) v) w1 = (Done rc, w2)"
    using o by (cases r) (auto simp: try_rc_def)
  have k1: "keeps {ehci} (sysfs_value_write (Some ehci) v)" and k2: "keeps {ohci} (sysfs_value_write (Some ohci) v)"
    by (auto intro: keeps_sysfs_value_write)
  have "w_files w2 p = w_files w p \<and> w_files w2 m = w_files w m"
    using keepsD [OF k1 e(1), of p] keepsD [OF k2 o, of p] keepsD [OF k1 e(1), of m] keepsD [OF k2 o, of m] assms
    by auto
  moreover have "w_files w2 ehci \<noteq> None"
    using keepsD [OF k2 o, of ehci] e(2) by (simp add: ehci_def ohci_def)
  ultimately have "boot_ok md5 secret sz p m w2"
    using host2 nv by (auto simp: boot_ok_def boot_files_def nv_valid_def split: option.splits)
  moreover have "(if v \<noteq> 0 then 1 else 0) = v" using assms(3) by auto
  ultimately show "\<exists>a w'. xmm626_kernel_smdk4412_hci_power v w = (Done a, w') \<and> True \<and>
      boot_ok md5 secret sz p m w' \<and> w_rd w' = rest"
    using host2 rc e(1)
    by (intro exI [of _ "()"] exI [of _ w2])
      (simp add: xmm626_kernel_smdk4412_hci_power_def Let_def bnd_def try_rc_def check_eq ehci_def ohci_def)
qed

text \<open>The device traffic of a stage touches neither the files nor the drivers' and files' answers.\<close>

definition host_state :: "world \<Rightarrow> int stream \<times> int stream \<times> (string \<Rightarrow> u8 list option)" where
  "host_state w = (w_ioc w, w_fio w, w_files w)"

lemma host_state_blind: "device_blind host_state"
  by (simp add: device_blind_def host_state_def)

lemma completes_stage:
  "completes willing m' rs P \<Longrightarrow> unchanged host_state m' \<Longrightarrow> completes (boot_ok md5 secret sz p m) m' rs P"
  by (erule completes_frame [where R = "\<lambda>(i, f, fs). (\<forall>x \<in> sset i. 0 < x) \<and> (\<forall>x \<in> sset f. 2 \<le> x) \<and>
      boot_files md5 secret sz p m fs"]) (auto simp: boot_ok_def host_ok_def host_state_def)

text \<open>A valid NV data file is loaded, and only the files of the store are written.\<close>

lemma nv_load_runs:
  assumes cfg: "nv_configured c p m bp bm secret sz ck"
    and host: "host_ok w" and nv: "nv_valid md5 secret sz (w_files w) p m"
  shows "\<exists>nv w'. ipc_nv_data_load md5 (Some c) w = (Done nv, w') \<and> length nv = sz \<and> host_ok w' \<and> w_rd w' = w_rd w \<and>
    w_ioc w' = w_ioc w \<and> nv_valid md5 secret sz (w_files w') p m \<and> (\<forall>q. q \<notin> {p, m, bp, bm} \<longrightarrow> w_files w' q = w_files w q)"
proof -
  note dev = nv_deviceI [OF cfg]
  from nv obtain nv0 where nv0: "w_files w p = Some nv0" "length nv0 = sz"
    by (auto simp: nv_valid_def split: option.splits)
  from nv_device.load_runs [OF dev host_ok_files [OF host] nv0(1), of md5] nv obtain w' where
    ld: "ipc_nv_data_load md5 (Some c) w = (Done nv0, w')" by blast
  have "file_stable (\<lambda>v. w_ioc v = w_ioc w)" by (simp add: file_stable_def)
  from stableD [OF stable_nv(5) [OF this] ld] have "w_ioc w' = w_ioc w" by simp
  moreover have "host_ok w' \<and> w_rd w' = w_rd w"
    using stableD [OF stable_nv(5) [OF host_ok_stable] ld, of "w_rd w"] host by simp
  moreover have "w_files w' q = w_files w q" if "q \<notin> {p, m, bp, bm}" for q
    by (rule keepsD [OF nv_device.keeps_load [OF dev, of md5] ld that])
  moreover have "nv_valid md5 secret sz (w_files w') p m"
    using nv_device.load_Done [OF dev ld] by blast
  ultimately show ?thesis using ld nv0(2) by blast
qed

lemma completes_nv_load:
  assumes cfg: "nv_configured c p m bp bm secret sz ck" and "ehci \<notin> {p, m, bp, bm}"
  shows "completes (boot_ok md5 secret sz p m) (ipc_nv_data_load md5 (Some c)) [] (\<lambda>nv. length nv = sz)"
proof (rule completesI)
  fix w :: world and rest
  assume w: "boot_ok md5 secret sz p m w" and rd: "w_rd w = map Some [] @- rest"
  then have "host_ok w" "nv_valid md5 secret sz (w_files w) p m" by (simp_all add: boot_ok_def boot_files_def)
  from nv_load_runs [OF cfg this] assms(2) w rd
  show "\<exists>a w'. ipc_nv_data_load md5 (Some c) w = (Done a, w') \<and> length a = sz \<and>
      boot_ok md5 secret sz p m w' \<and> w_rd w' = rest"
    by (fastforce simp: boot_ok_def boot_files_def)
qed

section \<open>Booting with their answers\<close>

lemma completes_turn_on:
  assumes "turn_on \<in> {i9300_turn_on, galaxys2_turn_on}" "0 \<le> b" "0 \<le> l" "ehci \<notin> {p, m}" "ohci \<notin> {p, m}"
  shows "completes (boot_ok md5 secret sz p m) (turn_on b l) [] (\<lambda>_. True)"
  using assms by (auto simp: i9300_turn_on_def galaxys2_turn_on_def
      intro!: completes_then [OF completes_link_requests(1)] completes_then [OF completes_link_requests(2)]
        completes_then [OF completes_link_requests(3)] completes_then [OF completes_hci_power]
        completes_hci_power completes_link_requests(3))

lemma completes_relink:
  assumes "0 \<le> l" "ehci \<notin> {p, m}" "ohci \<notin> {p, m}"
  shows "completes (boot_ok md5 secret sz p m) (boot_relink l) [] (\<lambda>_. True)"
proof -
  have wake: "completes (boot_ok md5 secret sz p m) (try_rc (xmm626_kernel_smdk4412_link_get_hostwake_wait l)) [] (\<lambda>_. True)"
    using completesD [OF completes_link_requests(5) [OF assms(1)]]
    by (intro completesI) (fastforce simp: try_rc_def)
  show ?thesis
    unfolding boot_relink_def using assms
    by (intro completes_then [OF wake] completes_then [OF completes_link_requests(2)]
      completes_then [OF completes_link_requests(3)] completes_then [OF completes_link_requests(5)]
      completes_then [OF completes_hci_power] completes_link_requests(4)) simp_all
qed

text \<open>What the modem answers during the eight stages.\<close>

definition boot_answers :: "u8 list list \<Rightarrow> bool" where
  "boot_answers rs \<longleftrightarrow> (\<exists>bytes config port sec firmware nv_data sec_end.
     rs = (bytes @ [[0x00, 0xAA]]) @ [[0xCC, 0xCC], [0x51, 0xA5]] @ ([config] @ port) @ sec @ firmware @ nv_data @ sec_end \<and>
     length bytes = 26 \<and> (\<forall>r \<in> set bytes. length r = 1) \<and> length config = 0x4C \<and> hsic_reply 0x86 0x800 port \<and>
     hsic_reply 0x204 0x4000 sec \<and> hsic_reply 0x802 0x4000 firmware \<and> hsic_reply 0x802 0x4000 nv_data \<and>
     hsic_reply 0x205 0x4000 sec_end)"

lemma completes_port_config:
  assumes "0 \<le> fd" "length config = 0x4C" "hsic_reply 0x86 0x800 rs"
  shows "completes willing (xmm626_hsic_port_config_send (Some c) fd) ([config] @ rs) (\<lambda>_. True)"
proof -
  have cmd: "completes willing (xmm626_hsic_command_send fd 0x86 (Some config) 0x800 True) rs (\<lambda>_. True)"
    by (rule completes_acked) (use assms in auto)
  have "completes willing (bnd (read_whole 0x4C) (\<lambda>buffer. xmm626_hsic_command_send fd 0x86 (Some buffer) 0x800 True))
      ([config] @ rs) (\<lambda>_. True)"
    by (rule completes_bnd [OF completes_read_whole [OF assms(2)]]) (simp add: cmd)
  then show ?thesis
    using assms(1) by (simp add: xmm626_hsic_port_config_send_def hsic_sizes XMM626_COMMAND_SET_PORT_CONFIG_def
        completes_then [OF completes_select_ready])
qed

lemma completes_one_command:
  assumes "0 \<le> fd"
  shows "sec \<noteq> [] \<Longrightarrow> length sec \<le> 0x4000 \<Longrightarrow> hsic_reply 0x204 0x4000 rs \<Longrightarrow>
      completes willing (xmm626_hsic_sec_start_send (Some c) fd (Some sec)) rs (\<lambda>_. True)"
    and "hsic_reply 0x205 0x4000 rs \<Longrightarrow> completes willing (xmm626_hsic_sec_end_send (Some c) fd) rs (\<lambda>_. True)"
    and "completes willing (xmm626_hsic_hw_reset_send (Some c) fd) [] (\<lambda>_. True)"
  using assms
  by (auto simp: xmm626_hsic_sec_start_send_def xmm626_hsic_sec_end_send_def xmm626_hsic_hw_reset_send_def
      XMM626_COMMAND_SEC_START_def XMM626_COMMAND_SEC_END_def hsic_sizes le16_def le32_def
      intro!: completes_acked completes_command(1))

lemma completes_nv_data_send:
  assumes cfg: "nv_configured c p m bp bm secret sz ck" and "ehci \<notin> {p, m, bp, bm}" "0 \<le> fd"
    and "hsic_reply 0x802 0x4000 rs"
  shows "completes (boot_ok md5 secret sz p m) (xmm626_hsic_nv_data_send md5 (Some c) fd) rs (\<lambda>_. True)"
proof -
  have sz: "ipc_client_nv_data_size (Some c) = sz" "0 < sz" using cfg by (auto simp: nv_configured_def)
  have "completes (boot_ok md5 secret sz p m) (xmm626_hsic_modem_data_send fd (Some nv) XMM626_NV_DATA_ADDRESS) rs (\<lambda>_. True)"
    if "length nv = sz" for nv
    using completes_modem_data_send [OF assms(3) _ assms(4)] that sz(2)
    by (intro completes_stage unchanged_hsic_stages(7) [OF host_state_blind]) auto
  then show ?thesis
    unfolding xmm626_hsic_nv_data_send_def using assms(3) sz
    by (simp, intro completes_then [OF completes_nv_load [OF cfg assms(2)]])
qed

definition image_fits :: "boot_image \<Rightarrow> u8 list \<Rightarrow> bool" where
  "image_fits img mem \<longleftrightarrow> bi_psi_size img \<noteq> 0 \<and> 0 < bi_ebl_size img \<and> 0 < bi_sec_start_size img \<and>
     bi_sec_start_size img \<le> 0x4000 \<and> 0 < bi_firmware_size img \<and>
     bi_psi_offset img + unat (bi_psi_size img) \<le> length mem \<and> bi_ebl_offset img + bi_ebl_size img \<le> length mem \<and>
     bi_sec_start_offset img + bi_sec_start_size img \<le> length mem \<and>
     bi_firmware_offset img + bi_firmware_size img \<le> length mem"

lemma image_part_eq:
  "offset + n \<le> length mem \<Longrightarrow> bnd (image_part offset n mem) f = f (take n (drop offset mem))"
  by (simp add: image_part_def peek_def bnd_lift)

lemma boot_images_fit: "(boot, img) \<in> boot_devices \<Longrightarrow> length mem = bi_size img \<Longrightarrow> image_fits img mem"
  by (auto simp: boot_devices_def image_fits_def i9300_image_def n7100_image_def n5100_image_def galaxys2_image_def)

lemma completes_boot_load:
  assumes cfg: "nv_configured c p m bp bm secret sz ck" and paths: "ehci \<notin> {p, m, bp, bm}"
    and fd: "0 \<le> fd" and fits: "image_fits img mem" and ans: "boot_answers rs"
  shows "completes (boot_ok md5 secret sz p m) (boot_load img md5 (Some c) fd mem) rs (\<lambda>_. True)"
proof -
  let ?I = "boot_ok md5 secret sz p m"
  obtain bytes config port sec firmware nv_data sec_end where
    rs: "rs = (bytes @ [[0x00, 0xAA]]) @ [[0xCC, 0xCC], [0x51, 0xA5]] @ ([config] @ port) @ sec @ firmware @ nv_data @ sec_end"
    and a: "length bytes = 26" "\<forall>r \<in> set bytes. length r = 1" "length config = 0x4C" "hsic_reply 0x86 0x800 port"
      "hsic_reply 0x204 0x4000 sec" "hsic_reply 0x802 0x4000 firmware" "hsic_reply 0x802 0x4000 nv_data"
      "hsic_reply 0x205 0x4000 sec_end"
    using ans unfolding boot_answers_def by blast
  have acks: "[0x00, 0xAA] = le16 XMM626_HSIC_PSI_ACK" "[0xCC, 0xCC] = le16 XMM626_HSIC_EBL_SIZE_ACK"
      "[0x51, 0xA5] = le16 XMM626_HSIC_EBL_ACK"
    by (simp_all add: XMM626_HSIC_PSI_ACK_def XMM626_HSIC_EBL_SIZE_ACK_def XMM626_HSIC_EBL_ACK_def le16_def
        drop_bit_eq_div)
  note f = fits [unfolded image_fits_def]
  note u = unchanged_hsic_stages [OF host_state_blind]
  let ?ebl = "take (bi_ebl_size img) (drop (bi_ebl_offset img) mem)"
  let ?sec = "take (bi_sec_start_size img) (drop (bi_sec_start_offset img) mem)"
  let ?fw = "take (bi_firmware_size img) (drop (bi_firmware_offset img) mem)"
  have ne: "?ebl \<noteq> []" "?sec \<noteq> []" "length ?sec \<le> 0x4000" "?fw \<noteq> []" using f by auto
  have psi: "completes ?I (xmm626_hsic_psi_send (Some c) fd (Some (drop (bi_psi_offset img) mem)) (bi_psi_size img))
      (bytes @ [[0x00, 0xAA]]) (\<lambda>_. True)"
    unfolding acks by (intro completes_stage completes_psi_send u fd a(1,2)) (use f in auto)
  have ebl: "completes ?I (xmm626_hsic_ebl_send (Some c) fd (Some ?ebl)) [[0xCC, 0xCC], [0x51, 0xA5]] (\<lambda>_. True)"
    unfolding acks by (intro completes_stage completes_ebl_send u fd ne)
  have port: "completes ?I (xmm626_hsic_port_config_send (Some c) fd) ([config] @ port) (\<lambda>_. True)"
    by (intro completes_stage completes_port_config u fd a)
  have secs: "completes ?I (xmm626_hsic_sec_start_send (Some c) fd (Some ?sec)) sec (\<lambda>_. True)"
    by (intro completes_stage completes_one_command(1) u fd ne a)
  have "completes willing (xmm626_hsic_firmware_send (Some c) fd (Some ?fw)) firmware (\<lambda>_. True)"
    using completes_modem_data_send [OF fd ne(4) a(6)] fd ne(4) unfolding xmm626_hsic_firmware_send_def
    by (simp only: option.case prod.case length_0_conv if_False not_less [symmetric] simp_thms)
  then have fw: "completes ?I (xmm626_hsic_firmware_send (Some c) fd (Some ?fw)) firmware (\<lambda>_. True)"
    by (intro completes_stage u)
  note nv = completes_nv_data_send [OF cfg paths fd a(7), of md5]
  have se: "completes ?I (xmm626_hsic_sec_end_send (Some c) fd) sec_end (\<lambda>_. True)"
    by (intro completes_stage completes_one_command(2) u fd a)
  have hw: "completes ?I (xmm626_hsic_hw_reset_send (Some c) fd) [] (\<lambda>_. True)"
    by (intro completes_stage completes_one_command(3) u fd)
  have "completes ?I (boot_load img md5 (Some c) fd mem)
    ((bytes @ [[0x00, 0xAA]]) @ [[0xCC, 0xCC], [0x51, 0xA5]] @ ([config] @ port) @ sec @ firmware @ nv_data @ sec_end @ [])
    (\<lambda>_. True)"
    unfolding boot_load_def using f
    by (simp only: image_part_eq, intro completes_bnd [OF psi] completes_bnd [OF ebl] completes_bnd [OF port]
      completes_bnd [OF secs] completes_bnd [OF fw] completes_bnd [OF nv] completes_bnd [OF se] hw)
  then show ?thesis unfolding rs by simp
qed

lemma completes_boot_steps:
  assumes "nv_configured c p m bp bm secret sz ck" "ehci \<notin> {p, m, bp, bm}" "ohci \<notin> {p, m}"
    and "turn_on \<in> {i9300_turn_on, galaxys2_turn_on}" "0 \<le> fd" "0 \<le> l" "image_fits img mem" "boot_answers rs"
  shows "completes (boot_ok md5 secret sz p m) (boot_steps img turn_on md5 (Some c) fd l mem) rs (\<lambda>_. True)"
proof -
  have load: "completes (boot_ok md5 secret sz p m) (bnd (boot_load img md5 (Some c) fd mem) (\<lambda>_. boot_relink l))
      (rs @ []) (\<lambda>_. True)"
    by (rule completes_bnd [OF completes_boot_load completes_relink]) (use assms in auto)
  have "completes (boot_ok md5 secret sz p m) (turn_on fd l) [] (\<lambda>_. True)"
    by (rule completes_turn_on) (use assms in auto)
  then show ?thesis
    unfolding boot_steps_def
    by (rule completes_then) (rule completes_then [OF completes_link_requests(4) [OF assms(6)] load [simplified]])
qed

text \<open>Opening the devices and mapping the image.\<close>

lemma hsic_boot_opened:
  assumes "\<forall>x \<in> sset (w_open w). 0 \<le> x" "boot_ok md5 secret sz p m w" "bi_size img \<le> length (file_of w (bi_device img))"
  obtains f2 f3 w1 where "0 \<le> f2" "0 \<le> f3" "boot_ok md5 secret sz p m w1" "w_rd w1 = w_rd w"
    "\<And>w2. boot_steps img turn_on md5 (Some c) f2 f3 (take (bi_size img) (file_of w (bi_device img))) w1 = (Done (), w2) \<Longrightarrow>
      \<exists>w'. hsic_boot img turn_on md5 (Some c) w = (Done (), w') \<and> w_rd w' = w_rd w2"
proof -
  let ?f1 = "shd (w_open w)" and ?f2 = "shd (stl (w_open w))" and ?f3 = "shd (stl (stl (w_open w)))"
  let ?mem = "take (bi_size img) (file_of w (bi_device img))"
  have f: "0 \<le> ?f1" "0 \<le> ?f2" "0 \<le> ?f3" using assms(1) by (meson shd_sset stl_sset)+
  have fio: "\<not> shd (w_fio w) < 0" using assms(2) by (force simp: boot_ok_def host_ok_def dest: bspec [OF _ shd_sset])
  let ?v1 = "w\<lparr>w_open := stl (w_open w), w_trace := w_trace w @ [EvOpen (bi_device img) ?f1]\<rparr>"
  let ?v2 = "?v1\<lparr>w_fio := stl (w_fio w)\<rparr>"
  let ?v3 = "?v2\<lparr>w_open := stl (stl (w_open w)), w_trace := w_trace ?v1 @ [EvOpen ''/dev/umts_boot0'' ?f2]\<rparr>"
  let ?v4 = "?v3\<lparr>w_open := stl (stl (stl (w_open w))), w_trace := w_trace ?v3 @ [EvOpen ''/dev/link_pm'' ?f3]\<rparr>"
  show ?thesis
  proof (rule that [of ?f2 ?f3 ?v4])
    show "boot_ok md5 secret sz p m ?v4"
      using assms(2) by (auto simp: boot_ok_def host_ok_def willing_def dest: stl_sset)
    show "\<exists>w'. hsic_boot img turn_on md5 (Some c) w = (Done (), w') \<and> w_rd w' = w_rd w2"
      if "boot_steps img turn_on md5 (Some c) ?f2 ?f3 ?mem ?v4 = (Done (), w2)" for w2
      using f fio that by (simp add: hsic_boot_def bnd_def sys_open_def sys_mmap_def file_of_def Let_def
          complete_def try_rc_def close_valid_shape check_eq)
  qed (use f in simp_all)
qed

lemma boot_device_completes:
  assumes "(boot, img) \<in> boot_devices" "nv_configured c p m bp bm secret sz ck" "ehci \<notin> {p, m, bp, bm}"
    "ohci \<notin> {p, m}" "boot_ok md5 secret sz p m w" "\<forall>x \<in> sset (w_open w). 0 \<le> x"
    "bi_size img \<le> length (file_of w (bi_device img))" "boot_answers rs" "w_rd w = map Some rs @- rest"
  shows "\<exists>w'. boot md5 (Some c) w = (Done (), w') \<and> w_rd w' = rest"
proof -
  obtain turn_on where boot: "boot = hsic_boot img turn_on" and t: "turn_on \<in> {i9300_turn_on, galaxys2_turn_on}"
    by (rule boot_devices_hsic [OF assms(1)])
  let ?mem = "take (bi_size img) (file_of w (bi_device img))"
  show ?thesis
  proof (rule hsic_boot_opened [OF assms(6,5,7), where turn_on = turn_on and c = c])
    fix f2 f3 w1
    assume f: "0 \<le> f2" "0 \<le> f3" and w1: "boot_ok md5 secret sz p m w1" "w_rd w1 = w_rd w" and
      run: "\<And>w2. boot_steps img turn_on md5 (Some c) f2 f3 ?mem w1 = (Done (), w2) \<Longrightarrow>
        \<exists>w'. hsic_boot img turn_on md5 (Some c) w = (Done (), w') \<and> w_rd w' = w_rd w2"
    have fits: "image_fits img ?mem" by (rule boot_images_fit [OF assms(1)]) (use assms(7) in simp)
    from completesD [OF completes_boot_steps [OF assms(2-4) t f fits assms(8)] w1(1)] w1(2) assms(9)
    obtain u w2 where "boot_steps img turn_on md5 (Some c) f2 f3 ?mem w1 = (Done u, w2)" "w_rd w2 = rest" by force
    with run boot show ?thesis by (metis old.unit.exhaust)
  qed
qed

text \<open>
  C22: booting an HSIC device succeeds whenever its devices can be opened and its image is
  complete, its drivers answer, the files can be accessed, the NV data is valid, and the modem
  gives the answers of its protocol; it takes no more and no fewer answers than these.
\<close>

theorem boot_completes:
  assumes "(boot, img) \<in> boot_devices" and "nv_configured c p m bp bm secret sz ck" and "ehci \<notin> {p, m, bp, bm}"
    and "ohci \<notin> {p, m}" and "boot_ok md5 secret sz p m w" and "\<forall>x \<in> sset (w_open w). 0 \<le> x"
    and "bi_size img \<le> length (file_of w (bi_device img))" and "boot_answers rs" and "w_rd w = map Some rs @- rest"
  shows "\<exists>w'. boot md5 (Some c) w = (Done (), w') \<and> w_rd w' = rest"
  using assms by (rule boot_device_completes)

section \<open>Instances\<close>

definition demo_answers :: "u8 list list" where
  "demo_answers = (replicate 26 [7] @ [[0x00, 0xAA]]) @ [[0xCC, 0xCC], [0x51, 0xA5]] @
     ([calloc 0x4C] @ [[0, 0, 0x86, 0, 0, 0, 0, 0], calloc 0x800]) @ [[0, 0, 4, 2, 0, 0, 0, 0], calloc 0x4000] @
     [[0, 0, 2, 8, 0, 0, 0, 0], calloc 0x4000] @ [[0, 0, 2, 8, 0, 0, 0, 0], calloc 0x4000] @
     [[0, 0, 5, 2, 0, 0, 0, 0], calloc 0x4000]"

definition demo_boot_world :: world where
  "demo_boot_world = demo_nv_world\<lparr>w_sel := sconst 1, w_wr := sconst 0x8000, w_ioc := sconst 1, w_fio := sconst 2,
     w_open := 3 ## 4 ## sconst 5, w_rd := map Some demo_answers @- sconst None, w_trace := [],
     w_files := (w_files demo_nv_world)(ehci \<mapsto> [48, 10], ''/dev/mmcblk0p7'' \<mapsto> calloc 0x1000000)\<rparr>"

lemma demo_answers_ok: "boot_answers demo_answers"
proof -
  have r: "hsic_reply code n [[0, 0, a, b, 0, 0, 0, 0], calloc n]" if "get16 [a, b] = code" for code n a b
    using that by (simp add: hsic_reply_def get16_def)
  show ?thesis
    unfolding boot_answers_def demo_answers_def
    by (intro exI conjI) (rule refl, simp_all add: r get16_def push_bit_eq_mult)
qed

lemma demo_boot_ok: "boot_ok demo_md5 [7] 5 ''nv'' ''nv.md5'' demo_boot_world"
  using demo_nv_valid
  by (auto simp: boot_ok_def host_ok_def willing_def boot_files_def demo_boot_world_def ehci_def nv_valid_def
      split: option.splits)

lemma demo_boots:
  "\<exists>w'. i9300_boot demo_md5 (Some demo_env) demo_boot_world = (Done (), w') \<and> w_rd w' = sconst None"
proof (rule boot_device_completes [OF _ demo_configured _ _ demo_boot_ok _ _ demo_answers_ok])
  show "(i9300_boot, i9300_image) \<in> boot_devices" by (simp add: boot_devices_def)
  show "\<forall>x \<in> sset (w_open demo_boot_world). 0 \<le> x" by (simp add: demo_boot_world_def)
  show "bi_size i9300_image \<le> length (file_of demo_boot_world (bi_device i9300_image))"
    by (simp add: demo_boot_world_def i9300_image_def file_of_def)
  show "w_rd demo_boot_world = map Some demo_answers @- sconst None" by (simp add: demo_boot_world_def)
qed (simp_all add: ehci_def ohci_def)

theorem boot_completes_witness:
  "\<exists>w'. i9300_boot demo_md5 (Some demo_env) demo_boot_world = (Done (), w') \<and> w_rd w' = sconst None"
proof (rule boot_completes [OF _ demo_configured _ _ demo_boot_ok _ _ demo_answers_ok])
  show "(i9300_boot, i9300_image) \<in> boot_devices" by (simp add: boot_devices_def)
  show "\<forall>x \<in> sset (w_open demo_boot_world). 0 \<le> x" by (simp add: demo_boot_world_def)
  show "bi_size i9300_image \<le> length (file_of demo_boot_world (bi_device i9300_image))"
    by (simp add: demo_boot_world_def i9300_image_def file_of_def)
  show "w_rd demo_boot_world = map Some demo_answers @- sconst None" by (simp add: demo_boot_world_def)
qed (simp_all add: ehci_def ohci_def)

theorem boot_loads_modem_witness:
  "\<exists>w' fd nv out. i9300_boot demo_md5 (Some demo_env) demo_boot_world = (Done (), w') \<and>
     EvOpen ''/dev/umts_boot0'' fd \<in> set (w_trace w') \<and> sent fd w' = out \<and>
     boot_bytes i9300_image (calloc 0x1000000) nv out \<and> w_files w' ''nv'' = Some nv"
proof -
  obtain w' where w': "i9300_boot demo_md5 (Some demo_env) demo_boot_world = (Done (), w')"
    using demo_boots by blast
  have d: "(i9300_boot, i9300_image) \<in> boot_devices" by (simp add: boot_devices_def)
  have m: "take (bi_size i9300_image) (file_of demo_boot_world (bi_device i9300_image)) = calloc 0x1000000"
    by (simp add: demo_boot_world_def i9300_image_def file_of_def)
  have t: "w_trace demo_boot_world = []" by (simp add: demo_boot_world_def)
  show ?thesis
    using boot_loads_modem [OF d demo_configured _ w'] w' unfolding m by (auto simp: t sent_def)
qed

theorem boot_closes_descriptors_witness:
  "\<exists>w'. i9300_boot demo_md5 (Some demo_env) demo_boot_world = (Done (), w') \<and>
     opened (w_trace w') = closed (w_trace w') \<and> length (opened (w_trace w')) = 3"
proof -
  obtain w' where w': "i9300_boot demo_md5 (Some demo_env) demo_boot_world = (Done (), w')"
    using demo_boots by blast
  have d: "(i9300_boot, i9300_image) \<in> boot_devices" by (simp add: boot_devices_def)
  have t: "w_trace demo_boot_world = []" by (simp add: demo_boot_world_def)
  show ?thesis
    using boot_closes_descriptors [OF d w'] w' by (auto simp: t)
qed

end
