(* ===== verification/Mipi.thy ===== *)
theory Mipi
  imports Xmm626
begin

text \<open>
  modems/xmm626/xmm626_mipi.c: loading the XMM626 modem over MIPI. The stages are those of HSIC
  with other frames: a command ends in a footer with the checksum, and every command but the
  last is answered by a length and as many bytes, read in words of four.

  \<open>size_t\<close> and \<open>int\<close> have four bytes.
\<close>

section \<open>Constants\<close>

definition XMM626_MIPI_BOOT0_ACK :: u16 where "XMM626_MIPI_BOOT0_ACK = 0xFFFF"
definition XMM626_MIPI_BOOT1_MAGIC :: u16 where "XMM626_MIPI_BOOT1_MAGIC = 0x02"
definition XMM626_MIPI_BOOT1_ACK :: u16 where "XMM626_MIPI_BOOT1_ACK = 0xAA00"
definition XMM626_MIPI_PSI_ACK :: u16 where "XMM626_MIPI_PSI_ACK = 0xDD01"
definition XMM626_MIPI_EBL_SIZE_ACK :: u16 where "XMM626_MIPI_EBL_SIZE_ACK = 0xCCCC"
definition XMM626_MIPI_EBL_ACK :: u16 where "XMM626_MIPI_EBL_ACK = 0xA551"
definition XMM626_MIPI_EBL_CHUNK :: nat where "XMM626_MIPI_EBL_CHUNK = 0xDFC"
definition XMM626_MIPI_MODEM_DATA_CHUNK :: nat where "XMM626_MIPI_MODEM_DATA_CHUNK = 0xDF2"
definition XMM626_MIPI_COMMAND_HEADER_MAGIC :: u16 where "XMM626_MIPI_COMMAND_HEADER_MAGIC = 0x02"
definition XMM626_MIPI_COMMAND_FOOTER_MAGIC :: u16 where "XMM626_MIPI_COMMAND_FOOTER_MAGIC = 0x03"
definition XMM626_MIPI_COMMAND_FOOTER_UNKNOWN :: u16 where "XMM626_MIPI_COMMAND_FOOTER_UNKNOWN = 0xEAEA"
definition XMM626_MPS_DATA_ADDRESS :: u32 where "XMM626_MPS_DATA_ADDRESS = 0x61080000"

section \<open>Checksum and acknowledgements\<close>

definition xmm626_mipi_crc_calculate :: "u8 list option \<Rightarrow> u32" where
  "xmm626_mipi_crc_calculate data = push_bit 24 (ucast (xmm626_crc_calculate data)) OR 0xffffff"

text \<open>
  The loop is that of HSIC with values of four bytes, of which the lower half is compared
  (\<open>low_half\<close> below).
\<close>

definition xmm626_mipi_ack_read :: "int \<Rightarrow> u16 \<Rightarrow> unit io" where
  "xmm626_mipi_ack_read device_fd ack = ack_loop 50 4 ack"

lemma low_half: "ucast (get32 bs AND 0xffff) = get16 bs"
proof -
  have "(0xffff :: u32) = mask 16" by (simp add: mask_eq_exp_minus_1)
  show ?thesis
    unfolding \<open>(0xffff :: u32) = mask 16\<close>
    by (rule bit_word_eqI) (auto simp: get32_def get16_def bit_simps)
qed

section \<open>PSI and EBL\<close>

definition mipi_psi_header_bytes :: "u16 \<Rightarrow> u8 list" where
  "mipi_psi_header_bytes psi_size =
     [XMM626_PSI_PADDING] @
     le16 ((drop_bit 8 psi_size AND 0xff) OR push_bit 8 (psi_size AND 0xff)) @
     [XMM626_PSI_MAGIC]"

definition xmm626_mipi_psi_send ::
  "client_env option \<Rightarrow> int \<Rightarrow> u8 list option \<Rightarrow> u16 \<Rightarrow> unit io" where
  "xmm626_mipi_psi_send client device_fd psi_data psi_size =
     (case (client, psi_data) of
        (Some _, Some mem) \<Rightarrow>
          if device_fd < 0 \<or> psi_size = 0 then fail
          else
            bnd (at_loop 51 device_fd) (\<lambda>_.
            bnd (xmm626_mipi_ack_read device_fd XMM626_MIPI_BOOT0_ACK) (\<lambda>_.
            bnd (write_whole device_fd (mipi_psi_header_bytes psi_size)) (\<lambda>_.
            bnd (lift_outcome (peek 0 (unat psi_size) mem)) (\<lambda>psi.
            bnd (write_loop (sys_write device_fd) None psi) (\<lambda>_.
            bnd (write_whole device_fd (le32 (xmm626_mipi_crc_calculate (Some psi)))) (\<lambda>_.
            xmm626_mipi_ack_read device_fd XMM626_MIPI_PSI_ACK))))))
      | _ \<Rightarrow> fail)"

definition boot_magic_bytes :: "u8 list" where
  "boot_magic_bytes = le16 0 @ le16 0 @ le16 XMM626_MIPI_BOOT1_MAGIC @ le16 XMM626_MIPI_BOOT1_MAGIC"

definition xmm626_mipi_ebl_send :: "client_env option \<Rightarrow> int \<Rightarrow> u8 list option \<Rightarrow> unit io" where
  "xmm626_mipi_ebl_send client device_fd ebl_data =
     (case (client, ebl_data) of
        (Some _, Some ebl) \<Rightarrow>
          let ebl_size = of_nat (length ebl) :: u32 in
          if device_fd < 0 \<or> length ebl = 0 then fail
          else
            bnd (write_whole device_fd (le32 8)) (\<lambda>_.
            bnd (write_whole device_fd boot_magic_bytes) (\<lambda>_.
            bnd (xmm626_mipi_ack_read device_fd XMM626_MIPI_BOOT1_ACK) (\<lambda>_.
            bnd (write_whole device_fd (le32 4)) (\<lambda>_.
            bnd (write_whole device_fd (le32 ebl_size)) (\<lambda>_.
            bnd (xmm626_mipi_ack_read device_fd XMM626_MIPI_EBL_SIZE_ACK) (\<lambda>_.
            bnd (write_whole device_fd (le32 (ebl_size + 1))) (\<lambda>_.
            bnd (write_loop (sys_write device_fd) (Some XMM626_MIPI_EBL_CHUNK) ebl) (\<lambda>_.
            bnd (write_whole device_fd [xmm626_crc_calculate (Some ebl)]) (\<lambda>_.
            xmm626_mipi_ack_read device_fd XMM626_MIPI_EBL_ACK)))))))))
      | _ \<Rightarrow> fail)"

section \<open>Commands\<close>

record xmm626_mipi_command_header =
  mch_size :: u32
  mch_magic :: u16
  mch_code :: u16
  mch_data_size :: u16

record xmm626_mipi_command_footer =
  mcf_checksum :: u16
  mcf_magic :: u16
  mcf_unknown :: u16

definition mipi_command_header_bytes :: "xmm626_mipi_command_header \<Rightarrow> u8 list" where
  "mipi_command_header_bytes h = le32 (mch_size h) @ le16 (mch_magic h) @ le16 (mch_code h) @ le16 (mch_data_size h)"

definition mipi_command_footer_bytes :: "xmm626_mipi_command_footer \<Rightarrow> u8 list" where
  "mipi_command_footer_bytes f = le16 (mcf_checksum f) @ le16 (mcf_magic f) @ le16 (mcf_unknown f)"

text \<open>
  The answer's block of \<open>len\<close> bytes is filled in words of four: the last word may run over it.
\<close>

function mipi_reply_loop :: "nat \<Rightarrow> u8 list \<Rightarrow> u8 list io" where
  "mipi_reply_loop len acc w =
     (if length acc < len then
        (case select_ready w of
           (Done _, w1) \<Rightarrow>
             (case sys_read 4 w1 of
                (Done (Some bs), w2) \<Rightarrow>
                  if len < length acc + length bs then (Undef, w2)
                  else if length bs < 4 then (Fail, w2)
                  else mipi_reply_loop len (acc @ bs) w2
              | (Done None, w2) \<Rightarrow> (Fail, w2)
              | (Fail, w2) \<Rightarrow> (Fail, w2)
              | (Undef, w2) \<Rightarrow> (Undef, w2))
         | (Fail, w1) \<Rightarrow> (Fail, w1)
         | (Undef, w1) \<Rightarrow> (Undef, w1))
      else (Done acc, w))"
  by pat_completeness auto
termination
  by (relation "measure (\<lambda>(len, acc, w). len - length acc)") auto

declare mipi_reply_loop.simps [simp del]

text \<open>The length of the block: four bytes more than announced, and what the rounding adds.\<close>

definition mipi_reply_length :: "u32 \<Rightarrow> u32" where
  "mipi_reply_length len = (let l = len + 4 in if l mod 4 \<noteq> 0 then l + l mod 4 else l)"

definition xmm626_mipi_command_send ::
  "int \<Rightarrow> u16 \<Rightarrow> u8 list option \<Rightarrow> bool \<Rightarrow> bool \<Rightarrow> unit io" where
  "xmm626_mipi_command_send device_fd code data ack short_footer =
     (case data of None \<Rightarrow> fail
      | Some bs \<Rightarrow>
          let sz = length bs in
          if device_fd < 0 \<or> sz \<le> 0 then fail
          else
            let header = \<lparr>mch_size = of_nat (sz + 10), mch_magic = XMM626_MIPI_COMMAND_HEADER_MAGIC,
                          mch_code = code, mch_data_size = of_nat sz\<rparr>;
                footer = \<lparr>mcf_checksum = checksum_loop (of_nat (sz mod 0x10000) + code) bs,
                          mcf_magic = XMM626_MIPI_COMMAND_FOOTER_MAGIC,
                          mcf_unknown = XMM626_MIPI_COMMAND_FOOTER_UNKNOWN\<rparr>;
                footer_length = (if short_footer then 6 - 2 else 6)
            in
            bnd (lift_outcome (pokes 0 [mipi_command_header_bytes header, bs,
                   take footer_length (mipi_command_footer_bytes footer)] (calloc (10 + sz + footer_length))))
              (\<lambda>buffer.
            bnd (write_whole device_fd buffer) (\<lambda>_.
            if \<not> ack then ret ()
            else
              bnd select_ready (\<lambda>_.
              bnd (read_whole 4) (\<lambda>len_bytes.
              bnd (check (get32 len_bytes \<noteq> 0)) (\<lambda>_.
              let len = mipi_reply_length (get32 len_bytes) in
              bnd (check (\<not> len < 4)) (\<lambda>_.
              bnd (mipi_reply_loop (unat len) (le32 len)) (\<lambda>reply.
              bnd (lift_outcome (peek 0 10 reply)) (\<lambda>header.
              check (get16 (drop 6 header) = code)))))))))
     )"

function mipi_data_loop :: "int \<Rightarrow> u8 list \<Rightarrow> unit io" where
  "mipi_data_loop device_fd p =
     (if p \<noteq> [] then
        bnd (xmm626_mipi_command_send device_fd XMM626_COMMAND_FLASH_WRITE_BLOCK
               (Some (take XMM626_MIPI_MODEM_DATA_CHUNK p)) True True)
          (\<lambda>_. mipi_data_loop device_fd (drop XMM626_MIPI_MODEM_DATA_CHUNK p))
      else ret ())"
  by pat_completeness auto
termination
  by (relation "measure (\<lambda>(device_fd, p). length p)") (auto simp: XMM626_MIPI_MODEM_DATA_CHUNK_def)

declare mipi_data_loop.simps [simp del]

definition xmm626_mipi_modem_data_send :: "int \<Rightarrow> u8 list option \<Rightarrow> u32 \<Rightarrow> unit io" where
  "xmm626_mipi_modem_data_send device_fd data address =
     (case data of None \<Rightarrow> fail
      | Some bs \<Rightarrow>
          if device_fd < 0 \<or> length bs = 0 then fail
          else
            bnd (xmm626_mipi_command_send device_fd XMM626_COMMAND_FLASH_SET_ADDRESS
                   (Some (le32 address)) True False)
              (\<lambda>_. mipi_data_loop device_fd bs))"

lemma piece_length: "bnd select_ready (\<lambda>_. read_whole n) w = (Done bs, w') \<Longrightarrow> length bs = n"
  using sys_read_length [of n _ bs]
  by (fastforce simp: bnd_eq_Done read_whole_def fail_eq ret_eq split: option.splits if_splits)

text \<open>The port configuration is read in pieces of at most four bytes.\<close>

function port_config_loop :: "nat \<Rightarrow> u8 list \<Rightarrow> u8 list io" where
  "port_config_loop len acc w =
     (if length acc < len then
        (case bnd select_ready (\<lambda>_. read_whole (if 4 < len - length acc then 4 else len - length acc)) w of
           (Done bs, w') \<Rightarrow>
             port_config_loop len (acc @ bs) w'
         | (Fail, w') \<Rightarrow> (Fail, w')
         | (Undef, w') \<Rightarrow> (Undef, w'))
      else (Done acc, w))"
  by pat_completeness auto
termination
proof (relation "measure (\<lambda>(len, acc, w). len - length acc)", goal_cases)
  case (2 len acc w r w' bs)
  then show ?case by (auto dest!: piece_length [OF sym] intro!: diff_less_mono2)
qed simp

declare port_config_loop.simps [simp del]

definition xmm626_mipi_port_config_send :: "client_env option \<Rightarrow> int \<Rightarrow> unit io" where
  "xmm626_mipi_port_config_send client device_fd =
     (if client = None \<or> device_fd < 0 then fail
      else
        bnd select_ready (\<lambda>_.
        bnd (read_whole 4) (\<lambda>len_bytes.
        bnd (check (get32 len_bytes \<noteq> 0)) (\<lambda>_.
        bnd (port_config_loop (unat (get32 len_bytes)) []) (\<lambda>buffer.
        xmm626_mipi_command_send device_fd XMM626_COMMAND_SET_PORT_CONFIG (Some buffer) True False)))))"

definition xmm626_mipi_sec_start_send :: "client_env option \<Rightarrow> int \<Rightarrow> u8 list option \<Rightarrow> unit io" where
  "xmm626_mipi_sec_start_send client device_fd sec_data =
     (case (client, sec_data) of
        (Some _, Some bs) \<Rightarrow>
          if device_fd < 0 \<or> length bs = 0 then fail
          else xmm626_mipi_command_send device_fd XMM626_COMMAND_SEC_START (Some bs) True False
      | _ \<Rightarrow> fail)"

definition xmm626_mipi_sec_end_send :: "client_env option \<Rightarrow> int \<Rightarrow> unit io" where
  "xmm626_mipi_sec_end_send client device_fd =
     (if client = None \<or> device_fd < 0 then fail
      else xmm626_mipi_command_send device_fd XMM626_COMMAND_SEC_END (Some (le16 XMM626_SEC_END_MAGIC)) True True)"

definition xmm626_mipi_firmware_send :: "client_env option \<Rightarrow> int \<Rightarrow> u8 list option \<Rightarrow> unit io" where
  "xmm626_mipi_firmware_send client device_fd firmware_data =
     (case (client, firmware_data) of
        (Some _, Some bs) \<Rightarrow>
          if device_fd < 0 \<or> length bs = 0 then fail
          else xmm626_mipi_modem_data_send device_fd (Some bs) XMM626_FIRMWARE_ADDRESS
      | _ \<Rightarrow> fail)"

definition xmm626_mipi_nv_data_send :: "(u8 list \<Rightarrow> u8 list) \<Rightarrow> client_env option \<Rightarrow> int \<Rightarrow> unit io" where
  "xmm626_mipi_nv_data_send md5 client device_fd =
     (if client = None \<or> device_fd < 0 then fail
      else if ipc_client_nv_data_size client = 0 then fail
      else
        bnd (ipc_nv_data_load md5 client) (\<lambda>nv_data.
        xmm626_mipi_modem_data_send device_fd (Some nv_data) XMM626_NV_DATA_ADDRESS))"

definition xmm626_mipi_mps_data_send :: "client_env option \<Rightarrow> int \<Rightarrow> u8 list option \<Rightarrow> unit io" where
  "xmm626_mipi_mps_data_send client device_fd mps_data =
     (case (client, mps_data) of
        (Some _, Some bs) \<Rightarrow>
          if device_fd < 0 \<or> length bs = 0 then fail
          else xmm626_mipi_modem_data_send device_fd (Some bs) XMM626_MPS_DATA_ADDRESS
      | _ \<Rightarrow> fail)"

definition xmm626_mipi_hw_reset_send :: "client_env option \<Rightarrow> int \<Rightarrow> unit io" where
  "xmm626_mipi_hw_reset_send client device_fd =
     (if client = None \<or> device_fd < 0 then fail
      else xmm626_mipi_command_send device_fd XMM626_COMMAND_HW_RESET (Some (le32 XMM626_HW_RESET_MAGIC)) False True)"

section \<open>Frames\<close>

definition mipi_frame :: "u16 \<Rightarrow> bool \<Rightarrow> u8 list \<Rightarrow> u8 list" where
  "mipi_frame code short_footer data =
     le32 (of_nat (length data + 10)) @ le16 0x02 @ le16 code @ le16 (of_nat (length data)) @ data @
     le16 (command_checksum code data) @ le16 0x03 @ (if short_footer then [] else [0xEA, 0xEA])"

lemma mipi_frame_length: "length (mipi_frame code short_footer data) = length data + (if short_footer then 14 else 16)"
  by (simp add: mipi_frame_def)

lemma command_frame:
  "pokes 0 [mipi_command_header_bytes \<lparr>mch_size = of_nat (length data + 10), mch_magic = XMM626_MIPI_COMMAND_HEADER_MAGIC,
       mch_code = code, mch_data_size = of_nat (length data)\<rparr>, data,
     take (if short_footer then 6 - 2 else 6) (mipi_command_footer_bytes
       \<lparr>mcf_checksum = checksum_loop (of_nat (length data mod 0x10000) + code) data,
        mcf_magic = XMM626_MIPI_COMMAND_FOOTER_MAGIC, mcf_unknown = XMM626_MIPI_COMMAND_FOOTER_UNKNOWN\<rparr>)]
     (calloc (10 + length data + (if short_footer then 6 - 2 else 6))) = Done (mipi_frame code short_footer data)"
proof -
  have u: "le16 XMM626_MIPI_COMMAND_FOOTER_UNKNOWN = [0xEA, 0xEA]"
    by (simp add: XMM626_MIPI_COMMAND_FOOTER_UNKNOWN_def le16_def drop_bit_eq_div)
  show ?thesis
    by (subst pokes_exact) (auto simp: mipi_command_header_bytes_def mipi_command_footer_bytes_def mipi_frame_def
        command_checksum_def checksum_loop_sum of_nat_mod_u16 u XMM626_MIPI_COMMAND_HEADER_MAGIC_def
        XMM626_MIPI_COMMAND_FOOTER_MAGIC_def)
qed

text \<open>What follows the write when an answer is awaited.\<close>

definition mipi_answer :: "u16 \<Rightarrow> unit io" where
  "mipi_answer code =
     bnd select_ready (\<lambda>_.
     bnd (read_whole 4) (\<lambda>len_bytes.
     bnd (check (get32 len_bytes \<noteq> 0)) (\<lambda>_.
     bnd (check (\<not> mipi_reply_length (get32 len_bytes) < 4)) (\<lambda>_.
     bnd (mipi_reply_loop (unat (mipi_reply_length (get32 len_bytes))) (le32 (mipi_reply_length (get32 len_bytes)))) (\<lambda>reply.
     bnd (lift_outcome (peek 0 10 reply)) (\<lambda>header.
     check (get16 (drop 6 header) = code)))))))"

lemma mipi_command_eq:
  assumes "0 \<le> fd" "data \<noteq> []"
  shows "xmm626_mipi_command_send fd code (Some data) ack short_footer =
    bnd (write_whole fd (mipi_frame code short_footer data)) (\<lambda>_. if \<not> ack then ret () else mipi_answer code)"
proof -
  have c: "(fd < 0 \<or> length data \<le> 0) = False" using assms by simp
  show ?thesis
    by (simp only: xmm626_mipi_command_send_def Let_def option.case c if_False command_frame bnd_lift mipi_answer_def)
qed

lemma mipi_command_refused:
  "fd < 0 \<or> data = [] \<Longrightarrow> xmm626_mipi_command_send fd code (Some data) ack short_footer = fail"
  by (auto simp: xmm626_mipi_command_send_def)

section \<open>The loops that read\<close>

lemma moves_reply_loop:
  assumes R: "reflp R" "transp R" and steps: "moves R select_ready" "moves R (sys_read 4)"
  shows "moves R (mipi_reply_loop len acc)"
  unfolding moves_def
proof
  fix w :: world
  show "R w (snd (mipi_reply_loop len acc w))"
  proof (induction len acc w rule: mipi_reply_loop.induct)
    case (1 len acc w)
    obtain r1 w1 where s: "select_ready w = (r1, w1)" by fastforce
    obtain r2 w2 where rd: "sys_read 4 w1 = (r2, w2)" by fastforce
    note m1 = movesD [OF steps(1) s] and m2 = transpD [OF R(2) movesD [OF steps(1) s] movesD [OF steps(2) rd]]
    show ?case
      using m1 m2 s rd transpD [OF R(2) m2] "1.IH" [OF _ s [symmetric] _ rd [symmetric]] reflpD [OF R(1), of w]
      by (subst mipi_reply_loop.simps) (auto split: outcome.splits option.splits)
  qed
qed

lemma adds_reply_loop [adds_intros]: "(\<And>bs. Q (EvRead bs)) \<Longrightarrow> adds Q (mipi_reply_loop len acc)"
  unfolding adds_moves by (rule moves_reply_loop [OF extends_order])
    (auto simp: adds_moves [symmetric] intro!: adds_intros)

lemma unchanged_reply_loop [unchanged_intros]: "device_blind f \<Longrightarrow> unchanged f (mipi_reply_loop len acc)"
  unfolding unchanged_moves by (rule moves_reply_loop [OF equal_part_order])
    (auto simp: unchanged_moves [symmetric] intro!: unchanged_intros)

text \<open>A block whose length is a multiple of four is filled and never overrun.\<close>

lemma reply_loop_safe:
  "mipi_reply_loop len acc w = (r, w') \<Longrightarrow> len mod 4 = 0 \<Longrightarrow> length acc mod 4 = 0 \<Longrightarrow> length acc \<le> len \<Longrightarrow>
   r \<noteq> Undef \<and> (\<forall>b. r = Done b \<longrightarrow> length b = len)"
proof (induction len acc w rule: mipi_reply_loop.induct)
  case (1 len acc w)
  obtain r1 w1 where s: "select_ready w = (r1, w1)" by fastforce
  obtain r2 w2 where rd: "sys_read 4 w1 = (r2, w2)" by fastforce
  have nu: "r1 \<noteq> Undef" "r2 \<noteq> Undef"
    using s rd by (auto simp: select_ready_def sys_select_def bnd_def check_eq sys_read_def Let_def split: option.splits if_splits)
  show ?case
  proof (cases "length acc < len")
    case False
    with "1.prems" show ?thesis by (auto simp: mipi_reply_loop.simps [of len acc])
  next
    case lt: True
    have room: "length acc + 4 \<le> len" using lt "1.prems"(2,3) by presburger
    have len4: "length bs \<le> 4" if "r2 = Done (Some bs)" for bs using sys_read_length rd that by blast
    show ?thesis
    proof (cases "\<exists>bs u. r1 = Done u \<and> r2 = Done (Some bs) \<and> \<not> length bs < 4")
      case True
      then obtain bs u where t: "r1 = Done u" "r2 = Done (Some bs)" "\<not> length bs < 4" by blast
      with len4 have bs: "length bs = 4" by fastforce
      have "mipi_reply_loop len (acc @ bs) w2 = (r, w')"
        using "1.prems"(1) lt t s rd room bs by (subst (asm) mipi_reply_loop.simps) simp
      then show ?thesis
        using "1.IH" [OF lt s [symmetric] t(1) rd [symmetric] t(2) refl] bs room "1.prems"(2,3) by simp
    next
      case False
      with "1.prems"(1) lt s rd room nu len4 show ?thesis
        by (subst (asm) mipi_reply_loop.simps) (fastforce split: outcome.splits option.splits if_splits)
    qed
  qed
qed

lemma completes_reply_loop:
  "length acc + 4 * length rs = len \<Longrightarrow> \<forall>r \<in> set rs. length r = 4 \<Longrightarrow>
   completes willing (mipi_reply_loop len acc) rs (\<lambda>b. b = acc @ concat rs)"
proof (induction rs arbitrary: acc)
  case Nil
  then show ?case by (intro completesI) (simp add: mipi_reply_loop.simps)
next
  case (Cons r rs)
  show ?case
  proof (rule completesI)
    fix w :: world and rest
    assume w: "willing w" "w_rd w = map Some (r # rs) @- rest"
    obtain u w1 where s: "select_ready w = (Done u, w1)" "willing w1" "w_rd w1 = w_rd w"
      using completesD [OF completes_select_ready w(1), of "w_rd w"] by auto
    obtain w2 where rd: "sys_read 4 w1 = (Done (Some r), w2)" "willing w2" "w_rd w2 = map Some rs @- rest"
      using completesD [OF completes_sys_read s(2), of r "map Some rs @- rest" 4] s(3) w(2) Cons.prems(2) by auto
    obtain b w' where "mipi_reply_loop len (acc @ r) w2 = (Done b, w')" "b = (acc @ r) @ concat rs" "willing w'" "w_rd w' = rest"
      using completesD [OF Cons.IH rd(2,3), of "acc @ r"] Cons.prems by auto
    moreover have "mipi_reply_loop len acc w = mipi_reply_loop len (acc @ r) w2"
      using Cons.prems s(1) rd(1) by (subst mipi_reply_loop.simps) simp
    ultimately show "\<exists>a w'. mipi_reply_loop len acc w = (Done a, w') \<and> a = acc @ concat (r # rs) \<and> willing w' \<and> w_rd w' = rest"
      by simp
  qed
qed

lemma moves_port_config_loop:
  assumes R: "reflp R" "transp R" and step: "\<And>n. moves R (bnd select_ready (\<lambda>_. read_whole n))"
  shows "moves R (port_config_loop len acc)"
  unfolding moves_def
proof
  fix w :: world
  show "R w (snd (port_config_loop len acc w))"
  proof (induction len acc w rule: port_config_loop.induct)
    case (1 len acc w)
    let ?n = "if 4 < len - length acc then 4 else len - length acc"
    obtain r1 w1 where s: "bnd select_ready (\<lambda>_. read_whole ?n) w = (r1, w1)" by fastforce
    note m1 = movesD [OF step s]
    show ?case
      using m1 s transpD [OF R(2) m1] "1.IH" [OF _ s [symmetric]] reflpD [OF R(1), of w]
      by (subst port_config_loop.simps) (auto split: outcome.splits)
  qed
qed

lemma adds_port_config_loop [adds_intros]: "(\<And>bs. Q (EvRead bs)) \<Longrightarrow> adds Q (port_config_loop len acc)"
  unfolding adds_moves by (rule moves_port_config_loop [OF extends_order])
    (auto simp: adds_moves [symmetric] intro!: adds_intros)

lemma unchanged_port_config_loop [unchanged_intros]: "device_blind f \<Longrightarrow> unchanged f (port_config_loop len acc)"
  unfolding unchanged_moves by (rule moves_port_config_loop [OF equal_part_order])
    (auto simp: unchanged_moves [symmetric] intro!: unchanged_intros)

text \<open>The pieces are the blocks of four bytes of the configuration, and only its length matters.\<close>

lemma port_config_loop_length: "port_config_loop len acc w = (Done b, w') \<Longrightarrow> length acc \<le> len \<Longrightarrow> length b = len"
proof (induction len acc w rule: port_config_loop.induct)
  case (1 len acc w)
  let ?n = "if 4 < len - length acc then 4 else len - length acc"
  show ?case
  proof (cases "length acc < len")
    case False
    with "1.prems" show ?thesis by (auto simp: port_config_loop.simps [of len acc])
  next
    case True
    obtain r1 w1 where s: "bnd select_ready (\<lambda>_. read_whole ?n) w = (r1, w1)" by fastforce
    with "1.prems" True obtain bs where bs: "r1 = Done bs" "port_config_loop len (acc @ bs) w1 = (Done b, w')"
      by (subst (asm) port_config_loop.simps) (cases r1; simp)
    with piece_length [of ?n w bs w1] s have "length bs = ?n" by simp
    with "1.IH" [OF True s [symmetric, unfolded bs(1)] refl bs(2)] True show ?thesis by (auto split: if_splits)
  qed
qed

lemma completes_port_config_loop:
  "blocks_of 4 rs config \<Longrightarrow> length acc + length config = len \<Longrightarrow>
   completes willing (port_config_loop len acc) rs (\<lambda>b. b = acc @ config)"
proof (induction rs arbitrary: acc config)
  case Nil
  then show ?case by (intro completesI) (simp add: port_config_loop.simps blocks_of_Nil)
next
  case (Cons r rs)
  note b = blocks_of_ConsD [OF Cons.prems(1)]
  let ?n = "if 4 < len - length acc then 4 else len - length acc"
  have n: "length r = ?n" using b Cons.prems(2) by auto
  have lt: "length acc < len" using b Cons.prems(2) by (cases config) auto
  have split: "config = r @ drop 4 config" using b append_take_drop_id [of 4 config] by simp
  show ?case
  proof (rule completesI)
    fix w :: world and rest
    assume w: "willing w" "w_rd w = map Some (r # rs) @- rest"
    have "completes willing (bnd select_ready (\<lambda>_. read_whole ?n)) [r] (\<lambda>x. x = r)"
      by (intro completes_then [OF completes_select_ready] completes_read_whole) (use n in simp)
    from completesD [OF this w(1), of "map Some rs @- rest"] w(2) obtain w1 where
      s: "bnd select_ready (\<lambda>_. read_whole ?n) w = (Done r, w1)" "willing w1" "w_rd w1 = map Some rs @- rest" by auto
    have len: "length (acc @ r) + length (drop 4 config) = len"
      using Cons.prems(2) split by (metis length_append add.assoc append.assoc)
    obtain x w' where "port_config_loop len (acc @ r) w1 = (Done x, w')" "x = (acc @ r) @ drop 4 config" "willing w'" "w_rd w' = rest"
      using completesD [OF Cons.IH [OF _ len] s(2,3)] b by blast
    moreover have "port_config_loop len acc w = port_config_loop len (acc @ r) w1"
      using lt s(1) by (subst port_config_loop.simps) simp
    ultimately show "\<exists>x w'. port_config_loop len acc w = (Done x, w') \<and> x = acc @ config \<and> willing w' \<and> w_rd w' = rest"
      using split by (metis append.assoc)
  qed
qed

section \<open>Commands\<close>

lemma adds_mipi_command [adds_intros]:
  "adds transfer (xmm626_mipi_command_send fd code data ack short_footer)"
  by (auto simp: xmm626_mipi_command_send_def Let_def intro!: adds_intros split: option.split)

lemma unchanged_mipi_command [unchanged_intros]:
  "device_blind f \<Longrightarrow> unchanged f (xmm626_mipi_command_send fd code data ack short_footer)"
  by (auto simp: xmm626_mipi_command_send_def Let_def intro!: unchanged_intros split: option.split)

lemma silent_mipi_answer [silent_intros]: "silent fd (mipi_answer code)"
  unfolding mipi_answer_def by (rule silent_adds) (auto intro!: adds_intros)

lemma silent_port_config_loop [silent_intros]: "silent fd (port_config_loop len acc)"
  by (rule silent_adds) (auto intro!: adds_intros)

lemma emits_mipi_command:
  "emits fd (xmm626_mipi_command_send fd code (Some data) ack short_footer) (\<lambda>out. out = mipi_frame code short_footer data)"
proof (cases "fd < 0 \<or> data = []")
  case True
  then show ?thesis unfolding mipi_command_refused [OF True] by (simp add: emits_fail)
next
  case False
  then have ok: "0 \<le> fd" "data \<noteq> []" by auto
  show ?thesis
    unfolding mipi_command_eq [OF ok] by (rule emits_last [OF emits_write_whole]) (intro silent_intros)
qed

text \<open>The answer to a command: its length, and words that repeat its code behind a magic number.\<close>

definition mipi_reply :: "u16 \<Rightarrow> u8 list list \<Rightarrow> bool" where
  "mipi_reply code rs \<longleftrightarrow> (\<exists>len words. rs = le32 (of_nat len) # words \<and> 8 \<le> len \<and> len < 2 ^ 31 \<and>
     len = 4 * length words \<and> (\<forall>v \<in> set words. length v = 4) \<and> get16 (drop 2 (concat words)) = code)"

lemma reply_length_word:
  assumes "len mod 4 = 0" "len < 2 ^ 31"
  shows "mipi_reply_length (of_nat len) = of_nat (len + 4)" "unat (of_nat (len + 4) :: u32) = len + 4"
proof -
  show u: "unat (of_nat (len + 4) :: u32) = len + 4"
    using assms by (simp only: unat_of_nat) simp
  have four: "unat (4 :: u32) = 4" by simp
  have "unat ((of_nat (len + 4) :: u32) mod 4) = 0"
    using assms(1) unfolding unat_mod_distrib u four by presburger
  then have "(of_nat (len + 4) :: u32) mod 4 = 0" by (simp only: unat_eq_0)
  then show "mipi_reply_length (of_nat len) = of_nat (len + 4)" by (simp add: mipi_reply_length_def Let_def)
qed

lemma length_words: "\<forall>v \<in> set words. length v = n \<Longrightarrow> length (concat words) = n * length words"
  by (induction words) auto

lemma completes_mipi_answer: "mipi_reply code rs \<Longrightarrow> completes willing (mipi_answer code) rs (\<lambda>_. True)"
proof -
  assume "mipi_reply code rs"
  then obtain len words where rs: "rs = [le32 (of_nat len)] @ words @ []" and len: "8 \<le> len" "len < 2 ^ 31" "len = 4 * length words"
    and words: "\<forall>v \<in> set words. length v = 4" and code: "get16 (drop 2 (concat words)) = code"
    unfolding mipi_reply_def by auto
  have m4: "len mod 4 = 0" using len(3) by simp
  note r = reply_length_word [OF m4 len(2)]
  have u: "unat (of_nat len :: u32) = len" using len(2) by (simp only: unat_of_nat) simp
  have nz: "(of_nat len :: u32) \<noteq> 0" using u len(1) by (metis not_numeral_le_zero unat_0)
  have small: "\<not> (of_nat (len + 4) :: u32) < 4"
    unfolding word_less_nat_alt r(2) by simp
  have lw: "length (concat words) = len"
    using length_words [OF words] len(3) by simp
  let ?reply = "le32 (of_nat (len + 4)) @ concat words"
  have hd: "take 10 ?reply = le32 (of_nat (len + 4)) @ take 6 (concat words)" by simp
  have c: "get16 (drop 6 (take 10 ?reply)) = code"
    using code lw len(1) by (simp add: get16_def)
  have loop: "completes willing (mipi_reply_loop (len + 4) (le32 (of_nat (len + 4)))) words (\<lambda>b. b = ?reply)"
    by (rule completes_reply_loop) (use len(3) words in auto)
  have tail: "completes willing (bnd (lift_outcome (peek 0 10 ?reply)) (\<lambda>header. check (get16 (drop 6 header) = code))) [] (\<lambda>_. True)"
    using c lw len(1) by (simp add: peek_def bnd_lift completes_check)
  have "completes willing (bnd (mipi_reply_loop (len + 4) (le32 (of_nat (len + 4)))) (\<lambda>reply.
      bnd (lift_outcome (peek 0 10 reply)) (\<lambda>header. check (get16 (drop 6 header) = code)))) (words @ []) (\<lambda>_. True)"
    by (rule completes_bnd [OF loop]) (use tail in simp)
  then have "completes willing (bnd (check (get32 x \<noteq> 0)) (\<lambda>_. bnd (check (\<not> mipi_reply_length (get32 x) < 4)) (\<lambda>_.
      bnd (mipi_reply_loop (unat (mipi_reply_length (get32 x))) (le32 (mipi_reply_length (get32 x)))) (\<lambda>reply.
      bnd (lift_outcome (peek 0 10 reply)) (\<lambda>header. check (get16 (drop 6 header) = code))))))
      (words @ []) (\<lambda>_. True)" if "x = le32 (of_nat len)" for x
    unfolding that get32_le32 r
    using completes_then [OF completes_check [OF nz] completes_then [OF completes_check [OF small]]] by simp
  then show ?thesis
    unfolding mipi_answer_def rs
    by (intro completes_then [OF completes_select_ready] completes_bnd [OF completes_read_whole]) simp_all
qed


lemma completes_mipi_command:
  assumes "0 \<le> fd" "data \<noteq> []" "length data \<le> 0x4000"
  shows "completes willing (xmm626_mipi_command_send fd code (Some data) False short_footer) [] (\<lambda>_. True)"
    and "mipi_reply code rs \<Longrightarrow> completes willing (xmm626_mipi_command_send fd code (Some data) True short_footer) rs (\<lambda>_. True)"
proof -
  have out: "completes willing (write_whole fd (mipi_frame code short_footer data)) [] (\<lambda>_. True)"
    by (rule completes_write_whole) (use assms in \<open>simp add: mipi_frame_length\<close>)
  show "completes willing (xmm626_mipi_command_send fd code (Some data) False short_footer) [] (\<lambda>_. True)"
    unfolding mipi_command_eq [OF assms(1,2)] by (rule completes_then [OF out]) (simp add: completes_ret)
  assume "mipi_reply code rs"
  then show "completes willing (xmm626_mipi_command_send fd code (Some data) True short_footer) rs (\<lambda>_. True)"
    unfolding mipi_command_eq [OF assms(1,2)]
    by (intro completes_then [OF out]) (simp add: completes_mipi_answer)
qed

section \<open>The stages\<close>

lemma mipi_data_loop_step:
  "mipi_data_loop fd p = (if p \<noteq> [] then
     bnd (xmm626_mipi_command_send fd 0x804 (Some (take 0xDF2 p)) True True) (\<lambda>_. mipi_data_loop fd (drop 0xDF2 p))
   else ret ())"
  by (subst mipi_data_loop.simps) (simp add: XMM626_MIPI_MODEM_DATA_CHUNK_def XMM626_COMMAND_FLASH_WRITE_BLOCK_def)

text \<open>Unlike over HSIC, every block of the image is answered.\<close>

interpretation mipi_data: block_sender "\<lambda>fd c. xmm626_mipi_command_send fd 0x804 (Some c) True True"
  "mipi_frame 0x804 True" "mipi_reply 0x804" "0xDF2" mipi_data_loop
proof
  show "0 \<le> fd \<Longrightarrow> 0 < length c \<Longrightarrow> length c \<le> 0xDF2 \<Longrightarrow> mipi_reply 0x804 rs \<Longrightarrow>
      completes willing (xmm626_mipi_command_send fd 0x804 (Some c) True True) rs (\<lambda>_. True)" for fd c rs
    by (rule completes_mipi_command(2)) auto
qed (rule mipi_data_loop_step, simp, rule emits_mipi_command, rule adds_mipi_command)

lemma silent_mipi_ack [silent_intros]: "silent fd (xmm626_mipi_ack_read fd' ack)"
  unfolding xmm626_mipi_ack_read_def by (rule silent_intros)

lemma completes_mipi_ack: "length bs = 4 \<Longrightarrow> get16 bs = ack \<Longrightarrow> completes willing (xmm626_mipi_ack_read fd ack) [bs] (\<lambda>_. True)"
  using completes_ack_loop [of bs 4 ack 49] by (simp add: xmm626_mipi_ack_read_def)

text \<open>The PSI header has its length in the other byte order than the HSIC one.\<close>

definition mipi_psi_stage :: "u8 list \<Rightarrow> nat \<Rightarrow> u8 list" where
  "mipi_psi_stage psi k = concat (replicate k XMM626_AT) @ [0xff] @ rev (le16 (of_nat (length psi))) @ [0x30] @ psi @
     [0xff, 0xff, 0xff, foldl (XOR) 0 psi]"

lemma psi_size_swapped:
  "le16 ((drop_bit 8 n AND 0xff) OR push_bit 8 (n AND 0xff)) = rev (le16 n)"
proof -
  have m: "(0xff :: u16) = mask 8" by (simp add: mask_eq_exp_minus_1)
  show ?thesis
    unfolding m le16_def by (auto intro!: bit_word_eqI simp: bit_simps)
qed

lemma mipi_psi_header: "mipi_psi_header_bytes n = [0xff] @ rev (le16 n) @ [0x30]"
  unfolding mipi_psi_header_bytes_def psi_size_swapped XMM626_PSI_PADDING_def XMM626_PSI_MAGIC_def ..

lemma mipi_crc_bytes: "le32 (xmm626_mipi_crc_calculate (Some psi)) = [0xff, 0xff, 0xff, foldl (XOR) 0 psi]"
proof -
  have m: "(0xffffff :: u32) = mask 24" "(0xff :: u8) = mask 8" by (simp_all add: mask_eq_exp_minus_1)
  show ?thesis
    unfolding m xmm626_mipi_crc_calculate_def xmm626_crc_calculate_def le32_def
    by (auto intro!: bit_word_eqI simp: bit_simps)
qed

lemma emits_mipi_psi_send:
  "emits fd (xmm626_mipi_psi_send client fd (Some mem) psi_size)
     (\<lambda>out. \<exists>k psi. 1 \<le> k \<and> k \<le> 51 \<and> psi = take (unat psi_size) mem \<and> length psi = unat psi_size \<and>
        out = mipi_psi_stage psi k)"
proof -
  let ?psi = "take (unat psi_size) mem"
  have image: "emits fd (bnd (write_whole fd (mipi_psi_header_bytes psi_size)) (\<lambda>_.
      bnd (lift_outcome (peek 0 (unat psi_size) mem)) (\<lambda>psi.
      bnd (write_loop (sys_write fd) None psi) (\<lambda>_.
      bnd (write_whole fd (le32 (xmm626_mipi_crc_calculate (Some psi)))) (\<lambda>_.
      xmm626_mipi_ack_read fd XMM626_MIPI_PSI_ACK)))))
     (\<lambda>out. length ?psi = unat psi_size \<and> out = [0xff] @ rev (le16 psi_size) @ [0x30] @ ?psi @ [0xff, 0xff, 0xff, foldl (XOR) 0 ?psi])"
  proof (cases "unat psi_size \<le> length mem")
    case False
    then show ?thesis by (auto simp: emits_def bnd_eq_Done peek_def lift_outcome_eq)
  next
    case True
    have data: "emits fd (bnd (write_loop (sys_write fd) None ?psi) (\<lambda>_.
      bnd (write_whole fd (le32 (xmm626_mipi_crc_calculate (Some ?psi)))) (\<lambda>_.
      xmm626_mipi_ack_read fd XMM626_MIPI_PSI_ACK))) (\<lambda>out. out = ?psi @ le32 (xmm626_mipi_crc_calculate (Some ?psi)))"
      by (rule emits_bnd [OF emits_write_loop emits_last [OF emits_write_whole silent_mipi_ack]]) simp
    from True have p: "peek 0 (unat psi_size) mem = Done ?psi" by (simp add: peek_def)
    show ?thesis
      unfolding p bnd_lift
      by (rule emits_bnd [OF emits_write_whole data])
        (use True in \<open>simp add: mipi_psi_header mipi_crc_bytes\<close>)
  qed
  have "emits fd (bnd (at_loop 51 fd) (\<lambda>_. bnd (xmm626_mipi_ack_read fd XMM626_MIPI_BOOT0_ACK) (\<lambda>_.
      bnd (write_whole fd (mipi_psi_header_bytes psi_size)) (\<lambda>_.
      bnd (lift_outcome (peek 0 (unat psi_size) mem)) (\<lambda>psi.
      bnd (write_loop (sys_write fd) None psi) (\<lambda>_.
      bnd (write_whole fd (le32 (xmm626_mipi_crc_calculate (Some psi)))) (\<lambda>_.
      xmm626_mipi_ack_read fd XMM626_MIPI_PSI_ACK)))))))
     (\<lambda>out. \<exists>k psi. 1 \<le> k \<and> k \<le> 51 \<and> psi = ?psi \<and> length psi = unat psi_size \<and> out = mipi_psi_stage psi k)"
    by (rule emits_bnd [OF emits_at_loop emits_skip [OF silent_mipi_ack image]])
      (fastforce simp: mipi_psi_stage_def)
  then show ?thesis by (auto simp: xmm626_mipi_psi_send_def emits_fail split: option.splits)
qed

lemma completes_mipi_psi_send:
  assumes "0 \<le> fd" "psi_size \<noteq> 0" "unat psi_size \<le> length mem"
    and "length a0 = 4" "get16 a0 = 0xFFFF" "length a1 = 4" "get16 a1 = 0xDD01"
  shows "completes willing (xmm626_mipi_psi_send (Some c) fd (Some mem) psi_size) [a0, a1] (\<lambda>_. True)"
proof -
  have p: "peek 0 (unat psi_size) mem = Done (take (unat psi_size) mem)" using assms(3) by (simp add: peek_def)
  have "completes willing (bnd (write_whole fd (mipi_psi_header_bytes psi_size)) (\<lambda>_.
      bnd (write_loop (sys_write fd) None (take (unat psi_size) mem)) (\<lambda>_.
      bnd (write_whole fd (le32 (xmm626_mipi_crc_calculate (Some (take (unat psi_size) mem))))) (\<lambda>_.
      xmm626_mipi_ack_read fd XMM626_MIPI_PSI_ACK)))) [a1] (\<lambda>_. True)"
    by (intro completes_then [OF completes_write_whole] completes_then [OF completes_write_loop] completes_mipi_ack)
      (use assms in \<open>simp_all add: mipi_psi_header_bytes_def XMM626_MIPI_PSI_ACK_def\<close>)
  from completes_bnd [OF completes_mipi_ack [OF assms(4), of XMM626_MIPI_BOOT0_ACK fd] this]
  have "completes willing (bnd (at_loop (Suc 50) fd) (\<lambda>_. bnd (xmm626_mipi_ack_read fd XMM626_MIPI_BOOT0_ACK) (\<lambda>_.
      bnd (write_whole fd (mipi_psi_header_bytes psi_size)) (\<lambda>_.
      bnd (write_loop (sys_write fd) None (take (unat psi_size) mem)) (\<lambda>_.
      bnd (write_whole fd (le32 (xmm626_mipi_crc_calculate (Some (take (unat psi_size) mem))))) (\<lambda>_.
      xmm626_mipi_ack_read fd XMM626_MIPI_PSI_ACK)))))) [a0, a1] (\<lambda>_. True)"
    by (intro completes_then [OF completes_at_loop]) (use assms in \<open>simp add: XMM626_MIPI_BOOT0_ACK_def\<close>)
  with assms(1,2) show ?thesis by (simp add: xmm626_mipi_psi_send_def p bnd_lift)
qed


definition mipi_ebl_stage :: "u8 list \<Rightarrow> u8 list" where
  "mipi_ebl_stage ebl =
     le32 8 @ [0, 0, 0, 0, 2, 0, 2, 0] @ le32 4 @ le32 (of_nat (length ebl)) @ le32 (of_nat (length ebl) + 1) @
     ebl @ [foldl (XOR) 0 ebl]"

lemma boot_magic: "boot_magic_bytes = [0, 0, 0, 0, 2, 0, 2, 0]"
  by (simp add: boot_magic_bytes_def XMM626_MIPI_BOOT1_MAGIC_def le16_def drop_bit_eq_div)

lemma emits_mipi_ebl_send: "emits fd (xmm626_mipi_ebl_send client fd (Some ebl)) (\<lambda>out. out = mipi_ebl_stage ebl)"
proof -
  let ?size = "of_nat (length ebl) :: u32"
  have image: "emits fd (bnd (write_whole fd (le32 (?size + 1))) (\<lambda>_.
      bnd (write_loop (sys_write fd) (Some XMM626_MIPI_EBL_CHUNK) ebl) (\<lambda>_.
      bnd (write_whole fd [xmm626_crc_calculate (Some ebl)]) (\<lambda>_.
      xmm626_mipi_ack_read fd XMM626_MIPI_EBL_ACK)))) (\<lambda>out. out = le32 (?size + 1) @ ebl @ [xmm626_crc_calculate (Some ebl)])"
    by (rule emits_bnd [OF emits_write_whole emits_bnd [OF emits_write_loop
          emits_last [OF emits_write_whole silent_mipi_ack]]]) simp_all
  have announce: "emits fd (bnd (write_whole fd (le32 4)) (\<lambda>_. bnd (write_whole fd (le32 ?size)) (\<lambda>_.
      bnd (xmm626_mipi_ack_read fd XMM626_MIPI_EBL_SIZE_ACK) (\<lambda>_.
      bnd (write_whole fd (le32 (?size + 1))) (\<lambda>_.
      bnd (write_loop (sys_write fd) (Some XMM626_MIPI_EBL_CHUNK) ebl) (\<lambda>_.
      bnd (write_whole fd [xmm626_crc_calculate (Some ebl)]) (\<lambda>_.
      xmm626_mipi_ack_read fd XMM626_MIPI_EBL_ACK)))))))
      (\<lambda>out. out = le32 4 @ le32 ?size @ le32 (?size + 1) @ ebl @ [xmm626_crc_calculate (Some ebl)])"
    by (rule emits_bnd [OF emits_write_whole emits_bnd [OF emits_write_whole emits_skip [OF silent_mipi_ack image]]]) simp_all
  have "emits fd (bnd (write_whole fd (le32 8)) (\<lambda>_. bnd (write_whole fd boot_magic_bytes) (\<lambda>_.
      bnd (xmm626_mipi_ack_read fd XMM626_MIPI_BOOT1_ACK) (\<lambda>_.
      bnd (write_whole fd (le32 4)) (\<lambda>_. bnd (write_whole fd (le32 ?size)) (\<lambda>_.
      bnd (xmm626_mipi_ack_read fd XMM626_MIPI_EBL_SIZE_ACK) (\<lambda>_.
      bnd (write_whole fd (le32 (?size + 1))) (\<lambda>_.
      bnd (write_loop (sys_write fd) (Some XMM626_MIPI_EBL_CHUNK) ebl) (\<lambda>_.
      bnd (write_whole fd [xmm626_crc_calculate (Some ebl)]) (\<lambda>_.
      xmm626_mipi_ack_read fd XMM626_MIPI_EBL_ACK)))))))))) (\<lambda>out. out = mipi_ebl_stage ebl)"
    by (rule emits_bnd [OF emits_write_whole emits_bnd [OF emits_write_whole emits_skip [OF silent_mipi_ack announce]]])
      (simp_all add: mipi_ebl_stage_def boot_magic xmm626_crc_calculate_def)
  then show ?thesis by (simp add: xmm626_mipi_ebl_send_def Let_def emits_fail split: option.split)
qed

lemma completes_mipi_ebl_send:
  assumes "0 \<le> fd" "ebl \<noteq> []" "length a0 = 4" "get16 a0 = 0xAA00" "length a1 = 4" "get16 a1 = 0xCCCC"
    "length a2 = 4" "get16 a2 = 0xA551"
  shows "completes willing (xmm626_mipi_ebl_send (Some c) fd (Some ebl)) [a0, a1, a2] (\<lambda>_. True)"
proof -
  let ?size = "of_nat (length ebl) :: u32"
  have image: "completes willing (bnd (write_whole fd (le32 (?size + 1))) (\<lambda>_.
      bnd (write_loop (sys_write fd) (Some XMM626_MIPI_EBL_CHUNK) ebl) (\<lambda>_.
      bnd (write_whole fd [xmm626_crc_calculate (Some ebl)]) (\<lambda>_.
      xmm626_mipi_ack_read fd XMM626_MIPI_EBL_ACK)))) [a2] (\<lambda>_. True)"
    by (intro completes_then [OF completes_write_whole] completes_then [OF completes_write_loop] completes_mipi_ack)
      (use assms in \<open>simp_all add: XMM626_MIPI_EBL_CHUNK_def XMM626_MIPI_EBL_ACK_def\<close>)
  have announce: "completes willing (bnd (write_whole fd (le32 4)) (\<lambda>_. bnd (write_whole fd (le32 ?size)) (\<lambda>_.
      bnd (xmm626_mipi_ack_read fd XMM626_MIPI_EBL_SIZE_ACK) (\<lambda>_.
      bnd (write_whole fd (le32 (?size + 1))) (\<lambda>_.
      bnd (write_loop (sys_write fd) (Some XMM626_MIPI_EBL_CHUNK) ebl) (\<lambda>_.
      bnd (write_whole fd [xmm626_crc_calculate (Some ebl)]) (\<lambda>_.
      xmm626_mipi_ack_read fd XMM626_MIPI_EBL_ACK))))))) ([a1] @ [a2]) (\<lambda>_. True)"
    by (intro completes_then [OF completes_write_whole] completes_bnd [OF completes_mipi_ack image])
      (use assms in \<open>simp_all add: XMM626_MIPI_EBL_SIZE_ACK_def\<close>)
  have "completes willing (bnd (write_whole fd (le32 8)) (\<lambda>_. bnd (write_whole fd boot_magic_bytes) (\<lambda>_.
      bnd (xmm626_mipi_ack_read fd XMM626_MIPI_BOOT1_ACK) (\<lambda>_.
      bnd (write_whole fd (le32 4)) (\<lambda>_. bnd (write_whole fd (le32 ?size)) (\<lambda>_.
      bnd (xmm626_mipi_ack_read fd XMM626_MIPI_EBL_SIZE_ACK) (\<lambda>_.
      bnd (write_whole fd (le32 (?size + 1))) (\<lambda>_.
      bnd (write_loop (sys_write fd) (Some XMM626_MIPI_EBL_CHUNK) ebl) (\<lambda>_.
      bnd (write_whole fd [xmm626_crc_calculate (Some ebl)]) (\<lambda>_.
      xmm626_mipi_ack_read fd XMM626_MIPI_EBL_ACK)))))))))) ([a0] @ [a1] @ [a2]) (\<lambda>_. True)"
    by (intro completes_then [OF completes_write_whole] completes_bnd [OF completes_mipi_ack announce])
      (use assms in \<open>simp_all add: boot_magic XMM626_MIPI_BOOT1_ACK_def\<close>)
  with assms(1,2) show ?thesis by (simp add: xmm626_mipi_ebl_send_def Let_def)
qed

definition mipi_data_stage :: "u32 \<Rightarrow> u8 list list \<Rightarrow> u8 list" where
  "mipi_data_stage address cs = mipi_frame 0x802 False (le32 address) @ concat (map (mipi_frame 0x804 True) cs)"

lemma emits_mipi_modem_data_send:
  "emits fd (xmm626_mipi_modem_data_send fd (Some bs) address)
     (\<lambda>out. \<exists>cs. blocks_of 0xDF2 cs bs \<and> out = mipi_data_stage address cs)"
proof -
  have "emits fd (bnd (xmm626_mipi_command_send fd XMM626_COMMAND_FLASH_SET_ADDRESS (Some (le32 address)) True False)
      (\<lambda>_. mipi_data_loop fd bs)) (\<lambda>out. \<exists>cs. blocks_of 0xDF2 cs bs \<and> out = mipi_data_stage address cs)"
    by (rule emits_bnd [OF emits_mipi_command mipi_data.image_sent])
      (auto simp: mipi_data_stage_def XMM626_COMMAND_FLASH_SET_ADDRESS_def)
  then show ?thesis by (simp add: xmm626_mipi_modem_data_send_def emits_fail)
qed

lemma completes_mipi_modem_data_send:
  assumes "0 \<le> fd" "bs \<noteq> []" "mipi_reply 0x802 rs" "blocks_of 0xDF2 cs bs" "length rss = length cs"
    "\<forall>rs \<in> set rss. mipi_reply 0x804 rs"
  shows "completes willing (xmm626_mipi_modem_data_send fd (Some bs) address) (rs @ concat rss) (\<lambda>_. True)"
proof -
  have "completes willing (bnd (xmm626_mipi_command_send fd XMM626_COMMAND_FLASH_SET_ADDRESS (Some (le32 address)) True False)
      (\<lambda>_. mipi_data_loop fd bs)) (rs @ concat rss) (\<lambda>_. True)"
    by (rule completes_bnd [OF completes_mipi_command(2) mipi_data.image_accepted [OF assms(4-6,1)]])
      (use assms(1,3) in \<open>simp_all add: le32_def XMM626_COMMAND_FLASH_SET_ADDRESS_def\<close>)
  with assms(1,2) show ?thesis by (simp add: xmm626_mipi_modem_data_send_def)
qed

lemma emits_mipi_commands:
  "emits fd (xmm626_mipi_sec_start_send client fd (Some bs)) (\<lambda>out. out = mipi_frame 0x204 False bs)"
  "emits fd (xmm626_mipi_sec_end_send client fd) (\<lambda>out. out = mipi_frame 0x205 True [0, 0])"
  "emits fd (xmm626_mipi_hw_reset_send client fd) (\<lambda>out. out = mipi_frame 0x208 True [0x01, 0x10, 0x11, 0])"
proof -
  have m: "le16 XMM626_SEC_END_MAGIC = [0, 0]" "le32 XMM626_HW_RESET_MAGIC = [0x01, 0x10, 0x11, 0]"
    by (simp_all add: XMM626_SEC_END_MAGIC_def XMM626_HW_RESET_MAGIC_def le16_def le32_def drop_bit_eq_div)
  show "emits fd (xmm626_mipi_sec_start_send client fd (Some bs)) (\<lambda>out. out = mipi_frame 0x204 False bs)"
    using emits_mipi_command by (auto simp: xmm626_mipi_sec_start_send_def emits_fail XMM626_COMMAND_SEC_START_def split: option.split)
  show "emits fd (xmm626_mipi_sec_end_send client fd) (\<lambda>out. out = mipi_frame 0x205 True [0, 0])"
    using emits_mipi_command by (auto simp: xmm626_mipi_sec_end_send_def emits_fail XMM626_COMMAND_SEC_END_def m)
  show "emits fd (xmm626_mipi_hw_reset_send client fd) (\<lambda>out. out = mipi_frame 0x208 True [0x01, 0x10, 0x11, 0])"
    using emits_mipi_command by (auto simp: xmm626_mipi_hw_reset_send_def emits_fail XMM626_COMMAND_HW_RESET_def m)
qed

text \<open>The port configuration goes back as it came, whatever its length.\<close>

lemma emits_mipi_port_config:
  "emits fd (xmm626_mipi_port_config_send client fd) (\<lambda>out. \<exists>config. out = mipi_frame 0x86 False config)"
proof -
  have "emits fd (bnd (port_config_loop n []) (\<lambda>buffer.
      xmm626_mipi_command_send fd XMM626_COMMAND_SET_PORT_CONFIG (Some buffer) True False))
      (\<lambda>out. \<exists>config. out = mipi_frame 0x86 False config)" for n
    by (rule emits_skip [OF silent_port_config_loop], rule emits_mono [OF emits_mipi_command])
      (auto simp: XMM626_COMMAND_SET_PORT_CONFIG_def)
  then show ?thesis
    by (auto simp: xmm626_mipi_port_config_send_def emits_fail intro!: emits_skip [OF silent_steps(1)]
        emits_skip [OF silent_steps(2)] emits_skip [OF silent_simple(1)])
qed

lemma completes_mipi_port_config:
  assumes "0 \<le> fd" "config \<noteq> []" "length config \<le> 0x4000" "blocks_of 4 pieces config" "mipi_reply 0x86 rs"
  shows "completes willing (xmm626_mipi_port_config_send (Some c) fd) ([le32 (of_nat (length config))] @ pieces @ rs) (\<lambda>_. True)"
proof -
  have u: "unat (of_nat (length config) :: u32) = length config" using assms(3) by (simp only: unat_of_nat) simp
  with assms(2) have nz: "(of_nat (length config) :: u32) \<noteq> 0" by (metis length_0_conv unat_0)
  have "completes willing (bnd (port_config_loop (length config) []) (\<lambda>buffer.
      xmm626_mipi_command_send fd 0x86 (Some buffer) True False)) (pieces @ rs) (\<lambda>_. True)"
    by (rule completes_bnd [OF completes_port_config_loop [OF assms(4)]])
      (use assms in \<open>simp_all add: completes_mipi_command(2)\<close>)
  then have "completes willing (bnd (check (get32 x \<noteq> 0)) (\<lambda>_. bnd (port_config_loop (unat (get32 x)) []) (\<lambda>buffer.
      xmm626_mipi_command_send fd 0x86 (Some buffer) True False))) (pieces @ rs) (\<lambda>_. True)"
    if "x = le32 (of_nat (length config))" for x
    unfolding that get32_le32 u by (rule completes_then [OF completes_check [OF nz]])
  then have "completes willing (bnd select_ready (\<lambda>_. bnd (read_whole 4) (\<lambda>x. bnd (check (get32 x \<noteq> 0)) (\<lambda>_.
      bnd (port_config_loop (unat (get32 x)) []) (\<lambda>buffer.
      xmm626_mipi_command_send fd 0x86 (Some buffer) True False)))))
      ([le32 (of_nat (length config))] @ pieces @ rs) (\<lambda>_. True)"
    by (intro completes_then [OF completes_select_ready] completes_bnd [OF completes_read_whole]) simp_all
  with assms(1) show ?thesis
    by (simp add: xmm626_mipi_port_config_send_def XMM626_COMMAND_SET_PORT_CONFIG_def)
qed

lemmas adds_mipi_data_loop [adds_intros] = mipi_data.image_events

lemma adds_mipi_stages [adds_intros]:
  "adds transfer (xmm626_mipi_psi_send client fd mem psi_size)"
  "adds transfer (xmm626_mipi_ebl_send client fd ebl)"
  "adds transfer (xmm626_mipi_port_config_send client fd)"
  "adds transfer (xmm626_mipi_sec_start_send client fd sec)"
  "adds transfer (xmm626_mipi_sec_end_send client fd)"
  "adds transfer (xmm626_mipi_firmware_send client fd firmware)"
  "adds transfer (xmm626_mipi_nv_data_send md5 client fd)"
  "adds transfer (xmm626_mipi_mps_data_send client fd mps)"
  "adds transfer (xmm626_mipi_hw_reset_send client fd)"
  by (auto simp: xmm626_mipi_psi_send_def xmm626_mipi_ebl_send_def xmm626_mipi_ack_read_def Let_def
      xmm626_mipi_port_config_send_def xmm626_mipi_sec_start_send_def xmm626_mipi_sec_end_send_def
      xmm626_mipi_firmware_send_def xmm626_mipi_nv_data_send_def xmm626_mipi_mps_data_send_def
      xmm626_mipi_hw_reset_send_def xmm626_mipi_modem_data_send_def intro!: adds_intros split: option.split)

lemma unchanged_mipi_data_loop [unchanged_intros]: "device_blind f \<Longrightarrow> unchanged f (mipi_data_loop fd p)"
  by (rule mipi_data.image_unchanged) (rule unchanged_mipi_command)

lemma unchanged_mipi_stages [unchanged_intros]:
  assumes "device_blind f"
  shows "unchanged f (xmm626_mipi_psi_send client fd mem psi_size)"
    "unchanged f (xmm626_mipi_ebl_send client fd ebl)"
    "unchanged f (xmm626_mipi_port_config_send client fd)"
    "unchanged f (xmm626_mipi_sec_start_send client fd sec)"
    "unchanged f (xmm626_mipi_sec_end_send client fd)"
    "unchanged f (xmm626_mipi_firmware_send client fd firmware)"
    "unchanged f (xmm626_mipi_modem_data_send fd data address)"
    "unchanged f (xmm626_mipi_mps_data_send client fd mps)"
    "unchanged f (xmm626_mipi_hw_reset_send client fd)"
  by (auto simp: xmm626_mipi_psi_send_def xmm626_mipi_ebl_send_def xmm626_mipi_ack_read_def Let_def
      xmm626_mipi_port_config_send_def xmm626_mipi_sec_start_send_def xmm626_mipi_sec_end_send_def
      xmm626_mipi_firmware_send_def xmm626_mipi_mps_data_send_def xmm626_mipi_hw_reset_send_def
      xmm626_mipi_modem_data_send_def intro!: unchanged_intros assms split: option.split)

lemma mipi_nv_data_send_Done:
  assumes "nv_configured c p m bp bm secret sz ck"
    and "xmm626_mipi_nv_data_send md5 (Some c) fd w = (Done u, w')"
  shows "\<exists>nv cs. blocks_of 0xDF2 cs nv \<and> sent fd w' = sent fd w @ mipi_data_stage XMM626_NV_DATA_ADDRESS cs \<and>
    w_files w' p = Some nv \<and> nv_valid md5 secret sz (w_files w') p m"
proof -
  obtain nv w1 where ld: "ipc_nv_data_load md5 (Some c) w = (Done nv, w1)" and
      snd: "xmm626_mipi_modem_data_send fd (Some nv) XMM626_NV_DATA_ADDRESS w1 = (Done u, w')"
    using assms(2) by (auto simp: xmm626_mipi_nv_data_send_def fail_eq bnd_eq_Done split: if_splits)
  have v: "w_files w1 p = Some nv \<and> nv_valid md5 secret sz (w_files w1) p m"
    by (rule nv_device.load_Done [OF nv_deviceI [OF assms(1)] ld])
  have "sent fd w1 = sent fd w"
    using unchangedD [OF stable_nv(5) [OF trace_stable, THEN unchanged_stable] ld] by (simp add: sent_def)
  moreover have "w_files w' = w_files w1"
    by (rule unchangedD [OF unchanged_mipi_stages(7) snd]) (simp add: device_blind_def)
  ultimately show ?thesis using emitsD [OF emits_mipi_modem_data_send snd] v by metis
qed


section \<open>The room for the answer\<close>

text \<open>
  The block for the answer is read in whole words and its first ten bytes are copied: both need
  an announced length that is even and at least six.
\<close>

definition bad_length :: "u32 \<Rightarrow> bool" where
  "bad_length len \<longleftrightarrow> odd (unat len) \<or> unat len \<in> {2, 4, 0xFFFFFFFE}"

lemma rounded_length:
  fixes n :: nat
  assumes "even n" "n \<noteq> 2" "n \<noteq> 4" "n \<noteq> 0xFFFFFFFE" "n \<noteq> 0" "n < 2 ^ 32"
  defines "r \<equiv> (let l = (n + 4) mod 2 ^ 32 in if l mod 4 \<noteq> 0 then (l + l mod 4) mod 2 ^ 32 else l)"
  shows "r < 4 \<or> (r mod 4 = 0 \<and> 10 \<le> r)"
proof -
  have n6: "6 \<le> n" using assms(1,2,3,5) by presburger
  obtain k where k: "n = 2 * k" using assms(1) by blast
  have "n + 4 = 4294967296 \<or> n + 6 = 4294967296 \<or> n + 6 < 4294967296"
    using assms(4,6) unfolding k by (simp, linarith)
  then consider "n + 4 = 2 ^ 32" | "n + 6 = 2 ^ 32" | "n + 6 < 2 ^ 32" by fastforce
  then show ?thesis
  proof cases
    case 1
    then show ?thesis by (simp add: r_def)
  next
    case 2
    then have "n = 4294967290" by simp
    then show ?thesis by (simp add: r_def)
  next
    case 3
    have m: "(n + 4) mod 4 = n mod 4" by simp
    have v: "n mod 4 = 0 \<or> n mod 4 = 2" using assms(1) by presburger
    have "(n + 4) mod 2 ^ 32 = n + 4" using 3 by simp
    then have "r = (if n mod 4 \<noteq> 0 then (n + 4 + n mod 4) mod 2 ^ 32 else n + 4)" by (simp add: r_def)
    also have "\<dots> = n + 4 + n mod 4" using 3 v by auto
    finally have r: "r = n + 4 + n mod 4" .
    have "(n + n mod 4) mod 4 = 0" using v by presburger
    with n6 v show ?thesis unfolding r by presburger
  qed
qed

lemma reply_length_good:
  assumes "\<not> bad_length len" "len \<noteq> 0" "\<not> mipi_reply_length len < 4"
  shows "unat (mipi_reply_length len) mod 4 = 0" "10 \<le> unat (mipi_reply_length len)"
proof -
  have u: "unat ((x :: u32) + y) = (unat x + unat y) mod 2 ^ 32" for x y by (simp add: unat_word_ariths)
  have four: "unat (4 :: u32) = 4" by simp
  have nz: "unat len \<noteq> 0" using assms(2) by (simp add: unat_eq_zero)
  have m: "unat (x mod (4 :: u32)) = unat x mod 4" for x by (simp add: unat_mod_distrib)
  have z: "(x mod (4 :: u32) = 0) \<longleftrightarrow> unat x mod 4 = 0" for x by (metis m unat_eq_zero)
  have len: "unat len < 2 ^ 32" using unsigned_less [of len] by simp
  have r: "unat (mipi_reply_length len) =
      (let l = (unat len + 4) mod 2 ^ 32 in if l mod 4 \<noteq> 0 then (l + l mod 4) mod 2 ^ 32 else l)"
    by (simp only: mipi_reply_length_def Let_def z if_distrib [of unat] u m four)
  have b: "even (unat len)" "unat len \<noteq> 2" "unat len \<noteq> 4" "unat len \<noteq> 0xFFFFFFFE"
    using assms(1) by (auto simp: bad_length_def)
  have l: "\<not> unat (mipi_reply_length len) < 4" using assms(3) by (simp add: word_less_nat_alt)
  show "unat (mipi_reply_length len) mod 4 = 0" "10 \<le> unat (mipi_reply_length len)"
    using rounded_length [OF b nz len] l unfolding r by auto
qed

lemma mipi_answer_Undef:
  assumes "mipi_answer code w = (Undef, w')"
  shows "\<exists>lb es. length lb = 4 \<and> w_trace w' = w_trace w @ EvRead lb # es \<and> bad_length (get32 lb)"
proof -
  have nu: "select_ready v \<noteq> (Undef, v')" "read_whole n v \<noteq> (Undef, v')" "check b v \<noteq> (Undef, v')" for v v' n b
    by (auto simp: select_ready_def sys_select_def read_whole_def sys_read_def bnd_def check_eq fail_eq ret_eq Let_def
        split: option.splits outcome.splits prod.splits)
  obtain w1 where s: "select_ready w = (Done (), w1)"
    using assms nu(1) by (cases "select_ready w" rule: prod.exhaust, rename_tac r v, case_tac r) (auto simp: mipi_answer_def bnd_def)
  obtain lb w2 where rd: "read_whole 4 w1 = (Done lb, w2)"
    using assms nu(2) s by (cases "read_whole 4 w1" rule: prod.exhaust, rename_tac r v, case_tac r) (auto simp: mipi_answer_def bnd_def)
  have len: "length lb = 4" and t2: "w_trace w2 = w_trace w1 @ [EvRead lb]"
    using rd by (auto simp: read_whole_def sys_read_def bnd_def fail_eq ret_eq Let_def split: option.splits if_splits)
  have t1: "w_trace w1 = w_trace w" using s by (auto simp: select_ready_def sys_select_def bnd_def check_eq split: if_splits)
  let ?L = "mipi_reply_length (get32 lb)"
  let ?rest = "bnd (check (get32 lb \<noteq> 0)) (\<lambda>_. bnd (check (\<not> ?L < 4)) (\<lambda>_.
     bnd (mipi_reply_loop (unat ?L) (le32 ?L)) (\<lambda>reply. bnd (lift_outcome (peek 0 10 reply)) (\<lambda>header.
     check (get16 (drop 6 header) = code)))))"
  have rest: "?rest w2 = (Undef, w')" using assms s rd by (simp add: mipi_answer_def bnd_Done)
  have "adds transfer ?rest" by (auto intro!: adds_intros)
  from addsD [OF this rest] obtain es where t3: "w_trace w' = w_trace w2 @ es" by blast
  have ok: "get32 lb \<noteq> 0" "\<not> ?L < 4" using rest by (auto simp: bnd_def check_eq split: if_splits)
  have "bad_length (get32 lb)"
  proof (rule ccontr)
    assume g: "\<not> bad_length (get32 lb)"
    note r = reply_length_good [OF g ok]
    obtain o3 w3 where lp: "mipi_reply_loop (unat ?L) (le32 ?L) w2 = (o3, w3)" by fastforce
    from reply_loop_safe [OF this r(1)] r(2) have "o3 \<noteq> Undef" "\<forall>b. o3 = Done b \<longrightarrow> 10 \<le> length b" by auto
    with rest lp ok show False
      by (auto simp: bnd_def check_eq peek_def lift_outcome_eq split: outcome.splits if_splits)
  qed
  with len t1 t2 t3 show ?thesis by auto
qed


section \<open>Properties\<close>

text \<open>
  C29: sending a command accesses only memory of its own, unless it awaits an answer and the
  first thing the modem then sends is an announced length that is odd, 2, 4 or 0xFFFFFFFE: the
  frame itself is built within its buffer for every payload.
\<close>

theorem mipi_command_in_bounds:
  assumes "xmm626_mipi_command_send fd code (Some data) ack short_footer w = (Undef, w')"
  shows "ack \<and> (\<exists>announced es. length announced = 4 \<and>
    w_trace w' = w_trace w @ EvWrite fd (mipi_frame code short_footer data) # EvRead announced # es \<and>
    (odd (unat (get32 announced)) \<or> unat (get32 announced) \<in> {2, 4, 0xFFFFFFFE}))"
proof (cases "fd < 0 \<or> data = []")
  case True
  with assms show ?thesis by (simp add: mipi_command_refused fail_eq)
next
  case False
  then have ok: "0 \<le> fd" "data \<noteq> []" by auto
  have "write_whole fd (mipi_frame code short_footer data) w \<noteq> (Undef, w1)" for w1
    by (auto simp: write_whole_def sys_write_def bnd_def check_eq Let_def)
  with assms obtain w1 where wr: "write_whole fd (mipi_frame code short_footer data) w = (Done (), w1)"
    and rest: "(if \<not> ack then ret () else mipi_answer code) w1 = (Undef, w')"
    unfolding mipi_command_eq [OF ok]
    by (cases "write_whole fd (mipi_frame code short_footer data) w" rule: prod.exhaust, rename_tac r v, case_tac r)
      (auto simp: bnd_def)
  have "w_trace w1 = w_trace w @ [EvWrite fd (mipi_frame code short_footer data)]"
    using wr by (auto simp: write_whole_def bnd_eq_Done check_eq_Done sys_write_def Let_def split: if_splits)
  moreover have "ack" "mipi_answer code w1 = (Undef, w')" using rest by (auto simp: ret_eq split: if_splits)
  ultimately show ?thesis using mipi_answer_Undef [of code w1 w'] by (auto simp: bad_length_def)
qed

text \<open>An announced length of four makes the copy of the header read past the answer.\<close>

theorem mipi_command_in_bounds_witness:
  "\<exists>w' announced es. xmm626_mipi_command_send 3 0x86 (Some [1]) True False
       (demo_boot [[4, 0, 0, 0], [0, 0, 0x86, 0]]) = (Undef, w') \<and>
     w_trace w' = EvWrite 3 (mipi_frame 0x86 False [1]) # EvRead announced # es \<and>
     (odd (unat (get32 announced)) \<or> unat (get32 announced) \<in> {2, 4, 0xFFFFFFFE})"
proof -
  let ?w = "demo_boot [[4, 0, 0, 0], [0, 0, 0x86, 0]]"
  have u: "unat (8 :: u32) = 8" "get32 [4, 0, 0, 0] = 4" by (simp_all add: get32_def push_bit_eq_mult)
  have l: "mipi_reply_length 4 = 8" by (simp add: mipi_reply_length_def Let_def)
  have wr: "completes willing (write_whole 3 (mipi_frame 0x86 False [1])) [] (\<lambda>_. True)"
    by (rule completes_write_whole) (simp add: mipi_frame_length)
  have lp: "completes willing (mipi_reply_loop 8 (le32 8)) [[0, 0, 0x86, 0]] (\<lambda>b. b = le32 8 @ [0, 0, 0x86, 0])"
    using completes_reply_loop [of "le32 8" "[[0, 0, 0x86, 0]]" 8] by simp
  obtain w1 where w1: "write_whole 3 (mipi_frame 0x86 False [1]) ?w = (Done (), w1)" "willing w1" "w_rd w1 = w_rd ?w"
    using completesD [OF wr demo_boot_simps(1), of _ "w_rd ?w"] by auto
  obtain w2 where w2: "select_ready w1 = (Done (), w2)" "willing w2" "w_rd w2 = w_rd w1"
    using completesD [OF completes_select_ready w1(2), of "w_rd w1"] by auto
  obtain w3 where w3: "read_whole 4 w2 = (Done [4, 0, 0, 0], w3)" "willing w3" "w_rd w3 = Some [0, 0, 0x86, 0] ## sconst None"
    using completesD [OF completes_read_whole [of "[4, 0, 0, 0]" 4] w2(2)] w2(3) w1(3) by (auto simp: demo_boot_simps)
  obtain w4 where w4: "mipi_reply_loop 8 (le32 8) w3 = (Done (le32 8 @ [0, 0, 0x86, 0]), w4)"
    using completesD [OF lp w3(2)] w3(3) by auto
  have "xmm626_mipi_command_send 3 0x86 (Some [1]) True False ?w = (Undef, w4)"
    using w1(1) w2(1) w3(1) w4
    by (simp add: mipi_command_eq mipi_answer_def bnd_Done u l check_eq, simp add: bnd_def peek_def lift_outcome_eq)
  moreover have "w_trace ?w = []" by (simp add: demo_boot_def)
  ultimately show ?thesis using mipi_command_in_bounds [of 3 "0x86" "[1]" True False ?w w4] by fastforce
qed

text \<open>
  When the PSI stage succeeds, the modem was sent the wake-up text 1 to 51 times, a header
  with the length of the image in the other byte order than over HSIC, the whole image and the
  exclusive or of its bytes as the top byte of a word of ones, in this order and nothing else;
  and the stage succeeds when the modem acknowledges the wake-up and then the image.
\<close>

theorem mipi_psi_send_bytes:
  "(xmm626_mipi_psi_send client fd (Some mem) psi_size w = (Done u, w') \<longrightarrow>
      (\<exists>k psi. 1 \<le> k \<and> k \<le> 51 \<and> psi = take (unat psi_size) mem \<and> length psi = unat psi_size \<and>
        sent fd w' = sent fd w @ concat (replicate k (ascii ''ATAT'')) @ [0xff] @ rev (le16 psi_size) @ [0x30] @ psi @
          [0xff, 0xff, 0xff, foldl (XOR) 0 psi])) \<and>
   (willing w \<and> 0 \<le> fd \<and> psi_size \<noteq> 0 \<and> unat psi_size \<le> length mem \<and> client \<noteq> None \<and>
      w_rd w = map Some [[0xff, 0xff, x, y], [0x01, 0xDD, x', y']] @- rest \<longrightarrow>
      (\<exists>w'. xmm626_mipi_psi_send client fd (Some mem) psi_size w = (Done (), w') \<and> w_rd w' = rest))"
proof (intro conjI impI)
  assume "xmm626_mipi_psi_send client fd (Some mem) psi_size w = (Done u, w')"
  from emitsD [OF emits_mipi_psi_send this]
  show "\<exists>k psi. 1 \<le> k \<and> k \<le> 51 \<and> psi = take (unat psi_size) mem \<and> length psi = unat psi_size \<and>
      sent fd w' = sent fd w @ concat (replicate k (ascii ''ATAT'')) @ [0xff] @ rev (le16 psi_size) @ [0x30] @ psi @
        [0xff, 0xff, 0xff, foldl (XOR) 0 psi]"
    by (auto simp: mipi_psi_stage_def XMM626_AT_def)
next
  have a: "get16 [0xff, 0xff, x, y] = 0xFFFF" "get16 [0x01, 0xDD, x', y'] = 0xDD01"
    by (simp_all add: get16_def push_bit_eq_mult)
  assume "willing w \<and> 0 \<le> fd \<and> psi_size \<noteq> 0 \<and> unat psi_size \<le> length mem \<and> client \<noteq> None \<and>
      w_rd w = map Some [[0xff, 0xff, x, y], [0x01, 0xDD, x', y']] @- rest"
  then show "\<exists>w'. xmm626_mipi_psi_send client fd (Some mem) psi_size w = (Done (), w') \<and> w_rd w' = rest"
    using completesD [OF completes_mipi_psi_send [OF _ _ _ _ a(1) _ a(2), of fd psi_size mem], of w rest] by fastforce
qed

text \<open>
  When the EBL stage succeeds, the modem was sent the boot magic behind its length, the size
  of the image behind that of a word, the size once more with the checksum byte counted, the
  whole image and the exclusive or of its bytes; and the stage succeeds when the modem
  acknowledges the magic, the size and the image.
\<close>

theorem mipi_ebl_send_bytes:
  "(xmm626_mipi_ebl_send client fd (Some ebl) w = (Done u, w') \<longrightarrow>
      sent fd w' = sent fd w @ [8, 0, 0, 0] @ [0, 0, 0, 0, 2, 0, 2, 0] @ [4, 0, 0, 0] @ le32 (of_nat (length ebl)) @
        le32 (of_nat (length (ebl @ [foldl (XOR) 0 ebl]))) @ ebl @ [foldl (XOR) 0 ebl]) \<and>
   (willing w \<and> 0 \<le> fd \<and> ebl \<noteq> [] \<and> client \<noteq> None \<and>
      w_rd w = map Some [[0x00, 0xAA, 0, 0], [0xCC, 0xCC, 0, 0], [0x51, 0xA5, 0, 0]] @- rest \<longrightarrow>
      (\<exists>w'. xmm626_mipi_ebl_send client fd (Some ebl) w = (Done (), w') \<and> w_rd w' = rest))"
proof (intro conjI impI)
  have l: "le32 8 = [8, 0, 0, 0]" "le32 4 = [4, 0, 0, 0]" by (simp_all add: le32_def drop_bit_eq_div)
  assume "xmm626_mipi_ebl_send client fd (Some ebl) w = (Done u, w')"
  from emitsD [OF emits_mipi_ebl_send this]
  show "sent fd w' = sent fd w @ [8, 0, 0, 0] @ [0, 0, 0, 0, 2, 0, 2, 0] @ [4, 0, 0, 0] @ le32 (of_nat (length ebl)) @
        le32 (of_nat (length (ebl @ [foldl (XOR) 0 ebl]))) @ ebl @ [foldl (XOR) 0 ebl]"
    by (auto simp: mipi_ebl_stage_def l add.commute)
next
  have a: "get16 [0x00, 0xAA, 0, 0] = 0xAA00" "get16 [0xCC, 0xCC, 0, 0] = 0xCCCC" "get16 [0x51, 0xA5, 0, 0] = 0xA551"
    by (simp_all add: get16_def push_bit_eq_mult)
  assume "willing w \<and> 0 \<le> fd \<and> ebl \<noteq> [] \<and> client \<noteq> None \<and>
      w_rd w = map Some [[0x00, 0xAA, 0, 0], [0xCC, 0xCC, 0, 0], [0x51, 0xA5, 0, 0]] @- rest"
  then show "\<exists>w'. xmm626_mipi_ebl_send client fd (Some ebl) w = (Done (), w') \<and> w_rd w' = rest"
    using completesD [OF completes_mipi_ebl_send [OF _ _ _ a(1) _ a(2) _ a(3), of fd ebl], of w rest] by fastforce
qed


theorem mipi_psi_send_bytes_witness:
  "\<exists>k w'. 1 \<le> k \<and> k \<le> 51 \<and>
     xmm626_mipi_psi_send (Some demo_env) 3 (Some [1, 2, 3]) 2 (demo_boot [[0xff, 0xff, 0, 0], [0x01, 0xDD, 0, 0]]) = (Done (), w') \<and>
     sent 3 w' = concat (replicate k (ascii ''ATAT'')) @ [0xff, 0, 2, 0x30, 1, 2, 0xff, 0xff, 0xff, 3]"
proof -
  let ?w = "demo_boot [[0xff, 0xff, 0, 0], [0x01, 0xDD, 0, 0]]"
  obtain w' where w': "xmm626_mipi_psi_send (Some demo_env) 3 (Some [1, 2, 3]) 2 ?w = (Done (), w')"
    using mipi_psi_send_bytes [of "Some demo_env" 3 "[1, 2, 3]" 2 ?w "()" undefined 0 0 0 0 "sconst None"]
    by (auto simp: demo_boot_simps)
  then obtain k where "1 \<le> k" "k \<le> 51" "sent 3 w' = sent 3 ?w @ concat (replicate k (ascii ''ATAT'')) @ [0xff] @
      rev (le16 2) @ [0x30] @ take (unat (2 :: u16)) [1, 2, 3] @
      [0xff, 0xff, 0xff, foldl (XOR) 0 (take (unat (2 :: u16)) [1, 2, 3])]"
    using mipi_psi_send_bytes [of "Some demo_env" 3 "[1, 2, 3]" 2 ?w "()" w'] by blast
  moreover have "le16 2 = [2, 0]" "take (unat (2 :: u16)) [1, 2, 3 :: u8] = [1, 2]"
    by (simp_all add: le16_def drop_bit_eq_div take_Cons')
  ultimately show ?thesis using w' by (auto simp: demo_boot_simps)
qed

theorem mipi_ebl_send_bytes_witness:
  "\<exists>w'. xmm626_mipi_ebl_send (Some demo_env) 3 (Some [5, 6])
      (demo_boot [[0x00, 0xAA, 0, 0], [0xCC, 0xCC, 0, 0], [0x51, 0xA5, 0, 0]]) = (Done (), w') \<and>
     sent 3 w' = [8, 0, 0, 0, 0, 0, 0, 0, 2, 0, 2, 0, 4, 0, 0, 0, 2, 0, 0, 0, 3, 0, 0, 0, 5, 6, 3]"
proof -
  let ?w = "demo_boot [[0x00, 0xAA, 0, 0], [0xCC, 0xCC, 0, 0], [0x51, 0xA5, 0, 0]]"
  obtain w' where w': "xmm626_mipi_ebl_send (Some demo_env) 3 (Some [5, 6]) ?w = (Done (), w')"
    using mipi_ebl_send_bytes [of "Some demo_env" 3 "[5, 6]" ?w "()" undefined "sconst None"]
    by (auto simp: demo_boot_simps)
  moreover have "le32 2 = [2, 0, 0, 0]" "le32 3 = [3, 0, 0, 0]" by (simp_all add: le32_def drop_bit_eq_div)
  ultimately show ?thesis
    using mipi_ebl_send_bytes [of "Some demo_env" 3 "[5, 6]" ?w "()" w'] by (auto simp: demo_boot_simps)
qed

text \<open>
  When sending the firmware succeeds, the modem was sent its load address in one command
  and then the image in blocks of 3570 bytes, the last of what is left, each in a frame of its
  own that ends in its checksum; the blocks in order are the image; and it succeeds when the
  modem answers the address command and every block.
\<close>

theorem mipi_firmware_send_blocks:
  "(xmm626_mipi_firmware_send client fd (Some firmware) w = (Done u, w') \<longrightarrow>
      (\<exists>cs. concat cs = firmware \<and> (\<forall>c \<in> set cs. 0 < length c \<and> length c \<le> 0xDF2) \<and>
        (\<forall>c \<in> set (butlast cs). length c = 0xDF2) \<and>
        sent fd w' = sent fd w @ mipi_frame 0x802 False [0, 0, 0x30, 0x60] @
          concat (map (mipi_frame 0x804 True) cs))) \<and>
   (willing w \<and> 0 \<le> fd \<and> firmware \<noteq> [] \<and> client \<noteq> None \<and> mipi_reply 0x802 rs \<and>
      blocks_of 0xDF2 cs firmware \<and> length rss = length cs \<and> (\<forall>rs \<in> set rss. mipi_reply 0x804 rs) \<and>
      w_rd w = map Some (rs @ concat rss) @- rest \<longrightarrow>
      (\<exists>w'. xmm626_mipi_firmware_send client fd (Some firmware) w = (Done (), w') \<and> w_rd w' = rest))"
proof (intro conjI impI)
  have a: "le32 XMM626_FIRMWARE_ADDRESS = [0, 0, 0x30, 0x60]"
    by (simp add: XMM626_FIRMWARE_ADDRESS_def le32_def drop_bit_eq_div)
  assume "xmm626_mipi_firmware_send client fd (Some firmware) w = (Done u, w')"
  then have "xmm626_mipi_modem_data_send fd (Some firmware) XMM626_FIRMWARE_ADDRESS w = (Done u, w')"
    by (auto simp: xmm626_mipi_firmware_send_def fail_eq split: option.splits if_splits)
  from emitsD [OF emits_mipi_modem_data_send this]
  show "\<exists>cs. concat cs = firmware \<and> (\<forall>c \<in> set cs. 0 < length c \<and> length c \<le> 0xDF2) \<and>
        (\<forall>c \<in> set (butlast cs). length c = 0xDF2) \<and>
        sent fd w' = sent fd w @ mipi_frame 0x802 False [0, 0, 0x30, 0x60] @
          concat (map (mipi_frame 0x804 True) cs)"
    unfolding blocks_of_def mipi_data_stage_def a by blast
next
  assume "willing w \<and> 0 \<le> fd \<and> firmware \<noteq> [] \<and> client \<noteq> None \<and> mipi_reply 0x802 rs \<and>
      blocks_of 0xDF2 cs firmware \<and> length rss = length cs \<and> (\<forall>rs \<in> set rss. mipi_reply 0x804 rs) \<and>
      w_rd w = map Some (rs @ concat rss) @- rest"
  then show "\<exists>w'. xmm626_mipi_firmware_send client fd (Some firmware) w = (Done (), w') \<and> w_rd w' = rest"
    using completesD [OF completes_mipi_modem_data_send [of fd firmware rs cs rss], of w rest]
    by (fastforce simp: xmm626_mipi_firmware_send_def)
qed

definition demo_reply :: "u16 \<Rightarrow> u8 list list" where
  "demo_reply code = [le32 8, le16 0 @ le16 code, [0, 0, 0, 0]]"

lemma demo_reply_ok: "mipi_reply code (demo_reply code)"
  unfolding mipi_reply_def demo_reply_def
  by (intro exI [of _ 8] exI [of _ "[le16 0 @ le16 code, [0, 0, 0, 0]]"]) (simp_all add: get16_prefix)

theorem mipi_firmware_send_blocks_witness:
  "\<exists>cs w'. xmm626_mipi_firmware_send (Some demo_env) 3 (Some [1, 2, 3])
      (demo_boot (demo_reply 0x802 @ demo_reply 0x804)) = (Done (), w') \<and> concat cs = [1, 2, 3] \<and>
     sent 3 w' = mipi_frame 0x802 False [0, 0, 0x30, 0x60] @ concat (map (mipi_frame 0x804 True) cs)"
proof -
  let ?w = "demo_boot (demo_reply 0x802 @ demo_reply 0x804)"
  have b: "blocks_of 0xDF2 [[1, 2, 3]] [1, 2, 3 :: u8]" by (simp add: blocks_of_def)
  obtain w' where w': "xmm626_mipi_firmware_send (Some demo_env) 3 (Some [1, 2, 3]) ?w = (Done (), w')"
    using mipi_firmware_send_blocks [THEN conjunct2, of ?w 3 "[1, 2, 3]" "Some demo_env" "demo_reply 0x802"
        "[[1, 2, 3]]" "[demo_reply 0x804]" "sconst None"] b demo_reply_ok by (auto simp: demo_boot_simps)
  with mipi_firmware_send_blocks [THEN conjunct1, of "Some demo_env" 3 "[1, 2, 3]" ?w "()" w'] show ?thesis
    by (fastforce simp: demo_boot_simps)
qed

end
