(* ===== verification/Devices.thy ===== *)
theory Devices
  imports Smdk4412
begin

text \<open>
  The handlers and tables of the other devices over the SMDK4412 driver: devices/n7100/n7100.c,
  n5100.c, galaxys2.c, maguro.c and piranha.c. Every file defines its own copies; they are
  translated one by one and proved to be those of the i9300, so that what Smdk4412 proves of the
  handlers holds of all six devices. Only \<open>maguro\<close> keeps its NV data elsewhere.

  The boot functions, and the tables \<open>*_fmt_ops\<close> that name them, are in Boot and MipiBoot.
\<close>

section \<open>n7100\<close>

definition n7100_open :: open_handler where
  "n7100_open data type =
     (case data of None \<Rightarrow> fail
      | Some a \<Rightarrow>
          bnd (xmm626_kernel_smdk4412_open type) (\<lambda>fd.
          bnd (heap_set a fd) (\<lambda>_. check (\<not> fd < 0))))"

definition n7100_close :: close_handler where
  "n7100_close data =
     (case data of None \<Rightarrow> fail
      | Some a \<Rightarrow>
          bnd (heap_get a) (\<lambda>fd.
          bnd (try_rc (xmm626_kernel_smdk4412_close fd)) (\<lambda>_. heap_set a (-1))))"

definition n7100_read :: read_handler where
  "n7100_read data len =
     (case data of None \<Rightarrow> ret None
      | Some a \<Rightarrow> bnd (heap_get a) (\<lambda>fd. xmm626_kernel_smdk4412_read fd len))"

definition n7100_write :: write_handler where
  "n7100_write data buffer =
     (case data of None \<Rightarrow> ret (-1)
      | Some a \<Rightarrow> bnd (heap_get a) (\<lambda>fd. xmm626_kernel_smdk4412_write fd buffer))"

definition n7100_poll :: poll_handler where
  "n7100_poll data fds =
     (case data of None \<Rightarrow> fail
      | Some a \<Rightarrow> bnd (heap_get a) (\<lambda>fd. xmm626_kernel_smdk4412_poll fd fds))"

definition n7100_power_on :: power_handler where
  "n7100_power_on data = ret ()"

definition n7100_power_off :: power_handler where
  "n7100_power_off data =
     bnd (sys_open ''/dev/umts_boot0'') (\<lambda>fd.
     if fd < 0 then fail
     else
       bnd (try_rc (xmm626_kernel_smdk4412_power fd 0)) (\<lambda>rc.
       bnd (sys_close fd) (\<lambda>_. check (\<not> rc < 0))))"

definition n7100_gprs_activate :: gprs_handler where
  "n7100_gprs_activate data cid = ret ()"

definition n7100_gprs_deactivate :: gprs_handler where
  "n7100_gprs_deactivate data cid = ret ()"

definition n7100_data_create ::

     "slot option \<Rightarrow> slot option \<Rightarrow> slot option \<Rightarrow> handler_data
    \<Rightarrow> handler_data io" where
  "n7100_data_create transport_data power_data gprs_data d =
     (case transport_data of None \<Rightarrow> fail
      | Some s \<Rightarrow> bnd heap_calloc (\<lambda>a. ret (slot_set s (Some a) d)))"

definition n7100_data_destroy :: "ptr \<Rightarrow> ptr \<Rightarrow> ptr \<Rightarrow> unit io" where
  "n7100_data_destroy transport_data power_data gprs_data =
     (case transport_data of None \<Rightarrow> fail | Some a \<Rightarrow> heap_free a)"

definition n7100_handlers :: ipc_client_handlers where
  "n7100_handlers = \<lparr>h_open = Some n7100_open, h_close = Some n7100_close, h_read = Some n7100_read,
     h_write = Some n7100_write, h_poll = Some n7100_poll, h_power_on = Some n7100_power_on,
     h_power_off = Some n7100_power_off, h_gprs_activate = Some n7100_gprs_activate,
     h_gprs_deactivate = Some n7100_gprs_deactivate, h_data_create = Some n7100_data_create,
     h_data_destroy = Some n7100_data_destroy,
     h_data = \<lparr>hd_transport = None, hd_power = None, hd_gprs = None\<rparr>\<rparr>"

definition n7100_gprs_specs :: ipc_client_gprs_specs where
  "n7100_gprs_specs = \<lparr>gs_get_iface = Some xmm626_kernel_smdk4412_gprs_get_iface,
     gs_get_capabilities = Some xmm626_kernel_smdk4412_gprs_get_capabilities\<rparr>"

definition n7100_nv_data_specs :: ipc_client_nv_data_specs where
  "n7100_nv_data_specs = \<lparr>nv_data_path = Some ''/efs/nv_data.bin'',
     nv_data_md5_path = Some ''/efs/nv_data.bin.md5'', nv_data_backup_path = Some ''/efs/.nv_data.bak'',
     nv_data_backup_md5_path = Some ''/efs/.nv_data.bak.md5'',
     nv_data_secret = Some (ascii ''Samsung_Android_RIL''), nv_data_size = 0x200000,
     nv_data_chunk_size = 0x1000\<rparr>"

definition n7100_rfs_ops :: ipc_client_ops where
  "n7100_rfs_ops = \<lparr>op_boot = None, op_send = Some xmm626_kernel_smdk4412_rfs_send,
     op_recv = Some xmm626_kernel_smdk4412_rfs_recv\<rparr>"

section \<open>n5100\<close>

definition n5100_open :: open_handler where
  "n5100_open data type =
     (case data of None \<Rightarrow> fail
      | Some a \<Rightarrow>
          bnd (xmm626_kernel_smdk4412_open type) (\<lambda>fd.
          bnd (heap_set a fd) (\<lambda>_. check (\<not> fd < 0))))"

definition n5100_close :: close_handler where
  "n5100_close data =
     (case data of None \<Rightarrow> fail
      | Some a \<Rightarrow>
          bnd (heap_get a) (\<lambda>fd.
          bnd (try_rc (xmm626_kernel_smdk4412_close fd)) (\<lambda>_. heap_set a (-1))))"

definition n5100_read :: read_handler where
  "n5100_read data len =
     (case data of None \<Rightarrow> ret None
      | Some a \<Rightarrow> bnd (heap_get a) (\<lambda>fd. xmm626_kernel_smdk4412_read fd len))"

definition n5100_write :: write_handler where
  "n5100_write data buffer =
     (case data of None \<Rightarrow> ret (-1)
      | Some a \<Rightarrow> bnd (heap_get a) (\<lambda>fd. xmm626_kernel_smdk4412_write fd buffer))"

definition n5100_poll :: poll_handler where
  "n5100_poll data fds =
     (case data of None \<Rightarrow> fail
      | Some a \<Rightarrow> bnd (heap_get a) (\<lambda>fd. xmm626_kernel_smdk4412_poll fd fds))"

definition n5100_power_on :: power_handler where
  "n5100_power_on data = ret ()"

definition n5100_power_off :: power_handler where
  "n5100_power_off data =
     bnd (sys_open ''/dev/umts_boot0'') (\<lambda>fd.
     if fd < 0 then fail
     else
       bnd (try_rc (xmm626_kernel_smdk4412_power fd 0)) (\<lambda>rc.
       bnd (sys_close fd) (\<lambda>_. check (\<not> rc < 0))))"

definition n5100_gprs_activate :: gprs_handler where
  "n5100_gprs_activate data cid = ret ()"

definition n5100_gprs_deactivate :: gprs_handler where
  "n5100_gprs_deactivate data cid = ret ()"

definition n5100_data_create ::

     "slot option \<Rightarrow> slot option \<Rightarrow> slot option \<Rightarrow> handler_data
    \<Rightarrow> handler_data io" where
  "n5100_data_create transport_data power_data gprs_data d =
     (case transport_data of None \<Rightarrow> fail
      | Some s \<Rightarrow> bnd heap_calloc (\<lambda>a. ret (slot_set s (Some a) d)))"

definition n5100_data_destroy :: "ptr \<Rightarrow> ptr \<Rightarrow> ptr \<Rightarrow> unit io" where
  "n5100_data_destroy transport_data power_data gprs_data =
     (case transport_data of None \<Rightarrow> fail | Some a \<Rightarrow> heap_free a)"

definition n5100_handlers :: ipc_client_handlers where
  "n5100_handlers = \<lparr>h_open = Some n5100_open, h_close = Some n5100_close, h_read = Some n5100_read,
     h_write = Some n5100_write, h_poll = Some n5100_poll, h_power_on = Some n5100_power_on,
     h_power_off = Some n5100_power_off, h_gprs_activate = Some n5100_gprs_activate,
     h_gprs_deactivate = Some n5100_gprs_deactivate, h_data_create = Some n5100_data_create,
     h_data_destroy = Some n5100_data_destroy,
     h_data = \<lparr>hd_transport = None, hd_power = None, hd_gprs = None\<rparr>\<rparr>"

definition n5100_gprs_specs :: ipc_client_gprs_specs where
  "n5100_gprs_specs = \<lparr>gs_get_iface = Some xmm626_kernel_smdk4412_gprs_get_iface,
     gs_get_capabilities = Some xmm626_kernel_smdk4412_gprs_get_capabilities\<rparr>"

definition n5100_nv_data_specs :: ipc_client_nv_data_specs where
  "n5100_nv_data_specs = \<lparr>nv_data_path = Some ''/efs/nv_data.bin'',
     nv_data_md5_path = Some ''/efs/nv_data.bin.md5'', nv_data_backup_path = Some ''/efs/.nv_data.bak'',
     nv_data_backup_md5_path = Some ''/efs/.nv_data.bak.md5'',
     nv_data_secret = Some (ascii ''Samsung_Android_RIL''), nv_data_size = 0x200000,
     nv_data_chunk_size = 0x1000\<rparr>"

definition n5100_rfs_ops :: ipc_client_ops where
  "n5100_rfs_ops = \<lparr>op_boot = None, op_send = Some xmm626_kernel_smdk4412_rfs_send,
     op_recv = Some xmm626_kernel_smdk4412_rfs_recv\<rparr>"

section \<open>galaxys2\<close>

definition galaxys2_open :: open_handler where
  "galaxys2_open data type =
     (case data of None \<Rightarrow> fail
      | Some a \<Rightarrow>
          bnd (xmm626_kernel_smdk4412_open type) (\<lambda>fd.
          bnd (heap_set a fd) (\<lambda>_. check (\<not> fd < 0))))"

definition galaxys2_close :: close_handler where
  "galaxys2_close data =
     (case data of None \<Rightarrow> fail
      | Some a \<Rightarrow>
          bnd (heap_get a) (\<lambda>fd.
          bnd (try_rc (xmm626_kernel_smdk4412_close fd)) (\<lambda>_. heap_set a (-1))))"

definition galaxys2_read :: read_handler where
  "galaxys2_read data len =
     (case data of None \<Rightarrow> ret None
      | Some a \<Rightarrow> bnd (heap_get a) (\<lambda>fd. xmm626_kernel_smdk4412_read fd len))"

definition galaxys2_write :: write_handler where
  "galaxys2_write data buffer =
     (case data of None \<Rightarrow> ret (-1)
      | Some a \<Rightarrow> bnd (heap_get a) (\<lambda>fd. xmm626_kernel_smdk4412_write fd buffer))"

definition galaxys2_poll :: poll_handler where
  "galaxys2_poll data fds =
     (case data of None \<Rightarrow> fail
      | Some a \<Rightarrow> bnd (heap_get a) (\<lambda>fd. xmm626_kernel_smdk4412_poll fd fds))"

definition galaxys2_power_on :: power_handler where
  "galaxys2_power_on data = ret ()"

definition galaxys2_power_off :: power_handler where
  "galaxys2_power_off data =
     bnd (sys_open ''/dev/umts_boot0'') (\<lambda>fd.
     if fd < 0 then fail
     else
       bnd (try_rc (xmm626_kernel_smdk4412_power fd 0)) (\<lambda>rc.
       bnd (sys_close fd) (\<lambda>_. check (\<not> rc < 0))))"

definition galaxys2_gprs_activate :: gprs_handler where
  "galaxys2_gprs_activate data cid = ret ()"

definition galaxys2_gprs_deactivate :: gprs_handler where
  "galaxys2_gprs_deactivate data cid = ret ()"

definition galaxys2_data_create ::

     "slot option \<Rightarrow> slot option \<Rightarrow> slot option \<Rightarrow> handler_data
    \<Rightarrow> handler_data io" where
  "galaxys2_data_create transport_data power_data gprs_data d =
     (case transport_data of None \<Rightarrow> fail
      | Some s \<Rightarrow> bnd heap_calloc (\<lambda>a. ret (slot_set s (Some a) d)))"

definition galaxys2_data_destroy :: "ptr \<Rightarrow> ptr \<Rightarrow> ptr \<Rightarrow> unit io" where
  "galaxys2_data_destroy transport_data power_data gprs_data =
     (case transport_data of None \<Rightarrow> fail | Some a \<Rightarrow> heap_free a)"

definition galaxys2_handlers :: ipc_client_handlers where

     "galaxys2_handlers = \<lparr>h_open = Some galaxys2_open, h_close = Some galaxys2_close, h_read = Some
    galaxys2_read,
     h_write = Some galaxys2_write, h_poll = Some galaxys2_poll, h_power_on = Some galaxys2_power_on,
     h_power_off = Some galaxys2_power_off, h_gprs_activate = Some galaxys2_gprs_activate,
     h_gprs_deactivate = Some galaxys2_gprs_deactivate, h_data_create = Some galaxys2_data_create,
     h_data_destroy = Some galaxys2_data_destroy,
     h_data = \<lparr>hd_transport = None, hd_power = None, hd_gprs = None\<rparr>\<rparr>"

definition galaxys2_gprs_specs :: ipc_client_gprs_specs where
  "galaxys2_gprs_specs = \<lparr>gs_get_iface = Some xmm626_kernel_smdk4412_gprs_get_iface,
     gs_get_capabilities = Some xmm626_kernel_smdk4412_gprs_get_capabilities\<rparr>"

definition galaxys2_nv_data_specs :: ipc_client_nv_data_specs where
  "galaxys2_nv_data_specs = \<lparr>nv_data_path = Some ''/efs/nv_data.bin'',
     nv_data_md5_path = Some ''/efs/nv_data.bin.md5'', nv_data_backup_path = Some ''/efs/.nv_data.bak'',
     nv_data_backup_md5_path = Some ''/efs/.nv_data.bak.md5'',
     nv_data_secret = Some (ascii ''Samsung_Android_RIL''), nv_data_size = 0x200000,
     nv_data_chunk_size = 0x1000\<rparr>"

definition galaxys2_rfs_ops :: ipc_client_ops where
  "galaxys2_rfs_ops = \<lparr>op_boot = None, op_send = Some xmm626_kernel_smdk4412_rfs_send,
     op_recv = Some xmm626_kernel_smdk4412_rfs_recv\<rparr>"

section \<open>maguro\<close>

definition maguro_open :: open_handler where
  "maguro_open data type =
     (case data of None \<Rightarrow> fail
      | Some a \<Rightarrow>
          bnd (xmm626_kernel_smdk4412_open type) (\<lambda>fd.
          bnd (heap_set a fd) (\<lambda>_. check (\<not> fd < 0))))"

definition maguro_close :: close_handler where
  "maguro_close data =
     (case data of None \<Rightarrow> fail
      | Some a \<Rightarrow>
          bnd (heap_get a) (\<lambda>fd.
          bnd (try_rc (xmm626_kernel_smdk4412_close fd)) (\<lambda>_. heap_set a (-1))))"

definition maguro_read :: read_handler where
  "maguro_read data len =
     (case data of None \<Rightarrow> ret None
      | Some a \<Rightarrow> bnd (heap_get a) (\<lambda>fd. xmm626_kernel_smdk4412_read fd len))"

definition maguro_write :: write_handler where
  "maguro_write data buffer =
     (case data of None \<Rightarrow> ret (-1)
      | Some a \<Rightarrow> bnd (heap_get a) (\<lambda>fd. xmm626_kernel_smdk4412_write fd buffer))"

definition maguro_poll :: poll_handler where
  "maguro_poll data fds =
     (case data of None \<Rightarrow> fail
      | Some a \<Rightarrow> bnd (heap_get a) (\<lambda>fd. xmm626_kernel_smdk4412_poll fd fds))"

definition maguro_power_on :: power_handler where
  "maguro_power_on data = ret ()"

definition maguro_power_off :: power_handler where
  "maguro_power_off data =
     bnd (sys_open ''/dev/umts_boot0'') (\<lambda>fd.
     if fd < 0 then fail
     else
       bnd (try_rc (xmm626_kernel_smdk4412_power fd 0)) (\<lambda>rc.
       bnd (sys_close fd) (\<lambda>_. check (\<not> rc < 0))))"

definition maguro_gprs_activate :: gprs_handler where
  "maguro_gprs_activate data cid = ret ()"

definition maguro_gprs_deactivate :: gprs_handler where
  "maguro_gprs_deactivate data cid = ret ()"

definition maguro_data_create ::

     "slot option \<Rightarrow> slot option \<Rightarrow> slot option \<Rightarrow> handler_data
    \<Rightarrow> handler_data io" where
  "maguro_data_create transport_data power_data gprs_data d =
     (case transport_data of None \<Rightarrow> fail
      | Some s \<Rightarrow> bnd heap_calloc (\<lambda>a. ret (slot_set s (Some a) d)))"

definition maguro_data_destroy :: "ptr \<Rightarrow> ptr \<Rightarrow> ptr \<Rightarrow> unit io" where
  "maguro_data_destroy transport_data power_data gprs_data =
     (case transport_data of None \<Rightarrow> fail | Some a \<Rightarrow> heap_free a)"

definition maguro_handlers :: ipc_client_handlers where

     "maguro_handlers = \<lparr>h_open = Some maguro_open, h_close = Some maguro_close, h_read = Some
    maguro_read,
     h_write = Some maguro_write, h_poll = Some maguro_poll, h_power_on = Some maguro_power_on,
     h_power_off = Some maguro_power_off, h_gprs_activate = Some maguro_gprs_activate,
     h_gprs_deactivate = Some maguro_gprs_deactivate, h_data_create = Some maguro_data_create,
     h_data_destroy = Some maguro_data_destroy,
     h_data = \<lparr>hd_transport = None, hd_power = None, hd_gprs = None\<rparr>\<rparr>"

definition maguro_gprs_specs :: ipc_client_gprs_specs where
  "maguro_gprs_specs = \<lparr>gs_get_iface = Some xmm626_kernel_smdk4412_gprs_get_iface,
     gs_get_capabilities = Some xmm626_kernel_smdk4412_gprs_get_capabilities\<rparr>"

definition maguro_nv_data_specs :: ipc_client_nv_data_specs where
  "maguro_nv_data_specs = \<lparr>nv_data_path = Some ''/factory/nv_data.bin'',
     nv_data_md5_path = Some ''/factory/nv_data.bin.md5'', nv_data_backup_path = Some
    ''/factory/.nv_data.bak'',
     nv_data_backup_md5_path = Some ''/factory/.nv_data.bak.md5'',
     nv_data_secret = Some (ascii ''Samsung_Android_RIL''), nv_data_size = 0x200000,
     nv_data_chunk_size = 0x1000\<rparr>"

definition maguro_rfs_ops :: ipc_client_ops where
  "maguro_rfs_ops = \<lparr>op_boot = None, op_send = Some xmm626_kernel_smdk4412_rfs_send,
     op_recv = Some xmm626_kernel_smdk4412_rfs_recv\<rparr>"

section \<open>piranha\<close>

definition piranha_open :: open_handler where
  "piranha_open data type =
     (case data of None \<Rightarrow> fail
      | Some a \<Rightarrow>
          bnd (xmm626_kernel_smdk4412_open type) (\<lambda>fd.
          bnd (heap_set a fd) (\<lambda>_. check (\<not> fd < 0))))"

definition piranha_close :: close_handler where
  "piranha_close data =
     (case data of None \<Rightarrow> fail
      | Some a \<Rightarrow>
          bnd (heap_get a) (\<lambda>fd.
          bnd (try_rc (xmm626_kernel_smdk4412_close fd)) (\<lambda>_. heap_set a (-1))))"

definition piranha_read :: read_handler where
  "piranha_read data len =
     (case data of None \<Rightarrow> ret None
      | Some a \<Rightarrow> bnd (heap_get a) (\<lambda>fd. xmm626_kernel_smdk4412_read fd len))"

definition piranha_write :: write_handler where
  "piranha_write data buffer =
     (case data of None \<Rightarrow> ret (-1)
      | Some a \<Rightarrow> bnd (heap_get a) (\<lambda>fd. xmm626_kernel_smdk4412_write fd buffer))"

definition piranha_poll :: poll_handler where
  "piranha_poll data fds =
     (case data of None \<Rightarrow> fail
      | Some a \<Rightarrow> bnd (heap_get a) (\<lambda>fd. xmm626_kernel_smdk4412_poll fd fds))"

definition piranha_power_on :: power_handler where
  "piranha_power_on data = ret ()"

definition piranha_power_off :: power_handler where
  "piranha_power_off data =
     bnd (sys_open ''/dev/umts_boot0'') (\<lambda>fd.
     if fd < 0 then fail
     else
       bnd (try_rc (xmm626_kernel_smdk4412_power fd 0)) (\<lambda>rc.
       bnd (sys_close fd) (\<lambda>_. check (\<not> rc < 0))))"

definition piranha_gprs_activate :: gprs_handler where
  "piranha_gprs_activate data cid = ret ()"

definition piranha_gprs_deactivate :: gprs_handler where
  "piranha_gprs_deactivate data cid = ret ()"

definition piranha_data_create ::

     "slot option \<Rightarrow> slot option \<Rightarrow> slot option \<Rightarrow> handler_data
    \<Rightarrow> handler_data io" where
  "piranha_data_create transport_data power_data gprs_data d =
     (case transport_data of None \<Rightarrow> fail
      | Some s \<Rightarrow> bnd heap_calloc (\<lambda>a. ret (slot_set s (Some a) d)))"

definition piranha_data_destroy :: "ptr \<Rightarrow> ptr \<Rightarrow> ptr \<Rightarrow> unit io" where
  "piranha_data_destroy transport_data power_data gprs_data =
     (case transport_data of None \<Rightarrow> fail | Some a \<Rightarrow> heap_free a)"

definition piranha_handlers :: ipc_client_handlers where

     "piranha_handlers = \<lparr>h_open = Some piranha_open, h_close = Some piranha_close, h_read = Some
    piranha_read,
     h_write = Some piranha_write, h_poll = Some piranha_poll, h_power_on = Some piranha_power_on,
     h_power_off = Some piranha_power_off, h_gprs_activate = Some piranha_gprs_activate,
     h_gprs_deactivate = Some piranha_gprs_deactivate, h_data_create = Some piranha_data_create,
     h_data_destroy = Some piranha_data_destroy,
     h_data = \<lparr>hd_transport = None, hd_power = None, hd_gprs = None\<rparr>\<rparr>"

definition piranha_gprs_specs :: ipc_client_gprs_specs where
  "piranha_gprs_specs = \<lparr>gs_get_iface = Some xmm626_kernel_smdk4412_gprs_get_iface,
     gs_get_capabilities = Some xmm626_kernel_smdk4412_gprs_get_capabilities\<rparr>"

definition piranha_nv_data_specs :: ipc_client_nv_data_specs where
  "piranha_nv_data_specs = \<lparr>nv_data_path = Some ''/efs/nv_data.bin'',
     nv_data_md5_path = Some ''/efs/nv_data.bin.md5'', nv_data_backup_path = Some ''/efs/.nv_data.bak'',
     nv_data_backup_md5_path = Some ''/efs/.nv_data.bak.md5'',
     nv_data_secret = Some (ascii ''Samsung_Android_RIL''), nv_data_size = 0x200000,
     nv_data_chunk_size = 0x1000\<rparr>"

definition piranha_rfs_ops :: ipc_client_ops where
  "piranha_rfs_ops = \<lparr>op_boot = None, op_send = Some xmm626_kernel_smdk4412_rfs_send,
     op_recv = Some xmm626_kernel_smdk4412_rfs_recv\<rparr>"

section \<open>One driver\<close>

text \<open>The definitions of the handlers of each device.\<close>

lemmas i9300_handler_defs =
  i9300_open_def i9300_close_def i9300_read_def i9300_write_def
  i9300_poll_def i9300_power_on_def i9300_power_off_def i9300_gprs_activate_def
  i9300_gprs_deactivate_def i9300_data_create_def i9300_data_destroy_def

lemmas n7100_handler_defs =
  n7100_open_def n7100_close_def n7100_read_def n7100_write_def
  n7100_poll_def n7100_power_on_def n7100_power_off_def n7100_gprs_activate_def
  n7100_gprs_deactivate_def n7100_data_create_def n7100_data_destroy_def

lemmas n5100_handler_defs =
  n5100_open_def n5100_close_def n5100_read_def n5100_write_def
  n5100_poll_def n5100_power_on_def n5100_power_off_def n5100_gprs_activate_def
  n5100_gprs_deactivate_def n5100_data_create_def n5100_data_destroy_def

lemmas galaxys2_handler_defs =
  galaxys2_open_def galaxys2_close_def galaxys2_read_def galaxys2_write_def
  galaxys2_poll_def galaxys2_power_on_def galaxys2_power_off_def galaxys2_gprs_activate_def
  galaxys2_gprs_deactivate_def galaxys2_data_create_def galaxys2_data_destroy_def

lemmas maguro_handler_defs =
  maguro_open_def maguro_close_def maguro_read_def maguro_write_def
  maguro_poll_def maguro_power_on_def maguro_power_off_def maguro_gprs_activate_def
  maguro_gprs_deactivate_def maguro_data_create_def maguro_data_destroy_def

lemmas piranha_handler_defs =
  piranha_open_def piranha_close_def piranha_read_def piranha_write_def
  piranha_poll_def piranha_power_on_def piranha_power_off_def piranha_gprs_activate_def
  piranha_gprs_deactivate_def piranha_data_create_def piranha_data_destroy_def

text \<open>The copies of each device are those of the i9300.\<close>

lemma n7100_same: "n7100_handlers = i9300_handlers"
  unfolding n7100_handlers_def i9300_handlers_def n7100_handler_defs i9300_handler_defs
  by (simp add: n7100_handler_defs i9300_handler_defs fun_eq_iff)

lemma n5100_same: "n5100_handlers = i9300_handlers"
  unfolding n5100_handlers_def i9300_handlers_def n5100_handler_defs i9300_handler_defs
  by (simp add: n5100_handler_defs i9300_handler_defs fun_eq_iff)

lemma galaxys2_same: "galaxys2_handlers = i9300_handlers"
  unfolding galaxys2_handlers_def i9300_handlers_def galaxys2_handler_defs i9300_handler_defs
  by (simp add: galaxys2_handler_defs i9300_handler_defs fun_eq_iff)

lemma maguro_same: "maguro_handlers = i9300_handlers"
  unfolding maguro_handlers_def i9300_handlers_def maguro_handler_defs i9300_handler_defs
  by (simp add: maguro_handler_defs i9300_handler_defs fun_eq_iff)

lemma piranha_same: "piranha_handlers = i9300_handlers"
  unfolding piranha_handlers_def i9300_handlers_def piranha_handler_defs i9300_handler_defs
  by (simp add: piranha_handler_defs i9300_handler_defs fun_eq_iff)

definition smdk4412_handlers :: "ipc_client_handlers set" where
  "smdk4412_handlers = {i9300_handlers, n7100_handlers, n5100_handlers, galaxys2_handlers, maguro_handlers, piranha_handlers}"

lemma smdk4412_handlers_i9300: "h \<in> smdk4412_handlers \<Longrightarrow> h = i9300_handlers"
  by (auto simp: smdk4412_handlers_def n7100_same n5100_same galaxys2_same maguro_same piranha_same)


section \<open>Properties\<close>

text \<open>The device a client of each type opens.\<close>

definition ipc_device_path :: "int \<Rightarrow> string" where
  "ipc_device_path type = (if type = IPC_CLIENT_TYPE_FMT then ''/dev/umts_ipc0'' else ''/dev/umts_rfs0'')"

lemma i9300_open_steps:
  assumes "w_heap w a \<noteq> None" "type \<in> {IPC_CLIENT_TYPE_FMT, IPC_CLIENT_TYPE_RFS}" "fd = shd (w_open w)"
  shows "\<exists>w'. i9300_open (Some a) type w = (if fd < 0 then Fail else Done (), w') \<and>
    w_trace w' = w_trace w @ (if fd < 0 then [] else [EvOpen (ipc_device_path type) fd]) \<and>
    w_heap w' = (w_heap w)(a \<mapsto> if fd < 0 then -1 else fd)"
proof -
  have ty: "xmm626_kernel_smdk4412_open type = sys_open (ipc_device_path type)"
    using assms(2) by (auto simp: xmm626_kernel_smdk4412_open_def ipc_device_path_def IPC_CLIENT_TYPE_FMT_def IPC_CLIENT_TYPE_RFS_def)
  from assms(1) obtain v where "w_heap w a = Some v" by blast
  with assms(3) show ?thesis
    by (cases "fd < 0") (simp_all add: i9300_open_def ty bnd_def sys_open_def Let_def heap_set_def check_eq)
qed

lemma i9300_close_steps:
  assumes "w_heap w a = Some fd"
  shows "\<exists>w'. i9300_close (Some a) w = (Done (), w') \<and>
    w_trace w' = w_trace w @ (if fd < 0 then [] else [EvClose fd]) \<and> w_heap w' = (w_heap w)(a \<mapsto> -1)"
  using assms by (cases "fd < 0") (simp_all add: i9300_close_def bnd_def heap_get_def try_rc_def
      xmm626_kernel_smdk4412_close_def fail_eq sys_close_def emit_def heap_set_def)

text \<open>
  C32: on all six devices, a client that creates its data, opens its device, closes it and destroys its
  data ends well whether the device could be opened or not: opening reports which, the descriptor
  is closed just when there is one, and the heap is what it was.
\<close>

theorem device_session:
  assumes "cl_handlers c = Some h" "h \<in> smdk4412_handlers" "cl_type c \<in> {IPC_CLIENT_TYPE_FMT, IPC_CLIENT_TYPE_RFS}"
    and "w_heap w (w_next w) = None" and fd_def: "fd = shd (w_open w)"
  shows "\<exists>c1 w1 w2 w3 w4. ipc_client_data_create (Some c) w = (Done c1, w1) \<and>
     ipc_client_open (Some c1) w1 = (if fd < 0 then Fail else Done (), w2) \<and>
     ipc_client_close (Some c1) w2 = (Done (), w3) \<and> ipc_client_data_destroy (Some c1) w3 = (Done (), w4) \<and>
     w_trace w4 = w_trace w @ (if fd < 0 then [] else [EvOpen (ipc_device_path (cl_type c)) fd, EvClose fd]) \<and>
     w_heap w4 = w_heap w"
proof -
  let ?a = "w_next w"
  let ?c1 = "c\<lparr>cl_handlers := Some (i9300_handlers\<lparr>h_data := slot_set TransportSlot (Some ?a) (h_data i9300_handlers)\<rparr>)\<rparr>"
  have h: "cl_handlers c = Some i9300_handlers" using assms(1) smdk4412_handlers_i9300 [OF assms(2)] by simp
  have sel: "h_data_create i9300_handlers = Some i9300_data_create" "h_open i9300_handlers = Some i9300_open"
    "h_close i9300_handlers = Some i9300_close" "h_data_destroy i9300_handlers = Some i9300_data_destroy"
    by (simp_all add: i9300_handlers_def)
  obtain w1 where w1: "ipc_client_data_create (Some c) w = (Done ?c1, w1)" "w_heap w1 = (w_heap w)(?a \<mapsto> 0)"
      "w_open w1 = w_open w" "w_trace w1 = w_trace w"
    by (simp add: ipc_client_data_create_def h sel i9300_data_create_def bnd_def heap_calloc_def ret_eq)
  obtain w2 where w2: "i9300_open (Some ?a) (cl_type c) w1 = (if fd < 0 then Fail else Done (), w2)"
      "w_trace w2 = w_trace w1 @ (if fd < 0 then [] else [EvOpen (ipc_device_path (cl_type c)) fd])"
      "w_heap w2 = (w_heap w1)(?a \<mapsto> if fd < 0 then -1 else fd)"
    using i9300_open_steps [of w1 ?a "cl_type c" fd] w1 assms(3) fd_def by auto
  obtain w3 where w3: "i9300_close (Some ?a) w2 = (Done (), w3)" "w_heap w3 = (w_heap w2)(?a \<mapsto> -1)"
      "w_trace w3 = w_trace w2 @ (if fd < 0 then [] else [EvClose fd])"
    using i9300_close_steps [of w2 ?a "if fd < 0 then -1 else fd"] w2(3) by (auto split: if_splits)
  obtain w4 where w4: "i9300_data_destroy (Some ?a) None None w3 = (Done (), w4)" "w_heap w4 = (w_heap w3)(?a := None)"
      "w_trace w4 = w_trace w3"
    using w3(2) by (simp add: i9300_data_destroy_def heap_free_def)
  have "w_heap w4 = w_heap w" using assms(4) by (simp add: w4(2) w3(2) w2(3) w1(2) fun_eq_iff)
  moreover have "w_trace w4 = w_trace w @ (if fd < 0 then [] else [EvOpen (ipc_device_path (cl_type c)) fd, EvClose fd])"
    using w1(4) w2(2) w3(3) w4(3) by simp
  moreover have "ipc_client_open (Some ?c1) = i9300_open (Some ?a) (cl_type c)"
    "ipc_client_close (Some ?c1) = i9300_close (Some ?a)"
    "ipc_client_data_destroy (Some ?c1) = i9300_data_destroy (Some ?a) None None"
    by (simp_all add: ipc_client_open_def ipc_client_close_def ipc_client_data_destroy_def client_handler_def sel,
        simp_all add: i9300_handlers_def)
  ultimately show ?thesis using w1(1) w2(1) w3(1) w4(1) by auto
qed

text \<open>
  On all six devices, turning the modem off opens the boot device, makes one request to it and
  closes it, and reports an error just when one of the first two fails.
\<close>

theorem device_power_off:
  assumes "cl_handlers c = Some h" "h \<in> smdk4412_handlers" and fd_def: "fd = shd (w_open w)"
  shows "\<exists>w'. ipc_client_power_off (Some c) w = (if fd < 0 \<or> shd (w_ioc w) < 0 then Fail else Done (), w') \<and>
     w_trace w' = w_trace w @ (if fd < 0 then []
       else [EvOpen ''/dev/umts_boot0'' fd, EvIoctl fd IOCTL_MODEM_OFF 0, EvClose fd])"
proof -
  have h: "cl_handlers c = Some i9300_handlers" using assms(1) smdk4412_handlers_i9300 [OF assms(2)] by simp
  have sel: "h_power_off i9300_handlers = Some i9300_power_off" by (simp add: i9300_handlers_def)
  show ?thesis
    unfolding fd_def
    by (simp add: ipc_client_power_off_def client_handler_def h sel i9300_power_off_def bnd_def sys_open_def Let_def
        try_rc_def xmm626_kernel_smdk4412_power_def sys_ioctl_def check_eq sys_close_def emit_def fail_eq)
qed

definition demo_client :: "ipc_client_handlers \<Rightarrow> ipc_client" where
  "demo_client h = zero_client\<lparr>cl_type := IPC_CLIENT_TYPE_RFS, cl_handlers := Some h\<rparr>"

definition demo_devices :: world where
  "demo_devices = demo_world\<lparr>w_open := 5 ## sconst 6, w_ioc := sconst 0, w_trace := [], w_heap := (\<lambda>a. None)\<rparr>"

theorem device_session_witness:
  "\<exists>c1 w1 w2 w3 w4. ipc_client_data_create (Some (demo_client maguro_handlers)) demo_devices = (Done c1, w1) \<and>
     ipc_client_open (Some c1) w1 = (Done (), w2) \<and> ipc_client_close (Some c1) w2 = (Done (), w3) \<and>
     ipc_client_data_destroy (Some c1) w3 = (Done (), w4) \<and>
     w_trace w4 = [EvOpen ''/dev/umts_rfs0'' 5, EvClose 5] \<and> w_heap w4 = (\<lambda>a. None)"
proof -
  have "cl_handlers (demo_client maguro_handlers) = Some maguro_handlers" "maguro_handlers \<in> smdk4412_handlers"
    "cl_type (demo_client maguro_handlers) \<in> {IPC_CLIENT_TYPE_FMT, IPC_CLIENT_TYPE_RFS}"
    "w_heap demo_devices (w_next demo_devices) = None" "5 = shd (w_open demo_devices)"
    by (simp_all add: demo_client_def smdk4412_handlers_def demo_devices_def)
  from device_session [OF this]
  have "\<exists>c1 w1 w2 w3 w4. ipc_client_data_create (Some (demo_client maguro_handlers)) demo_devices = (Done c1, w1) \<and>
     ipc_client_open (Some c1) w1 = (Done (), w2) \<and> ipc_client_close (Some c1) w2 = (Done (), w3) \<and>
     ipc_client_data_destroy (Some c1) w3 = (Done (), w4) \<and>
     w_trace w4 = w_trace demo_devices @ [EvOpen (ipc_device_path (cl_type (demo_client maguro_handlers))) 5, EvClose 5] \<and>
     w_heap w4 = w_heap demo_devices"
    by simp
  moreover have "ipc_device_path (cl_type (demo_client maguro_handlers)) = ''/dev/umts_rfs0''"
    "w_trace demo_devices = []" "w_heap demo_devices = (\<lambda>a. None)"
    by (simp_all add: demo_client_def ipc_device_path_def IPC_CLIENT_TYPE_FMT_def IPC_CLIENT_TYPE_RFS_def demo_devices_def)
  ultimately show ?thesis by (simp only: append_Nil)
qed

theorem device_power_off_witness:
  "\<exists>w'. ipc_client_power_off (Some (demo_client galaxys2_handlers)) demo_devices = (Done (), w') \<and>
     w_trace w' = [EvOpen ''/dev/umts_boot0'' 5, EvIoctl 5 0x6f20 0, EvClose 5]"
  using device_power_off [of "demo_client galaxys2_handlers" galaxys2_handlers 5 demo_devices]
  by (simp add: demo_client_def demo_devices_def smdk4412_handlers_def IOCTL_MODEM_OFF_def IO_o_def)

end
