(* ===== verification/MipiBoot.thy ===== *)
theory MipiBoot
  imports Boot Mipi Devices "HOL-Library.Multiset"
begin

text \<open>
  Booting the XMM626 modem over MIPI: \<open>maguro_boot\<close> and \<open>piranha_boot\<close> of devices/maguro/maguro.c
  and devices/piranha/piranha.c. The two functions are the same text up to the layout of the image
  and two passages of \<open>maguro_boot\<close>, the MPS data and the end, which are parameters here.

  After the PSI the modem answers on another device: the boot descriptor is closed and opened anew.
\<close>

section \<open>Definitions\<close>

text \<open>From turning the modem off to the PSI, on the first boot device.\<close>

definition mipi_first ::
  "boot_image \<Rightarrow> client_env option \<Rightarrow> int \<Rightarrow> u8 list \<Rightarrow> unit io" where
  "mipi_first img client modem_boot_fd mem =
     bnd (xmm626_kernel_smdk4412_power modem_boot_fd 0) (\<lambda>_.
     bnd (xmm626_kernel_smdk4412_power modem_boot_fd 1) (\<lambda>_.
     xmm626_mipi_psi_send client modem_boot_fd (Some (drop (bi_psi_offset img) mem)) (bi_psi_size img)))"

text \<open>The stages on the second one.\<close>

definition mipi_load ::
  "boot_image \<Rightarrow> (client_env option \<Rightarrow> int \<Rightarrow> unit io) \<Rightarrow> (int \<Rightarrow> unit io) \<Rightarrow> (u8 list \<Rightarrow> u8 list) \<Rightarrow>
   client_env option \<Rightarrow> int \<Rightarrow> u8 list \<Rightarrow> unit io" where
  "mipi_load img mps finish md5 client modem_boot_fd mem =
     bnd (image_part (bi_ebl_offset img) (bi_ebl_size img) mem) (\<lambda>ebl.
     bnd (xmm626_mipi_ebl_send client modem_boot_fd (Some ebl)) (\<lambda>_.
     bnd (xmm626_mipi_port_config_send client modem_boot_fd) (\<lambda>_.
     bnd (image_part (bi_sec_start_offset img) (bi_sec_start_size img) mem) (\<lambda>sec.
     bnd (xmm626_mipi_sec_start_send client modem_boot_fd (Some sec)) (\<lambda>_.
     bnd (image_part (bi_firmware_offset img) (bi_firmware_size img) mem) (\<lambda>firmware.
     bnd (xmm626_mipi_firmware_send client modem_boot_fd (Some firmware)) (\<lambda>_.
     bnd (xmm626_mipi_nv_data_send md5 client modem_boot_fd) (\<lambda>_.
     bnd (mps client modem_boot_fd) (\<lambda>_.
     bnd (xmm626_mipi_sec_end_send client modem_boot_fd) (\<lambda>_.
     bnd (xmm626_mipi_hw_reset_send client modem_boot_fd) (\<lambda>_.
     finish modem_boot_fd)))))))))))"

text \<open>
  The descriptor \<open>fd\<close> is the one \<open>modem_boot_fd\<close> holds at the label \<open>complete\<close>: the first when the
  first steps failed, else what opening the second device returned.
\<close>

definition mipi_boot ::
  "boot_image \<Rightarrow> (client_env option \<Rightarrow> int \<Rightarrow> unit io) \<Rightarrow> (int \<Rightarrow> unit io) \<Rightarrow> (u8 list \<Rightarrow> u8 list) \<Rightarrow>
   client_env option \<Rightarrow> unit io" where
  "mipi_boot img mps finish md5 client =
     (if client = None then fail
      else
        bnd (sys_open (bi_device img)) (\<lambda>modem_image_fd.
        bnd (if modem_image_fd < 0 then ret None else sys_mmap (bi_device img) (bi_size img)) (\<lambda>modem_image_data.
        bnd (if modem_image_data = None then ret (-1) else sys_open ''/dev/umts_boot0'') (\<lambda>modem_boot_fd.
        bnd (try_rc (if modem_boot_fd < 0 then fail
             else mipi_first img client modem_boot_fd (the modem_image_data))) (\<lambda>rc.
        bnd (if rc < 0 then ret modem_boot_fd
             else bnd (sys_close modem_boot_fd) (\<lambda>_. sys_open ''/dev/umts_boot1'')) (\<lambda>fd.
        complete
          (if rc < 0 \<or> fd < 0 then fail
           else mipi_load img mps finish md5 client fd (the modem_image_data))
          (bnd (close_valid modem_image_fd) (\<lambda>_. close_valid fd))))))))"

definition maguro_image :: boot_image where
  "maguro_image = \<lparr>bi_device = ''dev/block/platform/omap/omap_hsmmc.0/by-name/radio'', bi_size = 0x1000000,
     bi_psi_offset = 0, bi_psi_size = 0xF000, bi_ebl_offset = 0xF000, bi_ebl_size = 0x19000,
     bi_sec_start_offset = 0x9FF800, bi_sec_start_size = 0x800,
     bi_firmware_offset = 0x28000, bi_firmware_size = 0x9D8000\<rparr>"

definition piranha_image :: boot_image where
  "piranha_image = \<lparr>bi_device = ''/dev/block/mmcblk0p8'', bi_size = 0x1400000,
     bi_psi_offset = 0x1000, bi_psi_size = 0xE000, bi_ebl_offset = 0xF000, bi_ebl_size = 0x19000,
     bi_sec_start_offset = 0x9FF800, bi_sec_start_size = 0x800,
     bi_firmware_offset = 0x28000, bi_firmware_size = 0x9D7800\<rparr>"

definition maguro_mps :: "client_env option \<Rightarrow> int \<Rightarrow> unit io" where
  "maguro_mps client modem_boot_fd =
     bnd (file_data_read (Some ''/factory/imei/mps_code.dat'') 3 3 0) (\<lambda>mps_data.
     xmm626_mipi_mps_data_send client modem_boot_fd (Some mps_data))"

definition maguro_finish :: "int \<Rightarrow> unit io" where
  "maguro_finish modem_boot_fd =
     bnd (xmm626_kernel_smdk4412_status_online_wait modem_boot_fd) (\<lambda>_.
     xmm626_kernel_smdk4412_boot_power modem_boot_fd 0)"

definition maguro_boot :: "(u8 list \<Rightarrow> u8 list) \<Rightarrow> client_env option \<Rightarrow> unit io" where
  "maguro_boot md5 client = mipi_boot maguro_image maguro_mps maguro_finish md5 client"

definition piranha_boot :: "(u8 list \<Rightarrow> u8 list) \<Rightarrow> client_env option \<Rightarrow> unit io" where
  "piranha_boot md5 client = mipi_boot piranha_image (\<lambda>client fd. ret ()) (\<lambda>fd. ret ()) md5 client"

definition maguro_fmt_ops :: "(u8 list \<Rightarrow> u8 list) \<Rightarrow> ipc_client_ops" where
  "maguro_fmt_ops md5 = \<lparr>op_boot = Some (\<lambda>client. maguro_boot md5 (Some client)),
     op_send = Some xmm626_kernel_smdk4412_fmt_send, op_recv = Some xmm626_kernel_smdk4412_fmt_recv\<rparr>"

definition piranha_fmt_ops :: "(u8 list \<Rightarrow> u8 list) \<Rightarrow> ipc_client_ops" where
  "piranha_fmt_ops md5 = \<lparr>op_boot = Some (\<lambda>client. piranha_boot md5 (Some client)),
     op_send = Some xmm626_kernel_smdk4412_fmt_send, op_recv = Some xmm626_kernel_smdk4412_fmt_recv\<rparr>"

section \<open>Events\<close>

lemma adds_finish [adds_intros]:
  "adds transfer (maguro_finish fd)" "adds (\<lambda>e. sent_by f e = []) (maguro_finish fd)"
  by (auto simp: maguro_finish_def xmm626_kernel_smdk4412_status_online_wait_def
      xmm626_kernel_smdk4412_boot_power_def intro!: adds_intros)

lemma adds_mps [adds_intros]: "adds transfer (maguro_mps client fd)"
  by (auto simp: maguro_mps_def intro!: adds_intros)

text \<open>The two passages, of both devices.\<close>

definition mipi_passages :: "((client_env option \<Rightarrow> int \<Rightarrow> unit io) \<times> (int \<Rightarrow> unit io)) set" where
  "mipi_passages = {(maguro_mps, maguro_finish), (\<lambda>client fd. ret (), \<lambda>fd. ret ())}"

lemma adds_mipi_first [adds_intros]: "adds transfer (mipi_first img client fd mem)"
  by (auto simp: mipi_first_def intro!: adds_intros)

lemma adds_mipi_load: "(mps, finish) \<in> mipi_passages \<Longrightarrow> adds transfer (mipi_load img mps finish md5 client fd mem)"
  by (auto simp: mipi_load_def image_part_def mipi_passages_def intro!: adds_intros)

text \<open>
  However booting ends: up to three descriptors are opened, the first of the boot device is closed
  before the second is opened, and the others at the end.
\<close>

lemma close_two_shape:
  "bnd (close_valid f1) (\<lambda>_. close_valid f2) w = (Done (), w\<lparr>w_trace := w_trace w @ closes f1 @ closes f2\<rparr>)"
  by (simp add: bnd_def close_valid_shape)

lemma mipi_boot_shape:
  assumes "mipi_boot img mps finish md5 (Some c) w = (r, w')" "r \<noteq> Undef"
  obtains fi f0 w1 r1 w2 where
    "w_trace w1 = w_trace w @ opens (bi_device img) fi @ opens ''/dev/umts_boot0'' f0" "w_files w1 = w_files w"
    "r1 \<noteq> Undef"
    "if f0 < 0 then r1 = Fail \<and> w2 = w1
     else 0 \<le> fi \<and> mipi_first img (Some c) f0 (take (bi_size img) (file_of w (bi_device img))) w1 = (r1, w2)"
    "r1 = Fail \<longrightarrow> r = Fail \<and> w' = w2\<lparr>w_trace := w_trace w2 @ closes fi @ closes f0\<rparr>"
    "r1 = Done () \<longrightarrow> (\<exists>f1 w3 r4 w4. w_trace w3 = w_trace w2 @ [EvClose f0] @ opens ''/dev/umts_boot1'' f1 \<and>
       w_files w3 = w_files w2 \<and> (if f1 < 0 then r4 = Fail \<and> w4 = w3
        else mipi_load img mps finish md5 (Some c) f1 (take (bi_size img) (file_of w (bi_device img))) w3 = (r4, w4)) \<and>
       r4 \<noteq> Undef \<and> (r = Done () \<longleftrightarrow> r4 = Done ()) \<and> w' = w4\<lparr>w_trace := w_trace w4 @ closes fi @ closes f1\<rparr>)"
proof -
  let ?mem = "take (bi_size img) (file_of w (bi_device img))"
  obtain fi v1 where o1: "sys_open (bi_device img) w = (Done fi, v1)"
      "w_trace v1 = w_trace w @ opens (bi_device img) fi" "w_files v1 = w_files w"
    using sys_open_shape by blast
  obtain mem v2 where m: "(if fi < 0 then ret None else sys_mmap (bi_device img) (bi_size img)) v1 = (Done mem, v2)"
      "fi < 0 \<longrightarrow> mem = None" "mem = None \<or> mem = Some (take (bi_size img) (file_of v1 (bi_device img)))"
      "w_trace v2 = w_trace v1" "w_files v2 = w_files v1"
    using mmap_if_shape by blast
  obtain f0 v3 where o2: "(if mem = None then ret (-1) else sys_open ''/dev/umts_boot0'') v2 = (Done f0, v3)"
      "mem = None \<longrightarrow> f0 = -1" "w_trace v3 = w_trace v2 @ opens ''/dev/umts_boot0'' f0" "w_files v3 = w_files v2"
    using open_if_shape by blast
  have f: "file_of v1 (bi_device img) = file_of w (bi_device img)" using o1(3) by (simp add: file_of_def)
  have mem: "0 \<le> f0 \<Longrightarrow> mem = Some ?mem \<and> 0 \<le> fi" using m(2,3) o2(2) f by fastforce
  let ?first = "if f0 < 0 then fail else mipi_first img (Some c) f0 (the mem)"
  obtain r1 w2 where first: "?first v3 = (r1, w2)" by fastforce
  let ?next = "\<lambda>rc :: int. bnd (if rc < 0 then ret f0 else bnd (sys_close f0) (\<lambda>_. sys_open ''/dev/umts_boot1'')) (\<lambda>fd.
        complete (if rc < 0 \<or> fd < 0 then fail else mipi_load img mps finish md5 (Some c) fd (the mem))
          (bnd (close_valid fi) (\<lambda>_. close_valid fd)))"
  have b1: "bnd (sys_open (bi_device img)) g w = g fi v1" for g :: "int \<Rightarrow> unit io"
    by (rule bnd_Done, rule o1(1))
  have b2: "bnd (if fi < 0 then ret None else sys_mmap (bi_device img) (bi_size img)) g v1 = g mem v2"
    for g :: "u8 list option \<Rightarrow> unit io" by (rule bnd_Done, rule m(1))
  have b3: "bnd (if mem = None then ret (-1) else sys_open ''/dev/umts_boot0'') g v2 = g f0 v3"
    for g :: "int \<Rightarrow> unit io" by (rule bnd_Done, rule o2(1))
  have run: "bnd (try_rc ?first) ?next v3 = (r, w')"
    using assms(1) unfolding mipi_boot_def by (simp only: option.simps if_False b1 b2 b3)
  have nu: "r1 \<noteq> Undef" using run first assms(2) by (auto simp: bnd_def try_rc_def)
  show ?thesis
  proof (rule that [of v3 fi f0 r1 w2])
    show "w_trace v3 = w_trace w @ opens (bi_device img) fi @ opens ''/dev/umts_boot0'' f0" "w_files v3 = w_files w"
      using o1 m o2 by simp_all
    show "if f0 < 0 then r1 = Fail \<and> w2 = v3 else 0 \<le> fi \<and> mipi_first img (Some c) f0 ?mem v3 = (r1, w2)"
      using first mem by (auto simp: fail_eq split: if_splits)
    show "r1 = Fail \<longrightarrow> r = Fail \<and> w' = w2\<lparr>w_trace := w_trace w2 @ closes fi @ closes f0\<rparr>"
    proof
      assume that: "r1 = Fail"
      have "bnd (try_rc ?first) g v3 = g (-1) w2" for g :: "int \<Rightarrow> unit io"
        by (rule bnd_Done) (simp add: try_rc_def first that)
      from this [of ?next] have "bnd (try_rc ?first) ?next v3 = ?next (-1) w2" .
      also have "\<dots> = complete fail (bnd (close_valid fi) (\<lambda>_. close_valid f0)) w2"
        by (simp add: bnd_def ret_eq)
      also have "\<dots> = (Fail, w2\<lparr>w_trace := w_trace w2 @ closes fi @ closes f0\<rparr>)"
        by (simp add: complete_def try_rc_def bnd_def fail_eq close_valid_shape check_eq)
      finally show "r = Fail \<and> w' = w2\<lparr>w_trace := w_trace w2 @ closes fi @ closes f0\<rparr>" using run by simp
    qed
    show "r1 = Done () \<longrightarrow> (\<exists>f1 w3 r4 w4. w_trace w3 = w_trace w2 @ [EvClose f0] @ opens ''/dev/umts_boot1'' f1 \<and>
       w_files w3 = w_files w2 \<and> (if f1 < 0 then r4 = Fail \<and> w4 = w3
        else mipi_load img mps finish md5 (Some c) f1 ?mem w3 = (r4, w4)) \<and>
       r4 \<noteq> Undef \<and> (r = Done () \<longleftrightarrow> r4 = Done ()) \<and> w' = w4\<lparr>w_trace := w_trace w4 @ closes fi @ closes f1\<rparr>)"
    proof
      assume r1: "r1 = Done ()"
      have f0: "\<not> f0 < 0" using first r1 by (auto simp: fail_eq)
      define v4 where "v4 = w2\<lparr>w_trace := w_trace w2 @ [EvClose f0]\<rparr>"
      obtain f1 w3 where o3: "sys_open ''/dev/umts_boot1'' v4 = (Done f1, w3)"
          "w_trace w3 = w_trace v4 @ opens ''/dev/umts_boot1'' f1" "w_files w3 = w_files v4"
        using sys_open_shape by blast
      have "bnd (try_rc ?first) g v3 = g 0 w2" for g :: "int \<Rightarrow> unit io"
        by (rule bnd_Done) (simp add: try_rc_def first r1)
      from this [of ?next] have "bnd (try_rc ?first) ?next v3 = ?next 0 w2" .
      also have "\<dots> = complete (if f1 < 0 then fail else mipi_load img mps finish md5 (Some c) f1 (the mem))
          (bnd (close_valid fi) (\<lambda>_. close_valid f1)) w3"
        using o3(1) by (simp add: bnd_def sys_close_def emit_def v4_def)
      finally have "complete (if f1 < 0 then fail else mipi_load img mps finish md5 (Some c) f1 (the mem))
          (bnd (close_valid fi) (\<lambda>_. close_valid f1)) w3 = (r, w')" using run by simp
      from complete_shape [OF this close_two_shape assms(2)] obtain r4 w4 where
        "(if f1 < 0 then fail else mipi_load img mps finish md5 (Some c) f1 (the mem)) w3 = (r4, w4)" "r4 \<noteq> Undef"
        "r = Done () \<longleftrightarrow> r4 = Done ()" "w' = w4\<lparr>w_trace := w_trace w4 @ closes fi @ closes f1\<rparr>" .
      then show "\<exists>f1 w3 r4 w4. w_trace w3 = w_trace w2 @ [EvClose f0] @ opens ''/dev/umts_boot1'' f1 \<and>
       w_files w3 = w_files w2 \<and> (if f1 < 0 then r4 = Fail \<and> w4 = w3
        else mipi_load img mps finish md5 (Some c) f1 ?mem w3 = (r4, w4)) \<and>
       r4 \<noteq> Undef \<and> (r = Done () \<longleftrightarrow> r4 = Done ()) \<and> w' = w4\<lparr>w_trace := w_trace w4 @ closes fi @ closes f1\<rparr>"
        using o3 mem f0 by (intro exI [of _ f1] exI [of _ w3] exI [of _ r4] exI [of _ w4]) (auto simp: v4_def fail_eq split: if_splits)
    qed
  qed (rule nu)
qed


section \<open>What the modem is loaded with\<close>

text \<open>The bytes a descriptor takes during a stretch of the trace.\<close>

definition written :: "int \<Rightarrow> event list \<Rightarrow> u8 list" where
  "written fd es = concat (map (sent_by fd) es)"

lemma written_trace: "w_trace w' = w_trace w @ es \<Longrightarrow> sent fd w' = sent fd w @ out \<Longrightarrow> written fd es = out"
  by (simp add: written_def sent_def)

text \<open>The MPS data is sent as a stage of its own, by maguro only.\<close>

definition mps_bytes :: "bool \<Rightarrow> (string \<Rightarrow> u8 list option) \<Rightarrow> u8 list \<Rightarrow> bool" where
  "mps_bytes has_mps fs out \<longleftrightarrow> (if has_mps
     then \<exists>mps cs. fs ''/factory/imei/mps_code.dat'' = Some mps \<and> 3 \<le> length mps \<and> blocks_of 0xDF2 cs (take 3 mps) \<and>
       out = mipi_data_stage 0x61080000 cs
     else out = [])"

definition mipi_boot_bytes ::
  "boot_image \<Rightarrow> bool \<Rightarrow> u8 list \<Rightarrow> u8 list \<Rightarrow> (string \<Rightarrow> u8 list option) \<Rightarrow> u8 list \<Rightarrow> bool" where
  "mipi_boot_bytes img has_mps mem nv fs out \<longleftrightarrow> (\<exists>ebl config sec firmware fcs ncs mps.
     blocks_of 0xDF2 fcs firmware \<and> blocks_of 0xDF2 ncs nv \<and> mps_bytes has_mps fs mps \<and>
     part_of (bi_ebl_offset img) (bi_ebl_size img) mem ebl \<and>
     part_of (bi_sec_start_offset img) (bi_sec_start_size img) mem sec \<and>
     part_of (bi_firmware_offset img) (bi_firmware_size img) mem firmware \<and>
     out = mipi_ebl_stage ebl @ mipi_frame 0x86 False config @ mipi_frame 0x204 False sec @
       mipi_data_stage XMM626_FIRMWARE_ADDRESS fcs @ mipi_data_stage XMM626_NV_DATA_ADDRESS ncs @ mps @
       mipi_frame 0x205 True [0, 0] @ mipi_frame 0x208 True [0x01, 0x10, 0x11, 0])"

definition mipi_psi_bytes :: "boot_image \<Rightarrow> u8 list \<Rightarrow> u8 list \<Rightarrow> bool" where
  "mipi_psi_bytes img mem out \<longleftrightarrow> (\<exists>k psi. 1 \<le> k \<and> k \<le> 51 \<and>
     part_of (bi_psi_offset img) (unat (bi_psi_size img)) mem psi \<and> out = mipi_psi_stage psi k)"

lemma files_keep:
  "unchanged w_files m \<Longrightarrow> m w = (r, w') \<Longrightarrow> w_files w' = w_files w"
  by (rule unchangedD)

lemma mipi_first_Done:
  assumes "mipi_first img (Some c) fd mem w = (Done u, w')" "bi_psi_size img \<noteq> 0"
  shows "\<exists>out. mipi_psi_bytes img mem out \<and> sent fd w' = sent fd w @ out"
proof -
  obtain u1 w1 u2 w2 where
    s1: "xmm626_kernel_smdk4412_power fd 0 w = (Done u1, w1)" and
    s2: "xmm626_kernel_smdk4412_power fd 1 w1 = (Done u2, w2)" and
    s3: "xmm626_mipi_psi_send (Some c) fd (Some (drop (bi_psi_offset img) mem)) (bi_psi_size img) w2 = (Done u, w')"
    using assms(1) unfolding mipi_first_def bnd_eq_Done by blast
  have "adds (\<lambda>e. sent_by fd e = []) (xmm626_kernel_smdk4412_power fd v)" for v by (intro adds_intros) simp
  from adds_sent [OF this s1] adds_sent [OF this s2] have quiet: "sent fd w2 = sent fd w" by simp
  obtain k psi where e: "sent fd w' = sent fd w2 @ mipi_psi_stage psi k" "1 \<le> k" "k \<le> 51"
      "psi = take (unat (bi_psi_size img)) (drop (bi_psi_offset img) mem)" "length psi = unat (bi_psi_size img)"
    using emitsD [OF emits_mipi_psi_send s3] by blast
  then have "part_of (bi_psi_offset img) (unat (bi_psi_size img)) mem psi"
    using unat_gt_0 [of "bi_psi_size img"] assms(2) by (auto simp: part_of_def min_def split: if_splits)
  with e quiet show ?thesis unfolding mipi_psi_bytes_def by metis
qed

definition mipi_devices ::
  "(((u8 list \<Rightarrow> u8 list) \<Rightarrow> client_env option \<Rightarrow> unit io) \<times> boot_image \<times> bool) set" where
  "mipi_devices = {(maguro_boot, maguro_image, True), (piranha_boot, piranha_image, False)}"

lemma passages_Done:
  assumes "(has_mps, mps, finish) \<in> {(True, maguro_mps, maguro_finish), (False, \<lambda>client fd. ret (), \<lambda>fd. ret ())}"
  shows "mps client fd w = (Done u, w') \<Longrightarrow> w_files w' = w_files w \<and> (\<exists>out. mps_bytes has_mps (w_files w) out \<and> sent fd w' = sent fd w @ out)"
    and "finish fd w = (Done u, w') \<Longrightarrow> w_files w' = w_files w \<and> sent fd w' = sent fd w"
proof -
  have blind: "device_blind w_files" by (simp add: device_blind_def)
  show "finish fd w = (Done u, w') \<Longrightarrow> w_files w' = w_files w \<and> sent fd w' = sent fd w"
  proof -
    assume f: "finish fd w = (Done u, w')"
    have io: "keeps {} (sys_ioctl fd request arg)" for fd request arg
      by (auto simp: keeps_def sys_ioctl_def)
    have wait: "keeps {} (ioctl_wait n fd request wanted)" for n fd request wanted
      by (induction n) (auto intro!: keeps_intros io)
    have "keeps {} (maguro_finish fd)"
      by (auto simp: maguro_finish_def xmm626_kernel_smdk4412_status_online_wait_def
          xmm626_kernel_smdk4412_boot_power_def intro!: keeps_intros io wait)
    with assms f show ?thesis
      using keeps_empty adds_sent [OF adds_finish(2), of fd w] by (auto simp: ret_eq)
  qed
  show "mps client fd w = (Done u, w') \<Longrightarrow> w_files w' = w_files w \<and>
      (\<exists>out. mps_bytes has_mps (w_files w) out \<and> sent fd w' = sent fd w @ out)"
  proof (cases has_mps)
    case False
    assume "mps client fd w = (Done u, w')"
    with assms False show ?thesis by (auto simp: ret_eq mps_bytes_def)
  next
    case True
    assume m: "mps client fd w = (Done u, w')"
    with assms True have "maguro_mps client fd w = (Done u, w')" by auto
    then obtain data w1 where rd: "file_data_read (Some ''/factory/imei/mps_code.dat'') 3 3 0 w = (Done data, w1)"
      and sd: "xmm626_mipi_mps_data_send client fd (Some data) w1 = (Done u, w')"
      unfolding maguro_mps_def bnd_eq_Done by blast
    have "xmm626_mipi_modem_data_send fd (Some data) XMM626_MPS_DATA_ADDRESS w1 = (Done u, w')"
      using sd by (auto simp: xmm626_mipi_mps_data_send_def fail_eq split: option.splits if_splits)
    from emitsD [OF emits_mipi_modem_data_send this] obtain cs where
      cs: "blocks_of 0xDF2 cs data" "sent fd w' = sent fd w1 @ mipi_data_stage 0x61080000 cs"
      by (auto simp: XMM626_MPS_DATA_ADDRESS_def)
    have "sent fd w1 = sent fd w"
      using unchangedD [OF stable_files(1) [OF trace_stable, THEN unchanged_stable] rd] by (simp add: sent_def)
    moreover have "w_files w1 = w_files w" by (rule keeps_empty [OF keeps_file_data_read rd])
    moreover have "w_files w' = w_files w1" by (rule unchangedD [OF unchanged_mipi_stages(8) [OF blind] sd])
    ultimately show ?thesis
      using cs file_data_read_Done [OF rd] True by (auto simp: mps_bytes_def file_of_def split: option.splits)
  qed
qed


lemma mipi_load_Done:
  assumes cfg: "nv_configured c p m bp bm secret sz ck"
    and dev: "(has_mps, mps, finish) \<in> {(True, maguro_mps, maguro_finish), (False, \<lambda>client fd. ret (), \<lambda>fd. ret ())}"
    and load: "mipi_load img mps finish md5 (Some c) fd mem w = (Done u, w')"
  shows "\<exists>nv out. mipi_boot_bytes img has_mps mem nv (w_files w') out \<and> sent fd w' = sent fd w @ out \<and>
    w_files w' p = Some nv \<and> nv_valid md5 secret sz (w_files w') p m"
proof -
  obtain ebl w2 u3 w3 u4 w4 sec w5 u6 w6 firmware w7 u8 w8 u9 w9 u10 w10 u11 w11 u12 w12 where
    s2: "image_part (bi_ebl_offset img) (bi_ebl_size img) mem w = (Done ebl, w2)" and
    s3: "xmm626_mipi_ebl_send (Some c) fd (Some ebl) w2 = (Done u3, w3)" and
    s4: "xmm626_mipi_port_config_send (Some c) fd w3 = (Done u4, w4)" and
    s5: "image_part (bi_sec_start_offset img) (bi_sec_start_size img) mem w4 = (Done sec, w5)" and
    s6: "xmm626_mipi_sec_start_send (Some c) fd (Some sec) w5 = (Done u6, w6)" and
    s7: "image_part (bi_firmware_offset img) (bi_firmware_size img) mem w6 = (Done firmware, w7)" and
    s8: "xmm626_mipi_firmware_send (Some c) fd (Some firmware) w7 = (Done u8, w8)" and
    s9: "xmm626_mipi_nv_data_send md5 (Some c) fd w8 = (Done u9, w9)" and
    s10: "mps (Some c) fd w9 = (Done u10, w10)" and
    s11: "xmm626_mipi_sec_end_send (Some c) fd w10 = (Done u11, w11)" and
    s12: "xmm626_mipi_hw_reset_send (Some c) fd w11 = (Done u12, w12)" and
    s13: "finish fd w12 = (Done u, w')"
    using load unfolding mipi_load_def bnd_eq_Done by (elim exE conjE) (rule that; assumption)
  note p2 = image_part_Done [OF s2] and p5 = image_part_Done [OF s5] and p7 = image_part_Done [OF s7]
  have e3: "sent fd w3 = sent fd w2 @ mipi_ebl_stage ebl" using emitsD [OF emits_mipi_ebl_send s3] by blast
  obtain config where e4: "sent fd w4 = sent fd w3 @ mipi_frame 0x86 False config"
    using emitsD [OF emits_mipi_port_config s4] by blast
  have e6: "sent fd w6 = sent fd w5 @ mipi_frame 0x204 False sec" using emitsD [OF emits_mipi_commands(1) s6] by blast
  have "xmm626_mipi_modem_data_send fd (Some firmware) XMM626_FIRMWARE_ADDRESS w7 = (Done u8, w8)"
    using s8 by (auto simp: xmm626_mipi_firmware_send_def fail_eq split: if_splits)
  from emitsD [OF emits_mipi_modem_data_send this]
  obtain fcs where e8: "blocks_of 0xDF2 fcs firmware" "sent fd w8 = sent fd w7 @ mipi_data_stage XMM626_FIRMWARE_ADDRESS fcs"
    by blast
  obtain nv ncs where e9: "blocks_of 0xDF2 ncs nv" "sent fd w9 = sent fd w8 @ mipi_data_stage XMM626_NV_DATA_ADDRESS ncs"
      "w_files w9 p = Some nv" "nv_valid md5 secret sz (w_files w9) p m"
    using mipi_nv_data_send_Done [OF cfg s9] by blast
  obtain mo where e10: "mps_bytes has_mps (w_files w9) mo" "sent fd w10 = sent fd w9 @ mo" "w_files w10 = w_files w9"
    using passages_Done(1) [OF dev s10] by blast
  have e11: "sent fd w11 = sent fd w10 @ mipi_frame 0x205 True [0, 0]"
    using emitsD [OF emits_mipi_commands(2) s11] by blast
  have e12: "sent fd w12 = sent fd w11 @ mipi_frame 0x208 True [0x01, 0x10, 0x11, 0]"
    using emitsD [OF emits_mipi_commands(3) s12] by blast
  note e13 = passages_Done(2) [OF dev s13]
  have blind: "device_blind w_files" by (simp add: device_blind_def)
  have files: "w_files w' = w_files w9"
    using unchangedD [OF unchanged_mipi_stages(5) [OF blind] s11]
      unchangedD [OF unchanged_mipi_stages(9) [OF blind] s12] e13 e10(3) by simp
  let ?out = "mipi_ebl_stage ebl @ mipi_frame 0x86 False config @ mipi_frame 0x204 False sec @
       mipi_data_stage XMM626_FIRMWARE_ADDRESS fcs @ mipi_data_stage XMM626_NV_DATA_ADDRESS ncs @ mo @
       mipi_frame 0x205 True [0, 0] @ mipi_frame 0x208 True [0x01, 0x10, 0x11, 0]"
  have "mipi_boot_bytes img has_mps mem nv (w_files w') ?out"
    unfolding mipi_boot_bytes_def files using e8(1) e9(1) e10(1) p2 p5 p7 by blast
  moreover have "sent fd w' = sent fd w @ ?out"
    using e3 e4 e6 e8(2) e9(2) e10(2) e11 e12 e13 p2 p5 p7 by simp
  ultimately show ?thesis using e9(3,4) files by metis
qed

lemma mipi_devices_boot:
  assumes "(boot, img, has_mps) \<in> mipi_devices"
  obtains mps finish where "boot = mipi_boot img mps finish" "(mps, finish) \<in> mipi_passages" "bi_psi_size img \<noteq> 0"
    "(has_mps, mps, finish) \<in> {(True, maguro_mps, maguro_finish), (False, \<lambda>client fd. ret (), \<lambda>fd. ret ())}"
proof -
  have "maguro_boot = mipi_boot maguro_image maguro_mps maguro_finish"
    "piranha_boot = mipi_boot piranha_image (\<lambda>client fd. ret ()) (\<lambda>fd. ret ())"
    by (simp_all add: fun_eq_iff maguro_boot_def piranha_boot_def)
  moreover have "bi_psi_size maguro_image \<noteq> 0" "bi_psi_size piranha_image \<noteq> 0"
    by (simp_all add: maguro_image_def piranha_image_def)
  ultimately show ?thesis
    using assms that unfolding mipi_devices_def mipi_passages_def by blast
qed

section \<open>Properties\<close>

text \<open>
  C2: when booting maguro or piranha succeeds, the trace is: the image and the first boot device are
  opened; the PSI stage is written to the latter and nothing else; it is closed and the second boot
  device opened; all other stages are written to that, each with its part of the image, the NV data
  being what the NV data file then holds, with a valid digest; and both descriptors are closed.
\<close>

theorem mipi_boot_loads_modem:
  assumes "(boot, img, has_mps) \<in> mipi_devices" and "nv_configured c p m bp bm secret sz ck"
    and "boot md5 (Some c) w = (Done u, w')"
  shows "\<exists>fi f0 f1 es0 es1 nv. w_trace w' = w_trace w @ [EvOpen (bi_device img) fi, EvOpen ''/dev/umts_boot0'' f0] @ es0 @
       [EvClose f0, EvOpen ''/dev/umts_boot1'' f1] @ es1 @ [EvClose fi, EvClose f1] \<and>
     (\<forall>e \<in> set (es0 @ es1). transfer e) \<and>
     mipi_psi_bytes img (take (bi_size img) (file_of w (bi_device img))) (written f0 es0) \<and>
     mipi_boot_bytes img has_mps (take (bi_size img) (file_of w (bi_device img))) nv (w_files w') (written f1 es1) \<and>
     w_files w' p = Some nv \<and> nv_valid md5 secret sz (w_files w') p m"
proof -
  obtain mps finish where boot: "boot = mipi_boot img mps finish" and pas: "(mps, finish) \<in> mipi_passages"
    and psi: "bi_psi_size img \<noteq> 0"
    and dev: "(has_mps, mps, finish) \<in> {(True, maguro_mps, maguro_finish), (False, \<lambda>client fd. ret (), \<lambda>fd. ret ())}"
    by (rule mipi_devices_boot [OF assms(1)])
  let ?mem = "take (bi_size img) (file_of w (bi_device img))"
  have run: "mipi_boot img mps finish md5 (Some c) w = (Done u, w')" and nu: "Done u \<noteq> Undef" using assms(3) boot by simp_all
  from mipi_boot_shape [OF run nu] obtain fi f0 w1 r1 w2 where
    t1: "w_trace w1 = w_trace w @ opens (bi_device img) fi @ opens ''/dev/umts_boot0'' f0" and "w_files w1 = w_files w" and r1: "r1 \<noteq> Undef" and
    first: "if f0 < 0 then r1 = Fail \<and> w2 = w1 else 0 \<le> fi \<and> mipi_first img (Some c) f0 ?mem w1 = (r1, w2)" and
    bad: "r1 = Fail \<longrightarrow> Done u = Fail \<and> w' = w2\<lparr>w_trace := w_trace w2 @ closes fi @ closes f0\<rparr>" and
    good: "r1 = Done () \<longrightarrow> (\<exists>f1 w3 r4 w4. w_trace w3 = w_trace w2 @ [EvClose f0] @ opens ''/dev/umts_boot1'' f1 \<and>
       w_files w3 = w_files w2 \<and> (if f1 < 0 then r4 = Fail \<and> w4 = w3
        else mipi_load img mps finish md5 (Some c) f1 ?mem w3 = (r4, w4)) \<and>
       r4 \<noteq> Undef \<and> (Done u = Done () \<longleftrightarrow> r4 = Done ()) \<and> w' = w4\<lparr>w_trace := w_trace w4 @ closes fi @ closes f1\<rparr>)" .
  have d1: "r1 = Done ()" using r1 bad by (cases r1) auto
  from good this obtain f1 w3 w4 where
    t3: "w_trace w3 = w_trace w2 @ [EvClose f0] @ opens ''/dev/umts_boot1'' f1" and f1: "\<not> f1 < 0" and
    load: "mipi_load img mps finish md5 (Some c) f1 ?mem w3 = (Done (), w4)" and
    w': "w' = w4\<lparr>w_trace := w_trace w4 @ closes fi @ closes f1\<rparr>"
    by (auto split: if_splits)
  have f0: "\<not> f0 < 0" "0 \<le> fi" and first': "mipi_first img (Some c) f0 ?mem w1 = (Done (), w2)"
    using first d1 by (auto split: if_splits)
  obtain es0 where es0: "w_trace w2 = w_trace w1 @ es0" "\<forall>e \<in> set es0. transfer e"
    using addsD [OF adds_mipi_first first'] by blast
  obtain es1 where es1: "w_trace w4 = w_trace w3 @ es1" "\<forall>e \<in> set es1. transfer e"
    using addsD [OF adds_mipi_load [OF pas] load] by blast
  obtain po where po: "mipi_psi_bytes img ?mem po" "sent f0 w2 = sent f0 w1 @ po"
    using mipi_first_Done [OF first' psi] by blast
  obtain nv out where out: "mipi_boot_bytes img has_mps ?mem nv (w_files w4) out" "sent f1 w4 = sent f1 w3 @ out"
      "w_files w4 p = Some nv" "nv_valid md5 secret sz (w_files w4) p m"
    using mipi_load_Done [OF assms(2) dev load] by blast
  have "w_trace w' = w_trace w @ [EvOpen (bi_device img) fi, EvOpen ''/dev/umts_boot0'' f0] @ es0 @
       [EvClose f0, EvOpen ''/dev/umts_boot1'' f1] @ es1 @ [EvClose fi, EvClose f1]"
    using t1 t3 es0(1) es1(1) f0 f1 by (simp add: w' opens_def closes_def)
  moreover have "written f0 es0 = po" "written f1 es1 = out"
    using written_trace [OF es0(1) po(2)] written_trace [OF es1(1) out(2)] by simp_all
  moreover have "w_files w' = w_files w4" by (simp add: w')
  ultimately show ?thesis
    using es0(2) es1(2) po(1) out by (intro exI [of _ fi] exI [of _ f0] exI [of _ f1] exI [of _ es0] exI [of _ es1] exI [of _ nv]) auto
qed

text \<open>
  C25: however booting maguro or piranha ends, it has closed just the descriptors it opened.
\<close>

theorem mipi_boot_closes_descriptors:
  assumes "(boot, img, has_mps) \<in> mipi_devices" and "boot md5 client w = (r, w')" and "r \<noteq> Undef"
  shows "\<exists>es. w_trace w' = w_trace w @ es \<and> mset (opened es) = mset (closed es)"
proof (cases client)
  case None
  obtain mps finish where "boot = mipi_boot img mps finish" by (rule mipi_devices_boot [OF assms(1)])
  with None assms(2) have "w' = w" by (auto simp: mipi_boot_def fail_eq)
  then show ?thesis by (intro exI [of _ "[]"]) simp
next
  case (Some c)
  obtain mps finish where boot: "boot = mipi_boot img mps finish" and pas: "(mps, finish) \<in> mipi_passages"
    by (rule mipi_devices_boot [OF assms(1)])
  let ?mem = "take (bi_size img) (file_of w (bi_device img))"
  have "mipi_boot img mps finish md5 (Some c) w = (r, w')" using assms(2) boot Some by simp
  from mipi_boot_shape [OF this assms(3)] obtain fi f0 w1 r1 w2 where
    t1: "w_trace w1 = w_trace w @ opens (bi_device img) fi @ opens ''/dev/umts_boot0'' f0" and "w_files w1 = w_files w" and r1: "r1 \<noteq> Undef" and
    first: "if f0 < 0 then r1 = Fail \<and> w2 = w1 else 0 \<le> fi \<and> mipi_first img (Some c) f0 ?mem w1 = (r1, w2)" and
    bad: "r1 = Fail \<longrightarrow> r = Fail \<and> w' = w2\<lparr>w_trace := w_trace w2 @ closes fi @ closes f0\<rparr>" and
    good: "r1 = Done () \<longrightarrow> (\<exists>f1 w3 r4 w4. w_trace w3 = w_trace w2 @ [EvClose f0] @ opens ''/dev/umts_boot1'' f1 \<and>
       w_files w3 = w_files w2 \<and> (if f1 < 0 then r4 = Fail \<and> w4 = w3
        else mipi_load img mps finish md5 (Some c) f1 ?mem w3 = (r4, w4)) \<and>
       r4 \<noteq> Undef \<and> (r = Done () \<longleftrightarrow> r4 = Done ()) \<and> w' = w4\<lparr>w_trace := w_trace w4 @ closes fi @ closes f1\<rparr>)" .
  have oc: "opened (opens q f) = closed (closes f)" "closed (opens q f) = []" "opened (closes f) = []" for q f
    by (simp_all add: opens_def closes_def)
  obtain es0 where es0: "w_trace w2 = w_trace w1 @ es0" "\<forall>e \<in> set es0. transfer e"
  proof (cases "f0 < 0")
    case True
    with first that [of "[]"] show ?thesis by simp
  next
    case False
    with first have "mipi_first img (Some c) f0 ?mem w1 = (r1, w2)" by simp
    from addsD [OF adds_mipi_first this] that show ?thesis by blast
  qed
  note n0 = transfer_neither [OF es0(2)]
  show ?thesis
  proof (cases r1)
    case (Done u)
    then have "r1 = Done ()" by simp
    from good this obtain f1 w3 r4 w4 where
      t3: "w_trace w3 = w_trace w2 @ [EvClose f0] @ opens ''/dev/umts_boot1'' f1" and
      load: "if f1 < 0 then r4 = Fail \<and> w4 = w3 else mipi_load img mps finish md5 (Some c) f1 ?mem w3 = (r4, w4)" and
      w': "w' = w4\<lparr>w_trace := w_trace w4 @ closes fi @ closes f1\<rparr>" by blast
    obtain es1 where es1: "w_trace w4 = w_trace w3 @ es1" "\<forall>e \<in> set es1. transfer e"
    proof (cases "f1 < 0")
      case True
      with load that [of "[]"] show ?thesis by simp
    next
      case False
      with load have "mipi_load img mps finish md5 (Some c) f1 ?mem w3 = (r4, w4)" by simp
      from addsD [OF adds_mipi_load [OF pas] this] that show ?thesis by blast
    qed
    have f0: "\<not> f0 < 0" using first Done by (auto split: if_splits)
    show ?thesis
      using t1 t3 es0(1) es1(1) n0 transfer_neither [OF es1(2)] f0
      by (intro exI [of _ "opens (bi_device img) fi @ opens ''/dev/umts_boot0'' f0 @ es0 @ [EvClose f0] @
          opens ''/dev/umts_boot1'' f1 @ es1 @ closes fi @ closes f1"]) (simp add: w' oc, simp add: closes_def)
  next
    case Fail
    from bad this have w': "w' = w2\<lparr>w_trace := w_trace w2 @ closes fi @ closes f0\<rparr>" by simp
    show ?thesis
      using t1 es0(1) n0
      by (intro exI [of _ "opens (bi_device img) fi @ opens ''/dev/umts_boot0'' f0 @ es0 @ closes fi @ closes f0"])
        (simp add: w' oc)
  qed (use r1 in simp)
qed


section \<open>A kernel and a modem that answer\<close>

text \<open>
  The drivers report the modem as online, the files can be accessed, the MPS data is there and the
  NV data valid.
\<close>

definition mipi_files ::
  "(u8 list \<Rightarrow> u8 list) \<Rightarrow> u8 list \<Rightarrow> nat \<Rightarrow> string \<Rightarrow> string \<Rightarrow> (string \<Rightarrow> u8 list option) \<Rightarrow> bool" where
  "mipi_files md5 secret sz p m fs \<longleftrightarrow> nv_valid md5 secret sz fs p m \<and>
     (\<exists>mps. fs ''/factory/imei/mps_code.dat'' = Some mps \<and> 3 \<le> length mps)"

definition mipi_ok ::
  "(u8 list \<Rightarrow> u8 list) \<Rightarrow> u8 list \<Rightarrow> nat \<Rightarrow> string \<Rightarrow> string \<Rightarrow> world \<Rightarrow> bool" where
  "mipi_ok md5 secret sz p m w \<longleftrightarrow> host_ok w \<and> (\<forall>x \<in> sset (w_ioc w). x = STATE_ONLINE) \<and>
     mipi_files md5 secret sz p m (w_files w)"

lemma mipi_ok_split:
  "mipi_ok md5 secret sz p m w \<longleftrightarrow> willing w \<and> (\<forall>x \<in> sset (w_ioc w). x = STATE_ONLINE) \<and>
     (\<forall>x \<in> sset (w_fio w). 2 \<le> x) \<and> mipi_files md5 secret sz p m (w_files w)"
proof -
  have "\<forall>x \<in> sset i. 0 < x" if "\<forall>x \<in> sset i. x = STATE_ONLINE" for i
    using that by (auto simp: STATE_ONLINE_def dest!: bspec)
  then show ?thesis unfolding mipi_ok_def host_ok_def by blast
qed

lemma completes_mipi_stage:
  "completes willing m' rs P \<Longrightarrow> unchanged host_state m' \<Longrightarrow> completes (mipi_ok md5 secret sz p m) m' rs P"
  by (erule completes_frame [where R = "\<lambda>(i, f, fs). (\<forall>x \<in> sset i. x = STATE_ONLINE) \<and> (\<forall>x \<in> sset f. 2 \<le> x) \<and>
      mipi_files md5 secret sz p m fs"], assumption) (simp add: mipi_ok_split host_state_def)

lemma completes_online_ioctl: "completes (mipi_ok md5 secret sz p m) (sys_ioctl fd request arg) [] (\<lambda>rc. rc = STATE_ONLINE)"
  by (rule completesI) (auto simp: sys_ioctl_def mipi_ok_def host_ok_def willing_def shd_sset dest: stl_sset)

lemma completes_mipi_requests:
  assumes "0 \<le> fd"
  shows "completes (mipi_ok md5 secret sz p m) (xmm626_kernel_smdk4412_power fd v) [] (\<lambda>_. True)"
    "completes (mipi_ok md5 secret sz p m) (maguro_finish fd) [] (\<lambda>_. True)"
proof -
  have wait: "completes (mipi_ok md5 secret sz p m) (ioctl_wait (Suc n) fd request (\<lambda>x. x = STATE_ONLINE)) [] (\<lambda>_. True)" for n request
    by (simp, rule completes_then [OF completes_online_ioctl]) (auto intro: completes_ret)
  show "completes (mipi_ok md5 secret sz p m) (xmm626_kernel_smdk4412_power fd v) [] (\<lambda>_. True)"
    using assms by (auto simp: xmm626_kernel_smdk4412_power_def STATE_ONLINE_def
        intro!: completes_then [OF completes_online_ioctl] completes_check)
  have "completes (mipi_ok md5 secret sz p m) (xmm626_kernel_smdk4412_boot_power fd 0) [] (\<lambda>_. True)"
    using assms by (auto simp: xmm626_kernel_smdk4412_boot_power_def STATE_ONLINE_def
        intro!: completes_then [OF completes_online_ioctl] completes_check)
  from completes_then [OF wait [of 99 IOCTL_MODEM_STATUS] this]
  show "completes (mipi_ok md5 secret sz p m) (maguro_finish fd) [] (\<lambda>_. True)"
    using assms by (simp add: maguro_finish_def xmm626_kernel_smdk4412_status_online_wait_def del: ioctl_wait.simps)
qed

text \<open>The number of blocks an image is sent in, and the answers that takes.\<close>

definition block_count :: "nat \<Rightarrow> nat \<Rightarrow> nat" where
  "block_count n k = (k + n - 1) div n"

lemma block_count_step:
  assumes "0 < n" "0 < k"
  shows "block_count n k = Suc (block_count n (k - n))"
proof (cases "n \<le> k")
  case True
  have "k + n - 1 = (k - n + n - 1) + n" using True assms(1) by linarith
  then have "(k + n - 1) div n = ((k - n + n - 1) + n) div n" by (rule arg_cong)
  also have "\<dots> = Suc ((k - n + n - 1) div n)" by (rule div_add_self2 [OF less_imp_neq [OF assms(1), symmetric], of "k - n + n - 1", unfolded Suc_eq_plus1 [symmetric]])
  finally show ?thesis by (simp only: block_count_def)
next
  case False
  have "k - n + n - 1 = n - 1" using False by linarith
  then have z: "block_count n (k - n) = 0" using assms(1) by (simp only: block_count_def) simp
  have "k + n - 1 = (k - 1) + n" "k - 1 < n" using False assms by linarith+
  then have "(k + n - 1) div n = (k - 1) div n + 1" using assms(1) by (simp only: div_add_self2)
  also have "(k - 1) div n = 0" by (rule div_less) fact
  finally show ?thesis using z by (simp add: block_count_def)
qed

lemma blocks_of_count: "0 < n \<Longrightarrow> blocks_of n cs q \<Longrightarrow> length cs = block_count n (length q)"
proof (induction cs arbitrary: q)
  case Nil
  then show ?case by (simp add: blocks_of_Nil block_count_def)
next
  case (Cons c cs)
  note b = blocks_of_ConsD [OF Cons.prems(2)]
  have "length cs = block_count n (length q - n)" using Cons.IH [OF Cons.prems(1), of "drop n q"] b by simp
  then show ?case using block_count_step [OF Cons.prems(1), of "length q"] b by simp
qed

definition image_answers :: "nat \<Rightarrow> u8 list list \<Rightarrow> bool" where
  "image_answers k rs \<longleftrightarrow> (\<exists>address blocks. rs = address @ concat blocks \<and> mipi_reply 0x802 address \<and>
     length blocks = block_count 0xDF2 k \<and> (\<forall>b \<in> set blocks. mipi_reply 0x804 b))"

lemma completes_mipi_image:
  assumes "0 \<le> fd" "bs \<noteq> []" "image_answers (length bs) rs"
  shows "completes willing (xmm626_mipi_modem_data_send fd (Some bs) address) rs (\<lambda>_. True)"
proof -
  obtain cs where cs: "blocks_of 0xDF2 cs bs" using blocks_exist [of "0xDF2" bs] by auto
  from assms(3) obtain a b where ab: "rs = a @ concat b" "mipi_reply 0x802 a" "length b = block_count 0xDF2 (length bs)"
      "\<forall>b \<in> set b. mipi_reply 0x804 b"
    unfolding image_answers_def by blast
  show ?thesis
    unfolding ab(1)
    by (rule completes_mipi_modem_data_send [OF assms(1,2) ab(2) cs _ ab(4)])
      (use blocks_of_count [OF _ cs] ab(3) in simp)
qed

lemma completes_mipi_nv_data:
  assumes cfg: "nv_configured c p m bp bm secret sz ck" and "''/factory/imei/mps_code.dat'' \<notin> {p, m, bp, bm}" "0 \<le> fd"
    and "image_answers sz rs"
  shows "completes (mipi_ok md5 secret sz p m) (xmm626_mipi_nv_data_send md5 (Some c) fd) rs (\<lambda>_. True)"
proof -
  have sz: "ipc_client_nv_data_size (Some c) = sz" "0 < sz" using cfg by (auto simp: nv_configured_def)
  have load: "completes (mipi_ok md5 secret sz p m) (ipc_nv_data_load md5 (Some c)) [] (\<lambda>nv. length nv = sz)"
  proof (rule completesI)
    fix w :: world and rest
    assume w: "mipi_ok md5 secret sz p m w" and rd: "w_rd w = map Some [] @- rest"
    then have "host_ok w" "nv_valid md5 secret sz (w_files w) p m" by (simp_all add: mipi_ok_def mipi_files_def)
    from nv_load_runs [OF cfg this] assms(2) w rd
    show "\<exists>a w'. ipc_nv_data_load md5 (Some c) w = (Done a, w') \<and> length a = sz \<and>
        mipi_ok md5 secret sz p m w' \<and> w_rd w' = rest"
      by (fastforce simp: mipi_ok_def mipi_files_def)
  qed
  have "completes (mipi_ok md5 secret sz p m) (xmm626_mipi_modem_data_send fd (Some nv) XMM626_NV_DATA_ADDRESS) rs (\<lambda>_. True)"
    if "length nv = sz" for nv
    using completes_mipi_image [OF assms(3), of nv] that sz(2) assms(4)
    by (intro completes_mipi_stage unchanged_mipi_stages(7) [OF host_state_blind]) auto
  then show ?thesis
    unfolding xmm626_mipi_nv_data_send_def using assms(3) sz by (simp, intro completes_then [OF load])
qed

lemma completes_mps:
  assumes "0 \<le> fd" "image_answers 3 rs"
  shows "completes (mipi_ok md5 secret sz p m) (maguro_mps (Some c) fd) rs (\<lambda>_. True)"
proof -
  have rd: "completes (mipi_ok md5 secret sz p m) (file_data_read (Some ''/factory/imei/mps_code.dat'') 3 3 0) []
      (\<lambda>mps. length mps = 3)"
  proof (rule completesI)
    fix w :: world and rest
    assume w: "mipi_ok md5 secret sz p m w" "w_rd w = map Some [] @- rest"
    then obtain mps where mps: "w_files w ''/factory/imei/mps_code.dat'' = Some mps" "3 \<le> length mps" and host: "host_ok w"
      unfolding mipi_ok_def mipi_files_def by blast
    obtain w' where r: "file_data_read (Some ''/factory/imei/mps_code.dat'') 3 3 0 w = (Done (take 3 mps), w')" "w_files w' = w_files w"
      using file_data_read_ok [OF host_ok_files [OF host] mps(1), of 3 3 0] mps(2) by auto
    have "file_stable (\<lambda>v. w_ioc v = w_ioc w)" by (simp add: file_stable_def)
    from stableD [OF stable_files(1) [OF this] r(1)] have "w_ioc w' = w_ioc w" by simp
    moreover have "host_ok w' \<and> w_rd w' = w_rd w"
      using stableD [OF stable_files(1) [OF host_ok_stable] r(1), of "w_rd w"] host by simp
    ultimately show "\<exists>a w'. file_data_read (Some ''/factory/imei/mps_code.dat'') 3 3 0 w = (Done a, w') \<and> length a = 3 \<and>
        mipi_ok md5 secret sz p m w' \<and> w_rd w' = rest"
      using w r mps by (auto simp: mipi_ok_def)
  qed
  have "completes willing (xmm626_mipi_modem_data_send fd (Some mps) XMM626_MPS_DATA_ADDRESS) rs (\<lambda>_. True)"
    if "length mps = 3" for mps
    by (rule completes_mipi_image [OF assms(1)]) (use that assms(2) in auto)
  then have "completes (mipi_ok md5 secret sz p m) (xmm626_mipi_mps_data_send (Some c) fd (Some mps)) rs (\<lambda>_. True)"
    if "length mps = 3" for mps
    using that assms(1) by (intro completes_mipi_stage unchanged_mipi_stages(8) [OF host_state_blind])
      (auto simp: xmm626_mipi_mps_data_send_def)
  then show ?thesis unfolding maguro_mps_def by (rule completes_then [OF rd])
qed


definition ack_word :: "u16 \<Rightarrow> u8 list \<Rightarrow> bool" where
  "ack_word code bs \<longleftrightarrow> length bs = 4 \<and> get16 bs = code"

text \<open>What the modem answers during the stages on the second device.\<close>

definition mipi_answers :: "boot_image \<Rightarrow> bool \<Rightarrow> nat \<Rightarrow> u8 list list \<Rightarrow> bool" where
  "mipi_answers img has_mps sz rs \<longleftrightarrow> (\<exists>b0 b1 b2 config pieces port sec firmware nv mps sec_end.
     rs = [b0, b1, b2] @ ([le32 (of_nat (length config))] @ pieces @ port) @ sec @ firmware @ nv @ mps @ sec_end \<and>
     ack_word 0xAA00 b0 \<and> ack_word 0xCCCC b1 \<and> ack_word 0xA551 b2 \<and>
     config \<noteq> [] \<and> length config \<le> 0x4000 \<and> blocks_of 4 pieces config \<and> mipi_reply 0x86 port \<and>
     mipi_reply 0x204 sec \<and> image_answers (bi_firmware_size img) firmware \<and> image_answers sz nv \<and>
     (if has_mps then image_answers 3 mps else mps = []) \<and> mipi_reply 0x205 sec_end)"

lemma completes_mipi_one_command:
  assumes "0 \<le> fd"
  shows "sec \<noteq> [] \<Longrightarrow> length sec \<le> 0x4000 \<Longrightarrow> mipi_reply 0x204 rs \<Longrightarrow>
      completes willing (xmm626_mipi_sec_start_send (Some c) fd (Some sec)) rs (\<lambda>_. True)"
    and "mipi_reply 0x205 rs \<Longrightarrow> completes willing (xmm626_mipi_sec_end_send (Some c) fd) rs (\<lambda>_. True)"
    and "completes willing (xmm626_mipi_hw_reset_send (Some c) fd) [] (\<lambda>_. True)"
  using assms
  by (auto simp: xmm626_mipi_sec_start_send_def xmm626_mipi_sec_end_send_def xmm626_mipi_hw_reset_send_def
      XMM626_COMMAND_SEC_START_def XMM626_COMMAND_SEC_END_def le16_def le32_def
      intro!: completes_mipi_command)

lemma completes_mipi_load:
  assumes cfg: "nv_configured c p m bp bm secret sz ck" and paths: "''/factory/imei/mps_code.dat'' \<notin> {p, m, bp, bm}"
    and fd: "0 \<le> fd" and fits: "image_fits img mem" and ans: "mipi_answers img has_mps sz rs"
    and dev: "(has_mps, mps, finish) \<in> {(True, maguro_mps, maguro_finish), (False, \<lambda>client fd. ret (), \<lambda>fd. ret ())}"
  shows "completes (mipi_ok md5 secret sz p m) (mipi_load img mps finish md5 (Some c) fd mem) rs (\<lambda>_. True)"
proof -
  let ?I = "mipi_ok md5 secret sz p m"
  obtain b0 b1 b2 config pieces port sec firmware nv mp sec_end where
    rs: "rs = [b0, b1, b2] @ ([le32 (of_nat (length config))] @ pieces @ port) @ sec @ firmware @ nv @ mp @ sec_end" and
    a: "ack_word 0xAA00 b0" "ack_word 0xCCCC b1" "ack_word 0xA551 b2" "config \<noteq> []" "length config \<le> 0x4000"
      "blocks_of 4 pieces config" "mipi_reply 0x86 port" "mipi_reply 0x204 sec"
      "image_answers (bi_firmware_size img) firmware" "image_answers sz nv"
      "if has_mps then image_answers 3 mp else mp = []" "mipi_reply 0x205 sec_end"
    using ans unfolding mipi_answers_def by (elim exE conjE) (rule that; assumption)
  note f = fits [unfolded image_fits_def]
  note u = unchanged_mipi_stages [OF host_state_blind]
  let ?ebl = "take (bi_ebl_size img) (drop (bi_ebl_offset img) mem)"
  let ?sec = "take (bi_sec_start_size img) (drop (bi_sec_start_offset img) mem)"
  let ?fw = "take (bi_firmware_size img) (drop (bi_firmware_offset img) mem)"
  have ne: "?ebl \<noteq> []" "?sec \<noteq> []" "length ?sec \<le> 0x4000" "?fw \<noteq> []" "length ?fw = bi_firmware_size img"
    using f by auto
  have ebl: "completes ?I (xmm626_mipi_ebl_send (Some c) fd (Some ?ebl)) [b0, b1, b2] (\<lambda>_. True)"
    by (intro completes_mipi_stage completes_mipi_ebl_send u fd ne) (use a in \<open>simp_all add: ack_word_def\<close>)
  have port: "completes ?I (xmm626_mipi_port_config_send (Some c) fd) ([le32 (of_nat (length config))] @ pieces @ port) (\<lambda>_. True)"
    by (intro completes_mipi_stage completes_mipi_port_config u fd a)
  have secs: "completes ?I (xmm626_mipi_sec_start_send (Some c) fd (Some ?sec)) sec (\<lambda>_. True)"
    by (intro completes_mipi_stage completes_mipi_one_command(1) u fd ne a)
  have "completes willing (xmm626_mipi_firmware_send (Some c) fd (Some ?fw)) firmware (\<lambda>_. True)"
    using completes_mipi_image [OF fd ne(4), of firmware] fd ne(4,5) a(9) unfolding xmm626_mipi_firmware_send_def
    by (simp only: option.case prod.case length_0_conv if_False not_less [symmetric] simp_thms)
  then have fw: "completes ?I (xmm626_mipi_firmware_send (Some c) fd (Some ?fw)) firmware (\<lambda>_. True)"
    by (intro completes_mipi_stage u)
  note nvs = completes_mipi_nv_data [OF cfg paths fd a(10), of md5]
  have mps: "completes ?I (mps (Some c) fd) mp (\<lambda>_. True)"
    using dev a(11) completes_mps [OF fd] by (auto intro: completes_ret)
  have fin: "completes ?I (finish fd) [] (\<lambda>_. True)"
    using dev completes_mipi_requests(2) [OF fd] by (auto intro: completes_ret)
  have se: "completes ?I (xmm626_mipi_sec_end_send (Some c) fd) sec_end (\<lambda>_. True)"
    by (intro completes_mipi_stage completes_mipi_one_command(2) u fd a)
  have hw: "completes ?I (xmm626_mipi_hw_reset_send (Some c) fd) [] (\<lambda>_. True)"
    by (intro completes_mipi_stage completes_mipi_one_command(3) u fd)
  have "completes ?I (mipi_load img mps finish md5 (Some c) fd mem)
    ([b0, b1, b2] @ ([le32 (of_nat (length config))] @ pieces @ port) @ sec @ firmware @ nv @ mp @ sec_end @ [] @ [])
    (\<lambda>_. True)"
    unfolding mipi_load_def using f
    by (simp only: image_part_eq, intro completes_bnd [OF ebl] completes_bnd [OF port]
      completes_bnd [OF secs] completes_bnd [OF fw] completes_bnd [OF nvs] completes_bnd [OF mps] completes_bnd [OF se]
      completes_bnd [OF hw] fin)
  then show ?thesis unfolding rs by simp
qed

lemma completes_mipi_first:
  assumes "0 \<le> fd" "image_fits img mem" "ack_word 0xFFFF a0" "ack_word 0xDD01 a1"
  shows "completes (mipi_ok md5 secret sz p m) (mipi_first img (Some c) fd mem) [a0, a1] (\<lambda>_. True)"
proof -
  have "completes (mipi_ok md5 secret sz p m) (xmm626_mipi_psi_send (Some c) fd (Some (drop (bi_psi_offset img) mem))
      (bi_psi_size img)) [a0, a1] (\<lambda>_. True)"
    by (intro completes_mipi_stage completes_mipi_psi_send unchanged_mipi_stages(1) [OF host_state_blind])
      (use assms in \<open>auto simp: image_fits_def ack_word_def\<close>)
  then show ?thesis
    unfolding mipi_first_def by (intro completes_then [OF completes_mipi_requests(1) [OF assms(1)]])
qed

text \<open>With devices that open, booting is its two halves.\<close>

lemma mipi_ok_blind:
  "mipi_ok md5 secret sz p m (w\<lparr>w_open := x, w_trace := y\<rparr>) = mipi_ok md5 secret sz p m w"
  "mipi_ok md5 secret sz p m (w\<lparr>w_open := x\<rparr>) = mipi_ok md5 secret sz p m w"
  "mipi_ok md5 secret sz p m (w\<lparr>w_trace := y\<rparr>) = mipi_ok md5 secret sz p m w"
  by (simp_all add: mipi_ok_split willing_def)

lemma mipi_ok_fio: "mipi_ok md5 secret sz p m w \<Longrightarrow> mipi_ok md5 secret sz p m (w\<lparr>w_fio := stl (w_fio w)\<rparr>)"
  by (auto simp: mipi_ok_split willing_def dest: stl_sset)

lemma opens_ok:
  assumes "\<forall>x \<in> sset (w_open w). 0 \<le> x" "mipi_ok md5 secret sz p m w"
  shows "\<exists>fd w'. sys_open path w = (Done fd, w') \<and> 0 \<le> fd \<and> (\<forall>x \<in> sset (w_open w'). 0 \<le> x) \<and> w_rd w' = w_rd w \<and>
    w_files w' = w_files w \<and> mipi_ok md5 secret sz p m w'"
proof -
  have "0 \<le> shd (w_open w)" "\<forall>x \<in> sset (stl (w_open w)). 0 \<le> x" using assms(1) by (auto simp: shd_sset dest: stl_sset)
  then show ?thesis using assms(2) by (simp add: sys_open_def Let_def mipi_ok_blind)
qed


lemma unchanged_open_first: "unchanged w_open (mipi_first img client fd mem)"
proof -
  have "unchanged w_open (sys_ioctl fd request arg)" for request arg
    by (auto simp: unchanged_def sys_ioctl_def)
  moreover have "device_blind w_open" by (simp add: device_blind_def)
  ultimately show ?thesis
    by (auto simp: mipi_first_def xmm626_kernel_smdk4412_power_def intro!: unchanged_intros)
qed

lemma mipi_boot_runs:
  assumes mem: "bi_size img \<le> length (file_of w (bi_device img))" and opn: "\<forall>x \<in> sset (w_open w). 0 \<le> x"
    and ok: "mipi_ok md5 secret sz p m w" and rd: "w_rd w = map Some (rs0 @ rs1) @- rest"
    and first: "\<And>fd mem. 0 \<le> fd \<Longrightarrow> length mem = bi_size img \<Longrightarrow>
      completes (mipi_ok md5 secret sz p m) (mipi_first img (Some c) fd mem) rs0 (\<lambda>_. True)"
    and load: "\<And>fd mem. 0 \<le> fd \<Longrightarrow> length mem = bi_size img \<Longrightarrow>
      completes (mipi_ok md5 secret sz p m) (mipi_load img mps finish md5 (Some c) fd mem) rs1 (\<lambda>_. True)"
  shows "\<exists>w'. mipi_boot img mps finish md5 (Some c) w = (Done (), w') \<and> w_rd w' = rest"
proof -
  let ?mem = "take (bi_size img) (file_of w (bi_device img))"
  have len: "length ?mem = bi_size img" using mem by simp
  obtain fi v1 where o1: "sys_open (bi_device img) w = (Done fi, v1)" "0 \<le> fi" "\<forall>x \<in> sset (w_open v1). 0 \<le> x"
      "w_rd v1 = w_rd w" "w_files v1 = w_files w" "mipi_ok md5 secret sz p m v1"
    using opens_ok [OF opn ok, of "bi_device img"] by auto
  define v2 where "v2 = v1\<lparr>w_fio := stl (w_fio v1)\<rparr>"
  have "2 \<le> shd (w_fio v1)" using o1(6) by (simp add: mipi_ok_split shd_sset)
  then have mm: "sys_mmap (bi_device img) (bi_size img) v1 = (Done (Some ?mem), v2)"
    using o1(5) by (simp add: sys_mmap_def v2_def file_of_def)
  have ok2: "mipi_ok md5 secret sz p m v2" unfolding v2_def by (rule mipi_ok_fio [OF o1(6)])
  have opn2: "\<forall>x \<in> sset (w_open v2). 0 \<le> x" using o1(3) by (simp add: v2_def)
  obtain f0 v3 where o2: "sys_open ''/dev/umts_boot0'' v2 = (Done f0, v3)" "0 \<le> f0" "\<forall>x \<in> sset (w_open v3). 0 \<le> x"
      "w_rd v3 = w_rd v2" "mipi_ok md5 secret sz p m v3"
    using opens_ok [OF opn2 ok2, of "''/dev/umts_boot0''"] by auto
  have "w_rd v3 = map Some rs0 @- map Some rs1 @- rest" using o2(4) o1(4) rd by (simp add: v2_def)
  from completesD [OF first [OF o2(2) len] o2(5) this] obtain u w2 where
    f: "mipi_first img (Some c) f0 ?mem v3 = (Done u, w2)" "mipi_ok md5 secret sz p m w2" "w_rd w2 = map Some rs1 @- rest"
    by blast
  define v4 where "v4 = w2\<lparr>w_trace := w_trace w2 @ [EvClose f0]\<rparr>"
  have "w_open w2 = w_open v3" by (rule unchangedD [OF unchanged_open_first f(1)])
  then have opn4: "\<forall>x \<in> sset (w_open v4). 0 \<le> x" using o2(3) by (simp add: v4_def)
  have ok4: "mipi_ok md5 secret sz p m v4" using f(2) by (simp add: v4_def mipi_ok_blind)
  obtain f1 w3 where o3: "sys_open ''/dev/umts_boot1'' v4 = (Done f1, w3)" "0 \<le> f1" "w_rd w3 = w_rd v4"
      "mipi_ok md5 secret sz p m w3"
    using opens_ok [OF opn4 ok4, of "''/dev/umts_boot1''"] by auto
  have "w_rd w3 = map Some rs1 @- rest" using o3(3) f(3) by (simp add: v4_def)
  from completesD [OF load [OF o3(2) len] o3(4) this] obtain u4 w4 where
    l: "mipi_load img mps finish md5 (Some c) f1 ?mem w3 = (Done u4, w4)" "w_rd w4 = rest" by blast
  have "mipi_boot img mps finish md5 (Some c) w = (Done (), w4\<lparr>w_trace := w_trace w4 @ closes fi @ closes f1\<rparr>)"
    using o1(1,2) o2(1,2) o3(1,2) mm f(1) l(1)
    by (simp add: mipi_boot_def bnd_Done bnd_def try_rc_def sys_close_def emit_def v4_def [symmetric] complete_def
        close_valid_shape check_eq)
  with l(2) show ?thesis by simp
qed

lemma mipi_devices_fit: "(boot, img, has_mps) \<in> mipi_devices \<Longrightarrow> length mem = bi_size img \<Longrightarrow> image_fits img mem"
  by (auto simp: mipi_devices_def image_fits_def maguro_image_def piranha_image_def)

lemma mipi_device_completes:
  assumes "(boot, img, has_mps) \<in> mipi_devices" "nv_configured c p m bp bm secret sz ck"
    "''/factory/imei/mps_code.dat'' \<notin> {p, m, bp, bm}" "mipi_ok md5 secret sz p m w" "\<forall>x \<in> sset (w_open w). 0 \<le> x"
    "bi_size img \<le> length (file_of w (bi_device img))" "ack_word 0xFFFF a0" "ack_word 0xDD01 a1"
    "mipi_answers img has_mps sz rs" "w_rd w = map Some ([a0, a1] @ rs) @- rest"
  shows "\<exists>w'. boot md5 (Some c) w = (Done (), w') \<and> w_rd w' = rest"
proof -
  obtain mps finish where boot: "boot = mipi_boot img mps finish"
    and dev: "(has_mps, mps, finish) \<in> {(True, maguro_mps, maguro_finish), (False, \<lambda>client fd. ret (), \<lambda>fd. ret ())}"
    by (rule mipi_devices_boot [OF assms(1)])
  note fit = mipi_devices_fit [OF assms(1)]
  show ?thesis
    unfolding boot
    by (rule mipi_boot_runs [OF assms(6,5,4,10)])
      (auto intro!: completes_mipi_first fit completes_mipi_load [OF assms(2,3) _ _ assms(9) dev] assms(7,8))
qed

text \<open>
  C23: booting maguro or piranha succeeds whenever their devices can be opened and the image is
  complete, the drivers report the modem as online, the files can be accessed, the NV data is valid,
  and the modem gives the answers of its protocol: one per acknowledgement, command and block.
\<close>

theorem mipi_boot_completes:
  assumes "(boot, img, has_mps) \<in> mipi_devices" and "nv_configured c p m bp bm secret sz ck"
    and "''/factory/imei/mps_code.dat'' \<notin> {p, m, bp, bm}" and "mipi_ok md5 secret sz p m w"
    and "\<forall>x \<in> sset (w_open w). 0 \<le> x" and "bi_size img \<le> length (file_of w (bi_device img))"
    and "ack_word 0xFFFF a0" and "ack_word 0xDD01 a1" and "mipi_answers img has_mps sz rs"
    and "w_rd w = map Some ([a0, a1] @ rs) @- rest"
  shows "\<exists>w'. boot md5 (Some c) w = (Done (), w') \<and> w_rd w' = rest"
  using assms by (rule mipi_device_completes)


section \<open>Instances\<close>

definition demo_image_answers :: "nat \<Rightarrow> u8 list list" where
  "demo_image_answers k = demo_reply 0x802 @ concat (replicate (block_count 0xDF2 k) (demo_reply 0x804))"

definition demo_mipi_answers :: "u8 list list" where
  "demo_mipi_answers = [[0x00, 0xAA, 0, 0], [0xCC, 0xCC, 0, 0], [0x51, 0xA5, 0, 0]] @
     ([le32 (of_nat (length [7 :: u8]))] @ [[7]] @ demo_reply 0x86) @ demo_reply 0x204 @
     demo_image_answers (bi_firmware_size maguro_image) @ demo_image_answers 5 @ demo_image_answers 3 @ demo_reply 0x205"

definition demo_mipi_world :: world where
  "demo_mipi_world = demo_nv_world\<lparr>w_sel := sconst 1, w_wr := sconst 0x8000, w_ioc := sconst STATE_ONLINE,
     w_fio := sconst 2, w_open := 3 ## sconst 4,
     w_rd := map Some ([[0xFF, 0xFF, 0, 0], [0x01, 0xDD, 0, 0]] @ demo_mipi_answers) @- sconst None, w_trace := [],
     w_files := (w_files demo_nv_world)(''/factory/imei/mps_code.dat'' \<mapsto> [1, 2, 3],
       bi_device maguro_image \<mapsto> calloc 0x1000000)\<rparr>"

lemma demo_image_answers_ok: "image_answers k (demo_image_answers k)"
  unfolding image_answers_def demo_image_answers_def
  by (intro exI [of _ "demo_reply 0x802"] exI [of _ "replicate (block_count 0xDF2 k) (demo_reply 0x804)"])
    (auto simp: demo_reply_ok)

lemma demo_mipi_answers_ok: "mipi_answers maguro_image True 5 demo_mipi_answers"
proof -
  have a: "ack_word 0xAA00 [0x00, 0xAA, 0, 0]" "ack_word 0xCCCC [0xCC, 0xCC, 0, 0]" "ack_word 0xA551 [0x51, 0xA5, 0, 0]"
    by (simp_all add: ack_word_def get16_def push_bit_eq_mult)
  have b: "blocks_of 4 [[7]] [7 :: u8]" by (simp add: blocks_of_def)
  show ?thesis
    unfolding mipi_answers_def demo_mipi_answers_def
    by (intro exI conjI) (rule refl, auto simp: a b demo_reply_ok demo_image_answers_ok)
qed

lemma demo_mipi_ok: "mipi_ok demo_md5 [7] 5 ''nv'' ''nv.md5'' demo_mipi_world"
  using demo_nv_valid
  by (auto simp: mipi_ok_split willing_def mipi_files_def demo_mipi_world_def nv_valid_def maguro_image_def
      split: option.splits)

lemma demo_mipi_start:
  "(maguro_boot, maguro_image, True) \<in> mipi_devices" "\<forall>x \<in> sset (w_open demo_mipi_world). 0 \<le> x"
  "bi_size maguro_image \<le> length (file_of demo_mipi_world (bi_device maguro_image))"
  "ack_word 0xFFFF [0xFF, 0xFF, 0, 0]" "ack_word 0xDD01 [0x01, 0xDD, 0, 0]" "w_trace demo_mipi_world = []"
  "w_rd demo_mipi_world = map Some ([[0xFF, 0xFF, 0, 0], [0x01, 0xDD, 0, 0]] @ demo_mipi_answers) @- sconst None"
  by (simp_all add: mipi_devices_def demo_mipi_world_def maguro_image_def file_of_def ack_word_def get16_def
      push_bit_eq_mult)

lemma demo_mipi_boots:
  "\<exists>w'. maguro_boot demo_md5 (Some demo_env) demo_mipi_world = (Done (), w') \<and> w_rd w' = sconst None"
  by (rule mipi_device_completes [OF demo_mipi_start(1) demo_configured _ demo_mipi_ok demo_mipi_start(2-5)
        demo_mipi_answers_ok demo_mipi_start(7)]) simp

theorem mipi_boot_completes_witness:
  "\<exists>w'. maguro_boot demo_md5 (Some demo_env) demo_mipi_world = (Done (), w') \<and> w_rd w' = sconst None"
  by (rule mipi_boot_completes [OF demo_mipi_start(1) demo_configured _ demo_mipi_ok demo_mipi_start(2-5)
        demo_mipi_answers_ok demo_mipi_start(7)]) simp

theorem mipi_boot_loads_modem_witness:
  "\<exists>w' fi f0 f1 es0 es1 nv. maguro_boot demo_md5 (Some demo_env) demo_mipi_world = (Done (), w') \<and>
     w_trace w' = [EvOpen (bi_device maguro_image) fi, EvOpen ''/dev/umts_boot0'' f0] @ es0 @
       [EvClose f0, EvOpen ''/dev/umts_boot1'' f1] @ es1 @ [EvClose fi, EvClose f1] \<and>
     mipi_psi_bytes maguro_image (calloc 0x1000000) (written f0 es0) \<and>
     mipi_boot_bytes maguro_image True (calloc 0x1000000) nv (w_files w') (written f1 es1) \<and>
     w_files w' ''nv'' = Some nv"
proof -
  obtain w' where w': "maguro_boot demo_md5 (Some demo_env) demo_mipi_world = (Done (), w')"
    using demo_mipi_boots by blast
  have m: "take (bi_size maguro_image) (file_of demo_mipi_world (bi_device maguro_image)) = calloc 0x1000000"
    by (simp add: demo_mipi_world_def maguro_image_def file_of_def)
  from mipi_boot_loads_modem [OF demo_mipi_start(1) demo_configured w'] w' show ?thesis
    unfolding m demo_mipi_start(6) append_Nil by blast
qed

theorem mipi_boot_closes_descriptors_witness:
  "\<exists>w'. maguro_boot demo_md5 (Some demo_env) demo_mipi_world = (Done (), w') \<and>
     mset (opened (w_trace w')) = mset (closed (w_trace w'))"
proof -
  obtain w' where w': "maguro_boot demo_md5 (Some demo_env) demo_mipi_world = (Done (), w')"
    using demo_mipi_boots by blast
  from mipi_boot_closes_descriptors [OF demo_mipi_start(1) w'] w' show ?thesis
    unfolding demo_mipi_start(6) append_Nil by auto
qed

end
