(* ===== verification/Modem.thy ===== *)
theory Modem
  imports Devices Misc
begin

text \<open>
  tools/common/modem.c and tools/ipc-imei.c: the state machine that follows the modem from low
  power to a ready SIM, the loop that feeds it with messages, and the tool built on it.

  The static variables of modem.c are the record \<open>modem_globals\<close>; return codes are integers, with
  the errno values of Linux. The application's handler is a parameter that returns its code.
  Logging is left out. A loop that never ends is the value \<open>None\<close>.
\<close>

section \<open>Constants\<close>

definition EAGAIN :: int where "EAGAIN = 11"
definition EACCES :: int where "EACCES = 13"
definition ENODEV :: int where "ENODEV = 19"

definition MODEM_STATE_LPM :: int where "MODEM_STATE_LPM = 1"
definition MODEM_STATE_NORMAL :: int where "MODEM_STATE_NORMAL = 2"
definition MODEM_STATE_SIM_OK :: int where "MODEM_STATE_SIM_OK = 4"

definition MODEM_CALLBACK_STATE_UTILS :: int where "MODEM_CALLBACK_STATE_UTILS = 1"
definition MODEM_CALLBACK_STATE_APP :: int where "MODEM_CALLBACK_STATE_APP = 2"

definition IPC_GROUP_PWR :: u8 where "IPC_GROUP_PWR = 0x01"
definition IPC_GROUP_SEC :: u8 where "IPC_GROUP_SEC = 0x05"
definition IPC_GROUP_MISC :: u8 where "IPC_GROUP_MISC = 0x0A"
definition IPC_TYPE_GET :: u8 where "IPC_TYPE_GET = 0x02"

definition IPC_PWR_PHONE_PWR_UP :: u16 where "IPC_PWR_PHONE_PWR_UP = 0x0101"
definition IPC_PWR_PHONE_STATE :: u16 where "IPC_PWR_PHONE_STATE = 0x0107"
definition IPC_SEC_PIN_STATUS :: u16 where "IPC_SEC_PIN_STATUS = 0x0501"
definition IPC_SEC_SIM_ICC_TYPE :: u16 where "IPC_SEC_SIM_ICC_TYPE = 0x0507"
definition IPC_MISC_ME_SN :: u16 where "IPC_MISC_ME_SN = 0x0A03"
definition IPC_MISC_ME_SN_SERIAL_NUM :: u8 where "IPC_MISC_ME_SN_SERIAL_NUM = 0x01"

definition IPC_SEC_PIN_STATUS_LOCK_SC :: u8 where "IPC_SEC_PIN_STATUS_LOCK_SC = 0x03"
definition IPC_SEC_PIN_STATUS_CARD_NOT_PRESENT :: u8 where "IPC_SEC_PIN_STATUS_CARD_NOT_PRESENT = 0x80"
definition IPC_SEC_PIN_STATUS_INIT_COMPLETE :: u8 where "IPC_SEC_PIN_STATUS_INIT_COMPLETE = 0x82"
definition IPC_SEC_SIM_CARD_TYPE_UNKNOWN :: u8 where "IPC_SEC_SIM_CARD_TYPE_UNKNOWN = 0x00"

lemmas modem_states = MODEM_STATE_LPM_def MODEM_STATE_NORMAL_def MODEM_STATE_SIM_OK_def
  MODEM_CALLBACK_STATE_UTILS_def MODEM_CALLBACK_STATE_APP_def

lemmas modem_commands = IPC_PWR_PHONE_PWR_UP_def IPC_PWR_PHONE_STATE_def IPC_SEC_PIN_STATUS_def
  IPC_SEC_SIM_ICC_TYPE_def IPC_MISC_ME_SN_def

lemmas modem_groups = IPC_GROUP_PWR_def IPC_GROUP_SEC_def IPC_GROUP_MISC_def

section \<open>State\<close>

record modem_globals =
  current_state :: int
  callback_state :: int

definition modem_initial :: modem_globals where
  "modem_initial = \<lparr>current_state = MODEM_STATE_LPM, callback_state = MODEM_CALLBACK_STATE_UTILS\<rparr>"

text \<open>The global \<open>seq\<close>, before and after; the new value is also what is returned.\<close>

definition seq_get :: "int \<Rightarrow> int" where
  "seq_get seq = (if seq = 0xff then 0 else seq) + 1"

section \<open>Answers of the modem\<close>

text \<open>\<open>n\<close> bytes of the payload: dereferencing a null pointer or reading past the block is undefined.\<close>

definition payload_bytes :: "nat \<Rightarrow> nat \<Rightarrow> ipc_message \<Rightarrow> u8 list outcome" where
  "payload_bytes off n resp = (case msg_data resp of None \<Rightarrow> Undef | Some d \<Rightarrow> peek off n d)"

text \<open>The facility lock is read with the status \<open>LOCK_SC\<close> only, to be logged.\<close>

definition modem_response_sec ::
  "ipc_client option \<Rightarrow> ipc_message \<Rightarrow> int \<Rightarrow> modem_globals \<Rightarrow> (int \<times> modem_globals) outcome" where
  "modem_response_sec client resp new_state st =
     (if client = None then Done (0, st)
      else if msg_command resp = IPC_SEC_PIN_STATUS then
        obind (payload_bytes 0 1 resp) (\<lambda>status.
          if hd status = IPC_SEC_PIN_STATUS_CARD_NOT_PRESENT then
            Done (if new_state = MODEM_STATE_SIM_OK then - ENODEV else 0, st)
          else if hd status = IPC_SEC_PIN_STATUS_LOCK_SC then
            obind (payload_bytes 1 1 resp) (\<lambda>facility_lock.
            Done (if new_state = MODEM_STATE_SIM_OK then - EACCES else - EAGAIN, st))
          else if hd status = IPC_SEC_PIN_STATUS_INIT_COMPLETE \<and> current_state st = MODEM_STATE_NORMAL then
            Done (0, st\<lparr>current_state := MODEM_STATE_SIM_OK\<rparr>)
          else Done (- EAGAIN, st))
      else if msg_command resp = IPC_SEC_SIM_ICC_TYPE then
        obind (payload_bytes 0 1 resp) (\<lambda>type.
          Done (if hd type = IPC_SEC_SIM_CARD_TYPE_UNKNOWN \<and> new_state = MODEM_STATE_SIM_OK
                then - ENODEV else - EAGAIN, st))
      else Done (- EAGAIN, st))"

text \<open>The phone state is read as an \<open>int\<close>.\<close>

definition modem_response_pwr ::
  "ipc_client option \<Rightarrow> ipc_message \<Rightarrow> int \<Rightarrow> modem_globals \<Rightarrow> (int \<times> modem_globals) outcome" where
  "modem_response_pwr client resp new_state st =
     (if client = None then Done (0, st)
      else if msg_command resp = IPC_PWR_PHONE_PWR_UP then Done (0, st\<lparr>current_state := MODEM_STATE_LPM\<rparr>)
      else if msg_command resp = IPC_PWR_PHONE_STATE then
        obind (payload_bytes 0 4 resp) (\<lambda>state_n. Done (0, st\<lparr>current_state := sint (get32 state_n)\<rparr>))
      else Done (0, st))"

definition modem_start_response_handle ::
  "ipc_client option \<Rightarrow> ipc_message \<Rightarrow> int \<Rightarrow> modem_globals \<Rightarrow> (int \<times> modem_globals) outcome" where
  "modem_start_response_handle client resp new_state st =
     (if client = None then Done (0, st)
      else if IPC_GROUP (msg_command resp) = IPC_GROUP_PWR then
        obind (modem_response_pwr client resp new_state st) (\<lambda>(rc, st').
          if rc = 0 then Done (- EAGAIN, st') else Done (rc, st'))
      else if IPC_GROUP (msg_command resp) = IPC_GROUP_SEC then modem_response_sec client resp new_state st
      else Done (- EAGAIN, st))"

text \<open>The application's handler, with its data.\<close>

type_synonym app_handler = "ipc_message \<Rightarrow> int io"

record app_modem_response_handler =
  amh_handler :: "app_handler option"

definition register_app_modem_response_handler ::
  "ipc_client option \<Rightarrow> app_modem_response_handler option \<Rightarrow> app_handler option \<Rightarrow> app_modem_response_handler option" where
  "register_app_modem_response_handler client handler handler_func =
     (if client = None then handler
      else case handler of None \<Rightarrow> None | Some h \<Rightarrow> Some (h\<lparr>amh_handler := handler_func\<rparr>))"

definition modem_response_handle ::
  "ipc_client option \<Rightarrow> ipc_message \<Rightarrow> int \<Rightarrow> app_modem_response_handler option \<Rightarrow> modem_globals \<Rightarrow>
   (int \<times> modem_globals) io" where
  "modem_response_handle client resp new_state handler st =
     (if client = None then ret (0, st)
      else
        let st = (if current_state st = new_state then st\<lparr>callback_state := MODEM_CALLBACK_STATE_APP\<rparr> else st) in
        if callback_state st = MODEM_CALLBACK_STATE_UTILS
        then lift_outcome (modem_start_response_handle client resp new_state st)
        else (case handler of None \<Rightarrow> undef
              | Some h \<Rightarrow> (case amh_handler h of None \<Rightarrow> undef
                | Some app \<Rightarrow> bnd (app resp) (\<lambda>rc. ret (rc, st)))))"

section \<open>The loop\<close>

text \<open>The cleared structure the loop starts with.\<close>

definition zero_message :: ipc_message where
  "zero_message = \<lparr>msg_mseq = 0, msg_aseq = 0, msg_command = 0, msg_type = 0, msg_data = None, msg_size = 0\<rparr>"

text \<open>
  \<open>stale\<close> tells that \<open>resp.data\<close> points to a block that the round before has freed. Receiving first
  clears the message; when it fails before it does, the block is freed again, which is undefined.
  (A failure after that point, in the middle of a payload, is counted as
  undefined too.) After the handler \<open>-EAGAIN\<close> and positive codes go on, other negative codes end
  the loop, and so does 0, after which the application has the control.
\<close>

partial_function (option) modem_loop ::
  "ipc_client option \<Rightarrow> int \<Rightarrow> app_modem_response_handler option \<Rightarrow> bool \<Rightarrow> modem_globals \<Rightarrow> world \<Rightarrow>
   ((int \<times> modem_globals) outcome \<times> world) option" where
  "modem_loop client new_state handler stale st w =
     (case ipc_client_poll client None w of
        (Undef, w1) \<Rightarrow> Some (Undef, w1)
      | (Fail, w1) \<Rightarrow> modem_loop client new_state handler stale st w1
      | (Done (rc, fds), w1) \<Rightarrow>
          if rc < 0 then modem_loop client new_state handler stale st w1
          else
            (case ipc_client_recv client (Some zero_message) w1 of
               (Undef, w2) \<Rightarrow> Some (Undef, w2)
             | (Fail, w2) \<Rightarrow> Some (if stale then Undef else Done (-1, st), w2)
             | (Done resp, w2) \<Rightarrow>
                 (case modem_response_handle client resp new_state handler st w2 of
                    (Undef, w3) \<Rightarrow> Some (Undef, w3)
                  | (Fail, w3) \<Rightarrow> Some (Fail, w3)
                  | (Done (rc, st'), w3) \<Rightarrow>
                      if rc = - EAGAIN then modem_loop client new_state handler (msg_data resp \<noteq> None) st' w3
                      else if rc < 0 then Some (Done (rc, st'), w3)
                      else if rc = 0 then
                        Some (Done (0, if callback_state st' = MODEM_CALLBACK_STATE_UTILS
                                       then st'\<lparr>callback_state := MODEM_CALLBACK_STATE_APP\<rparr> else st'), w3)
                      else modem_loop client new_state handler (msg_data resp \<noteq> None) st' w3)))"

text \<open>
  The pointer to the client that the functions of the tools pass around. \<open>through\<close> is a call that looks at
  the client, as every function of ipc.c does that is given a pointer which is not null: once the client
  was destroyed, this is undefined.
\<close>

datatype client_ref = No_client | Live ipc_client | Freed

definition target :: "client_ref \<Rightarrow> ipc_client option outcome" where
  "target client = (case client of No_client \<Rightarrow> Done None | Live c \<Rightarrow> Done (Some c) | Freed \<Rightarrow> Undef)"

definition through :: "client_ref \<Rightarrow> (ipc_client option \<Rightarrow> 'a io) \<Rightarrow> 'a io" where
  "through client f = bnd (lift_outcome (target client)) f"

text \<open>\<open>request_imei\<close> is the function of the application; the loop begins with a call that polls the client.\<close>

definition modem_read_loop ::
  "client_ref \<Rightarrow> int \<Rightarrow> app_modem_response_handler option \<Rightarrow> (client_ref \<Rightarrow> int io) \<Rightarrow> modem_globals \<Rightarrow> world \<Rightarrow>
   ((int \<times> modem_globals) outcome \<times> world) option" where
  "modem_read_loop client new_state handler request_imei st w =
     (if client = No_client then Some (Done (0, st), w)
      else
        (case request_imei client w of
           (Undef, w1) \<Rightarrow> Some (Undef, w1)
         | (_, w1) \<Rightarrow>
             (case target client of
                Done c \<Rightarrow> modem_loop c new_state handler False st w1
              | _ \<Rightarrow> Some (Undef, w1))))"

section \<open>Starting and stopping\<close>

definition modem_start_steps :: "ipc_client option \<Rightarrow> ipc_client option io" where
  "modem_start_steps client =
     (if client = None then ret None
      else
        bnd (ipc_client_data_create client) (\<lambda>c.
        bnd (ipc_client_boot (Some c)) (\<lambda>_.
        bnd (ipc_client_power_on (Some c)) (\<lambda>_.
        bnd (ipc_client_open (Some c)) (\<lambda>_.
        bnd (ipc_client_power_on (Some c)) (\<lambda>_.
        ret (Some c)))))))"

text \<open>
  The second component is what the pointer of the caller points to afterwards: starting changes the client
  in place, and after a failure it is destroyed.
\<close>

definition modem_start :: "client_ref \<Rightarrow> int \<Rightarrow> (int \<times> client_ref) io" where
  "modem_start client new_state w =
     (if client = No_client then (Done (0, client), w)
      else
        (case through client modem_start_steps w of
           (Done c, w') \<Rightarrow> (Done (0, case c of None \<Rightarrow> No_client | Some c' \<Rightarrow> Live c'), w')
         | (Fail, w') \<Rightarrow>
             bnd (through client (\<lambda>c. try_rc (lift_outcome (ipc_client_destroy c)))) (\<lambda>_. ret (1, Freed)) w'
         | (Undef, w') \<Rightarrow> (Undef, w')))"

definition modem_stop :: "ipc_client option \<Rightarrow> unit io" where
  "modem_stop client = bnd (ipc_client_close client) (\<lambda>_. ipc_client_power_off client)"

section \<open>ipc-imei\<close>

definition ipc_imei_request_imei :: "client_ref \<Rightarrow> int \<Rightarrow> int \<times> int io" where
  "ipc_imei_request_imei client seq =
     (if client = No_client then (seq, ret 0)
      else (seq_get seq,
        try_rc (through client (\<lambda>c. ipc_client_send c (of_int (seq_get seq)) IPC_MISC_ME_SN IPC_TYPE_GET
          (Some [IPC_MISC_ME_SN_SERIAL_NUM]) 1))))"

text \<open>The text that is logged, cut to 15 characters, behind the return code.\<close>

definition ipc_imei_parse_imei_response ::
  "ipc_client option \<Rightarrow> ipc_message option \<Rightarrow> (int \<times> u8 list option) outcome" where
  "ipc_imei_parse_imei_response client message =
     (if client = None then Done (0, None)
      else case message of None \<Rightarrow> Done (- EAGAIN, None)
      | Some m \<Rightarrow>
          obind (payload_bytes 0 1 m) (\<lambda>type.
          if hd type \<noteq> IPC_MISC_ME_SN_SERIAL_NUM then Done (- EAGAIN, None)
          else
            obind (payload_bytes 1 1 m) (\<lambda>len.
            case ipc_misc_me_sn_extract (Some \<lparr>sn_type = hd type, sn_length = hd len,
                   sn_data = drop 2 (the (msg_data m))\<rparr>) of
              Done imei \<Rightarrow> Done (0, Some (if strlen imei > 15 then take 15 imei else cstr imei))
            | _ \<Rightarrow> Undef)))"

definition ipc_imei_response_handle :: "ipc_client option \<Rightarrow> ipc_message \<Rightarrow> int outcome" where
  "ipc_imei_response_handle client resp =
     (if client = None then Done 0
      else if IPC_GROUP (msg_command resp) = IPC_GROUP_MISC \<and> msg_command resp = IPC_MISC_ME_SN then
        obind (ipc_imei_parse_imei_response client (Some resp)) (\<lambda>(rc, imei). Done rc)
      else Done (- EAGAIN))"

text \<open>
  \<open>main\<close> from a created client on, with its exit status. Its pointer to the client stays what it was when
  \<open>modem_start\<close> has destroyed the client.
\<close>

definition ipc_imei_main :: "ipc_client option \<Rightarrow> world \<Rightarrow> (int outcome \<times> world) option" where
  "ipc_imei_main created w =
     (case created of
        None \<Rightarrow> Some (Done 1, w)
      | Some c \<Rightarrow>
          let handler = register_app_modem_response_handler created (Some \<lparr>amh_handler = None\<rparr>)
                (Some (\<lambda>resp. lift_outcome (ipc_imei_response_handle created resp))) in
          (case modem_start (Live c) MODEM_STATE_NORMAL w of
             (Undef, w1) \<Rightarrow> Some (Undef, w1)
           | (Fail, w1) \<Rightarrow> Some (Fail, w1)
           | (Done (rc, client), w1) \<Rightarrow>
               if rc < 0 then Some (Done 1, w1)
               else
                 (case modem_read_loop client MODEM_STATE_NORMAL handler (\<lambda>c. snd (ipc_imei_request_imei c 0)) modem_initial w1 of
                    None \<Rightarrow> None
                  | Some (Undef, w2) \<Rightarrow> Some (Undef, w2)
                  | Some (_, w2) \<Rightarrow>
                      (case through client modem_stop w2 of
                         (Done _, w3) \<Rightarrow> Some (Done 0, w3)
                       | (Fail, w3) \<Rightarrow> Some (Done 1, w3)
                       | (Undef, w3) \<Rightarrow> Some (Undef, w3)))))"


section \<open>The machine\<close>

text \<open>
  What the loop does with one round, without poll, messages and handler: nothing came, receiving
  failed, a message was handled here, or the application handled it.
\<close>

datatype phase = Waiting modem_globals | Returned int modem_globals

definition handled :: "int \<Rightarrow> modem_globals \<Rightarrow> phase" where
  "handled rc st =
     (if rc = - EAGAIN \<or> 0 < rc then Waiting st
      else if rc < 0 then Returned rc st
      else Returned 0 (if callback_state st = MODEM_CALLBACK_STATE_UTILS
                       then st\<lparr>callback_state := MODEM_CALLBACK_STATE_APP\<rparr> else st))"

inductive modem_step :: "int \<Rightarrow> phase \<Rightarrow> phase \<Rightarrow> bool" for new_state where
  idle: "modem_step new_state (Waiting st) (Waiting st)"
| lost: "modem_step new_state (Waiting st) (Returned (-1) st)"
| startup: "callback_state st = MODEM_CALLBACK_STATE_UTILS \<Longrightarrow> current_state st \<noteq> new_state \<Longrightarrow>
    modem_start_response_handle (Some c) resp new_state st = Done (rc, st') \<Longrightarrow>
    modem_step new_state (Waiting st) (handled rc st')"
| application: "callback_state st \<noteq> MODEM_CALLBACK_STATE_UTILS \<or> current_state st = new_state \<Longrightarrow>
    modem_step new_state (Waiting st)
      (handled rc (if current_state st = new_state then st\<lparr>callback_state := MODEM_CALLBACK_STATE_APP\<rparr> else st))"

inductive_cases modem_stepE: "modem_step new_state (Waiting st) ph"
inductive_simps modem_step_Returned: "modem_step new_state (Returned rc st) ph"

abbreviation modem_steps :: "int \<Rightarrow> phase \<Rightarrow> phase \<Rightarrow> bool" where
  "modem_steps new_state \<equiv> (modem_step new_state)\<^sup>*\<^sup>*"

text \<open>A round of the loop that handles a message is a step.\<close>

lemma handle_step:
  assumes "modem_response_handle (Some c) resp new_state handler st w = (Done (rc, st'), w')"
  shows "modem_step new_state (Waiting st) (handled rc st')"
proof -
  let ?st = "if current_state st = new_state then st\<lparr>callback_state := MODEM_CALLBACK_STATE_APP\<rparr> else st"
  show ?thesis
  proof (cases "callback_state st = MODEM_CALLBACK_STATE_UTILS \<and> current_state st \<noteq> new_state")
    case True
    then have "modem_start_response_handle (Some c) resp new_state st = Done (rc, st')"
      using assms by (simp add: modem_response_handle_def Let_def lift_outcome_eq)
    with True show ?thesis by (blast intro: modem_step.startup)
  next
    case False
    then have "callback_state ?st \<noteq> MODEM_CALLBACK_STATE_UTILS" by (auto simp: modem_states)
    then have "st' = ?st"
      using assms by (auto simp: modem_response_handle_def Let_def undef_eq bnd_eq_Done ret_eq
          split: option.splits if_splits)
    with False show ?thesis using modem_step.application [of st new_state rc] by (simp only: de_Morgan_conj not_not)
  qed
qed

lemma modem_loop_steps:
  assumes "modem_loop (Some c) new_state handler stale st w = Some (Done (rc, st'), w')"
  shows "modem_steps new_state (Waiting st) (Returned rc st')"
proof -
  let ?P = "\<lambda>client new_state handler stale st w y. client = Some c \<longrightarrow>
    (\<forall>rc st' w'. y = (Done (rc, st'), w') \<longrightarrow> modem_steps new_state (Waiting st) (Returned rc st'))"
  have "?P (Some c) new_state handler stale st w (Done (rc, st'), w')"
  proof (rule modem_loop.raw_induct [where P = ?P, OF _ assms], intro impI allI)
    fix loop client new_state handler stale st w y rc st' w'
    assume IH: "\<And>client new_state handler stale st w y. loop client new_state handler stale st w = Some y \<Longrightarrow> ?P client new_state handler stale st w y"
      and body: "(case ipc_client_poll client None w of
        (Undef, w1) \<Rightarrow> Some (Undef, w1)
      | (Fail, w1) \<Rightarrow> loop client new_state handler stale st w1
      | (Done (rc, fds), w1) \<Rightarrow>
          if rc < 0 then loop client new_state handler stale st w1
          else
            (case ipc_client_recv client (Some zero_message) w1 of
               (Undef, w2) \<Rightarrow> Some (Undef, w2)
             | (Fail, w2) \<Rightarrow> Some (if stale then Undef else Done (-1, st), w2)
             | (Done resp, w2) \<Rightarrow>
                 (case modem_response_handle client resp new_state handler st w2 of
                    (Undef, w3) \<Rightarrow> Some (Undef, w3)
                  | (Fail, w3) \<Rightarrow> Some (Fail, w3)
                  | (Done (rc, st'), w3) \<Rightarrow>
                      if rc = - EAGAIN then loop client new_state handler (msg_data resp \<noteq> None) st' w3
                      else if rc < 0 then Some (Done (rc, st'), w3)
                      else if rc = 0 then
                        Some (Done (0, if callback_state st' = MODEM_CALLBACK_STATE_UTILS
                                       then st'\<lparr>callback_state := MODEM_CALLBACK_STATE_APP\<rparr> else st'), w3)
                      else loop client new_state handler (msg_data resp \<noteq> None) st' w3))) = Some y"
      and c: "client = Some c" and y: "y = (Done (rc, st'), w')"
    obtain r1 w1 where p: "ipc_client_poll client None w = (r1, w1)" by fastforce
    obtain r2 w2 where q: "ipc_client_recv client (Some zero_message) w1 = (r2, w2)" by fastforce
    have again: "modem_steps new_state (Waiting st) (Returned rc st')"
      if "loop client new_state handler stale1 st1 v = Some y" "modem_step new_state (Waiting st) (Waiting st1)" for stale1 st1 v
    proof -
      have "modem_steps new_state (Waiting st1) (Returned rc st')"
        using IH [OF that(1)] c y by blast
      with that(2) show ?thesis by (rule converse_rtranclp_into_rtranclp)
    qed
    show "modem_steps new_state (Waiting st) (Returned rc st')"
    proof (cases "\<exists>rc1 fds. r1 = Done (rc1, fds) \<and> \<not> rc1 < 0")
      case False
      with body p y have "loop client new_state handler stale st w1 = Some y"
        by (auto split: outcome.splits)
      then show ?thesis by (rule again) (rule modem_step.idle)
    next
      case True
      then obtain rc1 fds where r1: "r1 = Done (rc1, fds)" "\<not> rc1 < 0" by blast
      show ?thesis
      proof (cases r2)
        case Fail
        with body p q r1 y have "rc = -1" "st' = st" by (simp_all split: if_splits)
        then show ?thesis by (simp add: r_into_rtranclp modem_step.lost)
      next
        case Undef
        with body p q r1 y show ?thesis by simp
      next
        case (Done resp)
        obtain r3 w3 where h: "modem_response_handle client resp new_state handler st w2 = (r3, w3)" by fastforce
        with body p q r1 y Done obtain rc3 st3 where r3: "r3 = Done (rc3, st3)" by (cases r3) (auto split: if_splits)
        have step: "modem_step new_state (Waiting st) (handled rc3 st3)"
          using handle_step h r3 c by blast
        show ?thesis
        proof (cases "rc3 = - EAGAIN \<or> 0 < rc3")
          case True
          with body p q r1 Done h r3 have "loop client new_state handler (msg_data resp \<noteq> None) st3 w3 = Some y"
            by (auto simp: EAGAIN_def split: if_splits)
          then show ?thesis by (rule again) (use step True in \<open>simp add: handled_def\<close>)
        next
          case False
          with body p q r1 Done h r3 y have "handled rc3 st3 = Returned rc st'"
            by (auto simp: handled_def split: if_splits)
          with step show ?thesis by (simp add: r_into_rtranclp)
        qed
      qed
    qed
  qed
  then show ?thesis by blast
qed

section \<open>Invariants\<close>

text \<open>What holds in every phase reached from the start.\<close>

fun globals_of :: "phase \<Rightarrow> modem_globals" where
  "globals_of (Waiting st) = st"
| "globals_of (Returned rc st) = st"

definition followed :: "int \<Rightarrow> phase \<Rightarrow> bool" where
  "followed new_state ph \<longleftrightarrow>
     callback_state (globals_of ph) \<in> {MODEM_CALLBACK_STATE_UTILS, MODEM_CALLBACK_STATE_APP} \<and>
     (case ph of
        Waiting st \<Rightarrow> callback_state st = MODEM_CALLBACK_STATE_APP \<longrightarrow> current_state st = new_state
      | Returned rc st \<Rightarrow> rc \<le> 0 \<and> (rc = 0 \<longrightarrow> callback_state st = MODEM_CALLBACK_STATE_APP))"

lemma start_response_codes:
  "modem_start_response_handle (Some c) resp new_state st = Done (rc, st') \<Longrightarrow>
   callback_state st' = callback_state st \<and> rc \<in> {0, - EAGAIN, - ENODEV, - EACCES} \<and>
   (rc = 0 \<longrightarrow> current_state st' = MODEM_STATE_SIM_OK \<or>
      (st' = st \<and> new_state \<noteq> MODEM_STATE_SIM_OK \<and> msg_command resp = IPC_SEC_PIN_STATUS))"
  by (auto simp: modem_start_response_handle_def modem_response_pwr_def modem_response_sec_def obind_Done_iff
      modem_states modem_commands EAGAIN_def ENODEV_def EACCES_def split: if_splits)

lemma followed_step: "modem_step new_state ph ph' \<Longrightarrow> followed new_state ph \<Longrightarrow> followed new_state ph'"
proof (induction rule: modem_step.induct)
  case (startup st c resp rc st')
  from start_response_codes [OF startup(3)] startup(1,4) show ?case
    by (auto simp: followed_def handled_def modem_states EAGAIN_def ENODEV_def EACCES_def)
next
  case (application st rc)
  then show ?case
    by (auto simp: followed_def handled_def modem_states)
qed (auto simp: followed_def)

lemma followed_steps: "modem_steps new_state ph ph' \<Longrightarrow> followed new_state ph \<Longrightarrow> followed new_state ph'"
  by (induction rule: rtranclp_induct) (auto dest: followed_step)

lemma followed_initial: "followed new_state (Waiting modem_initial)"
  by (simp add: followed_def modem_initial_def modem_states)

text \<open>How a run has ended, by its code.\<close>

definition ended :: "int \<Rightarrow> phase \<Rightarrow> bool" where
  "ended new_state ph \<longleftrightarrow> (case ph of Waiting st \<Rightarrow> True
     | Returned rc st \<Rightarrow>
        (rc = 0 \<longrightarrow> current_state st = new_state \<or> current_state st = MODEM_STATE_SIM_OK \<or> new_state \<noteq> MODEM_STATE_SIM_OK) \<and>
        (rc < 0 \<longrightarrow> rc = -1 \<or>
          (new_state = MODEM_STATE_SIM_OK \<and> rc \<in> {- ENODEV, - EACCES} \<and> callback_state st = MODEM_CALLBACK_STATE_UTILS \<and>
            current_state st \<noteq> new_state) \<or>
          (current_state st = new_state \<and> callback_state st = MODEM_CALLBACK_STATE_APP)))"

lemma ended_initial: "ended new_state (Waiting modem_initial)"
  by (simp add: ended_def)

text \<open>The codes for a missing or locked card are returned only where a SIM is required, and change nothing.\<close>

lemma start_response_refusal:
  "modem_start_response_handle (Some c) resp new_state st = Done (rc, st') \<Longrightarrow> rc < 0 \<Longrightarrow> rc \<noteq> - EAGAIN \<Longrightarrow>
   new_state = MODEM_STATE_SIM_OK \<and> rc \<in> {- ENODEV, - EACCES} \<and> st' = st"
  by (auto simp: modem_start_response_handle_def modem_response_pwr_def modem_response_sec_def obind_Done_iff
      modem_states modem_commands EAGAIN_def ENODEV_def EACCES_def split: if_splits)

lemma ended_step:
  "modem_step new_state ph ph' \<Longrightarrow> followed new_state ph \<Longrightarrow> ended new_state ph \<Longrightarrow> ended new_state ph'"
proof (induction rule: modem_step.induct)
  case (startup st c resp rc st')
  from start_response_codes [OF startup(3)] start_response_refusal [OF startup(3)] startup(1,2) show ?case
    by (auto simp: ended_def handled_def)
next
  case (application st rc)
  then show ?case
    by (auto simp: ended_def followed_def handled_def modem_states)
qed (auto simp: ended_def)

lemma ended_steps:
  assumes "modem_steps new_state ph ph'" "ended new_state ph" "followed new_state ph"
  shows "ended new_state ph'"
proof -
  from assms(1) have "ended new_state ph' \<and> followed new_state ph'"
    by (induction rule: rtranclp_induct) (use assms(2,3) ended_step followed_step in blast)+
  then show ?thesis ..
qed

text \<open>Once the application has the control, it keeps it and the state is left alone.\<close>

lemma app_step:
  "modem_step new_state ph ph' \<Longrightarrow> callback_state (globals_of ph) = MODEM_CALLBACK_STATE_APP \<Longrightarrow>
   globals_of ph' = globals_of ph"
  by (induction rule: modem_step.induct) (auto simp: handled_def modem_states)

lemma app_steps:
  "modem_steps new_state ph ph' \<Longrightarrow> callback_state (globals_of ph) = MODEM_CALLBACK_STATE_APP \<Longrightarrow>
   globals_of ph' = globals_of ph"
  by (induction rule: rtranclp_induct) (auto dest: app_step)

lemma app_keeps_state:
  assumes "modem_loop (Some c) new_state handler stale st w = Some (Done (rc, st'), w')"
    and "callback_state st = MODEM_CALLBACK_STATE_APP"
  shows "st' = st"
  using app_steps [OF modem_loop_steps [OF assms(1)]] assms(2) by simp

text \<open>A required SIM: the control is not handed over before the state says so.\<close>

definition sim_sound :: "phase \<Rightarrow> bool" where
  "sim_sound ph \<longleftrightarrow> (callback_state (globals_of ph) = MODEM_CALLBACK_STATE_APP \<longrightarrow>
     current_state (globals_of ph) = MODEM_STATE_SIM_OK) \<and>
     callback_state (globals_of ph) \<in> {MODEM_CALLBACK_STATE_UTILS, MODEM_CALLBACK_STATE_APP}"

lemma sim_sound_step: "modem_step MODEM_STATE_SIM_OK ph ph' \<Longrightarrow> sim_sound ph \<Longrightarrow> sim_sound ph'"
proof (induction rule: modem_step.induct)
  case (startup st c resp rc st')
  from start_response_codes [OF startup(3)] startup(1,4) show ?case
    by (auto simp: sim_sound_def handled_def modem_states EAGAIN_def ENODEV_def EACCES_def)
next
  case (application st rc)
  then show ?case by (auto simp: sim_sound_def handled_def modem_states)
qed (auto simp: sim_sound_def)

lemma sim_sound_steps: "modem_steps MODEM_STATE_SIM_OK ph ph' \<Longrightarrow> sim_sound ph \<Longrightarrow> sim_sound ph'"
  by (induction rule: rtranclp_induct) (auto dest: sim_sound_step)

text \<open>
  The pointer to the payload is not cleared when it is freed: when receiving fails right after a
  message with a payload was handled, the block is freed again.
\<close>

lemma freed_payload_again:
  assumes "ipc_client_poll client None w = (Done (rc, fds), w1)" "0 \<le> rc"
    and "ipc_client_recv client (Some zero_message) w1 = (Done resp, w2)" "msg_data resp \<noteq> None"
    and "modem_response_handle client resp new_state handler st w2 = (Done (- EAGAIN, st'), w3)"
    and "ipc_client_poll client None w3 = (Done (rc', fds'), w4)" "0 \<le> rc'"
    and "ipc_client_recv client (Some zero_message) w4 = (Fail, w5)"
  shows "modem_loop client new_state handler stale st w = Some (Undef, w5)"
  using assms by (subst modem_loop.simps, simp, subst modem_loop.simps, simp)

section \<open>A modem\<close>

text \<open>A client whose modem reports its state or the status of the card, as \<open>w_ioc\<close> tells.\<close>

definition demo_answer :: "int \<Rightarrow> ipc_message" where
  "demo_answer n = (if n < 0x100
     then zero_message\<lparr>msg_command := IPC_SEC_PIN_STATUS, msg_data := Some [of_int n, 0], msg_size := 2\<rparr>
     else zero_message\<lparr>msg_command := IPC_PWR_PHONE_STATE, msg_data := Some [of_int (n - 0x100), 0, 0, 0], msg_size := 4\<rparr>)"

definition demo_answering :: ipc_client where
  "demo_answering = zero_client\<lparr>cl_handlers := Some (zero_handlers\<lparr>h_poll := Some (\<lambda>d fds. ret (1, fds))\<rparr>),
     cl_ops := Some \<lparr>op_boot = None, op_send = None,
       op_recv = Some (\<lambda>env m w. (Done (demo_answer (shd (w_ioc w))), w\<lparr>w_ioc := stl (w_ioc w)\<rparr>))\<rparr>\<rparr>"

lemma demo_round:
  "ipc_client_poll (Some demo_answering) None w = (Done (1, None), w)"
  "ipc_client_recv (Some demo_answering) (Some m) w = (Done (demo_answer (shd (w_ioc w))), w\<lparr>w_ioc := stl (w_ioc w)\<rparr>)"
  by (simp_all add: demo_answering_def ipc_client_poll_def ipc_client_recv_def client_handler_def client_op_def
      zero_handlers_def zero_client_def ret_eq)

lemmas demo_answer_simps = modem_response_handle_def modem_start_response_handle_def modem_commands modem_groups
  IPC_GROUP_def drop_bit_eq_div modem_response_sec_def modem_response_pwr_def demo_answer_def zero_message_def
  payload_bytes_def peek_def IPC_SEC_PIN_STATUS_CARD_NOT_PRESENT_def IPC_SEC_PIN_STATUS_LOCK_SC_def
  IPC_SEC_PIN_STATUS_INIT_COMPLETE_def modem_states EAGAIN_def lift_outcome_eq

lemma demo_absent_run:
  "w_ioc w = 0x80 ## xs \<Longrightarrow> \<exists>w'. modem_loop (Some demo_answering) 2 None False modem_initial w =
     Some (Done (0, \<lparr>current_state = 1, callback_state = 2\<rparr>), w')"
  by (subst modem_loop.simps) (simp add: demo_round demo_answer_simps modem_initial_def)

lemma demo_ready_run:
  "w_ioc w = 0x102 ## 0x82 ## xs \<Longrightarrow> \<exists>w'. modem_loop (Some demo_answering) 4 None False modem_initial w =
     Some (Done (0, \<lparr>current_state = 4, callback_state = 2\<rparr>), w')"
  by (subst modem_loop.simps, simp add: demo_round demo_answer_simps modem_initial_def,
      subst modem_loop.simps, simp add: demo_round demo_answer_simps get32_def)

text \<open>
  A tool that requires the normal state is not told apart from one that has it: a missing card
  ends the start with 0 while the modem is still in low power.
\<close>

lemma absent_card_ends_start:
  "modem_step MODEM_STATE_NORMAL (Waiting modem_initial)
     (Returned 0 (modem_initial\<lparr>callback_state := MODEM_CALLBACK_STATE_APP\<rparr>))"
proof -
  let ?resp = "zero_message\<lparr>msg_command := IPC_SEC_PIN_STATUS, msg_data := Some [0x80, 0], msg_size := 2\<rparr>"
  have "modem_start_response_handle (Some zero_client) ?resp MODEM_STATE_NORMAL modem_initial = Done (0, modem_initial)"
    by (simp add: modem_start_response_handle_def modem_commands modem_groups IPC_GROUP_def drop_bit_eq_div
        modem_response_sec_def zero_message_def payload_bytes_def peek_def IPC_SEC_PIN_STATUS_CARD_NOT_PRESENT_def
        modem_states)
  from modem_step.startup [OF _ _ this] show ?thesis
    by (simp add: modem_initial_def modem_states handled_def EAGAIN_def)
qed

section \<open>What the messages tell\<close>

text \<open>
  The messages of the modem as the tools see them, and \<open>None\<close> for one whose payload is too short. Then what
  the tools make of them: the code and the state of the modem after a message, for a required state.
\<close>

datatype news = Powered_up | Phone_state int | Card_absent | Card_locked | Card_ready | Card_type_unknown | Other_news

definition news_of :: "ipc_message \<Rightarrow> news option" where
  "news_of resp =
     (let cmd = msg_command resp; d = (case msg_data resp of None \<Rightarrow> [] | Some d \<Rightarrow> d) in
      if cmd = IPC_PWR_PHONE_PWR_UP then Some Powered_up
      else if cmd = IPC_PWR_PHONE_STATE then
        (if length d < 4 then None else Some (Phone_state (sint (get32 d))))
      else if cmd = IPC_SEC_PIN_STATUS then
        (if d = [] then None
         else if hd d = 0x80 then Some Card_absent
         else if hd d = 0x03 then (if length d < 2 then None else Some Card_locked)
         else if hd d = 0x82 then Some Card_ready
         else Some Other_news)
      else if cmd = IPC_SEC_SIM_ICC_TYPE then
        (if d = [] then None else if hd d = 0 then Some Card_type_unknown else Some Other_news)
      else Some Other_news)"

fun reaction :: "int \<Rightarrow> int \<Rightarrow> news \<Rightarrow> int \<times> int" where
  "reaction required cur Powered_up = (- EAGAIN, MODEM_STATE_LPM)"
| "reaction required cur (Phone_state n) = (- EAGAIN, n)"
| "reaction required cur Card_absent = (if required = MODEM_STATE_SIM_OK then - ENODEV else 0, cur)"
| "reaction required cur Card_locked = (if required = MODEM_STATE_SIM_OK then - EACCES else - EAGAIN, cur)"
| "reaction required cur Card_ready =
     (if cur = MODEM_STATE_NORMAL then (0, MODEM_STATE_SIM_OK) else (- EAGAIN, cur))"
| "reaction required cur Card_type_unknown = (if required = MODEM_STATE_SIM_OK then - ENODEV else - EAGAIN, cur)"
| "reaction required cur Other_news = (- EAGAIN, cur)"

text \<open>
  What becomes of a sequence of messages, and those that are left: the loop ends with a code, the next
  message is the application's, the loop waits for more, or a message is too short.
\<close>

datatype verdict = Ended int int | To_application | Waits int | Too_short

fun follow :: "int \<Rightarrow> int \<Rightarrow> ipc_message list \<Rightarrow> verdict \<times> ipc_message list" where
  "follow required cur [] = (if cur = required then To_application else Waits cur, [])"
| "follow required cur (m # ms) =
     (if cur = required then (To_application, m # ms)
      else case news_of m of
             None \<Rightarrow> (Too_short, ms)
           | Some n \<Rightarrow> (case reaction required cur n of (code, cur') \<Rightarrow>
               if code = - EAGAIN then follow required cur' ms else (Ended code cur', ms)))"

text \<open>A client that delivers these messages: each time, polling is ready and a message is received.\<close>

inductive delivers :: "ipc_client \<Rightarrow> ipc_message list \<Rightarrow> world \<Rightarrow> world \<Rightarrow> bool" for c where
  nothing: "delivers c [] w w"
| message: "ipc_client_poll (Some c) None w = (Done (rc, fds), w1) \<Longrightarrow> 0 \<le> rc \<Longrightarrow>
    ipc_client_recv (Some c) (Some zero_message) w1 = (Done m, w2) \<Longrightarrow> delivers c ms w2 w' \<Longrightarrow>
    delivers c (m # ms) w w'"

inductive_cases delivers_ConsE: "delivers c (m # ms) w w'"

text \<open>One message: the handler of the tools does what \<open>reaction\<close> says.\<close>

lemma start_handler_news:
  "modem_start_response_handle (Some c) m required st =
     (case news_of m of None \<Rightarrow> Undef
      | Some n \<Rightarrow> (case reaction required (current_state st) n of (code, cur) \<Rightarrow> Done (code, st\<lparr>current_state := cur\<rparr>)))"
proof (cases "msg_command m \<in> {IPC_PWR_PHONE_PWR_UP, IPC_PWR_PHONE_STATE, IPC_SEC_PIN_STATUS, IPC_SEC_SIM_ICC_TYPE}")
  case True
  then show ?thesis
    by (auto simp: modem_start_response_handle_def modem_groups IPC_GROUP_def drop_bit_eq_div modem_response_pwr_def
        modem_response_sec_def news_of_def modem_commands payload_bytes_def peek_def Let_def EAGAIN_def
        IPC_SEC_PIN_STATUS_CARD_NOT_PRESENT_def IPC_SEC_PIN_STATUS_LOCK_SC_def IPC_SEC_PIN_STATUS_INIT_COMPLETE_def
        IPC_SEC_SIM_CARD_TYPE_UNKNOWN_def hd_take get32_def not_less Suc_le_eq split: option.split)
next
  case False
  then show ?thesis
    by (simp add: modem_start_response_handle_def modem_response_pwr_def modem_response_sec_def news_of_def EAGAIN_def)
qed

lemma follow_loop:
  "follow required cur msgs = (v, left) \<Longrightarrow> delivers c msgs w w' \<Longrightarrow> current_state st = cur \<Longrightarrow>
   callback_state st = MODEM_CALLBACK_STATE_UTILS \<Longrightarrow>
   \<exists>w1 stale'. delivers c left w1 w' \<and> modem_loop (Some c) required handler stale st w =
     (case v of
        Ended code cur' \<Rightarrow> Some (Done (code, \<lparr>current_state = cur', callback_state = (if code = 0
          then MODEM_CALLBACK_STATE_APP else MODEM_CALLBACK_STATE_UTILS)\<rparr>), w1)
      | To_application \<Rightarrow> modem_loop (Some c) required handler stale' (st\<lparr>current_state := required\<rparr>) w1
      | Waits cur' \<Rightarrow> modem_loop (Some c) required handler stale' (st\<lparr>current_state := cur'\<rparr>) w1
      | Too_short \<Rightarrow> Some (Undef, w1))"
proof (induction required cur msgs arbitrary: st w stale rule: follow.induct)
  case (1 required cur)
  from 1(1,2,3) have "left = []" "v = (if cur = required then To_application else Waits cur)" by auto
  with 1(2,3) show ?case by (intro exI [of _ w] exI [of _ stale]) auto
next
  case (2 required cur m ms)
  show ?case
  proof (cases "cur = required")
    case True
    with 2(2,3,4) show ?thesis by (intro exI [of _ w] exI [of _ stale]) auto
  next
    case False
    from 2(3) obtain rc fds w1 w2 where d: "ipc_client_poll (Some c) None w = (Done (rc, fds), w1)" "0 \<le> rc"
      "ipc_client_recv (Some c) (Some zero_message) w1 = (Done m, w2)" "delivers c ms w2 w'" by (rule delivers_ConsE)
    have h: "modem_response_handle (Some c) m required handler st w2 =
        (case news_of m of None \<Rightarrow> Undef
         | Some n \<Rightarrow> (case reaction required cur n of (code, cur') \<Rightarrow> Done (code, st\<lparr>current_state := cur'\<rparr>)), w2)"
      using False 2(5) unfolding 2(4) [symmetric] by (simp add: modem_response_handle_def lift_outcome_eq start_handler_news)
    show ?thesis
    proof (cases "news_of m")
      case None
      with 2(2) False have "v = Too_short" "left = ms" by auto
      with d h None show ?thesis by (intro exI [of _ w2]) (simp add: modem_loop.simps [of _ _ _ _ _ w])
    next
      case (Some n)
      obtain code cur' where r: "reaction required cur n = (code, cur')" by fastforce
      have code: "code \<le> 0" using r by (cases n) (auto simp: EAGAIN_def ENODEV_def EACCES_def split: if_splits)
      show ?thesis
      proof (cases "code = - EAGAIN")
        case True
        have f: "follow required cur' ms = (v, left)" using 2(2) False Some r True by simp
        have "modem_loop (Some c) required handler stale st w =
            modem_loop (Some c) required handler (msg_data m \<noteq> None) (st\<lparr>current_state := cur'\<rparr>) w2"
          using d h Some r True by (subst modem_loop.simps) simp
        moreover from 2(1) [OF False Some r [symmetric] True f d(4), of "st\<lparr>current_state := cur'\<rparr>" "msg_data m \<noteq> None"] 2(5)
        have "\<exists>w3 stale'. delivers c left w3 w' \<and> modem_loop (Some c) required handler (msg_data m \<noteq> None) (st\<lparr>current_state := cur'\<rparr>) w2 =
          (case v of
            Ended code cur' \<Rightarrow> Some (Done (code, \<lparr>current_state = cur', callback_state = (if code = 0
              then MODEM_CALLBACK_STATE_APP else MODEM_CALLBACK_STATE_UTILS)\<rparr>), w3)
          | To_application \<Rightarrow> modem_loop (Some c) required handler stale' (st\<lparr>current_state := required\<rparr>) w3
          | Waits cur' \<Rightarrow> modem_loop (Some c) required handler stale' (st\<lparr>current_state := cur'\<rparr>) w3
          | Too_short \<Rightarrow> Some (Undef, w3))" by (cases v) auto
        ultimately show ?thesis by simp
      next
        case stop: False
        with 2(2) False Some r have "v = Ended code cur'" "left = ms" by auto
        moreover have "modem_loop (Some c) required handler stale st w = Some (Done (code, \<lparr>current_state = cur',
            callback_state = (if code = 0 then MODEM_CALLBACK_STATE_APP else MODEM_CALLBACK_STATE_UTILS)\<rparr>), w2)"
          using d h Some r stop code 2(5) by (subst modem_loop.simps) (auto simp: modem_states)
        ultimately show ?thesis using d(4) by auto
      qed
    qed
  qed
qed

section \<open>Properties\<close>

text \<open>
  C8: the loop of the tools is a run of the state machine: whatever the client's poll and receive
  functions and the application's handler do, a return code and final state of \<open>modem_loop\<close> are
  those of a sequence of machine steps from the state it started in.
\<close>

theorem modem_loop_refines:
  assumes "modem_loop (Some c) new_state handler stale st w = Some (Done (rc, st'), w')"
  shows "modem_steps new_state (Waiting st) (Returned rc st')"
  using assms by (rule modem_loop_steps)

theorem modem_loop_refines_witness:
  "\<exists>w'. modem_loop (Some demo_answering) 4 None False modem_initial (demo_world\<lparr>w_ioc := 0x102 ## 0x82 ## sconst 0\<rparr>) =
     Some (Done (0, \<lparr>current_state = 4, callback_state = 2\<rparr>), w') \<and>
   modem_steps 4 (Waiting modem_initial) (Returned 0 \<lparr>current_state = 4, callback_state = 2\<rparr>)"
  using demo_ready_run [of "demo_world\<lparr>w_ioc := 0x102 ## 0x82 ## sconst 0\<rparr>"] by (auto dest: modem_loop_refines)



text \<open>
  C9: a tool that requires a ready SIM gets the control only when the state says that the SIM is ready: the
  loop, started in the initial state, returns 0 only then. (The state is set when the card is ready in
  normal mode, and also to whatever the modem reports as its phone state.)
\<close>

theorem modem_sim_required:
  assumes "modem_loop (Some c) MODEM_STATE_SIM_OK handler False modem_initial w = Some (Done (0, st'), w')"
  shows "current_state st' = MODEM_STATE_SIM_OK"
proof -
  have run: "modem_steps MODEM_STATE_SIM_OK (Waiting modem_initial) (Returned 0 st')"
    by (rule modem_loop_steps [OF assms])
  have "sim_sound (Waiting modem_initial)" by (simp add: sim_sound_def modem_initial_def modem_states)
  with followed_steps [OF run followed_initial] sim_sound_steps [OF run] show ?thesis
    by (simp add: followed_def sim_sound_def)
qed

theorem modem_sim_required_witness:
  "\<exists>w'. modem_loop (Some demo_answering) MODEM_STATE_SIM_OK None False modem_initial (demo_world\<lparr>w_ioc := 0x102 ## 0x82 ## sconst 0\<rparr>) =
     Some (Done (0, \<lparr>current_state = 4, callback_state = 2\<rparr>), w') \<and>
   current_state \<lparr>current_state = 4, callback_state = 2\<rparr> = MODEM_STATE_SIM_OK"
proof -
  obtain w' where run: "modem_loop (Some demo_answering) MODEM_STATE_SIM_OK None False modem_initial
      (demo_world\<lparr>w_ioc := 0x102 ## 0x82 ## sconst 0\<rparr>) = Some (Done (0, \<lparr>current_state = 4, callback_state = 2\<rparr>), w')"
    using demo_ready_run [of "demo_world\<lparr>w_ioc := 0x102 ## 0x82 ## sconst 0\<rparr>"] by (auto simp: MODEM_STATE_SIM_OK_def)
  from run modem_sim_required [OF run] show ?thesis by blast
qed



text \<open>
  The phone state is read as four bytes: the handler is defined for such a message just when
  it carries at least four, so the response of one byte that the protocol has is read out of bounds.
\<close>

theorem phone_state_over_read:
  assumes "client \<noteq> None" "msg_command resp = IPC_PWR_PHONE_STATE"
  shows "(modem_response_pwr client resp new_state st = Undef \<longleftrightarrow>
      (case msg_data resp of None \<Rightarrow> True | Some d \<Rightarrow> length d < 4)) \<and>
    (msg_data resp = Some [b] \<longrightarrow> modem_start_response_handle client resp new_state st = Undef)"
  using assms
  by (auto simp: modem_response_pwr_def modem_commands payload_bytes_def peek_def
      modem_start_response_handle_def modem_groups IPC_GROUP_def drop_bit_eq_div split: option.splits)

theorem phone_state_over_read_witness:
  "modem_response_pwr (Some zero_client) (zero_message\<lparr>msg_command := 0x0107, msg_data := Some [2]\<rparr>) 2 modem_initial = Undef \<and>
   modem_response_pwr (Some zero_client) (zero_message\<lparr>msg_command := 0x0107, msg_data := Some [2, 0, 0, 0]\<rparr>) 2 modem_initial \<noteq> Undef"
  using phone_state_over_read [of "Some zero_client" "zero_message\<lparr>msg_command := 0x0107, msg_data := Some [2]\<rparr>" 2 modem_initial 2]
    phone_state_over_read [of "Some zero_client" "zero_message\<lparr>msg_command := 0x0107, msg_data := Some [2, 0, 0, 0]\<rparr>" 2 modem_initial 2]
  by (simp add: modem_commands)

text \<open>
  The sequence numbers run from 1 to 255 and round again without 0; one in 255 of them is 255,
  which \<open>ipc_seq_valid\<close> rejects, and all others it accepts.
\<close>

theorem seq_get_cycle:
  "(seq_get ^^ Suc n) 0 = int (n mod 255) + 1 \<and>
   (ipc_seq_valid (of_int ((seq_get ^^ Suc n) 0)) = 0 \<longleftrightarrow> n mod 255 = 254)"
proof -
  have cycle: "(seq_get ^^ Suc n) 0 = int (n mod 255) + 1" for n
  proof (induction n)
    case 0
    show ?case by (simp add: seq_get_def)
  next
    case (Suc n)
    have "(seq_get ^^ Suc (Suc n)) 0 = seq_get (int (n mod 255) + 1)" using Suc by simp
    also have "\<dots> = int (Suc n mod 255) + 1"
      by (cases "n mod 255 = 254") (auto simp: seq_get_def mod_Suc)
    finally show ?case .
  qed
  have lt: "n mod 255 < 255" by simp
  have "(of_int (int (n mod 255) + 1) :: u8) = of_nat (Suc (n mod 255))" by simp
  moreover have "unat (of_nat (Suc (n mod 255)) :: u8) = Suc (n mod 255)"
    using lt by (subst unat_of_nat) (simp del: mod_less_divisor)
  ultimately show ?thesis
    unfolding cycle ipc_seq_valid_def by (auto simp: word_unat_eq_iff)
qed


text \<open>A slot that holds no descriptor: polling it fails and changes nothing.\<close>

lemma closed_poll:
  assumes "cl_handlers c = Some h" "h_poll h = Some i9300_poll" "hd_transport (h_data h) = Some a"
    and "w_heap w a = Some fd" "fd < 0"
  shows "ipc_client_poll (Some c) fds w = (Fail, w)"
  using assms by (simp add: ipc_client_poll_def client_handler_def i9300_poll_def bnd_def heap_get_def
      xmm626_kernel_smdk4412_poll_def fail_eq)

text \<open>
  C33: the loop polls until polling succeeds. On the six devices a client whose device is not open,
  because opening it failed or it was closed again, never polls with success: the loop does not
  return, whatever the state and the handler.
\<close>

theorem closed_device_never_returns:
  assumes "cl_handlers c = Some h" "h_poll h = h_poll dev" "dev \<in> smdk4412_handlers"
    and "hd_transport (h_data h) = Some a" "w_heap w a = Some fd" "fd < 0"
  shows "modem_loop (Some c) new_state handler stale st w = None"
proof (rule ccontr)
  assume "modem_loop (Some c) new_state handler stale st w \<noteq> None"
  then obtain y where y: "modem_loop (Some c) new_state handler stale st w = Some y" by blast
  have poll: "h_poll h = Some i9300_poll"
    using assms(2) smdk4412_handlers_i9300 [OF assms(3)] by (simp add: i9300_handlers_def)
  let ?P = "\<lambda>client new_state handler stale st v y. \<not> (client = Some c \<and> v = w)"
  have "?P (Some c) new_state handler stale st w y"
    by (rule modem_loop.raw_induct [where P = ?P, OF _ y])
      (clarsimp simp: closed_poll [OF assms(1) poll assms(4-6)], blast)
  then show False by simp
qed

theorem closed_device_never_returns_witness:
  "modem_loop (Some (demo_client (i9300_handlers\<lparr>h_data := (h_data i9300_handlers)\<lparr>hd_transport := Some 0\<rparr>\<rparr>)))
     MODEM_STATE_NORMAL None False modem_initial (demo_devices\<lparr>w_heap := [0 \<mapsto> -1]\<rparr>) = None"
  by (rule closed_device_never_returns [where dev = i9300_handlers and a = 0 and fd = "-1" and
        h = "i9300_handlers\<lparr>h_data := (h_data i9300_handlers)\<lparr>hd_transport := Some 0\<rparr>\<rparr>"])
    (simp_all add: demo_client_def smdk4412_handlers_def)

text \<open>
  When a step of starting the modem fails, \<open>modem_start\<close> destroys the client and returns 1, which \<open>main\<close>
  does not take for a failure: it asks for the IMEI through the client that was freed.
\<close>

lemma failed_start_uses_freed_client:
  assumes "modem_start_steps (Some c) w = (Fail, w')"
  shows "modem_start (Live c) new_state w = (Done (1, Freed), w')"
    and "ipc_imei_main (Some c) w = Some (Undef, w')"
proof -
  show start: "modem_start (Live c) new_state w = (Done (1, Freed), w')" for new_state
    using assms by (simp add: modem_start_def through_def target_def bnd_lift ipc_client_destroy_def try_rc_def bnd_def
        lift_outcome_eq ret_eq)
  have "snd (ipc_imei_request_imei Freed seq) w' = (Undef, w')" for seq
    by (simp add: ipc_imei_request_imei_def through_def target_def try_rc_def bnd_def lift_outcome_eq)
  with start [of MODEM_STATE_NORMAL] show "ipc_imei_main (Some c) w = Some (Undef, w')"
    by (simp add: ipc_imei_main_def Let_def modem_read_loop_def)
qed

end
