(* ===== verification/Xmm616.thy ===== *)
theory Xmm616
  imports Xmm626
begin

text \<open>
  modems/xmm616/xmm616.c: loading the XMM616 modem. The first image goes byte by byte over a serial
  line; firmware and NV data go to a descriptor or to device memory that is mapped.

  The attributes of the serial line (\<open>tcgetattr\<close>, \<open>tcsetattr\<close>, whose results the code does not look
  at) and the waiting times are left out.
\<close>

section \<open>Constants\<close>

definition XMM616_AT :: "u8 list" where "XMM616_AT = ascii ''AT''"
definition XMM616_AT_COUNT :: nat where "XMM616_AT_COUNT = 20"
definition XMM616_PSI_MAGIC :: u8 where "XMM616_PSI_MAGIC = 0x30"
definition XMM616_PSI_ACK :: u8 where "XMM616_PSI_ACK = 0x01"
definition XMM616_BOOTCORE_VERSION :: u8 where "XMM616_BOOTCORE_VERSION = 0xF0"

lemmas xmm616_constants = XMM616_AT_def XMM616_AT_COUNT_def XMM616_PSI_MAGIC_def XMM616_PSI_ACK_def
  XMM616_BOOTCORE_VERSION_def

section \<open>PSI\<close>

text \<open>The wake-up text, \<open>n\<close> times.\<close>

fun at_repeat :: "nat \<Rightarrow> int \<Rightarrow> unit io" where
  "at_repeat 0 serial_fd = ret ()"
| "at_repeat (Suc n) serial_fd = bnd (write_whole serial_fd XMM616_AT) (\<lambda>_. at_repeat n serial_fd)"

text \<open>The image, one byte at a time; the result is the checksum.\<close>

fun psi_loop :: "int \<Rightarrow> u8 list \<Rightarrow> u8 \<Rightarrow> u8 io" where
  "psi_loop serial_fd [] psi_crc = ret psi_crc"
| "psi_loop serial_fd (b # p) psi_crc =
     bnd select_ready (\<lambda>_.
     bnd (write_whole serial_fd [b]) (\<lambda>_.
     psi_loop serial_fd p (psi_crc XOR b)))"

text \<open>
  The \<open>do ... while\<close> that waits for the acknowledgement; with \<open>n\<close> rounds left the counter \<open>i\<close> is
  \<open>51 - n\<close>, and \<open>i++ > 50\<close> ends the last round.
\<close>

fun psi_ack_loop :: "nat \<Rightarrow> unit io" where
  "psi_ack_loop 0 = bnd select_ready (\<lambda>_. bnd (read_whole 1) (\<lambda>_. fail))"
| "psi_ack_loop (Suc n) =
     bnd select_ready (\<lambda>_.
     bnd (read_whole 1) (\<lambda>psi_ack.
     if hd psi_ack \<noteq> XMM616_PSI_ACK then psi_ack_loop n else ret ()))"

definition xmm616_psi_send ::
  "client_env option \<Rightarrow> int \<Rightarrow> u8 list option \<Rightarrow> u16 \<Rightarrow> unit io" where
  "xmm616_psi_send client serial_fd psi_data psi_size =
     (case (client, psi_data) of
        (Some _, Some mem) \<Rightarrow>
          if serial_fd < 0 \<or> psi_size = 0 then fail
          else
            bnd (at_repeat XMM616_AT_COUNT serial_fd) (\<lambda>_.
            bnd (read_whole 1) (\<lambda>version.
            bnd (check (\<not> hd version \<noteq> XMM616_BOOTCORE_VERSION)) (\<lambda>_.
            bnd (read_whole 1) (\<lambda>info.
            bnd (write_whole serial_fd [XMM616_PSI_MAGIC]) (\<lambda>_.
            bnd (write_whole serial_fd (le16 psi_size)) (\<lambda>_.
            bnd (lift_outcome (peek 0 (unat psi_size) mem)) (\<lambda>psi.
            bnd (psi_loop serial_fd psi 0) (\<lambda>psi_crc.
            bnd select_ready (\<lambda>_.
            bnd (write_whole serial_fd [psi_crc]) (\<lambda>_.
            psi_ack_loop 51))))))))))
      | _ \<Rightarrow> fail)"

section \<open>Firmware and NV data\<close>

text \<open>
  A pointer into mapped device memory is its offset with the size of the mapping; a copy past the end
  is undefined.
\<close>

type_synonym device_pointer = "(nat \<times> nat) option"

definition device_store :: "nat \<times> nat \<Rightarrow> u8 list \<Rightarrow> unit io" where
  "device_store p bs = (if fst p + length bs \<le> snd p then emit (EvStore (fst p) bs) else undef)"

definition xmm616_firmware_send ::
  "client_env option \<Rightarrow> int \<Rightarrow> device_pointer \<Rightarrow> u8 list option \<Rightarrow> unit io" where
  "xmm616_firmware_send client device_fd device_address firmware_data =
     (case (client, firmware_data) of
        (Some _, Some bs) \<Rightarrow>
          if (device_fd < 0 \<and> device_address = None) \<or> length bs = 0 then fail
          else (case device_address of
              Some p \<Rightarrow> device_store p bs
            | None \<Rightarrow> write_loop (sys_write device_fd) None bs)
      | _ \<Rightarrow> fail)"

definition xmm616_nv_data_send ::
  "(u8 list \<Rightarrow> u8 list) \<Rightarrow> client_env option \<Rightarrow> int \<Rightarrow> device_pointer \<Rightarrow> unit io" where
  "xmm616_nv_data_send md5 client device_fd device_address =
     (if client = None \<or> (device_fd < 0 \<and> device_address = None) then fail
      else if ipc_client_nv_data_size client = 0 then fail
      else
        bnd (ipc_nv_data_load md5 client) (\<lambda>nv_data.
          case device_address of
            Some p \<Rightarrow> device_store p nv_data
          | None \<Rightarrow> write_loop (sys_write device_fd) None nv_data))"

section \<open>What the stages send\<close>

definition xmm616_psi_stage :: "u16 \<Rightarrow> u8 list \<Rightarrow> u8 list" where
  "xmm616_psi_stage psi_size psi =
     concat (replicate 20 (ascii ''AT'')) @ [0x30] @ le16 psi_size @ psi @ [foldl (XOR) 0 psi]"

lemma emits_at_repeat: "emits fd (at_repeat n fd) (\<lambda>out. out = concat (replicate n XMM616_AT))"
proof (induction n)
  case 0
  show ?case using silent_simple(2) [of fd "()"] by (simp add: silent_def)
next
  case (Suc n)
  show ?case unfolding at_repeat.simps by (rule emits_bnd [OF emits_write_whole Suc]) simp
qed

lemma psi_loop_Done:
  "psi_loop fd p acc w = (Done crc, w') \<Longrightarrow> sent fd w' = sent fd w @ p \<and> crc = foldl (XOR) acc p"
proof (induction p arbitrary: acc w)
  case Nil
  then show ?case by (simp add: ret_eq)
next
  case (Cons b p)
  from Cons.prems obtain w1 w2 where
      s: "select_ready w = (Done (), w1)" and wr: "write_whole fd [b] w1 = (Done (), w2)"
      and rest: "psi_loop fd p (acc XOR b) w2 = (Done crc, w')"
    by (auto simp: bnd_eq_Done)
  have "sent fd w2 = sent fd w @ [b]"
    using emitsD [OF emits_write_whole wr] emitsD [OF silent_steps(1) [unfolded silent_def] s] by auto
  with Cons.IH [OF rest] show ?case by simp
qed

lemma silent_psi_ack [silent_intros]: "silent fd (psi_ack_loop n)"
  by (induction n) (auto intro!: silent_intros)

lemma emits_xmm616_psi:
  "emits fd (xmm616_psi_send client fd (Some mem) psi_size)
     (\<lambda>out. out = xmm616_psi_stage psi_size (take (unat psi_size) mem) \<and> unat psi_size \<le> length mem)"
proof -
  let ?psi = "take (unat psi_size) mem"
  let ?good = "\<lambda>out. out = ?psi @ [foldl (XOR) 0 ?psi] \<and> unat psi_size \<le> length mem"
  have crc: "emits fd (bnd select_ready (\<lambda>_. bnd (write_whole fd [c]) (\<lambda>_. psi_ack_loop 51))) (\<lambda>out. out = [c])" for c
    by (rule emits_skip [OF silent_steps(1)], rule emits_last [OF emits_write_whole silent_psi_ack])
  have image: "emits fd (bnd (psi_loop fd psi 0) (\<lambda>c. bnd select_ready (\<lambda>_. bnd (write_whole fd [c]) (\<lambda>_. psi_ack_loop 51))))
      (\<lambda>out. out = psi @ [foldl (XOR) 0 psi])" for psi
    unfolding emits_def bnd_eq_Done using psi_loop_Done emitsD [OF crc, unfolded bnd_eq_Done] by fastforce
  have body: "emits fd (bnd (lift_outcome (peek 0 (unat psi_size) mem)) (\<lambda>psi. bnd (psi_loop fd psi 0) (\<lambda>c.
      bnd select_ready (\<lambda>_. bnd (write_whole fd [c]) (\<lambda>_. psi_ack_loop 51))))) ?good"
    by (rule emits_skip_value [OF silent_simple(5)], rule emits_mono [OF image])
      (auto simp: lift_outcome_eq peek_def split: if_splits)
  have "emits fd (bnd (at_repeat XMM616_AT_COUNT fd) (\<lambda>_. bnd (read_whole 1) (\<lambda>version.
      bnd (check (\<not> hd version \<noteq> XMM616_BOOTCORE_VERSION)) (\<lambda>_. bnd (read_whole 1) (\<lambda>info.
      bnd (write_whole fd [XMM616_PSI_MAGIC]) (\<lambda>_. bnd (write_whole fd (le16 psi_size)) (\<lambda>_.
      bnd (lift_outcome (peek 0 (unat psi_size) mem)) (\<lambda>psi. bnd (psi_loop fd psi 0) (\<lambda>c.
      bnd select_ready (\<lambda>_. bnd (write_whole fd [c]) (\<lambda>_. psi_ack_loop 51)))))))))))
      (\<lambda>out. out = xmm616_psi_stage psi_size ?psi \<and> unat psi_size \<le> length mem)"
    by (rule emits_bnd [OF emits_at_repeat emits_skip [OF silent_steps(2) emits_skip [OF silent_simple(1)
          emits_skip [OF silent_steps(2) emits_bnd [OF emits_write_whole emits_bnd [OF emits_write_whole body]]]]]])
      (auto simp: xmm616_psi_stage_def xmm616_constants)
  then show ?thesis
    by (auto simp: xmm616_psi_send_def emits_fail split: option.splits)
qed

section \<open>The answers that let them succeed\<close>

lemma completes_at_repeat: "completes willing (at_repeat n fd) [] (\<lambda>_. True)"
  by (induction n)
    (auto simp: xmm616_constants ascii_def intro: completes_ret completes_then [OF completes_write_whole])

lemma completes_psi_loop: "completes willing (psi_loop fd p acc) [] (\<lambda>_. True)"
  by (induction p arbitrary: acc)
    (auto intro!: completes_ret completes_then [OF completes_select_ready] completes_then [OF completes_write_whole])

text \<open>Up to fifty other bytes are skipped before the acknowledgement.\<close>

lemma completes_psi_ack:
  "length rs \<le> n \<Longrightarrow> (\<forall>r \<in> set rs. length r = 1 \<and> hd r \<noteq> 0x01) \<Longrightarrow>
   completes willing (psi_ack_loop (Suc n)) (rs @ [[0x01]]) (\<lambda>_. True)"
proof (induction rs arbitrary: n)
  case Nil
  have "completes willing (bnd (read_whole 1) (\<lambda>psi_ack.
      if hd psi_ack \<noteq> XMM616_PSI_ACK then psi_ack_loop n else ret ())) ([[0x01]] @ []) (\<lambda>_. True)"
    by (rule completes_bnd [OF completes_read_whole]) (auto simp: xmm616_constants intro: completes_ret)
  then show ?case unfolding psi_ack_loop.simps append_Nil by (intro completes_then [OF completes_select_ready]) simp
next
  case (Cons r rs)
  then obtain n' where n: "n = Suc n'" by (cases n) auto
  have "completes willing (bnd (read_whole 1) (\<lambda>psi_ack.
      if hd psi_ack \<noteq> XMM616_PSI_ACK then psi_ack_loop n else ret ())) ([r] @ (rs @ [[0x01]])) (\<lambda>_. True)"
    by (rule completes_bnd [OF completes_read_whole])
      (use Cons n in \<open>auto simp: xmm616_constants simp del: psi_ack_loop.simps\<close>)
  then show ?case unfolding psi_ack_loop.simps(2) [of n] by (intro completes_then [OF completes_select_ready]) simp
qed


lemma completes_xmm616_psi:
  assumes fd: "0 \<le> fd" and sz: "psi_size \<noteq> 0" "unat psi_size \<le> length mem"
    and rs: "length rs \<le> 50" "\<forall>r \<in> set rs. length r = 1 \<and> hd r \<noteq> 0x01"
  shows "completes willing (xmm616_psi_send (Some c) fd (Some mem) psi_size) ([[0xF0], [info]] @ rs @ [[0x01]]) (\<lambda>_. True)"
proof -
  let ?psi = "take (unat psi_size) mem"
  have "completes willing (bnd (psi_loop fd ?psi 0) (\<lambda>c. bnd select_ready (\<lambda>_. bnd (write_whole fd [c]) (\<lambda>_.
      psi_ack_loop 51)))) (rs @ [[0x01]]) (\<lambda>_. True)"
    using completes_psi_ack [OF rs]
    by (intro completes_then [OF completes_psi_loop] completes_then [OF completes_select_ready]
        completes_then [OF completes_write_whole]) (simp_all add: eval_nat_numeral)
  moreover have "peek 0 (unat psi_size) mem = Done ?psi" using sz(2) by (simp add: peek_def)
  ultimately have "completes willing (bnd (write_whole fd [XMM616_PSI_MAGIC]) (\<lambda>_. bnd (write_whole fd (le16 psi_size)) (\<lambda>_.
      bnd (lift_outcome (peek 0 (unat psi_size) mem)) (\<lambda>psi. bnd (psi_loop fd psi 0) (\<lambda>c.
      bnd select_ready (\<lambda>_. bnd (write_whole fd [c]) (\<lambda>_. psi_ack_loop 51)))))))
      (rs @ [[0x01]]) (\<lambda>_. True)"
    by (intro completes_then [OF completes_write_whole]) (simp_all add: bnd_lift layout_simps)
  then have "completes willing (bnd (read_whole 1) (\<lambda>version.
      bnd (check (\<not> hd version \<noteq> XMM616_BOOTCORE_VERSION)) (\<lambda>_. bnd (read_whole 1) (\<lambda>info.
      bnd (write_whole fd [XMM616_PSI_MAGIC]) (\<lambda>_. bnd (write_whole fd (le16 psi_size)) (\<lambda>_.
      bnd (lift_outcome (peek 0 (unat psi_size) mem)) (\<lambda>psi. bnd (psi_loop fd psi 0) (\<lambda>c.
      bnd select_ready (\<lambda>_. bnd (write_whole fd [c]) (\<lambda>_. psi_ack_loop 51))))))))))
      ([[0xF0]] @ [[info]] @ (rs @ [[0x01]])) (\<lambda>_. True)"
    by (intro completes_bnd [OF completes_read_whole] completes_then [OF completes_check])
      (auto simp: xmm616_constants)
  then show ?thesis
    using fd sz(1) by (simp add: xmm616_psi_send_def completes_then [OF completes_at_repeat])
qed

section \<open>Properties\<close>

text \<open>
  When the first stage of the XMM616 succeeds, the modem was sent the wake-up text twenty times,
  the magic byte, the length of the image, the whole image and the exclusive or of its bytes, in this
  order and nothing else; and the stage succeeds when the modem reports its version 0xF0 and one more
  byte and, after at most fifty other bytes, acknowledges with 1.
\<close>

theorem xmm616_psi_send_bytes:
  "(xmm616_psi_send client fd (Some mem) psi_size w = (Done u, w') \<longrightarrow>
      unat psi_size \<le> length mem \<and>
      sent fd w' = sent fd w @ concat (replicate 20 (ascii ''AT'')) @ [0x30] @ le16 psi_size @
        take (unat psi_size) mem @ [foldl (XOR) 0 (take (unat psi_size) mem)]) \<and>
   (willing w \<and> 0 \<le> fd \<and> psi_size \<noteq> 0 \<and> unat psi_size \<le> length mem \<and> client \<noteq> None \<and>
      length skipped \<le> 50 \<and> (\<forall>r \<in> set skipped. length r = 1 \<and> hd r \<noteq> 1) \<and>
      w_rd w = map Some ([[0xF0], [info]] @ skipped @ [[1]]) @- rest \<longrightarrow>
      (\<exists>w'. xmm616_psi_send client fd (Some mem) psi_size w = (Done (), w') \<and> w_rd w' = rest))"
proof (intro conjI impI)
  assume "xmm616_psi_send client fd (Some mem) psi_size w = (Done u, w')"
  from emitsD [OF emits_xmm616_psi this]
  show "unat psi_size \<le> length mem"
    "sent fd w' = sent fd w @ concat (replicate 20 (ascii ''AT'')) @ [0x30] @ le16 psi_size @
        take (unat psi_size) mem @ [foldl (XOR) 0 (take (unat psi_size) mem)]"
    by (auto simp: xmm616_psi_stage_def)
next
  assume "willing w \<and> 0 \<le> fd \<and> psi_size \<noteq> 0 \<and> unat psi_size \<le> length mem \<and> client \<noteq> None \<and>
      length skipped \<le> 50 \<and> (\<forall>r \<in> set skipped. length r = 1 \<and> hd r \<noteq> 1) \<and>
      w_rd w = map Some ([[0xF0], [info]] @ skipped @ [[1]]) @- rest"
  then show "\<exists>w'. xmm616_psi_send client fd (Some mem) psi_size w = (Done (), w') \<and> w_rd w' = rest"
    using completesD [OF completes_xmm616_psi [of fd psi_size mem skipped _ info], of w rest] by fastforce
qed

theorem xmm616_psi_send_bytes_witness:
  "\<exists>w'. xmm616_psi_send (Some demo_env) 3 (Some [1, 2, 3]) 2 (demo_boot [[0xF0], [7], [9], [1]]) = (Done (), w') \<and>
     sent 3 w' = concat (replicate 20 (ascii ''AT'')) @ [0x30, 2, 0, 1, 2, 3]"
proof -
  let ?w = "demo_boot [[0xF0], [7], [9], [1]]"
  obtain w' where w': "xmm616_psi_send (Some demo_env) 3 (Some [1, 2, 3]) 2 ?w = (Done (), w')"
    using xmm616_psi_send_bytes [of "Some demo_env" 3 "[1, 2, 3]" 2 ?w "()" undefined "[[9]]" 7 "sconst None"]
    by (auto simp: demo_boot_simps)
  then have "sent 3 w' = sent 3 ?w @ concat (replicate 20 (ascii ''AT'')) @ [0x30] @ le16 2 @
      take (unat (2 :: u16)) [1, 2, 3] @ [foldl (XOR) 0 (take (unat (2 :: u16)) [1, 2, 3])]"
    using xmm616_psi_send_bytes [of "Some demo_env" 3 "[1, 2, 3]" 2 ?w "()" w'] by blast
  moreover have "le16 2 = [2, 0]" "take (unat (2 :: u16)) [1, 2, 3 :: u8] = [1, 2]"
    by (simp_all add: le16_def drop_bit_eq_div take_Cons')
  ultimately show ?thesis using w' by (auto simp: demo_boot_simps)
qed

end
