(* ===== verification/Crespo.thy ===== *)
theory Crespo
  imports Boot Xmm616
begin

text \<open>
  devices/crespo/crespo.c: the Nexus S. Messages are passed to the driver by requests whose argument
  is a \<open>struct modem_io\<close>, and the modem is loaded through a device that is written at positions.
\<close>

section \<open>Constants\<close>

definition CRESPO_BUFFER_LENGTH :: nat where "CRESPO_BUFFER_LENGTH = 0x50000"
definition CRESPO_MODEM_IMAGE_SIZE :: nat where "CRESPO_MODEM_IMAGE_SIZE = 0xD80000"
definition CRESPO_PSI_SIZE :: nat where "CRESPO_PSI_SIZE = 0x5000"
definition CRESPO_MODEM_CTL_NV_DATA_OFFSET :: nat where "CRESPO_MODEM_CTL_NV_DATA_OFFSET = 0xD80000"
definition CRESPO_GPRS_IFACE_COUNT :: u32 where "CRESPO_GPRS_IFACE_COUNT = 3"

text \<open>The requests of crespo_modem_ctl.h; two of the names have other values on other devices.\<close>

definition CRESPO_IOCTL_MODEM_RESET :: u32 where "CRESPO_IOCTL_MODEM_RESET = IO_o 0x20"
definition CRESPO_IOCTL_MODEM_START :: u32 where "CRESPO_IOCTL_MODEM_START = IO_o 0x21"
definition CRESPO_IOCTL_MODEM_OFF :: u32 where "CRESPO_IOCTL_MODEM_OFF = IO_o 0x22"
definition IOCTL_MODEM_SEND :: u32 where "IOCTL_MODEM_SEND = IO_o 0x23"
definition IOCTL_MODEM_RECV :: u32 where "IOCTL_MODEM_RECV = IO_o 0x24"

lemmas crespo_constants = CRESPO_BUFFER_LENGTH_def CRESPO_MODEM_IMAGE_SIZE_def CRESPO_PSI_SIZE_def
  CRESPO_MODEM_CTL_NV_DATA_OFFSET_def

section \<open>Messages\<close>

record modem_io =
  mio_size :: u32
  mio_id :: u32
  mio_cmd :: u32
  mio_data :: "u8 list option"

text \<open>
  The bytes the driver sees: the three numbers and, in place of the pointer, the block it points to,
  or nothing for a null pointer. The handlers transfer this image.
\<close>

definition modem_io_bytes :: "modem_io \<Rightarrow> u8 list" where
  "modem_io_bytes mio = le32 (mio_size mio) @ le32 (mio_id mio) @ le32 (mio_cmd mio) @
     (case mio_data mio of None \<Rightarrow> [] | Some d \<Rightarrow> d)"

text \<open>
  The structure after the driver has stored the first bytes \<open>bs\<close> of its image over it; a driver that
  stores more than the block holds has written past it.
\<close>

definition modem_io_stored :: "u8 list \<Rightarrow> modem_io outcome" where
  "modem_io_stored bs =
     (let old = modem_io_bytes \<lparr>mio_size = of_nat CRESPO_BUFFER_LENGTH, mio_id = 0, mio_cmd = 0,
                  mio_data = Some (calloc CRESPO_BUFFER_LENGTH)\<rparr>
      in obind (poke 0 bs old) (\<lambda>img.
           Done \<lparr>mio_size = get32 img, mio_id = get32 (drop 4 img), mio_cmd = get32 (drop 8 img),
                 mio_data = Some (drop 12 img)\<rparr>))"

definition crespo_fmt_send :: "client_env \<Rightarrow> ipc_message option \<Rightarrow> unit io" where
  "crespo_fmt_send client message =
     (case (handler_write client, message) of
        (Some wr, Some m) \<Rightarrow>
          bnd (lift_outcome (ipc_fmt_header_setup (Some (fmt_header_of (calloc 7))) (Some m))) (\<lambda>header.
          let sz = msg_size m + of_nat sizeof_fmt_header in
          bnd (lift_outcome (frame_buffer (unat sz) (fmt_header_bytes header) m)) (\<lambda>data.
          bnd (wr (modem_io_bytes \<lparr>mio_size = sz, mio_id = 0, mio_cmd = 0, mio_data = Some data\<rparr>)) (\<lambda>rc.
          check (\<not> rc < 0))))
      | _ \<Rightarrow> fail)"

text \<open>The answer of the driver, in a structure whose block has the length of the buffer.\<close>

definition crespo_recv :: "(nat \<Rightarrow> u8 list option io) \<Rightarrow> modem_io io" where
  "crespo_recv rd =
     bnd (rd (16 + CRESPO_BUFFER_LENGTH)) (\<lambda>r.
     case r of None \<Rightarrow> fail | Some bs \<Rightarrow> lift_outcome (modem_io_stored bs))"

definition crespo_fmt_recv :: "client_env \<Rightarrow> ipc_message option \<Rightarrow> ipc_message io" where
  "crespo_fmt_recv client message =
     (case (handler_read client, message) of
        (Some rd, Some m0) \<Rightarrow>
          bnd (crespo_recv rd) (\<lambda>mio.
          let data = the (mio_data mio); sz = unat (mio_size mio) in
          if sz < sizeof_fmt_header \<or> sz > CRESPO_BUFFER_LENGTH then fail
          else
            bnd (lift_outcome (ipc_fmt_message_setup (Some (fmt_header_of data)) (Some m0))) (\<lambda>m.
            if sz > sizeof_fmt_header then
              bnd (lift_outcome (peek 7 (sz - sizeof_fmt_header) data)) (\<lambda>d.
              ret (m\<lparr>msg_size := of_nat (sz - sizeof_fmt_header), msg_data := Some d\<rparr>))
            else ret m))
      | _ \<Rightarrow> fail)"

definition crespo_rfs_send :: "client_env \<Rightarrow> ipc_message option \<Rightarrow> unit io" where
  "crespo_rfs_send client message =
     (case (handler_write client, message) of
        (Some wr, Some m) \<Rightarrow>
          bnd (case msg_data m of None \<Rightarrow> ret None
               | Some d \<Rightarrow> if msg_size m > 0
                   then bnd (lift_outcome (peek 0 (unat (msg_size m)) d)) (\<lambda>data. ret (Some data))
                   else ret None) (\<lambda>data.
          bnd (wr (modem_io_bytes \<lparr>mio_size = msg_size m, mio_id = ucast (msg_mseq m),
                 mio_cmd = ucast (IPC_INDEX (msg_command m)), mio_data = data\<rparr>)) (\<lambda>rc.
          check (\<not> rc < 0)))
      | _ \<Rightarrow> fail)"

text \<open>The macro \<open>IPC_COMMAND\<close> on an \<open>unsigned int\<close> index; the member keeps 16 bits of it.\<close>

definition crespo_rfs_recv :: "client_env \<Rightarrow> ipc_message option \<Rightarrow> ipc_message io" where
  "crespo_rfs_recv client message =
     (case (handler_read client, message) of
        (Some rd, Some m0) \<Rightarrow>
          bnd (crespo_recv rd) (\<lambda>mio.
          let data = the (mio_data mio); sz = unat (mio_size mio) in
          if sz \<le> 0 \<or> sz > CRESPO_BUFFER_LENGTH then fail
          else
            bnd (lift_outcome (peek 0 sz data)) (\<lambda>d.
            ret \<lparr>msg_mseq = 0, msg_aseq = ucast (mio_id mio),
                 msg_command = ucast (push_bit 8 (ucast IPC_GROUP_RFS) OR mio_cmd mio),
                 msg_type = 0, msg_data = Some d, msg_size = of_nat sz\<rparr>))
      | _ \<Rightarrow> fail)"

section \<open>Handlers\<close>

text \<open>The descriptor is stored only when opening succeeded.\<close>

definition crespo_open :: open_handler where
  "crespo_open data type =
     (case data of None \<Rightarrow> fail
      | Some a \<Rightarrow>
          if type = IPC_CLIENT_TYPE_FMT \<or> type = IPC_CLIENT_TYPE_RFS then
            bnd (sys_open (if type = IPC_CLIENT_TYPE_FMT then ''/dev/modem_fmt'' else ''/dev/modem_rfs'')) (\<lambda>fd.
            if fd < 0 then fail else heap_set a fd)
          else fail)"

definition crespo_close :: close_handler where
  "crespo_close data =
     (case data of None \<Rightarrow> fail
      | Some a \<Rightarrow>
          bnd (heap_get a) (\<lambda>fd.
          if fd < 0 then fail else bnd (heap_set a (-1)) (\<lambda>_. sys_close fd)))"

text \<open>
  A request that transfers an image: the driver takes all of it or refuses; in the other direction it
  stores the image of its answer, in which the four bytes of the pointer that \<open>len\<close> counts have no
  place. The return code 0 stands behind \<open>Some\<close>.
\<close>

definition crespo_read :: read_handler where
  "crespo_read data len =
     (case data of None \<Rightarrow> ret None
      | Some a \<Rightarrow>
          if len = 0 then ret None
          else bnd (heap_get a) (\<lambda>fd.
            if fd < 0 then ret None
            else bnd (sys_ioctl fd IOCTL_MODEM_RECV 0) (\<lambda>rc.
              if rc < 0 then ret None
              else bnd (sys_read (len - 4)) (\<lambda>r. ret (Some (case r of None \<Rightarrow> [] | Some bs \<Rightarrow> bs))))))"

definition crespo_write :: write_handler where
  "crespo_write data buffer =
     (case data of None \<Rightarrow> ret (-1)
      | Some a \<Rightarrow>
          if length buffer = 0 then ret (-1)
          else bnd (heap_get a) (\<lambda>fd.
            if fd < 0 then ret (-1)
            else bnd (sys_ioctl fd IOCTL_MODEM_SEND 0) (\<lambda>rc.
              if rc < 0 then ret (-1) else bnd (emit (EvWrite fd buffer)) (\<lambda>_. ret 0))))"

definition crespo_poll :: poll_handler where
  "crespo_poll data fds =
     (case data of None \<Rightarrow> fail
      | Some a \<Rightarrow>
          bnd (heap_get a) (\<lambda>fd.
          if fd < 0 then fail
          else
            bnd (lift_outcome (poll_set fd fds)) (\<lambda>fdset.
            bnd (sys_select_set fdset) (\<lambda>(rc, ready).
            bnd (lift_outcome (poll_result ready fds)) (\<lambda>fds'. ret (rc, fds'))))))"

text \<open>One request on the control device.\<close>

definition crespo_control :: "u32 \<Rightarrow> unit io" where
  "crespo_control request =
     bnd (sys_open ''/dev/modem_ctl'') (\<lambda>fd.
     if fd < 0 then fail
     else
       bnd (sys_ioctl fd request 0) (\<lambda>rc.
       bnd (sys_close fd) (\<lambda>_. check (\<not> rc < 0))))"

definition crespo_power_on :: power_handler where
  "crespo_power_on data = crespo_control CRESPO_IOCTL_MODEM_START"

definition crespo_power_off :: power_handler where
  "crespo_power_off data = crespo_control CRESPO_IOCTL_MODEM_OFF"

definition crespo_data_create ::
  "slot option \<Rightarrow> slot option \<Rightarrow> slot option \<Rightarrow> handler_data \<Rightarrow> handler_data io" where
  "crespo_data_create transport_data power_data gprs_data d =
     (case transport_data of None \<Rightarrow> fail
      | Some s \<Rightarrow> bnd heap_calloc (\<lambda>a. ret (slot_set s (Some a) d)))"

definition crespo_data_destroy :: "ptr \<Rightarrow> ptr \<Rightarrow> ptr \<Rightarrow> unit io" where
  "crespo_data_destroy transport_data power_data gprs_data =
     (case transport_data of None \<Rightarrow> fail | Some a \<Rightarrow> heap_free a)"

definition crespo_gprs_activate :: gprs_handler where
  "crespo_gprs_activate data cid = ret ()"

definition crespo_gprs_deactivate :: gprs_handler where
  "crespo_gprs_deactivate data cid = ret ()"

definition crespo_gprs_get_iface_single :: "u32 \<Rightarrow> string outcome" where
  "crespo_gprs_get_iface_single cid = Done ''rmnet0''"

definition crespo_gprs_get_capabilities_single :: "u32 option \<Rightarrow> u32 outcome" where
  "crespo_gprs_get_capabilities_single capabilities =
     (case capabilities of None \<Rightarrow> Fail | Some _ \<Rightarrow> Done 1)"

definition crespo_gprs_get_iface :: "u32 \<Rightarrow> string outcome" where
  "crespo_gprs_get_iface cid =
     (if cid > CRESPO_GPRS_IFACE_COUNT then Fail
      else Done (''rmnet'' @ char_string (print_int (sint (cid - 1)))))"

definition crespo_gprs_get_capabilities :: "u32 option \<Rightarrow> u32 outcome" where
  "crespo_gprs_get_capabilities capabilities =
     (case capabilities of None \<Rightarrow> Fail | Some _ \<Rightarrow> Done CRESPO_GPRS_IFACE_COUNT)"

definition crespo_handlers :: ipc_client_handlers where
  "crespo_handlers = \<lparr>h_open = Some crespo_open, h_close = Some crespo_close, h_read = Some crespo_read,
     h_write = Some crespo_write, h_poll = Some crespo_poll, h_power_on = Some crespo_power_on,
     h_power_off = Some crespo_power_off, h_gprs_activate = Some crespo_gprs_activate,
     h_gprs_deactivate = Some crespo_gprs_deactivate, h_data_create = Some crespo_data_create,
     h_data_destroy = Some crespo_data_destroy,
     h_data = \<lparr>hd_transport = None, hd_power = None, hd_gprs = None\<rparr>\<rparr>"

definition crespo_gprs_specs_single :: ipc_client_gprs_specs where
  "crespo_gprs_specs_single = \<lparr>gs_get_iface = Some crespo_gprs_get_iface_single,
     gs_get_capabilities = Some crespo_gprs_get_capabilities_single\<rparr>"

definition crespo_gprs_specs :: ipc_client_gprs_specs where
  "crespo_gprs_specs = \<lparr>gs_get_iface = Some crespo_gprs_get_iface,
     gs_get_capabilities = Some crespo_gprs_get_capabilities\<rparr>"

definition crespo_nv_data_specs :: ipc_client_nv_data_specs where
  "crespo_nv_data_specs = \<lparr>nv_data_path = Some ''/efs/nv_data.bin'',
     nv_data_md5_path = Some ''/efs/nv_data.bin.md5'', nv_data_backup_path = Some ''/efs/.nv_data.bak'',
     nv_data_backup_md5_path = Some ''/efs/.nv_data.bak.md5'',
     nv_data_secret = Some (ascii ''Samsung_Android_RIL''), nv_data_size = 0x200000,
     nv_data_chunk_size = 0x1000\<rparr>"

section \<open>Booting\<close>

definition device_seek :: "int \<Rightarrow> nat \<Rightarrow> unit io" where
  "device_seek fd offset = emit (EvSeek fd offset)"

text \<open>From the open serial line to the label \<open>complete\<close>.\<close>

definition crespo_load ::
  "(u8 list \<Rightarrow> u8 list) \<Rightarrow> client_env option \<Rightarrow> int \<Rightarrow> int \<Rightarrow> u8 list \<Rightarrow> unit io" where
  "crespo_load md5 client modem_ctl_fd serial_fd modem_image_data =
     bnd (xmm616_psi_send client serial_fd (Some modem_image_data) (of_nat CRESPO_PSI_SIZE)) (\<lambda>_.
     bnd (device_seek modem_ctl_fd 0) (\<lambda>_.
     bnd (image_part CRESPO_PSI_SIZE (CRESPO_MODEM_IMAGE_SIZE - CRESPO_PSI_SIZE) modem_image_data) (\<lambda>firmware.
     bnd (xmm616_firmware_send client modem_ctl_fd None (Some firmware)) (\<lambda>_.
     bnd (device_seek modem_ctl_fd CRESPO_MODEM_CTL_NV_DATA_OFFSET) (\<lambda>_.
     xmm616_nv_data_send md5 client modem_ctl_fd None)))))"

definition crespo_boot :: "(u8 list \<Rightarrow> u8 list) \<Rightarrow> client_env option \<Rightarrow> unit io" where
  "crespo_boot md5 client =
     (if client = None then fail
      else
        bnd (file_data_read (Some ''/dev/mtd/mtd5ro'') CRESPO_MODEM_IMAGE_SIZE 0x1000 0) (\<lambda>modem_image_data.
        bnd (sys_open ''/dev/modem_ctl'') (\<lambda>modem_ctl_fd.
        bnd (if modem_ctl_fd < 0 then ret (-1) else sys_ioctl modem_ctl_fd CRESPO_IOCTL_MODEM_RESET 0) (\<lambda>rc.
        bnd (if rc < 0 then ret (-1) else sys_open ''/dev/s3c2410_serial3'') (\<lambda>serial_fd.
        complete
          (if serial_fd < 0 then fail
           else crespo_load md5 client modem_ctl_fd serial_fd modem_image_data)
          (bnd (close_valid serial_fd) (\<lambda>_. close_valid modem_ctl_fd)))))))"

definition crespo_fmt_ops :: "(u8 list \<Rightarrow> u8 list) \<Rightarrow> ipc_client_ops" where
  "crespo_fmt_ops md5 = \<lparr>op_boot = Some (\<lambda>client. crespo_boot md5 (Some client)),
     op_send = Some crespo_fmt_send, op_recv = Some crespo_fmt_recv\<rparr>"

definition crespo_rfs_ops :: ipc_client_ops where
  "crespo_rfs_ops = \<lparr>op_boot = None, op_send = Some crespo_rfs_send, op_recv = Some crespo_rfs_recv\<rparr>"


section \<open>Messages through the driver\<close>

text \<open>A client with the handlers of this device and the object \<open>a\<close>.\<close>

definition crespo_client :: "client_env \<Rightarrow> nat \<Rightarrow> bool" where
  "crespo_client client a \<longleftrightarrow>
     handler_write client = Some (crespo_write (Some a)) \<and> handler_read client = Some (crespo_read (Some a))"

lemma length_modem_io_bytes:
  "length (modem_io_bytes mio) = 12 + (case mio_data mio of None \<Rightarrow> 0 | Some d \<Rightarrow> length d)"
  by (simp add: modem_io_bytes_def layout_simps split: option.split)

lemma modem_io_stored_image:
  assumes "length (case d of None \<Rightarrow> [] | Some d \<Rightarrow> d) \<le> CRESPO_BUFFER_LENGTH"
  shows "\<exists>pad. modem_io_stored (modem_io_bytes \<lparr>mio_size = s, mio_id = i, mio_cmd = c, mio_data = d\<rparr>) =
     Done \<lparr>mio_size = s, mio_id = i, mio_cmd = c, mio_data = Some ((case d of None \<Rightarrow> [] | Some d \<Rightarrow> d) @ pad)\<rparr>"
proof -
  let ?d = "case d of None \<Rightarrow> [] | Some d \<Rightarrow> d"
  let ?bs = "modem_io_bytes \<lparr>mio_size = s, mio_id = i, mio_cmd = c, mio_data = d\<rparr>"
  let ?old = "modem_io_bytes \<lparr>mio_size = of_nat CRESPO_BUFFER_LENGTH, mio_id = 0, mio_cmd = 0,
                  mio_data = Some (calloc CRESPO_BUFFER_LENGTH)\<rparr>"
  have bs: "?bs = le32 s @ le32 i @ le32 c @ ?d" by (simp add: modem_io_bytes_def)
  have "length ?bs \<le> length ?old" using assms unfolding bs by (simp add: length_modem_io_bytes layout_simps)
  then have "poke 0 ?bs ?old = Done (?bs @ drop (length ?bs) ?old)" by (simp add: poke_def)
  moreover have "drop 4 (le32 s @ x) = x" "drop 8 (le32 s @ le32 i @ x) = x" "drop 12 (le32 s @ le32 i @ le32 c @ x) = x" for x
    by (simp_all add: layout_simps)
  ultimately show ?thesis by (simp add: modem_io_stored_def Let_def bs layout_simps)
qed

lemma crespo_write_Done:
  assumes "w_heap w a = Some fd" and "bs \<noteq> []" and "crespo_write (Some a) bs w = (Done rc, w')" and "\<not> rc < 0"
  shows "sent fd w' = sent fd w @ bs"
  using assms
  by (auto simp: crespo_write_def heap_get_def io_Done sys_ioctl_def emit_def sent_def split: if_splits)

lemma crespo_read_stores:
  assumes "w_heap w a = Some fd" and "0 \<le> fd" and "0 \<le> shd (w_ioc w)" and "shd (w_rd w) = Some bs"
    and "length bs + 4 \<le> len"
  shows "\<exists>w'. crespo_read (Some a) len w = (Done (Some bs), w')"
  using assms
  by (auto simp: crespo_read_def heap_get_def bnd_def sys_ioctl_def sys_read_def ret_eq Let_def)

lemma crespo_recv_image:
  assumes "w_heap w a = Some fd" and "0 \<le> fd" and "0 \<le> shd (w_ioc w)"
    and "shd (w_rd w) = Some (modem_io_bytes \<lparr>mio_size = s, mio_id = i, mio_cmd = c, mio_data = Some d\<rparr>)"
    and "length d \<le> CRESPO_BUFFER_LENGTH"
  shows "\<exists>pad w'. crespo_recv (crespo_read (Some a)) w =
    (Done \<lparr>mio_size = s, mio_id = i, mio_cmd = c, mio_data = Some (d @ pad)\<rparr>, w')"
proof -
  have "length (modem_io_bytes \<lparr>mio_size = s, mio_id = i, mio_cmd = c, mio_data = Some d\<rparr>) + 4
      \<le> 16 + CRESPO_BUFFER_LENGTH"
    using assms(5) by (simp add: length_modem_io_bytes)
  from crespo_read_stores [OF assms(1-4) this] modem_io_stored_image [of "Some d" s i c] assms(5)
  show ?thesis by (auto simp: crespo_recv_def bnd_def lift_outcome_eq)
qed

text \<open>What a successful \<open>send\<close> gave to the driver.\<close>

lemma crespo_fmt_send_image:
  assumes "crespo_client client a" and "w_heap w a = Some fd" and "msg_ok m"
    and "unat (msg_size m) + 7 \<le> CRESPO_BUFFER_LENGTH"
  shows "\<exists>h. ipc_fmt_header_setup (Some (fmt_header_of (calloc 7))) (Some m) = Done h \<and>
    unat (msg_size m + of_nat sizeof_fmt_header) = unat (msg_size m) + 7 \<and>
    crespo_fmt_send client (Some m) w =
      bnd (crespo_write (Some a) (modem_io_bytes \<lparr>mio_size = msg_size m + of_nat sizeof_fmt_header, mio_id = 0,
        mio_cmd = 0, mio_data = Some (fmt_header_bytes h @ msg_payload m)\<rparr>)) (\<lambda>rc. check (\<not> rc < 0)) w"
proof -
  have sz: "unat (msg_size m + of_nat sizeof_fmt_header) = unat (msg_size m) + 7"
    using assms(4) by (simp add: sizeof_fmt_header_def CRESPO_BUFFER_LENGTH_def unat_word_ariths(1))
  obtain h where h: "ipc_fmt_header_setup (Some (fmt_header_of (calloc 7))) (Some m) = Done h"
    by (simp add: ipc_fmt_header_setup_def)
  have "frame_buffer (unat (msg_size m + of_nat sizeof_fmt_header)) (fmt_header_bytes h) m =
      Done (fmt_header_bytes h @ msg_payload m)"
    using frame_buffer_ok [OF assms(3), of _ "fmt_header_bytes h"] sz by (simp add: add.commute)
  with assms(1) h sz show ?thesis
    by (auto simp: crespo_fmt_send_def crespo_client_def bnd_def lift_outcome_eq Let_def)
qed

lemma crespo_rfs_send_image:
  assumes "crespo_client client a" and "msg_ok m" and "msg_data m \<noteq> None" and "msg_size m > 0"
  shows "crespo_rfs_send client (Some m) w =
      bnd (crespo_write (Some a) (modem_io_bytes \<lparr>mio_size = msg_size m, mio_id = ucast (msg_mseq m),
        mio_cmd = ucast (IPC_INDEX (msg_command m)), mio_data = Some (msg_payload m)\<rparr>))
        (\<lambda>rc. check (\<not> rc < 0)) w"
  using assms
  by (auto simp: crespo_rfs_send_def crespo_client_def msg_ok_def msg_payload_def peek_def bnd_def
      lift_outcome_eq ret_eq split: option.splits)

lemma crespo_sent_image:
  assumes "bnd (crespo_write (Some a) (modem_io_bytes mio)) (\<lambda>rc. check (\<not> rc < 0)) w = (Done u, w')"
    and "w_heap w a = Some fd"
  shows "sent fd w' = sent fd w @ modem_io_bytes mio"
proof -
  from assms(1) obtain rc where "crespo_write (Some a) (modem_io_bytes mio) w = (Done rc, w')" "\<not> rc < 0"
    by (auto simp: io_Done)
  moreover have "modem_io_bytes mio \<noteq> []"
    using length_modem_io_bytes [of mio] by (intro notI) simp
  ultimately show ?thesis using crespo_write_Done [OF assms(2)] by blast
qed

lemma crespo_fmt_recv_image:
  assumes "crespo_client client a" and "w_heap w a = Some fd" "0 \<le> fd" "0 \<le> shd (w_ioc w)"
    and "shd (w_rd w) = Some (modem_io_bytes \<lparr>mio_size = s, mio_id = i, mio_cmd = c,
        mio_data = Some (fmt_header_bytes h @ p)\<rparr>)"
    and "unat s = 7 + length p" "unat s \<le> CRESPO_BUFFER_LENGTH"
    and "ipc_fmt_message_setup (Some h) (Some m0) = Done m1"
  shows "\<exists>w'. crespo_fmt_recv client (Some m0) w =
    (Done (if p = [] then m1 else m1\<lparr>msg_size := of_nat (length p), msg_data := Some p\<rparr>), w')"
proof -
  have le: "length (fmt_header_bytes h @ p) \<le> CRESPO_BUFFER_LENGTH" using assms(6,7) by simp
  obtain pad w' where r: "crespo_recv (crespo_read (Some a)) w =
      (Done \<lparr>mio_size = s, mio_id = i, mio_cmd = c, mio_data = Some ((fmt_header_bytes h @ p) @ pad)\<rparr>, w')"
    using crespo_recv_image [OF assms(2-5) le] by blast
  have "fmt_header_of ((fmt_header_bytes h @ p) @ pad) = h"
    using fmt_header_of_bytes [of h "p @ pad"] by simp
  moreover have "peek 7 (length p) ((fmt_header_bytes h @ p) @ pad) = Done p"
    using peek_middle [of "fmt_header_bytes h" 7 p "length p" pad] by simp
  ultimately show ?thesis
    using assms(1,6-8) r
    by (auto simp: crespo_fmt_recv_def crespo_client_def bnd_def Let_def lift_outcome_eq ret_eq
        sizeof_fmt_header_def)
qed

lemma crespo_rfs_recv_image:
  assumes "crespo_client client a" and "w_heap w a = Some fd" "0 \<le> fd" "0 \<le> shd (w_ioc w)"
    and "shd (w_rd w) = Some (modem_io_bytes \<lparr>mio_size = s, mio_id = ucast i,
        mio_cmd = ucast (x :: u8), mio_data = Some p\<rparr>)"
    and "unat s = length p" "p \<noteq> []" "unat s \<le> CRESPO_BUFFER_LENGTH"
  shows "\<exists>w'. crespo_rfs_recv client (Some m0) w =
    (Done \<lparr>msg_mseq = 0, msg_aseq = i, msg_command = IPC_COMMAND IPC_GROUP_RFS x, msg_type = 0,
       msg_data = Some p, msg_size = s\<rparr>, w')"
proof -
  have le: "length p \<le> CRESPO_BUFFER_LENGTH" using assms(6,8) by simp
  obtain pad w' where r: "crespo_recv (crespo_read (Some a)) w =
      (Done \<lparr>mio_size = s, mio_id = ucast i, mio_cmd = ucast x, mio_data = Some (p @ pad)\<rparr>, w')"
    using crespo_recv_image [OF assms(2-5) le] by blast
  have "ucast (ucast i :: u32) = i" by (rule bit_word_eqI) (simp add: bit_simps)
  moreover have "ucast (push_bit 8 (ucast IPC_GROUP_RFS :: u32) OR ucast x) = IPC_COMMAND IPC_GROUP_RFS x"
    unfolding IPC_COMMAND_def by (rule bit_word_eqI) (auto simp: bit_simps)
  moreover have "of_nat (length p) = s" using assms(6) by (simp flip: assms(6))
  ultimately show ?thesis
    using assms(1,6-8) r
    by (auto simp: crespo_rfs_recv_def crespo_client_def bnd_def Let_def lift_outcome_eq ret_eq peek_prefix)
qed

text \<open>
  The driver of the Nexus S carries messages without loss: when the image that a successful send
  gave to the driver is the image with which the driver answers a request, receiving returns the
  message that was sent; this holds up to the size of the buffer, beyond the length that the 16-bit
  field of the header can express. An RFS message arrives with its sequence number as the one it
  answers.
\<close>

theorem crespo_send_recv:
  assumes send: "crespo_client client a" "w_heap w a = Some fd" "msg_ok m"
      "unat (msg_size m) + 7 \<le> CRESPO_BUFFER_LENGTH"
    and recv: "crespo_client client' b" "w_heap w2 b = Some fd'" "0 \<le> fd'" "0 \<le> shd (w_ioc w2)"
    and wire: "sent fd w1 = sent fd w @ img" "shd (w_rd w2) = Some img"
  shows "(crespo_fmt_send client (Some m) w = (Done (), w1) \<longrightarrow>
      (\<exists>w3. crespo_fmt_recv client' (Some m0) w2 =
        (Done (m\<lparr>msg_data := (if msg_size m = 0 then None else Some (msg_payload m))\<rparr>), w3))) \<and>
    (msg_data m \<noteq> None \<and> 0 < msg_size m \<and> crespo_rfs_send client (Some m) w = (Done (), w1) \<longrightarrow>
      (\<exists>w3. crespo_rfs_recv client' (Some m0) w2 =
        (Done \<lparr>msg_mseq = 0, msg_aseq = msg_mseq m,
           msg_command = IPC_COMMAND IPC_GROUP_RFS (IPC_INDEX (msg_command m)), msg_type = 0,
           msg_data = msg_data m, msg_size = msg_size m\<rparr>, w3)))"
proof (intro conjI impI)
  have len: "length (msg_payload m) = unat (msg_size m)" by (rule length_msg_payload [OF send(3)])
  then have z: "msg_payload m = [] \<longleftrightarrow> msg_size m = 0" by (auto simp flip: unat_eq_zero)
  {
    assume s: "crespo_fmt_send client (Some m) w = (Done (), w1)"
    obtain h where h: "ipc_fmt_header_setup (Some (fmt_header_of (calloc 7))) (Some m) = Done h"
      and sz: "unat (msg_size m + of_nat sizeof_fmt_header) = unat (msg_size m) + 7"
      and eq: "crespo_fmt_send client (Some m) w =
        bnd (crespo_write (Some a) (modem_io_bytes \<lparr>mio_size = msg_size m + of_nat sizeof_fmt_header, mio_id = 0,
          mio_cmd = 0, mio_data = Some (fmt_header_bytes h @ msg_payload m)\<rparr>)) (\<lambda>rc. check (\<not> rc < 0)) w"
      using crespo_fmt_send_image [OF send] by blast
    from crespo_sent_image [OF s [unfolded eq] send(2)] wire
    have img: "shd (w_rd w2) = Some (modem_io_bytes \<lparr>mio_size = msg_size m + of_nat sizeof_fmt_header,
        mio_id = 0, mio_cmd = 0, mio_data = Some (fmt_header_bytes h @ msg_payload m)\<rparr>)" by simp
    have m1: "ipc_fmt_message_setup (Some h) (Some m0) = Done (m\<lparr>msg_data := None, msg_size := 0\<rparr>)"
      using h by (auto simp: ipc_fmt_header_setup_def ipc_fmt_message_setup_def)
    from crespo_fmt_recv_image [OF recv img _ _ m1] sz send(4) len
    obtain w3 where "crespo_fmt_recv client' (Some m0) w2 = (Done (if msg_payload m = []
        then m\<lparr>msg_data := None, msg_size := 0\<rparr> else m\<lparr>msg_data := None, msg_size := 0,
          msg_size := of_nat (length (msg_payload m)), msg_data := Some (msg_payload m)\<rparr>), w3)" by auto
    then show "\<exists>w3. crespo_fmt_recv client' (Some m0) w2 =
        (Done (m\<lparr>msg_data := (if msg_size m = 0 then None else Some (msg_payload m))\<rparr>), w3)"
      using z by (auto simp: len of_nat_unat_id)
  }
  {
    assume s: "msg_data m \<noteq> None \<and> 0 < msg_size m \<and> crespo_rfs_send client (Some m) w = (Done (), w1)"
    then have "sent fd w1 = sent fd w @ modem_io_bytes \<lparr>mio_size = msg_size m, mio_id = ucast (msg_mseq m),
        mio_cmd = ucast (IPC_INDEX (msg_command m)), mio_data = Some (msg_payload m)\<rparr>"
      using crespo_rfs_send_image [OF send(1,3)] crespo_sent_image [OF _ send(2)] by auto
    with wire have img: "shd (w_rd w2) = Some (modem_io_bytes \<lparr>mio_size = msg_size m,
        mio_id = ucast (msg_mseq m), mio_cmd = ucast (IPC_INDEX (msg_command m)), mio_data = Some (msg_payload m)\<rparr>)"
      by simp
    have "msg_payload m \<noteq> []" "msg_data m = Some (msg_payload m)"
      using s z by (auto simp: msg_payload_def)
    with crespo_rfs_recv_image [OF recv img] len send(4)
    show "\<exists>w3. crespo_rfs_recv client' (Some m0) w2 = (Done \<lparr>msg_mseq = 0, msg_aseq = msg_mseq m,
           msg_command = IPC_COMMAND IPC_GROUP_RFS (IPC_INDEX (msg_command m)), msg_type = 0,
           msg_data = msg_data m, msg_size = msg_size m\<rparr>, w3)" by simp
  }
qed

definition demo_crespo_env :: client_env where
  "demo_crespo_env = demo_i9300_env\<lparr>cl_handlers := Some (crespo_handlers\<lparr>h_data :=
     \<lparr>hd_transport = Some 1, hd_power = None, hd_gprs = None\<rparr>\<rparr>)\<rparr>"

lemma demo_crespo_client: "crespo_client demo_crespo_env 1"
  by (simp add: crespo_client_def demo_crespo_env_def handler_write_def handler_read_def crespo_handlers_def)

definition demo_crespo_image :: "u8 list" where
  "demo_crespo_image = [9, 0, 0, 0, 0, 0, 0, 0, 0, 0, 0, 0, 9, 0, 1, 0xff, 1, 2, 3, 0xaa, 0xbb]"

theorem crespo_send_recv_witness:
  "\<exists>w3. crespo_fmt_recv demo_crespo_env (Some demo_msg)
       (demo_online\<lparr>w_rd := sconst (Some demo_crespo_image)\<rparr>) =
     (Done (demo_msg\<lparr>msg_data := Some [0xaa, 0xbb]\<rparr>), w3)"
proof -
  let ?w2 = "demo_online\<lparr>w_rd := sconst (Some demo_crespo_image)\<rparr>"
  have w: "w_heap demo_online 1 = Some 3" "w_heap ?w2 1 = Some 3" "0 \<le> shd (w_ioc ?w2)" by (simp_all add: demo_online_def)
  have fits: "unat (msg_size demo_msg) + 7 \<le> CRESPO_BUFFER_LENGTH" by (simp add: demo_msg_def CRESPO_BUFFER_LENGTH_def)
  obtain h where h: "ipc_fmt_header_setup (Some (fmt_header_of (calloc 7))) (Some demo_msg) = Done h"
    and eq: "crespo_fmt_send demo_crespo_env (Some demo_msg) demo_online =
      bnd (crespo_write (Some 1) (modem_io_bytes \<lparr>mio_size = msg_size demo_msg + of_nat sizeof_fmt_header, mio_id = 0,
        mio_cmd = 0, mio_data = Some (fmt_header_bytes h @ msg_payload demo_msg)\<rparr>)) (\<lambda>rc. check (\<not> rc < 0)) demo_online"
    using crespo_fmt_send_image [OF demo_crespo_client w(1) demo_msg_ok(1) fits] by blast
  have img: "modem_io_bytes \<lparr>mio_size = msg_size demo_msg + of_nat sizeof_fmt_header, mio_id = 0,
        mio_cmd = 0, mio_data = Some (fmt_header_bytes h @ msg_payload demo_msg)\<rparr> = demo_crespo_image"
    using h by (auto simp: ipc_fmt_header_setup_def modem_io_bytes_def demo_crespo_image_def demo_msg_def
        fmt_header_bytes_def msg_payload_def le32_def le16_def sizeof_fmt_header_def IPC_GROUP_def IPC_INDEX_def
        drop_bit_eq_div)
  have "\<exists>w1. bnd (crespo_write (Some 1) demo_crespo_image) (\<lambda>rc. check (\<not> rc < 0)) demo_online = (Done (), w1)"
    by (simp add: crespo_write_def heap_get_def bnd_def sys_ioctl_def emit_def ret_eq check_eq
        demo_online_def demo_crespo_image_def)
  then obtain w1 where s: "crespo_fmt_send demo_crespo_env (Some demo_msg) demo_online = (Done (), w1)"
    unfolding eq img by blast
  from crespo_sent_image [OF s [unfolded eq] w(1)] img have "sent 3 w1 = sent 3 demo_online @ demo_crespo_image" by simp
  from crespo_send_recv [OF demo_crespo_client w(1) demo_msg_ok(1) fits demo_crespo_client w(2) _ w(3) this, of demo_msg] s
  show ?thesis by (auto simp: demo_msg_def msg_payload_def)
qed

section \<open>A device with a position\<close>

text \<open>
  The position of a descriptor and what writes on it have stored, from the events: setting the
  position, and writes that store at the position and advance it.
\<close>

fun device_event :: "int \<Rightarrow> nat \<times> u8 list \<Rightarrow> event \<Rightarrow> nat \<times> u8 list" where
  "device_event fd (pos, c) (EvSeek fd' offset) = (if fd' = fd then (offset, c) else (pos, c))"
| "device_event fd (pos, c) (EvWrite fd' bs) =
     (if fd' = fd \<and> bs \<noteq> [] then (pos + length bs, file_splice pos bs c) else (pos, c))"
| "device_event fd (pos, c) _ = (pos, c)"

lemma device_event_close [simp]: "device_event fd s (EvClose fd') = s"
  by (cases s) simp

definition device_state :: "int \<Rightarrow> world \<Rightarrow> nat \<times> u8 list" where
  "device_state fd w = foldl (device_event fd) (0, []) (w_trace w)"

definition device_memory :: "int \<Rightarrow> world \<Rightarrow> u8 list" where
  "device_memory fd w = snd (device_state fd w)"

lemma device_state_adds:
  assumes "adds (\<lambda>e. \<forall>s. device_event fd s e = s) m" and "m w = (r, w')"
  shows "device_state fd w' = device_state fd w"
proof -
  obtain es where es: "w_trace w' = w_trace w @ es" "\<forall>e \<in> set es. \<forall>s. device_event fd s e = s"
    using addsD [OF assms] by blast
  from es(2) have "foldl (device_event fd) s es = s" for s by (induction es arbitrary: s) auto
  with es(1) show ?thesis by (simp add: device_state_def)
qed

lemma device_state_seek: "device_seek fd offset w = (r, w') \<Longrightarrow> device_state fd w' = (offset, device_memory fd w)"
  by (cases "device_state fd w") (auto simp: device_seek_def emit_def device_state_def device_memory_def)

lemma foldl_device_writes:
  "\<forall>e \<in> set es. \<exists>bs. e = EvWrite fd bs \<Longrightarrow> out = concat (map (sent_by fd) es) \<Longrightarrow>
   foldl (device_event fd) (pos, c) es = (pos + length out, if out = [] then c else file_splice pos out c)"
proof (induction es arbitrary: pos c out)
  case (Cons e es)
  from Cons.prems(1) obtain bs where e: "e = EvWrite fd bs" by auto
  define out' where "out' = concat (map (sent_by fd) es)"
  have out: "out = bs @ out'" using Cons.prems(2) e by (simp add: out'_def)
  note IH = Cons.IH [OF _ out'_def]
  show ?case
  proof (cases "bs = []")
    case True
    with IH [of pos c] Cons.prems(1) e out show ?thesis by simp
  next
    case False
    with IH [of "pos + length bs" "file_splice pos bs c"] Cons.prems(1) e out show ?thesis
      by (simp add: file_splice_splice ac_simps)
  qed
qed simp

text \<open>A loop of writes stores its data at the position.\<close>

lemma device_state_write_loop:
  assumes "write_loop (sys_write fd) None bs w = (Done u, w')" and "bs \<noteq> []"
  shows "device_state fd w' = (fst (device_state fd w) + length bs,
    file_splice (fst (device_state fd w)) bs (device_memory fd w))"
proof -
  have "adds (\<lambda>e. \<exists>bs. e = EvWrite fd bs) (write_loop (sys_write fd) None bs)" by (auto intro!: adds_intros)
  from addsD [OF this assms(1)] obtain es where
    es: "w_trace w' = w_trace w @ es" "\<forall>e \<in> set es. \<exists>bs. e = EvWrite fd bs" by blast
  obtain out where out: "sent fd w' = sent fd w @ out" "out = bs"
    using emitsD [OF emits_write_loop assms(1)] by blast
  with es(1) have "bs = concat (map (sent_by fd) es)" by (simp add: sent_def)
  from foldl_device_writes [OF es(2) this] assms(2) es(1) show ?thesis
    by (cases "device_state fd w") (simp add: device_state_def device_memory_def)
qed

section \<open>What the modem is loaded with\<close>

lemma adds_xmm616_psi [adds_intros]:
  assumes "\<And>bs. Q (EvWrite fd bs)" "\<And>bs. Q (EvRead bs)"
  shows "adds Q (xmm616_psi_send client fd mem psi_size)"
proof -
  have a: "adds Q (at_repeat n fd)" for n by (induction n) (auto intro!: adds_intros assms)
  have b: "adds Q (psi_loop fd p crc)" for p crc
    by (induction p arbitrary: crc) (auto intro!: adds_intros assms)
  have c: "adds Q (psi_ack_loop n)" for n by (induction n) (auto intro!: adds_intros assms)
  show ?thesis
    by (auto simp: xmm616_psi_send_def intro!: adds_intros a b c assms split: option.split)
qed

lemma file_splice_take: "n \<le> pos \<Longrightarrow> n \<le> length c \<Longrightarrow> take n (file_splice pos bs c) = take n c"
  by (simp add: file_splice_def min_def)

text \<open>The NV data stage stores at the position what the NV data store then holds and vouches for.\<close>

lemma xmm616_nv_data_send_Done:
  assumes cfg: "nv_configured c p m bp bm secret sz ck"
    and "xmm616_nv_data_send md5 (Some c) fd None w = (Done u, w')"
  shows "\<exists>nv. w_files w' p = Some nv \<and> nv_valid md5 secret sz (w_files w') p m \<and>
    (\<forall>fd'. fd' \<noteq> fd \<longrightarrow> sent fd' w' = sent fd' w) \<and>
    device_memory fd w' = file_splice (fst (device_state fd w)) nv (device_memory fd w)"
proof -
  obtain nv w1 where sz: "ipc_client_nv_data_size (Some c) \<noteq> 0"
    and ld: "ipc_nv_data_load md5 (Some c) w = (Done nv, w1)"
    and snd: "write_loop (sys_write fd) None nv w1 = (Done u, w')"
    using assms(2) by (auto simp: xmm616_nv_data_send_def fail_eq bnd_eq_Done split: if_splits)
  have v: "w_files w1 p = Some nv \<and> nv_valid md5 secret sz (w_files w1) p m"
    by (rule nv_device.load_Done [OF nv_deviceI [OF cfg] ld])
  with sz cfg have "nv \<noteq> []" by (auto simp: nv_valid_def nv_configured_def)
  have tr: "w_trace w1 = w_trace w"
    using unchangedD [OF stable_nv(5) [OF trace_stable, THEN unchanged_stable] ld] .
  have "w_files w' = w_files w1"
    by (rule unchangedD [OF unchanged_write_loop snd]) (rule unchanged_device_calls, simp add: device_blind_def)
  moreover have "sent fd' w' = sent fd' w1" if "fd' \<noteq> fd" for fd'
  proof -
    have "adds (\<lambda>e. sent_by fd' e = []) (write_loop (sys_write fd) None nv)"
      using that by (auto intro!: adds_intros)
    from adds_sent [OF this snd] show ?thesis .
  qed
  moreover have "sent fd' w1 = sent fd' w" for fd' using tr by (simp add: sent_def)
  moreover have "device_state fd w1 = device_state fd w" using tr by (simp add: device_state_def)
  ultimately show ?thesis
    using device_state_write_loop [OF snd \<open>nv \<noteq> []\<close>] v by (auto simp: device_memory_def)
qed

lemma crespo_load_Done:
  assumes cfg: "nv_configured c p m bp bm secret sz ck" and "ctl \<noteq> serial"
    and load: "crespo_load md5 (Some c) ctl serial mem w = (Done u, w')"
  shows "\<exists>nv. sent serial w' = sent serial w @ xmm616_psi_stage (of_nat CRESPO_PSI_SIZE) (take CRESPO_PSI_SIZE mem) \<and>
    part_of CRESPO_PSI_SIZE (CRESPO_MODEM_IMAGE_SIZE - CRESPO_PSI_SIZE) mem
      (take (CRESPO_MODEM_IMAGE_SIZE - CRESPO_PSI_SIZE) (device_memory ctl w')) \<and>
    take (length nv) (drop CRESPO_MODEM_CTL_NV_DATA_OFFSET (device_memory ctl w')) = nv \<and>
    w_files w' p = Some nv \<and> nv_valid md5 secret sz (w_files w') p m"
proof -
  let ?n = "CRESPO_MODEM_IMAGE_SIZE - CRESPO_PSI_SIZE"
  obtain w1 w2 firmware w3 w4 w5 where
    s1: "xmm616_psi_send (Some c) serial (Some mem) (of_nat CRESPO_PSI_SIZE) w = (Done (), w1)" and
    s2: "device_seek ctl 0 w1 = (Done (), w2)" and
    s3: "image_part CRESPO_PSI_SIZE ?n mem w2 = (Done firmware, w3)" and
    s4: "xmm616_firmware_send (Some c) ctl None (Some firmware) w3 = (Done (), w4)" and
    s5: "device_seek ctl CRESPO_MODEM_CTL_NV_DATA_OFFSET w4 = (Done (), w5)" and
    s6: "xmm616_nv_data_send md5 (Some c) ctl None w5 = (Done u, w')"
    using load unfolding crespo_load_def bnd_eq_Done by auto
  have psi: "sent serial w1 = sent serial w @ xmm616_psi_stage (of_nat CRESPO_PSI_SIZE) (take CRESPO_PSI_SIZE mem)"
    using emitsD [OF emits_xmm616_psi s1] by (auto simp: CRESPO_PSI_SIZE_def)
  have seek: "sent fd v' = sent fd v" if "device_seek ctl off v = (Done (), v')" for fd off v v'
    using that by (auto simp: device_seek_def emit_def sent_def)
  from image_part_Done [OF s3] have p: "part_of CRESPO_PSI_SIZE ?n mem firmware" and w3: "w3 = w2" by auto
  then have len: "length firmware = ?n" by (auto simp: part_of_def)
  from s4 have snd: "write_loop (sys_write ctl) None firmware w3 = (Done (), w4)"
    by (auto simp: xmm616_firmware_send_def fail_eq split: if_splits)
  have "adds (\<lambda>e. sent_by serial e = []) (write_loop (sys_write ctl) None firmware)"
    using assms(2) by (auto intro!: adds_intros)
  from adds_sent [OF this snd] have fw_serial: "sent serial w4 = sent serial w3" .
  have "firmware \<noteq> []" using len by (auto simp: crespo_constants)
  from device_state_write_loop [OF snd this] device_state_seek [OF s2] w3
  have m4: "device_memory ctl w4 = file_splice 0 firmware (device_memory ctl w1)"
    by (simp add: device_memory_def)
  obtain nv where nv: "w_files w' p = Some nv" "nv_valid md5 secret sz (w_files w') p m"
    "sent serial w' = sent serial w5"
    "device_memory ctl w' = file_splice (fst (device_state ctl w5)) nv (device_memory ctl w5)"
    using xmm616_nv_data_send_Done [OF cfg s6] assms(2) by metis
  have m': "device_memory ctl w' = file_splice CRESPO_MODEM_CTL_NV_DATA_OFFSET nv (device_memory ctl w4)"
    using nv(4) device_state_seek [OF s5] by (simp add: device_memory_def)
  have "?n \<le> CRESPO_MODEM_CTL_NV_DATA_OFFSET" by (simp add: crespo_constants)
  moreover have "?n \<le> length (device_memory ctl w4)" unfolding m4 using len by simp
  moreover have "take ?n (device_memory ctl w4) = firmware"
    unfolding m4 using file_splice_read [of firmware 0 "device_memory ctl w1"] len by simp
  ultimately have "take ?n (device_memory ctl w') = firmware" unfolding m' by (simp add: file_splice_take)
  moreover have "take (length nv) (drop CRESPO_MODEM_CTL_NV_DATA_OFFSET (device_memory ctl w')) = nv"
    unfolding m' by (rule file_splice_read)
  moreover have "sent serial w' = sent serial w1"
    using nv(3) seek [OF s5] fw_serial w3 seek [OF s2] by simp
  ultimately show ?thesis using psi p nv(1,2) by auto
qed

section \<open>Booting\<close>

text \<open>
  However booting ends: the image is read, the control device and the serial line are opened, the
  modem is loaded if both are open, and what is open is closed again.
\<close>

lemma crespo_boot_shape:
  assumes "crespo_boot md5 (Some c) w = (r, w')" and "r \<noteq> Undef"
  obtains "r = Fail" "w_trace w' = w_trace w"
  | mem ctl es1 serial w1 r1 w2 where
      "w_files w ''/dev/mtd/mtd5ro'' \<noteq> None" "mem = take CRESPO_MODEM_IMAGE_SIZE (file_of w ''/dev/mtd/mtd5ro'')"
      "length mem = CRESPO_MODEM_IMAGE_SIZE" "opened es1 = []" "closed es1 = []"
      "w_trace w1 = w_trace w @ opens ''/dev/modem_ctl'' ctl @ es1 @ opens ''/dev/s3c2410_serial3'' serial"
      "\<forall>fd. sent fd w1 = sent fd w"
      "if serial < 0 then r1 = Fail \<and> w2 = w1
       else 0 \<le> ctl \<and> crespo_load md5 (Some c) ctl serial mem w1 = (r1, w2)"
      "r = Done () \<longleftrightarrow> r1 = Done ()" "w' = w2\<lparr>w_trace := w_trace w2 @ closes serial @ closes ctl\<rparr>"
proof -
  let ?read = "file_data_read (Some ''/dev/mtd/mtd5ro'') CRESPO_MODEM_IMAGE_SIZE 0x1000 0"
  obtain r0 w0 where rd: "?read w = (r0, w0)" by fastforce
  have nu: "r0 \<noteq> Undef" using tameD [OF tame_file_data(1) rd] by simp
  show ?thesis
  proof (cases r0)
    case (Done mem)
    from file_data_read_Done [OF rd [unfolded Done]] have m: "w_files w ''/dev/mtd/mtd5ro'' \<noteq> None"
      "mem = take CRESPO_MODEM_IMAGE_SIZE (file_of w ''/dev/mtd/mtd5ro'')" "length mem = CRESPO_MODEM_IMAGE_SIZE"
      "w_trace w0 = w_trace w" by (auto simp: file_of_def)
    obtain ctl v1 where o1: "sys_open ''/dev/modem_ctl'' w0 = (Done ctl, v1)"
      "w_trace v1 = w_trace w0 @ opens ''/dev/modem_ctl'' ctl" using sys_open_shape by metis
    obtain rc v2 es1 where io: "(if ctl < 0 then ret (-1) else sys_ioctl ctl CRESPO_IOCTL_MODEM_RESET 0) v1 = (Done rc, v2)"
      "w_trace v2 = w_trace v1 @ es1" "ctl < 0 \<longrightarrow> rc = -1" "opened es1 = []" "closed es1 = []"
      "\<forall>fd. concat (map (sent_by fd) es1) = []"
      by (cases "ctl < 0") (auto simp: ret_eq sys_ioctl_def)
    obtain serial v3 where o2: "(if rc < 0 then ret (-1) else sys_open ''/dev/s3c2410_serial3'') v2 = (Done serial, v3)"
      "rc < 0 \<longrightarrow> serial = -1" "w_trace v3 = w_trace v2 @ opens ''/dev/s3c2410_serial3'' serial"
      using open_if_shape [of "rc < 0" _ v2] by metis
    have b0: "bnd ?read g w = g mem w0" for g :: "u8 list \<Rightarrow> unit io" by (rule bnd_Done, rule rd [unfolded Done])
    have b1: "bnd (sys_open ''/dev/modem_ctl'') g w0 = g ctl v1" for g :: "int \<Rightarrow> unit io"
      by (rule bnd_Done, rule o1(1))
    have b2: "bnd (if ctl < 0 then ret (-1) else sys_ioctl ctl CRESPO_IOCTL_MODEM_RESET 0) g v1 = g rc v2"
      for g :: "int \<Rightarrow> unit io" by (rule bnd_Done, rule io(1))
    have b3: "bnd (if rc < 0 then ret (-1) else sys_open ''/dev/s3c2410_serial3'') g v2 = g serial v3"
      for g :: "int \<Rightarrow> unit io" by (rule bnd_Done, rule o2(1))
    have "complete (if serial < 0 then fail else crespo_load md5 (Some c) ctl serial mem)
        (bnd (close_valid serial) (\<lambda>_. close_valid ctl)) v3 = (r, w')"
      using assms(1) unfolding crespo_boot_def by (simp only: option.simps if_False b0 b1 b2 b3)
    moreover have "bnd (close_valid serial) (\<lambda>_. close_valid ctl) v =
        (Done (), v\<lparr>w_trace := w_trace v @ closes serial @ closes ctl\<rparr>)" for v
      by (simp add: bnd_def close_valid_shape)
    ultimately obtain r1 w2 where
      body: "(if serial < 0 then fail else crespo_load md5 (Some c) ctl serial mem) v3 = (r1, w2)" and
      r1: "r = Done () \<longleftrightarrow> r1 = Done ()" "w' = w2\<lparr>w_trace := w_trace w2 @ closes serial @ closes ctl\<rparr>"
      by (rule complete_shape [OF _ _ assms(2)]) blast
    have tr: "w_trace v3 = w_trace w @ opens ''/dev/modem_ctl'' ctl @ es1 @ opens ''/dev/s3c2410_serial3'' serial"
      using m(4) o1(2) io(2) o2(3) by simp
    have "\<forall>fd. sent fd v3 = sent fd w"
      using io(6) by (simp add: sent_def tr opens_def)
    moreover have "if serial < 0 then r1 = Fail \<and> w2 = v3
       else 0 \<le> ctl \<and> crespo_load md5 (Some c) ctl serial mem v3 = (r1, w2)"
      using body io(3) o2(2) by (auto simp: fail_eq)
    ultimately show ?thesis using that(2) [OF m(1-3) io(4,5) tr _ _ r1] by blast
  next
    case Fail
    then show ?thesis
      using that(1) assms(1) rd adds_none [OF adds_files(1) rd]
      by (simp add: crespo_boot_def bnd_def)
  qed (use nu in simp)
qed

lemma adds_crespo_load:
  "adds (\<lambda>e. opened [e] = [] \<and> closed [e] = []) (crespo_load md5 client ctl serial mem)"
proof -
  have "adds (\<lambda>e. opened [e] = [] \<and> closed [e] = []) (device_seek fd offset)" for fd offset
    by (auto simp: device_seek_def adds_def emit_def)
  moreover have "adds Q (device_store p bs)" if "\<And>a b. Q (EvStore a b)" for Q p bs
    using that by (auto simp: device_store_def adds_def emit_def undef_def)
  ultimately show ?thesis
    by (auto simp: crespo_load_def xmm616_firmware_send_def xmm616_nv_data_send_def image_part_def
        intro!: adds_intros split: option.split)
qed

lemma neither_opened:
  "\<forall>e \<in> set es. opened [e] = [] \<and> closed [e] = [] \<Longrightarrow> opened es = [] \<and> closed es = []"
proof (induction es)
  case (Cons e es)
  then show ?case using opened_append [of "[e]" es] closed_append [of "[e]" es] by simp
qed simp

text \<open>
  C4: however booting the Nexus S ends, it has closed, last opened first, just the descriptors it
  opened; and when it succeeds, the serial line was sent the whole PSI stage and nothing else, the
  modem's memory holds the firmware from its start, unharmed by the NV data, and at the offset of the
  NV data what the NV data file holds, which matches its digest.
\<close>

theorem crespo_boot_loads_modem:
  assumes cfg: "nv_configured c p m bp bm secret sz ck"
    and boot: "crespo_boot md5 (Some c) w = (r, w')" "r \<noteq> Undef"
  shows "\<exists>es. w_trace w' = w_trace w @ es \<and> opened es = rev (closed es) \<and>
    (r = Done () \<longrightarrow> (\<exists>ctl serial mem nv. opened es = [ctl, serial] \<and>
      w_files w ''/dev/mtd/mtd5ro'' \<noteq> None \<and> length mem = CRESPO_MODEM_IMAGE_SIZE \<and>
      mem = take CRESPO_MODEM_IMAGE_SIZE (file_of w ''/dev/mtd/mtd5ro'') \<and>
      (distinct (opened es) \<longrightarrow>
        sent serial w' = sent serial w @ xmm616_psi_stage (of_nat CRESPO_PSI_SIZE) (take CRESPO_PSI_SIZE mem) \<and>
        take (CRESPO_MODEM_IMAGE_SIZE - CRESPO_PSI_SIZE) (device_memory ctl w') = drop CRESPO_PSI_SIZE mem \<and>
        take (length nv) (drop CRESPO_MODEM_CTL_NV_DATA_OFFSET (device_memory ctl w')) = nv \<and>
        w_files w' p = Some nv \<and> nv_valid md5 secret sz (w_files w') p m)))"
proof (rule crespo_boot_shape [OF boot])
  fix mem ctl es1 serial w1 r1 w2
  assume m: "w_files w ''/dev/mtd/mtd5ro'' \<noteq> None" "mem = take CRESPO_MODEM_IMAGE_SIZE (file_of w ''/dev/mtd/mtd5ro'')"
      "length mem = CRESPO_MODEM_IMAGE_SIZE" and es1: "opened es1 = []" "closed es1 = []"
    and tr: "w_trace w1 = w_trace w @ opens ''/dev/modem_ctl'' ctl @ es1 @ opens ''/dev/s3c2410_serial3'' serial"
    and sent1: "\<forall>fd. sent fd w1 = sent fd w"
    and st: "if serial < 0 then r1 = Fail \<and> w2 = w1
       else 0 \<le> ctl \<and> crespo_load md5 (Some c) ctl serial mem w1 = (r1, w2)"
    and r: "r = Done () \<longleftrightarrow> r1 = Done ()" and w': "w' = w2\<lparr>w_trace := w_trace w2 @ closes serial @ closes ctl\<rparr>"
  obtain es2 where es2: "w_trace w2 = w_trace w1 @ es2" "\<forall>e \<in> set es2. opened [e] = [] \<and> closed [e] = []"
    using st addsD [OF adds_crespo_load] by (cases "serial < 0") force+
  let ?es = "opens ''/dev/modem_ctl'' ctl @ es1 @ opens ''/dev/s3c2410_serial3'' serial @ es2 @ closes serial @ closes ctl"
  note oc = neither_opened [OF es2(2)]
  have es: "w_trace w' = w_trace w @ ?es" "opened ?es = rev (closed ?es)"
    using tr es1 oc es2(1) w' by (auto simp: opens_def closes_def)
  have "\<exists>nv. opened ?es = [ctl, serial] \<and> (distinct (opened ?es) \<longrightarrow>
      sent serial w' = sent serial w @ xmm616_psi_stage (of_nat CRESPO_PSI_SIZE) (take CRESPO_PSI_SIZE mem) \<and>
      take (CRESPO_MODEM_IMAGE_SIZE - CRESPO_PSI_SIZE) (device_memory ctl w') = drop CRESPO_PSI_SIZE mem \<and>
      take (length nv) (drop CRESPO_MODEM_CTL_NV_DATA_OFFSET (device_memory ctl w')) = nv \<and>
      w_files w' p = Some nv \<and> nv_valid md5 secret sz (w_files w') p m)" if "r = Done ()"
  proof -
    from that r st have load: "crespo_load md5 (Some c) ctl serial mem w1 = (Done (), w2)"
      and fds: "0 \<le> ctl" "0 \<le> serial" by (auto split: if_splits)
    have o: "opened ?es = [ctl, serial]" using es1 oc fds by (simp add: opens_def closes_def)
    have keep: "device_memory ctl w' = device_memory ctl w2" "sent serial w' = sent serial w2"
      by (simp_all add: w' device_memory_def device_state_def sent_def closes_def case_prod_beta')
    show ?thesis
    proof (cases "ctl = serial")
      case False
      from crespo_load_Done [OF cfg False load] obtain nv where
        nv: "sent serial w2 = sent serial w1 @ xmm616_psi_stage (of_nat CRESPO_PSI_SIZE) (take CRESPO_PSI_SIZE mem)"
        "part_of CRESPO_PSI_SIZE (CRESPO_MODEM_IMAGE_SIZE - CRESPO_PSI_SIZE) mem
          (take (CRESPO_MODEM_IMAGE_SIZE - CRESPO_PSI_SIZE) (device_memory ctl w2))"
        "take (length nv) (drop CRESPO_MODEM_CTL_NV_DATA_OFFSET (device_memory ctl w2)) = nv"
        "w_files w2 p = Some nv" "nv_valid md5 secret sz (w_files w2) p m" by blast
      have "take (CRESPO_MODEM_IMAGE_SIZE - CRESPO_PSI_SIZE) (device_memory ctl w2) = drop CRESPO_PSI_SIZE mem"
        using nv(2) m(3) by (simp add: part_of_def)
      moreover have "w_files w' = w_files w2" using w' by simp
      ultimately show ?thesis using nv(1,3-5) sent1 keep o by metis
    qed (use o in simp)
  qed
  with es m show ?thesis by blast
qed simp_all

text \<open>A host on which booting succeeds: the answers come, and the NV data is valid.\<close>

definition crespo_ok ::
  "(u8 list \<Rightarrow> u8 list) \<Rightarrow> u8 list \<Rightarrow> nat \<Rightarrow> string \<Rightarrow> string \<Rightarrow> world \<Rightarrow> bool" where
  "crespo_ok md5 secret sz p m w \<longleftrightarrow> host_ok w \<and> nv_valid md5 secret sz (w_files w) p m"

lemma completes_crespo_stage:
  "completes willing m' rs P \<Longrightarrow> unchanged host_state m' \<Longrightarrow> completes (crespo_ok md5 secret sz p m) m' rs P"
  by (erule completes_frame [where R = "\<lambda>(i, f, fs). (\<forall>x \<in> sset i. 0 < x) \<and> (\<forall>x \<in> sset f. 2 \<le> x) \<and>
      nv_valid md5 secret sz fs p m"]) (auto simp: crespo_ok_def host_ok_def host_state_def)

lemma unchanged_xmm616_psi: "unchanged host_state (xmm616_psi_send client fd mem psi_size)"
proof -
  note calls = unchanged_intros unchanged_device_calls [OF host_state_blind] host_state_blind
  have a: "unchanged host_state (at_repeat n fd)" for n by (induction n) (auto intro!: calls)
  have b: "unchanged host_state (psi_loop fd p crc)" for p crc
    by (induction p arbitrary: crc) (auto intro!: calls)
  have c: "unchanged host_state (psi_ack_loop n)" for n by (induction n) (auto intro!: calls)
  show ?thesis by (auto simp: xmm616_psi_send_def intro!: calls a b c split: option.split)
qed

lemma completes_crespo_write_loop:
  "completes (crespo_ok md5 secret sz p m) (write_loop (sys_write fd) None bs) [] (\<lambda>_. True)"
  by (rule completes_crespo_stage [OF completes_write_loop])
    (auto intro!: unchanged_intros unchanged_device_calls host_state_blind)

lemma completes_device_seek: "completes (crespo_ok md5 secret sz p m) (device_seek fd offset) [] (\<lambda>_. True)"
  by (rule completesI) (simp add: device_seek_def emit_def crespo_ok_def host_ok_def willing_def)

lemma completes_crespo_nv_load:
  assumes cfg: "nv_configured c p m bp bm secret sz ck"
  shows "completes (crespo_ok md5 secret sz p m) (ipc_nv_data_load md5 (Some c)) [] (\<lambda>_. True)"
proof (rule completesI)
  fix w :: world and rest
  assume w: "crespo_ok md5 secret sz p m w" and rd: "w_rd w = map Some [] @- rest"
  then have "host_ok w" "nv_valid md5 secret sz (w_files w) p m" by (simp_all add: crespo_ok_def)
  from nv_load_runs [OF cfg this] rd
  show "\<exists>a w'. ipc_nv_data_load md5 (Some c) w = (Done a, w') \<and> True \<and>
      crespo_ok md5 secret sz p m w' \<and> w_rd w' = rest"
    by (fastforce simp: crespo_ok_def)
qed

lemma completes_crespo_load:
  assumes cfg: "nv_configured c p m bp bm secret sz ck" and sz: "sz \<noteq> 0" and fds: "0 \<le> ctl" "0 \<le> serial"
    and mem: "length mem = CRESPO_MODEM_IMAGE_SIZE"
    and rs: "length rs \<le> 50" "\<forall>r \<in> set rs. length r = 1 \<and> hd r \<noteq> 0x01"
  shows "completes (crespo_ok md5 secret sz p m) (crespo_load md5 (Some c) ctl serial mem)
    ([[0xF0], [info]] @ rs @ [[0x01]]) (\<lambda>_. True)"
proof -
  let ?J = "crespo_ok md5 secret sz p m"
  let ?n = "CRESPO_MODEM_IMAGE_SIZE - CRESPO_PSI_SIZE"
  have len: "length (take ?n (drop CRESPO_PSI_SIZE mem)) \<noteq> 0" using mem by (simp add: crespo_constants)
  have psi: "completes ?J (xmm616_psi_send (Some c) serial (Some mem) (of_nat CRESPO_PSI_SIZE))
      ([[0xF0], [info]] @ rs @ [[0x01]]) (\<lambda>_. True)"
    by (rule completes_crespo_stage [OF completes_xmm616_psi [OF fds(2) _ _ rs] unchanged_xmm616_psi])
      (use mem in \<open>auto simp: crespo_constants\<close>)
  have "completes ?J (xmm616_nv_data_send md5 (Some c) ctl None) [] (\<lambda>_. True)"
    using fds(1) sz cfg completes_then [OF completes_crespo_nv_load [OF cfg] completes_crespo_write_loop]
    by (simp add: xmm616_nv_data_send_def nv_configured_def)
  then have "completes ?J (bnd (xmm616_firmware_send (Some c) ctl None (Some (take ?n (drop CRESPO_PSI_SIZE mem)))) (\<lambda>_.
      bnd (device_seek ctl CRESPO_MODEM_CTL_NV_DATA_OFFSET) (\<lambda>_. xmm616_nv_data_send md5 (Some c) ctl None))) [] (\<lambda>_. True)"
    using fds(1) len
    by (auto simp: xmm616_firmware_send_def intro!: completes_then [OF completes_crespo_write_loop]
        completes_then [OF completes_device_seek])
  then have "completes ?J (bnd (device_seek ctl 0) (\<lambda>_. bnd (image_part CRESPO_PSI_SIZE ?n mem) (\<lambda>firmware.
      bnd (xmm616_firmware_send (Some c) ctl None (Some firmware)) (\<lambda>_.
      bnd (device_seek ctl CRESPO_MODEM_CTL_NV_DATA_OFFSET) (\<lambda>_. xmm616_nv_data_send md5 (Some c) ctl None)))))
      [] (\<lambda>_. True)"
    using mem by (intro completes_then [OF completes_device_seek]) (simp add: image_part_eq crespo_constants)
  from completes_bnd [OF psi this] show ?thesis by (simp add: crespo_load_def)
qed

lemma crespo_boot_completes:
  assumes cfg: "nv_configured c p m bp bm secret sz ck" and sz: "sz \<noteq> 0"
    and ok: "crespo_ok md5 secret sz p m w" and fds: "\<forall>x \<in> sset (w_open w). 0 \<le> x"
    and img: "w_files w ''/dev/mtd/mtd5ro'' = Some c0" "CRESPO_MODEM_IMAGE_SIZE \<le> length c0"
    and rs: "length rs \<le> 50" "\<forall>r \<in> set rs. length r = 1 \<and> hd r \<noteq> 0x01"
    and rd: "w_rd w = map Some ([[0xF0], [info]] @ rs @ [[0x01]]) @- rest"
  shows "\<exists>w' es. crespo_boot md5 (Some c) w = (Done (), w') \<and> w_rd w' = rest \<and>
    w_trace w' = w_trace w @ es \<and> opened es = [shd (w_open w), shd (stl (w_open w))]"
proof -
  let ?read = "file_data_read (Some ''/dev/mtd/mtd5ro'') CRESPO_MODEM_IMAGE_SIZE 0x1000 0"
  let ?mem = "take CRESPO_MODEM_IMAGE_SIZE c0"
  have "files_ok w" using ok by (simp add: crespo_ok_def host_ok_files)
  from file_data_read_ok [OF this img(1), of "0x1000" CRESPO_MODEM_IMAGE_SIZE 0] img(2)
  obtain w0 where r0: "?read w = (Done ?mem, w0)" "w_files w0 = w_files w" by (auto simp: crespo_constants)
  have "crespo_ok md5 secret sz p m w0 \<and> w_rd w0 = w_rd w \<and> w_open w0 = w_open w"
    using stableD [OF stable_files(1) [OF host_ok_stable] r0(1), of "w_rd w"] ok r0(2)
      stableD [OF stable_files(1) [of "\<lambda>v. w_open v = w_open w"] r0(1)]
    by (simp add: crespo_ok_def file_stable_def)
  then have w0: "crespo_ok md5 secret sz p m w0" "w_rd w0 = w_rd w" "w_open w0 = w_open w" by blast+
  define ctl serial where fd: "ctl = shd (w_open w)" "serial = shd (stl (w_open w))"
  have pos: "0 \<le> ctl" "0 \<le> serial" unfolding fd using fds by (meson shd_sset stl_sset)+
  have ioc: "0 < shd (w_ioc w0)" using w0(1) by (simp add: crespo_ok_def host_ok_def shd_sset)
  define v1 where "v1 = w0\<lparr>w_ioc := stl (w_ioc w0), w_open := stl (stl (w_open w)), w_trace := w_trace w0 @
      [EvOpen ''/dev/modem_ctl'' ctl, EvIoctl ctl CRESPO_IOCTL_MODEM_RESET 0, EvOpen ''/dev/s3c2410_serial3'' serial]\<rparr>"
  have "crespo_ok md5 secret sz p m v1" "w_rd v1 = w_rd w"
    using w0 by (auto simp: v1_def crespo_ok_def host_ok_def willing_def dest: stl_sset)
  from completesD [OF completes_crespo_load [OF cfg sz pos _ rs] this(1), of ?mem info rest] this(2) rd img(2)
  obtain w2 where load: "crespo_load md5 (Some c) ctl serial ?mem v1 = (Done (), w2)" "w_rd w2 = rest" by auto
  have b0: "bnd ?read g w = g ?mem w0" for g :: "u8 list \<Rightarrow> unit io" by (rule bnd_Done, rule r0(1))
  have "crespo_boot md5 (Some c) w = complete (crespo_load md5 (Some c) ctl serial ?mem)
      (bnd (close_valid serial) (\<lambda>_. close_valid ctl)) v1"
    using pos ioc w0(3)
    by (simp add: crespo_boot_def b0 bnd_def [of "sys_open _"] bnd_def [of "sys_ioctl _ _ _"] sys_open_def sys_ioctl_def
        Let_def v1_def flip: fd)
  with load have run: "crespo_boot md5 (Some c) w =
      (Done (), w2\<lparr>w_trace := w_trace w2 @ closes serial @ closes ctl\<rparr>)"
    by (simp add: complete_def try_rc_def bnd_def close_valid_shape check_eq)
  obtain es2 where "w_trace w2 = w_trace v1 @ es2" "\<forall>e \<in> set es2. opened [e] = [] \<and> closed [e] = []"
    using addsD [OF adds_crespo_load load(1)] by blast
  moreover have "w_trace w0 = w_trace w" using file_data_read_Done [OF r0(1)] by blast
  ultimately show ?thesis
    using run load(2) neither_opened [of es2] by (auto simp: v1_def closes_def fd)
qed

definition demo_crespo_world :: world where
  "demo_crespo_world = demo_nv_world\<lparr>w_sel := sconst 1, w_wr := sconst 0x8000, w_ioc := sconst 1, w_fio := sconst 2,
     w_open := 3 ## sconst 4, w_rd := map Some [[0xF0], [7], [1]] @- sconst None, w_trace := [],
     w_files := (w_files demo_nv_world)(''/dev/mtd/mtd5ro'' \<mapsto> calloc 0xD80000)\<rparr>"

lemma demo_crespo_ok: "crespo_ok demo_md5 [7] 5 ''nv'' ''nv.md5'' demo_crespo_world"
  using demo_nv_valid
  by (auto simp: crespo_ok_def host_ok_def willing_def demo_crespo_world_def nv_valid_def split: option.splits)

theorem crespo_boot_loads_modem_witness:
  "\<exists>w' ctl serial nv. crespo_boot demo_md5 (Some demo_env) demo_crespo_world = (Done (), w') \<and>
     opened (w_trace w') = [ctl, serial] \<and> closed (w_trace w') = [serial, ctl] \<and>
     take 0xD7B000 (device_memory ctl w') = calloc 0xD7B000 \<and> w_files w' ''nv'' = Some nv"
proof -
  let ?w = demo_crespo_world and ?mem = "calloc 0xD80000 :: u8 list"
  have t: "w_trace ?w = []" by (simp add: demo_crespo_world_def)
  have fds: "\<forall>x \<in> sset (w_open ?w). 0 \<le> x" "shd (w_open ?w) = 3" "shd (stl (w_open ?w)) = 4"
    and img: "w_files ?w ''/dev/mtd/mtd5ro'' = Some ?mem" "CRESPO_MODEM_IMAGE_SIZE \<le> length ?mem"
    and rd: "w_rd ?w = map Some ([[0xF0], [7]] @ [] @ [[0x01]]) @- sconst None"
    by (simp_all add: demo_crespo_world_def CRESPO_MODEM_IMAGE_SIZE_def)
  obtain w' where w': "crespo_boot demo_md5 (Some demo_env) ?w = (Done (), w')"
    and o: "opened (w_trace w') = [3, 4]"
    using crespo_boot_completes [OF demo_configured _ demo_crespo_ok fds(1) img _ _ rd] fds(2,3)
    by (auto simp: t)
  have mem: "take CRESPO_MODEM_IMAGE_SIZE (file_of ?w ''/dev/mtd/mtd5ro'') = ?mem"
    using img by (simp add: file_of_def CRESPO_MODEM_IMAGE_SIZE_def)
  have "drop CRESPO_PSI_SIZE ?mem = calloc 0xD7B000" by (simp add: calloc_def CRESPO_PSI_SIZE_def)
  moreover obtain nv where c: "opened (w_trace w') = rev (closed (w_trace w'))"
    "take (CRESPO_MODEM_IMAGE_SIZE - CRESPO_PSI_SIZE) (device_memory 3 w') = drop CRESPO_PSI_SIZE ?mem"
    "w_files w' ''nv'' = Some nv"
    using crespo_boot_loads_modem [OF demo_configured w'] o unfolding mem by (auto simp: t)
  moreover have "closed (w_trace w') = [4, 3]" using arg_cong [OF c(1), of rev] o by simp
  ultimately show ?thesis
    using w' o by (rule_tac exI [of _ w'], rule_tac exI [of _ 3], rule_tac exI [of _ 4], rule_tac exI [of _ nv])
      (simp add: crespo_constants)
qed

section \<open>A failed \<open>open\<close>\<close>

text \<open>
  A new object holds descriptor 0. When opening fails this stays so, and closing the transport
  closes descriptor 0, which the client never opened.
\<close>

lemma crespo_close_after_failed_open:
  assumes "crespo_data_create (Some s) p g d w = (Done d', w1)" and "crespo_open (Some (w_next w)) type w1 = (Fail, w2)"
  shows "\<exists>w3. crespo_close (Some (w_next w)) w2 = (Done (), w3) \<and> w_trace w3 = w_trace w @ [EvClose 0]"
proof -
  have w1: "w_heap w1 (w_next w) = Some 0" "w_trace w1 = w_trace w"
    using assms(1) by (auto simp: crespo_data_create_def heap_calloc_def bnd_def ret_eq)
  have "w_heap w2 = w_heap w1 \<and> w_trace w2 = w_trace w1"
    using assms(2) w1(1)
    by (auto simp: crespo_open_def bnd_def sys_open_def Let_def fail_eq heap_set_def split: if_splits)
  then show ?thesis
    using w1 by (simp add: crespo_close_def bnd_def heap_get_def heap_set_def sys_close_def emit_def)
qed

end
