(* ===== verification/NvImei.thy ===== *)
theory NvImei
  imports Smdk4412
begin

text \<open>
  tools/nv_data-imei.c, the IMEI in the NV data: its encoding, reading it, writing it with a new
  digest, and searching its place; and tools/nv_data-md5.c. What the tools print is returned beside
  the way they end. \<open>err\<close> is the value a failed call leaves in \<open>errno\<close>.
\<close>

section \<open>Constants and structures\<close>

definition XMM616_NV_DATA_SECRET :: "u8 list" where "XMM616_NV_DATA_SECRET = ascii ''Samsung_Android_RIL''"
definition XMM616_NV_DATA_SIZE :: nat where "XMM616_NV_DATA_SIZE = 0x200000"
definition XMM616_NV_DATA_CHUNK_SIZE :: nat where "XMM616_NV_DATA_CHUNK_SIZE = 0x1000"
definition IMEI_LENGTH :: nat where "IMEI_LENGTH = 15"

lemmas imei_constants = XMM616_NV_DATA_SECRET_def XMM616_NV_DATA_SIZE_def XMM616_NV_DATA_CHUNK_SIZE_def
  IMEI_LENGTH_def

text \<open>A function of a tool returns, or a failed \<open>assert\<close> aborts the program.\<close>

datatype ended = Returned int | Aborted

datatype report = Nothing_shown | Imei_shown string | Offsets_shown "nat list" | Digest_shown "u8 list"

text \<open>A call whose failure the caller sees as -1 or a null pointer.\<close>

definition attempt :: "'a io \<Rightarrow> 'a option io" where
  "attempt m w = (case m w of
       (Done a, w') \<Rightarrow> (Done (Some a), w')
     | (Fail, w') \<Rightarrow> (Done None, w')
     | (Undef, w') \<Rightarrow> (Undef, w'))"

text \<open>
  \<open>file_data_write\<close> with the value of \<open>errno\<close> it leaves behind: \<open>None\<close> is the return code 0, \<open>Some e\<close> the
  return code -1 with \<open>errno\<close> set to \<open>e\<close>. Where a call of libc fails that is the value \<open>err\<close> which this call
  has set. When \<open>write\<close> does not go on it is the return code of \<open>write\<close>, that is 0 or -1.
\<close>

definition EINVAL :: int where "EINVAL = 22"

function file_write_errno_loop :: "string \<Rightarrow> nat \<Rightarrow> nat \<Rightarrow> u8 list \<Rightarrow> int option io" where
  "file_write_errno_loop path chunk_size pos p w =
     (if p \<noteq> [] then
        (case sys_file_write path pos
                (take (if length p > chunk_size then chunk_size else length p) p) w of
           (Done rc, w') \<Rightarrow>
             if rc \<le> 0 then (Done (Some rc), w')
             else file_write_errno_loop path chunk_size (pos + nat rc) (drop (nat rc) p) w'
         | (_, w') \<Rightarrow> (Fail, w'))
      else (Done None, w))"
  by pat_completeness auto
termination
  by (relation "measure (\<lambda>(path, chunk_size, pos, p, w). length p)") auto

declare file_write_errno_loop.simps [simp del]

definition file_data_write_errno ::
  "int \<Rightarrow> string option \<Rightarrow> u8 list option \<Rightarrow> nat \<Rightarrow> u32 \<Rightarrow> int option io" where
  "file_data_write_errno err path data chunk_size offset =
     (case (path, data) of
        (Some p, Some bs) \<Rightarrow>
          if length bs = 0 \<or> chunk_size = 0 \<or> length bs < chunk_size then ret (Some EINVAL)
          else
            bnd (sys_open_write p) (\<lambda>opened.
            if \<not> opened then ret (Some err)
            else
              let (seek, pos) = sys_lseek (sint offset) in
              if seek < sint offset then ret (Some err)
              else file_write_errno_loop p chunk_size pos bs)
      | _ \<Rightarrow> ret (Some EINVAL))"

section \<open>Encoding\<close>

text \<open>
  \<open>sscanf\<close> with \<open>%0kx\<close>, for the widths 1 and 2: white space is skipped; of the next \<open>k\<close> characters a sign and the
  hexadecimal digits after it are converted to \<open>unsigned int\<close>. Without a digit, or with nothing but
  a prefix \<open>0x\<close>, there is no conversion.
\<close>

definition hex_of :: "char \<Rightarrow> nat option" where
  "hex_of c = hexval (of_char c)"

definition number_of :: "nat \<Rightarrow> nat list \<Rightarrow> nat" where
  "number_of radix = foldl (\<lambda>n d. radix * n + d) 0"

definition sscanf_x :: "nat \<Rightarrow> string \<Rightarrow> u32 option" where
  "sscanf_x k s =
     (let body = take k (dropWhile (\<lambda>c. isspace (of_char c)) s);
          sign = (case body of c # _ \<Rightarrow> c = CHR ''+'' \<or> c = CHR ''-'' | [] \<Rightarrow> False);
          body' = (if sign then tl body else body);
          digits = takeWhile (\<lambda>c. hex_of c \<noteq> None) body';
          v = of_nat (number_of 16 (map (\<lambda>c. the (hex_of c)) digits))
      in if digits = [] \<or> (body' = ''0x'' \<or> body' = ''0X'') then None
         else Some (if sign \<and> hd body = CHR ''-'' then - v else v))"

fun encode_pairs :: "nat \<Rightarrow> string \<Rightarrow> u8 list option" where
  "encode_pairs 0 s = Some []"
| "encode_pairs (Suc n) s =
     (case sscanf_x 2 s of None \<Rightarrow> None
      | Some v \<Rightarrow> map_option (\<lambda>bs. ucast (push_bit 4 v OR drop_bit 4 (v AND 0xf0)) # bs)
          (encode_pairs n (drop 2 s)))"

text \<open>\<open>None\<close> is a failed assertion.\<close>

definition encode_imei :: "string \<Rightarrow> u8 list option" where
  "encode_imei imei =
     (case sscanf_x 1 imei of None \<Rightarrow> None
      | Some v \<Rightarrow> map_option (\<lambda>bs. ucast (push_bit 4 v OR 0xA) # bs)
          (encode_pairs ((IMEI_LENGTH - 1) div 2) (drop 1 imei)))"

fun decode_pairs :: "u8 list \<Rightarrow> string" where
  "decode_pairs [] = []"
| "decode_pairs (b # bs) =
     (let v = unat (drop_bit 4 b OR push_bit 4 (b AND 0x0f))
      in hexchar (v div 16) # hexchar v # decode_pairs bs)"

text \<open>The eight bytes at \<open>offset\<close> of the buffer.\<close>

definition decode_imei :: "nat \<Rightarrow> u8 list \<Rightarrow> string outcome" where
  "decode_imei offset buf =
     obind (peek offset ((IMEI_LENGTH + 1) div 2) buf) (\<lambda>bs.
       Done (hexchar (unat (drop_bit 4 (hd bs AND 0xf0))) # decode_pairs (tl bs)))"

section \<open>Searching\<close>

text \<open>
  \<open>memchr (p, c, n)\<close> with \<open>p\<close> at \<open>pos\<close> of the block: the position of the first \<open>c\<close>; it looks at
  one byte after the other, and at none behind the one it finds.
\<close>

definition memchr :: "u8 \<Rightarrow> nat \<Rightarrow> nat \<Rightarrow> u8 list \<Rightarrow> nat option outcome" where
  "memchr c pos n buf =
     (let window = take n (drop pos buf); j = length (takeWhile (\<lambda>b. b \<noteq> c) window)
      in if j < length window then Done (Some (pos + j))
         else if length window = n then Done None else Undef)"

text \<open>\<open>strncmp (a, b, n) == 0\<close> on memory: it ends at the first difference and at a zero byte.\<close>

fun strncmp_zero :: "nat \<Rightarrow> u8 list \<Rightarrow> u8 list \<Rightarrow> bool outcome" where
  "strncmp_zero 0 as bs = Done True"
| "strncmp_zero (Suc n) (a # as) (b # bs) =
     (if a \<noteq> b then Done False else if a = 0 then Done True else strncmp_zero n as bs)"
| "strncmp_zero (Suc n) as bs = Undef"

lemma memchr_Some:
  "memchr c pos n buf = Done (Some k) \<Longrightarrow> pos \<le> k \<and> k < length buf \<and> buf ! k = c"
proof -
  assume m: "memchr c pos n buf = Done (Some k)"
  let ?w = "take n (drop pos buf)"
  let ?j = "length (takeWhile (\<lambda>b. b \<noteq> c) ?w)"
  from m have j: "?j < length ?w" "k = pos + ?j" by (auto simp: memchr_def Let_def split: if_splits)
  from nth_length_takeWhile [OF j(1)] have "?w ! ?j = c" by simp
  with j show ?thesis by auto
qed

text \<open>The \<open>do ... while\<close> loop, with \<open>ptr\<close> at \<open>pos\<close>; the result is the places found.\<close>

function search_loop :: "u8 list \<Rightarrow> u8 list \<Rightarrow> nat \<Rightarrow> nat \<Rightarrow> nat list outcome" where
  "search_loop given buffer pos search_size =
     (case memchr (hd given) pos search_size buffer of
        Done (Some k) \<Rightarrow>
          obind (strncmp_zero (length given) given (drop k buffer)) (\<lambda>eq.
          obind (search_loop given buffer (k + 1) (length buffer - k)) (\<lambda>found.
          Done (if eq then k # found else found)))
      | Done None \<Rightarrow> Done []
      | Fail \<Rightarrow> Fail
      | Undef \<Rightarrow> Undef)"
  by pat_completeness auto
termination
  by (relation "measure (\<lambda>(given, buffer, pos, n). length buffer - pos)") (auto dest: memchr_Some)

declare search_loop.simps [simp del]

section \<open>The commands\<close>

text \<open>The client is a dummy; it serves the log messages only.\<close>

definition ipc_setup :: "int outcome" where
  "ipc_setup = (case ipc_client_create [] IPC_CLIENT_TYPE_DUMMY of
     Done _ \<Rightarrow> Done 0 | Fail \<Rightarrow> Done (-52) | Undef \<Rightarrow> Undef)"

definition bruteforce_imei_offset :: "int \<Rightarrow> string \<Rightarrow> string \<Rightarrow> (report \<times> ended) io" where
  "bruteforce_imei_offset err path given_imei =
     bnd (lift_outcome ipc_setup) (\<lambda>rc.
     if rc \<noteq> 0 then ret (Nothing_shown, Returned rc)
     else
       bnd (attempt (file_data_size (Some path))) (\<lambda>sz.
       case sz of None \<Rightarrow> ret (Nothing_shown, Returned err)
       | Some file_size \<Rightarrow>
           bnd (attempt (file_data_read (Some path) file_size XMM616_NV_DATA_CHUNK_SIZE 0)) (\<lambda>data.
           case data of None \<Rightarrow> ret (Nothing_shown, Returned (-1))
           | Some buffer \<Rightarrow>
               (case encode_imei given_imei of None \<Rightarrow> ret (Nothing_shown, Aborted)
                | Some given \<Rightarrow>
                    bnd (lift_outcome (search_loop given buffer 0 file_size)) (\<lambda>found.
                    ret (Offsets_shown found, Returned 0))))))"

definition read_imei :: "string \<Rightarrow> u32 \<Rightarrow> (report \<times> ended) io" where
  "read_imei path offset =
     bnd (lift_outcome ipc_setup) (\<lambda>rc.
     if rc \<noteq> 0 then ret (Nothing_shown, Returned rc)
     else
       bnd (attempt (file_data_read (Some path) XMM616_NV_DATA_SIZE XMM616_NV_DATA_CHUNK_SIZE 0)) (\<lambda>data.
       case data of None \<Rightarrow> ret (Nothing_shown, Returned (-1))
       | Some buffer \<Rightarrow>
           bnd (lift_outcome (decode_imei (unat offset) buffer)) (\<lambda>imei.
           ret (Imei_shown imei, Returned 0))))"

text \<open>The result of \<open>unlink\<close> is not looked at.\<close>

definition write_imei ::
  "(u8 list \<Rightarrow> u8 list) \<Rightarrow> int \<Rightarrow> string \<Rightarrow> u32 \<Rightarrow> string \<Rightarrow> (report \<times> ended) io" where
  "write_imei md5 err path offset imei =
     bnd (lift_outcome ipc_setup) (\<lambda>rc.
     if rc \<noteq> 0 then ret (Nothing_shown, Returned rc)
     else if length imei \<noteq> IMEI_LENGTH then ret (Nothing_shown, Aborted)
     else
       let md5_path = path @ ''.md5''
       in case encode_imei imei of None \<Rightarrow> ret (Nothing_shown, Aborted)
          | Some buffer \<Rightarrow>
              bnd (file_data_write_errno err (Some path) (Some buffer) (length buffer) offset) (\<lambda>wr.
              case wr of Some e \<Rightarrow> ret (Nothing_shown, Returned e)
              | None \<Rightarrow>
                  bnd (attempt (ipc_nv_data_md5_calculate md5 path (Some XMM616_NV_DATA_SECRET)
                    XMM616_NV_DATA_SIZE XMM616_NV_DATA_CHUNK_SIZE)) (\<lambda>calc.
                  case calc of None \<Rightarrow> ret (Nothing_shown, Returned (-1))
                  | Some md5_string \<Rightarrow>
                      let len = strlen md5_string in
                      bnd (sys_unlink md5_path) (\<lambda>_.
                      bnd (file_data_write_errno err (Some md5_path) (Some (take len md5_string)) len 0) (\<lambda>wr2.
                      case wr2 of Some e \<Rightarrow> ret (Nothing_shown, Returned e)
                      | None \<Rightarrow> ret (Nothing_shown, Returned 0))))))"

text \<open>\<open>main\<close> of nv_data-md5.c; \<open>args\<close> are the arguments after the program's name.\<close>

definition nv_data_md5_main :: "(u8 list \<Rightarrow> u8 list) \<Rightarrow> string list \<Rightarrow> (report \<times> ended) io" where
  "nv_data_md5_main md5 args =
     (case args of [] \<Rightarrow> ret (Nothing_shown, Returned 1)
      | path # _ \<Rightarrow>
          (case ipc_client_create [] IPC_CLIENT_TYPE_DUMMY of
             Done _ \<Rightarrow>
               bnd (attempt (ipc_nv_data_md5_calculate md5 path (Some (ascii ''Samsung_Android_RIL'')) 0x200000 0x1000))
                 (\<lambda>calc. case calc of None \<Rightarrow> ret (Nothing_shown, Returned 1)
                   | Some md5_string \<Rightarrow> ret (Digest_shown (cstr md5_string), Returned 0))
           | _ \<Rightarrow> ret (Nothing_shown, Returned 70)))"

section \<open>The encoding\<close>

definition is_digit :: "char \<Rightarrow> bool" where
  "is_digit c \<longleftrightarrow> c \<in> set ''0123456789''"

lemma digit_table:
  "\<forall>c \<in> set ''0123456789''. (case hex_of c of None \<Rightarrow> False
     | Some d \<Rightarrow> d < 10 \<and> hexchar d = c) \<and> \<not> isspace (of_char c) \<and> c \<noteq> CHR ''+'' \<and> c \<noteq> CHR ''-'' \<and>
     c \<noteq> CHR ''x'' \<and> c \<noteq> CHR ''X''"
  by code_simp

lemma digitE:
  assumes "is_digit c"
  obtains d where "hex_of c = Some d" "d < 10" "hexchar d = c" "\<not> isspace (of_char c)"
    "c \<noteq> CHR ''+''" "c \<noteq> CHR ''-''" "c \<noteq> CHR ''x''" "c \<noteq> CHR ''X''"
  using assms digit_table that unfolding is_digit_def by (fastforce split: option.splits)

lemma sscanf_digit1:
  assumes "is_digit c" and "hex_of c = Some d"
  shows "sscanf_x 1 (c # s) = Some (of_nat d)"
  using assms by (elim digitE) (simp add: sscanf_x_def number_of_def)

lemma sscanf_digit2:
  assumes "is_digit a" "is_digit b" and "hex_of a = Some d" "hex_of b = Some e"
  shows "sscanf_x 2 (a # b # s) = Some (of_nat (16 * d + e))"
  using assms by (elim digitE) (simp add: sscanf_x_def number_of_def numeral_2_eq_2)

text \<open>The two nibbles of a byte change their places, and change them back.\<close>

lemma pair_table:
  "list_all (\<lambda>d. list_all (\<lambda>e.
     (let v = of_nat (16 * d + e) :: u32; b = ucast (push_bit 4 v OR drop_bit 4 (v AND 0xf0)) :: u8
      in unat (drop_bit 4 b OR push_bit 4 (b AND 0x0f)) = 16 * d + e)) [0..<10]) [0..<10]"
  by code_simp

lemma first_table:
  "list_all (\<lambda>d. unat (drop_bit 4 ((ucast (push_bit 4 (of_nat d :: u32) OR 0xA) :: u8) AND 0xf0)) = d) [0..<10]"
  by code_simp

lemma pair_roundtrip:
  assumes "d < 10" "e < 10"
  shows "decode_pairs (ucast (push_bit 4 (of_nat (16 * d + e) :: u32) OR drop_bit 4 (of_nat (16 * d + e) AND 0xf0)) # bs) =
    hexchar d # hexchar e # decode_pairs bs"
proof -
  have "hexchar (16 * d + e) = hexchar e" by (simp add: hexchar_def)
  moreover have "(16 * d + e) div 16 = d" using assms by simp
  moreover have "let v = of_nat (16 * d + e) :: u32; b = ucast (push_bit 4 v OR drop_bit 4 (v AND 0xf0)) :: u8
      in unat (drop_bit 4 b OR push_bit 4 (b AND 0x0f)) = 16 * d + e"
    using pair_table assms by (simp add: list_all_iff del: upt_rec_numeral)
  ultimately show ?thesis by (simp add: Let_def del: of_nat_add of_nat_mult)
qed

lemma encode_pairs_digits:
  "length s = 2 * n \<Longrightarrow> (\<forall>c \<in> set s. is_digit c) \<Longrightarrow>
   \<exists>bs. encode_pairs n s = Some bs \<and> length bs = n \<and> decode_pairs bs = s"
proof (induction n arbitrary: s)
  case (Suc n)
  then obtain a b s' where s: "s = a # b # s'" by (cases s; cases "tl s") auto
  with Suc.prems have ab: "is_digit a" "is_digit b" by auto
  from ab(1) obtain d where d: "hex_of a = Some d" "d < 10" "hexchar d = a" by (rule digitE)
  from ab(2) obtain e where e: "hex_of b = Some e" "e < 10" "hexchar e = b" by (rule digitE)
  from Suc.IH [of s'] Suc.prems s obtain bs where
    "encode_pairs n s' = Some bs" "length bs = n" "decode_pairs bs = s'" by auto
  with s sscanf_digit2 [OF ab d(1) e(1)] pair_roundtrip [OF d(2) e(2)] d(3) e(3) show ?case
    by (simp del: of_nat_add of_nat_mult decode_pairs.simps)
qed simp

lemma encode_decode:
  assumes "length s = IMEI_LENGTH" "\<forall>c \<in> set s. is_digit c"
  shows "\<exists>bs. encode_imei s = Some bs \<and> length bs = 8 \<and>
    (\<forall>offset buf. take 8 (drop offset buf) = bs \<longrightarrow> offset + 8 \<le> length buf \<longrightarrow> decode_imei offset buf = Done s)"
proof -
  obtain c s' where s: "s = c # s'" using assms(1) by (cases s) (auto simp: IMEI_LENGTH_def)
  with assms have c: "is_digit c" and s': "length s' = 2 * 7" "\<forall>c \<in> set s'. is_digit c"
    by (auto simp: IMEI_LENGTH_def)
  from c obtain d where d: "hex_of c = Some d" "d < 10" "hexchar d = c" by (rule digitE)
  from encode_pairs_digits [OF s'] obtain bs where
    bs: "encode_pairs 7 s' = Some bs" "length bs = 7" "decode_pairs bs = s'" by blast
  let ?b = "ucast (push_bit 4 (of_nat d :: u32) OR 0xA) :: u8"
  have "unat (drop_bit 4 (?b AND 0xf0)) = d" using first_table d(2) by (simp add: list_all_iff del: upt_rec_numeral)
  then have "decode_imei offset buf = Done s" if "take 8 (drop offset buf) = ?b # bs" "offset + 8 \<le> length buf" for offset buf
    using that bs(3) d(3) s by (simp add: decode_imei_def IMEI_LENGTH_def peek_def)
  moreover have "encode_imei s = Some (?b # bs)"
    using bs(1) s sscanf_digit1 [OF c d(1), of s'] by (simp add: encode_imei_def IMEI_LENGTH_def)
  ultimately show ?thesis using bs(2) by (intro exI [of _ "?b # bs"]) simp
qed

section \<open>Writing\<close>

lemma attempt_eq_Done:
  "attempt m w = (Done x, w') \<longleftrightarrow> (\<exists>a. m w = (Done a, w') \<and> x = Some a) \<or> (m w = (Fail, w') \<and> x = None)"
  by (auto simp: attempt_def split: prod.splits outcome.splits)

lemma runs_to_attempt: "runs_to m w a fs \<Longrightarrow> runs_to (attempt m) w (Some a) fs"
  by (auto simp: runs_to_def attempt_def)

lemma ipc_setup_eq: "ipc_setup = Done 0"
  by (simp add: ipc_setup_def ipc_client_create_def ipc_dummy_client_create_def client_types)

lemma bnd_setup: "bnd (lift_outcome ipc_setup) f = f 0"
  by (simp add: ipc_setup_eq bnd_lift)

abbreviation imei_valid :: "(u8 list \<Rightarrow> u8 list) \<Rightarrow> (string \<Rightarrow> u8 list option) \<Rightarrow> string \<Rightarrow> bool" where
  "imei_valid md5 fs p \<equiv> nv_valid md5 XMM616_NV_DATA_SECRET XMM616_NV_DATA_SIZE fs p (p @ ''.md5'')"

lemma seek_pos_small: "unat offset < 2 ^ 31 \<Longrightarrow> seek_pos offset = unat offset"
proof -
  assume lt: "unat (offset :: u32) < 2 ^ 31"
  then have "int (unat offset) < int (2 ^ 31)" by (simp only: of_nat_less_iff)
  then have "uint offset < 2 ^ 31" by simp
  then have "sint offset = uint offset"
    unfolding sint_uint by (intro signed_take_bit_int_eq_self) (simp_all add: order_trans [of _ 0])
  then have "sint offset = int (unat offset)" by simp
  then show ?thesis by (simp add: seek_pos_def sys_lseek_def)
qed

text \<open>It does what \<open>file_data_write\<close> does.\<close>

lemma file_write_errno_loop_eq:
  "file_write_loop path chunk_size pos p w =
     (case file_write_errno_loop path chunk_size pos p w of
        (Done None, w') \<Rightarrow> (Done (), w') | (Undef, w') \<Rightarrow> (Undef, w') | (_, w') \<Rightarrow> (Fail, w'))"
proof (induction path chunk_size pos p w rule: file_write_errno_loop.induct)
  case (1 path chunk_size pos p w)
  let ?wr = "sys_file_write path pos (take (if length p > chunk_size then chunk_size else length p) p) w"
  obtain r w1 where wr: "?wr = (r, w1)" by fastforce
  show ?case
  proof (cases "\<exists>rc. p \<noteq> [] \<and> r = Done rc \<and> 0 < rc")
    case True
    then obtain rc where t: "p \<noteq> []" "?wr = (Done rc, w1)" "\<not> rc \<le> 0" using wr by auto
    from 1 [OF t(1) t(2) [symmetric] refl t(3)] t show ?thesis
      by (simp add: file_write_loop.simps [of _ _ _ p] file_write_errno_loop.simps [of _ _ _ p])
  next
    case False
    with wr show ?thesis
      by (cases r) (auto simp: file_write_loop.simps [of _ _ _ p] file_write_errno_loop.simps [of _ _ _ p])
  qed
qed

lemma file_data_write_errno_eq:
  "file_data_write path data chunk_size offset w =
     (case file_data_write_errno err path data chunk_size offset w of
        (Done None, w') \<Rightarrow> (Done (), w') | (Undef, w') \<Rightarrow> (Undef, w') | (_, w') \<Rightarrow> (Fail, w'))"
proof (cases "path = None \<or> data = None")
  case True
  then show ?thesis
    by (cases path) (auto simp: file_data_write_def file_data_write_errno_def ret_eq fail_eq)
next
  case False
  then obtain p bs where pb: "path = Some p" "data = Some bs" by auto
  obtain r w1 where o: "sys_open_write p w = (r, w1)" by fastforce
  then obtain b where r: "r = Done b" by (auto simp: sys_open_write_def Let_def split: if_splits)
  have l: "(case file_write_errno_loop p chunk_size pos bs w1 of
      (Done None, w') \<Rightarrow> (Done (), w') | (Undef, w') \<Rightarrow> (Undef, w') | (_, w') \<Rightarrow> (Fail, w')) =
      file_write_loop p chunk_size pos bs w1" for pos by (rule file_write_errno_loop_eq [symmetric])
  obtain sk pos where sk: "sys_lseek (sint offset) = (sk, pos)" by fastforce
  then have "\<not> sk < sint offset" using seek_passes [of offset] by simp
  with o r sk show ?thesis
    by (cases b) (simp_all add: pb file_data_write_def file_data_write_errno_def bnd_def ret_eq fail_eq check_eq l)
qed

lemma file_data_write_errno_None:
  "file_data_write_errno err path data chunk_size offset w = (Done None, w') \<longleftrightarrow>
     file_data_write path data chunk_size offset w = (Done (), w')"
  by (subst file_data_write_errno_eq [of _ _ _ _ _ err])
    (cases "file_data_write_errno err path data chunk_size offset w";
      cases "fst (file_data_write_errno err path data chunk_size offset w)"; auto split: option.split)

lemma runs_to_errno:
  "runs_to (file_data_write path data chunk_size offset) w () fs \<Longrightarrow>
   runs_to (file_data_write_errno err path data chunk_size offset) w None fs"
  by (auto simp: runs_to_def file_data_write_errno_None)

text \<open>The code 0 is left only by a write that takes nothing.\<close>

lemma file_write_errno_loop_code:
  "file_write_errno_loop path chunk_size pos p w = (Done (Some e), w') \<Longrightarrow> 0 \<notin> sset (w_fio w) \<Longrightarrow> 0 < chunk_size \<Longrightarrow> e \<noteq> 0"
proof (induction path chunk_size pos p w rule: file_write_errno_loop.induct)
  case (1 path chunk_size pos p w)
  let ?bs = "take (if length p > chunk_size then chunk_size else length p) p"
  let ?d = "shd (w_fio w)"
  from 1(2) have ne: "p \<noteq> []" by (auto simp: file_write_errno_loop.simps [of _ _ _ p])
  have d: "?d \<noteq> 0" using 1(3) by (metis shd_sset)
  obtain rc w1 where wr: "sys_file_write path pos ?bs w = (Done rc, w1)" "w_fio w1 = stl (w_fio w)"
    and rc: "rc = (if ?d < 0 then -1 else int (min (nat ?d) (length ?bs)))"
    by (cases "?d < 0") (simp_all add: sys_file_write_def Let_def)
  show ?case
  proof (cases "rc \<le> 0")
    case True
    then have "e = rc" using 1(2) wr(1) ne by (simp add: file_write_errno_loop.simps [of _ _ _ p])
    moreover have "0 < length ?bs" using ne 1(4) by simp
    ultimately show ?thesis using rc d True by (auto split: if_splits)
  next
    case False
    have "0 \<notin> sset (w_fio w1)" using 1(3) wr(2) by (auto dest: stl_sset)
    moreover have "file_write_errno_loop path chunk_size (pos + nat rc) (drop (nat rc) p) w1 = (Done (Some e), w')"
      using 1(2) wr(1) ne False by (simp add: file_write_errno_loop.simps [of _ _ _ p])
    ultimately show ?thesis using 1(1) [OF ne wr(1) [symmetric] refl False] 1(4) by blast
  qed
qed

lemma file_data_write_errno_code:
  assumes "file_data_write_errno err path data chunk_size offset w = (Done (Some e), w')" "0 \<notin> sset (w_fio w)" "err \<noteq> 0"
  shows "e \<noteq> 0"
proof (cases "path = None \<or> data = None")
  case True
  with assms(1) show ?thesis by (cases path) (auto simp: file_data_write_errno_def ret_eq EINVAL_def)
next
  case False
  then obtain p bs where pb: "path = Some p" "data = Some bs" by auto
  show ?thesis
  proof (cases "length bs = 0 \<or> chunk_size = 0 \<or> length bs < chunk_size")
    case True
    with assms(1) pb show ?thesis by (auto simp: file_data_write_errno_def ret_eq EINVAL_def)
  next
    case ok: False
    have "\<exists>b w1. sys_open_write p w = (Done b, w1) \<and> w_fio w1 = stl (w_fio w)"
      by (cases "shd (w_fio w) < 0") (auto simp: sys_open_write_def Let_def)
    then obtain b w1 where o: "sys_open_write p w = (Done b, w1)" "w_fio w1 = stl (w_fio w)" by blast
    have z: "0 \<notin> sset (w_fio w1)" using assms(2) o(2) by (auto dest: stl_sset)
    show ?thesis
    proof (cases b)
      case True
      with assms(1) pb ok o(1) have "file_write_errno_loop p chunk_size (snd (sys_lseek (sint offset))) bs w1 = (Done (Some e), w')"
        by (simp add: file_data_write_errno_def bnd_def ret_eq Let_def split_beta seek_passes del: length_0_conv)
      from file_write_errno_loop_code [OF this z] ok show ?thesis by simp
    next
      case False
      with assms(1,3) pb ok o(1) show ?thesis
        by (auto simp: file_data_write_errno_def bnd_def ret_eq)
    qed
  qed
qed

text \<open>The answers of the kernel that are left are among those there were.\<close>

definition flows :: "'a io \<Rightarrow> bool" where
  "flows m \<longleftrightarrow> (\<forall>w. sset (w_fio (snd (m w))) \<subseteq> sset (w_fio w))"

lemma flowsD: "flows m \<Longrightarrow> m w = (r, w') \<Longrightarrow> sset (w_fio w') \<subseteq> sset (w_fio w)"
  unfolding flows_def by (metis snd_conv)

lemma flows_bnd: "flows m \<Longrightarrow> (\<And>a. flows (f a)) \<Longrightarrow> flows (bnd m f)"
  unfolding flows_def bnd_def by (fastforce split: prod.splits outcome.splits)

lemma flows_calls: "flows (sys_stat p)" "flows (sys_open_read p)" "flows (sys_file_read p pos n)" "flows (sys_unlink p)"
  "flows (sys_open_write p)" "flows (sys_file_write p pos bs)" "flows (check b)" "flows (ret a)" "flows fail" "flows (lift_outcome x)"
  by (auto simp: flows_def sys_stat_def sys_open_read_def sys_file_read_def sys_unlink_def sys_open_write_def
      sys_file_write_def Let_def io_simps dest: stl_sset)

lemma flows_file_read_loop: "flows (file_read_loop path sz chunk_size pos acc)"
  unfolding flows_def
proof
  fix w
  show "sset (w_fio (snd (file_read_loop path sz chunk_size pos acc w))) \<subseteq> sset (w_fio w)"
  proof (induction path sz chunk_size pos acc w rule: file_read_loop.induct)
    case (1 path sz chunk_size pos acc w)
    obtain r w1 where rd: "sys_file_read path pos (if sz - length acc > chunk_size then chunk_size
        else sz - length acc) w = (r, w1)" by fastforce
    from flowsD [OF flows_calls(3) rd] "1.IH" [OF refl _ rd [symmetric]] rd show ?case
      by (subst file_read_loop.simps) (auto simp: Let_def split: outcome.splits option.splits)
  qed
qed

lemma flows_file_write_loop: "flows (file_write_loop path chunk_size pos p)"
  unfolding flows_def
proof
  fix w
  show "sset (w_fio (snd (file_write_loop path chunk_size pos p w))) \<subseteq> sset (w_fio w)"
  proof (induction path chunk_size pos p w rule: file_write_loop.induct)
    case (1 path chunk_size pos p w)
    obtain r w1 where wr: "sys_file_write path pos (take (if length p > chunk_size then chunk_size
        else length p) p) w = (r, w1)" by fastforce
    from flowsD [OF flows_calls(6) wr] "1.IH" [OF _ wr [symmetric]] wr show ?case
      by (subst file_write_loop.simps) (auto split: outcome.splits)
  qed
qed

lemma flows_file_data: "flows (file_data_read (Some p) sz chunk_size offset)" "flows (file_data_write (Some p) (Some bs) ck offset)"
  by (simp_all add: file_data_read_eq file_data_write_eq flows_bnd flows_calls flows_file_read_loop flows_file_write_loop)

lemma flows_md5_calculate: "flows (ipc_nv_data_md5_calculate md5 p s sz ck)"
  by (cases s) (auto simp: ipc_nv_data_md5_calculate_def intro!: flows_bnd flows_calls flows_file_data)

text \<open>
  The new digest replaces the old file, unless \<open>unlink\<close> fails, which the code does not look at; then
  it is stored over the old one, and only an old file that is not longer disappears.
\<close>

lemma write_imei_Done:
  assumes "err \<noteq> 0" and zero: "0 \<notin> sset (w_fio w)" and md5_file: "length (file_of w (p @ ''.md5'')) \<le> 32"
    and run: "write_imei md5 err p offset imei w = (Done (rep, Returned 0), w')"
  shows "\<exists>bs. encode_imei imei = Some bs \<and> w_files w' p = Some (file_splice (seek_pos offset) bs (file_of w p)) \<and>
    imei_valid md5 (w_files w') p"
proof -
  from run obtain bs wr w1 where enc: "encode_imei imei = Some bs"
    and wr': "file_data_write_errno err (Some p) (Some bs) (length bs) offset w = (Done wr, w1)"
    and rest1: "(case wr of Some e \<Rightarrow> ret (Nothing_shown, Returned e) | None \<Rightarrow>
        bnd (attempt (ipc_nv_data_md5_calculate md5 p (Some XMM616_NV_DATA_SECRET) XMM616_NV_DATA_SIZE XMM616_NV_DATA_CHUNK_SIZE))
          (\<lambda>calc. case calc of None \<Rightarrow> ret (Nothing_shown, Returned (-1)) | Some md5_string \<Rightarrow>
            bnd (sys_unlink (p @ ''.md5'')) (\<lambda>_. bnd (file_data_write_errno err (Some (p @ ''.md5''))
              (Some (take (strlen md5_string) md5_string)) (strlen md5_string) 0) (\<lambda>wr2.
            case wr2 of Some e \<Rightarrow> ret (Nothing_shown, Returned e) | None \<Rightarrow> ret (Nothing_shown, Returned 0))))) w1 =
        (Done (rep, Returned 0), w')"
    by (auto simp: write_imei_def bnd_setup io_Done Let_def split: if_splits option.splits)
  have "wr = None"
  proof (cases wr)
    case (Some e)
    with rest1 file_data_write_errno_code [OF wr' [unfolded Some] zero assms(1)] show ?thesis by (simp add: ret_eq)
  qed
  note wr = wr' [unfolded this file_data_write_errno_None]
  from rest1 \<open>wr = None\<close> obtain s w2 rc w3 wr2 w4 where
    calc: "ipc_nv_data_md5_calculate md5 p (Some XMM616_NV_DATA_SECRET) XMM616_NV_DATA_SIZE
      XMM616_NV_DATA_CHUNK_SIZE w1 = (Done s, w2)"
    and ul: "sys_unlink (p @ ''.md5'') w2 = (Done rc, w3)"
    and wm': "file_data_write_errno err (Some (p @ ''.md5'')) (Some (take (strlen s) s)) (strlen s) 0 w3 = (Done wr2, w4)"
    and rest2: "(case wr2 of Some e \<Rightarrow> ret (Nothing_shown, Returned e) | None \<Rightarrow> ret (Nothing_shown, Returned 0)) w4 =
      (Done (rep, Returned 0), w')"
    by (auto simp: io_Done attempt_eq_Done split: option.splits)
  have "0 \<notin> sset (w_fio w3)"
    using zero flowsD [OF flows_file_data(2) wr] flowsD [OF flows_md5_calculate calc] flowsD [OF flows_calls(4) ul] by blast
  then have "wr2 = None" "w4 = w'"
    using rest2 wm' file_data_write_errno_code [OF _ _ assms(1)] by (cases wr2; force simp: ret_eq_Done)+
  note wm = wm' [unfolded this file_data_write_errno_None]
  let ?c = "file_splice (seek_pos offset) bs (file_of w p)" and ?m = "p @ ''.md5''"
  have f1: "w_files w1 = (w_files w)(p \<mapsto> ?c)" using file_data_write_Done [OF wr] by simp
  from i9300_nv.calculate_Done [OF calc [unfolded imei_constants]] f1
  have f2: "w_files w2 = w_files w1" and len: "length ?c = XMM616_NV_DATA_SIZE"
    and s: "s = nv_digest md5 XMM616_NV_DATA_SECRET ?c @ [0]" by (auto simp: imei_constants)
  have f3: "w_files w3 = (if rc < 0 then w_files w2 else (w_files w2)(?m := None))"
    using ul by (auto simp: sys_unlink_def Let_def split: if_splits)
  have "length (file_of w3 ?m) \<le> 32" using md5_file f1 f2 f3 by (simp add: file_of_def)
  then have "w_files w' = (w_files w3)(?m \<mapsto> nv_digest md5 XMM616_NV_DATA_SECRET ?c)"
    using file_data_write_Done [OF wm] s by (simp add: file_splice_0)
  with enc f1 f2 f3 len show ?thesis by (auto simp: nv_valid_def)
qed

lemma read_imei_runs:
  assumes "files_ok w" and "w_files w p = Some c" "length c = XMM616_NV_DATA_SIZE"
    and "decode_imei (unat offset) c = Done imei"
  shows "\<exists>w'. read_imei p offset w = (Done (Imei_shown imei, Returned 0), w')"
proof -
  have "runs_to (file_data_read (Some p) XMM616_NV_DATA_SIZE XMM616_NV_DATA_CHUNK_SIZE 0) w c (w_files w)"
    using runs_to_read [OF assms(1,2), of XMM616_NV_DATA_CHUNK_SIZE XMM616_NV_DATA_SIZE 0] assms(3)
    by (simp add: imei_constants)
  with assms(4) show ?thesis
    by (auto simp: read_imei_def bnd_setup runs_to_def attempt_def bnd_def lift_outcome_eq ret_eq)
qed

lemma write_imei_runs:
  assumes "files_ok w" and "w_files w p = Some c" "length c = XMM616_NV_DATA_SIZE"
    and "length imei = IMEI_LENGTH" "encode_imei imei = Some bs" "length bs = 8"
    and "seek_pos offset + 8 \<le> XMM616_NV_DATA_SIZE"
  shows "\<exists>w'. write_imei md5 err p offset imei w = (Done (Nothing_shown, Returned 0), w')"
proof -
  let ?m = "p @ ''.md5''" and ?c = "file_splice (seek_pos offset) bs c"
  have r1: "runs_to (file_data_write (Some p) (Some bs) (length bs) offset) w () ((w_files w)(p \<mapsto> ?c))"
    using runs_to_write [OF assms(1), of "length bs" bs p offset] assms(2,6) by (simp add: file_of_def)
  have calc: "runs_to (ipc_nv_data_md5_calculate md5 p (Some XMM616_NV_DATA_SECRET) XMM616_NV_DATA_SIZE
      XMM616_NV_DATA_CHUNK_SIZE) v (nv_digest md5 XMM616_NV_DATA_SECRET ?c @ [0]) (w_files v)"
    if "files_ok v" "w_files v p = Some ?c" for v
    using i9300_nv.calculate_runs [OF that, of md5] assms(3,6,7) by (simp add: imei_constants)
  let ?d = "nv_digest md5 XMM616_NV_DATA_SECRET ?c"
  have s: "take 32 (?d @ [0]) = ?d" by simp
  have wr: "runs_to (file_data_write (Some ?m) (Some ?d) 32 0) v () ((w_files v)(?m \<mapsto> file_splice 0 ?d (file_of v ?m)))"
    if "files_ok v" for v using runs_to_write [OF that, of 32 ?d ?m 0] by simp
  have store: "runs_to (bnd (sys_unlink ?m) (\<lambda>_. bnd (file_data_write_errno err (Some ?m) (Some ?d) 32 0) (\<lambda>wr2.
      case wr2 of Some e \<Rightarrow> ret (Nothing_shown, Returned e) | None \<Rightarrow> ret (Nothing_shown, Returned 0)))) v
      (Nothing_shown, Returned 0) ((w_files v)(?m \<mapsto> ?d))" if "files_ok v" for v
  proof (rule runs_to_bnd [OF runs_to_unlink [OF that]])
    fix v1
    assume v1: "files_ok v1" "w_files v1 = (w_files v)(?m := None)"
    have "runs_to (file_data_write_errno err (Some ?m) (Some ?d) 32 0) v1 None ((w_files v)(?m \<mapsto> ?d))"
      using runs_to_errno [OF wr [OF v1(1)]] v1(2) by (simp add: file_of_def file_splice_Nil_file)
    then show "runs_to (bnd (file_data_write_errno err (Some ?m) (Some ?d) 32 0) (\<lambda>wr2.
      case wr2 of Some e \<Rightarrow> ret (Nothing_shown, Returned e) | None \<Rightarrow> ret (Nothing_shown, Returned 0))) v1
      (Nothing_shown, Returned 0) ((w_files v)(?m \<mapsto> ?d))"
      by (rule runs_to_bnd) (auto intro: runs_to_pure(2))
  qed
  let ?rest = "\<lambda>s. bnd (sys_unlink ?m) (\<lambda>_. bnd (file_data_write_errno err (Some ?m) (Some (take (strlen s) s)) (strlen s) 0)
      (\<lambda>wr2. case wr2 of Some e \<Rightarrow> ret (Nothing_shown, Returned e) | None \<Rightarrow> ret (Nothing_shown, Returned 0)))"
  have eq: "write_imei md5 err p offset imei = bnd (file_data_write_errno err (Some p) (Some bs) (length bs) offset)
      (\<lambda>wr. case wr of Some e \<Rightarrow> ret (Nothing_shown, Returned e)
       | None \<Rightarrow> bnd (attempt (ipc_nv_data_md5_calculate md5 p (Some XMM616_NV_DATA_SECRET)
            XMM616_NV_DATA_SIZE XMM616_NV_DATA_CHUNK_SIZE))
          (\<lambda>calc. case calc of None \<Rightarrow> ret (Nothing_shown, Returned (-1)) | Some s \<Rightarrow> ?rest s))"
    using assms(4,5) by (simp add: write_imei_def bnd_setup Let_def)
  have "\<exists>fs. runs_to (write_imei md5 err p offset imei) w (Nothing_shown, Returned 0) fs"
  proof (rule exI)
    show "runs_to (write_imei md5 err p offset imei) w (Nothing_shown, Returned 0) ((w_files w)(p \<mapsto> ?c, ?m \<mapsto> ?d))"
      unfolding eq
    proof (rule runs_to_bnd [OF runs_to_errno [OF r1]], unfold option.case,
        rule runs_to_bnd [OF runs_to_attempt [OF calc]])
      fix v
      assume "files_ok v" "w_files v = (w_files w)(p \<mapsto> ?c)"
      then show "files_ok v" "w_files v p = Some ?c" by simp_all
    next
      fix v v'
      assume "w_files v = (w_files w)(p \<mapsto> ?c)" "files_ok v'" "w_files v' = w_files v"
      then show "runs_to (case Some (?d @ [0]) of None \<Rightarrow> ret (Nothing_shown, Returned (-1))
         | Some s \<Rightarrow> ?rest s) v' (Nothing_shown, Returned 0) ((w_files w)(p \<mapsto> ?c, ?m \<mapsto> ?d))"
        using store [of v'] s by simp
    qed
  qed
  then show ?thesis by (auto simp: runs_to_def)
qed

text \<open>A write that takes nothing: the code is 0, though nothing has been stored.\<close>

lemma write_imei_takes_nothing:
  assumes "length imei = IMEI_LENGTH" "encode_imei imei = Some bs" "length bs = 8"
    and "0 \<le> shd (w_fio w)" "shd (stl (w_fio w)) = 0"
  shows "\<exists>w'. write_imei md5 err p offset imei w = (Done (Nothing_shown, Returned 0), w') \<and>
    w_files w' = (w_files w)(p \<mapsto> file_of w p)"
proof -
  let ?w1 = "w\<lparr>w_fio := stl (w_fio w), w_files := (w_files w)(p \<mapsto> file_of w p)\<rparr>"
  let ?w2 = "?w1\<lparr>w_fio := stl (stl (w_fio w))\<rparr>"
  have ne: "bs \<noteq> []" using assms(3) by auto
  have f: "(w_files w)(p \<mapsto> file_of ?w1 p) = (w_files w)(p \<mapsto> file_of w p)" by (simp add: file_of_def)
  have o: "sys_open_write p w = (Done True, ?w1)" using assms(4) by (simp add: sys_open_write_def Let_def)
  have l: "file_write_errno_loop p 8 pos bs ?w1 = (Done (Some 0), ?w2)" for pos
    using assms(3,5) ne by (simp add: file_write_errno_loop.simps [of _ _ _ bs] sys_file_write_def Let_def file_of_def)
  have "file_data_write_errno err (Some p) (Some bs) (length bs) offset w = (Done (Some 0), ?w2)"
    using assms(3) ne by (simp add: file_data_write_errno_def bnd_def o Let_def split_beta seek_passes l)
  then have "write_imei md5 err p offset imei w = (Done (Nothing_shown, Returned 0), ?w2)"
    using assms(1,2) by (simp add: write_imei_def bnd_setup Let_def bnd_def ret_eq)
  then show ?thesis by auto
qed

section \<open>Searching\<close>

text \<open>After the last place of the first byte, the search looks one byte past the block.\<close>

lemma search_loop_overruns:
  "pos \<le> length buffer \<Longrightarrow> length buffer < pos + n \<Longrightarrow> search_loop given buffer pos n = Undef \<or>
   search_loop given buffer pos n = Fail"
proof (induction given buffer pos n rule: search_loop.induct)
  case (1 given buffer pos n)
  show ?case
  proof (cases "memchr (hd given) pos n buffer")
    case (Done k)
    then show ?thesis
    proof (cases k)
      case None
      with Done 1(2,3) have False by (auto simp: memchr_def Let_def split: if_splits)
      then show ?thesis ..
    next
      case (Some k')
      with Done memchr_Some have k: "pos \<le> k'" "k' < length buffer" by blast+
      with 1(1) [OF Done Some] show ?thesis
        by (subst (1 2) search_loop.simps) (simp add: Done Some, cases "strncmp_zero (length given) given (drop k' buffer)", auto)
    qed
  qed (subst (1 2) search_loop.simps, simp)+
qed

lemma strncmp_zero_never_fails: "strncmp_zero n as bs \<noteq> Fail"
  by (induction n as bs rule: strncmp_zero.induct) auto

lemma obind_Fail: "obind r f = Fail \<longleftrightarrow> r = Fail \<or> (\<exists>a. r = Done a \<and> f a = Fail)"
  by (cases r) auto

lemma search_loop_never_fails: "search_loop given buffer pos n \<noteq> Fail"
proof (induction given buffer pos n rule: search_loop.induct)
  case (1 given buffer pos n)
  show ?case
  proof (cases "memchr (hd given) pos n buffer")
    case Fail
    then show ?thesis by (auto simp: memchr_def Let_def split: if_splits)
  next
    case Undef
    then show ?thesis by (simp add: search_loop.simps)
  next
    case (Done k)
    then show ?thesis
      using 1 [OF Done] strncmp_zero_never_fails [of "length given" given]
      by (subst search_loop.simps) (auto simp: obind_Fail split: option.split)
  qed
qed

lemma search_loop_start:
  "search_loop given buffer 0 (length buffer) =
     (if hd given \<in> set buffer then Undef else Done [])"
proof (cases "hd given \<in> set buffer")
  case True
  let ?j = "length (takeWhile (\<lambda>b. b \<noteq> hd given) buffer)"
  have j: "?j < length buffer"
  proof -
    have "takeWhile (\<lambda>b. b \<noteq> hd given) buffer \<noteq> buffer" using True by (auto simp: takeWhile_eq_all_conv)
    then show ?thesis by (metis length_takeWhile_le le_neq_implies_less order_refl take_all takeWhile_eq_take)
  qed
  then have m: "memchr (hd given) 0 (length buffer) buffer = Done (Some ?j)" by (simp add: memchr_def)
  have "search_loop given buffer (?j + 1) (length buffer - ?j) = Undef"
    using search_loop_overruns [of "?j + 1" buffer "length buffer - ?j" given]
      search_loop_never_fails [of given buffer "?j + 1"] j by auto
  then show ?thesis
    using True strncmp_zero_never_fails [of "length given" given "drop ?j buffer"]
    by (subst search_loop.simps) (cases "strncmp_zero (length given) given (drop ?j buffer)", auto simp: m)
next
  case False
  then have t: "takeWhile (\<lambda>b. b \<noteq> hd given) buffer = buffer" by (auto simp: takeWhile_eq_all_conv)
  have "memchr (hd given) 0 (length buffer) buffer = Done None"
    using t by (simp add: memchr_def del: takeWhile_eq_all_conv)
  then show ?thesis using False by (subst search_loop.simps) simp
qed

section \<open>Properties\<close>

text \<open>
  C28: reading an IMEI undoes writing it: for every text of fifteen digits the encoding exists, has
  eight bytes, and at whatever place of a block these bytes are, decoding gives the text back.
\<close>

theorem imei_roundtrip:
  assumes "length imei = IMEI_LENGTH" and "\<forall>c \<in> set imei. is_digit c"
  shows "\<exists>bs. encode_imei imei = Some bs \<and> length bs = 8 \<and>
    decode_imei (length before) (before @ bs @ behind) = Done imei"
  using encode_decode [OF assms] by fastforce

theorem imei_roundtrip_witness:
  "encode_imei ''355921041234567'' = Some [0x3A, 0x55, 0x29, 0x01, 0x14, 0x32, 0x54, 0x76] \<and>
   decode_imei 2 ([9, 9] @ [0x3A, 0x55, 0x29, 0x01, 0x14, 0x32, 0x54, 0x76] @ [9]) = Done ''355921041234567''"
proof -
  have e: "encode_imei ''355921041234567'' = Some [0x3A, 0x55, 0x29, 0x01, 0x14, 0x32, 0x54, 0x76]" by code_simp
  moreover have "length ''355921041234567'' = IMEI_LENGTH" "\<forall>c \<in> set ''355921041234567''. is_digit c"
    by (simp_all add: IMEI_LENGTH_def is_digit_def)
  from imei_roundtrip [OF this, of "[9, 9]" "[9]"] e show ?thesis by (simp add: numeral_2_eq_2)
qed


definition demo_imei_world :: world where
  "demo_imei_world = demo_world\<lparr>w_files := [''f'' \<mapsto> calloc 0x200000]\<rparr>"


text \<open>
  On a file of at least a chunk, searching for an IMEI has a defined result only when the first
  byte of its encoding occurs nowhere in the file, and then it reports nothing: after the last place
  of that byte \<open>memchr\<close> is given one byte more than is left of the buffer.
\<close>

theorem bruteforce_reads_past_buffer:
  assumes "length imei = IMEI_LENGTH" and "\<forall>c \<in> set imei. is_digit c"
    and "files_ok w" and "w_files w p = Some buffer" and "XMM616_NV_DATA_CHUNK_SIZE \<le> length buffer"
  shows "\<exists>first rest. encode_imei imei = Some (first # rest) \<and>
    fst (bruteforce_imei_offset err p imei w) =
      (if first \<in> set buffer then Undef else Done (Offsets_shown [], Returned 0))"
proof -
  from encode_decode [OF assms(1,2)] obtain bs where "encode_imei imei = Some bs" "length bs = 8" by blast
  then obtain first rest where enc: "encode_imei imei = Some (first # rest)" by (cases bs) auto
  let ?w1 = "w\<lparr>w_fio := stl (w_fio w)\<rparr>"
  have "0 \<le> shd (w_fio w)" using files_ok_shd [OF assms(3)] by simp
  then have sz: "attempt (file_data_size (Some p)) w = (Done (Some (length buffer)), ?w1)"
    using assms(4) by (simp add: file_data_size_def attempt_def bnd_def sys_open_read_def check_eq file_of_def)
  have "files_ok ?w1" using files_ok_stl [OF assms(3)] by simp
  from runs_to_attempt [OF runs_to_read [OF this, of p buffer XMM616_NV_DATA_CHUNK_SIZE "length buffer" 0]] assms(4,5)
  obtain w2 where rd: "attempt (file_data_read (Some p) (length buffer) XMM616_NV_DATA_CHUNK_SIZE 0) ?w1 =
      (Done (Some buffer), w2)"
    by (auto simp: runs_to_def XMM616_NV_DATA_CHUNK_SIZE_def)
  have "fst (bruteforce_imei_offset err p imei w) =
      (if first \<in> set buffer then Undef else Done (Offsets_shown [], Returned 0))"
    using sz rd enc search_loop_start [of "first # rest" buffer]
    by (simp add: bruteforce_imei_offset_def bnd_setup bnd_def lift_outcome_eq ret_eq)
  with enc show ?thesis by blast
qed

theorem bruteforce_reads_past_buffer_witness:
  "fst (bruteforce_imei_offset 5 ''f'' ''355921041234567''
     (demo_imei_world\<lparr>w_files := [''f'' \<mapsto> 0x3A # calloc 0x1000]\<rparr>)) = Undef"
proof -
  let ?w = "demo_imei_world\<lparr>w_files := [''f'' \<mapsto> 0x3A # calloc 0x1000]\<rparr>"
  have "length ''355921041234567'' = IMEI_LENGTH" "\<forall>c \<in> set ''355921041234567''. is_digit c"
    by (simp_all add: IMEI_LENGTH_def is_digit_def)
  moreover have "files_ok ?w" "w_files ?w ''f'' = Some (0x3A # calloc 0x1000)"
    "XMM616_NV_DATA_CHUNK_SIZE \<le> length (0x3A # calloc 0x1000 :: u8 list)"
    by (simp_all add: demo_imei_world_def demo_world_def files_ok_def XMM616_NV_DATA_CHUNK_SIZE_def)
  ultimately obtain first rest where "encode_imei ''355921041234567'' = Some (first # rest)"
    "fst (bruteforce_imei_offset 5 ''f'' ''355921041234567'' ?w) =
      (if first \<in> set (0x3A # calloc 0x1000) then Undef else Done (Offsets_shown [], Returned 0))"
    using bruteforce_reads_past_buffer by blast
  moreover have "encode_imei ''355921041234567'' = Some [0x3A, 0x55, 0x29, 0x01, 0x14, 0x32, 0x54, 0x76]" by code_simp
  ultimately show ?thesis by simp
qed

end
