(* ===== verification/NvTool.thy ===== *)
theory NvTool
  imports NvImei "HOL-Library.Sublist"
begin

text \<open>
  tools/nv_data-imei.c, the command line: the tables of commands and options, the checks of the
  options' arguments, and \<open>main\<close>. The messages for the user are left out, except what the commands
  report. \<open>size_t\<close> and \<open>unsigned long\<close> have 32 bits.
\<close>

section \<open>Tables\<close>

definition OPTION_FILE :: u8 where "OPTION_FILE = 0x01"
definition OPTION_HELP :: u8 where "OPTION_HELP = 0x02"
definition OPTION_IMEI :: u8 where "OPTION_IMEI = 0x04"
definition OPTION_OFFSET :: u8 where "OPTION_OFFSET = 0x08"
definition NO_OPTIONS :: u8 where "NO_OPTIONS = 0"

definition OFFSET_NEGATIVE :: u32 where "OFFSET_NEGATIVE = 0x01"
definition OFFSET_OVERFLOW :: u32 where "OFFSET_OVERFLOW = 0x02"

lemmas option_bits = OPTION_FILE_def OPTION_HELP_def OPTION_IMEI_def OPTION_OFFSET_def NO_OPTIONS_def
  OFFSET_NEGATIVE_def OFFSET_OVERFLOW_def

text \<open>The buffer of \<open>struct imei\<close> is its text before the terminating zero byte.\<close>

record imei =
  imei_imei :: string
  imei_option_set :: bool
  imei_optarg :: "string option"

record offset =
  offset_offset :: u32
  offset_option_set :: bool
  offset_error :: u32
  offset_optarg :: "string option"

datatype func = Func_list_supported | Func_read_imei | Func_write_imei | Func_bruteforce_imei_offset

record command =
  command_name :: string
  command_options :: u8
  command_required_options :: u8
  command_func :: func

definition commands :: "command list" where
  "commands =
    [\<lparr>command_name = ''list-supported'', command_options = NO_OPTIONS,
      command_required_options = NO_OPTIONS, command_func = Func_list_supported\<rparr>,
     \<lparr>command_name = ''read-imei'', command_options = OPTION_FILE OR OPTION_OFFSET,
      command_required_options = OPTION_FILE, command_func = Func_read_imei\<rparr>,
     \<lparr>command_name = ''write-imei'', command_options = OPTION_FILE OR OPTION_IMEI OR OPTION_OFFSET,
      command_required_options = OPTION_FILE OR OPTION_IMEI OR OPTION_OFFSET, command_func = Func_write_imei\<rparr>,
     \<lparr>command_name = ''bruteforce-imei'', command_options = OPTION_FILE OR OPTION_IMEI,
      command_required_options = OPTION_FILE OR OPTION_IMEI, command_func = Func_bruteforce_imei_offset\<rparr>]"

text \<open>Of the table of options only the keys matter here; the texts are help messages.\<close>

definition commands_options :: "u8 list" where
  "commands_options = [OPTION_FILE, OPTION_HELP, OPTION_OFFSET, OPTION_IMEI]"

definition get_option :: "u8 \<Rightarrow> u8 option" where
  "get_option given_option = find (\<lambda>opt. opt = given_option) commands_options"

definition get_command :: "string \<Rightarrow> command option" where
  "get_command name = find (\<lambda>cmd. length (command_name cmd) = length name \<and> command_name cmd = name) commands"

section \<open>Arguments of options\<close>

text \<open>
  \<open>strtoul\<close> with base 0: white space, a sign, and a number whose prefix tells its base. The second
  component says that it is too big, which \<open>errno\<close> reports; before, \<open>errno\<close> is not \<open>ERANGE\<close>.
\<close>

definition digit_of :: "nat \<Rightarrow> char \<Rightarrow> nat option" where
  "digit_of radix c = (case hex_of c of None \<Rightarrow> None | Some d \<Rightarrow> if d < radix then Some d else None)"

definition strtoul :: "string \<Rightarrow> u32 \<times> bool" where
  "strtoul s =
     (let t = dropWhile (\<lambda>c. isspace (of_char c)) s;
          signed = (case t of c # _ \<Rightarrow> c = CHR ''+'' \<or> c = CHR ''-'' | [] \<Rightarrow> False);
          u = (if signed then tl t else t);
          hex = (take 2 u = ''0x'' \<or> take 2 u = ''0X'') \<and> (case drop 2 u of c # _ \<Rightarrow> hex_of c \<noteq> None | [] \<Rightarrow> False);
          radix = (if hex then 16 else if take 1 u = ''0'' then 8 else 10);
          digits = takeWhile (\<lambda>c. digit_of radix c \<noteq> None) (if hex then drop 2 u else u);
          n = number_of radix (map (\<lambda>c. the (digit_of radix c)) digits)
      in if 2 ^ 32 \<le> n then (- 1, True)
         else (if signed \<and> hd t = CHR ''-'' then - of_nat n else of_nat n, False))"

text \<open>A minus sign before the number.\<close>

fun is_negative :: "string \<Rightarrow> bool" where
  "is_negative [] = False"
| "is_negative (c # s) = (if isspace (of_char c) then is_negative s else c = CHR ''-'')"

definition get_offset :: "command \<Rightarrow> offset \<Rightarrow> int \<times> offset" where
  "get_offset cmd off =
     (let cmd_has_offset = command_options cmd AND OPTION_OFFSET \<noteq> 0;
          cmd_requires_offset = command_required_options cmd AND OPTION_OFFSET \<noteq> 0
      in if \<not> cmd_has_offset \<and> \<not> offset_option_set off then (0, off)
         else if \<not> cmd_has_offset \<and> offset_option_set off then (- 22, off)
         else if cmd_requires_offset \<and> \<not> offset_option_set off then (- 22, off)
         else if offset_option_set off then
           (let optarg = the (offset_optarg off);
                error1 = (if is_negative optarg then offset_error off OR OFFSET_NEGATIVE else offset_error off);
                value = fst (strtoul optarg);
                error2 = (if value = - 1 \<and> snd (strtoul optarg) then error1 OR OFFSET_OVERFLOW else error1);
                off' = off\<lparr>offset_offset := value, offset_error := error2\<rparr>
            in if error2 \<noteq> 0 then (- 22, off') else (0, off'))
         else (0, off))"

definition get_imei :: "command \<Rightarrow> imei \<Rightarrow> int \<times> imei" where
  "get_imei cmd im =
     (if command_options cmd AND OPTION_IMEI \<noteq> 0 then
        if command_required_options cmd AND OPTION_IMEI \<noteq> 0 \<and> \<not> imei_option_set im then (- 22, im)
        else if imei_option_set im then
          (let optarg = the (imei_optarg im);
               str_is_digit = list_all is_digit optarg;
               str_len_valid = (length optarg = IMEI_LENGTH)
           in if \<not> str_is_digit \<or> \<not> str_len_valid then (- 22, im)
              else (0, im\<lparr>imei_imei := take IMEI_LENGTH optarg\<rparr>))
        else (0, im)
      else if imei_option_set im then (- 22, im)
      else (0, im))"

section \<open>The command line\<close>

text \<open>
  \<open>getopt_long\<close> with the option string \<open>-hi:o:\<close>: arguments that are not options are delivered in
  their places, long names may be shortened while they are unique, and with \<open>--\<close> it ends and leaves the
  rest unread. \<open>main\<close> returns on \<open>-h\<close>, so that what follows the letter is never looked at.
\<close>

datatype opt = Opt_arg | Opt_help | Opt_imei string | Opt_offset string | Opt_unknown

definition with_argument :: "(string \<Rightarrow> opt) \<Rightarrow> string list \<Rightarrow> opt \<times> string list" where
  "with_argument f rest = (case rest of [] \<Rightarrow> (Opt_unknown, []) | a # rest' \<Rightarrow> (f a, rest'))"

definition long_option :: "string \<Rightarrow> string list \<Rightarrow> opt \<times> string list" where
  "long_option body rest =
     (let name = takeWhile (\<lambda>c. c \<noteq> CHR ''='') body;
          has_value = CHR ''='' \<in> set body;
          value = drop (length name + 1) body
      in case filter (\<lambda>n. prefix name n) [''help'', ''imei'', ''offset''] of
           [n] \<Rightarrow>
             if n = ''help'' then (if has_value then Opt_unknown else Opt_help, rest)
             else let f = (if n = ''imei'' then Opt_imei else Opt_offset)
                  in if has_value then (f value, rest) else with_argument f rest
         | _ \<Rightarrow> (Opt_unknown, rest))"

definition short_option :: "string \<Rightarrow> string list \<Rightarrow> opt \<times> string list" where
  "short_option cs rest =
     (if hd cs = CHR ''h'' then (Opt_help, rest)
      else if hd cs = CHR ''i'' then (if tl cs \<noteq> [] then (Opt_imei (tl cs), rest) else with_argument Opt_imei rest)
      else if hd cs = CHR ''o'' then (if tl cs \<noteq> [] then (Opt_offset (tl cs), rest) else with_argument Opt_offset rest)
      else (Opt_unknown, rest))"

fun getopt_long :: "string list \<Rightarrow> opt option \<times> string list" where
  "getopt_long [] = (None, [])"
| "getopt_long (a # rest) =
     (if a = ''--'' then (None, rest)
      else if a = [] \<or> hd a \<noteq> CHR ''-'' \<or> tl a = [] then (Some Opt_arg, rest)
      else apfst Some (if hd (tl a) = CHR ''-'' then long_option (drop 2 a) rest else short_option (tl a) rest))"

lemma with_argument_shorter: "with_argument f rest = (r, rest') \<Longrightarrow> length rest' \<le> length rest"
  by (auto simp: with_argument_def split: list.splits)

lemma long_option_shorter: "long_option body rest = (r, rest') \<Longrightarrow> length rest' \<le> length rest"
  by (auto simp: long_option_def Let_def dest!: with_argument_shorter split: list.splits if_splits)

lemma getopt_shorter: "getopt_long args = (Some r, rest) \<Longrightarrow> length rest < length args"
  by (cases args)
    (auto simp: short_option_def apfst_def map_prod_def less_Suc_eq_le dest!: with_argument_shorter long_option_shorter
      split: if_splits prod.splits)

section \<open>\<open>main\<close>\<close>

definition errno_to_sysexit :: "int \<Rightarrow> ended" where
  "errno_to_sysexit err =
     (if err = 0 then Returned 0 else if err = 13 then Returned 66 else if err = - 22 then Returned 64 else Aborted)"

text \<open>The help has no effect but its messages; every option of the command must be in the table.\<close>

definition command_help :: "string \<Rightarrow> ended" where
  "command_help name =
     (case get_command name of None \<Rightarrow> Returned 64
      | Some cmd \<Rightarrow>
          if list_all (\<lambda>i. bit (command_options cmd) i \<longrightarrow> get_option (push_bit i 1) \<noteq> None) [0..<8]
          then Returned 0 else Aborted)"

record state =
  st_path :: "string option"
  st_command :: "command option"
  st_imei :: imei
  st_offset :: offset

definition state0 :: state where
  "state0 = \<lparr>st_path = None, st_command = None,
     st_imei = \<lparr>imei_imei = [], imei_option_set = False, imei_optarg = None\<rparr>,
     st_offset = \<lparr>offset_offset = 0, offset_option_set = False, offset_error = 0, offset_optarg = None\<rparr>\<rparr>"

text \<open>One option: \<open>Inl\<close> is the end of the program. A message about a command that is not there is undefined.\<close>

definition main_option :: "string list \<Rightarrow> nat \<Rightarrow> opt \<Rightarrow> state \<Rightarrow> (ended + state) outcome" where
  "main_option argv optind opt st =
     (let argc = length argv in
      case opt of
        Opt_arg \<Rightarrow>
          if optind = 2 \<and> argc = 2 then
            (case get_command (argv ! (optind - 1)) of
               None \<Rightarrow> Done (Inl (Returned 64))
             | Some cmd \<Rightarrow>
                 if command_options cmd = NO_OPTIONS then Done (Inl (errno_to_sysexit 0))
                 else Done (Inl (Returned 64)))
          else if optind = 3 \<and> argc \<ge> 3 then
            (case get_command (argv ! (optind - 1)) of
               None \<Rightarrow> Done (Inl (Returned 64))
             | Some cmd \<Rightarrow>
                 if command_options cmd = 0 then Done (Inl (Returned 64))
                 else Done (Inr (st\<lparr>st_path := Some (argv ! (optind - 2)), st_command := Some cmd\<rparr>)))
          else Done (Inr st)
      | Opt_help \<Rightarrow>
          if argc = 2 then Done (Inl (Returned 0))
          else if argc = 3 then Done (Inl (command_help (argv ! 1)))
          else if argc > 3 then Done (Inl (Returned 64))
          else Done (Inr st)
      | Opt_imei optarg \<Rightarrow>
          if imei_option_set (st_imei st) then
            (case st_command st of None \<Rightarrow> Undef | Some _ \<Rightarrow> Done (Inl (Returned 64)))
          else Done (Inr (st\<lparr>st_imei := (st_imei st)\<lparr>imei_optarg := Some optarg, imei_option_set := True\<rparr>\<rparr>))
      | Opt_offset optarg \<Rightarrow>
          if offset_option_set (st_offset st) then
            (case st_command st of None \<Rightarrow> Undef | Some _ \<Rightarrow> Done (Inl (Returned 64)))
          else Done (Inr (st\<lparr>st_offset := (st_offset st)\<lparr>offset_optarg := Some optarg, offset_option_set := True\<rparr>\<rparr>))
      | Opt_unknown \<Rightarrow> Done (Inl (Returned 64)))"

function main_loop :: "string list \<Rightarrow> state \<Rightarrow> string list \<Rightarrow> (ended + state) outcome" where
  "main_loop argv st rest =
     (case getopt_long rest of
        (None, rest') \<Rightarrow> Done (if rest' = [] then Inr st else Inl Aborted)
      | (Some opt, rest') \<Rightarrow>
          (case main_option argv (length argv - length rest') opt st of
             Done (Inr st') \<Rightarrow> main_loop argv st' rest'
           | r \<Rightarrow> r))"
  by pat_completeness auto
termination
  by (relation "measure (\<lambda>(argv, st, rest). length rest)") (auto dest!: getopt_shorter [OF sym])

declare main_loop.simps [simp del]

text \<open>The call of the command's function with the arguments its options ask for.\<close>

definition main_call ::
  "(u8 list \<Rightarrow> u8 list) \<Rightarrow> int \<Rightarrow> string \<Rightarrow> command \<Rightarrow> imei \<Rightarrow> offset \<Rightarrow> (report \<times> ended) io" where
  "main_call md5 err path cmd im off =
     bnd (if command_options cmd AND OPTION_IMEI \<noteq> 0 \<and> command_options cmd AND OPTION_OFFSET \<noteq> 0 then
            (case command_func cmd of
               Func_write_imei \<Rightarrow> write_imei md5 err path (offset_offset off) (imei_imei im)
             | _ \<Rightarrow> undef)
          else if command_options cmd AND OPTION_IMEI \<noteq> 0 then
            (case command_func cmd of
               Func_bruteforce_imei_offset \<Rightarrow> bruteforce_imei_offset err path (imei_imei im)
             | _ \<Rightarrow> undef)
          else if command_options cmd AND OPTION_OFFSET \<noteq> 0 then
            (case command_func cmd of
               Func_read_imei \<Rightarrow> read_imei path (offset_offset off)
             | _ \<Rightarrow> undef)
          else ret (Nothing_shown, Aborted))
       (\<lambda>(report, e). ret (report, case e of Returned rc \<Rightarrow> errno_to_sysexit rc | Aborted \<Rightarrow> Aborted))"

definition nv_data_imei_main :: "(u8 list \<Rightarrow> u8 list) \<Rightarrow> int \<Rightarrow> string list \<Rightarrow> (report \<times> ended) io" where
  "nv_data_imei_main md5 err argv =
     (if length argv = 1 then ret (Nothing_shown, Returned 64)
      else if argv = [] then ret (Nothing_shown, Aborted)
      else
        bnd (lift_outcome (main_loop argv state0 (tl argv))) (\<lambda>r.
        case r of
          Inl e \<Rightarrow> ret (Nothing_shown, e)
        | Inr st \<Rightarrow>
            (case (st_command st, st_path st) of
               (Some cmd, Some path) \<Rightarrow>
                 if length argv = 2 then ret (Nothing_shown, Returned 64)
                 else if command_options cmd AND OPTION_FILE = 0 then ret (Nothing_shown, Aborted)
                 else
                   let (rc, im) = get_imei cmd (st_imei st) in
                   if rc \<noteq> 0 then ret (Nothing_shown, errno_to_sysexit rc)
                   else
                     let (rc, off) = get_offset cmd (st_offset st) in
                     if rc \<noteq> 0 then ret (Nothing_shown, errno_to_sysexit rc)
                     else main_call md5 err path cmd im off
             | (Some cmd, None) \<Rightarrow> undef
             | _ \<Rightarrow> ret (Nothing_shown, Returned 64))))"

section \<open>The state of the command line\<close>

text \<open>
  What holds of the state between two options: a command is one of the table that takes a file, given
  as the second argument, with the file as the first; an option that is set has its argument; and
  nothing has been converted yet.
\<close>

definition state_ok :: "string list \<Rightarrow> state \<Rightarrow> bool" where
  "state_ok argv st \<longleftrightarrow>
     (case st_command st of None \<Rightarrow> st_path st = None
      | Some cmd \<Rightarrow> 3 \<le> length argv \<and> st_path st = Some (argv ! 1) \<and> get_command (argv ! 2) = Some cmd \<and>
          command_options cmd \<noteq> NO_OPTIONS) \<and>
     (imei_option_set (st_imei st) \<longleftrightarrow> imei_optarg (st_imei st) \<noteq> None) \<and> imei_imei (st_imei st) = [] \<and>
     (offset_option_set (st_offset st) \<longleftrightarrow> offset_optarg (st_offset st) \<noteq> None) \<and>
     offset_offset (st_offset st) = 0 \<and> offset_error (st_offset st) = 0"

lemma state0_ok: "state_ok argv state0"
  by (simp add: state_ok_def state0_def)

lemma main_option_ok:
  "state_ok argv st \<Longrightarrow> main_option argv optind opt st = Done (Inr st') \<Longrightarrow> state_ok argv st'"
  by (auto simp: main_option_def state_ok_def Let_def NO_OPTIONS_def numeral_2_eq_2
      split: opt.splits if_splits option.splits)

lemma main_loop_ok:
  "state_ok argv st \<Longrightarrow> main_loop argv st rest = Done (Inr st') \<Longrightarrow> state_ok argv st'"
proof (induction argv st rest rule: main_loop.induct)
  case (1 argv st rest)
  obtain r rest' where g: "getopt_long rest = (r, rest')" by fastforce
  show ?case
  proof (cases r)
    case None
    with 1(2,3) g show ?thesis by (subst (asm) main_loop.simps) (simp split: if_splits)
  next
    case (Some opt)
    let ?o = "main_option argv (length argv - length rest') opt st"
    from 1(3) g Some obtain st1 where o: "?o = Done (Inr st1)" and l: "main_loop argv st1 rest' = Done (Inr st')"
      by (subst (asm) main_loop.simps) (auto split: outcome.splits sum.splits)
    from 1(1) [OF g [symmetric, unfolded Some] _ o] main_option_ok [OF 1(2) o] l g Some show ?thesis by auto
  qed
qed

lemma get_command_cases:
  "get_command name = Some cmd \<Longrightarrow> cmd \<in> set commands \<and> command_name cmd = name"
  by (auto simp: get_command_def find_Some_iff)

section \<open>Files\<close>

lemma keeps_attempt: "keeps S m \<Longrightarrow> keeps S (attempt m)"
  unfolding keeps_def attempt_def by (auto split: prod.splits outcome.splits)

lemma keeps_md5_calculate: "keeps S (ipc_nv_data_md5_calculate md5 p s sz ck)"
  by (cases s) (auto simp: ipc_nv_data_md5_calculate_def intro!: keeps_intros)

lemma keeps_file_size: "keeps S (file_data_size path)"
proof (cases path)
  case None
  then show ?thesis by (simp add: file_data_size_def keeps_simple)
next
  case (Some p)
  have "keeps S (\<lambda>w. (Done (length (file_of w p)), w))" by (simp add: keeps_def)
  with Some show ?thesis by (auto simp: file_data_size_def intro!: keeps_intros)
qed

lemma keeps_file_write_errno_loop: "path \<in> S \<Longrightarrow> keeps S (file_write_errno_loop path chunk_size pos p)"
proof (rule keepsI)
  fix w
  show "path \<in> S \<Longrightarrow> \<forall>q. q \<notin> S \<longrightarrow> w_files (snd (file_write_errno_loop path chunk_size pos p w)) q = w_files w q"
  proof (induction path chunk_size pos p w rule: file_write_errno_loop.induct)
    case (1 path chunk_size pos p w)
    obtain r w1 where wr: "sys_file_write path pos (take (if length p > chunk_size then chunk_size
        else length p) p) w = (r, w1)" by fastforce
    have "\<forall>q. q \<notin> S \<longrightarrow> w_files w1 q = w_files w q"
      using keepsD [OF keeps_updates(3) wr] "1.prems" by blast
    with "1.IH" [OF _ wr [symmetric]] "1.prems" wr show ?case
      by (subst file_write_errno_loop.simps) (auto split: outcome.splits)
  qed
qed

lemma keeps_file_data_write_errno: "p \<in> S \<Longrightarrow> keeps S (file_data_write_errno err (Some p) (Some bs) chunk_size offset)"
  by (auto simp: file_data_write_errno_def Let_def split_beta intro!: keeps_intros keeps_file_write_errno_loop)

lemma keeps_commands:
  "keeps S (read_imei path offset)" "keeps S (bruteforce_imei_offset err path imei)"
  "keeps {path, path @ ''.md5''} (write_imei md5 err path offset imei)"
  by (auto simp: read_imei_def bruteforce_imei_offset_def write_imei_def Let_def
      intro!: keeps_intros keeps_attempt keeps_md5_calculate keeps_file_size keeps_file_data_write_errno split: option.split)

text \<open>Every command of the table is called with the arguments it takes.\<close>

lemma main_call_cases:
  assumes "cmd \<in> set commands" and "command_options cmd \<noteq> NO_OPTIONS"
  shows "main_call md5 err path cmd im off =
    bnd (case command_func cmd of
           Func_write_imei \<Rightarrow> write_imei md5 err path (offset_offset off) (imei_imei im)
         | Func_bruteforce_imei_offset \<Rightarrow> bruteforce_imei_offset err path (imei_imei im)
         | Func_read_imei \<Rightarrow> read_imei path (offset_offset off)
         | Func_list_supported \<Rightarrow> ret (Nothing_shown, Aborted))
      (\<lambda>(report, e). ret (report, case e of Returned rc \<Rightarrow> errno_to_sysexit rc | Aborted \<Rightarrow> Aborted))"
  using assms by (auto simp: commands_def main_call_def option_bits)

lemma write_imei_options:
  assumes "cmd \<in> set commands" and "command_func cmd = Func_write_imei"
  shows "command_name cmd = ''write-imei''"
    and "get_imei cmd im = (0, im') \<Longrightarrow> imei_optarg im \<noteq> None \<or> \<not> imei_option_set im \<Longrightarrow>
      \<exists>t. imei_optarg im = Some t \<and> length t = IMEI_LENGTH \<and> (\<forall>c \<in> set t. is_digit c) \<and> imei_imei im' = t"
    and "get_offset cmd off = (0, off') \<Longrightarrow> offset_optarg off \<noteq> None \<or> \<not> offset_option_set off \<Longrightarrow> offset_error off = 0 \<Longrightarrow>
      \<exists>t. offset_optarg off = Some t \<and> \<not> is_negative t \<and> offset_offset off' = fst (strtoul t) \<and>
        \<not> (snd (strtoul t) \<and> offset_offset off' = - 1)"
  using assms
  by (auto simp: commands_def get_imei_def get_offset_def option_bits Let_def list_all_iff split: if_splits)

lemma main_cases:
  assumes "nv_data_imei_main md5 err argv w = (r, w')"
  obtains "w' = w"
  | st cmd path im off where "state_ok argv st" "st_command st = Some cmd" "st_path st = Some path"
      "get_imei cmd (st_imei st) = (0, im)" "get_offset cmd (st_offset st) = (0, off)"
      "main_call md5 err path cmd im off w = (r, w')"
proof (cases "main_loop argv state0 (tl argv)")
  case (Done x)
  show ?thesis
  proof (cases x)
    case (Inl e)
    with assms Done that(1) show ?thesis
      by (auto simp: nv_data_imei_main_def bnd_lift ret_eq split: if_splits)
  next
    case (Inr st)
    have ok: "state_ok argv st" using main_loop_ok [OF state0_ok] Done Inr by simp
    with assms Done Inr that show ?thesis
      by (auto simp: nv_data_imei_main_def bnd_lift ret_eq undef_eq Let_def split: if_splits option.splits prod.splits)
  qed
qed (use assms that(1) in \<open>auto simp: nv_data_imei_main_def bnd_def lift_outcome_eq ret_eq split: if_splits\<close>)

section \<open>Properties\<close>

text \<open>
  C27: the state of the command line is well-formed after every option: each of them keeps it so, and
  so does the loop, which therefore ends with a command of the table whose file and name are the first
  two arguments, or with none.
\<close>

theorem main_state_ok:
  "(\<forall>st'. state_ok argv st \<and> main_option argv optind opt st = Done (Inr st') \<longrightarrow> state_ok argv st') \<and>
   (\<forall>st'. main_loop argv state0 args = Done (Inr st') \<longrightarrow> state_ok argv st')"
  using main_option_ok main_loop_ok [OF state0_ok] by blast

theorem main_state_ok_witness:
  "\<exists>st cmd. main_loop [''nv_data-imei'', ''f'', ''read-imei'', ''-o'', ''8''] state0 [''f'', ''read-imei'', ''-o'', ''8''] =
       Done (Inr st) \<and> state_ok [''nv_data-imei'', ''f'', ''read-imei'', ''-o'', ''8''] st \<and>
     st_command st = Some cmd \<and> command_func cmd = Func_read_imei"
proof -
  let ?argv = "[''nv_data-imei'', ''f'', ''read-imei'', ''-o'', ''8'']"
  obtain st where st: "main_loop ?argv state0 [''f'', ''read-imei'', ''-o'', ''8''] = Done (Inr st)"
    "st_command st = get_command ''read-imei''"
    by (simp add: main_loop.simps main_option_def short_option_def with_argument_def get_command_def commands_def
        option_bits state0_def Let_def)
  with main_state_ok [of ?argv state0 1 Opt_help "[''f'', ''read-imei'', ''-o'', ''8'']"]
  show ?thesis by (auto simp: get_command_def commands_def)
qed

text \<open>
  C19: whatever the command line and the kernel, the tool changes no file but one that is given as the
  first argument, and the digest beside it, and these only by the command \<open>write-imei\<close> in the second
  argument, with an IMEI of exactly fifteen digits and an offset without a minus sign that fits 32 bits.
\<close>

theorem main_changes_only_write_imei:
  assumes "nv_data_imei_main md5 err argv w = (r, w')" and "w_files w' q \<noteq> w_files w q"
  shows "\<exists>prog path opts imei offset. argv = prog # path # ''write-imei'' # opts \<and> q \<in> {path, path @ ''.md5''} \<and>
    length imei = IMEI_LENGTH \<and> (\<forall>c \<in> set imei. is_digit c) \<and> \<not> is_negative offset \<and>
    \<not> (snd (strtoul offset) \<and> fst (strtoul offset) = - 1) \<and>
    w_files w' = w_files (snd (write_imei md5 err path (fst (strtoul offset)) imei w))"
proof (rule main_cases [OF assms(1)])
  assume "w' = w"
  with assms(2) show ?thesis by simp
next
  fix st cmd path im off
  assume ok: "state_ok argv st" and st: "st_command st = Some cmd" "st_path st = Some path"
    and im: "get_imei cmd (st_imei st) = (0, im)" and off: "get_offset cmd (st_offset st) = (0, off)"
    and call: "main_call md5 err path cmd im off w = (r, w')"
  from ok st have argv: "3 \<le> length argv" "path = argv ! 1" "get_command (argv ! 2) = Some cmd"
      "command_options cmd \<noteq> NO_OPTIONS" and "imei_optarg (st_imei st) \<noteq> None \<or> \<not> imei_option_set (st_imei st)"
      "offset_optarg (st_offset st) \<noteq> None \<or> \<not> offset_option_set (st_offset st)" "offset_error (st_offset st) = 0"
    by (auto simp: state_ok_def)
  note opts = this(5-7)
  from get_command_cases [OF argv(3)] have cmd: "cmd \<in> set commands" "command_name cmd = argv ! 2" by auto
  let ?finish = "\<lambda>(report, e). ret (report, case e of Returned rc \<Rightarrow> errno_to_sysexit rc | Aborted \<Rightarrow> Aborted)"
  note eq = call [unfolded main_call_cases [OF cmd(1) argv(4)]]
  have finish: "keeps S (?finish x)" for S x by (cases x) (simp add: keeps_simple)
  have "command_func cmd = Func_write_imei"
  proof (rule ccontr)
    assume "command_func cmd \<noteq> Func_write_imei"
    then have "keeps {} (bnd (case command_func cmd of
           Func_write_imei \<Rightarrow> write_imei md5 err path (offset_offset off) (imei_imei im)
         | Func_bruteforce_imei_offset \<Rightarrow> bruteforce_imei_offset err path (imei_imei im)
         | Func_read_imei \<Rightarrow> read_imei path (offset_offset off)
         | Func_list_supported \<Rightarrow> ret (Nothing_shown, Aborted)) ?finish)"
      by (intro keeps_bnd finish) (auto simp: keeps_commands keeps_simple split: func.split)
    from keeps_empty [OF this eq] assms(2) show False by simp
  qed
  note func = this
  from write_imei_options(2) [OF cmd(1) func im opts(1)] write_imei_options(3) [OF cmd(1) func off opts(2,3)]
  obtain t u where t: "length t = IMEI_LENGTH" "\<forall>c \<in> set t. is_digit c" "imei_imei im = t"
    and u: "\<not> is_negative u" "offset_offset off = fst (strtoul u)" "\<not> (snd (strtoul u) \<and> fst (strtoul u) = - 1)" by auto
  from eq func t(3) u(2) have run: "bnd (write_imei md5 err path (fst (strtoul u)) t) ?finish w = (r, w')" by simp
  have "w_files w' = w_files (snd (write_imei md5 err path (fst (strtoul u)) t w))"
    using run by (cases "write_imei md5 err path (fst (strtoul u)) t w")
      (auto simp: bnd_def ret_eq split: outcome.splits)
  moreover have "keeps {path, path @ ''.md5''} (bnd (write_imei md5 err path (fst (strtoul u)) t) ?finish)"
    by (intro keeps_bnd finish keeps_commands)
  from keepsD [OF this run, of q] assms(2) have "q \<in> {path, path @ ''.md5''}" by blast
  moreover have "argv = argv ! 0 # path # ''write-imei'' # drop 3 argv"
    using argv(1,2) cmd(2) write_imei_options(1) [OF cmd(1) func]
    by (auto simp: numeral_3_eq_3 numeral_2_eq_2 Suc_le_eq Cons_nth_drop_Suc drop_Suc_Cons intro!: nth_equalityI)
      (auto simp: nth_Cons' numeral_2_eq_2 split: nat.splits)
  ultimately show ?thesis using t(1,2) u(1,3) by blast
qed

text \<open>How the result of a command becomes the exit status.\<close>

definition exit_status :: "(report \<times> ended) io \<Rightarrow> (report \<times> ended) io" where
  "exit_status m = bnd m (\<lambda>(report, e). ret (report, case e of Returned rc \<Rightarrow> errno_to_sysexit rc | Aborted \<Rightarrow> Aborted))"

lemmas main_run_simps = nv_data_imei_main_def main_loop.simps main_option_def short_option_def long_option_def
  with_argument_def get_command_def commands_def option_bits state0_def Let_def bnd_lift get_imei_def get_offset_def
  main_call_def exit_status_def list_all_iff prefix_def

text \<open>The ways to give an option with its argument; a long name may be shortened.\<close>

fun spellings :: "opt \<Rightarrow> string list set" where
  "spellings (Opt_imei t) = (if t = [] then {} else {[''-i'' @ t]}) \<union> {[''-i'', t]} \<union>
     (\<Union>n \<in> {''i'', ''im'', ''ime'', ''imei''}. {[''--'' @ n, t], [''--'' @ n @ ''='' @ t]})"
| "spellings (Opt_offset t) = (if t = [] then {} else {[''-o'' @ t]}) \<union> {[''-o'', t]} \<union>
     (\<Union>n \<in> {''o'', ''of'', ''off'', ''offs'', ''offse'', ''offset''}. {[''--'' @ n, t], [''--'' @ n @ ''='' @ t]})"
| "spellings _ = {}"

lemma getopt_spelled: "a \<in> spellings opt \<Longrightarrow> getopt_long (a @ rest) = (Some opt, rest)"
  by (cases opt) (auto simp: short_option_def long_option_def with_argument_def Let_def prefix_def split: if_splits)

lemma main_loop_spelled:
  assumes "a \<in> spellings opt" "main_option argv (length argv - length rest) opt st = Done (Inr st')"
  shows "main_loop argv st (a @ rest) = main_loop argv st' rest"
  using assms by (subst main_loop.simps) (simp add: getopt_spelled)

lemma main_loop_end: "main_loop argv st [] = Done (Inr st)"
  by (subst main_loop.simps) simp

text \<open>The file and the command come first, and then the options in the order they are given.\<close>

lemma main_loop_command:
  assumes "hd path \<noteq> CHR ''-''" "hd name \<noteq> CHR ''-''" "get_command name = Some cmd" "command_options cmd \<noteq> 0"
  shows "main_loop (prog # path # name # opts) state0 (path # name # opts) =
    main_loop (prog # path # name # opts) (state0\<lparr>st_path := Some path, st_command := Some cmd\<rparr>) opts"
proof -
  have p: "path \<noteq> ''--''" "name \<noteq> ''--''" using assms(1,2) by auto
  let ?argv = "prog # path # name # opts"
  have "main_loop ?argv state0 (path # name # opts) = main_loop ?argv state0 (name # opts)"
    using assms(1) p by (subst main_loop.simps) (simp add: main_option_def Let_def)
  also have "\<dots> = main_loop ?argv (state0\<lparr>st_path := Some path, st_command := Some cmd\<rparr>) opts"
    using assms p by (subst main_loop.simps) (simp add: main_option_def Let_def numeral_2_eq_2)
  finally show ?thesis .
qed

lemma option_set:
  "\<not> imei_option_set (st_imei st) \<Longrightarrow> main_option argv optind (Opt_imei t) st =
     Done (Inr (st\<lparr>st_imei := (st_imei st)\<lparr>imei_optarg := Some t, imei_option_set := True\<rparr>\<rparr>))"
  "\<not> offset_option_set (st_offset st) \<Longrightarrow> main_option argv optind (Opt_offset t) st =
     Done (Inr (st\<lparr>st_offset := (st_offset st)\<lparr>offset_optarg := Some t, offset_option_set := True\<rparr>\<rparr>))"
  by (simp_all add: main_option_def Let_def)

lemma state0_sel: "imei_option_set (st_imei state0) = False" "offset_option_set (st_offset state0) = False"
  "offset_error (st_offset state0) = 0" "offset_offset (st_offset state0) = 0"
  by (simp_all add: state0_def)

text \<open>The command runs with what the options have left in the state.\<close>

lemma main_after_options:
  assumes "hd path \<noteq> CHR ''-''" "hd name \<noteq> CHR ''-''" "get_command name = Some cmd" "command_options cmd AND OPTION_FILE \<noteq> 0"
    and "main_loop (prog # path # name # opts) (state0\<lparr>st_path := Some path, st_command := Some cmd\<rparr>) opts =
      Done (Inr (state0\<lparr>st_path := Some path, st_command := Some cmd, st_imei := im0, st_offset := off0\<rparr>))"
  shows "nv_data_imei_main md5 err (prog # path # name # opts) =
    (let (rc, im) = get_imei cmd im0 in
     if rc \<noteq> 0 then ret (Nothing_shown, errno_to_sysexit rc)
     else let (rc, off) = get_offset cmd off0 in
          if rc \<noteq> 0 then ret (Nothing_shown, errno_to_sysexit rc) else main_call md5 err path cmd im off)"
proof -
  have "command_options cmd \<noteq> 0" using assms(4) by auto
  from main_loop_command [OF assms(1-3) this, of prog opts] assms(4,5) show ?thesis
    by (simp add: nv_data_imei_main_def bnd_lift split_beta Let_def)
qed

text \<open>
  C18: with a file and a command as the first two arguments, of which the first does not begin with a minus
  sign, and the options after them, the tool runs the command and exits with the status it gives. The
  options may be spelled in any of their ways and given in any order; the IMEI has to have fifteen digits,
  and the offset no minus sign and a value that fits 32 bits. Writing and searching use the IMEI given, and
  writing and reading the number that the text of the offset stands for. Reading without an offset reads
  at 0, and not at the place that the header calls the default. Writing without an offset, or searching
  with one, ends with status 64.
\<close>

theorem main_runs_command:
  assumes "hd path \<noteq> CHR ''-''" and imei: "length imei = IMEI_LENGTH" "\<forall>c \<in> set imei. is_digit c"
    and offset: "\<not> is_negative offset" "\<not> snd (strtoul offset)"
    and a: "a \<in> spellings (Opt_imei imei)" and b: "b \<in> spellings (Opt_offset offset)"
  shows "nv_data_imei_main md5 err (prog # path # ''write-imei'' # a @ b) =
      exit_status (write_imei md5 err path (fst (strtoul offset)) imei) \<and>
    nv_data_imei_main md5 err (prog # path # ''write-imei'' # b @ a) =
      exit_status (write_imei md5 err path (fst (strtoul offset)) imei) \<and>
    nv_data_imei_main md5 err (prog # path # ''bruteforce-imei'' # a) =
      exit_status (bruteforce_imei_offset err path imei) \<and>
    nv_data_imei_main md5 err (prog # path # ''read-imei'' # b) =
      exit_status (read_imei path (fst (strtoul offset))) \<and>
    nv_data_imei_main md5 err [prog, path, ''read-imei''] = exit_status (read_imei path 0) \<and>
    nv_data_imei_main md5 err (prog # path # ''write-imei'' # a) = ret (Nothing_shown, Returned 64) \<and>
    nv_data_imei_main md5 err (prog # path # ''bruteforce-imei'' # a @ b) = ret (Nothing_shown, Returned 64)"
proof -
  let ?im = "(st_imei state0)\<lparr>imei_optarg := Some imei, imei_option_set := True\<rparr>"
    and ?off = "(st_offset state0)\<lparr>offset_optarg := Some offset, offset_option_set := True\<rparr>"
    and ?st = "\<lambda>cmd. state0\<lparr>st_path := Some path, st_command := Some cmd\<rparr>"
  note a1 = main_loop_spelled [OF a option_set(1)] and b1 = main_loop_spelled [OF b option_set(2)]
  have ab: "main_loop argv (?st cmd) (a @ b) = Done (Inr (?st cmd\<lparr>st_imei := ?im, st_offset := ?off\<rparr>))"
    "main_loop argv (?st cmd) (b @ a) = Done (Inr (?st cmd\<lparr>st_imei := ?im, st_offset := ?off\<rparr>))"
    "main_loop argv (?st cmd) a = Done (Inr (?st cmd\<lparr>st_imei := ?im, st_offset := st_offset state0\<rparr>))"
    "main_loop argv (?st cmd) b = Done (Inr (?st cmd\<lparr>st_imei := st_imei state0, st_offset := ?off\<rparr>))"
    "main_loop argv (?st cmd) [] = Done (Inr (?st cmd\<lparr>st_imei := st_imei state0, st_offset := st_offset state0\<rparr>))" for argv cmd
    using a1 [where rest = b] a1 [where rest = "[]"] b1 [where rest = a] b1 [where rest = "[]"]
    by (simp_all add: state0_sel main_loop_end)
  note run = main_after_options [OF assms(1) _ _ _ ab(1)] main_after_options [OF assms(1) _ _ _ ab(2)]
    main_after_options [OF assms(1) _ _ _ ab(3)] main_after_options [OF assms(1) _ _ _ ab(4)]
    main_after_options [OF assms(1) _ _ _ ab(5)]
  note simps = get_command_def commands_def option_bits get_imei_def get_offset_def main_call_def exit_status_def
    list_all_iff errno_to_sysexit_def state0_sel
  show ?thesis
    using imei offset by (intro conjI) (simp_all add: run simps)
qed

lemma main_runs_write:
  assumes "hd path \<noteq> CHR ''-''" "length imei = IMEI_LENGTH" "\<forall>c \<in> set imei. is_digit c"
    and "\<not> is_negative offset" "\<not> snd (strtoul offset)"
  shows "nv_data_imei_main md5 err [prog, path, ''write-imei'', ''-i'', imei, ''-o'', offset] =
      exit_status (write_imei md5 err path (fst (strtoul offset)) imei)"
proof -
  have p: "path \<noteq> ''--''" using assms(1) by auto
  with assms show ?thesis by (simp add: main_run_simps)
qed

lemma demo_offset: "strtoul ''0xEC80'' = (0xEC80, False)" "\<not> is_negative ''0xEC80''"
  by (simp_all add: strtoul_def Let_def number_of_def digit_of_def hex_of_def hexval_def isspace_def)

lemma demo_imei_text: "length ''355921041234567'' = IMEI_LENGTH" "\<forall>c \<in> set ''355921041234567''. is_digit c"
  by (simp_all add: IMEI_LENGTH_def is_digit_def)

theorem main_runs_command_witness:
  "nv_data_imei_main demo_md5 5 [''nv_data-imei'', ''f'', ''write-imei'', ''-o'', ''0xEC80'', ''--imei=355921041234567''] =
     exit_status (write_imei demo_md5 5 ''f'' 0xEC80 ''355921041234567'')"
  using main_runs_command [of "''f''" "''355921041234567''" "''0xEC80''" "[''--imei=355921041234567'']" "[''-o'', ''0xEC80'']"
      demo_md5 5 "''nv_data-imei''"] demo_offset demo_imei_text by simp

text \<open>A complete file of zeros, and the IMEI written into it.\<close>

lemma demo_main_writes:
  "\<exists>w'. nv_data_imei_main demo_md5 5 [''nv_data-imei'', ''f'', ''write-imei'', ''-i'', ''355921041234567'', ''-o'', ''0xEC80'']
       demo_imei_world = (Done (Nothing_shown, Returned 0), w') \<and> w_files w' ''f'' \<noteq> w_files demo_imei_world ''f''"
proof -
  let ?w = demo_imei_world and ?bs = "[0x3A, 0x55, 0x29, 0x01, 0x14, 0x32, 0x54, 0x76] :: u8 list"
  have enc: "encode_imei ''355921041234567'' = Some ?bs" by code_simp
  have ok: "files_ok ?w" "w_files ?w ''f'' = Some (calloc 0x200000)" "length (calloc 0x200000) = XMM616_NV_DATA_SIZE"
    by (simp_all add: demo_imei_world_def demo_world_def files_ok_def XMM616_NV_DATA_SIZE_def)
  have pos: "seek_pos 0xEC80 = 0xEC80" using seek_pos_small [of "0xEC80"] by simp
  then have p8: "seek_pos 0xEC80 + 8 \<le> XMM616_NV_DATA_SIZE" by (simp add: XMM616_NV_DATA_SIZE_def)
  have b8: "length ?bs = 8" by simp
  obtain w' where w': "write_imei demo_md5 5 ''f'' 0xEC80 ''355921041234567'' ?w = (Done (Nothing_shown, Returned 0), w')"
    using write_imei_runs [OF ok demo_imei_text(1) enc b8 p8] by blast
  have md5_file: "length (file_of ?w (''f'' @ ''.md5'')) \<le> 32" by (simp add: demo_imei_world_def file_of_def)
  have "0 \<notin> sset (w_fio ?w)" using ok(1) by (auto simp: files_ok_def)
  from write_imei_Done [OF _ this md5_file w'] enc pos have "w_files w' ''f'' = Some (file_splice 0xEC80 ?bs (file_of ?w ''f''))" by auto
  then have "0x3A \<in> set (the (w_files w' ''f''))" by (auto simp: file_splice_def)
  then have "w_files w' ''f'' \<noteq> w_files ?w ''f''" using ok(2) by (auto simp: calloc_def)
  with w' show ?thesis
    using main_runs_write [of "''f''" "''355921041234567''" "''0xEC80''" demo_md5 5 "''nv_data-imei''"]
      demo_offset demo_imei_text by (auto simp: exit_status_def bnd_def ret_eq errno_to_sysexit_def)
qed

theorem main_changes_only_write_imei_witness:
  "\<exists>w' (imei :: string). nv_data_imei_main demo_md5 5 [''nv_data-imei'', ''f'', ''write-imei'', ''-i'', ''355921041234567'', ''-o'', ''0xEC80'']
       demo_imei_world = (Done (Nothing_shown, Returned 0), w') \<and> length imei = IMEI_LENGTH \<and>
     w_files w' = w_files (snd (write_imei demo_md5 5 ''f'' 0xEC80 ''355921041234567'' demo_imei_world))"
proof -
  obtain w' where w': "nv_data_imei_main demo_md5 5
      [''nv_data-imei'', ''f'', ''write-imei'', ''-i'', ''355921041234567'', ''-o'', ''0xEC80''] demo_imei_world =
      (Done (Nothing_shown, Returned 0), w')" "w_files w' ''f'' \<noteq> w_files demo_imei_world ''f''"
    using demo_main_writes by blast
  from main_changes_only_write_imei [OF w'] obtain imei :: string where "length imei = IMEI_LENGTH" by blast
  moreover have "w_files w' = w_files (snd (write_imei demo_md5 5 ''f'' 0xEC80 ''355921041234567'' demo_imei_world))"
    using w'(1) main_runs_write [of "''f''" "''355921041234567''" "''0xEC80''" demo_md5 5 "''nv_data-imei''"]
      demo_offset demo_imei_text
    by (cases "write_imei demo_md5 5 ''f'' 0xEC80 ''355921041234567'' demo_imei_world")
      (auto simp: exit_status_def bnd_def ret_eq split: outcome.splits)
  ultimately show ?thesis using w'(1) by blast
qed

section \<open>Failures\<close>

text \<open>A repeated option before the command: the message names a command that is not there.\<close>

lemma repeated_option_undefined:
  "nv_data_imei_main md5 err [prog, ''-i'', a, ''-i'', b] w = (Undef, w)"
  by (simp add: nv_data_imei_main_def main_loop.simps main_option_def short_option_def with_argument_def state0_def
      Let_def bnd_def lift_outcome_eq)

text \<open>
  The exit status has no value for -1, which every command returns when the library cannot read the
  file: the program ends with a failed assertion.
\<close>

lemma missing_file_aborts:
  assumes "hd path \<noteq> CHR ''-''" and "w_files w path = None"
  shows "\<exists>w'. nv_data_imei_main md5 err [prog, path, ''read-imei''] w = (Done (Nothing_shown, Aborted), w')"
proof -
  have p: "path \<noteq> ''--''" using assms(1) by auto
  have "nv_data_imei_main md5 err [prog, path, ''read-imei''] = exit_status (read_imei path 0)"
    using assms(1) p by (simp add: main_run_simps)
  then show ?thesis
    using assms(2)
    by (simp add: exit_status_def read_imei_def bnd_setup attempt_def file_data_read_eq imei_constants bnd_def
        sys_open_read_def check_eq ret_eq errno_to_sysexit_def)
qed

text \<open>An offset that is no number is read as 0, and raises no error.\<close>

lemma offset_without_number: "get_offset cmd (st_offset state0\<lparr>offset_option_set := True, offset_optarg := Some ''foo''\<rparr>) =
    (if command_options cmd AND OPTION_OFFSET = 0 then - 22 else 0, st_offset state0\<lparr>offset_option_set := True, offset_optarg := Some ''foo''\<rparr>)"
proof -
  have "strtoul ''foo'' = (0, False)" "\<not> is_negative ''foo''"
    by (simp_all add: strtoul_def Let_def number_of_def digit_of_def hex_of_def hexval_def isspace_def)
  then show ?thesis by (simp add: get_offset_def state0_def Let_def)
qed

end
