(* ===== verification/Generic.thy ===== *)
theory Generic
  imports Boot
begin

text \<open>
  partitions/android/android.c: finding the partition of the modem image; and
  devices/generic/generic.c: an XMM626 behind a mainline kernel, whose power and link are attributes
  in sysfs. The calls of \<open>lsusb\<close> are left out.
\<close>

section \<open>Partitions\<close>

definition ENOENT :: int where "ENOENT = 2"

text \<open>\<open>open\<close> with the value it leaves in \<open>errno\<close>.\<close>

definition sys_open_errno :: "string \<Rightarrow> (int \<times> int) io" where
  "sys_open_errno path w = bnd (sys_open path) (\<lambda>fd. ret (fd, if fd < 0 then - shd (w_open w) else 0)) w"

text \<open>The descriptor and \<open>errno\<close>; only a path that does not exist is passed over.\<close>

fun open_android_modem_partition :: "string list \<Rightarrow> (int \<times> int) io" where
  "open_android_modem_partition [] = ret (- 1, ENOENT)"
| "open_android_modem_partition (path # path_names) =
     bnd (sys_open_errno path) (\<lambda>(fd, err).
     if fd = - 1 then (if err = ENOENT then open_android_modem_partition path_names else ret (- 1, err))
     else ret (fd, err))"

definition partitions_dirnames :: "string list" where
  "partitions_dirnames = [''/dev/disk/by-partlabel/'', ''/dev/block/by-name/'']"

fun partition_by_name_loop :: "string list \<Rightarrow> string \<Rightarrow> string option \<Rightarrow> (int \<times> int \<times> string option) io" where
  "partition_by_name_loop [] name out_path = ret (- 1, ENOENT, out_path)"
| "partition_by_name_loop (dir # dirs) name out_path =
     bnd (sys_open_errno (dir @ name)) (\<lambda>(fd, err).
     if fd = - 1 then
       (if err = ENOENT then partition_by_name_loop dirs name (Some (dir @ name))
        else ret (- 1, err, Some (dir @ name)))
     else ret (fd, err, Some (dir @ name)))"

definition open_android_modem_partition_by_name :: "string \<Rightarrow> (int \<times> int \<times> string option) io" where
  "open_android_modem_partition_by_name name = partition_by_name_loop partitions_dirnames name None"

section \<open>Power and link\<close>

definition XMM626_KERNEL_LINUX_BOOT0_DEVICE :: string where
  "XMM626_KERNEL_LINUX_BOOT0_DEVICE = ''/dev/xmm6262_boot0''"
definition XMM626_KERNEL_LINUX_IPC0_DEVICE :: string where
  "XMM626_KERNEL_LINUX_IPC0_DEVICE = ''/dev/umts_ipc''"
definition XMM626_KERNEL_LINUX_RFS0_DEVICE :: string where
  "XMM626_KERNEL_LINUX_RFS0_DEVICE = ''/dev/umts_rfs''"
definition XMM626_KERNEL_LINUX_EHCI_POWER_SYSFS :: string where
  "XMM626_KERNEL_LINUX_EHCI_POWER_SYSFS = ''/sys/devices/platform/soc/12580000.ehci/ehci_power''"
definition XMM626_KERNEL_LINUX_HOSTWAKE_PATH :: string where
  "XMM626_KERNEL_LINUX_HOSTWAKE_PATH = ''/sys/devices/platform/xmm6262/hostwake''"
definition XMM626_KERNEL_LINUX_LINK_ACTIVE_PATH :: string where
  "XMM626_KERNEL_LINUX_LINK_ACTIVE_PATH = ''/sys/devices/platform/xmm6262/link_active''"
definition XMM626_KERNEL_LINUX_POWER_PATH :: string where
  "XMM626_KERNEL_LINUX_POWER_PATH = ''/sys/devices/platform/xmm6262/modem_power''"
definition XMM626_KERNEL_LINUX_PDA_ACTIVE_SYSFS :: string where
  "XMM626_KERNEL_LINUX_PDA_ACTIVE_SYSFS = ''/sys/devices/platform/xmm6262/pda_active''"
definition XMM626_KERNEL_LINUX_SLAVEWAKE_SYSFS :: string where
  "XMM626_KERNEL_LINUX_SLAVEWAKE_SYSFS = ''/sys/devices/platform/xmm6262/slavewake''"

lemmas linux_paths = XMM626_KERNEL_LINUX_EHCI_POWER_SYSFS_def XMM626_KERNEL_LINUX_HOSTWAKE_PATH_def
  XMM626_KERNEL_LINUX_LINK_ACTIVE_PATH_def XMM626_KERNEL_LINUX_POWER_PATH_def
  XMM626_KERNEL_LINUX_PDA_ACTIVE_SYSFS_def XMM626_KERNEL_LINUX_SLAVEWAKE_SYSFS_def

definition truth :: "int \<Rightarrow> int" where
  "truth v = (if v \<noteq> 0 then 1 else 0)"

definition xmm626_kernel_linux_modem_power :: "int \<Rightarrow> unit io" where
  "xmm626_kernel_linux_modem_power pwr = sysfs_value_write (Some XMM626_KERNEL_LINUX_POWER_PATH) (truth pwr)"

definition xmm626_kernel_linux_modem_hci_power :: "int \<Rightarrow> unit io" where
  "xmm626_kernel_linux_modem_hci_power pwr =
     (if pwr \<noteq> 0 then
        bnd (try_rc (sysfs_value_write (Some XMM626_KERNEL_LINUX_PDA_ACTIVE_SYSFS) 1)) (\<lambda>ohci_rc.
        bnd (sysfs_value_read (Some XMM626_KERNEL_LINUX_HOSTWAKE_PATH)) (\<lambda>hostwake.
        bnd (if hostwake \<noteq> 0 then
               bnd (try_rc (sysfs_value_write (Some XMM626_KERNEL_LINUX_SLAVEWAKE_SYSFS) 0)) (\<lambda>rc0.
               bnd (try_rc (sysfs_value_write (Some XMM626_KERNEL_LINUX_SLAVEWAKE_SYSFS) 1)) (\<lambda>rc1.
               ret (ohci_rc OR rc0 OR rc1)))
             else ret ohci_rc) (\<lambda>ohci_rc.
        bnd (try_rc (sysfs_value_write (Some XMM626_KERNEL_LINUX_EHCI_POWER_SYSFS) (truth pwr))) (\<lambda>ehci_rc.
        bnd (try_rc (sysfs_value_write (Some XMM626_KERNEL_LINUX_LINK_ACTIVE_PATH) 1)) (\<lambda>rc.
        check (\<not> (ehci_rc < 0 \<and> (ohci_rc OR rc) < 0)))))))
      else
        bnd (try_rc (sysfs_value_write (Some XMM626_KERNEL_LINUX_EHCI_POWER_SYSFS) (truth pwr))) (\<lambda>ehci_rc.
        bnd (try_rc (sysfs_value_write (Some XMM626_KERNEL_LINUX_LINK_ACTIVE_PATH) 0)) (\<lambda>ohci_rc.
        check (\<not> (ehci_rc < 0 \<and> ohci_rc < 0)))))"

definition xmm626_kernel_linux_modem_link_control_enable :: "int \<Rightarrow> unit io" where
  "xmm626_kernel_linux_modem_link_control_enable enable = ret ()"

definition xmm626_kernel_linux_modem_link_control_active :: "int \<Rightarrow> unit io" where
  "xmm626_kernel_linux_modem_link_control_active active =
     sysfs_value_write (Some XMM626_KERNEL_LINUX_LINK_ACTIVE_PATH) (truth active)"

text \<open>These two only wait.\<close>

definition xmm626_kernel_linux_modem_link_connected_wait :: "unit io" where
  "xmm626_kernel_linux_modem_link_connected_wait = ret ()"

definition xmm626_kernel_linux_modem_link_get_hostwake_wait :: "unit io" where
  "xmm626_kernel_linux_modem_link_get_hostwake_wait = ret ()"

section \<open>Descriptors\<close>

text \<open>At most \<open>n\<close> attempts to open the device.\<close>

fun open_attempts :: "nat \<Rightarrow> string \<Rightarrow> int \<Rightarrow> int io" where
  "open_attempts 0 path fd = ret fd"
| "open_attempts (Suc n) path fd = (if fd < 0 then bnd (sys_open path) (open_attempts n path) else ret fd)"

definition xmm626_kernel_linux_modem_open :: "int \<Rightarrow> int io" where
  "xmm626_kernel_linux_modem_open type =
     (if type = IPC_CLIENT_TYPE_FMT then open_attempts 30 XMM626_KERNEL_LINUX_IPC0_DEVICE (- 2)
      else if type = IPC_CLIENT_TYPE_RFS then open_attempts 30 XMM626_KERNEL_LINUX_RFS0_DEVICE (- 2)
      else ret (- 1))"

definition xmm626_kernel_linux_modem_read :: "int \<Rightarrow> nat \<Rightarrow> u8 list option io" where
  "xmm626_kernel_linux_modem_read fd len = (if fd < 0 \<or> len = 0 then ret None else sys_read len)"

definition xmm626_kernel_linux_modem_write :: "int \<Rightarrow> u8 list \<Rightarrow> int io" where
  "xmm626_kernel_linux_modem_write fd buffer = (if fd < 0 \<or> length buffer = 0 then ret (- 1) else sys_write fd buffer)"

definition xmm626_kernel_linux_modem_gprs_get_iface :: "u32 \<Rightarrow> string outcome" where
  "xmm626_kernel_linux_modem_gprs_get_iface cid =
     (if cid > XMM626_SEC_MODEM_GPRS_IFACE_COUNT then Fail
      else Done (''rmnet'' @ char_string (print_int (sint (cid - 1)))))"

text \<open>A descriptor that is ready makes this function fail.\<close>

definition generic_kernel_poll ::
  "int \<Rightarrow> ipc_poll_fds option \<Rightarrow> (int \<times> ipc_poll_fds option) io" where
  "generic_kernel_poll fd fds =
     (if fd < 0 then fail
      else
        bnd (lift_outcome (poll_set fd fds)) (\<lambda>fdset.
        bnd (sys_select_set fdset) (\<lambda>(rc, ready).
        if fd \<in> set ready then fail
        else bnd (lift_outcome (poll_result ready fds)) (\<lambda>fds'. ret (rc, fds')))))"

section \<open>Booting\<close>

definition generic_image :: boot_image where
  "generic_image = \<lparr>bi_device = [], bi_size = 0x1000000,
     bi_psi_offset = 0x1000, bi_psi_size = 0xE000, bi_ebl_offset = 0xF000, bi_ebl_size = 0x19000,
     bi_sec_start_offset = 0x9FF800, bi_sec_start_size = 0x800,
     bi_firmware_offset = 0x28000, bi_firmware_size = 0x9D7800\<rparr>"

text \<open>The modem goes off and on; that switching it on failed is only logged.\<close>

definition generic_turn_on :: "unit io" where
  "generic_turn_on =
     bnd (xmm626_kernel_linux_modem_power 0) (\<lambda>_.
     bnd (xmm626_kernel_linux_modem_hci_power 0) (\<lambda>_.
     bnd (try_rc (xmm626_kernel_linux_modem_power 1)) (\<lambda>_.
     xmm626_kernel_linux_modem_hci_power 1)))"

definition generic_relink :: "unit io" where
  "generic_relink =
     bnd xmm626_kernel_linux_modem_link_get_hostwake_wait (\<lambda>_.
     bnd (xmm626_kernel_linux_modem_hci_power 0) (\<lambda>_.
     bnd xmm626_kernel_linux_modem_link_get_hostwake_wait (\<lambda>_.
     xmm626_kernel_linux_modem_hci_power 1)))"

definition generic_boot :: "(u8 list \<Rightarrow> u8 list) \<Rightarrow> client_env option \<Rightarrow> unit io" where
  "generic_boot md5 client =
     (if client = None then fail
      else
        bnd (open_android_modem_partition_by_name ''RADIO'') (\<lambda>(modem_image_fd, err, path).
        bnd (if modem_image_fd = - 1 then ret None else sys_mmap (the path) (bi_size generic_image)) (\<lambda>mem.
        bnd (try_rc (if mem = None then fail else generic_turn_on)) (\<lambda>rc.
        bnd (if rc < 0 then ret (- 1) else open_attempts 10000 XMM626_KERNEL_LINUX_BOOT0_DEVICE (- 1)) (\<lambda>modem_boot_fd.
        complete
          (if modem_boot_fd < 0 then fail
           else bnd (boot_load generic_image md5 client modem_boot_fd (the mem)) (\<lambda>_. generic_relink))
          (bnd (close_valid modem_image_fd) (\<lambda>_. close_valid modem_boot_fd)))))))"

section \<open>Handlers\<close>

definition generic_open :: open_handler where
  "generic_open data type =
     (case data of None \<Rightarrow> fail
      | Some a \<Rightarrow>
          bnd (xmm626_kernel_linux_modem_open type) (\<lambda>fd.
          bnd (heap_set a fd) (\<lambda>_. check (\<not> fd < 0))))"

definition generic_close :: close_handler where
  "generic_close data =
     (case data of None \<Rightarrow> fail
      | Some a \<Rightarrow>
          bnd (heap_get a) (\<lambda>fd.
          bnd (try_rc (xmm626_kernel_smdk4412_close fd)) (\<lambda>_. heap_set a (-1))))"

definition generic_read :: read_handler where
  "generic_read data len =
     (case data of None \<Rightarrow> ret None
      | Some a \<Rightarrow> bnd (heap_get a) (\<lambda>fd. xmm626_kernel_linux_modem_read fd len))"

definition generic_write :: write_handler where
  "generic_write data buffer =
     (case data of None \<Rightarrow> ret (-1)
      | Some a \<Rightarrow> bnd (heap_get a) (\<lambda>fd. xmm626_kernel_linux_modem_write fd buffer))"

text \<open>
  \<open>poll\<close> on the descriptor alone, without a limit of time. The member \<open>events\<close> is not set, so which
  events end the call is open; the result of the call is taken from the world like that of \<open>select\<close>.
\<close>

definition generic_poll :: poll_handler where
  "generic_poll data fds =
     (case data of None \<Rightarrow> fail
      | Some a \<Rightarrow> bnd (heap_get a) (\<lambda>fd. bnd sys_select (\<lambda>rc. if rc < 0 then fail else ret (0, fds))))"

definition generic_smdk_poll :: poll_handler where
  "generic_smdk_poll data fds =
     (case data of None \<Rightarrow> fail
      | Some a \<Rightarrow> bnd (heap_get a) (\<lambda>fd. generic_kernel_poll fd fds))"

definition generic_power_on :: power_handler where
  "generic_power_on data = ret ()"

definition generic_power_off :: power_handler where
  "generic_power_off data =
     bnd (sys_open XMM626_KERNEL_LINUX_BOOT0_DEVICE) (\<lambda>fd.
     if fd < 0 then fail
     else
       bnd (try_rc (xmm626_kernel_linux_modem_power 0)) (\<lambda>rc.
       bnd (sys_close fd) (\<lambda>_. check (\<not> rc < 0))))"

definition generic_gprs_activate :: gprs_handler where
  "generic_gprs_activate data cid = ret ()"

definition generic_gprs_deactivate :: gprs_handler where
  "generic_gprs_deactivate data cid = ret ()"

definition generic_gprs_get_capabilities :: "u32 option \<Rightarrow> u32 outcome" where
  "generic_gprs_get_capabilities capabilities =
     (case capabilities of None \<Rightarrow> Fail | Some _ \<Rightarrow> Done XMM626_SEC_MODEM_GPRS_IFACE_COUNT)"

definition generic_data_create ::
  "slot option \<Rightarrow> slot option \<Rightarrow> slot option \<Rightarrow> handler_data \<Rightarrow> handler_data io" where
  "generic_data_create transport_data power_data gprs_data d =
     (case transport_data of None \<Rightarrow> fail
      | Some s \<Rightarrow> bnd heap_calloc (\<lambda>a. ret (slot_set s (Some a) d)))"

definition generic_data_destroy :: "ptr \<Rightarrow> ptr \<Rightarrow> ptr \<Rightarrow> unit io" where
  "generic_data_destroy transport_data power_data gprs_data =
     (case transport_data of None \<Rightarrow> fail | Some a \<Rightarrow> heap_free a)"

definition generic_handlers :: ipc_client_handlers where
  "generic_handlers = \<lparr>h_open = Some generic_open, h_close = Some generic_close, h_read = Some generic_read,
     h_write = Some generic_write, h_poll = Some generic_poll, h_power_on = Some generic_power_on,
     h_power_off = Some generic_power_off, h_gprs_activate = Some generic_gprs_activate,
     h_gprs_deactivate = Some generic_gprs_deactivate, h_data_create = Some generic_data_create,
     h_data_destroy = Some generic_data_destroy,
     h_data = \<lparr>hd_transport = None, hd_power = None, hd_gprs = None\<rparr>\<rparr>"

definition generic_gprs_specs :: ipc_client_gprs_specs where
  "generic_gprs_specs = \<lparr>gs_get_iface = Some xmm626_kernel_smdk4412_gprs_get_iface,
     gs_get_capabilities = Some generic_gprs_get_capabilities\<rparr>"

definition generic_nv_data_specs :: ipc_client_nv_data_specs where
  "generic_nv_data_specs = \<lparr>nv_data_path = Some ''/efs/nv_data.bin'',
     nv_data_md5_path = Some ''/efs/nv_data.bin.md5'', nv_data_backup_path = Some ''/efs/.nv_data.bak'',
     nv_data_backup_md5_path = Some ''/efs/.nv_data.bak.md5'',
     nv_data_secret = Some (ascii ''Samsung_Android_RIL''), nv_data_size = 0x200000,
     nv_data_chunk_size = 0x1000\<rparr>"

definition generic_fmt_ops :: "(u8 list \<Rightarrow> u8 list) \<Rightarrow> ipc_client_ops" where
  "generic_fmt_ops md5 = \<lparr>op_boot = Some (\<lambda>client. generic_boot md5 (Some client)),
     op_send = Some xmm626_kernel_smdk4412_fmt_send, op_recv = Some xmm626_kernel_smdk4412_fmt_recv\<rparr>"

definition generic_rfs_ops :: ipc_client_ops where
  "generic_rfs_ops = \<lparr>op_boot = None, op_send = Some xmm626_kernel_smdk4412_rfs_send,
     op_recv = Some xmm626_kernel_smdk4412_rfs_recv\<rparr>"

section \<open>Opening\<close>

lemma sys_open_errno_shape:
  "\<exists>fd err w'. sys_open_errno path w = (Done (fd, err), w') \<and> (fd < 0 \<longrightarrow> fd = - 1) \<and>
     w_trace w' = w_trace w @ opens path fd \<and> w_files w' = w_files w"
  by (simp add: sys_open_errno_def bnd_def sys_open_def opens_def ret_eq Let_def)

text \<open>The first path that can be opened; nothing else is opened.\<close>

lemma partition_by_name_shape:
  "\<exists>fd err path w'. partition_by_name_loop dirs name out w = (Done (fd, err, path), w') \<and>
     (fd < 0 \<longrightarrow> fd = - 1 \<and> w_trace w' = w_trace w) \<and>
     (0 \<le> fd \<longrightarrow> (\<exists>dir \<in> set dirs. path = Some (dir @ name) \<and> w_trace w' = w_trace w @ [EvOpen (dir @ name) fd])) \<and>
     w_files w' = w_files w"
proof (induction dirs arbitrary: out w)
  case Nil
  show ?case by (simp add: ret_eq)
next
  case (Cons dir dirs)
  obtain fd err w1 where o: "sys_open_errno (dir @ name) w = (Done (fd, err), w1)" "fd < 0 \<longrightarrow> fd = - 1"
    "w_trace w1 = w_trace w @ opens (dir @ name) fd" "w_files w1 = w_files w"
    using sys_open_errno_shape by metis
  show ?case
  proof (cases "fd = - 1 \<and> err = ENOENT")
    case True
    then have eq: "partition_by_name_loop (dir # dirs) name out w = partition_by_name_loop dirs name (Some (dir @ name)) w1"
      using o(1) by (simp add: bnd_def)
    from True o(3) have t: "w_trace w1 = w_trace w" by (simp add: opens_def)
    obtain fd' err' path' w' where "partition_by_name_loop dirs name (Some (dir @ name)) w1 = (Done (fd', err', path'), w')"
      and "fd' < 0 \<longrightarrow> fd' = - 1 \<and> w_trace w' = w_trace w1"
      and "0 \<le> fd' \<longrightarrow> (\<exists>d \<in> set dirs. path' = Some (d @ name) \<and> w_trace w' = w_trace w1 @ [EvOpen (d @ name) fd'])"
      and "w_files w' = w_files w1"
      using Cons.IH [of "Some (dir @ name)" w1] by blast
    then show ?thesis unfolding eq t o(4)
      by (intro exI [of _ fd'] exI [of _ err'] exI [of _ path'] exI [of _ w']) auto
  next
    case False
    then have "partition_by_name_loop (dir # dirs) name out w = (Done (fd, err, Some (dir @ name)), w1)"
      using o(1) by (cases "fd = - 1") (simp_all add: bnd_def ret_eq)
    with o show ?thesis by (auto simp: opens_def)
  qed
qed

lemma open_attempts_shape:
  "fd < 0 \<Longrightarrow> \<exists>fd' w'. open_attempts n path fd w = (Done fd', w') \<and>
     w_trace w' = w_trace w @ opens path fd' \<and> w_files w' = w_files w"
proof (induction n arbitrary: fd w)
  case 0
  then show ?case by (simp add: ret_eq opens_def)
next
  case (Suc n)
  obtain fd1 w1 where o: "sys_open path w = (Done fd1, w1)" "w_trace w1 = w_trace w @ opens path fd1"
    "w_files w1 = w_files w" using sys_open_shape by metis
  show ?case
  proof (cases "fd1 < 0")
    case True
    with Suc.IH [OF True, of w1] o Suc.prems show ?thesis by (simp add: bnd_def opens_def)
  next
    case False
    with o Suc.prems show ?thesis by (cases n) (auto simp: bnd_def ret_eq)
  qed
qed

section \<open>Attributes\<close>

definition linux_attributes :: "string set" where
  "linux_attributes = {XMM626_KERNEL_LINUX_EHCI_POWER_SYSFS, XMM626_KERNEL_LINUX_LINK_ACTIVE_PATH,
     XMM626_KERNEL_LINUX_POWER_PATH, XMM626_KERNEL_LINUX_PDA_ACTIVE_SYSFS, XMM626_KERNEL_LINUX_SLAVEWAKE_SYSFS}"

lemma stable_sysfs_value_read: "file_stable J \<Longrightarrow> stable J (sysfs_value_read path)"
  by (auto simp: sysfs_value_read_def intro!: stable_intros split: option.split)

lemma keeps_sysfs_value_read: "keeps S (sysfs_value_read path)"
  by (auto simp: sysfs_value_read_def intro!: keeps_intros split: option.split)

lemma adds_value_read: "adds Q (sysfs_value_read path)"
  by (rule adds_unchanged [OF unchanged_stable]) (rule stable_sysfs_value_read [OF trace_stable])

lemma adds_linux:
  "adds Q (xmm626_kernel_linux_modem_power v)" "adds Q (xmm626_kernel_linux_modem_hci_power v)"
  by (auto simp: xmm626_kernel_linux_modem_power_def xmm626_kernel_linux_modem_hci_power_def
      intro!: adds_intros adds_value_read)

lemma keeps_linux:
  "keeps linux_attributes (xmm626_kernel_linux_modem_power v)"
  "keeps linux_attributes (xmm626_kernel_linux_modem_hci_power v)"
  by (auto simp: xmm626_kernel_linux_modem_power_def xmm626_kernel_linux_modem_hci_power_def linux_attributes_def
      intro!: keeps_intros keeps_sysfs_value_read keeps_sysfs_value_write)

lemma generic_steps:
  "adds Q generic_turn_on" "adds Q generic_relink"
  "keeps linux_attributes generic_turn_on" "keeps linux_attributes generic_relink"
  by (auto simp: generic_turn_on_def generic_relink_def xmm626_kernel_linux_modem_link_get_hostwake_wait_def
      intro!: adds_intros adds_linux keeps_intros keeps_linux)

text \<open>
  Whatever \<open>hostwake\<close> cannot be read as, the wake line is toggled: a failed read gives -1, which is
  not zero.
\<close>

lemma hostwake_missing_toggles:
  assumes "w_files w XMM626_KERNEL_LINUX_HOSTWAKE_PATH = None"
  shows "\<exists>w'. sysfs_value_read (Some XMM626_KERNEL_LINUX_HOSTWAKE_PATH) w = (Done (- 1), w')"
  using assms by (simp add: sysfs_value_read_def bnd_def sys_open_read_def ret_eq)

text \<open>A descriptor with data makes \<open>generic_kernel_poll\<close> fail.\<close>

lemma generic_kernel_poll_ready_fails:
  assumes "generic_kernel_poll fd fds w = (Done r, w')" and "fd_set_ok fd" and "0 \<le> shd (w_sel w)"
  shows "fd \<notin> set (shd (w_ready w))"
  using assms
  by (auto simp: generic_kernel_poll_def io_Done sys_select_set_def poll_set_def Let_def fail_eq
      split: if_splits option.splits)

section \<open>How booting goes\<close>

lemma generic_quiet:
  "generic_turn_on w = (r, w') \<Longrightarrow> w_trace w' = w_trace w" "generic_relink w = (r, w') \<Longrightarrow> w_trace w' = w_trace w"
  using addsD [OF generic_steps(1) [of "\<lambda>_. False"]] addsD [OF generic_steps(2) [of "\<lambda>_. False"]] by fastforce+

lemma close_two_valid_shape:
  "bnd (close_valid a) (\<lambda>_. close_valid b) w = (Done (), w\<lparr>w_trace := w_trace w @ closes a @ closes b\<rparr>)"
  by (simp add: bnd_def close_valid_shape)

lemma generic_boot_shape:
  assumes "generic_boot md5 (Some c) w = (r, w')" "r \<noteq> Undef"
  obtains dir ifd fd w1 r1 w2 where
    "w_trace w1 = w_trace w @ opens (dir @ ''RADIO'') ifd @ opens XMM626_KERNEL_LINUX_BOOT0_DEVICE fd"
    "\<forall>q. q \<notin> linux_attributes \<longrightarrow> w_files w1 q = w_files w q"
    "if fd < 0 then r1 = Fail \<and> w2 = w1
     else dir \<in> set partitions_dirnames \<and> 0 \<le> ifd \<and>
       bnd (boot_load generic_image md5 (Some c) fd (take (bi_size generic_image) (file_of w (dir @ ''RADIO''))))
         (\<lambda>_. generic_relink) w1 = (r1, w2)"
    "r1 \<noteq> Undef" "r = Done () \<longleftrightarrow> r1 = Done ()"
    "w' = w2\<lparr>w_trace := w_trace w2 @ closes ifd @ closes fd\<rparr>"
proof -
  let ?n = "bi_size generic_image"
  obtain ifd err path v1 where p: "open_android_modem_partition_by_name ''RADIO'' w = (Done (ifd, err, path), v1)"
      "ifd < 0 \<longrightarrow> ifd = - 1 \<and> w_trace v1 = w_trace w"
      "0 \<le> ifd \<longrightarrow> (\<exists>dir \<in> set partitions_dirnames. path = Some (dir @ ''RADIO'') \<and>
         w_trace v1 = w_trace w @ [EvOpen (dir @ ''RADIO'') ifd])"
      "w_files v1 = w_files w"
    unfolding open_android_modem_partition_by_name_def
    using partition_by_name_shape [of partitions_dirnames "''RADIO''" None w] by blast
  obtain mem v2 where m: "(if ifd = - 1 then ret None else sys_mmap (the path) ?n) v1 = (Done mem, v2)"
      "ifd = - 1 \<longrightarrow> mem = None" "mem = None \<or> mem = Some (take ?n (file_of v1 (the path)))"
      "w_trace v2 = w_trace v1" "w_files v2 = w_files v1"
    using mmap_if_shape by blast
  obtain r3 v3 where t: "(if mem = None then fail else generic_turn_on) v2 = (r3, v3)"
    by (cases "(if mem = None then fail else generic_turn_on) v2") blast
  have t3: "w_trace v3 = w_trace v2" "q \<notin> linux_attributes \<Longrightarrow> w_files v3 q = w_files v2 q" for q
    using t generic_quiet(1) keepsD [OF generic_steps(3)] by (auto simp: fail_eq split: if_splits)
  have b1: "bnd (open_android_modem_partition_by_name ''RADIO'') g w = g (ifd, err, path) v1"
    for g :: "int \<times> int \<times> string option \<Rightarrow> unit io" by (rule bnd_Done, rule p(1))
  have b2: "bnd (if ifd = - 1 then ret None else sys_mmap (the path) ?n) g v1 = g mem v2"
    for g :: "u8 list option \<Rightarrow> unit io" by (rule bnd_Done, rule m(1))
  have "r3 \<noteq> Undef"
    using assms unfolding generic_boot_def
    by (auto simp only: option.simps if_False b1 b2 prod.case) (simp add: bnd_def try_rc_def t)
  then obtain rc where rc: "try_rc (if mem = None then fail else generic_turn_on) v2 = (Done rc, v3)"
      "mem = None \<longrightarrow> rc < 0"
    using t by (cases mem; cases r3) (auto simp: try_rc_def fail_eq)
  have b3: "bnd (try_rc (if mem = None then fail else generic_turn_on)) g v2 = g rc v3"
    for g :: "int \<Rightarrow> unit io" by (rule bnd_Done, rule rc(1))
  obtain fd v4 where o: "(if rc < 0 then ret (- 1) else open_attempts 10000 XMM626_KERNEL_LINUX_BOOT0_DEVICE (- 1)) v3 = (Done fd, v4)"
      "rc < 0 \<longrightarrow> fd = - 1" "w_trace v4 = w_trace v3 @ opens XMM626_KERNEL_LINUX_BOOT0_DEVICE fd" "w_files v4 = w_files v3"
    using open_attempts_shape [of "- 1" 10000 XMM626_KERNEL_LINUX_BOOT0_DEVICE v3]
    by (cases "rc < 0") (auto simp: ret_eq opens_def)
  have b4: "bnd (if rc < 0 then ret (- 1) else open_attempts 10000 XMM626_KERNEL_LINUX_BOOT0_DEVICE (- 1)) g v3 = g fd v4"
    for g :: "int \<Rightarrow> unit io" by (rule bnd_Done, rule o(1))
  have "complete (if fd < 0 then fail
         else bnd (boot_load generic_image md5 (Some c) fd (the mem)) (\<lambda>_. generic_relink))
      (bnd (close_valid ifd) (\<lambda>_. close_valid fd)) v4 = (r, w')"
    using assms(1) unfolding generic_boot_def by (simp only: option.simps if_False b1 b2 b3 b4 prod.case)
  from complete_shape [OF this close_two_valid_shape assms(2)]
  obtain r1 w2 where body: "(if fd < 0 then fail
         else bnd (boot_load generic_image md5 (Some c) fd (the mem)) (\<lambda>_. generic_relink)) v4 = (r1, w2)"
      and r1: "r1 \<noteq> Undef" "r = Done () \<longleftrightarrow> r1 = Done ()" "w' = w2\<lparr>w_trace := w_trace w2 @ closes ifd @ closes fd\<rparr>" .
  obtain dir where dir: "w_trace v1 = w_trace w @ opens (dir @ ''RADIO'') ifd"
      "0 \<le> ifd \<longrightarrow> dir \<in> set partitions_dirnames \<and> path = Some (dir @ ''RADIO'')"
    using p(2,3) by (cases "0 \<le> ifd") (auto simp: opens_def)
  have i: "0 \<le> fd \<longrightarrow> 0 \<le> ifd \<and> mem = Some (take ?n (file_of w (dir @ ''RADIO'')))"
    using p(2,4) m(2,3) rc(2) o(2) dir(2) by (auto simp: file_of_def not_less)
  show ?thesis
  proof (rule that [of v4 dir ifd fd r1 w2])
    show "if fd < 0 then r1 = Fail \<and> w2 = v4
      else dir \<in> set partitions_dirnames \<and> 0 \<le> ifd \<and>
       bnd (boot_load generic_image md5 (Some c) fd (take ?n (file_of w (dir @ ''RADIO''))))
         (\<lambda>_. generic_relink) v4 = (r1, w2)"
      using body i dir(2) by (auto simp: fail_eq)
  qed (use dir(1) p(4) m o t3 r1 in simp_all)
qed

lemma generic_body_Done:
  assumes cfg: "nv_configured c p m bp bm secret sz ck" and paths: "{p, m} \<inter> linux_attributes = {}"
    and run: "bnd (boot_load generic_image md5 (Some c) fd mem) (\<lambda>_. generic_relink) w = (Done (), w')"
  shows "\<exists>nv out. boot_bytes generic_image mem nv out \<and> sent fd w' = sent fd w @ out \<and>
    w_files w' p = Some nv \<and> nv_valid md5 secret sz (w_files w') p m"
proof -
  obtain u w1 where l: "boot_load generic_image md5 (Some c) fd mem w = (Done u, w1)" and s: "generic_relink w1 = (Done (), w')"
    using run unfolding bnd_eq_Done by blast
  have psi: "bi_psi_size generic_image \<noteq> 0" by (simp add: generic_image_def)
  have "w_files w' p = w_files w1 p" "w_files w' m = w_files w1 m"
    by (rule keepsD [OF generic_steps(4) s], use paths in blast)+
  with boot_load_Done [OF cfg l psi] generic_quiet(2) [OF s] show ?thesis
    by (auto simp: sent_def nv_valid_def)
qed

text \<open>
  C6: however booting the generic device ends, it has closed just the descriptors it opened; when
  it succeeds, the image is that of the partition \<open>RADIO\<close> in one of the two directories, the boot
  device was sent the eight stages with the parts of this image and the stored NV data, and the NV
  data is valid.
\<close>

theorem generic_boot_loads_modem:
  assumes cfg: "nv_configured c p m bp bm secret sz ck" and paths: "{p, m} \<inter> linux_attributes = {}"
    and boot: "generic_boot md5 (Some c) w = (r, w')" "r \<noteq> Undef"
  shows "\<exists>es. w_trace w' = w_trace w @ es \<and> opened es = closed es \<and>
    (r = Done () \<longrightarrow> (\<exists>dir ifd fd nv out. dir \<in> set partitions_dirnames \<and> opened es = [ifd, fd] \<and>
      EvOpen (dir @ ''RADIO'') ifd \<in> set es \<and>
      boot_bytes generic_image (take 0x1000000 (file_of w (dir @ ''RADIO''))) nv out \<and>
      sent fd w' = sent fd w @ out \<and> w_files w' p = Some nv \<and> nv_valid md5 secret sz (w_files w') p m))"
proof (rule generic_boot_shape [OF boot])
  fix dir ifd fd w1 r1 w2
  let ?mem = "take (bi_size generic_image) (file_of w (dir @ ''RADIO''))"
  assume tr: "w_trace w1 = w_trace w @ opens (dir @ ''RADIO'') ifd @ opens XMM626_KERNEL_LINUX_BOOT0_DEVICE fd"
    and st: "if fd < 0 then r1 = Fail \<and> w2 = w1
     else dir \<in> set partitions_dirnames \<and> 0 \<le> ifd \<and>
       bnd (boot_load generic_image md5 (Some c) fd ?mem) (\<lambda>_. generic_relink) w1 = (r1, w2)"
    and r: "r = Done () \<longleftrightarrow> r1 = Done ()" and w': "w' = w2\<lparr>w_trace := w_trace w2 @ closes ifd @ closes fd\<rparr>"
  have "adds transfer (bnd (boot_load generic_image md5 (Some c) fd ?mem) (\<lambda>_. generic_relink))"
    by (intro adds_intros generic_steps)
  with st obtain es where es: "w_trace w2 = w_trace w1 @ es" "\<forall>e \<in> set es. transfer e"
    using addsD by (cases "fd < 0") fastforce+
  note n = transfer_neither [OF es(2)]
  let ?es = "opens (dir @ ''RADIO'') ifd @ opens XMM626_KERNEL_LINUX_BOOT0_DEVICE fd @ es @ closes ifd @ closes fd"
  have e: "w_trace w' = w_trace w @ ?es" "opened ?es = closed ?es" using tr es(1) n w' by (simp_all add: opens_def closes_def)
  have "\<exists>dir ifd fd nv out. dir \<in> set partitions_dirnames \<and> opened ?es = [ifd, fd] \<and>
      EvOpen (dir @ ''RADIO'') ifd \<in> set ?es \<and>
      boot_bytes generic_image (take 0x1000000 (file_of w (dir @ ''RADIO''))) nv out \<and>
      sent fd w' = sent fd w @ out \<and> w_files w' p = Some nv \<and> nv_valid md5 secret sz (w_files w') p m"
    if "r = Done ()"
  proof -
    from that r st have d: "dir \<in> set partitions_dirnames" "0 \<le> ifd" "0 \<le> fd"
      and run: "bnd (boot_load generic_image md5 (Some c) fd ?mem) (\<lambda>_. generic_relink) w1 = (Done (), w2)"
      by (auto split: if_splits)
    obtain nv out where l: "boot_bytes generic_image ?mem nv out" "sent fd w2 = sent fd w1 @ out"
        "w_files w2 p = Some nv" "nv_valid md5 secret sz (w_files w2) p m"
      using generic_body_Done [OF cfg paths run] by blast
    have "sent fd w1 = sent fd w" using tr by (simp add: sent_def opens_def)
    moreover have "sent fd w' = sent fd w2" using w' by (simp add: sent_def closes_def)
    moreover have "EvOpen (dir @ ''RADIO'') ifd \<in> set ?es" using d by (simp add: opens_def)
    moreover have "opened ?es = [ifd, fd]" using d n by (simp add: opens_def closes_def)
    moreover have "?mem = take 0x1000000 (file_of w (dir @ ''RADIO''))" by (simp add: generic_image_def)
    ultimately show ?thesis using d(1) l w' by (intro exI [of _ dir] exI [of _ ifd] exI [of _ fd] exI [of _ nv] exI [of _ out]) simp
  qed
  with e show ?thesis by blast
qed

section \<open>A kernel and a modem that answer\<close>

text \<open>The attributes exist, and \<open>hostwake\<close> holds a digit.\<close>

definition generic_ok ::
  "(u8 list \<Rightarrow> u8 list) \<Rightarrow> u8 list \<Rightarrow> nat \<Rightarrow> string \<Rightarrow> string \<Rightarrow> world \<Rightarrow> bool" where
  "generic_ok md5 secret sz p m w \<longleftrightarrow> boot_ok md5 secret sz p m w \<and>
     (\<forall>q \<in> linux_attributes. w_files w q \<noteq> None) \<and>
     w_files w XMM626_KERNEL_LINUX_HOSTWAKE_PATH \<in> {Some [48, 10], Some [49, 10]}"

lemma linux_paths_apart:
  "ehci \<notin> linux_attributes" "XMM626_KERNEL_LINUX_HOSTWAKE_PATH \<notin> linux_attributes"
  by (simp_all add: linux_attributes_def linux_paths ehci_def)

lemma completes_attribute:
  assumes q: "q \<in> linux_attributes" and "{p, m} \<inter> linux_attributes = {}" and v: "v = 0 \<or> v = 1"
  shows "completes (generic_ok md5 secret sz p m) (sysfs_value_write (Some q) v) [] (\<lambda>_. True)"
proof (rule completesI)
  fix w :: world and rest
  assume w: "generic_ok md5 secret sz p m w" and rd: "w_rd w = map Some [] @- rest"
  then have host: "host_ok w" and ex: "w_files w q \<noteq> None" using q by (auto simp: generic_ok_def boot_ok_def)
  obtain w' where r: "sysfs_value_write (Some q) v w = (Done (), w')" "w_files w' q \<noteq> None"
    using sysfs_digit_written [OF host ex v] by blast
  have k: "keeps {q} (sysfs_value_write (Some q) v)" by (rule keeps_sysfs_value_write) simp
  have same: "w_files w' x = w_files w x" if "x \<noteq> q" for x using keepsD [OF k r(1), of x] that by simp
  have "p \<noteq> q" "m \<noteq> q" "ehci \<noteq> q" "XMM626_KERNEL_LINUX_HOSTWAKE_PATH \<noteq> q"
    using assms(1,2) linux_paths_apart by auto
  then have same': "w_files w' p = w_files w p" "w_files w' m = w_files w m" "w_files w' ehci = w_files w ehci"
      "w_files w' XMM626_KERNEL_LINUX_HOSTWAKE_PATH = w_files w XMM626_KERNEL_LINUX_HOSTWAKE_PATH"
    using same by blast+
  have "w_files w' x \<noteq> None" if "x \<in> linux_attributes" for x
    using that w r(2) same [of x] by (cases "x = q") (auto simp: generic_ok_def)
  then have "generic_ok md5 secret sz p m w'"
    using w same' sysfs_keeps_host [OF r(1) host]
    by (simp add: generic_ok_def boot_ok_def boot_files_def nv_valid_def split: option.splits)
  then show "\<exists>a w'. sysfs_value_write (Some q) v w = (Done a, w') \<and> True \<and> generic_ok md5 secret sz p m w' \<and> w_rd w' = rest"
    using r(1) sysfs_keeps_host [OF r(1) host] rd by auto
qed

lemma completes_try_rc:
  "completes J k rs (\<lambda>_. True) \<Longrightarrow> completes J (try_rc k) rs (\<lambda>rc. rc = 0)" for k :: "unit io"
  by (rule completesI) (drule (2) completesD, fastforce simp: try_rc_def)

lemma completes_hostwake:
  "completes (generic_ok md5 secret sz p m) (sysfs_value_read (Some XMM626_KERNEL_LINUX_HOSTWAKE_PATH)) [] (\<lambda>_. True)"
proof (rule completesI)
  fix w :: world and rest
  assume w: "generic_ok md5 secret sz p m w" and rd: "w_rd w = map Some [] @- rest"
  let ?h = XMM626_KERNEL_LINUX_HOSTWAKE_PATH
  obtain c where c: "w_files w ?h = Some [c, 10]" "c = 48 \<or> c = 49" using w by (auto simp: generic_ok_def)
  have f: "\<forall>x \<in> sset (w_fio w). 2 \<le> x" using w by (simp add: generic_ok_def boot_ok_def host_ok_def)
  then have "2 \<le> shd (w_fio w)" "2 \<le> shd (stl (w_fio w))" by (meson shd_sset stl_sset)+
  then have n: "take (min 100 (max 1 (nat (shd (stl (w_fio w)))))) [c, 10] = [c, 10]" by simp
  obtain v where v: "atoi [c, 10] = Done v" using c(2) by (auto simp: isspace_def)
  let ?w' = "w\<lparr>w_fio := stl (stl (w_fio w))\<rparr>"
  have "sysfs_value_read (Some ?h) w = (Done v, ?w')"
    using \<open>2 \<le> shd (w_fio w)\<close> \<open>2 \<le> shd (stl (w_fio w))\<close> c(1) n v
    by (simp add: sysfs_value_read_def bnd_def sys_open_read_def sys_file_read_def file_of_def Let_def lift_outcome_eq del: take_Cons')
  moreover have "generic_ok md5 secret sz p m ?w'"
    using w by (auto simp: generic_ok_def boot_ok_def host_ok_def willing_def dest!: stl_sset)
  ultimately show "\<exists>a w'. sysfs_value_read (Some ?h) w = (Done a, w') \<and> True \<and> generic_ok md5 secret sz p m w' \<and> w_rd w' = rest"
    using rd by simp
qed

lemma completes_linux:
  assumes paths: "{p, m} \<inter> linux_attributes = {}" and v: "v = 0 \<or> v = 1"
  shows "completes (generic_ok md5 secret sz p m) (xmm626_kernel_linux_modem_power v) [] (\<lambda>_. True)"
    "completes (generic_ok md5 secret sz p m) (xmm626_kernel_linux_modem_hci_power v) [] (\<lambda>_. True)"
proof -
  have a: "completes (generic_ok md5 secret sz p m) (try_rc (sysfs_value_write (Some q) u)) [] (\<lambda>rc. rc = 0)"
    if "q \<in> linux_attributes" "u = 0 \<or> u = 1" for q u
    by (rule completes_try_rc) (rule completes_attribute [OF that(1) paths that(2)])
  show "completes (generic_ok md5 secret sz p m) (xmm626_kernel_linux_modem_power v) [] (\<lambda>_. True)"
    using v by (auto simp: xmm626_kernel_linux_modem_power_def truth_def linux_attributes_def intro!: completes_attribute paths)
  have toggle: "completes (generic_ok md5 secret sz p m)
      (if h \<noteq> 0 then
        bnd (try_rc (sysfs_value_write (Some XMM626_KERNEL_LINUX_SLAVEWAKE_SYSFS) 0)) (\<lambda>rc0.
        bnd (try_rc (sysfs_value_write (Some XMM626_KERNEL_LINUX_SLAVEWAKE_SYSFS) 1)) (\<lambda>rc1.
        ret (ohci_rc OR rc0 OR rc1)))
       else ret ohci_rc) [] (\<lambda>rc. rc = 0)" if "ohci_rc = 0" for h ohci_rc :: int
    using that by (auto simp: linux_attributes_def intro!: completes_then [OF a] completes_ret)
  show "completes (generic_ok md5 secret sz p m) (xmm626_kernel_linux_modem_hci_power v) [] (\<lambda>_. True)"
    unfolding xmm626_kernel_linux_modem_hci_power_def truth_def
    using v by (auto simp: linux_attributes_def
      intro!: completes_then [OF a] completes_then [OF completes_hostwake] completes_then [OF toggle] completes_check)
qed

lemma bnd_ret: "bnd (ret a) f = f a"
  by (simp add: fun_eq_iff bnd_def ret_eq)

lemma completes_generic_steps:
  assumes "{p, m} \<inter> linux_attributes = {}"
  shows "completes (generic_ok md5 secret sz p m) generic_turn_on [] (\<lambda>_. True)"
    "completes (generic_ok md5 secret sz p m) generic_relink [] (\<lambda>_. True)"
proof -
  note c = completes_linux [OF assms]
  have 01: "(0::int) = 0 \<or> (0::int) = 1" "(1::int) = 0 \<or> (1::int) = 1" by simp_all
  show "completes (generic_ok md5 secret sz p m) generic_turn_on [] (\<lambda>_. True)"
    unfolding generic_turn_on_def
    by (rule completes_then [OF c(1) [OF 01(1)]], rule completes_then [OF c(2) [OF 01(1)]],
      rule completes_then [OF completes_try_rc [OF c(1) [OF 01(2)]]], rule c(2) [OF 01(2)])
  show "completes (generic_ok md5 secret sz p m) generic_relink [] (\<lambda>_. True)"
    unfolding generic_relink_def xmm626_kernel_linux_modem_link_get_hostwake_wait_def bnd_ret
    by (rule completes_then [OF c(2) [OF 01(1)]], rule c(2) [OF 01(2)])
qed

lemma keeps_boot_load:
  assumes "nv_configured c p m bp bm secret sz ck"
  shows "keeps {p, m, bp, bm} (boot_load img md5 (Some c) fd mem)"
proof -
  have blind: "device_blind w_files" by (simp add: device_blind_def)
  have k: "unchanged w_files n \<Longrightarrow> keeps {p, m, bp, bm} n" for n :: "'a io"
    by (auto simp: unchanged_def keeps_def)
  have part: "keeps {p, m, bp, bm} (image_part a b mem)" for a b
    by (auto simp: keeps_def image_part_def lift_outcome_eq)
  have keeps_snd: "keeps {p, m, bp, bm} (xmm626_hsic_modem_data_send fd data address)" "keeps {p, m, bp, bm} fail"
    for data address by (rule k, rule unchanged_hsic_stages, rule blind) (simp add: keeps_def fail_eq)
  have nv: "keeps {p, m, bp, bm} (xmm626_hsic_nv_data_send md5 (Some c) fd)"
    unfolding xmm626_hsic_nv_data_send_def
    by (auto intro!: keeps_bnd nv_device.keeps_load [OF nv_deviceI [OF assms]] keeps_snd)
  show ?thesis
    unfolding boot_load_def by (intro keeps_bnd nv part k unchanged_hsic_stages blind)
qed

lemma completes_generic_body:
  assumes cfg: "nv_configured c p m bp bm secret sz ck" and fd: "0 \<le> fd"
    and paths: "{p, m, bp, bm} \<inter> (insert ehci (insert XMM626_KERNEL_LINUX_HOSTWAKE_PATH linux_attributes)) = {}"
    and mem: "length mem = bi_size generic_image" and rs: "boot_answers rs"
  shows "completes (generic_ok md5 secret sz p m)
    (bnd (boot_load generic_image md5 (Some c) fd mem) (\<lambda>_. generic_relink)) rs (\<lambda>_. True)"
proof -
  have fits: "image_fits generic_image mem" using mem by (simp add: image_fits_def generic_image_def)
  have e: "ehci \<notin> {p, m, bp, bm}" and pm: "{p, m} \<inter> linux_attributes = {}" using paths by auto
  have load: "completes (generic_ok md5 secret sz p m) (boot_load generic_image md5 (Some c) fd mem) rs (\<lambda>_. True)"
  proof (rule completesI)
    fix w :: world and rest
    assume w: "generic_ok md5 secret sz p m w" and rd: "w_rd w = map Some rs @- rest"
    from completesD [OF completes_boot_load [OF cfg e fd fits rs] _ rd, of md5] w
    obtain a w' where r: "boot_load generic_image md5 (Some c) fd mem w = (Done a, w')" "boot_ok md5 secret sz p m w'"
      "w_rd w' = rest" unfolding generic_ok_def by blast
    have same: "w_files w' q = w_files w q" if "q \<in> insert XMM626_KERNEL_LINUX_HOSTWAKE_PATH linux_attributes" for q
      by (rule keepsD [OF keeps_boot_load [OF cfg] r(1)]) (use that paths in blast)
    have "generic_ok md5 secret sz p m w'"
      using w r(2) same by (simp add: generic_ok_def)
    with r show "\<exists>a w'. boot_load generic_image md5 (Some c) fd mem w = (Done a, w') \<and> True \<and>
        generic_ok md5 secret sz p m w' \<and> w_rd w' = rest" by blast
  qed
  from completes_bnd [OF load completes_generic_steps(2) [OF pm]] show ?thesis by simp
qed

lemma stable_generic_turn_on: "file_stable J \<Longrightarrow> stable J generic_turn_on"
  by (auto simp: generic_turn_on_def xmm626_kernel_linux_modem_power_def xmm626_kernel_linux_modem_hci_power_def
      intro!: stable_intros stable_sysfs_value_read)

lemma open_attempts_first:
  "w_open w = fd ## fds \<Longrightarrow> 0 \<le> fd \<Longrightarrow> open_attempts (Suc n) path (- 1) w =
     (Done fd, w\<lparr>w_open := fds, w_trace := w_trace w @ [EvOpen path fd]\<rparr>)"
  by (cases n) (simp_all add: bnd_def sys_open_def ret_eq Let_def)

text \<open>
  With the partition in the second directory, a complete image and a modem that answers, the
  device boots.
\<close>

lemma generic_boot_completes:
  assumes cfg: "nv_configured c p m bp bm secret sz ck"
    and paths: "{p, m, bp, bm} \<inter> (insert ehci (insert XMM626_KERNEL_LINUX_HOSTWAKE_PATH linux_attributes)) = {}"
    and ok: "generic_ok md5 secret sz p m w" and op: "w_open w = - 2 ## ifd ## fd ## fds" "0 \<le> ifd" "0 \<le> fd"
    and img: "length (file_of w ''/dev/block/by-name/RADIO'') = bi_size generic_image"
    and rs: "boot_answers rs" and rd: "w_rd w = map Some rs @- rest"
  shows "\<exists>w'. generic_boot md5 (Some c) w = (Done (), w')"
proof -
  let ?mem = "take (bi_size generic_image) (file_of w ''/dev/block/by-name/RADIO'')"
  define v1 where "v1 = w\<lparr>w_open := fd ## fds, w_trace := w_trace w @ [EvOpen ''/dev/block/by-name/RADIO'' ifd]\<rparr>"
  have p: "open_android_modem_partition_by_name ''RADIO'' w = (Done (ifd, 0, Some ''/dev/block/by-name/RADIO''), v1)"
    using op by (simp add: open_android_modem_partition_by_name_def partitions_dirnames_def sys_open_errno_def
        bnd_def sys_open_def ret_eq ENOENT_def v1_def Let_def)
  have fio: "\<not> shd (w_fio w) < 0" using ok by (force simp: generic_ok_def boot_ok_def host_ok_def dest: bspec [OF _ shd_sset])
  define v2 where "v2 = v1\<lparr>w_fio := stl (w_fio v1)\<rparr>"
  have m: "sys_mmap ''/dev/block/by-name/RADIO'' (bi_size generic_image) v1 = (Done (Some ?mem), v2)"
    using fio by (simp add: sys_mmap_def v1_def v2_def file_of_def)
  have pm: "{p, m} \<inter> linux_attributes = {}" using paths by auto
  have ok2: "generic_ok md5 secret sz p m v2" "w_rd v2 = map Some [] @- w_rd w"
    using ok by (auto simp: generic_ok_def boot_ok_def host_ok_def willing_def v1_def v2_def dest!: stl_sset)
  from completesD [OF completes_generic_steps(1) [OF pm] ok2] obtain u v3 where
    t: "generic_turn_on v2 = (Done u, v3)" "generic_ok md5 secret sz p m v3" "w_rd v3 = w_rd w" by blast
  have "file_stable (\<lambda>v. w_open v = fd ## fds)" by (simp add: file_stable_def)
  from stableD [OF stable_generic_turn_on [OF this] t(1)] have o3: "w_open v3 = fd ## fds" by (simp add: v2_def v1_def)
  define v4 where "v4 = v3\<lparr>w_open := fds, w_trace := w_trace v3 @ [EvOpen XMM626_KERNEL_LINUX_BOOT0_DEVICE fd]\<rparr>"
  have o: "open_attempts 10000 XMM626_KERNEL_LINUX_BOOT0_DEVICE (- 1) v3 = (Done fd, v4)"
    using open_attempts_first [OF o3 op(3), where n = 9999] by (simp add: v4_def)
  have ok4: "generic_ok md5 secret sz p m v4" "w_rd v4 = map Some rs @- rest"
    using t(2,3) rd by (auto simp: generic_ok_def boot_ok_def host_ok_def willing_def v4_def)
  have "length ?mem = bi_size generic_image" using img by simp
  from completesD [OF completes_generic_body [OF cfg op(3) paths this rs, of md5] ok4] obtain w2 where
    b: "bnd (boot_load generic_image md5 (Some c) fd ?mem) (\<lambda>_. generic_relink) v4 = (Done (), w2)" by auto
  have "try_rc generic_turn_on v2 = (Done 0, v3)" using t(1) by (simp add: try_rc_def)
  then show ?thesis
    using op by (simp add: generic_boot_def bnd_def p m o) (simp add: complete_def try_rc_def b [unfolded bnd_def] bnd_def close_valid_shape check_eq)
qed

definition demo_generic_world :: world where
  "demo_generic_world = demo_nv_world\<lparr>w_sel := sconst 1, w_wr := sconst 0x8000, w_ioc := sconst 1, w_fio := sconst 2,
     w_open := - 2 ## 3 ## 4 ## sconst 5, w_rd := map Some demo_answers @- sconst None, w_trace := [],
     w_files := (\<lambda>q. if q \<in> linux_attributes then Some [48, 10]
       else if q = XMM626_KERNEL_LINUX_HOSTWAKE_PATH then Some [49, 10]
       else if q = ehci then Some [48, 10]
       else if q \<in> {''/dev/disk/by-partlabel/RADIO'', ''/dev/block/by-name/RADIO''} then Some (calloc 0x1000000)
       else w_files demo_nv_world q)\<rparr>"

lemma linux_attributes_apart:
  "''nv'' \<notin> linux_attributes" "''nv.md5'' \<notin> linux_attributes" "''bak'' \<notin> linux_attributes"
  "''bak.md5'' \<notin> linux_attributes" "''/dev/block/by-name/RADIO'' \<notin> linux_attributes"
  by (simp_all add: linux_attributes_def linux_paths)

lemma demo_generic_ok: "generic_ok demo_md5 [7] 5 ''nv'' ''nv.md5'' demo_generic_world"
  using demo_nv_valid linux_attributes_apart linux_paths_apart
  by (auto simp: generic_ok_def boot_ok_def host_ok_def willing_def boot_files_def demo_generic_world_def ehci_def
      XMM626_KERNEL_LINUX_HOSTWAKE_PATH_def nv_valid_def split: option.splits)

theorem generic_boot_loads_modem_witness:
  "\<exists>w' ifd fd nv out. generic_boot demo_md5 (Some demo_env) demo_generic_world = (Done (), w') \<and>
     opened (w_trace w') = [ifd, fd] \<and> closed (w_trace w') = [ifd, fd] \<and>
     boot_bytes generic_image (calloc 0x1000000) nv out \<and>
     sent fd w' = out \<and> w_files w' ''nv'' = Some nv"
proof -
  let ?w = demo_generic_world
  have t: "w_trace ?w = []" by (simp add: demo_generic_world_def)
  have f: "file_of ?w ''/dev/block/by-name/RADIO'' = calloc 0x1000000" "file_of ?w ''/dev/disk/by-partlabel/RADIO'' = calloc 0x1000000"
    by (simp_all add: demo_generic_world_def file_of_def linux_attributes_def linux_paths ehci_def demo_nv_world_def
      demo_world_def)
  have paths: "{''nv'', ''nv.md5'', ''bak'', ''bak.md5''} \<inter>
      insert ehci (insert XMM626_KERNEL_LINUX_HOSTWAKE_PATH linux_attributes) = {}"
    using linux_attributes_apart by (auto simp: ehci_def XMM626_KERNEL_LINUX_HOSTWAKE_PATH_def)
  have "\<exists>w'. generic_boot demo_md5 (Some demo_env) ?w = (Done (), w')"
  proof (rule generic_boot_completes [OF demo_configured paths demo_generic_ok _ _ _ _ demo_answers_ok])
    show "w_open ?w = - 2 ## 3 ## 4 ## sconst 5" "w_rd ?w = map Some demo_answers @- sconst None"
      by (simp_all add: demo_generic_world_def)
    show "length (file_of ?w ''/dev/block/by-name/RADIO'') = bi_size generic_image"
      unfolding f by (simp add: generic_image_def)
  qed simp_all
  then obtain w' where w': "generic_boot demo_md5 (Some demo_env) ?w = (Done (), w')" by blast
  have pm: "{''nv'', ''nv.md5''} \<inter> linux_attributes = {}" using linux_attributes_apart by simp
  from generic_boot_loads_modem [OF demo_configured pm w' outcome.distinct(3)]
  obtain es where tr: "w_trace w' = w_trace ?w @ es" "opened es = closed es" and
    body: "Done () = Done () \<longrightarrow> (\<exists>dir ifd fd nv out. dir \<in> set partitions_dirnames \<and> opened es = [ifd, fd] \<and>
      EvOpen (dir @ ''RADIO'') ifd \<in> set es \<and>
      boot_bytes generic_image (take 0x1000000 (file_of ?w (dir @ ''RADIO''))) nv out \<and>
      sent fd w' = sent fd ?w @ out \<and> w_files w' ''nv'' = Some nv \<and>
      nv_valid demo_md5 [7] 5 (w_files w') ''nv'' ''nv.md5'')"
    by (elim exE conjE) (rule that)
  obtain dir ifd fd nv out where g: "dir \<in> set partitions_dirnames" "opened es = [ifd, fd]"
      "boot_bytes generic_image (take 0x1000000 (file_of ?w (dir @ ''RADIO''))) nv out"
      "sent fd w' = sent fd ?w @ out" "w_files w' ''nv'' = Some nv"
    using mp [OF body refl] by (elim exE conjE) (rule that)
  have "take 0x1000000 (file_of ?w (dir @ ''RADIO'')) = calloc 0x1000000"
    using g(1) f by (auto simp: partitions_dirnames_def)
  with g w' show ?thesis
    by (intro exI [of _ w'] exI [of _ ifd] exI [of _ fd] exI [of _ nv] exI [of _ out]) (use tr in \<open>simp add: t sent_def\<close>)
qed

end
