(* ===== verification/Aries.thy ===== *)
theory Aries
  imports Crespo "HOL-Library.Multiset"
begin

text \<open>
  devices/aries/aries.c: the Galaxy S, whose XMM616 is loaded over a serial line and a shared memory,
  the onedram, and spoken to over Phonet sockets; and the functions of utils.c that switch a network
  interface.

  The options of sockets and the binding are calls with a descriptor and an argument, and appear in
  the trace like requests to a driver. Of the address of a socket only the resource it is bound to is
  modelled; the peer that \<open>recvfrom\<close> stores for later calls of \<open>sendto\<close> is left out.
\<close>

section \<open>Constants\<close>

definition ARIES_MODEM_IMAGE_SIZE :: nat where "ARIES_MODEM_IMAGE_SIZE = 0xA00000"
definition ARIES_PSI_SIZE :: nat where "ARIES_PSI_SIZE = 0x5000"
definition ARIES_ONEDRAM_NV_DATA_OFFSET :: nat where "ARIES_ONEDRAM_NV_DATA_OFFSET = 0xD80000"
definition ARIES_ONEDRAM_MEMORY_SIZE :: nat where "ARIES_ONEDRAM_MEMORY_SIZE = 0xFFF000"
definition ARIES_ONEDRAM_INIT :: u32 where "ARIES_ONEDRAM_INIT = 0x12341234"
definition ARIES_ONEDRAM_MAGIC :: u32 where "ARIES_ONEDRAM_MAGIC = 0x45674567"
definition ARIES_ONEDRAM_DEINIT :: u32 where "ARIES_ONEDRAM_DEINIT = 0xABCDABCD"
definition ARIES_SOCKET_RFS_MAGIC :: int where "ARIES_SOCKET_RFS_MAGIC = 0x80000"
definition ARIES_BUFFER_LENGTH :: nat where "ARIES_BUFFER_LENGTH = 4032"
definition ARIES_DATA_SIZE_LIMIT :: nat where "ARIES_DATA_SIZE_LIMIT = 0x80000"
definition SO_IPC_RFS :: u32 where "SO_IPC_RFS = 0x21"
definition ARIES_MODEM_FMT_SPN :: int where "ARIES_MODEM_FMT_SPN = 0x01"
definition ARIES_MODEM_RFS_SPN :: int where "ARIES_MODEM_RFS_SPN = 0x41"
definition ARIES_GPRS_IFACE_COUNT :: u32 where "ARIES_GPRS_IFACE_COUNT = 3"
definition ONEDRAM_REL_SEM :: u32 where "ONEDRAM_REL_SEM = IO_o 0x22"

text \<open>Of the headers of Linux; \<open>BIND\<close> only tells the call apart in the trace.\<close>

definition SIOCGIFFLAGS :: u32 where "SIOCGIFFLAGS = 0x8913"
definition SIOCSIFFLAGS :: u32 where "SIOCSIFFLAGS = 0x8914"
definition SIOCGIFINDEX :: u32 where "SIOCGIFINDEX = 0x8933"
definition SO_BINDTODEVICE :: u32 where "SO_BINDTODEVICE = 25"
definition SO_REUSEADDR :: u32 where "SO_REUSEADDR = 2"
definition BIND :: u32 where "BIND = 0xFFFFFFFF"
definition IFF_UP :: u16 where "IFF_UP = 1"

section \<open>Sockets and network interfaces\<close>

definition sys_socket :: "int io" where
  "sys_socket = sys_open ''socket''"

definition sys_setsockopt :: "int \<Rightarrow> u32 \<Rightarrow> int \<Rightarrow> int io" where
  "sys_setsockopt fd optname optval = sys_ioctl fd optname optval"

definition sys_bind :: "int \<Rightarrow> int \<Rightarrow> int io" where
  "sys_bind fd spn_resource = sys_ioctl fd BIND spn_resource"

text \<open>The flags the kernel stores are an answer of two bytes; \<open>ifr\<close> was cleared before.\<close>

definition get_flags :: "int \<Rightarrow> u16 option io" where
  "get_flags fd =
     bnd (sys_ioctl fd SIOCGIFFLAGS 0) (\<lambda>rc.
     if rc < 0 then ret None
     else bnd (sys_read 2) (\<lambda>r. ret (Some (case r of Some bs \<Rightarrow> get16 (bs @ calloc 2) | None \<Rightarrow> 0))))"

text \<open>Both functions of utils.c, with the change they make to the flags.\<close>

definition network_iface :: "(u16 \<Rightarrow> u16) \<Rightarrow> string option \<Rightarrow> unit io" where
  "network_iface change iface =
     (case iface of None \<Rightarrow> fail
      | Some _ \<Rightarrow>
          bnd sys_socket (\<lambda>fd.
          complete
            (if fd < 0 then fail
             else
               bnd (get_flags fd) (\<lambda>flags.
               case flags of None \<Rightarrow> fail
               | Some ifr_flags \<Rightarrow>
                   bnd (sys_ioctl fd SIOCSIFFLAGS (uint (change ifr_flags))) (\<lambda>rc. check (\<not> rc < 0))))
            (close_valid fd)))"

definition network_iface_up :: "string option \<Rightarrow> unit io" where
  "network_iface_up = network_iface (\<lambda>flags. or flags IFF_UP)"

definition network_iface_down :: "string option \<Rightarrow> unit io" where
  "network_iface_down = network_iface (\<lambda>flags. and flags (not IFF_UP))"

section \<open>Sending and receiving messages\<close>

text \<open>
  Here a return code of 0 is no error, and the loops go on: with a peer that takes or sends nothing
  they do not end, which is the value \<open>None\<close>.
\<close>

partial_function (option) aries_write_loop ::
  "(u8 list \<Rightarrow> int io) \<Rightarrow> u8 list \<Rightarrow> world \<Rightarrow> (unit outcome \<times> world) option" where
  "aries_write_loop wr p w =
     (if p = [] then Some (Done (), w)
      else
        (case wr (take ARIES_BUFFER_LENGTH p) w of
           (Done rc, w') \<Rightarrow>
             if rc < 0 then Some (Fail, w') else aries_write_loop wr (drop (nat rc) p) w'
         | (Fail, w') \<Rightarrow> Some (Fail, w')
         | (Undef, w') \<Rightarrow> Some (Undef, w')))"

partial_function (option) aries_read_loop ::
  "(nat \<Rightarrow> u8 list option io) \<Rightarrow> nat \<Rightarrow> u8 list \<Rightarrow> world \<Rightarrow> (u8 list outcome \<times> world) option" where
  "aries_read_loop rd sz acc w =
     (if sz \<le> length acc then Some (Done acc, w)
      else
        (case rd (min (sz - length acc) ARIES_BUFFER_LENGTH) w of
           (Done (Some bs), w') \<Rightarrow>
             if sz < length acc + length bs then Some (Undef, w') else aries_read_loop rd sz (acc @ bs) w'
         | (Done None, w') \<Rightarrow> Some (Fail, w')
         | (Fail, w') \<Rightarrow> Some (Fail, w')
         | (Undef, w') \<Rightarrow> Some (Undef, w')))"

text \<open>Going on after a step that returns.\<close>

definition and_then ::
  "'a io \<Rightarrow> ('a \<Rightarrow> world \<Rightarrow> ('b outcome \<times> world) option) \<Rightarrow> world \<Rightarrow> ('b outcome \<times> world) option" where
  "and_then m f w = (case m w of
       (Done a, w') \<Rightarrow> f a w'
     | (Fail, w') \<Rightarrow> Some (Fail, w')
     | (Undef, w') \<Rightarrow> Some (Undef, w'))"

definition aries_fmt_send :: "client_env \<Rightarrow> ipc_message option \<Rightarrow> world \<Rightarrow> (unit outcome \<times> world) option" where
  "aries_fmt_send client message =
     (case (handler_write client, message) of
        (Some wr, Some m) \<Rightarrow>
          and_then (lift_outcome (ipc_fmt_header_setup (Some (fmt_header_of (calloc 7))) (Some m))) (\<lambda>header.
          and_then (lift_outcome (frame_buffer (unat (fmt_length header)) (fmt_header_bytes header) m))
            (\<lambda>buffer. aries_write_loop wr buffer))
      | _ \<Rightarrow> (\<lambda>w. Some (Fail, w)))"

definition aries_rfs_send :: "client_env \<Rightarrow> ipc_message option \<Rightarrow> world \<Rightarrow> (unit outcome \<times> world) option" where
  "aries_rfs_send client message =
     (case (handler_write client, message) of
        (Some wr, Some m) \<Rightarrow>
          and_then (lift_outcome (ipc_rfs_header_setup (Some (rfs_header_of (calloc 6))) (Some m))) (\<lambda>header.
          and_then (lift_outcome (frame_buffer (unat (rfs_length header)) (rfs_header_bytes header) m))
            (\<lambda>buffer. aries_write_loop wr buffer))
      | _ \<Rightarrow> (\<lambda>w. Some (Fail, w)))"

text \<open>
  The first read, and the rest. The length of the header is not compared with the size of the header:
  for a smaller one the subtraction wraps, a block of nearly 4 GiB is not available, and the copy to
  the null pointer is undefined or, with nothing to copy, the next read fails on the null pointer.
\<close>

definition aries_recv_first :: "(nat \<Rightarrow> u8 list option io) \<Rightarrow> nat \<Rightarrow> u8 list io" where
  "aries_recv_first rd hdr =
     bnd (rd ARIES_BUFFER_LENGTH) (\<lambda>r.
       case r of None \<Rightarrow> fail
       | Some bs \<Rightarrow>
           if length bs > ARIES_BUFFER_LENGTH then undef
           else if length bs < hdr then fail
           else ret bs)"

definition aries_recv_rest ::
  "(nat \<Rightarrow> u8 list option io) \<Rightarrow> nat \<Rightarrow> nat \<Rightarrow> u8 list \<Rightarrow> ipc_message \<Rightarrow> world \<Rightarrow> (ipc_message outcome \<times> world) option" where
  "aries_recv_rest rd hdr len bs m w =
     (if len = hdr then Some (Done m, w)
      else if len < hdr then Some (if hdr < length bs then Undef else Fail, w)
      else
        let sz = len - hdr in
        and_then (lift_outcome (poke 0 (drop hdr bs) (calloc sz))) (\<lambda>_ w1.
          case aries_read_loop rd sz (drop hdr bs) w1 of
            Some (Done data, w2) \<Rightarrow> Some (Done (m\<lparr>msg_size := of_nat sz, msg_data := Some data\<rparr>), w2)
          | Some (Fail, w2) \<Rightarrow> Some (Fail, w2)
          | Some (Undef, w2) \<Rightarrow> Some (Undef, w2)
          | None \<Rightarrow> None) w)"

definition aries_fmt_recv ::
  "client_env \<Rightarrow> ipc_message option \<Rightarrow> world \<Rightarrow> (ipc_message outcome \<times> world) option" where
  "aries_fmt_recv client message =
     (case (handler_read client, message) of
        (Some rd, Some m0) \<Rightarrow>
          and_then (aries_recv_first rd sizeof_fmt_header) (\<lambda>bs.
          let header = fmt_header_of bs in
          and_then (lift_outcome (ipc_fmt_message_setup (Some header) (Some m0))) (\<lambda>m.
          aries_recv_rest rd sizeof_fmt_header (unat (fmt_length header)) bs m))
      | _ \<Rightarrow> (\<lambda>w. Some (Fail, w)))"

definition aries_rfs_recv ::
  "client_env \<Rightarrow> ipc_message option \<Rightarrow> world \<Rightarrow> (ipc_message outcome \<times> world) option" where
  "aries_rfs_recv client message =
     (case (handler_read client, message) of
        (Some rd, Some m0) \<Rightarrow>
          and_then (aries_recv_first rd sizeof_rfs_header) (\<lambda>bs.
          let header = rfs_header_of bs in
          and_then (check (\<not> unat (rfs_length header) > ARIES_DATA_SIZE_LIMIT)) (\<lambda>_.
          and_then (lift_outcome (ipc_rfs_message_setup (Some header) (Some m0))) (\<lambda>m.
          aries_recv_rest rd sizeof_rfs_header (unat (rfs_length header)) bs m)))
      | _ \<Rightarrow> (\<lambda>w. Some (Fail, w)))"

section \<open>Handlers\<close>

text \<open>
  The object is cleared first and gets the descriptor only when the socket is bound: after an earlier
  failure it holds descriptor 0, and the socket stays open.
\<close>

definition aries_open :: open_handler where
  "aries_open data type =
     (case data of None \<Rightarrow> fail
      | Some a \<Rightarrow>
          bnd (heap_set a 0) (\<lambda>_.
          let spn_resource = (if type = IPC_CLIENT_TYPE_FMT then ARIES_MODEM_FMT_SPN
            else if type = IPC_CLIENT_TYPE_RFS then ARIES_MODEM_RFS_SPN else 0) in
          bnd sys_socket (\<lambda>fd.
          bnd (check (\<not> fd < 0)) (\<lambda>_.
          bnd (sys_setsockopt fd SO_BINDTODEVICE 0) (\<lambda>rc.
          bnd (check (\<not> rc < 0)) (\<lambda>_.
          bnd (sys_ioctl fd SIOCGIFINDEX 0) (\<lambda>rc.
          bnd (check (\<not> rc < 0)) (\<lambda>_.
          bnd (sys_setsockopt fd SO_REUSEADDR 1) (\<lambda>rc.
          bnd (check (\<not> rc < 0)) (\<lambda>_.
          bnd (sys_bind fd spn_resource) (\<lambda>rc.
          bnd (check (\<not> rc < 0)) (\<lambda>_.
          bnd (heap_set a fd) (\<lambda>_.
          bnd (if type = IPC_CLIENT_TYPE_RFS
               then bnd (sys_setsockopt fd SO_IPC_RFS ARIES_SOCKET_RFS_MAGIC) (\<lambda>rc. check (\<not> rc < 0))
               else ret ()) (\<lambda>_.
          network_iface_up (Some ''svnet0'')))))))))))))))"

definition aries_close :: close_handler where
  "aries_close data =
     (case data of None \<Rightarrow> fail
      | Some a \<Rightarrow>
          bnd (heap_get a) (\<lambda>fd.
          if fd < 0 then fail else bnd (heap_set a (-1)) (\<lambda>_. sys_close fd)))"

definition aries_read :: read_handler where
  "aries_read data len =
     (case data of None \<Rightarrow> ret None
      | Some a \<Rightarrow>
          if len = 0 then ret None
          else bnd (heap_get a) (\<lambda>fd. if fd < 0 then ret None else sys_read len))"

definition aries_write :: write_handler where
  "aries_write data buffer =
     (case data of None \<Rightarrow> ret (-1)
      | Some a \<Rightarrow>
          if length buffer = 0 then ret (-1)
          else bnd (heap_get a) (\<lambda>fd. if fd < 0 then ret (-1) else sys_write fd buffer))"

definition aries_poll :: poll_handler where
  "aries_poll data fds =
     (case data of None \<Rightarrow> fail
      | Some a \<Rightarrow>
          bnd (heap_get a) (\<lambda>fd.
          if fd < 0 then fail
          else
            bnd (lift_outcome (poll_set fd fds)) (\<lambda>fdset.
            bnd (sys_select_set fdset) (\<lambda>(rc, ready).
            bnd (lift_outcome (poll_result ready fds)) (\<lambda>fds'. ret (rc, fds'))))))"

text \<open>A command for the modem's control, unless its status is already the one asked for.\<close>

definition aries_control :: "int \<Rightarrow> u8 list \<Rightarrow> unit io" where
  "aries_control already buffer =
     bnd (sysfs_value_read (Some ''/sys/class/modemctl/xmm/status'')) (\<lambda>value.
     if value < 0 then fail
     else if value = already then ret ()
     else sysfs_string_write (Some ''/sys/class/modemctl/xmm/control'') (Some buffer))"

definition aries_power_on :: power_handler where
  "aries_power_on data = aries_control 1 (ascii ''on'' @ [10])"

definition aries_power_off :: power_handler where
  "aries_power_off data = aries_control 0 (ascii ''off'' @ [10])"

definition aries_data_create ::
  "slot option \<Rightarrow> slot option \<Rightarrow> slot option \<Rightarrow> handler_data \<Rightarrow> handler_data io" where
  "aries_data_create transport_data power_data gprs_data d =
     (case transport_data of None \<Rightarrow> fail
      | Some s \<Rightarrow> bnd heap_calloc (\<lambda>a. ret (slot_set s (Some a) d)))"

definition aries_data_destroy :: "ptr \<Rightarrow> ptr \<Rightarrow> ptr \<Rightarrow> unit io" where
  "aries_data_destroy transport_data power_data gprs_data =
     (case transport_data of None \<Rightarrow> fail | Some a \<Rightarrow> heap_free a)"

definition aries_gprs_activate :: gprs_handler where
  "aries_gprs_activate data cid = sysfs_value_write (Some ''/sys/class/net/svnet0/pdp/activate'') (sint cid)"

definition aries_gprs_deactivate :: gprs_handler where
  "aries_gprs_deactivate data cid = sysfs_value_write (Some ''/sys/class/net/svnet0/pdp/deactivate'') (sint cid)"

definition aries_gprs_get_iface :: "u32 \<Rightarrow> string outcome" where
  "aries_gprs_get_iface cid =
     (if cid > ARIES_GPRS_IFACE_COUNT then Fail
      else Done (''pdp'' @ char_string (print_int (sint (cid - 1)))))"

definition aries_gprs_get_capabilities :: "u32 option \<Rightarrow> u32 outcome" where
  "aries_gprs_get_capabilities capabilities =
     (case capabilities of None \<Rightarrow> Fail | Some _ \<Rightarrow> Done ARIES_GPRS_IFACE_COUNT)"

definition aries_handlers :: ipc_client_handlers where
  "aries_handlers = \<lparr>h_open = Some aries_open, h_close = Some aries_close, h_read = Some aries_read,
     h_write = Some aries_write, h_poll = Some aries_poll, h_power_on = Some aries_power_on,
     h_power_off = Some aries_power_off, h_gprs_activate = Some aries_gprs_activate,
     h_gprs_deactivate = Some aries_gprs_deactivate, h_data_create = Some aries_data_create,
     h_data_destroy = Some aries_data_destroy,
     h_data = \<lparr>hd_transport = None, hd_power = None, hd_gprs = None\<rparr>\<rparr>"

definition aries_gprs_specs :: ipc_client_gprs_specs where
  "aries_gprs_specs = \<lparr>gs_get_iface = Some aries_gprs_get_iface,
     gs_get_capabilities = Some aries_gprs_get_capabilities\<rparr>"

definition aries_nv_data_specs :: ipc_client_nv_data_specs where
  "aries_nv_data_specs = \<lparr>nv_data_path = Some ''/efs/nv_data.bin'',
     nv_data_md5_path = Some ''/efs/nv_data.bin.md5'', nv_data_backup_path = Some ''/efs/.nv_data.bak'',
     nv_data_backup_md5_path = Some ''/efs/.nv_data.bak.md5'',
     nv_data_secret = Some (ascii ''Samsung_Android_RIL''), nv_data_size = 0x200000,
     nv_data_chunk_size = 0x1000\<rparr>"

section \<open>Booting\<close>

text \<open>The two waiting loops differ in the word they wait for; the rounds are those of \<open>psi_ack_loop\<close>.\<close>

fun onedram_wait :: "nat \<Rightarrow> u32 \<Rightarrow> unit io" where
  "onedram_wait 0 word = bnd select_ready (\<lambda>_. bnd (read_whole 4) (\<lambda>_. fail))"
| "onedram_wait (Suc n) word =
     bnd select_ready (\<lambda>_.
     bnd (read_whole 4) (\<lambda>answer.
     if get32 answer \<noteq> word then onedram_wait n word else ret ()))"

text \<open>From the open serial line to the label \<open>complete\<close>. Unmapping the memory has no effect here.\<close>

definition aries_load ::
  "(u8 list \<Rightarrow> u8 list) \<Rightarrow> client_env option \<Rightarrow> int \<Rightarrow> int \<Rightarrow> u8 list \<Rightarrow> unit io" where
  "aries_load md5 client onedram_fd serial_fd modem_image_data =
     bnd (xmm616_psi_send client serial_fd (Some modem_image_data) (of_nat ARIES_PSI_SIZE)) (\<lambda>_.
     bnd (onedram_wait 51 ARIES_ONEDRAM_INIT) (\<lambda>_.
     bnd fio (\<lambda>mapped.
     bnd (check (\<not> mapped < 0)) (\<lambda>_.
     bnd (image_part ARIES_PSI_SIZE (ARIES_MODEM_IMAGE_SIZE - ARIES_PSI_SIZE) modem_image_data) (\<lambda>firmware.
     bnd (xmm616_firmware_send client (- 1) (Some (0, ARIES_ONEDRAM_MEMORY_SIZE)) (Some firmware)) (\<lambda>_.
     bnd (xmm616_nv_data_send md5 client (- 1)
       (Some (ARIES_ONEDRAM_NV_DATA_OFFSET, ARIES_ONEDRAM_MEMORY_SIZE))) (\<lambda>_.
     bnd (sys_ioctl onedram_fd ONEDRAM_REL_SEM 0) (\<lambda>rc.
     bnd (check (\<not> rc < 0)) (\<lambda>_.
     bnd (write_whole onedram_fd (le32 ARIES_ONEDRAM_MAGIC)) (\<lambda>_.
     onedram_wait 51 ARIES_ONEDRAM_DEINIT))))))))))"

text \<open>
  The handlers of the client switch the modem; \<open>power_on\<close> is called where the messages speak of
  switching it off, and the other way round.
\<close>

definition aries_prepare :: "power_handler \<Rightarrow> power_handler \<Rightarrow> ptr \<Rightarrow> unit io" where
  "aries_prepare pwr_on pwr_off power_data =
     bnd (network_iface_down (Some ''svnet0'')) (\<lambda>_.
     bnd (pwr_on power_data) (\<lambda>_.
     pwr_off power_data))"

definition aries_boot :: "(u8 list \<Rightarrow> u8 list) \<Rightarrow> client_env option \<Rightarrow> unit io" where
  "aries_boot md5 client =
     (case client of None \<Rightarrow> fail
      | Some c \<Rightarrow>
        (case cl_handlers c of None \<Rightarrow> fail
         | Some h \<Rightarrow>
           (case (h_power_on h, h_power_off h) of
              (Some pwr_on, Some pwr_off) \<Rightarrow>
                bnd (file_data_read (Some ''/dev/block/bml12'') ARIES_MODEM_IMAGE_SIZE 0x1000 0) (\<lambda>modem_image_data.
                bnd (sys_open ''/dev/onedram'') (\<lambda>onedram_fd.
                bnd (try_rc (if onedram_fd < 0 then fail
                  else aries_prepare pwr_on pwr_off (hd_power (h_data h)))) (\<lambda>rc.
                bnd (if rc < 0 then ret (-1) else sys_open ''/dev/s3c2410_serial3'') (\<lambda>serial_fd.
                complete
                  (if serial_fd < 0 then fail
                   else aries_load md5 client onedram_fd serial_fd modem_image_data)
                  (bnd (close_valid serial_fd) (\<lambda>_. close_valid onedram_fd))))))
            | _ \<Rightarrow> fail)))"

section \<open>Operations\<close>

text \<open>
  The table of operations has room for calls that return only: there one that does not is
  \<open>Undef\<close>.
\<close>

definition returning :: "(world \<Rightarrow> ('a outcome \<times> world) option) \<Rightarrow> 'a io" where
  "returning m w = (case m w of Some r \<Rightarrow> r | None \<Rightarrow> (Undef, w))"

definition aries_fmt_ops :: "(u8 list \<Rightarrow> u8 list) \<Rightarrow> ipc_client_ops" where
  "aries_fmt_ops md5 = \<lparr>op_boot = Some (\<lambda>client. aries_boot md5 (Some client)),
     op_send = Some (\<lambda>client message. returning (aries_fmt_send client message)),
     op_recv = Some (\<lambda>client message. returning (aries_fmt_recv client message))\<rparr>"

definition aries_rfs_ops :: ipc_client_ops where
  "aries_rfs_ops = \<lparr>op_boot = None,
     op_send = Some (\<lambda>client message. returning (aries_rfs_send client message)),
     op_recv = Some (\<lambda>client message. returning (aries_rfs_recv client message))\<rparr>"

section \<open>The loops\<close>

context modem_out
begin

lemma aries_write_loop_out:
  assumes "aries_write_loop wr p w = Some (r, w')" and "live w"
  shows "(\<exists>n. out w' = out w @ take n p) \<and> (r = Done () \<longrightarrow> out w' = out w @ p) \<and> r \<noteq> Undef"
proof -
  let ?P = "\<lambda>wr' p w y. wr' = wr \<and> live w \<longrightarrow> (\<exists>n. out (snd y) = out w @ take n p) \<and>
    (fst y = Done () \<longrightarrow> out (snd y) = out w @ p) \<and> fst y \<noteq> Undef"
  have "?P wr p w (r, w')"
  proof (rule aries_write_loop.raw_induct [where P = ?P, OF _ assms(1)], intro impI, elim conjE)
    fix loop wr' p w y
    assume IH: "\<And>wr' p w y. loop wr' p w = Some y \<Longrightarrow> ?P wr' p w y" and wr': "wr' = wr" and live: "live w"
      and body: "(if p = [] then Some (Done (), w)
        else (case wr' (take ARIES_BUFFER_LENGTH p) w of
           (Done rc, w') \<Rightarrow> if rc < 0 then Some (Fail, w') else loop wr' (drop (nat rc) p) w'
         | (Fail, w') \<Rightarrow> Some (Fail, w') | (Undef, w') \<Rightarrow> Some (Undef, w'))) = Some y"
    show "(\<exists>n. out (snd y) = out w @ take n p) \<and> (fst y = Done () \<longrightarrow> out (snd y) = out w @ p) \<and> fst y \<noteq> Undef"
    proof (cases "p = []")
      case True
      with body show ?thesis by auto
    next
      case False
      let ?c = "take ARIES_BUFFER_LENGTH p"
      obtain r1 w1 where wr1: "wr ?c w = (r1, w1)" by fastforce
      have nothing: "\<exists>n. out w @ take 0 q = out w @ take n p" for q by (rule exI [of _ 0]) simp
      show ?thesis
      proof (cases r1)
        case (Done rc)
        have acc: "rc \<le> int (length ?c)" "out w1 = out w @ take (nat rc) ?c"
          using accepted [OF live] wr1 Done by blast+
        have tk: "take (nat rc) ?c = take (nat rc) p" using acc(1) by (auto simp: min_def nat_le_iff split: if_splits)
        show ?thesis
        proof (cases "rc < 0")
          case True
          with body wr' wr1 Done False acc(2) nothing show ?thesis by auto
        next
          case rc: False
          with body wr' wr1 Done False have "loop wr (drop (nat rc) p) w1 = Some y" by simp
          from IH [OF this] stays_live [OF live wr1] obtain n where
            n: "out (snd y) = out w1 @ take n (drop (nat rc) p)" and
            f: "fst y = Done () \<longrightarrow> out (snd y) = out w1 @ drop (nat rc) p" "fst y \<noteq> Undef" by blast
          have "out (snd y) = out w @ take (nat rc + n) p" using n acc(2) tk by (simp add: take_add)
          moreover have "fst y = Done () \<longrightarrow> out (snd y) = out w @ p"
            using f(1) acc(2) tk by (simp add: append_take_drop_id)
          ultimately show ?thesis using f(2) by blast
        qed
      next
        case Fail
        with body wr' wr1 False refused [OF live] nothing show ?thesis by auto
      next
        case Undef
        with wr1 defined [OF live] show ?thesis by blast
      qed
    qed
  qed
  with assms(2) show ?thesis by simp
qed

end

section \<open>The contract of the socket\<close>

lemma aries_write_live:
  "w_heap w a = Some fd \<Longrightarrow> aries_write (Some a) bs w = (if bs = [] \<or> fd < 0 then (Done (-1), w) else sys_write fd bs w)"
  by (simp add: aries_write_def bnd_Done [OF heap_get_live] ret_eq)

lemma aries_read_live:
  "w_heap w a = Some fd \<Longrightarrow> aries_read (Some a) n w = (if n = 0 \<or> fd < 0 then (Done None, w) else sys_read n w)"
  by (simp add: aries_read_def bnd_Done [OF heap_get_live] ret_eq)

interpretation aries_out: modem_out "aries_write (Some a)" "sent fd" "\<lambda>w. w_heap w a = Some fd" for a fd
proof
  fix w w' :: world and bs rc r
  assume live: "w_heap w a = Some fd"
  note e = aries_write_live [OF live, of bs]
  show "rc \<le> int (length bs) \<and> sent fd w' = sent fd w @ take (nat rc) bs"
    if "aries_write (Some a) bs w = (Done rc, w')"
    using that e fd_out.accepted [where fd = fd and bs = bs and rc = rc and w' = w'] by (auto split: if_splits)
  show "sent fd w' = sent fd w" if "aries_write (Some a) bs w = (Fail, w')"
    using that e fd_out.refused [where fd = fd and bs = bs and w' = w'] by (auto split: if_splits)
  show "aries_write (Some a) bs w \<noteq> (Undef, w')"
    using e fd_out.defined [where fd = fd and bs = bs and w' = w'] by (auto split: if_splits)
  show "w_heap w' a = Some fd" if "aries_write (Some a) bs w = (r, w')"
    using that e live sys_write_heap [of fd bs w r w'] by (auto split: if_splits)
qed

text \<open>The loop ends when no call returns 0, and does not when every call does.\<close>

lemma aries_write_loop_ends:
  "w_heap w a = Some fd \<Longrightarrow> 0 \<notin> sset (w_wr w) \<Longrightarrow> \<exists>y. aries_write_loop (aries_write (Some a)) p w = Some y"
proof (induction "length p" arbitrary: p w rule: less_induct)
  case less
  show ?case
  proof (cases "p = []")
    case True
    then show ?thesis by (simp add: aries_write_loop.simps)
  next
    case False
    let ?c = "take ARIES_BUFFER_LENGTH p"
    obtain r w1 where wr: "aries_write (Some a) ?c w = (r, w1)" by fastforce
    have "?c \<noteq> []" using False by (simp add: ARIES_BUFFER_LENGTH_def)
    then have e: "(r, w1) = (if fd < 0 then (Done (-1), w) else sys_write fd ?c w)"
      using wr aries_write_live [OF less.prems(1), of ?c] by simp
    have step: "\<exists>y. aries_write_loop (aries_write (Some a)) (drop (nat rc) p) w1 = Some y" if "r = Done rc" "0 \<le> rc" for rc
    proof (rule less.hyps)
      from e that have fd: "sys_write fd ?c w = (Done rc, w1)" by (auto split: if_splits)
      have "shd (w_wr w) \<noteq> 0" using less.prems(2) by (metis shd_sset)
      with fd that(2) \<open>?c \<noteq> []\<close> have "0 < rc" by (auto simp: sys_write_def Let_def split: if_splits)
      then show "length (drop (nat rc) p) < length p" using False by simp
      show "w_heap w1 a = Some fd" using sys_write_heap [OF fd] less.prems(1) by simp
      show "0 \<notin> sset (w_wr w1)" using fd less.prems(2) by (auto simp: sys_write_def Let_def dest: stl_sset split: if_splits)
    qed
    show ?thesis
      using False wr step by (subst aries_write_loop.simps) (auto split: outcome.split)
  qed
qed

lemma aries_write_loop_stuck:
  assumes "w_heap w a = Some fd" "0 \<le> fd" "w_wr w = sconst 0" "p \<noteq> []"
  shows "aries_write_loop (aries_write (Some a)) p w = None"
proof (rule ccontr)
  assume "aries_write_loop (aries_write (Some a)) p w \<noteq> None"
  then obtain y where y: "aries_write_loop (aries_write (Some a)) p w = Some y" by blast
  let ?P = "\<lambda>wr q v y. \<not> (wr = aries_write (Some a) \<and> q = p \<and> w_heap v a = Some fd \<and> w_wr v = sconst 0)"
  have "?P (aries_write (Some a)) p w y"
  proof (rule aries_write_loop.raw_induct [where P = ?P, OF _ y], rule notI, elim conjE)
    fix loop wr q v y
    assume IH: "\<And>wr q v y. loop wr q v = Some y \<Longrightarrow> ?P wr q v y" and wr: "wr = aries_write (Some a)" "q = p"
      and live: "w_heap v a = Some fd" and z: "w_wr v = sconst 0"
      and body: "(if q = [] then Some (Done (), v)
        else (case wr (take ARIES_BUFFER_LENGTH q) v of
           (Done rc, w') \<Rightarrow> if rc < 0 then Some (Fail, w') else loop wr (drop (nat rc) q) w'
         | (Fail, w') \<Rightarrow> Some (Fail, w') | (Undef, w') \<Rightarrow> Some (Undef, w'))) = Some y"
    have ne: "take ARIES_BUFFER_LENGTH p \<noteq> []" using assms(4) by (simp add: ARIES_BUFFER_LENGTH_def)
    obtain v1 where s: "sys_write fd (take ARIES_BUFFER_LENGTH p) v = (Done 0, v1)" "w_wr v1 = sconst 0"
      using z by (simp add: sys_write_def Let_def)
    have "aries_write (Some a) (take ARIES_BUFFER_LENGTH p) v = (Done 0, v1)"
      using aries_write_live [OF live] s(1) ne assms(2) by simp
    with body wr assms(4) have "loop (aries_write (Some a)) p v1 = Some y" by simp
    from IH [OF this] s sys_write_heap [OF s(1)] live show False by simp
  qed
  with assms show False by simp
qed

text \<open>Reading what arrives in any pieces that fit the buffer.\<close>

lemma aries_read_loop_chunks:
  "w_heap w b = Some fd \<Longrightarrow> 0 \<le> fd \<Longrightarrow> w_rd w = map Some cs @- rest \<Longrightarrow> length acc + length (concat cs) = sz \<Longrightarrow>
   \<forall>c \<in> set cs. length c \<le> ARIES_BUFFER_LENGTH \<Longrightarrow>
   \<exists>w'. aries_read_loop (aries_read (Some b)) sz acc w = Some (Done (acc @ concat cs), w')"
proof (induction cs arbitrary: acc w)
  case Nil
  then show ?case by (simp add: aries_read_loop.simps)
next
  case (Cons c cs)
  show ?case
  proof (cases "sz \<le> length acc")
    case True
    with Cons.prems(4) have "length (concat (c # cs)) = 0" by (simp del: length_0_conv)
    then have "concat (c # cs) = []" by (simp only: length_0_conv)
    with True show ?thesis by (simp only: append_Nil2) (simp add: aries_read_loop.simps)
  next
    case False
    let ?n = "min (sz - length acc) ARIES_BUFFER_LENGTH"
    have n: "length c \<le> ?n" "0 < ?n" using Cons.prems(4,5) False by (auto simp: ARIES_BUFFER_LENGTH_def)
    have rd: "aries_read (Some b) ?n w = sys_read ?n w" using aries_read_live [OF Cons.prems(1), of ?n] n(2) Cons.prems(2)
      by (simp only: not_less [symmetric] if_False simp_thms) auto
    obtain w1 where s: "sys_read ?n w = (Done (Some c), w1)" "w_rd w1 = map Some cs @- rest"
      using Cons.prems(3) n(1) by (simp add: sys_read_def Let_def)
    have "w_heap w1 b = Some fd" using sys_read_heap [OF s(1)] Cons.prems(1) by simp
    from Cons.IH [OF this Cons.prems(2) s(2), of "acc @ c"] Cons.prems(4,5) obtain w' where
      "aries_read_loop (aries_read (Some b)) sz (acc @ c) w1 = Some (Done (acc @ c @ concat cs), w')" by auto
    then show ?thesis
      using False rd s(1) Cons.prems(4) by (subst aries_read_loop.simps) simp
  qed
qed

lemma aries_recv_chunks:
  assumes live: "w_heap w b = Some fd" "0 \<le> fd" and rd: "w_rd w = map Some (c # cs) @- rest"
    and frame: "concat (c # cs) = hdr @ data" and n: "length hdr = n" "n \<le> length c"
    and fit: "\<forall>d \<in> set (c # cs). length d \<le> ARIES_BUFFER_LENGTH"
  shows "\<exists>w1 w2. aries_recv_first (aries_read (Some b)) n w = (Done c, w1) \<and> c = hdr @ drop n c \<and>
    (\<forall>m. aries_recv_rest (aries_read (Some b)) n (n + length data) c m w1 =
      Some (Done (if data = [] then m else m\<lparr>msg_size := of_nat (length data), msg_data := Some data\<rparr>), w2))"
proof -
  obtain w1 where s: "sys_read ARIES_BUFFER_LENGTH w = (Done (Some c), w1)" "w_rd w1 = map Some cs @- rest"
    using rd fit by (simp add: sys_read_def Let_def)
  have "aries_read (Some b) ARIES_BUFFER_LENGTH w = (Done (Some c), w1)"
    using aries_read_live [OF live(1)] live(2) s(1) by (simp add: ARIES_BUFFER_LENGTH_def)
  then have first: "aries_recv_first (aries_read (Some b)) n w = (Done c, w1)"
    using n(2) fit by (simp add: aries_recv_first_def bnd_def ret_eq)
  have cut: "c = hdr @ drop n c" "data = drop n c @ concat cs"
    using arg_cong [OF frame, of "take n"] arg_cong [OF frame, of "drop n"] n append_take_drop_id [of n c] by auto
  show ?thesis
  proof (cases "data = []")
    case True
    with first cut show ?thesis by (auto simp: aries_recv_rest_def)
  next
    case False
    have live1: "w_heap w1 b = Some fd" using sys_read_heap [OF s(1)] live(1) by simp
    from aries_read_loop_chunks [OF live1 live(2) s(2), of "drop n c" "length data"] cut(2) fit obtain w2 where
      l: "aries_read_loop (aries_read (Some b)) (length data) (drop n c) w1 = Some (Done data, w2)" by auto
    have "length c - n \<le> length data" by (subst cut(2)) simp
    then have "\<exists>x. poke 0 (drop n c) (calloc (length data)) = Done x" by (simp add: poke_def)
    then have "aries_recv_rest (aries_read (Some b)) n (n + length data) c m w1 =
      Some (Done (m\<lparr>msg_size := of_nat (length data), msg_data := Some data\<rparr>), w2)" for m
      using False l by (auto simp: aries_recv_rest_def Let_def and_then_def lift_outcome_eq)
    with first cut(1) False show ?thesis by auto
  qed
qed

section \<open>Messages over the socket\<close>

text \<open>A client with the handlers of this device and the object \<open>a\<close>.\<close>

definition aries_client :: "client_env \<Rightarrow> nat \<Rightarrow> bool" where
  "aries_client client a \<longleftrightarrow>
     handler_write client = Some (aries_write (Some a)) \<and> handler_read client = Some (aries_read (Some a))"

lemma aries_fmt_send_loop:
  assumes "aries_client client a" "msg_ok m" "unat (msg_size m) + 7 < 65536"
  shows "aries_fmt_send client (Some m) w = aries_write_loop (aries_write (Some a)) (fmt_frame m) w"
proof -
  from fmt_header_of_message [OF assms(3)] obtain h where
      h: "ipc_fmt_header_setup (Some (fmt_header_of (calloc 7))) (Some m) = Done h"
         "unat (fmt_length h) = unat (msg_size m) + 7" "fmt_frame m = fmt_header_bytes h @ msg_payload m"
    by blast
  have "frame_buffer (unat (fmt_length h)) (fmt_header_bytes h) m = Done (fmt_frame m)"
    using frame_buffer_ok [OF assms(2), of "unat (fmt_length h)" "fmt_header_bytes h"] h by simp
  with assms(1) h(1) show ?thesis
    by (simp add: aries_fmt_send_def aries_client_def and_then_def lift_outcome_eq)
qed

text \<open>
  C13: the socket carries messages without loss: when what a successful send of a message put on the
  socket, cut anywhere into pieces that fit the buffer and the first of which holds the header,
  arrives, receiving returns the message that was sent.
\<close>

theorem aries_send_recv:
  assumes send: "aries_client client a" "w_heap w a = Some fd" "msg_ok m" "unat (msg_size m) + 7 < 65536"
      "aries_fmt_send client (Some m) w = Some (Done (), w1)"
    and recv: "aries_client client' b" "w_heap w2 b = Some fd'" "0 \<le> fd'"
    and wire: "sent fd w1 = sent fd w @ concat (c # cs)" "w_rd w2 = map Some (c # cs) @- rest" "7 \<le> length c"
      "\<forall>d \<in> set (c # cs). length d \<le> ARIES_BUFFER_LENGTH"
  shows "\<exists>w3. aries_fmt_recv client' (Some m0) w2 =
    Some (Done (m\<lparr>msg_data := (if msg_size m = 0 then None else Some (msg_payload m))\<rparr>), w3)"
proof -
  have "aries_write_loop (aries_write (Some a)) (fmt_frame m) w = Some (Done (), w1)"
    using send(5) aries_fmt_send_loop [OF send(1,3,4)] by simp
  from aries_out.aries_write_loop_out [OF this send(2)] wire(1) have frame: "concat (c # cs) = fmt_frame m" by simp
  from fmt_header_of_message [OF send(4)] obtain h where
      h: "ipc_fmt_header_setup (Some (fmt_header_of (calloc 7))) (Some m) = Done h"
         "unat (fmt_length h) = unat (msg_size m) + 7" "fmt_frame m = fmt_header_bytes h @ msg_payload m"
    by blast
  have len: "length (msg_payload m) = unat (msg_size m)" by (rule length_msg_payload [OF send(3)])
  from aries_recv_chunks [OF recv(2,3) wire(2) frame [unfolded h(3)] length_fmt_header_bytes wire(3,4)]
  obtain v1 v2 where first: "aries_recv_first (aries_read (Some b)) 7 w2 = (Done c, v1)"
    and c: "c = fmt_header_bytes h @ drop 7 c"
    and rest: "\<And>m'. aries_recv_rest (aries_read (Some b)) 7 (7 + length (msg_payload m)) c m' v1 =
      Some (Done (if msg_payload m = [] then m' else m'\<lparr>msg_size := of_nat (length (msg_payload m)), msg_data := Some (msg_payload m)\<rparr>), v2)"
    by blast
  have hdr: "fmt_header_of c = h" by (subst c, rule fmt_header_of_bytes)
  have m1: "ipc_fmt_message_setup (Some h) (Some m0) = Done (m\<lparr>msg_data := None, msg_size := 0\<rparr>)"
    using h(1) by (auto simp: ipc_fmt_header_setup_def ipc_fmt_message_setup_def)
  have z: "msg_payload m = [] \<longleftrightarrow> msg_size m = 0" using len by (auto simp flip: unat_eq_zero)
  have "aries_fmt_recv client' (Some m0) w2 =
      aries_recv_rest (aries_read (Some b)) 7 (7 + length (msg_payload m)) c (m\<lparr>msg_data := None, msg_size := 0\<rparr>) v1"
    using recv(1) first m1 h(2) hdr
    by (simp add: aries_fmt_recv_def aries_client_def sizeof_fmt_header_def and_then_def lift_outcome_eq Let_def len add.commute)
  with rest z show ?thesis by (auto simp: len of_nat_unat_id)
qed

definition demo_aries_env :: client_env where
  "demo_aries_env = demo_env\<lparr>cl_handlers := Some (aries_handlers\<lparr>h_data :=
     \<lparr>hd_transport = Some 1, hd_power = None, hd_gprs = None\<rparr>\<rparr>)\<rparr>"

lemma demo_aries_client: "aries_client demo_aries_env 1"
  by (simp add: aries_client_def demo_aries_env_def demo_env_def handler_write_def handler_read_def aries_handlers_def)

lemma demo_frame: "fmt_frame demo_msg = [9, 0, 1, 0xff, 1, 2, 3, 0xaa, 0xbb]"
  by code_simp

theorem aries_send_recv_witness:
  "\<exists>w1 w3. aries_fmt_send demo_aries_env (Some demo_msg) (demo_online\<lparr>w_wr := sconst 100\<rparr>) = Some (Done (), w1) \<and>
     aries_fmt_recv demo_aries_env (Some demo_msg)
       (demo_online\<lparr>w_rd := map Some [[9, 0, 1, 0xff, 1, 2, 3], [0xaa], [0xbb]] @- sconst None\<rparr>) =
     Some (Done demo_msg, w3)"
proof -
  let ?w = "demo_online\<lparr>w_wr := sconst 100\<rparr>"
  let ?w2 = "demo_online\<lparr>w_rd := map Some [[9, 0, 1, 0xff, 1, 2, 3], [0xaa], [0xbb]] @- sconst None\<rparr>"
  have live: "w_heap ?w 1 = Some 3" "w_heap ?w2 1 = Some 3" by (simp_all add: demo_online_def)
  have m: "unat (msg_size demo_msg) + 7 < 65536" by (simp add: demo_msg_def)
  obtain w1 where wr: "sys_write 3 (fmt_frame demo_msg) ?w = (Done 9, w1)" and "sent 3 w1 = sent 3 ?w @ fmt_frame demo_msg"
    by (simp add: sys_write_def Let_def demo_frame sent_def)
  then have sent: "sent 3 w1 = sent 3 ?w @ concat [[9, 0, 1, 0xff, 1, 2, 3], [0xaa], [0xbb]]" by (simp add: demo_frame)
  have "aries_fmt_send demo_aries_env (Some demo_msg) ?w = aries_write_loop (aries_write (Some 1)) (fmt_frame demo_msg) ?w"
    by (rule aries_fmt_send_loop [OF demo_aries_client demo_msg_ok(1) m])
  also have "\<dots> = aries_write_loop (aries_write (Some 1)) [] w1"
    using wr aries_write_live [OF live(1), of "fmt_frame demo_msg"]
    by (subst aries_write_loop.simps) (simp add: demo_frame ARIES_BUFFER_LENGTH_def del: One_nat_def)
  also have "\<dots> = Some (Done (), w1)" by (subst aries_write_loop.simps) simp
  finally have s: "aries_fmt_send demo_aries_env (Some demo_msg) ?w = Some (Done (), w1)" .
  from aries_send_recv [OF demo_aries_client live(1) demo_msg_ok(1) m s demo_aries_client live(2) _ sent, where ?m0.0 = demo_msg]
  have "\<exists>w3. aries_fmt_recv demo_aries_env (Some demo_msg) ?w2 = Some (Done demo_msg, w3)"
    by (simp add: ARIES_BUFFER_LENGTH_def demo_msg_def msg_payload_def)
  with s show ?thesis by blast
qed

text \<open>
  C34: sending returns unless the socket takes nothing: with a kernel whose calls never return 0 it
  returns, with no undefined behaviour and with a prefix of the frame on the socket, the frame when
  it succeeds; with a kernel that always returns 0 it never returns.
\<close>

theorem aries_send_returns:
  assumes "aries_client client a" and "w_heap w a = Some fd" and "msg_ok m" and "unat (msg_size m) + 7 < 65536"
  shows "(0 \<notin> sset (w_wr w) \<longrightarrow> (\<exists>r w'. aries_fmt_send client (Some m) w = Some (r, w') \<and> r \<noteq> Undef \<and>
      (\<exists>n. sent fd w' = sent fd w @ take n (fmt_frame m)) \<and> (r = Done () \<longrightarrow> sent fd w' = sent fd w @ fmt_frame m))) \<and>
    (w_wr w = sconst 0 \<and> 0 \<le> fd \<longrightarrow> aries_fmt_send client (Some m) w = None)"
proof (intro conjI impI)
  note eq = aries_fmt_send_loop [OF assms(1,3,4)]
  assume "0 \<notin> sset (w_wr w)"
  from aries_write_loop_ends [OF assms(2) this, of "fmt_frame m"] obtain r w' where
    l: "aries_write_loop (aries_write (Some a)) (fmt_frame m) w = Some (r, w')" by auto
  from aries_out.aries_write_loop_out [OF this assms(2)] l
  show "\<exists>r w'. aries_fmt_send client (Some m) w = Some (r, w') \<and> r \<noteq> Undef \<and>
      (\<exists>n. sent fd w' = sent fd w @ take n (fmt_frame m)) \<and> (r = Done () \<longrightarrow> sent fd w' = sent fd w @ fmt_frame m)"
    unfolding eq by blast
next
  assume "w_wr w = sconst 0 \<and> 0 \<le> fd"
  moreover have "fmt_frame m \<noteq> []" by (simp add: fmt_frame_def)
  ultimately show "aries_fmt_send client (Some m) w = None"
    using aries_write_loop_stuck [OF assms(2)] aries_fmt_send_loop [OF assms(1,3,4)] by simp
qed

theorem aries_send_returns_witness:
  "(\<exists>r w'. aries_fmt_send demo_aries_env (Some demo_msg) demo_online = Some (r, w') \<and> r \<noteq> Undef) \<and>
   aries_fmt_send demo_aries_env (Some demo_msg) (demo_online\<lparr>w_wr := sconst 0\<rparr>) = None"
proof -
  have live: "w_heap demo_online 1 = Some 3" "w_heap (demo_online\<lparr>w_wr := sconst 0\<rparr>) 1 = Some 3"
    by (simp_all add: demo_online_def)
  have m: "unat (msg_size demo_msg) + 7 < 65536" by (simp add: demo_msg_def)
  note t = aries_send_returns [OF demo_aries_client _ demo_msg_ok(1) m]
  show ?thesis using t [OF live(1)] t [OF live(2)] by (auto simp: demo_online_def)
qed

text \<open>A header that announces less than its own size.\<close>

lemma aries_short_length_undefined:
  assumes "aries_client client b" "w_heap w b = Some fd" "0 \<le> fd" "shd (w_rd w) = Some (fmt_header_bytes h @ extra)"
    and "unat (fmt_length h) < 7" "extra \<noteq> []" "7 + length extra \<le> ARIES_BUFFER_LENGTH"
  shows "\<exists>w'. aries_fmt_recv client (Some m0) w = Some (Undef, w')"
proof -
  let ?c = "fmt_header_bytes h @ extra"
  obtain w1 where s: "sys_read ARIES_BUFFER_LENGTH w = (Done (Some ?c), w1)"
    using assms(4,7) by (simp add: sys_read_def Let_def)
  have "aries_read (Some b) ARIES_BUFFER_LENGTH w = (Done (Some ?c), w1)"
    using aries_read_live [OF assms(2)] assms(3) s by (simp add: ARIES_BUFFER_LENGTH_def)
  then have "aries_recv_first (aries_read (Some b)) 7 w = (Done ?c, w1)"
    using assms(7) by (simp add: aries_recv_first_def bnd_def ret_eq)
  with assms show ?thesis
    by (simp add: aries_fmt_recv_def aries_client_def sizeof_fmt_header_def and_then_def Let_def fmt_header_of_bytes
        ipc_fmt_message_setup_def lift_outcome_eq aries_recv_rest_def)
qed

section \<open>What the modem is loaded with\<close>

text \<open>The stores into the shared memory, in order, as offsets and bytes.\<close>

fun stored_by :: "event \<Rightarrow> (nat \<times> u8 list) list" where
  "stored_by (EvStore offset bs) = [(offset, bs)]"
| "stored_by _ = []"

definition stores :: "world \<Rightarrow> (nat \<times> u8 list) list" where
  "stores w = concat (map stored_by (w_trace w))"

text \<open>Reads and requests: they send nothing, store nothing, and open and close nothing.\<close>

definition quiet :: "event \<Rightarrow> bool" where
  "quiet e \<longleftrightarrow> (\<exists>fd request arg. e = EvIoctl fd request arg) \<or> (\<exists>bs. e = EvRead bs)"

lemma quiet_sent: "\<forall>e \<in> set es. quiet e \<Longrightarrow> concat (map (sent_by fd) es) = [] \<and> concat (map stored_by es) = [] \<and>
    opened es = [] \<and> closed es = []"
proof (induction es)
  case (Cons e es)
  then show ?case by (cases e) (auto simp: quiet_def)
qed simp

lemma adds_stores: "adds (\<lambda>e. stored_by e = []) k \<Longrightarrow> k w = (r, w') \<Longrightarrow> stores w' = stores w"
  by (drule (1) addsD) (auto simp: stores_def)

lemma adds_onedram_wait [adds_intros]: "(\<And>bs. Q (EvRead bs)) \<Longrightarrow> adds Q (onedram_wait n word)"
  by (induction n) (auto intro!: adds_intros)

lemma adds_fio [adds_intros]: "adds Q fio"
  by (auto simp: fio_def adds_def)

lemma unchanged_onedram_wait: "device_blind f \<Longrightarrow> unchanged f (onedram_wait n word)"
  by (induction n) (auto intro!: unchanged_intros)

lemma aries_load_Done:
  assumes cfg: "nv_configured c p m bp bm secret sz ck" and ne: "onedram \<noteq> serial"
    and load: "aries_load md5 (Some c) onedram serial mem w = (Done u, w')"
  shows "\<exists>nv. sent serial w' = sent serial w @ xmm616_psi_stage (of_nat ARIES_PSI_SIZE) (take ARIES_PSI_SIZE mem) \<and>
    sent onedram w' = sent onedram w @ le32 ARIES_ONEDRAM_MAGIC \<and>
    stores w' = stores w @ [(0, take (ARIES_MODEM_IMAGE_SIZE - ARIES_PSI_SIZE) (drop ARIES_PSI_SIZE mem)),
      (ARIES_ONEDRAM_NV_DATA_OFFSET, nv)] \<and>
    w_files w' p = Some nv \<and> nv_valid md5 secret sz (w_files w') p m"
proof -
  let ?n = "ARIES_MODEM_IMAGE_SIZE - ARIES_PSI_SIZE"
  let ?fw = "take ?n (drop ARIES_PSI_SIZE mem)"
  obtain w1 w2 d w3 firmware w4 w5 w6 rc w7 w8 where
    s1: "xmm616_psi_send (Some c) serial (Some mem) (of_nat ARIES_PSI_SIZE) w = (Done (), w1)" and
    s2: "onedram_wait 51 ARIES_ONEDRAM_INIT w1 = (Done (), w2)" and
    s3: "fio w2 = (Done d, w3)" and
    s4: "image_part ARIES_PSI_SIZE ?n mem w3 = (Done firmware, w4)" and
    s5: "xmm616_firmware_send (Some c) (- 1) (Some (0, ARIES_ONEDRAM_MEMORY_SIZE)) (Some firmware) w4 = (Done (), w5)" and
    s6: "xmm616_nv_data_send md5 (Some c) (- 1) (Some (ARIES_ONEDRAM_NV_DATA_OFFSET, ARIES_ONEDRAM_MEMORY_SIZE)) w5 = (Done (), w6)" and
    s7: "sys_ioctl onedram ONEDRAM_REL_SEM 0 w6 = (Done rc, w7)" and
    s8: "write_whole onedram (le32 ARIES_ONEDRAM_MAGIC) w7 = (Done (), w8)" and
    s9: "onedram_wait 51 ARIES_ONEDRAM_DEINIT w8 = (Done u, w')"
    using load unfolding aries_load_def bnd_eq_Done check_eq_Done by auto
  have fw: "firmware = ?fw" using image_part_Done [OF s4] by (simp add: part_of_def)
  have psi: "sent serial w1 = sent serial w @ xmm616_psi_stage (of_nat ARIES_PSI_SIZE) (take ARIES_PSI_SIZE mem)"
    using emitsD [OF emits_xmm616_psi s1] by (auto simp: ARIES_PSI_SIZE_def)
  have q1: "adds (\<lambda>e. sent_by onedram e = [] \<and> stored_by e = []) (xmm616_psi_send (Some c) serial (Some mem) (of_nat ARIES_PSI_SIZE))"
    using ne by (intro adds_xmm616_psi) auto
  have w1: "sent onedram w1 = sent onedram w" "stores w1 = stores w"
    using adds_sent [OF adds_mono [OF q1] s1] adds_stores [OF adds_mono [OF q1] s1] by blast+
  have wait: "adds quiet (onedram_wait 51 word)" for word by (intro adds_intros) (simp add: quiet_def)
  have quiet: "sent fd v' = sent fd v \<and> stores v' = stores v" if "w_trace v' = w_trace v @ es" "\<forall>e \<in> set es. quiet e" for fd v v' es
    using that quiet_sent [OF that(2)] by (simp add: sent_def stores_def)
  have w2: "sent fd w2 = sent fd w1" "stores w2 = stores w1" for fd
    using addsD [OF wait s2] quiet by blast+
  have w4: "w_trace w4 = w_trace w2" using s3 image_part_Done [OF s4] by (auto simp: fio_def)
  have w5: "w_trace w5 = w_trace w4 @ [EvStore 0 ?fw]"
    using s5 unfolding fw by (auto simp: xmm616_firmware_send_def device_store_def emit_def fail_eq undef_eq split: if_splits)
  obtain nv v where ld: "ipc_nv_data_load md5 (Some c) w5 = (Done nv, v)"
    and w6: "w6 = v\<lparr>w_trace := w_trace v @ [EvStore ARIES_ONEDRAM_NV_DATA_OFFSET nv]\<rparr>"
    using s6 by (auto simp: xmm616_nv_data_send_def bnd_eq_Done device_store_def emit_def fail_eq undef_eq split: if_splits)
  have v: "w_files v p = Some nv \<and> nv_valid md5 secret sz (w_files v) p m"
    by (rule nv_device.load_Done [OF nv_deviceI [OF cfg] ld])
  have tv: "w_trace v = w_trace w5" using unchangedD [OF stable_nv(5) [OF trace_stable, THEN unchanged_stable] ld] .
  have w7: "sent fd w7 = sent fd w6" "stores w7 = stores w6" "w_files w7 = w_files w6" for fd
    using s7 by (auto simp: sys_ioctl_def sent_def stores_def)
  have q8: "adds (\<lambda>e. sent_by serial e = [] \<and> stored_by e = []) (write_whole onedram (le32 ARIES_ONEDRAM_MAGIC))"
    using ne by (intro adds_intros) auto
  have w8: "sent serial w8 = sent serial w7" "stores w8 = stores w7" "sent onedram w8 = sent onedram w7 @ le32 ARIES_ONEDRAM_MAGIC"
    using adds_sent [OF adds_mono [OF q8] s8] adds_stores [OF adds_mono [OF q8] s8] emitsD [OF emits_write_whole s8] by blast+
  have w9: "sent fd w' = sent fd w8" "stores w' = stores w8" for fd using addsD [OF wait s9] quiet by blast+
  have blind: "device_blind w_files" by (simp add: device_blind_def)
  have files: "w_files w' = w_files v"
    using unchangedD [OF unchanged_onedram_wait [OF blind] s9] unchangedD [OF unchanged_steps(1) [OF blind] s8] w7(3) w6 by simp
  have "sent fd w6 = sent fd w2" for fd using w6 tv w5 w4 by (simp add: sent_def)
  moreover have "stores w6 = stores w2 @ [(0, ?fw), (ARIES_ONEDRAM_NV_DATA_OFFSET, nv)]"
    using w6 tv w5 w4 by (simp add: stores_def)
  ultimately show ?thesis
    using psi w1 w2 w7 w8 w9 files v by (intro exI [of _ nv]) simp
qed

section \<open>Booting\<close>

lemma quiet_append: "\<forall>e \<in> set es. quiet e \<Longrightarrow> \<forall>e \<in> set es'. quiet e \<Longrightarrow> \<forall>e \<in> set (es @ es'). quiet e"
  by auto

lemma network_iface_shape:
  assumes "network_iface change (Some i) w = (r, w')"
  shows "r \<noteq> Undef \<and> (\<exists>sock es. w_trace w' = w_trace w @ opens ''socket'' sock @ es @ closes sock \<and>
    (\<forall>e \<in> set es. quiet e) \<and> (r = Done () \<longrightarrow> 0 \<le> sock))"
proof -
  obtain sock v1 where o: "sys_socket w = (Done sock, v1)" "w_trace v1 = w_trace w @ opens ''socket'' sock"
    unfolding sys_socket_def using sys_open_shape by metis
  let ?body = "if sock < 0 then fail else bnd (get_flags sock) (\<lambda>flags. case flags of None \<Rightarrow> fail
    | Some ifr_flags \<Rightarrow> bnd (sys_ioctl sock SIOCSIFFLAGS (uint (change ifr_flags))) (\<lambda>rc. check (\<not> rc < 0)))"
  have q: "adds quiet ?body"
    by (auto simp: get_flags_def quiet_def intro!: adds_intros)
  have t: "tame ?body"
    by (auto simp: get_flags_def tame_def files_ok_def bnd_def sys_ioctl_def sys_read_def ret_eq fail_eq check_eq Let_def
        split: option.splits if_splits)
  obtain r1 v2 where b: "?body v1 = (r1, v2)" by fastforce
  from addsD [OF q b] obtain es where es: "w_trace v2 = w_trace v1 @ es" "\<forall>e \<in> set es. quiet e" by blast
  have u: "r1 \<noteq> Undef" using tameD [OF t b] by simp
  have e: "network_iface change (Some i) w = complete ?body (close_valid sock) v1"
    using o(1) by (simp add: network_iface_def bnd_def [of sys_socket])
  have d: "r1 = Done () \<Longrightarrow> 0 \<le> sock" using b by (auto simp: fail_eq split: if_splits)
  have "(r, w') = ((if r1 = Done () then Done () else Fail), v2\<lparr>w_trace := w_trace v2 @ closes sock\<rparr>)"
    using assms unfolding e using b u
    by (cases r1) (auto simp: complete_def try_rc_def bnd_def close_valid_shape check_eq)
  then show ?thesis using o(2) es d by (auto split: if_splits)
qed

lemma adds_aries_control: "adds Q (aries_control already buffer)"
proof (rule adds_unchanged [OF unchanged_stable])
  fix c
  show "stable (\<lambda>w. w_trace w = c) (aries_control already buffer)"
    by (auto simp: aries_control_def sysfs_value_read_def sysfs_string_write_def
        intro!: stable_intros trace_stable split: option.split)
qed

lemma aries_prepare_shape:
  assumes "aries_prepare aries_power_on aries_power_off d w = (r, w')" "r \<noteq> Undef"
  shows "\<exists>sock es. w_trace w' = w_trace w @ opens ''socket'' sock @ es @ closes sock \<and>
    (\<forall>e \<in> set es. quiet e) \<and> (r = Done () \<longrightarrow> 0 \<le> sock)"
proof -
  obtain r1 w1 where n: "network_iface_down (Some ''svnet0'') w = (r1, w1)" by fastforce
  from network_iface_shape [OF n [unfolded network_iface_down_def]] obtain sock es where
    s: "r1 \<noteq> Undef" "w_trace w1 = w_trace w @ opens ''socket'' sock @ es @ closes sock" "\<forall>e \<in> set es. quiet e"
      "r1 = Done () \<longrightarrow> 0 \<le> sock" by blast
  have c: "bnd (aries_power_on d) (\<lambda>_. aries_power_off d) v = (r', v') \<Longrightarrow> w_trace v' = w_trace v" for v r' v'
    by (rule adds_none [of "bnd (aries_power_on d) (\<lambda>_. aries_power_off d)"])
      (auto simp: aries_power_on_def aries_power_off_def intro!: adds_intros adds_aries_control)
  show ?thesis
  proof (cases r1)
    case (Done u)
    with assms(1) n have "bnd (aries_power_on d) (\<lambda>_. aries_power_off d) w1 = (r, w')"
      by (simp add: aries_prepare_def bnd_def [of "network_iface_down _"])
    from c [OF this] s Done show ?thesis by auto
  next
    case Fail
    with assms(1) n have "w' = w1" "r = Fail" by (auto simp: aries_prepare_def bnd_def)
    with s show ?thesis by auto
  qed (use s in simp)
qed

text \<open>
  However booting ends: the image is read, the shared memory is opened, the interface is switched
  off through a socket of its own, the serial line is opened, the modem is loaded, and what is open is
  closed.
\<close>

lemma aries_boot_shape:
  assumes h: "cl_handlers c = Some h" "h_power_on h = Some aries_power_on" "h_power_off h = Some aries_power_off"
    and boot: "aries_boot md5 (Some c) w = (r, w')" "r \<noteq> Undef"
  obtains "r = Fail" "w_trace w' = w_trace w"
  | mem onedram sock es serial w1 r1 w2 where
      "mem = take ARIES_MODEM_IMAGE_SIZE (file_of w ''/dev/block/bml12'')" "length mem = ARIES_MODEM_IMAGE_SIZE"
      "w_trace w1 = w_trace w @ opens ''/dev/onedram'' onedram @ opens ''socket'' sock @ es @ closes sock @
        opens ''/dev/s3c2410_serial3'' serial" "\<forall>e \<in> set es. quiet e"
      "if serial < 0 then r1 = Fail \<and> w2 = w1
       else 0 \<le> onedram \<and> 0 \<le> sock \<and> aries_load md5 (Some c) onedram serial mem w1 = (r1, w2)"
      "r = Done () \<longleftrightarrow> r1 = Done ()" "w' = w2\<lparr>w_trace := w_trace w2 @ closes serial @ closes onedram\<rparr>"
proof -
  let ?read = "file_data_read (Some ''/dev/block/bml12'') ARIES_MODEM_IMAGE_SIZE 0x1000 0"
  let ?prep = "aries_prepare aries_power_on aries_power_off (hd_power (h_data h))"
  obtain r0 w0 where rd: "?read w = (r0, w0)" by fastforce
  have nu: "r0 \<noteq> Undef" using tameD [OF tame_file_data(1) rd] by simp
  show ?thesis
  proof (cases r0)
    case (Done mem)
    from file_data_read_Done [OF rd [unfolded Done]] have m: "mem = take ARIES_MODEM_IMAGE_SIZE (file_of w ''/dev/block/bml12'')"
      "length mem = ARIES_MODEM_IMAGE_SIZE" "w_trace w0 = w_trace w" by (auto simp: file_of_def)
    obtain onedram v1 where o1: "sys_open ''/dev/onedram'' w0 = (Done onedram, v1)"
      "w_trace v1 = w_trace w0 @ opens ''/dev/onedram'' onedram" using sys_open_shape by metis
    obtain r3 v2 where p: "(if onedram < 0 then fail else ?prep) v1 = (r3, v2)" by fastforce
    have b0: "bnd ?read g w = g mem w0" for g :: "u8 list \<Rightarrow> unit io" by (rule bnd_Done, rule rd [unfolded Done])
    have b1: "bnd (sys_open ''/dev/onedram'') g w0 = g onedram v1" for g :: "int \<Rightarrow> unit io"
      by (rule bnd_Done, rule o1(1))
    note eq = boot(1) [unfolded aries_boot_def option.case h prod.case b0 b1]
    have u: "r3 \<noteq> Undef"
    proof
      assume "r3 = Undef"
      with p have "try_rc (if onedram < 0 then fail else ?prep) v1 = (Undef, v2)" by (simp add: try_rc_def)
      with eq boot(2) show False by (simp add: bnd_Undef)
    qed
    have "\<exists>sock es. w_trace v2 = w_trace v1 @ opens ''socket'' sock @ es @ closes sock \<and> (\<forall>e \<in> set es. quiet e) \<and>
        (r3 = Done () \<longrightarrow> 0 \<le> sock \<and> 0 \<le> onedram)"
    proof (cases "onedram < 0")
      case True
      with p show ?thesis by (intro exI [of _ "- 1"] exI [of _ "[]"]) (auto simp: fail_eq opens_def closes_def)
    next
      case False
      with p have "?prep v1 = (r3, v2)" by simp
      from aries_prepare_shape [OF this u] False show ?thesis by auto
    qed
    then obtain sock es where s: "w_trace v2 = w_trace v1 @ opens ''socket'' sock @ es @ closes sock"
      "\<forall>e \<in> set es. quiet e" "r3 = Done () \<longrightarrow> 0 \<le> sock \<and> 0 \<le> onedram" by blast
    obtain rc where rc: "try_rc (if onedram < 0 then fail else ?prep) v1 = (Done rc, v2)" "rc < 0 \<longleftrightarrow> r3 \<noteq> Done ()"
      using p u by (cases r3) (auto simp: try_rc_def)
    obtain serial v3 where o2: "(if rc < 0 then ret (-1) else sys_open ''/dev/s3c2410_serial3'') v2 = (Done serial, v3)"
      "rc < 0 \<longrightarrow> serial = -1" "w_trace v3 = w_trace v2 @ opens ''/dev/s3c2410_serial3'' serial"
      using open_if_shape [of "rc < 0" _ v2] by metis
    have b2: "bnd (try_rc (if onedram < 0 then fail else ?prep)) g v1 = g rc v2" for g :: "int \<Rightarrow> unit io"
      by (rule bnd_Done, rule rc(1))
    have b3: "bnd (if rc < 0 then ret (-1) else sys_open ''/dev/s3c2410_serial3'') g v2 = g serial v3"
      for g :: "int \<Rightarrow> unit io" by (rule bnd_Done, rule o2(1))
    have "complete (if serial < 0 then fail else aries_load md5 (Some c) onedram serial mem)
        (bnd (close_valid serial) (\<lambda>_. close_valid onedram)) v3 = (r, w')"
      using eq unfolding b2 b3 .
    moreover have "bnd (close_valid serial) (\<lambda>_. close_valid onedram) v =
        (Done (), v\<lparr>w_trace := w_trace v @ closes serial @ closes onedram\<rparr>)" for v
      by (simp add: bnd_def close_valid_shape)
    ultimately obtain r1 w2 where
      body: "(if serial < 0 then fail else aries_load md5 (Some c) onedram serial mem) v3 = (r1, w2)" and
      r1: "r = Done () \<longleftrightarrow> r1 = Done ()" "w' = w2\<lparr>w_trace := w_trace w2 @ closes serial @ closes onedram\<rparr>"
      by (rule complete_shape [OF _ _ boot(2)]) blast
    have tr: "w_trace v3 = w_trace w @ opens ''/dev/onedram'' onedram @ opens ''socket'' sock @ es @ closes sock @
        opens ''/dev/s3c2410_serial3'' serial"
      using m(3) o1(2) s(1) o2(3) by simp
    have "if serial < 0 then r1 = Fail \<and> w2 = v3
       else 0 \<le> onedram \<and> 0 \<le> sock \<and> aries_load md5 (Some c) onedram serial mem v3 = (r1, w2)"
      using body o2(2) rc(2) s(3) by (auto simp: fail_eq)
    from that(2) [OF m(1,2) tr s(2) this r1] show ?thesis .
  next
    case Fail
    with boot(1) rd h adds_none [OF adds_files(1) rd] show ?thesis
      by (intro that(1)) (auto simp: aries_boot_def bnd_def)
  qed (use nu in simp)
qed

lemma adds_aries_load:
  "adds (\<lambda>e. opened [e] = [] \<and> closed [e] = []) (aries_load md5 client onedram serial mem)"
proof -
  have "adds Q (device_store p bs)" if "\<And>a b. Q (EvStore a b)" for Q p bs
    using that by (auto simp: device_store_def adds_def emit_def undef_def)
  then show ?thesis
    by (auto simp: aries_load_def xmm616_firmware_send_def xmm616_nv_data_send_def image_part_def
        intro!: adds_intros split: option.split)
qed

text \<open>
  C5: however booting the Galaxy S ends, it has closed just the descriptors it opened, in the order
  socket, serial line, onedram; and when it succeeds, the serial line was sent the whole PSI stage and
  the onedram the magic word, and nothing else was sent to either; and just two blocks were stored
  into the shared memory, the firmware at its start and then, at the offset of the NV data, what the NV
  data file holds, which matches its digest.
\<close>

theorem aries_boot_loads_modem:
  assumes cfg: "nv_configured c p m bp bm secret sz ck"
    and h: "cl_handlers c = Some h" "h_power_on h = Some aries_power_on" "h_power_off h = Some aries_power_off"
    and boot: "aries_boot md5 (Some c) w = (r, w')" "r \<noteq> Undef"
  shows "\<exists>es. w_trace w' = w_trace w @ es \<and> mset (opened es) = mset (closed es) \<and>
    (r = Done () \<longrightarrow> (\<exists>onedram sock serial mem nv.
      opened es = [onedram, sock, serial] \<and> closed es = [sock, serial, onedram] \<and>
      length mem = ARIES_MODEM_IMAGE_SIZE \<and>
      mem = take ARIES_MODEM_IMAGE_SIZE (file_of w ''/dev/block/bml12'') \<and>
      (onedram \<noteq> serial \<longrightarrow>
        sent serial w' = sent serial w @ xmm616_psi_stage (of_nat ARIES_PSI_SIZE) (take ARIES_PSI_SIZE mem) \<and>
        sent onedram w' = sent onedram w @ le32 ARIES_ONEDRAM_MAGIC \<and>
        stores w' = stores w @ [(0, drop ARIES_PSI_SIZE mem), (ARIES_ONEDRAM_NV_DATA_OFFSET, nv)] \<and>
        w_files w' p = Some nv \<and> nv_valid md5 secret sz (w_files w') p m)))"
proof (rule aries_boot_shape [OF h boot])
  fix mem onedram sock es serial w1 r1 w2
  assume m: "mem = take ARIES_MODEM_IMAGE_SIZE (file_of w ''/dev/block/bml12'')" "length mem = ARIES_MODEM_IMAGE_SIZE"
    and tr: "w_trace w1 = w_trace w @ opens ''/dev/onedram'' onedram @ opens ''socket'' sock @ es @ closes sock @
        opens ''/dev/s3c2410_serial3'' serial" and q: "\<forall>e \<in> set es. quiet e"
    and st: "if serial < 0 then r1 = Fail \<and> w2 = w1
       else 0 \<le> onedram \<and> 0 \<le> sock \<and> aries_load md5 (Some c) onedram serial mem w1 = (r1, w2)"
    and r: "r = Done () \<longleftrightarrow> r1 = Done ()" and w': "w' = w2\<lparr>w_trace := w_trace w2 @ closes serial @ closes onedram\<rparr>"
  obtain es2 where es2: "w_trace w2 = w_trace w1 @ es2" "\<forall>e \<in> set es2. opened [e] = [] \<and> closed [e] = []"
    using st addsD [OF adds_aries_load] by (cases "serial < 0") force+
  let ?es = "opens ''/dev/onedram'' onedram @ opens ''socket'' sock @ es @ closes sock @
      opens ''/dev/s3c2410_serial3'' serial @ es2 @ closes serial @ closes onedram"
  note oc = neither_opened [OF es2(2)] quiet_sent [OF q]
  have es: "w_trace w' = w_trace w @ ?es" "mset (opened ?es) = mset (closed ?es)"
    using tr oc es2(1) w' by (auto simp: opens_def closes_def)
  have w1: "sent fd w1 = sent fd w" "stores w1 = stores w" for fd
    using quiet_sent [OF q] by (simp_all add: sent_def stores_def tr opens_def closes_def)
  have keep: "sent fd w' = sent fd w2" "stores w' = stores w2" "w_files w' = w_files w2" for fd
    by (simp_all add: w' sent_def stores_def closes_def)
  have "\<exists>nv. opened ?es = [onedram, sock, serial] \<and> closed ?es = [sock, serial, onedram] \<and> (onedram \<noteq> serial \<longrightarrow>
      sent serial w' = sent serial w @ xmm616_psi_stage (of_nat ARIES_PSI_SIZE) (take ARIES_PSI_SIZE mem) \<and>
      sent onedram w' = sent onedram w @ le32 ARIES_ONEDRAM_MAGIC \<and>
      stores w' = stores w @ [(0, drop ARIES_PSI_SIZE mem), (ARIES_ONEDRAM_NV_DATA_OFFSET, nv)] \<and>
      w_files w' p = Some nv \<and> nv_valid md5 secret sz (w_files w') p m)" if "r = Done ()"
  proof -
    from that r st have load: "aries_load md5 (Some c) onedram serial mem w1 = (Done (), w2)"
      and fds: "0 \<le> onedram" "0 \<le> sock" "0 \<le> serial" by (auto split: if_splits)
    have o: "opened ?es = [onedram, sock, serial]" "closed ?es = [sock, serial, onedram]"
      using oc fds by (simp_all add: opens_def closes_def)
    show ?thesis
    proof (cases "onedram = serial")
      case False
      from aries_load_Done [OF cfg False load] obtain nv where
        nv: "sent serial w2 = sent serial w1 @ xmm616_psi_stage (of_nat ARIES_PSI_SIZE) (take ARIES_PSI_SIZE mem)"
          "sent onedram w2 = sent onedram w1 @ le32 ARIES_ONEDRAM_MAGIC"
          "stores w2 = stores w1 @ [(0, take (ARIES_MODEM_IMAGE_SIZE - ARIES_PSI_SIZE) (drop ARIES_PSI_SIZE mem)),
            (ARIES_ONEDRAM_NV_DATA_OFFSET, nv)]"
          "w_files w2 p = Some nv" "nv_valid md5 secret sz (w_files w2) p m" by blast
      have "take (ARIES_MODEM_IMAGE_SIZE - ARIES_PSI_SIZE) (drop ARIES_PSI_SIZE mem) = drop ARIES_PSI_SIZE mem"
        using m(2) by simp
      then show ?thesis using nv o unfolding w1 keep by (intro exI [of _ nv]) simp
    qed (use o in simp)
  qed
  with es m show ?thesis by blast
qed simp_all

section \<open>A kernel and a modem that answer\<close>

text \<open>Switching the interface, with the answers given; what it leaves is \<open>after_iface\<close>.\<close>

definition after_iface :: "(u16 \<Rightarrow> u16) \<Rightarrow> u8 list \<Rightarrow> world \<Rightarrow> world" where
  "after_iface change flags w =
     (let fd = shd (w_open w) in
      w\<lparr>w_open := stl (w_open w), w_rd := stl (w_rd w), w_ioc := stl (stl (w_ioc w)),
        w_trace := w_trace w @ [EvOpen ''socket'' fd, EvIoctl fd SIOCGIFFLAGS 0, EvRead flags,
          EvIoctl fd SIOCSIFFLAGS (uint (change (get16 flags))), EvClose fd]\<rparr>)"

lemma network_iface_runs:
  assumes "0 \<le> shd (w_open w)" "\<forall>x \<in> sset (w_ioc w). 0 < x" "shd (w_rd w) = Some [a, b]"
  shows "network_iface change (Some i) w = (Done (), after_iface change [a, b] w)"
proof -
  have "\<not> shd (w_ioc w) < 0" "\<not> shd (stl (w_ioc w)) < 0" using assms(2) by (meson less_asym shd_sset stl_sset)+
  with assms(1,3) show ?thesis
    by (simp add: network_iface_def after_iface_def bnd_def sys_socket_def sys_open_def get_flags_def sys_ioctl_def
        sys_read_def Let_def complete_def try_rc_def close_valid_def sys_close_def emit_def check_eq ret_eq get16_def)
qed

lemma aries_controls_run:
  assumes status: "w_files w ''/sys/class/modemctl/xmm/status'' = Some [49, 10]"
    and control: "w_files w ''/sys/class/modemctl/xmm/control'' \<noteq> None" and fio: "\<forall>x \<in> sset (w_fio w). 4 \<le> x"
  shows "\<exists>text. bnd (aries_power_on d) (\<lambda>_. aries_power_off d) w = (Done (),
    w\<lparr>w_fio := sdrop 6 (w_fio w), w_files := (w_files w)(''/sys/class/modemctl/xmm/control'' \<mapsto> text)\<rparr>)"
proof -
  let ?s = "w_fio w"
  have f: "4 \<le> ?s !! i" for i using fio snth_sset [of ?s i] by blast
  have n: "4 \<le> shd ?s" "4 \<le> shd (stl ?s)" "4 \<le> shd (stl (stl ?s))" "4 \<le> shd (stl (stl (stl ?s)))"
      "4 \<le> shd (stl (stl (stl (stl ?s))))" "4 \<le> shd (stl (stl (stl (stl (stl ?s)))))"
    using f [of 0] f [of 1] f [of 2] f [of 3] f [of 4] f [of 5] by (simp_all add: eval_nat_numeral)
  have a: "atoi [49, 10] = Done 1" by (simp add: isspace_def)
  have t: "take (min 100 (max 1 (nat k))) [49, 10 :: u8] = [49, 10]" if "4 \<le> k" for k using that by simp
  have m: "min (nat k) 4 = 4" if "4 \<le> k" for k using that by linarith
  have rd: "sysfs_value_read (Some ''/sys/class/modemctl/xmm/status'') v = (Done 1, v\<lparr>w_fio := stl (stl (w_fio v))\<rparr>)"
    if "w_files v = w_files w" "4 \<le> shd (w_fio v)" "4 \<le> shd (stl (w_fio v))" for v :: world
    using that status t [OF that(3)] a
    by (simp add: sysfs_value_read_def bnd_def sys_open_read_def sys_file_read_def file_of_def Let_def lift_outcome_eq
        del: take_Cons')
  have on: "aries_power_on d w = (Done (), w\<lparr>w_fio := stl (stl ?s)\<rparr>)"
    using rd [of w] n(1,2) by (simp add: aries_power_on_def aries_control_def bnd_def ret_eq)
  have len: "length (ascii ''off'' @ [10]) = 4" by (simp add: ascii_def)
  show ?thesis
    using rd [of "w\<lparr>w_fio := stl (stl ?s)\<rparr>"] n control on len m [OF n(6)]
    by (auto simp: aries_power_off_def aries_control_def bnd_def sysfs_string_write_def sys_open_read_def
        sys_file_write_def Let_def check_eq eval_nat_numeral)
qed

lemma completes_onedram_wait:
  assumes "length bs = 4" "get32 bs = word"
  shows "completes (crespo_ok md5 secret sz p m) (onedram_wait 51 word) [bs] (\<lambda>_. True)"
proof (rule completes_crespo_stage)
  have "completes willing (bnd (read_whole 4) (\<lambda>answer. if get32 answer \<noteq> word then onedram_wait 50 word else ret ()))
      ([bs] @ []) (\<lambda>_. True)"
    by (rule completes_bnd [OF completes_read_whole [OF assms(1)]]) (use assms(2) in \<open>auto intro: completes_ret\<close>)
  then have "completes willing (onedram_wait (Suc 50) word) [bs] (\<lambda>_. True)"
    unfolding onedram_wait.simps(2) by (intro completes_then [OF completes_select_ready]) simp
  then show "completes willing (onedram_wait 51 word) [bs] (\<lambda>_. True)" by (simp only: eval_nat_numeral)
  show "unchanged host_state (onedram_wait 51 word)" by (rule unchanged_onedram_wait [OF host_state_blind])
qed

lemma completes_aries_calls:
  "completes (crespo_ok md5 secret sz p m) fio [] (\<lambda>d. 0 \<le> d)"
  "completes (crespo_ok md5 secret sz p m) (sys_ioctl fd request arg) [] (\<lambda>rc. 0 < rc)"
  "length bs \<le> 0x8000 \<Longrightarrow> completes (crespo_ok md5 secret sz p m) (write_whole fd bs) [] (\<lambda>_. True)"
  "offset + length bs \<le> sz' \<Longrightarrow>
     completes (crespo_ok md5 secret sz p m) (device_store (offset, sz') bs) [] (\<lambda>_. True)"
proof -
  have nonneg: "\<forall>x \<in> sset s. 2 \<le> x \<Longrightarrow> 0 \<le> shd s" for s :: "int stream"
    by (meson order_trans shd_sset zero_le_numeral)
  show "completes (crespo_ok md5 secret sz p m) fio [] (\<lambda>d. 0 \<le> d)"
    by (rule completesI) (auto simp: fio_def crespo_ok_def host_ok_def willing_def nonneg dest: stl_sset)
  show "completes (crespo_ok md5 secret sz p m) (sys_ioctl fd request arg) [] (\<lambda>rc. 0 < rc)"
    by (rule completesI) (auto simp: sys_ioctl_def crespo_ok_def host_ok_def willing_def shd_sset dest: stl_sset)
  show "completes (crespo_ok md5 secret sz p m) (write_whole fd bs) [] (\<lambda>_. True)" if "length bs \<le> 0x8000"
    by (rule completes_crespo_stage [OF completes_write_whole [OF that] unchanged_steps(1) [OF host_state_blind]])
  show "completes (crespo_ok md5 secret sz p m) (device_store (offset, sz') bs) [] (\<lambda>_. True)"
    if "offset + length bs \<le> sz'"
    by (rule completesI) (use that in \<open>auto simp: device_store_def emit_def crespo_ok_def host_ok_def willing_def\<close>)
qed

lemma completes_aries_nv:
  assumes cfg: "nv_configured c p m bp bm secret sz ck" and sz: "sz \<noteq> 0"
    and fits: "ARIES_ONEDRAM_NV_DATA_OFFSET + sz \<le> ARIES_ONEDRAM_MEMORY_SIZE"
  shows "completes (crespo_ok md5 secret sz p m) (xmm616_nv_data_send md5 (Some c) (- 1)
    (Some (ARIES_ONEDRAM_NV_DATA_OFFSET, ARIES_ONEDRAM_MEMORY_SIZE))) [] (\<lambda>_. True)"
proof -
  have "completes (crespo_ok md5 secret sz p m) (ipc_nv_data_load md5 (Some c)) [] (\<lambda>nv. length nv = sz)"
  proof (rule completesI)
    fix w :: world and rest
    assume w: "crespo_ok md5 secret sz p m w" and rd: "w_rd w = map Some [] @- rest"
    then have "host_ok w" "nv_valid md5 secret sz (w_files w) p m" by (simp_all add: crespo_ok_def)
    from nv_load_runs [OF cfg this] rd
    show "\<exists>a w'. ipc_nv_data_load md5 (Some c) w = (Done a, w') \<and> length a = sz \<and>
        crespo_ok md5 secret sz p m w' \<and> w_rd w' = rest"
      by (fastforce simp: crespo_ok_def)
  qed
  then have "completes (crespo_ok md5 secret sz p m) (bnd (ipc_nv_data_load md5 (Some c)) (\<lambda>nv.
      device_store (ARIES_ONEDRAM_NV_DATA_OFFSET, ARIES_ONEDRAM_MEMORY_SIZE) nv)) [] (\<lambda>_. True)"
    by (rule completes_then) (use fits in \<open>auto intro: completes_aries_calls(4)\<close>)
  with cfg sz show ?thesis by (simp add: xmm616_nv_data_send_def nv_configured_def)
qed

lemma completes_aries_load:
  assumes cfg: "nv_configured c p m bp bm secret sz ck" and sz: "sz \<noteq> 0" and fd: "0 \<le> serial"
    and fits: "ARIES_ONEDRAM_NV_DATA_OFFSET + sz \<le> ARIES_ONEDRAM_MEMORY_SIZE"
    and mem: "length mem = ARIES_MODEM_IMAGE_SIZE"
  shows "completes (crespo_ok md5 secret sz p m) (aries_load md5 (Some c) onedram serial mem)
    (([[0xF0], [info]] @ [] @ [[0x01]]) @ [le32 ARIES_ONEDRAM_INIT] @ [le32 ARIES_ONEDRAM_DEINIT]) (\<lambda>_. True)"
proof -
  let ?J = "crespo_ok md5 secret sz p m"
  let ?n = "ARIES_MODEM_IMAGE_SIZE - ARIES_PSI_SIZE"
  let ?fw = "take ?n (drop ARIES_PSI_SIZE mem)"
  have len: "length ?fw \<noteq> 0" "length ?fw \<le> ARIES_ONEDRAM_MEMORY_SIZE" "ARIES_PSI_SIZE + ?n \<le> length mem"
    using mem by (simp_all add: ARIES_PSI_SIZE_def ARIES_MODEM_IMAGE_SIZE_def ARIES_ONEDRAM_MEMORY_SIZE_def)
  have psi: "completes ?J (xmm616_psi_send (Some c) serial (Some mem) (of_nat ARIES_PSI_SIZE)) ([[0xF0], [info]] @ [] @ [[0x01]]) (\<lambda>_. True)"
    by (rule completes_crespo_stage [OF completes_xmm616_psi [OF fd] unchanged_xmm616_psi])
      (use mem in \<open>auto simp: ARIES_PSI_SIZE_def ARIES_MODEM_IMAGE_SIZE_def\<close>)
  have words: "length (le32 v) = 4" "get32 (le32 v) = v" for v by (simp_all add: layout_simps)
  have fw: "completes ?J (xmm616_firmware_send (Some c) (- 1) (Some (0, ARIES_ONEDRAM_MEMORY_SIZE)) (Some ?fw)) [] (\<lambda>_. True)"
    using len completes_aries_calls(4) [of 0 ?fw ARIES_ONEDRAM_MEMORY_SIZE] by (simp add: xmm616_firmware_send_def)
  have rel: "completes ?J (bnd (sys_ioctl onedram ONEDRAM_REL_SEM 0) (\<lambda>rc. bnd (check (\<not> rc < 0)) (\<lambda>_.
      bnd (write_whole onedram (le32 ARIES_ONEDRAM_MAGIC)) (\<lambda>_. onedram_wait 51 ARIES_ONEDRAM_DEINIT))))
      [le32 ARIES_ONEDRAM_DEINIT] (\<lambda>_. True)"
    by (intro completes_then [OF completes_aries_calls(2)] completes_then [OF completes_check]
        completes_then [OF completes_aries_calls(3)] completes_onedram_wait words) (simp_all add: words)
  have "completes ?J (bnd fio (\<lambda>mapped. bnd (check (\<not> mapped < 0)) (\<lambda>_. bnd (image_part ARIES_PSI_SIZE ?n mem) (\<lambda>firmware.
      bnd (xmm616_firmware_send (Some c) (- 1) (Some (0, ARIES_ONEDRAM_MEMORY_SIZE)) (Some firmware)) (\<lambda>_.
      bnd (xmm616_nv_data_send md5 (Some c) (- 1) (Some (ARIES_ONEDRAM_NV_DATA_OFFSET, ARIES_ONEDRAM_MEMORY_SIZE))) (\<lambda>_.
      bnd (sys_ioctl onedram ONEDRAM_REL_SEM 0) (\<lambda>rc. bnd (check (\<not> rc < 0)) (\<lambda>_.
      bnd (write_whole onedram (le32 ARIES_ONEDRAM_MAGIC)) (\<lambda>_. onedram_wait 51 ARIES_ONEDRAM_DEINIT)))))))))
      [le32 ARIES_ONEDRAM_DEINIT] (\<lambda>_. True)"
    unfolding image_part_eq [OF len(3)]
    by (intro completes_then [OF completes_aries_calls(1)] completes_then [OF completes_check] completes_then [OF fw]
        completes_then [OF completes_aries_nv [OF cfg sz fits]] rel) simp
  then show ?thesis
    unfolding aries_load_def by (rule completes_bnd [OF psi completes_bnd [OF completes_onedram_wait [OF words(1,2)]]])
qed

lemma aries_boot_completes:
  assumes cfg: "nv_configured c p m bp bm secret sz ck" and sz: "sz \<noteq> 0"
    and fits: "ARIES_ONEDRAM_NV_DATA_OFFSET + sz \<le> ARIES_ONEDRAM_MEMORY_SIZE"
    and h: "cl_handlers c = Some h" "h_power_on h = Some aries_power_on" "h_power_off h = Some aries_power_off"
    and ok: "crespo_ok md5 secret sz p m w" "\<forall>x \<in> sset (w_fio w). 4 \<le> x" "\<forall>x \<in> sset (w_open w). 0 \<le> x"
    and status: "w_files w ''/sys/class/modemctl/xmm/status'' = Some [49, 10]"
    and control: "w_files w ''/sys/class/modemctl/xmm/control'' \<noteq> None" "''/sys/class/modemctl/xmm/control'' \<notin> {p, m}"
    and img: "w_files w ''/dev/block/bml12'' = Some c0" "ARIES_MODEM_IMAGE_SIZE \<le> length c0"
    and rd: "w_rd w = Some [a, b] ## map Some (([[0xF0], [info]] @ [] @ [[0x01]]) @ [le32 ARIES_ONEDRAM_INIT] @
      [le32 ARIES_ONEDRAM_DEINIT]) @- rest"
  shows "\<exists>w' es. aries_boot md5 (Some c) w = (Done (), w') \<and> w_rd w' = rest \<and> w_trace w' = w_trace w @ es \<and>
    opened es = [shd (w_open w), shd (stl (w_open w)), shd (stl (stl (w_open w)))]"
proof -
  let ?read = "file_data_read (Some ''/dev/block/bml12'') ARIES_MODEM_IMAGE_SIZE 0x1000 0"
  let ?control = "''/sys/class/modemctl/xmm/control''"
  let ?mem = "take ARIES_MODEM_IMAGE_SIZE c0"
  have "files_ok w" using ok by (simp add: crespo_ok_def host_ok_files)
  from file_data_read_ok [OF this img(1), of "0x1000" ARIES_MODEM_IMAGE_SIZE 0] img(2)
  obtain w0 where r0: "?read w = (Done ?mem, w0)" "w_files w0 = w_files w" by (auto simp: ARIES_MODEM_IMAGE_SIZE_def)
  have s: "file_stable J \<Longrightarrow> J w \<Longrightarrow> J w0" for J using stableD [OF stable_files(1) r0(1)] by blast
  have w0: "crespo_ok md5 secret sz p m w0" "w_rd w0 = w_rd w" "w_open w0 = w_open w" "\<forall>x \<in> sset (w_fio w0). 4 \<le> x"
      "w_trace w0 = w_trace w"
    using s [OF host_ok_stable [of "w_rd w"]] s [of "\<lambda>v. w_open v = w_open w"] s [of "\<lambda>v. \<forall>x \<in> sset (w_fio v). 4 \<le> x"]
      s [OF trace_stable [of "w_trace w"]] ok r0(2)
    by (simp_all add: crespo_ok_def file_stable_def stl_sset)
  define onedram sock serial where fd: "onedram = shd (w_open w)" "sock = shd (stl (w_open w))" "serial = shd (stl (stl (w_open w)))"
  have pos: "0 \<le> onedram" "0 \<le> sock" "0 \<le> serial" unfolding fd using ok(3) by (meson shd_sset stl_sset)+
  define v1 where "v1 = w0\<lparr>w_open := stl (w_open w), w_trace := w_trace w0 @ [EvOpen ''/dev/onedram'' onedram]\<rparr>"
  define v2 where "v2 = after_iface (\<lambda>flags. and flags (not IFF_UP)) [a, b] v1"
  have iface: "network_iface_down (Some ''svnet0'') v1 = (Done (), v2)"
    unfolding network_iface_down_def v2_def
    by (rule network_iface_runs) (use pos w0 rd in \<open>auto simp: v1_def fd(2) crespo_ok_def host_ok_def\<close>)
  obtain cmd where controls: "bnd (aries_power_on (hd_power (h_data h))) (\<lambda>_. aries_power_off (hd_power (h_data h))) v2 =
      (Done (), v2\<lparr>w_fio := sdrop 6 (w_fio v2), w_files := (w_files v2)(?control \<mapsto> cmd)\<rparr>)" (is "_ = (_, ?v3)")
    using aries_controls_run [of v2] status control(1) r0(2) w0(4) by (auto simp: v2_def v1_def after_iface_def Let_def)
  have prep: "aries_prepare aries_power_on aries_power_off (hd_power (h_data h)) v1 = (Done (), ?v3)"
    using controls iface by (simp add: aries_prepare_def bnd_def [of "network_iface_down _"])
  define v4 where "v4 = ?v3\<lparr>w_open := stl (stl (stl (w_open w))), w_trace := w_trace ?v3 @ [EvOpen ''/dev/s3c2410_serial3'' serial]\<rparr>"
  have sdrop: "x \<in> sset (sdrop n t) \<Longrightarrow> x \<in> sset t" for x :: int and n t
    by (induction n arbitrary: t) (auto dest: stl_sset)
  have "nv_valid md5 secret sz ((w_files w0)(?control \<mapsto> cmd)) p m"
    using w0(1) control(2) by (auto simp: crespo_ok_def nv_valid_def split: option.splits)
  then have v4: "crespo_ok md5 secret sz p m v4" "w_rd v4 = stl (w_rd w)"
    using w0 by (auto simp: v4_def v2_def v1_def after_iface_def Let_def crespo_ok_def host_ok_def willing_def
        dest!: sdrop stl_sset)
  have "length ?mem = ARIES_MODEM_IMAGE_SIZE" using img(2) by simp
  from completesD [OF completes_aries_load [OF cfg sz pos(3) fits this] v4(1), of info rest] v4(2) rd
  obtain w2 where load: "aries_load md5 (Some c) onedram serial ?mem v4 = (Done (), w2)" "w_rd w2 = rest" by auto
  have o1: "sys_open ''/dev/onedram'' w0 = (Done onedram, v1)"
    using w0(3) pos(1) by (simp add: sys_open_def v1_def fd(1) Let_def)
  have o2: "sys_open ''/dev/s3c2410_serial3'' ?v3 = (Done serial, v4)"
    using pos(3) by (simp add: sys_open_def v4_def v2_def v1_def after_iface_def fd(3) Let_def)
  have "aries_boot md5 (Some c) w = complete (aries_load md5 (Some c) onedram serial ?mem)
      (bnd (close_valid serial) (\<lambda>_. close_valid onedram)) v4"
    using pos prep by (simp add: aries_boot_def h bnd_def r0(1) o1 o2 try_rc_def)
  with load have run: "aries_boot md5 (Some c) w =
      (Done (), w2\<lparr>w_trace := w_trace w2 @ closes serial @ closes onedram\<rparr>)"
    by (simp add: complete_def try_rc_def bnd_def close_valid_shape check_eq)
  obtain es2 where "w_trace w2 = w_trace v4 @ es2" "\<forall>e \<in> set es2. opened [e] = [] \<and> closed [e] = []"
    using addsD [OF adds_aries_load load(1)] by blast
  then show ?thesis
    using run load(2) neither_opened [of es2] w0(5) unfolding fd(1) [symmetric] fd(2) [symmetric] fd(3) [symmetric]
    by (auto simp: v4_def v2_def v1_def after_iface_def Let_def closes_def fd)
qed

definition demo_aries_world :: world where
  "demo_aries_world = demo_nv_world\<lparr>w_sel := sconst 1, w_wr := sconst 0x8000, w_ioc := sconst 1, w_fio := sconst 4,
     w_open := 3 ## 4 ## sconst 5, w_trace := [],
     w_rd := Some [0, 0] ## map Some (([[0xF0], [7]] @ [] @ [[0x01]]) @ [le32 ARIES_ONEDRAM_INIT] @
       [le32 ARIES_ONEDRAM_DEINIT]) @- sconst None,
     w_files := (w_files demo_nv_world)(''/dev/block/bml12'' \<mapsto> calloc 0xA00000,
       ''/sys/class/modemctl/xmm/status'' \<mapsto> [49, 10], ''/sys/class/modemctl/xmm/control'' \<mapsto> [])\<rparr>"

lemma demo_aries_ok: "crespo_ok demo_md5 [7] 5 ''nv'' ''nv.md5'' demo_aries_world"
  using demo_nv_valid
  by (auto simp: crespo_ok_def host_ok_def willing_def demo_aries_world_def nv_valid_def split: option.splits)

lemma demo_aries_configured: "nv_configured demo_aries_env ''nv'' ''nv.md5'' ''bak'' ''bak.md5'' [7] 5 2"
  by (simp add: nv_configured_def nv_accessors demo_aries_env_def demo_env_def)

theorem aries_boot_loads_modem_witness:
  "\<exists>w' nv. aries_boot demo_md5 (Some demo_aries_env) demo_aries_world = (Done (), w') \<and>
     opened (w_trace w') = [3, 4, 5] \<and> closed (w_trace w') = [4, 5, 3] \<and>
     sent 3 w' = le32 ARIES_ONEDRAM_MAGIC \<and> stores w' = [(0, calloc 0x9FB000), (0xD80000, nv)] \<and> w_files w' ''nv'' = Some nv"
proof -
  let ?w = demo_aries_world and ?mem = "calloc 0xA00000 :: u8 list" and ?h = "the (cl_handlers demo_aries_env)"
  have t: "w_trace ?w = []" by (simp add: demo_aries_world_def)
  have h: "cl_handlers demo_aries_env = Some ?h" "h_power_on ?h = Some aries_power_on" "h_power_off ?h = Some aries_power_off"
    by (simp_all add: demo_aries_env_def aries_handlers_def)
  have img: "w_files ?w ''/dev/block/bml12'' = Some ?mem" by (simp add: demo_aries_world_def)
  obtain w' where w': "aries_boot demo_md5 (Some demo_aries_env) ?w = (Done (), w')" and o: "opened (w_trace w') = [3, 4, 5]"
    using aries_boot_completes [OF demo_aries_configured _ _ h demo_aries_ok _ _ _ _ _ img, of 0 0 7 "sconst None"]
    by (auto simp: demo_aries_world_def ARIES_ONEDRAM_NV_DATA_OFFSET_def ARIES_ONEDRAM_MEMORY_SIZE_def ARIES_MODEM_IMAGE_SIZE_def)
  have mem: "take ARIES_MODEM_IMAGE_SIZE (file_of ?w ''/dev/block/bml12'') = ?mem"
    using img by (simp add: file_of_def ARIES_MODEM_IMAGE_SIZE_def)
  have "drop ARIES_PSI_SIZE ?mem = calloc 0x9FB000" by (simp add: calloc_def ARIES_PSI_SIZE_def)
  then show ?thesis
    using aries_boot_loads_modem [OF demo_aries_configured h w'] o w'
    unfolding mem by (auto simp: t sent_def stores_def ARIES_ONEDRAM_NV_DATA_OFFSET_def)
qed

end
