(* ===== verification/Herolte.thy ===== *)
theory Herolte
  imports Generic Aries "HOL-Library.Sublist"
begin

text \<open>
  devices/herolte/herolte.c: the Galaxy S7, whose modem the kernel loads with the blocks of an image
  it is handed; and partitions/toc/toc.c, the table of contents of that image.

  A structure that goes with a request appears in the trace as bytes written to the descriptor just
  before the request; in place of the pointer to a block stand the bytes of the block. The value that
  \<open>errno\<close> has after a failed call is a parameter, a function of the world. \<open>ioctl\<close> of libc answers -1
  where the kernel's answer is negative. The NV data file and the image are read through descriptors,
  so that what they hold are answers of the kernel here.
\<close>

section \<open>The table of contents\<close>

record firmware_toc_entry =
  toc_name :: "u8 list"
  toc_offset :: u32
  toc_loadaddr :: u32
  toc_size :: u32
  toc_crc :: u32
  toc_entryid :: u32

definition sizeof_firmware_toc_entry :: nat where "sizeof_firmware_toc_entry = 32"
definition N_TOC_ENTRIES :: nat where "N_TOC_ENTRIES = 512 div sizeof_firmware_toc_entry"

definition firmware_toc_entry_of :: "u8 list \<Rightarrow> firmware_toc_entry" where
  "firmware_toc_entry_of bs = \<lparr>toc_name = take 12 bs, toc_offset = get32 (drop 12 bs),
     toc_loadaddr = get32 (drop 16 bs), toc_size = get32 (drop 20 bs), toc_crc = get32 (drop 24 bs),
     toc_entryid = get32 (drop 28 bs)\<rparr>"

text \<open>The array \<open>toc\<close> as the bytes that were read into it lay it out.\<close>

definition toc_of :: "u8 list \<Rightarrow> firmware_toc_entry list" where
  "toc_of bs = map (\<lambda>i. firmware_toc_entry_of (drop (i * sizeof_firmware_toc_entry) bs)) [0..<N_TOC_ENTRIES]"

fun find_toc_loop :: "u8 list \<Rightarrow> firmware_toc_entry list \<Rightarrow> firmware_toc_entry option" where
  "find_toc_loop name [] = None"
| "find_toc_loop name (entry # toc) =
     (if hd (toc_name entry) = 0 then None
      else if strncmp_eq 12 (toc_name entry) name then Some entry
      else find_toc_loop name toc)"

definition find_toc_entry :: "u8 list \<Rightarrow> firmware_toc_entry list \<Rightarrow> firmware_toc_entry option" where
  "find_toc_entry name toc = find_toc_loop name (take N_TOC_ENTRIES toc)"

section \<open>Calls that may not return\<close>

definition then_run ::
  "(world \<Rightarrow> ('a outcome \<times> world) option) \<Rightarrow> ('a \<Rightarrow> world \<Rightarrow> ('b outcome \<times> world) option) \<Rightarrow>
   world \<Rightarrow> ('b outcome \<times> world) option" where
  "then_run m f w = (case m w of
       None \<Rightarrow> None
     | Some (Done a, w') \<Rightarrow> f a w'
     | Some (Fail, w') \<Rightarrow> Some (Fail, w')
     | Some (Undef, w') \<Rightarrow> Some (Undef, w'))"

text \<open>A step of the boot function: \<open>Some rc\<close> is \<open>goto exit\<close> with that code, \<open>None\<close> goes on.\<close>

definition or_exit ::
  "(world \<Rightarrow> (int option outcome \<times> world) option) \<Rightarrow> (world \<Rightarrow> (int outcome \<times> world) option) \<Rightarrow>
   world \<Rightarrow> (int outcome \<times> world) option" where
  "or_exit m rest = then_run m (\<lambda>r. case r of Some rc \<Rightarrow> (\<lambda>w. Some (Done rc, w)) | None \<Rightarrow> rest)"

text \<open>A step that returns 0 or -1, with the code the boot function then leaves with.\<close>

definition step :: "unit io \<Rightarrow> (world \<Rightarrow> int) \<Rightarrow> world \<Rightarrow> (int option outcome \<times> world) option" where
  "step m code = and_then (try_rc m) (\<lambda>rc w. Some (Done (if rc < 0 then Some (code w) else None), w))"

section \<open>Requests\<close>

definition IOCTL_MODEM_RESET :: u32 where "IOCTL_MODEM_RESET = IO_o 0x21"
definition IOCTL_MODEM_DL_START :: u32 where "IOCTL_MODEM_DL_START = IO_o 0x28"
definition IOCTL_DPRAM_SEND_BOOT :: u32 where "IOCTL_DPRAM_SEND_BOOT = IO_o 0x40"
definition IOCTL_SECURITY_REQ :: u32 where "IOCTL_SECURITY_REQ = IO_o 0x53"
definition MAX_CHUNK_LEN :: nat where "MAX_CHUNK_LEN = 62 * 1024"

record security_req =
  req_mode :: u32
  req_size_boot :: u32
  req_size_main :: u32
  req_pad_zero :: u32

definition security_req_bytes :: "security_req \<Rightarrow> u8 list" where
  "security_req_bytes req = le32 (req_mode req) @ le32 (req_size_boot req) @ le32 (req_size_main req) @
     le32 (req_pad_zero req)"

record modem_firmware_partition_data =
  fp_binary :: "u8 list"
  fp_size :: u32
  fp_m_offset :: u32
  fp_b_offset :: u32
  fp_mode :: u32
  fp_len :: nat

definition partition_bytes :: "modem_firmware_partition_data \<Rightarrow> u8 list" where
  "partition_bytes p = take (fp_len p) (fp_binary p) @ le32 (fp_size p) @ le32 (fp_m_offset p) @
     le32 (fp_b_offset p) @ le32 (fp_mode p) @ le32 (of_nat (fp_len p))"

definition ioctl_struct :: "int \<Rightarrow> u32 \<Rightarrow> u8 list \<Rightarrow> unit io" where
  "ioctl_struct fd request bs =
     bnd (emit (EvWrite fd bs)) (\<lambda>_. bnd (sys_ioctl fd request 0) (\<lambda>rc. check (\<not> rc < 0)))"

section \<open>Uploading an image\<close>

text \<open>
  The loop over the blocks, with \<open>remaining\<close> bytes to go. A read or a request that fails ends it with
  the value of \<open>errno\<close>. The buffer is never released: the pointer is cleared before it is freed.
\<close>

function upload_loop ::
  "(world \<Rightarrow> int) \<Rightarrow> int \<Rightarrow> modem_firmware_partition_data \<Rightarrow> nat \<Rightarrow> world \<Rightarrow> (int outcome \<times> world) option" where
  "upload_loop errno device_fd part remaining w =
     (if 0 < remaining then
        let len = (if remaining < MAX_CHUNK_LEN then remaining else MAX_CHUNK_LEN)
        in case data_read len (fp_binary part) w of
             None \<Rightarrow> None
           | Some (Done binary, w1) \<Rightarrow>
               let p = part\<lparr>fp_binary := binary, fp_len := len\<rparr>
               in (case ioctl_struct device_fd IOCTL_DPRAM_SEND_BOOT (partition_bytes p) w1 of
                     (Done _, w2) \<Rightarrow>
                       upload_loop errno device_fd (p\<lparr>fp_m_offset := fp_m_offset p + of_nat len,
                         fp_b_offset := fp_b_offset p + of_nat len\<rparr>) (remaining - len) w2
                   | (_, w2) \<Rightarrow> Some (Done (errno w2), w2))
           | Some (_, w1) \<Rightarrow> Some (Done (errno w1), w1)
      else Some (Done 0, w))"
  by pat_completeness auto
termination
  by (relation "measure (\<lambda>(errno, device_fd, part, remaining, w). remaining)")
    (auto simp: MAX_CHUNK_LEN_def)

declare upload_loop.simps [simp del]

text \<open>
  The label \<open>exit\<close>: it looks at the pointer to the buffer, which is \<open>None\<close> here as long as nothing has been
  stored there, and clears it before it is freed.
\<close>

definition upload_exit :: "u8 list option \<Rightarrow> int \<times> u32 \<Rightarrow> world \<Rightarrow> ((int \<times> u32) outcome \<times> world) option" where
  "upload_exit binary res w = Some (case binary of None \<Rightarrow> Undef | Some _ \<Rightarrow> Done res, w)"

text \<open>
  \<open>lseek\<close> on the descriptor of an image, and whether it succeeds. It takes the offset as a signed value of
  32 bits and fails where that is negative. Otherwise the kernel can refuse it, with the next answer it
  has for a request on a device, as it does for a place behind the end of a block device.
\<close>

definition image_lseek :: "int \<Rightarrow> u32 \<Rightarrow> bool io" where
  "image_lseek fd offset w =
     (let w' = w\<lparr>w_ioc := stl (w_ioc w)\<rparr>
      in if sint offset < 0 \<or> shd (w_ioc w) < 0 then (Done False, w')
         else (Done True, w'\<lparr>w_trace := w_trace w @ [EvSeek fd (nat (sint offset))]\<rparr>))"

text \<open>
  The return code and, once the entry is found, its size; before that the size is not set, and is 0 here.
  A failure of \<open>lseek\<close> gives the negated \<open>errno\<close>. The pointer to the buffer is set by \<open>calloc\<close> only, after
  both entries are found.
\<close>

definition upload_chunk ::
  "(world \<Rightarrow> int) \<Rightarrow> int \<Rightarrow> int \<Rightarrow> firmware_toc_entry list \<Rightarrow> string \<Rightarrow> world \<Rightarrow>
   ((int \<times> u32) outcome \<times> world) option" where
  "upload_chunk errno device_fd firmware_fd toc name =
     (case find_toc_entry (ascii ''BOOT'') toc of
        None \<Rightarrow> upload_exit None (-1, 0)
      | Some boot_toc_entry \<Rightarrow>
          (case find_toc_entry (ascii name) toc of
             None \<Rightarrow> upload_exit None (-1, 0)
           | Some current_toc_entry \<Rightarrow>
               let part = \<lparr>fp_binary = calloc MAX_CHUNK_LEN, fp_size = toc_size current_toc_entry,
                     fp_m_offset = toc_loadaddr current_toc_entry - toc_loadaddr boot_toc_entry,
                     fp_b_offset = toc_offset current_toc_entry, fp_mode = 0, fp_len = 0\<rparr>
               in and_then (image_lseek firmware_fd (fp_b_offset part)) (\<lambda>found.
                  if \<not> found
                  then (\<lambda>w. upload_exit (Some (fp_binary part)) (- errno w, toc_size current_toc_entry) w)
                  else then_run (upload_loop errno device_fd part (unat (fp_size part)))
                         (\<lambda>rc. upload_exit (Some (fp_binary part)) (rc, toc_size current_toc_entry)))))"

definition select_secure_mode :: "int \<Rightarrow> bool \<Rightarrow> u32 \<Rightarrow> u32 \<Rightarrow> unit io" where
  "select_secure_mode boot0_fd secure size_boot size_main =
     ioctl_struct boot0_fd IOCTL_SECURITY_REQ (security_req_bytes \<lparr>req_mode = (if secure then 0 else 2),
       req_size_boot = size_boot, req_size_main = size_main, req_pad_zero = 0\<rparr>)"

section \<open>Booting\<close>

definition modem_image_devices :: "string list" where
  "modem_image_devices = [''/dev/disk/by-partlabel/RADIO'', ''/dev/block/platform/155a0000.ufs/by-name/RADIO'']"

definition ioctl_plain :: "int \<Rightarrow> u32 \<Rightarrow> unit io" where
  "ioctl_plain fd request = bnd (sys_ioctl fd request 0) (\<lambda>rc. check (\<not> rc < 0))"

text \<open>One stage of the handshake: a word is sent, and the answer has to be the one expected.\<close>

definition handshake ::
  "(world \<Rightarrow> int) \<Rightarrow> int \<Rightarrow> u32 \<Rightarrow> u32 \<Rightarrow> world \<Rightarrow> (int option outcome \<times> world) option" where
  "handshake errno fd word expected w =
     (case data_write fd (le32 word) w of
        None \<Rightarrow> None
      | Some (Done _, w1) \<Rightarrow>
          (case data_read 4 (le32 word) w1 of
             None \<Rightarrow> None
           | Some (Done buf, w2) \<Rightarrow> Some (Done (if get32 buf \<noteq> expected then Some (-1) else None), w2)
           | Some (_, w2) \<Rightarrow> Some (Done (Some (errno w2)), w2))
      | Some (_, w1) \<Rightarrow> Some (Done (Some (errno w1)), w1))"

text \<open>
  From the reset of the modem to the label \<open>exit\<close>. An upload counts as failed when its return code is
  negative; the code the boot function then leaves with is still the -1 it began with.
\<close>

definition herolte_steps ::
  "(world \<Rightarrow> int) \<Rightarrow> int \<Rightarrow> int \<Rightarrow> int \<Rightarrow> firmware_toc_entry list \<Rightarrow> world \<Rightarrow> (int outcome \<times> world) option" where
  "herolte_steps errno boot0_fd imagefd nvfd toc =
     or_exit (step (ioctl_plain boot0_fd IOCTL_MODEM_RESET) errno) (
     or_exit (step (select_secure_mode boot0_fd False 0 0) (\<lambda>_. -1)) (
     then_run (upload_chunk errno boot0_fd imagefd toc ''BOOT'') (\<lambda>(rc, size_boot).
     if rc < 0 then (\<lambda>w. Some (Done (-1), w)) else
     then_run (upload_chunk errno boot0_fd imagefd toc ''MAIN'') (\<lambda>(rc, size_main).
     if rc < 0 then (\<lambda>w. Some (Done (-1), w)) else
     then_run (upload_chunk errno boot0_fd nvfd toc ''NV'') (\<lambda>(rc, _).
     if rc < 0 then (\<lambda>w. Some (Done (-1), w)) else
     or_exit (step (select_secure_mode boot0_fd True size_boot size_main) (\<lambda>_. -1)) (
     or_exit (step (xmm626_kernel_smdk4412_power boot0_fd 1) (\<lambda>_. -1)) (
     or_exit (step (xmm626_kernel_smdk4412_boot_power boot0_fd 1) (\<lambda>_. -1)) (
     or_exit (step (ioctl_plain boot0_fd IOCTL_MODEM_DL_START) errno) (
     or_exit (handshake errno boot0_fd 0x900d 0xa00d) (
     or_exit (handshake errno boot0_fd 0x9f00 0xaf00) (
     or_exit (step (xmm626_kernel_smdk4412_boot_power boot0_fd 0) (\<lambda>_. -1))
       (\<lambda>w. Some (Done 0, w)))))))))))))"

text \<open>From the open image to the label \<open>exit\<close>, with the descriptors that are open there.\<close>

definition herolte_load ::
  "(world \<Rightarrow> int) \<Rightarrow> int \<Rightarrow> world \<Rightarrow> ((int \<times> int \<times> int) outcome \<times> world) option" where
  "herolte_load errno imagefd w =
     (case data_read 512 (calloc 512) w of
        None \<Rightarrow> None
      | Some (Done toc, w1) \<Rightarrow>
          and_then (sys_open ''/efs/nv_data.bin'') (\<lambda>nvfd.
          if nvfd = -1 then (\<lambda>w. Some (Done (errno w, nvfd, -1), w))
          else and_then (sys_open ''/dev/umts_boot0'') (\<lambda>boot0_fd.
          if boot0_fd < 0 then (\<lambda>w. Some (Done (errno w, nvfd, boot0_fd), w))
          else then_run (herolte_steps errno boot0_fd imagefd nvfd (toc_of toc))
            (\<lambda>rc w. Some (Done (rc, nvfd, boot0_fd), w)))) w1
      | Some (_, w1) \<Rightarrow> Some (Done (errno w1, -1, -1), w1))"

definition herolte_boot :: "(world \<Rightarrow> int) \<Rightarrow> world \<Rightarrow> (int outcome \<times> world) option" where
  "herolte_boot errno =
     and_then (open_android_modem_partition modem_image_devices) (\<lambda>(imagefd, err).
     if imagefd = -1 then (\<lambda>w. Some (Done err, w))
     else then_run (herolte_load errno imagefd) (\<lambda>(rc, nvfd, boot0_fd).
       and_then (close_valid boot0_fd) (\<lambda>_.
       and_then (close_valid imagefd) (\<lambda>_.
       and_then (close_valid nvfd) (\<lambda>_ w. Some (Done rc, w))))))"

section \<open>Handlers\<close>

definition herolte_open :: open_handler where
  "herolte_open data type =
     (case data of None \<Rightarrow> fail
      | Some a \<Rightarrow>
          bnd (xmm626_kernel_smdk4412_open type) (\<lambda>fd.
          bnd (heap_set a fd) (\<lambda>_. check (\<not> fd < 0))))"

definition herolte_close :: close_handler where
  "herolte_close data =
     (case data of None \<Rightarrow> fail
      | Some a \<Rightarrow>
          bnd (heap_get a) (\<lambda>fd.
          bnd (try_rc (xmm626_kernel_smdk4412_close fd)) (\<lambda>_. heap_set a (-1))))"

definition herolte_read :: read_handler where
  "herolte_read data len =
     (case data of None \<Rightarrow> ret None
      | Some a \<Rightarrow> bnd (heap_get a) (\<lambda>fd. xmm626_kernel_smdk4412_read fd len))"

definition herolte_write :: write_handler where
  "herolte_write data buffer =
     (case data of None \<Rightarrow> ret (-1)
      | Some a \<Rightarrow> bnd (heap_get a) (\<lambda>fd. xmm626_kernel_smdk4412_write fd buffer))"

definition herolte_poll :: poll_handler where
  "herolte_poll data fds =
     (case data of None \<Rightarrow> fail
      | Some a \<Rightarrow> bnd (heap_get a) (\<lambda>fd. xmm626_kernel_smdk4412_poll fd fds))"

definition herolte_power_on :: power_handler where
  "herolte_power_on data = ret ()"

definition herolte_power_off :: power_handler where
  "herolte_power_off data =
     bnd (sys_open ''/dev/umts_boot0'') (\<lambda>fd.
     if fd < 0 then fail
     else
       bnd (try_rc (xmm626_kernel_smdk4412_power fd 0)) (\<lambda>rc.
       bnd (sys_close fd) (\<lambda>_. check (\<not> rc < 0))))"

definition herolte_gprs_activate :: gprs_handler where
  "herolte_gprs_activate data cid = ret ()"

definition herolte_gprs_deactivate :: gprs_handler where
  "herolte_gprs_deactivate data cid = ret ()"

definition herolte_data_create ::
  "slot option \<Rightarrow> slot option \<Rightarrow> slot option \<Rightarrow> handler_data \<Rightarrow> handler_data io" where
  "herolte_data_create transport_data power_data gprs_data d =
     (case transport_data of None \<Rightarrow> fail
      | Some s \<Rightarrow> bnd heap_calloc (\<lambda>a. ret (slot_set s (Some a) d)))"

definition herolte_data_destroy :: "ptr \<Rightarrow> ptr \<Rightarrow> ptr \<Rightarrow> unit io" where
  "herolte_data_destroy transport_data power_data gprs_data =
     (case transport_data of None \<Rightarrow> fail | Some a \<Rightarrow> heap_free a)"

definition herolte_handlers :: ipc_client_handlers where
  "herolte_handlers = \<lparr>h_open = Some herolte_open, h_close = Some herolte_close, h_read = Some herolte_read,
     h_write = Some herolte_write, h_poll = Some herolte_poll, h_power_on = Some herolte_power_on,
     h_power_off = Some herolte_power_off, h_gprs_activate = Some herolte_gprs_activate,
     h_gprs_deactivate = Some herolte_gprs_deactivate, h_data_create = Some herolte_data_create,
     h_data_destroy = Some herolte_data_destroy,
     h_data = \<lparr>hd_transport = None, hd_power = None, hd_gprs = None\<rparr>\<rparr>"

definition herolte_gprs_specs :: ipc_client_gprs_specs where
  "herolte_gprs_specs = \<lparr>gs_get_iface = Some xmm626_kernel_smdk4412_gprs_get_iface,
     gs_get_capabilities = Some xmm626_kernel_smdk4412_gprs_get_capabilities\<rparr>"

definition herolte_nv_data_specs :: ipc_client_nv_data_specs where
  "herolte_nv_data_specs = \<lparr>nv_data_path = Some ''/efs/nv_data.bin'',
     nv_data_md5_path = Some ''/efs/nv_data.bin.md5'', nv_data_backup_path = Some ''/efs/.nv_data.bak'',
     nv_data_backup_md5_path = Some ''/efs/.nv_data.bak.md5'',
     nv_data_secret = Some (ascii ''Samsung_Android_RIL''), nv_data_size = 0x200000,
     nv_data_chunk_size = 0x1000\<rparr>"

definition herolte_rfs_ops :: ipc_client_ops where
  "herolte_rfs_ops = \<lparr>op_boot = None, op_send = Some xmm626_kernel_smdk4412_rfs_send,
     op_recv = Some xmm626_kernel_smdk4412_rfs_recv\<rparr>"

text \<open>Callers take every code that is not negative for success.\<close>

definition herolte_fmt_ops :: "(world \<Rightarrow> int) \<Rightarrow> ipc_client_ops" where
  "herolte_fmt_ops errno = \<lparr>op_boot = Some (\<lambda>client.
       bnd (returning (herolte_boot errno)) (\<lambda>rc. check (\<not> rc < 0))),
     op_send = Some xmm626_kernel_smdk4412_fmt_send, op_recv = Some xmm626_kernel_smdk4412_fmt_recv\<rparr>"

lemma herolte_handlers_i9300:
  "herolte_handlers = i9300_handlers" "herolte_gprs_specs = i9300_gprs_specs"
  "herolte_nv_data_specs = i9300_nv_data_specs" "herolte_rfs_ops = i9300_rfs_ops"
  by (simp_all add: herolte_handlers_def i9300_handlers_def herolte_open_def i9300_open_def herolte_close_def
      i9300_close_def herolte_read_def i9300_read_def herolte_write_def i9300_write_def herolte_poll_def
      i9300_poll_def herolte_power_on_def i9300_power_on_def herolte_power_off_def i9300_power_off_def
      herolte_gprs_activate_def i9300_gprs_activate_def herolte_gprs_deactivate_def i9300_gprs_deactivate_def
      herolte_data_create_def i9300_data_create_def herolte_data_destroy_def i9300_data_destroy_def
      herolte_gprs_specs_def i9300_gprs_specs_def herolte_nv_data_specs_def i9300_nv_data_specs_def
      herolte_rfs_ops_def i9300_rfs_ops_def fun_eq_iff split: option.split)

section \<open>What a call adds to the trace\<close>

text \<open>No read fails and no request is refused.\<close>

definition obliging :: "world \<Rightarrow> bool" where
  "obliging w \<longleftrightarrow> None \<notin> sset (w_rd w) \<and> (\<forall>x \<in> sset (w_ioc w). 0 \<le> x)"

text \<open>Events that open and close nothing.\<close>

definition calm :: "event list \<Rightarrow> bool" where
  "calm es \<longleftrightarrow> opened es = [] \<and> closed es = []"

text \<open>
  When it returns, it has a result and added to the trace what \<open>R\<close> says, or it ran into undefined
  behaviour, and there is a \<open>gap\<close>. Where that is asked for (\<open>sure\<close>), the kernel stays obliging.
\<close>

definition does ::
  "bool \<Rightarrow> bool \<Rightarrow> (world \<Rightarrow> ('a outcome \<times> world) option) \<Rightarrow> ('a \<Rightarrow> event list \<Rightarrow> bool) \<Rightarrow> bool" where
  "does sure gap m R \<longleftrightarrow> (\<forall>w r w'. (sure \<longrightarrow> obliging w) \<longrightarrow> m w = Some (r, w') \<longrightarrow> (sure \<longrightarrow> obliging w') \<and>
     (\<exists>es. w_trace w' = w_trace w @ es \<and> calm es \<and> (case r of Done a \<Rightarrow> R a es | Fail \<Rightarrow> False | Undef \<Rightarrow> gap)))"

lemma doesI:
  "(\<And>w r w'. (sure \<longrightarrow> obliging w) \<Longrightarrow> m w = Some (r, w') \<Longrightarrow> (sure \<longrightarrow> obliging w') \<and>
     (\<exists>es. w_trace w' = w_trace w @ es \<and> calm es \<and> (case r of Done a \<Rightarrow> R a es | Fail \<Rightarrow> False | Undef \<Rightarrow> gap))) \<Longrightarrow>
   does sure gap m R"
  unfolding does_def by blast

lemma doesD:
  "does sure gap m R \<Longrightarrow> (sure \<longrightarrow> obliging w) \<Longrightarrow> m w = Some (r, w') \<Longrightarrow> (sure \<longrightarrow> obliging w') \<and>
     (\<exists>es. w_trace w' = w_trace w @ es \<and> calm es \<and> (case r of Done a \<Rightarrow> R a es | Fail \<Rightarrow> False | Undef \<Rightarrow> gap))"
  unfolding does_def by blast

lemma does_mono:
  assumes "does sure gap m R" "\<And>a es. R a es \<Longrightarrow> S a es"
  shows "does sure gap m S"
proof (rule doesI)
  fix w r w'
  assume "sure \<longrightarrow> obliging w" "m w = Some (r, w')"
  from doesD [OF assms(1) this] obtain es where "sure \<longrightarrow> obliging w'" "w_trace w' = w_trace w @ es" "calm es"
    "case r of Done a \<Rightarrow> R a es | Fail \<Rightarrow> False | Undef \<Rightarrow> gap" by blast
  with assms(2) show "(sure \<longrightarrow> obliging w') \<and> (\<exists>es. w_trace w' = w_trace w @ es \<and> calm es \<and>
      (case r of Done a \<Rightarrow> S a es | Fail \<Rightarrow> False | Undef \<Rightarrow> gap))" by (cases r) auto
qed

lemma calm_simps [simp]: "calm []" "calm (es @ es') \<longleftrightarrow> calm es \<and> calm es'" "calm (EvRead bs # es) \<longleftrightarrow> calm es"
  "calm (EvWrite fd bs # es) \<longleftrightarrow> calm es" "calm (EvIoctl fd rq arg # es) \<longleftrightarrow> calm es" "calm (EvSeek fd n # es) \<longleftrightarrow> calm es"
  by (auto simp: calm_def)

lemma calm_map [simp]: "calm (map EvRead bss)" "calm (map (EvWrite fd) bss)"
  by (induction bss) auto

lemma does_return: "R a [] \<Longrightarrow> does sure gap (\<lambda>w. Some (Done a, w)) R"
  by (simp add: does_def)

lemma does_then:
  assumes m: "does sure gap m R" and f: "\<And>a es. R a es \<Longrightarrow> does sure gap (f a) (\<lambda>b es'. S b (es @ es'))"
  shows "does sure gap (then_run m f) S"
proof (rule doesI)
  fix w r w'
  assume ok: "sure \<longrightarrow> obliging w" and run: "then_run m f w = Some (r, w')"
  then obtain r1 w1 where m1: "m w = Some (r1, w1)" by (auto simp: then_run_def split: option.splits)
  from doesD [OF m ok this] obtain es where ok1: "sure \<longrightarrow> obliging w1" and
    es: "w_trace w1 = w_trace w @ es" "calm es" "case r1 of Done a \<Rightarrow> R a es | Fail \<Rightarrow> False | Undef \<Rightarrow> gap" by blast
  show "(sure \<longrightarrow> obliging w') \<and> (\<exists>es. w_trace w' = w_trace w @ es \<and> calm es \<and>
      (case r of Done b \<Rightarrow> S b es | Fail \<Rightarrow> False | Undef \<Rightarrow> gap))"
  proof (cases r1)
    case (Done a)
    with run m1 have fa: "f a w1 = Some (r, w')" by (simp add: then_run_def)
    have "R a es" using es(3) Done by simp
    from doesD [OF f [OF this] ok1 fa] obtain es' where "sure \<longrightarrow> obliging w'" "w_trace w' = w_trace w1 @ es'" "calm es'"
      "case r of Done b \<Rightarrow> S b (es @ es') | Fail \<Rightarrow> False | Undef \<Rightarrow> gap" by blast
    with es(1,2) show ?thesis by (intro conjI exI [of _ "es @ es'"]) simp_all
  next
    case Fail
    with es(3) show ?thesis by simp
  next
    case Undef
    with run m1 have "r = Undef" "w' = w1" by (auto simp: then_run_def)
    with es Undef ok1 show ?thesis by auto
  qed
qed

lemma does_or_exit:
  assumes "does sure gap m R" "\<And>rc es. R (Some rc) es \<Longrightarrow> S rc es"
    "\<And>es. R None es \<Longrightarrow> does sure gap k (\<lambda>b es'. S b (es @ es'))"
  shows "does sure gap (or_exit m k) S"
  unfolding or_exit_def
  by (rule does_then [OF assms(1)]) (auto split: option.split intro!: does_return simp: assms(2,3))

lemma ioctl_struct_eq: "ioctl_struct fd rq bs w = (if shd (w_ioc w) < 0 then Fail else Done (),
    w\<lparr>w_ioc := stl (w_ioc w), w_trace := w_trace w @ [EvWrite fd bs, EvIoctl fd rq 0]\<rparr>)"
  by (simp add: ioctl_struct_def emit_def bnd_def sys_ioctl_def check_eq)

lemma ioctl_plain_eq: "ioctl_plain fd rq w = (if shd (w_ioc w) < 0 then Fail else Done (),
    w\<lparr>w_ioc := stl (w_ioc w), w_trace := w_trace w @ [EvIoctl fd rq 0]\<rparr>)"
  by (simp add: ioctl_plain_def bnd_def sys_ioctl_def check_eq)

lemma power_plain:
  "0 \<le> fd \<Longrightarrow> xmm626_kernel_smdk4412_power fd v = ioctl_plain fd (if v \<noteq> 0 then IOCTL_MODEM_ON else IOCTL_MODEM_OFF)"
  "0 \<le> fd \<Longrightarrow> xmm626_kernel_smdk4412_boot_power fd v = ioctl_plain fd (if v \<noteq> 0 then IOCTL_MODEM_BOOT_ON else IOCTL_MODEM_BOOT_OFF)"
  by (simp_all add: xmm626_kernel_smdk4412_power_def xmm626_kernel_smdk4412_boot_power_def ioctl_plain_def)

lemma obliging_after_ioctl: "obliging w \<Longrightarrow> 0 \<le> shd (w_ioc w) \<and> obliging (w\<lparr>w_ioc := stl (w_ioc w)\<rparr>)"
  by (auto simp: obliging_def shd_sset dest: stl_sset)

lemma obliging_after_read: "obliging w \<Longrightarrow> shd (w_rd w) \<noteq> None \<and> obliging (w\<lparr>w_rd := stl (w_rd w)\<rparr>)"
  by (cases "shd (w_rd w)") (use shd_sset [of "w_rd w"] in \<open>auto simp: obliging_def dest: stl_sset\<close>)

lemma obliging_trace [simp]: "obliging (w\<lparr>w_trace := tr\<rparr>) = obliging w" "obliging (w\<lparr>w_wr := s\<rparr>) = obliging w"
  by (simp_all add: obliging_def)

lemma does_steps:
  assumes "\<And>w. code w \<noteq> 0"
  shows "does sure gap (step (ioctl_plain fd rq) code) (\<lambda>r es. es = [EvIoctl fd rq 0] \<and> r \<noteq> Some 0)"
    "does sure gap (step (ioctl_struct fd rq bs) code) (\<lambda>r es. es = [EvWrite fd bs, EvIoctl fd rq 0] \<and> r \<noteq> Some 0)"
  using assms by (auto simp: does_def step_def and_then_def try_rc_def ioctl_plain_eq ioctl_struct_eq obliging_after_ioctl)

section \<open>Reading and writing until all is there\<close>

text \<open>
  What a buffer holds after reads that each delivered their bytes to its start, and reads that go on until
  \<open>k\<close> bytes have been delivered.
\<close>

definition filled :: "u8 list list \<Rightarrow> u8 list \<Rightarrow> u8 list" where
  "filled bss buf = fold (\<lambda>bs buf. bs @ drop (length bs) buf) bss buf"

definition read_through :: "nat \<Rightarrow> u8 list list \<Rightarrow> bool" where
  "read_through k bss \<longleftrightarrow> (\<forall>bs \<in> set bss. length bs \<le> k) \<and> k \<le> length (concat bss) \<and>
     (bss \<noteq> [] \<longrightarrow> length (concat (butlast bss)) < k)"

text \<open>A single read that delivers everything leaves its bytes.\<close>

lemma filled_simps [simp]: "filled [] buf = buf" "filled (bs # bss) buf = filled bss (bs @ drop (length bs) buf)"
  by (simp_all add: filled_def)

lemma length_filled: "\<forall>bs \<in> set bss. length bs \<le> length buf \<Longrightarrow> length (filled bss buf) = length buf"
  by (induction bss arbitrary: buf) auto

lemma data_read_loop_shape:
  fixes count :: nat
  assumes "data_read_loop count remaining buf w = Some (r, w')"
  shows "\<exists>bss. w_trace w' = w_trace w @ map EvRead bss \<and> (\<forall>bs \<in> set bss. length bs \<le> count) \<and>
    (obliging w \<longrightarrow> obliging w' \<and> r \<noteq> Fail) \<and>
    (r = Fail \<and> int (length (concat bss)) < remaining \<or>
     r = Done (filled bss buf) \<and> remaining \<le> int (length (concat bss)) \<and>
       (bss \<noteq> [] \<longrightarrow> int (length (concat (butlast bss))) < remaining))"
proof -
  let ?Q = "\<lambda>(count :: nat) remaining buf w y bss. w_trace (snd y) = w_trace w @ map EvRead bss \<and>
    (\<forall>bs \<in> set bss. length bs \<le> count) \<and> (obliging w \<longrightarrow> obliging (snd y) \<and> fst y \<noteq> Fail) \<and>
    (fst y = Fail \<and> int (length (concat bss)) < remaining \<or>
     fst y = Done (filled bss buf) \<and> remaining \<le> int (length (concat bss)) \<and>
       (bss \<noteq> [] \<longrightarrow> int (length (concat (butlast bss))) < remaining))"
  let ?P = "\<lambda>(count :: nat) remaining buf w y. \<exists>bss. ?Q count remaining buf w y bss"
  have "?P count remaining buf w (r, w')"
  proof (rule data_read_loop.raw_induct [where P = ?P, OF _ assms])
    fix loop and count :: nat and remaining buf w y
    assume IH: "\<And>count remaining buf w y. loop count remaining buf w = Some y \<Longrightarrow> ?P count remaining buf w y"
      and body: "(if 0 < remaining then
        (case sys_read count w of
           (Done None, w') \<Rightarrow> Some (Fail, w')
         | (Done (Some bs), w') \<Rightarrow> loop count (remaining - int (length bs)) (bs @ drop (length bs) buf) w'
         | (_, w') \<Rightarrow> Some (Fail, w'))
      else Some (Done buf, w)) = Some y"
    show "?P count remaining buf w y"
    proof (cases "0 < remaining")
      case True
      show ?thesis
      proof (cases "shd (w_rd w)")
        case None
        with body True have "y = (Fail, w\<lparr>w_rd := stl (w_rd w)\<rparr>)" by (auto simp: sys_read_def Let_def)
        with None True show ?thesis
          using obliging_after_read [of w] by (intro exI [of _ "[]"]) auto
      next
        case (Some bs)
        let ?bs = "take count bs" and ?w1 = "w\<lparr>w_rd := stl (w_rd w), w_trace := w_trace w @ [EvRead (take count bs)]\<rparr>"
        have "loop count (remaining - int (length ?bs)) (?bs @ drop (length ?bs) buf) ?w1 = Some y"
          using body True Some by (simp add: sys_read_def Let_def)
        from IH [OF this] obtain bss where
          "?Q count (remaining - int (length ?bs)) (?bs @ drop (length ?bs) buf) ?w1 y bss" ..
        moreover from this have "?bs # bss \<noteq> []" "obliging w \<longrightarrow> obliging ?w1" using obliging_after_read [of w] by auto
        ultimately have "?Q count remaining buf w y (?bs # bss)" using True by (cases bss) auto
        then show ?thesis ..
      qed
    next
      case False
      with body show ?thesis by (intro exI [of _ "[]"]) auto
    qed
  qed
  then show ?thesis by simp
qed

lemma data_read_shape:
  fixes k :: nat
  assumes "data_read k buf w = Some (r, w')" "0 < k" "k < 2 ^ 31"
  obtains bss where "w_trace w' = w_trace w @ map EvRead bss" "obliging w \<longrightarrow> obliging w' \<and> r \<noteq> Fail"
    "r = Fail \<and> length (concat bss) < k \<or> r = Done (filled bss buf) \<and> read_through k bss"
proof -
  from data_read_loop_shape [OF assms(1) [unfolded data_read_def sint_small_nat [OF assms(3)]]] obtain bss where
    "w_trace w' = w_trace w @ map EvRead bss" "\<forall>bs \<in> set bss. length bs \<le> k" "obliging w \<longrightarrow> obliging w' \<and> r \<noteq> Fail"
    "r = Fail \<and> int (length (concat bss)) < int k \<or> r = Done (filled bss buf) \<and> int k \<le> int (length (concat bss)) \<and>
      (bss \<noteq> [] \<longrightarrow> int (length (concat (butlast bss))) < int k)" by blast
  then show thesis by (intro that [of bss]) (auto simp: read_through_def)
qed

section \<open>Uploading\<close>

text \<open>Only names before the first empty one count.\<close>

lemma find_toc_entry_eq:
  "find_toc_entry name toc = find (\<lambda>e. take 12 (cstr (toc_name e)) = take 12 (cstr name))
     (takeWhile (\<lambda>e. hd (toc_name e) \<noteq> 0) (take N_TOC_ENTRIES toc))"
proof -
  have "find_toc_loop name es = find (\<lambda>e. take 12 (cstr (toc_name e)) = take 12 (cstr name))
     (takeWhile (\<lambda>e. hd (toc_name e) \<noteq> 0) es)" for es
    by (induction es) (auto simp: strncmp_eq_iff)
  then show ?thesis by (simp add: find_toc_entry_def)
qed

text \<open>Block \<open>i\<close> of an entry, loaded relative to the entry of the boot code, as it is handed over.\<close>

definition block_len :: "nat \<Rightarrow> nat \<Rightarrow> nat" where
  "block_len sz i = min MAX_CHUNK_LEN (sz - i * MAX_CHUNK_LEN)"

definition upload_block :: "firmware_toc_entry \<Rightarrow> firmware_toc_entry \<Rightarrow> nat \<Rightarrow> u8 list \<Rightarrow> u8 list" where
  "upload_block boot entry i d = d @ le32 (toc_size entry) @
     le32 (toc_loadaddr entry - toc_loadaddr boot + of_nat (i * MAX_CHUNK_LEN)) @
     le32 (toc_offset entry + of_nat (i * MAX_CHUNK_LEN)) @ le32 0 @ le32 (of_nat (length d))"

text \<open>
  The traces of an upload from block \<open>i\<close> on, with what the buffer holds: it ends with 0 after the last
  block, and with a positive code when a read of a block fails or when its request is refused. A block is
  what the reads just before it have left in the buffer.
\<close>

inductive uploads ::
  "int \<Rightarrow> firmware_toc_entry \<Rightarrow> firmware_toc_entry \<Rightarrow> nat \<Rightarrow> u8 list \<Rightarrow> int \<Rightarrow> event list \<Rightarrow> bool"
  for fd boot entry where
  all_blocks: "unat (toc_size entry) \<le> i * MAX_CHUNK_LEN \<Longrightarrow> uploads fd boot entry i buf 0 []"
| next_block: "i * MAX_CHUNK_LEN < unat (toc_size entry) \<Longrightarrow> k = block_len (unat (toc_size entry)) i \<Longrightarrow>
    read_through k bss \<Longrightarrow> buf' = filled bss buf \<Longrightarrow> uploads fd boot entry (Suc i) buf' rc es \<Longrightarrow>
    uploads fd boot entry i buf rc (map EvRead bss @
      [EvWrite fd (upload_block boot entry i (take k buf')), EvIoctl fd IOCTL_DPRAM_SEND_BOOT 0] @ es)"
| read_failed: "i * MAX_CHUNK_LEN < unat (toc_size entry) \<Longrightarrow>
    length (concat bss) < block_len (unat (toc_size entry)) i \<Longrightarrow> 0 < rc \<Longrightarrow>
    uploads fd boot entry i buf rc (map EvRead bss)"
| request_refused: "i * MAX_CHUNK_LEN < unat (toc_size entry) \<Longrightarrow> k = block_len (unat (toc_size entry)) i \<Longrightarrow>
    read_through k bss \<Longrightarrow> buf' = filled bss buf \<Longrightarrow> 0 < rc \<Longrightarrow>
    uploads fd boot entry i buf rc (map EvRead bss @
      [EvWrite fd (upload_block boot entry i (take k buf')), EvIoctl fd IOCTL_DPRAM_SEND_BOOT 0])"

lemma uploads_code: "uploads fd boot entry i buf rc es \<Longrightarrow> 0 \<le> rc"
  by (induction rule: uploads.induct) auto

lemma upload_loop_does:
  assumes errno: "\<And>w. 0 < errno w"
  shows "upload_loop errno fd part remaining w = Some (r, w') \<Longrightarrow> (sure \<longrightarrow> obliging w) \<Longrightarrow>
    length (fp_binary part) = MAX_CHUNK_LEN \<Longrightarrow> fp_size part = toc_size entry \<Longrightarrow> fp_mode part = 0 \<Longrightarrow>
    remaining = unat (toc_size entry) - i * MAX_CHUNK_LEN \<Longrightarrow>
    fp_m_offset part = toc_loadaddr entry - toc_loadaddr boot + of_nat (i * MAX_CHUNK_LEN) \<Longrightarrow>
    fp_b_offset part = toc_offset entry + of_nat (i * MAX_CHUNK_LEN) \<Longrightarrow>
    \<exists>rc es. r = Done rc \<and> w_trace w' = w_trace w @ es \<and> calm es \<and> (sure \<longrightarrow> obliging w' \<and> rc = 0) \<and>
      uploads fd boot entry i (fp_binary part) rc es"
proof (induction remaining arbitrary: part w i rule: less_induct)
  case (less remaining)
  let ?sz = "unat (toc_size entry)"
  show ?case
  proof (cases "0 < remaining")
    case False
    with less.prems(1,2,6) show ?thesis
      by (intro exI [of _ 0] exI [of _ "[]"]) (auto simp: upload_loop.simps [of _ _ _ _ w] intro: uploads.intros)
  next
    case True
    define len where "len = (if remaining < MAX_CHUNK_LEN then remaining else MAX_CHUNK_LEN)"
    have len: "len = block_len ?sz i" "len \<le> MAX_CHUNK_LEN" "0 < len" "len < 2 ^ 31" "len \<le> remaining"
      "remaining - len = ?sz - Suc i * MAX_CHUNK_LEN" "i * MAX_CHUNK_LEN < ?sz"
      using less.prems(6) True by (auto simp: len_def block_len_def MAX_CHUNK_LEN_def)
    note run = less.prems(1) [unfolded upload_loop.simps [of errno fd part remaining w] Let_def, folded len_def]
    obtain r1 w1 where rd: "data_read len (fp_binary part) w = Some (r1, w1)"
      using run True by (cases "data_read len (fp_binary part) w") auto
    from data_read_shape [OF rd len(3,4)] obtain bss where
      t1: "w_trace w1 = w_trace w @ map EvRead bss" and o1: "obliging w \<longrightarrow> obliging w1 \<and> r1 \<noteq> Fail" and
      r1: "r1 = Fail \<and> length (concat bss) < len \<or> r1 = Done (filled bss (fp_binary part)) \<and> read_through len bss" by blast
    show ?thesis
    proof (cases "r1 = Fail")
      case Fail: True
      with run rd True have "r = Done (errno w1)" "w' = w1" by auto
      with Fail r1 len(1,7) errno [of w1] t1 o1 less.prems(2) show ?thesis
        by (intro exI [of _ "errno w1"] exI [of _ "map EvRead bss"]) (auto intro: uploads.read_failed)
    next
      case False
      define buf where "buf = filled bss (fp_binary part)"
      define p where "p = part\<lparr>fp_binary := buf, fp_len := len\<rparr>"
      have buf: "r1 = Done buf" "read_through len bss" using r1 False by (auto simp: buf_def)
      have "\<forall>bs \<in> set bss. length bs \<le> length (fp_binary part)"
        using buf(2) len(2) less.prems(3) by (auto simp: read_through_def)
      from length_filled [OF this] have buf_len: "length buf = MAX_CHUNK_LEN" using less.prems(3) by (simp add: buf_def)
      define sent where "sent = [EvWrite fd (upload_block boot entry i (take len buf)), EvIoctl fd IOCTL_DPRAM_SEND_BOOT 0]"
      define w2 where "w2 = w1\<lparr>w_ioc := stl (w_ioc w1), w_trace := w_trace w1 @ sent\<rparr>"
      have bytes: "partition_bytes p = upload_block boot entry i (take len buf)"
        using less.prems(4,5,7,8) buf_len len(2) by (simp add: partition_bytes_def upload_block_def p_def)
      have io: "ioctl_struct fd IOCTL_DPRAM_SEND_BOOT (partition_bytes p) w1 = (if shd (w_ioc w1) < 0 then Fail else Done (), w2)"
        by (simp add: ioctl_struct_eq w2_def sent_def bytes)
      have t2: "w_trace w2 = w_trace w @ map EvRead bss @ sent" using t1 by (simp add: w2_def)
      have o2: "sure \<longrightarrow> obliging w2 \<and> \<not> shd (w_ioc w1) < 0"
        using o1 less.prems(2) obliging_after_ioctl [of w1] by (auto simp: w2_def)
      have calm: "calm (map EvRead bss @ sent)" by (simp add: sent_def)
      show ?thesis
      proof (cases "shd (w_ioc w1) < 0")
        case neg: True
        with run rd True buf(1) io have "r = Done (errno w2)" "w' = w2" by (auto simp flip: p_def)
        moreover have "uploads fd boot entry i (fp_binary part) (errno w2) (map EvRead bss @ sent)"
          unfolding sent_def using len(1,7) buf(2) buf_def errno by (intro uploads.request_refused) auto
        ultimately show ?thesis using t2 o2 neg calm by blast
      next
        case pos: False
        let ?p = "p\<lparr>fp_m_offset := fp_m_offset p + of_nat len, fp_b_offset := fp_b_offset p + of_nat len\<rparr>"
        have more: "upload_loop errno fd ?p (remaining - len) w2 = Some (r, w')"
          using run rd True buf(1) io pos by (simp flip: p_def)
        have "\<exists>rc es. r = Done rc \<and> w_trace w' = w_trace w2 @ es \<and> calm es \<and> (sure \<longrightarrow> obliging w' \<and> rc = 0) \<and>
            uploads fd boot entry (Suc i) buf rc es"
        proof (cases "remaining - len = 0")
          case True
          with more have "r = Done 0" "w' = w2" by (simp_all add: upload_loop.simps [of _ _ _ _ w2])
          moreover have "uploads fd boot entry (Suc i) buf 0 []" using True len(6) by (intro uploads.all_blocks) simp
          ultimately show ?thesis using o2 by auto
        next
          case False
          then have "len = MAX_CHUNK_LEN" by (auto simp: len_def)
          then have off: "fp_m_offset ?p = toc_loadaddr entry - toc_loadaddr boot + of_nat (Suc i * MAX_CHUNK_LEN)"
            "fp_b_offset ?p = toc_offset entry + of_nat (Suc i * MAX_CHUNK_LEN)"
            using less.prems(7,8) by (simp_all add: p_def algebra_simps)
          have "remaining - len < remaining" using len(3,5) by simp
          from less.IH [OF this more _ _ _ _ len(6) off] o2 less.prems(4,5) buf_len show ?thesis by (simp add: p_def)
        qed
        then obtain rc es where m: "r = Done rc" "w_trace w' = w_trace w2 @ es" "calm es" "sure \<longrightarrow> obliging w' \<and> rc = 0"
          "uploads fd boot entry (Suc i) buf rc es" by blast
        have "uploads fd boot entry i (fp_binary part) rc (map EvRead bss @ sent @ es)"
          unfolding sent_def append.simps using uploads.next_block [OF len(7,1) buf(2) buf_def m(5)] by simp
        with m t2 calm show ?thesis by (intro exI [of _ rc] exI [of _ "map EvRead bss @ sent @ es"]) simp
      qed
    qed
  qed
qed

text \<open>An upload of an entry: the image is set to the start of the entry, and then come the blocks.\<close>

definition part_uploaded :: "int \<Rightarrow> int \<Rightarrow> firmware_toc_entry \<Rightarrow> firmware_toc_entry \<Rightarrow> int \<Rightarrow> event list \<Rightarrow> bool" where
  "part_uploaded fd firmware_fd boot entry rc es \<longleftrightarrow> 0 \<le> sint (toc_offset entry) \<and>
     (\<exists>es'. es = EvSeek firmware_fd (nat (sint (toc_offset entry))) # es' \<and>
       uploads fd boot entry 0 (calloc MAX_CHUNK_LEN) rc es')"

definition uploaded :: "bool \<Rightarrow> int \<Rightarrow> int \<Rightarrow> firmware_toc_entry list \<Rightarrow> string \<Rightarrow> int \<times> u32 \<Rightarrow> event list \<Rightarrow> bool" where
  "uploaded sure fd firmware_fd toc name = (\<lambda>(rc, s) es. 0 \<le> rc \<longrightarrow> (sure \<longrightarrow> rc = 0) \<and>
    (\<exists>boot entry. find_toc_entry (ascii ''BOOT'') toc = Some boot \<and> find_toc_entry (ascii name) toc = Some entry \<and>
      s = toc_size entry \<and> part_uploaded fd firmware_fd boot entry rc es))"

text \<open>The table lacks one of the parts.\<close>

definition lacks_entry :: "firmware_toc_entry list \<Rightarrow> bool" where
  "lacks_entry toc \<longleftrightarrow> (\<exists>name \<in> {''BOOT'', ''MAIN'', ''NV''}. find_toc_entry (ascii name) toc = None)"

lemma upload_exit_simps [simp]: "upload_exit None res = (\<lambda>w. Some (Undef, w))"
  "upload_exit (Some binary) res = (\<lambda>w. Some (Done res, w))"
  by (simp_all add: upload_exit_def fun_eq_iff)

lemma upload_chunk_missing:
  "find_toc_entry (ascii ''BOOT'') toc = None \<or> find_toc_entry (ascii name) toc = None \<Longrightarrow>
   upload_chunk errno fd firmware_fd toc name w = Some (Undef, w)"
  by (auto simp: upload_chunk_def split: option.split)

lemma upload_chunk_does:
  assumes errno: "\<And>w. 0 < errno w" and name: "name \<in> {''BOOT'', ''MAIN'', ''NV''}"
  shows "does sure (lacks_entry toc) (upload_chunk errno fd firmware_fd toc name) (uploaded sure fd firmware_fd toc name)"
    (is "does _ _ _ ?R")
proof (cases "find_toc_entry (ascii ''BOOT'') toc = None \<or> find_toc_entry (ascii name) toc = None")
  case True
  with name have "lacks_entry toc" by (auto simp: lacks_entry_def)
  with upload_chunk_missing [OF True, of errno fd firmware_fd] show ?thesis by (auto simp: does_def)
next
  case False
  then obtain boot entry where toc: "find_toc_entry (ascii ''BOOT'') toc = Some boot" "find_toc_entry (ascii name) toc = Some entry"
    by auto
  define part where "part = \<lparr>fp_binary = calloc MAX_CHUNK_LEN, fp_size = toc_size entry,
    fp_m_offset = toc_loadaddr entry - toc_loadaddr boot, fp_b_offset = toc_offset entry, fp_mode = 0, fp_len = 0\<rparr>"
  let ?load = "upload_loop errno fd part (unat (toc_size entry))"
  have load: "does sure (lacks_entry toc) ?load
      (\<lambda>rc es. (sure \<longrightarrow> rc = 0) \<and> uploads fd boot entry 0 (calloc MAX_CHUNK_LEN) rc es)"
  proof (rule doesI)
    fix w r w'
    assume ok: "sure \<longrightarrow> obliging w" and run: "?load w = Some (r, w')"
    from upload_loop_does [OF errno run ok, where i = 0 and entry = entry and boot = boot] obtain rc es where
      "r = Done rc" "w_trace w' = w_trace w @ es" "calm es" "sure \<longrightarrow> obliging w' \<and> rc = 0"
      "uploads fd boot entry 0 (calloc MAX_CHUNK_LEN) rc es" by (auto simp: part_def)
    then show "(sure \<longrightarrow> obliging w') \<and> (\<exists>es. w_trace w' = w_trace w @ es \<and> calm es \<and>
        (case r of Done rc \<Rightarrow> (sure \<longrightarrow> rc = 0) \<and> uploads fd boot entry 0 (calloc MAX_CHUNK_LEN) rc es
         | Fail \<Rightarrow> False | Undef \<Rightarrow> lacks_entry toc))" by auto
  qed
  let ?n = "nat (sint (toc_offset entry))"
  let ?k = "then_run ?load (\<lambda>rc w. Some (Done (rc, toc_size entry), w))"
  have eq: "upload_chunk errno fd firmware_fd toc name w =
      (if sint (toc_offset entry) < 0 \<or> shd (w_ioc w) < 0
       then Some (Done (- errno (w\<lparr>w_ioc := stl (w_ioc w)\<rparr>), toc_size entry), w\<lparr>w_ioc := stl (w_ioc w)\<rparr>)
       else ?k (w\<lparr>w_ioc := stl (w_ioc w), w_trace := w_trace w @ [EvSeek firmware_fd ?n]\<rparr>))" for w
    using toc by (simp add: upload_chunk_def Let_def and_then_def image_lseek_def part_def)
  show ?thesis
  proof (rule doesI)
    fix w r w'
    assume ok: "sure \<longrightarrow> obliging w" and run: "upload_chunk errno fd firmware_fd toc name w = Some (r, w')"
    show "(sure \<longrightarrow> obliging w') \<and> (\<exists>es. w_trace w' = w_trace w @ es \<and> calm es \<and>
        (case r of Done a \<Rightarrow> ?R a es | Fail \<Rightarrow> False | Undef \<Rightarrow> lacks_entry toc))"
    proof (cases "sint (toc_offset entry) < 0 \<or> shd (w_ioc w) < 0")
      case True
      moreover have "\<not> errno w \<le> 0" for w using errno [of w] by simp
      ultimately show ?thesis using run ok obliging_after_ioctl [of w] by (auto simp: eq uploaded_def)
    next
      case False
      then have "does sure (lacks_entry toc) ?k (\<lambda>a es. ?R a (EvSeek firmware_fd ?n # es))"
        by (intro does_then [OF load] does_return) (use toc in \<open>auto simp: uploaded_def part_uploaded_def not_less\<close>)
      from doesD [OF this, of "w\<lparr>w_ioc := stl (w_ioc w), w_trace := w_trace w @ [EvSeek firmware_fd ?n]\<rparr>" r w']
        False ok run eq obliging_after_ioctl [of w] obtain es where o: "sure \<longrightarrow> obliging w'" and
        es: "w_trace w' = w_trace w @ [EvSeek firmware_fd ?n] @ es" "calm es"
          "case r of Done a \<Rightarrow> ?R a (EvSeek firmware_fd ?n # es) | Fail \<Rightarrow> False | Undef \<Rightarrow> lacks_entry toc" by auto
      from o es show ?thesis by (intro conjI exI [of _ "EvSeek firmware_fd ?n # es"]) simp_all
    qed
  qed
qed

lemma data_write_loop_shape:
  assumes "data_write_loop fd buf remaining w = Some (r, w')"
  shows "r \<noteq> Undef \<and> (obliging w \<longrightarrow> obliging w') \<and>
    (\<exists>bss. w_trace w' = w_trace w @ map (EvWrite fd) bss \<and> (\<forall>bs \<in> set bss. prefix bs buf))"
proof -
  let ?P = "\<lambda>fd' buf' (remaining :: int) w y. fd' = fd \<and> buf' = buf \<longrightarrow> fst y \<noteq> Undef \<and> (obliging w \<longrightarrow> obliging (snd y)) \<and>
    (\<exists>bss. w_trace (snd y) = w_trace w @ map (EvWrite fd) bss \<and> (\<forall>bs \<in> set bss. prefix bs buf))"
  have "?P fd buf remaining w (r, w')"
  proof (rule data_write_loop.raw_induct [where P = ?P, OF _ assms(1)], rule impI)
    fix loop fd' buf' remaining w y
    assume IH: "\<And>fd' buf' remaining w y. loop fd' buf' remaining w = Some y \<Longrightarrow> ?P fd' buf' remaining w y"
      and fd: "fd' = fd \<and> buf' = buf"
      and body: "(if 0 < remaining then
        (case sys_write fd' buf' w of
           (Done rc, w') \<Rightarrow> if rc = -1 then Some (Fail, w') else loop fd' buf' (remaining - rc) w'
         | (_, w') \<Rightarrow> Some (Fail, w'))
      else Some (Done (), w)) = Some y"
    show "fst y \<noteq> Undef \<and> (obliging w \<longrightarrow> obliging (snd y)) \<and>
      (\<exists>bss. w_trace (snd y) = w_trace w @ map (EvWrite fd) bss \<and> (\<forall>bs \<in> set bss. prefix bs buf))"
    proof (cases "0 < remaining \<and> 0 \<le> shd (w_wr w)")
      case True
      let ?bs = "take (nat (shd (w_wr w))) buf"
      let ?w1 = "w\<lparr>w_wr := stl (w_wr w), w_trace := w_trace w @ [EvWrite fd ?bs]\<rparr>"
      have wr: "sys_write fd buf w = (Done (int (min (nat (shd (w_wr w))) (length buf))), ?w1)"
        using True by (simp add: sys_write_def Let_def min_def take_all)
      then have "loop fd buf (remaining - int (min (nat (shd (w_wr w))) (length buf))) ?w1 = Some y"
        using body True fd by simp
      from IH [OF this] obtain bss where "fst y \<noteq> Undef" "obliging w \<longrightarrow> obliging (snd y)"
        "w_trace (snd y) = w_trace w @ [EvWrite fd ?bs] @ map (EvWrite fd) bss" "\<forall>bs \<in> set bss. prefix bs buf" by auto
      then show ?thesis by (intro conjI exI [of _ "?bs # bss"]) (auto simp: take_is_prefix)
    next
      case False
      with body have "fst y \<noteq> Undef" "w_trace (snd y) = w_trace w" "obliging w \<longrightarrow> obliging (snd y)"
        by (auto simp: sys_write_def Let_def obliging_def split: if_splits)
      then show ?thesis by (intro conjI exI [of _ "[]"]) auto
    qed
  qed
  then show ?thesis by simp
qed

text \<open>
  A stage of the handshake that went well: the word was sent, in one or several writes, and the reads that
  followed left the expected word in the buffer that had held it.
\<close>

definition shook :: "int \<Rightarrow> u32 \<Rightarrow> u32 \<Rightarrow> event list \<Rightarrow> bool" where
  "shook fd word expected es \<longleftrightarrow> (\<exists>wss bss. es = map (EvWrite fd) wss @ map EvRead bss \<and>
     (\<forall>bs \<in> set wss. prefix bs (le32 word)) \<and> read_through 4 bss \<and> get32 (filled bss (le32 word)) = expected)"

lemma handshake_does:
  assumes errno: "\<And>w. 0 < errno w"
  shows "does sure gap (handshake errno fd word expected) (\<lambda>r es. r \<noteq> Some 0 \<and> (r = None \<longrightarrow> shook fd word expected es))"
proof (rule doesI)
  fix w r w'
  assume ok: "sure \<longrightarrow> obliging w" and run: "handshake errno fd word expected w = Some (r, w')"
  have nz: "errno w \<noteq> 0" for w using errno [of w] by simp
  obtain r1 w1 where wr: "data_write fd (le32 word) w = Some (r1, w1)"
    using run by (cases "data_write fd (le32 word) w") (auto simp: handshake_def)
  from data_write_loop_shape [OF wr [unfolded data_write_def]] obtain wss where
    r1: "r1 \<noteq> Undef" "obliging w \<longrightarrow> obliging w1" "w_trace w1 = w_trace w @ map (EvWrite fd) wss"
      "\<forall>bs \<in> set wss. prefix bs (le32 word)" by blast
  show "(sure \<longrightarrow> obliging w') \<and> (\<exists>es. w_trace w' = w_trace w @ es \<and> calm es \<and>
      (case r of Done a \<Rightarrow> a \<noteq> Some 0 \<and> (a = None \<longrightarrow> shook fd word expected es) | Fail \<Rightarrow> False | Undef \<Rightarrow> gap))"
  proof (cases r1)
    case (Done u)
    then obtain r2 w2 where rd: "data_read 4 (le32 word) w1 = Some (r2, w2)"
      using run wr by (cases "data_read 4 (le32 word) w1") (auto simp: handshake_def)
    from data_read_shape [OF rd] obtain bss where
      t2: "w_trace w2 = w_trace w1 @ map EvRead bss" "obliging w1 \<longrightarrow> obliging w2 \<and> r2 \<noteq> Fail" and
      r2: "r2 = Fail \<and> length (concat bss) < 4 \<or> r2 = Done (filled bss (le32 word)) \<and> read_through 4 bss" by auto
    have w': "w' = w2" using run wr Done rd r2 by (auto simp: handshake_def)
    have "case r of Done a \<Rightarrow> a \<noteq> Some 0 \<and> (a = None \<longrightarrow> shook fd word expected (map (EvWrite fd) wss @ map EvRead bss))
        | Fail \<Rightarrow> False | Undef \<Rightarrow> gap"
      using r2
    proof
      assume "r2 = Fail \<and> length (concat bss) < 4"
      with run wr Done rd have "r = Done (Some (errno w2))" by (auto simp: handshake_def)
      with nz show ?thesis by simp
    next
      assume b: "r2 = Done (filled bss (le32 word)) \<and> read_through 4 bss"
      with run wr Done rd have "r = Done (if get32 (filled bss (le32 word)) \<noteq> expected then Some (-1) else None)"
        by (simp add: handshake_def)
      moreover have "shook fd word (get32 (filled bss (le32 word))) (map (EvWrite fd) wss @ map EvRead bss)"
        unfolding shook_def using b r1(4) by blast
      ultimately show ?thesis by auto
    qed
    with w' t2 r1 ok show ?thesis by (intro conjI exI [of _ "map (EvWrite fd) wss @ map EvRead bss"]) simp_all
  next
    case Fail
    with run wr have "r = Done (Some (errno w1))" "w' = w1" by (auto simp: handshake_def)
    then show ?thesis using r1 nz ok by auto
  qed (use r1(1) in simp)
qed

text \<open>An upload that the steps take for a success, followed by events that \<open>S\<close> allows.\<close>

definition upload_first ::
  "bool \<Rightarrow> int \<Rightarrow> int \<Rightarrow> firmware_toc_entry list \<Rightarrow> string \<Rightarrow> (u32 \<Rightarrow> event list \<Rightarrow> bool) \<Rightarrow> event list \<Rightarrow> bool" where
  "upload_first sure fd firmware_fd toc name S es \<longleftrightarrow> (\<exists>boot entry rc up es'.
     find_toc_entry (ascii ''BOOT'') toc = Some boot \<and> find_toc_entry (ascii name) toc = Some entry \<and>
     part_uploaded fd firmware_fd boot entry rc up \<and> (sure \<longrightarrow> rc = 0) \<and> S (toc_size entry) es' \<and> es = up @ es')"

lemma does_upload:
  assumes errno: "\<And>w. 0 < errno w" and name: "name \<in> {''BOOT'', ''MAIN'', ''NV''}"
    and rest: "\<And>s. does sure (lacks_entry toc) (k s) (\<lambda>rc es. rc = 0 \<longrightarrow> S s es)"
  shows "does sure (lacks_entry toc) (then_run (upload_chunk errno fd firmware_fd toc name)
      (\<lambda>(rc, s). if rc < 0 then (\<lambda>w. Some (Done (-1 :: int), w)) else k s))
    (\<lambda>rc es. rc = 0 \<longrightarrow> upload_first sure fd firmware_fd toc name S es)"
proof (rule does_then [OF upload_chunk_does [OF errno name]])
  fix a es
  assume up: "uploaded sure fd firmware_fd toc name a es"
  obtain rc s where a: "a = (rc, s)" by fastforce
  have "does sure (lacks_entry toc) (if rc < 0 then (\<lambda>w. Some (Done (-1), w)) else k s)
      (\<lambda>b es'. b = 0 \<longrightarrow> upload_first sure fd firmware_fd toc name S (es @ es'))"
  proof (cases "rc < 0")
    case True
    then show ?thesis by (auto simp: does_def)
  next
    case False
    with up a obtain boot entry where "sure \<longrightarrow> rc = 0" "find_toc_entry (ascii ''BOOT'') toc = Some boot"
      "find_toc_entry (ascii name) toc = Some entry" "s = toc_size entry" "part_uploaded fd firmware_fd boot entry rc es"
      by (auto simp: uploaded_def not_less)
    then have "upload_first sure fd firmware_fd toc name S (es @ es')" if "S s es'" for es'
      using that unfolding upload_first_def by blast
    with False show ?thesis by (auto intro!: does_mono [OF rest])
  qed
  with a show "does sure (lacks_entry toc) (case a of (rc, s) \<Rightarrow> if rc < 0 then (\<lambda>w. Some (Done (-1), w)) else k s)
      (\<lambda>b es'. b = 0 \<longrightarrow> upload_first sure fd firmware_fd toc name S (es @ es'))" by simp
qed

text \<open>
  All that happens between opening the devices and closing them in a boot that ends with 0, where the
  uploads of BOOT, MAIN and NV have returned \<open>codes\<close>.
\<close>

definition secure_request :: "int \<Rightarrow> u32 \<Rightarrow> u32 \<Rightarrow> u32 \<Rightarrow> event list" where
  "secure_request fd mode size_boot size_main =
     [EvWrite fd (le32 mode @ le32 size_boot @ le32 size_main @ le32 0), EvIoctl fd IOCTL_SECURITY_REQ 0]"

definition handed :: "int \<Rightarrow> int \<Rightarrow> int \<Rightarrow> firmware_toc_entry list \<Rightarrow> int list \<Rightarrow> event list \<Rightarrow> bool" where
  "handed ifd nvfd fd toc codes es \<longleftrightarrow> (\<exists>boot main nv rc1 rc2 rc3 up1 up2 up3 hs1 hs2.
     find_toc_entry (ascii ''BOOT'') toc = Some boot \<and> find_toc_entry (ascii ''MAIN'') toc = Some main \<and>
     find_toc_entry (ascii ''NV'') toc = Some nv \<and> codes = [rc1, rc2, rc3] \<and>
     part_uploaded fd ifd boot boot rc1 up1 \<and> part_uploaded fd ifd boot main rc2 up2 \<and>
     part_uploaded fd nvfd boot nv rc3 up3 \<and> shook fd 0x900d 0xa00d hs1 \<and> shook fd 0x9f00 0xaf00 hs2 \<and>
     es = [EvIoctl fd IOCTL_MODEM_RESET 0] @ secure_request fd 2 0 0 @ up1 @ up2 @ up3 @
       secure_request fd 0 (toc_size boot) (toc_size main) @
       [EvIoctl fd IOCTL_MODEM_ON 0, EvIoctl fd IOCTL_MODEM_BOOT_ON 0, EvIoctl fd IOCTL_MODEM_DL_START 0] @
       hs1 @ hs2 @ [EvIoctl fd IOCTL_MODEM_BOOT_OFF 0])"

text \<open>The steps after the uploads, with the sizes of two of the parts.\<close>

definition started :: "int \<Rightarrow> u32 \<Rightarrow> u32 \<Rightarrow> event list \<Rightarrow> bool" where
  "started fd b m es \<longleftrightarrow> (\<exists>hs1 hs2. shook fd 0x900d 0xa00d hs1 \<and> shook fd 0x9f00 0xaf00 hs2 \<and>
     es = secure_request fd 0 b m @
       [EvIoctl fd IOCTL_MODEM_ON 0, EvIoctl fd IOCTL_MODEM_BOOT_ON 0, EvIoctl fd IOCTL_MODEM_DL_START 0] @
       hs1 @ hs2 @ [EvIoctl fd IOCTL_MODEM_BOOT_OFF 0])"

lemma handed_uploads:
  assumes "upload_first sure fd ifd toc ''BOOT'' (\<lambda>b. upload_first sure fd ifd toc ''MAIN'' (\<lambda>m.
    upload_first sure fd nvfd toc ''NV'' (\<lambda>_. started fd b m))) es"
  shows "\<exists>codes. handed ifd nvfd fd toc codes (EvIoctl fd IOCTL_MODEM_RESET 0 # secure_request fd 2 0 0 @ es) \<and>
    (sure \<longrightarrow> codes = [0, 0, 0])"
proof -
  from assms obtain boot main nv rc1 rc2 rc3 up1 up2 up3 es' where u:
    "find_toc_entry (ascii ''BOOT'') toc = Some boot" "find_toc_entry (ascii ''MAIN'') toc = Some main"
    "find_toc_entry (ascii ''NV'') toc = Some nv" "part_uploaded fd ifd boot boot rc1 up1"
    "part_uploaded fd ifd boot main rc2 up2" "part_uploaded fd nvfd boot nv rc3 up3"
    "sure \<longrightarrow> rc1 = 0 \<and> rc2 = 0 \<and> rc3 = 0" "started fd (toc_size boot) (toc_size main) es'" "es = up1 @ up2 @ up3 @ es'"
    unfolding upload_first_def by auto
  note u(1-6)
  from u(8,9) obtain hs1 hs2 where "shook fd 0x900d 0xa00d hs1" "shook fd 0x9f00 0xaf00 hs2" and es: "es = up1 @ up2 @ up3 @
      secure_request fd 0 (toc_size boot) (toc_size main) @
      [EvIoctl fd IOCTL_MODEM_ON 0, EvIoctl fd IOCTL_MODEM_BOOT_ON 0, EvIoctl fd IOCTL_MODEM_DL_START 0] @
      hs1 @ hs2 @ [EvIoctl fd IOCTL_MODEM_BOOT_OFF 0]" unfolding started_def by blast
  have "handed ifd nvfd fd toc [rc1, rc2, rc3] (EvIoctl fd IOCTL_MODEM_RESET 0 # secure_request fd 2 0 0 @ es)"
    unfolding handed_def
    by (rule exI [of _ boot], rule exI [of _ main], rule exI [of _ nv], rule exI [of _ rc1], rule exI [of _ rc2],
        rule exI [of _ rc3], rule exI [of _ up1], rule exI [of _ up2], rule exI [of _ up3], rule exI [of _ hs1],
        rule exI [of _ hs2], intro conjI) (fact | simp add: es)+
  with u(7) show ?thesis by auto
qed

lemma herolte_steps_does:
  assumes errno: "\<And>w. 0 < errno w" and fd: "0 \<le> fd"
  shows "does sure (lacks_entry toc) (herolte_steps errno fd ifd nvfd toc)
    (\<lambda>rc es. rc = 0 \<longrightarrow> (\<exists>codes. handed ifd nvfd fd toc codes es \<and> (sure \<longrightarrow> codes = [0, 0, 0])))"
proof -
  have nz: "errno w \<noteq> 0" for w using errno [of w] by simp
  note s = does_steps [of errno, OF nz] does_steps [of "\<lambda>_. -1", simplified]
  let ?fin = "or_exit (step (ioctl_plain fd IOCTL_MODEM_ON) (\<lambda>_. -1)) (or_exit (step (ioctl_plain fd IOCTL_MODEM_BOOT_ON) (\<lambda>_. -1)) (
    or_exit (step (ioctl_plain fd IOCTL_MODEM_DL_START) errno) (or_exit (handshake errno fd 0x900d 0xa00d) (
    or_exit (handshake errno fd 0x9f00 0xaf00) (or_exit (step (ioctl_plain fd IOCTL_MODEM_BOOT_OFF) (\<lambda>_. -1))
      (\<lambda>w. Some (Done 0, w)))))))"
  let ?req = "\<lambda>secure b m. security_req_bytes \<lparr>req_mode = (if secure then 0 else 2), req_size_boot = b, req_size_main = m, req_pad_zero = 0\<rparr>"
  have "does sure (lacks_entry toc) (or_exit (step (select_secure_mode fd True b m) (\<lambda>_. -1)) ?fin)
      (\<lambda>rc es. rc = 0 \<longrightarrow> started fd b m es)" for b m
    unfolding select_secure_mode_def started_def secure_request_def
    by (rule does_or_exit [OF s(4)] does_or_exit [OF s(3)] does_or_exit [OF s(1)] does_or_exit [OF handshake_does [OF errno]]
        does_return | force simp: security_req_bytes_def)+
  note u1 = does_upload [OF errno, where name = "''BOOT''" and toc = toc and fd = fd and firmware_fd = ifd, OF _
    does_upload [OF errno, where name = "''MAIN''" and toc = toc and fd = fd and firmware_fd = ifd, OF _
    does_upload [OF errno, where name = "''NV''" and toc = toc and fd = fd and firmware_fd = nvfd, OF _ this]], simplified]
  note power = power_plain(1) [OF fd, of 1, simplified] power_plain(2) [OF fd, of 1, simplified]
    power_plain(2) [OF fd, of 0, simplified]
  have eq: "herolte_steps errno fd ifd nvfd toc =
      or_exit (step (ioctl_plain fd IOCTL_MODEM_RESET) errno) (
      or_exit (step (ioctl_struct fd IOCTL_SECURITY_REQ (?req False 0 0)) (\<lambda>_. -1)) (
      then_run (upload_chunk errno fd ifd toc ''BOOT'') (\<lambda>(rc, b). if rc < 0 then (\<lambda>w. Some (Done (-1), w)) else
      then_run (upload_chunk errno fd ifd toc ''MAIN'') (\<lambda>(rc, m). if rc < 0 then (\<lambda>w. Some (Done (-1), w)) else
      then_run (upload_chunk errno fd nvfd toc ''NV'') (\<lambda>(rc, s). if rc < 0 then (\<lambda>w. Some (Done (-1), w)) else
      or_exit (step (select_secure_mode fd True b m) (\<lambda>_. -1)) ?fin)))))"
    unfolding herolte_steps_def power select_secure_mode_def by (rule refl)
  show ?thesis
    unfolding eq
    by (rule does_or_exit [OF s(1)], simp, rule does_or_exit [OF s(4)], simp, rule does_mono [OF u1])
      (auto simp: security_req_bytes_def secure_request_def dest!: handed_uploads)
qed

section \<open>Booting\<close>

lemma open_partition_shape:
  "\<exists>fd err w' es. open_android_modem_partition paths w = (Done (fd, err), w') \<and> w_trace w' = w_trace w @ es \<and>
     w_rd w' = w_rd w \<and> w_wr w' = w_wr w \<and> w_ioc w' = w_ioc w \<and>
     (if fd = -1 then es = [] \<and> err \<noteq> 0 else 0 \<le> fd \<and> (\<exists>path \<in> set paths. es = [EvOpen path fd]))"
proof (induction paths arbitrary: w)
  case (Cons path paths)
  let ?w1 = "w\<lparr>w_open := stl (w_open w)\<rparr>"
  show ?case
  proof (cases "shd (w_open w) < 0")
    case True
    then have "sys_open_errno path w = (Done (-1, - shd (w_open w)), ?w1)"
      by (simp add: sys_open_errno_def bnd_def sys_open_def Let_def ret_eq)
    then have e: "open_android_modem_partition (path # paths) w =
        (if - shd (w_open w) = ENOENT then open_android_modem_partition paths ?w1 else (Done (-1, - shd (w_open w)), ?w1))"
      by (simp add: bnd_def ret_eq)
    obtain fd err w' es where i: "open_android_modem_partition paths ?w1 = (Done (fd, err), w')" "w_trace w' = w_trace w @ es"
      "w_rd w' = w_rd w" "w_wr w' = w_wr w" "w_ioc w' = w_ioc w"
      "if fd = -1 then es = [] \<and> err \<noteq> 0 else 0 \<le> fd \<and> (\<exists>path \<in> set paths. es = [EvOpen path fd])"
      using Cons.IH [of ?w1] by auto
    show ?thesis
    proof (cases "- shd (w_open w) = ENOENT")
      case True
      have "if fd = -1 then es = [] \<and> err \<noteq> 0 else 0 \<le> fd \<and> (\<exists>p \<in> set (path # paths). es = [EvOpen p fd])"
        using i(6) by (auto split: if_splits)
      with True i(1-5) e show ?thesis by auto
    qed (use True e in auto)
  next
    case False
    then show ?thesis by (auto simp: sys_open_errno_def bnd_def sys_open_def Let_def ret_eq)
  qed
qed (simp add: ret_eq ENOENT_def)

definition devices_opened :: "int \<Rightarrow> int \<Rightarrow> event list" where
  "devices_opened nvfd fd = [EvOpen ''/efs/nv_data.bin'' nvfd, EvOpen ''/dev/umts_boot0'' fd]"

lemma obliging_after_open: "sys_open path w = (r, w') \<Longrightarrow> obliging w' = obliging w"
  by (auto simp: sys_open_def Let_def obliging_def split: if_splits)

lemma herolte_load_shape:
  assumes errno: "\<And>w. 0 < errno w" and run: "herolte_load errno ifd w = Some (r, w')" and ok: "sure \<longrightarrow> obliging w"
  shows "\<exists>bss es. w_trace w' = w_trace w @ map EvRead bss @ es \<and> (case r of
      Done (rc, nvfd, fd) \<Rightarrow> closed es = [] \<and>
        opened es = (if 0 \<le> nvfd then [nvfd] else []) @ (if 0 \<le> fd then [fd] else []) \<and>
        (rc = 0 \<longrightarrow> 0 \<le> nvfd \<and> 0 \<le> fd \<and> read_through 512 bss \<and>
          (\<exists>es' codes. es = devices_opened nvfd fd @ es' \<and> (sure \<longrightarrow> codes = [0, 0, 0]) \<and>
            handed ifd nvfd fd (toc_of (filled bss (calloc 512))) codes es'))
    | Undef \<Rightarrow> read_through 512 bss \<and> lacks_entry (toc_of (filled bss (calloc 512)))
    | Fail \<Rightarrow> False)"
proof -
  have nz: "errno w \<noteq> 0" for w using errno [of w] by simp
  obtain r1 w1 where rd: "data_read 512 (calloc 512) w = Some (r1, w1)"
    using run by (cases "data_read 512 (calloc 512) w") (auto simp: herolte_load_def)
  from data_read_shape [OF rd] obtain bss where
    t1: "w_trace w1 = w_trace w @ map EvRead bss" and o1: "obliging w \<longrightarrow> obliging w1 \<and> r1 \<noteq> Fail" and
    r1: "r1 = Fail \<and> length (concat bss) < 512 \<or> r1 = Done (filled bss (calloc 512)) \<and> read_through 512 bss" by auto
  show ?thesis
  proof (cases "r1 = Fail")
    case True
    with run rd have "r = Done (errno w1, -1, -1)" "w' = w1" by (auto simp: herolte_load_def)
    with t1 nz show ?thesis by (intro exI [of _ bss] exI [of _ "[]"]) simp
  next
    case False
    define t where "t = filled bss (calloc 512)"
    have t: "r1 = Done t" "read_through 512 bss" using r1 False by (auto simp: t_def)
    obtain nvfd w2 where o2: "sys_open ''/efs/nv_data.bin'' w1 = (Done nvfd, w2)"
      "w_trace w2 = w_trace w1 @ opens ''/efs/nv_data.bin'' nvfd" using sys_open_shape by metis
    have n: "nvfd = -1 \<or> 0 \<le> nvfd" using o2(1) by (auto simp: sys_open_def Let_def split: if_splits)
    show ?thesis
    proof (cases "nvfd = -1")
      case True
      with run rd t o2(1) have "r = Done (errno w2, nvfd, -1)" "w' = w2" by (auto simp: herolte_load_def and_then_def)
      with t1 nz o2(2) True show ?thesis by (intro exI [of _ bss] exI [of _ "[]"]) (simp add: opens_def)
    next
      case nv: False
      obtain fd w3 where o3: "sys_open ''/dev/umts_boot0'' w2 = (Done fd, w3)"
        "w_trace w3 = w_trace w2 @ opens ''/dev/umts_boot0'' fd" using sys_open_shape by metis
      let ?es = "opens ''/efs/nv_data.bin'' nvfd @ opens ''/dev/umts_boot0'' fd"
      have tr: "w_trace w3 = w_trace w @ map EvRead bss @ ?es" using t1 o2(2) o3(2) by simp
      show ?thesis
      proof (cases "fd < 0")
        case True
        with run rd t o2(1) o3(1) nv have "r = Done (errno w3, nvfd, fd)" "w' = w3" by (auto simp: herolte_load_def and_then_def)
        with tr nz n nv True show ?thesis by (intro exI [of _ bss] exI [of _ ?es]) (simp add: opens_def)
      next
        case pos: False
        with run rd t o2(1) o3(1) nv have k: "then_run (herolte_steps errno fd ifd nvfd (toc_of t))
            (\<lambda>rc w. Some (Done (rc, nvfd, fd), w)) w3 = Some (r, w')"
          by (simp add: herolte_load_def and_then_def)
        let ?R = "\<lambda>rc es. rc = 0 \<longrightarrow> (\<exists>codes. handed ifd nvfd fd (toc_of t) codes es \<and> (sure \<longrightarrow> codes = [0, 0, 0]))"
        have d: "does sure (lacks_entry (toc_of t)) (then_run (herolte_steps errno fd ifd nvfd (toc_of t))
            (\<lambda>rc w. Some (Done (rc, nvfd, fd), w))) (\<lambda>b es. snd b = (nvfd, fd) \<and> ?R (fst b) es)"
          using pos by (intro does_then [OF herolte_steps_does [OF errno]] does_return) auto
        have "sure \<longrightarrow> obliging w3"
          using ok o1 obliging_after_open [OF o2(1)] obliging_after_open [OF o3(1)] by simp
        from doesD [OF d this k] obtain es2 where tr2: "w_trace w' = w_trace w3 @ es2" "calm es2" and
          k2: "case r of Done b \<Rightarrow> snd b = (nvfd, fd) \<and> ?R (fst b) es2 | Fail \<Rightarrow> False | Undef \<Rightarrow> lacks_entry (toc_of t)"
          by blast
        have e: "?es = devices_opened nvfd fd" using pos nv n by (auto simp: opens_def devices_opened_def)
        have "w_trace w' = w_trace w @ map EvRead bss @ devices_opened nvfd fd @ es2" using tr tr2(1) e by simp
        moreover have "opened (devices_opened nvfd fd @ es2) = [nvfd, fd]" "closed (devices_opened nvfd fd @ es2) = []"
          using tr2(2) by (simp_all add: devices_opened_def calm_def)
        ultimately show ?thesis
          using k2 t(2) pos n nv unfolding t_def
          by (intro exI [of _ bss] exI [of _ "devices_opened nvfd fd @ es2"]) (cases r, auto)
      qed
    qed
  qed
qed

text \<open>
  C7: however booting the Galaxy S7 ends, if it ends. When it ends with a code, it has closed just the
  descriptors it opened. When the code is 0, what it did is the sequence of \<open>handed\<close>: after the table of
  contents is read, the devices are opened, and the modem is reset and put into the insecure mode, the
  uploads of BOOT, MAIN and NV follow. Each sets the descriptor of its image to the start of its entry and
  hands over the blocks one by one, each with its place in the image and in the memory and with the bytes
  that the reads just before it have left in the buffer (\<open>uploads\<close>; a read does not show its descriptor).
  An upload that returned 0 has handed over every block of its entry. One that returned a positive code has
  stopped at a read that failed or a request that was refused, and the boot goes on all the same; this
  happens to none when no read fails and no request is refused. The request for the secure mode with the
  sizes of BOOT and MAIN comes next, and then the modem is switched on and the handshake is done. The
  behaviour is undefined only when the table of contents lacks one of the three entries.
\<close>

theorem herolte_boot_hands_image:
  assumes "\<And>w. 0 < errno w" and "herolte_boot errno w = Some (r, w')"
  shows "\<exists>es. w_trace w' = w_trace w @ es \<and> (case r of
      Done rc \<Rightarrow> mset (opened es) = mset (closed es) \<and>
        (rc = 0 \<longrightarrow> (\<exists>path ifd nvfd fd bss es' codes. path \<in> set modem_image_devices \<and>
          es = [EvOpen path ifd] @ map EvRead bss @
            [EvOpen ''/efs/nv_data.bin'' nvfd, EvOpen ''/dev/umts_boot0'' fd] @ es' @
            [EvClose fd, EvClose ifd, EvClose nvfd] \<and>
          read_through 512 bss \<and> handed ifd nvfd fd (toc_of (filled bss (calloc 512))) codes es' \<and>
          (obliging w \<longrightarrow> codes = [0, 0, 0])))
    | Undef \<Rightarrow> (\<exists>path ifd bss es'. es = [EvOpen path ifd] @ map EvRead bss @ es' \<and> read_through 512 bss \<and>
        lacks_entry (toc_of (filled bss (calloc 512))))
    | Fail \<Rightarrow> False)"
proof -
  obtain ifd err w1 es1 where o: "open_android_modem_partition modem_image_devices w = (Done (ifd, err), w1)"
    "w_trace w1 = w_trace w @ es1" "w_rd w1 = w_rd w" "w_ioc w1 = w_ioc w"
    "if ifd = -1 then es1 = [] \<and> err \<noteq> 0 else 0 \<le> ifd \<and> (\<exists>path \<in> set modem_image_devices. es1 = [EvOpen path ifd])"
    using open_partition_shape by metis
  show ?thesis
  proof (cases "ifd = -1")
    case True
    with assms(2) o(1) have "r = Done err" "w' = w1" by (auto simp: herolte_boot_def and_then_def)
    with o True show ?thesis by (intro exI [of _ "[]"]) simp
  next
    case False
    with o(5) obtain path where ifd: "0 \<le> ifd" "path \<in> set modem_image_devices" "es1 = [EvOpen path ifd]" by auto
    let ?rest = "\<lambda>(rc, nvfd, boot0_fd). and_then (close_valid boot0_fd) (\<lambda>_. and_then (close_valid ifd) (\<lambda>_.
      and_then (close_valid nvfd) (\<lambda>_ w. Some (Done rc, w))))"
    have k: "then_run (herolte_load errno ifd) ?rest w1 = Some (r, w')"
      using assms(2) o(1) False by (simp add: herolte_boot_def and_then_def [of "open_android_modem_partition _"])
    then obtain r2 w2 where l: "herolte_load errno ifd w1 = Some (r2, w2)"
      by (cases "herolte_load errno ifd w1") (auto simp: then_run_def)
    have "obliging w \<longrightarrow> obliging w1" using o(3,4) by (simp add: obliging_def)
    note shape = herolte_load_shape [OF assms(1) l this]
    show ?thesis
    proof (cases r2)
      case (Done d)
      obtain rc nvfd fd where d: "d = (rc, nvfd, fd)" by (metis prod_cases3)
      have r: "r = Done rc" "w' = w2\<lparr>w_trace := w_trace w2 @ closes fd @ closes ifd @ closes nvfd\<rparr>"
        using k l Done d by (auto simp: then_run_def and_then_def close_valid_shape)
      from shape [unfolded Done d outcome.case prod.case] obtain bss es where
        t: "w_trace w2 = w_trace w1 @ map EvRead bss @ es" and c: "closed es = []"
          "opened es = (if 0 \<le> nvfd then [nvfd] else []) @ (if 0 \<le> fd then [fd] else [])" and
        z: "rc = 0 \<longrightarrow> 0 \<le> nvfd \<and> 0 \<le> fd \<and> read_through 512 bss \<and> (\<exists>es' codes. es = devices_opened nvfd fd @ es' \<and>
          (obliging w \<longrightarrow> codes = [0, 0, 0]) \<and> handed ifd nvfd fd (toc_of (filled bss (calloc 512))) codes es')"
        by blast
      let ?es = "[EvOpen path ifd] @ map EvRead bss @ es @ closes fd @ closes ifd @ closes nvfd"
      have tr: "w_trace w' = w_trace w @ ?es" using r(2) t o(2) ifd(3) by simp
      have reads: "opened (map EvRead bss) = []" "closed (map EvRead bss) = []"
        using calm_map(1) [of bss] by (simp_all only: calm_def)
      have "mset (opened ?es) = mset (closed ?es)" using c ifd(1) reads by (auto simp: closes_def)
      moreover have "\<exists>nvfd fd bss es' codes. ?es = [EvOpen path ifd] @ map EvRead bss @
            [EvOpen ''/efs/nv_data.bin'' nvfd, EvOpen ''/dev/umts_boot0'' fd] @ es' @
            [EvClose fd, EvClose ifd, EvClose nvfd] \<and>
          read_through 512 bss \<and> handed ifd nvfd fd (toc_of (filled bss (calloc 512))) codes es' \<and>
          (obliging w \<longrightarrow> codes = [0, 0, 0])" if "rc = 0"
      proof -
        from z that obtain es' codes where "0 \<le> nvfd" "0 \<le> fd" "read_through 512 bss" "es = devices_opened nvfd fd @ es'"
          "obliging w \<longrightarrow> codes = [0, 0, 0]" "handed ifd nvfd fd (toc_of (filled bss (calloc 512))) codes es'" by blast
        with ifd(1) show ?thesis
          by (intro exI [of _ nvfd] exI [of _ fd] exI [of _ bss] exI [of _ es'] exI [of _ codes])
            (simp add: devices_opened_def closes_def)
      qed
      ultimately show ?thesis unfolding r(1) outcome.case
        by (intro exI [of _ ?es] conjI impI tr) (assumption, use ifd(2) in blast)
    next
      case Fail
      with shape show ?thesis by simp
    next
      case Undef
      with k l have r: "r = Undef" "w' = w2" by (auto simp: then_run_def)
      from shape [unfolded Undef outcome.case] obtain bss es where
        t: "w_trace w2 = w_trace w1 @ map EvRead bss @ es" and
        z: "read_through 512 bss" "lacks_entry (toc_of (filled bss (calloc 512)))" by blast
      have "w_trace w' = w_trace w @ ([EvOpen path ifd] @ map EvRead bss @ es)" using r(2) t o(2) ifd(3) by simp
      with z show ?thesis unfolding r(1) outcome.case by blast
    qed
  qed
qed

section \<open>A kernel and a modem that answer\<close>

text \<open>
  With a kernel that grants every request and takes four bytes at a time, the call reads just the answers
  \<open>rs\<close>, returns a result in \<open>P\<close>, and, where that is asked for, hands no block over.
\<close>

definition grants :: "world \<Rightarrow> bool" where
  "grants w \<longleftrightarrow> (\<forall>x \<in> sset (w_ioc w). 0 \<le> x) \<and> (\<forall>x \<in> sset (w_wr w). 4 \<le> x)"

definition no_block :: "event list \<Rightarrow> bool" where
  "no_block es \<longleftrightarrow> (\<forall>fd arg. EvIoctl fd IOCTL_DPRAM_SEND_BOOT arg \<notin> set es)"

definition passes ::
  "bool \<Rightarrow> (world \<Rightarrow> ('a outcome \<times> world) option) \<Rightarrow> u8 list option list \<Rightarrow> ('a \<Rightarrow> bool) \<Rightarrow> bool" where
  "passes strict m rs P \<longleftrightarrow> (\<forall>w rest. grants w \<longrightarrow> w_rd w = rs @- rest \<longrightarrow>
     (\<exists>a w' es. m w = Some (Done a, w') \<and> P a \<and> grants w' \<and> w_rd w' = rest \<and> w_trace w' = w_trace w @ es \<and> (strict \<longrightarrow> no_block es)))"

lemma passesI:
  "(\<And>w rest. grants w \<Longrightarrow> w_rd w = rs @- rest \<Longrightarrow> \<exists>a w' es. m w = Some (Done a, w') \<and> P a \<and> grants w' \<and>
     w_rd w' = rest \<and> w_trace w' = w_trace w @ es \<and> (strict \<longrightarrow> no_block es)) \<Longrightarrow> passes strict m rs P"
  unfolding passes_def by blast

lemma passesD:
  "passes strict m rs P \<Longrightarrow> grants w \<Longrightarrow> w_rd w = rs @- rest \<Longrightarrow> \<exists>a w' es. m w = Some (Done a, w') \<and> P a \<and> grants w' \<and>
     w_rd w' = rest \<and> w_trace w' = w_trace w @ es \<and> (strict \<longrightarrow> no_block es)"
  unfolding passes_def by blast

lemma passes_mono: "passes strict m rs P \<Longrightarrow> (\<And>a. P a \<Longrightarrow> Q a) \<Longrightarrow> passes strict m rs Q"
  unfolding passes_def by meson

lemma passes_then:
  assumes "passes strict m rs P" "\<And>a. P a \<Longrightarrow> passes strict (f a) ss Q"
  shows "passes strict (then_run m f) (rs @ ss) Q"
proof (rule passesI)
  fix w rest
  assume "grants w" "w_rd w = (rs @ ss) @- rest"
  then obtain a w1 es1 where m: "m w = Some (Done a, w1)" "P a" "grants w1" "w_rd w1 = ss @- rest"
    "w_trace w1 = w_trace w @ es1" "strict \<longrightarrow> no_block es1" using passesD [OF assms(1), of w "ss @- rest"] by auto
  obtain b w2 es2 where f: "f a w1 = Some (Done b, w2)" "Q b" "grants w2" "w_rd w2 = rest" "w_trace w2 = w_trace w1 @ es2"
    "strict \<longrightarrow> no_block es2" using passesD [OF assms(2) [OF m(2)] m(3,4)] by blast
  have "then_run m f w = Some (Done b, w2)" using m(1) f(1) by (simp add: then_run_def)
  moreover have "strict \<longrightarrow> no_block (es1 @ es2)" using m(6) f(6) by (auto simp: no_block_def)
  ultimately show "\<exists>b w' es. then_run m f w = Some (Done b, w') \<and> Q b \<and> grants w' \<and> w_rd w' = rest \<and>
      w_trace w' = w_trace w @ es \<and> (strict \<longrightarrow> no_block es)"
    using f(2-5) m(5) by (intro exI [of _ b] exI [of _ w2] exI [of _ "es1 @ es2"]) simp
qed

lemma passes_return: "P a \<Longrightarrow> passes strict (\<lambda>w. Some (Done a, w)) [] P"
  by (rule passesI) (simp add: no_block_def)

lemma passes_or_exit:
  "passes strict m rs (\<lambda>r. r = None) \<Longrightarrow> passes strict k ss Q \<Longrightarrow> passes strict (or_exit m k) (rs @ ss) Q"
  unfolding or_exit_def by (rule passes_then [where P = "\<lambda>r. r = None"]) auto

lemma grants_after: "grants w \<Longrightarrow> 0 \<le> shd (w_ioc w) \<and> 4 \<le> shd (w_wr w) \<and>
    grants (w\<lparr>w_ioc := stl (w_ioc w)\<rparr>) \<and> grants (w\<lparr>w_wr := stl (w_wr w)\<rparr>)"
  by (auto simp: grants_def shd_sset dest: stl_sset)

lemma passes_steps:
  assumes "rq \<noteq> IOCTL_DPRAM_SEND_BOOT"
  shows "passes strict (step (ioctl_plain fd rq) code) [] (\<lambda>r. r = None)"
    "passes strict (step (ioctl_struct fd rq bs) code) [] (\<lambda>r. r = None)"
proof -
  have g: "grants (w\<lparr>w_ioc := stl (w_ioc w), w_trace := es\<rparr>)" if "grants w" for w es
    using that by (auto simp: grants_def dest: stl_sset)
  show "passes strict (step (ioctl_plain fd rq) code) [] (\<lambda>r. r = None)"
    using assms g by (intro passesI) (auto simp: step_def and_then_def try_rc_def ioctl_plain_eq no_block_def dest: grants_after)
  show "passes strict (step (ioctl_struct fd rq bs) code) [] (\<lambda>r. r = None)"
    using assms g by (intro passesI) (auto simp: step_def and_then_def try_rc_def ioctl_struct_eq no_block_def dest: grants_after)
qed

text \<open>An entry that is found, is not empty, and lies where \<open>lseek\<close> goes.\<close>

definition reachable_entry :: "firmware_toc_entry list \<Rightarrow> string \<Rightarrow> bool" where
  "reachable_entry toc name \<longleftrightarrow> (\<exists>boot entry. find_toc_entry (ascii ''BOOT'') toc = Some boot \<and>
     find_toc_entry (ascii name) toc = Some entry \<and> 0 < toc_size entry \<and> 0 \<le> sint (toc_offset entry))"

lemma passes_unread:
  assumes "reachable_entry toc name" and "\<And>w. 0 < errno w"
  shows "passes strict (upload_chunk errno fd firmware_fd toc name) [None] (\<lambda>(rc, s). 0 < rc)"
proof (rule passesI)
  fix w rest
  assume w: "grants w" "w_rd w = [None] @- rest"
  from assms(1) obtain boot entry where e: "find_toc_entry (ascii ''BOOT'') toc = Some boot"
    "find_toc_entry (ascii name) toc = Some entry" "0 < toc_size entry" "0 \<le> sint (toc_offset entry)"
    by (auto simp: reachable_entry_def)
  let ?n = "unat (toc_size entry)"
  let ?seek = "EvSeek firmware_fd (nat (sint (toc_offset entry)))"
  let ?w1 = "w\<lparr>w_ioc := stl (w_ioc w), w_rd := rest, w_trace := w_trace w @ [?seek]\<rparr>"
  have n: "0 < ?n" using e(3) by (simp add: word_gt_0 unat_gt_0)
  let ?len = "if ?n < MAX_CHUNK_LEN then ?n else MAX_CHUNK_LEN"
  have len: "0 < ?len" "?len < 2 ^ 31" using n by (auto simp: MAX_CHUNK_LEN_def)
  have "data_read ?len buf (w\<lparr>w_ioc := stl (w_ioc w), w_trace := w_trace w @ [?seek]\<rparr>) = Some (Fail, ?w1)" for buf
    using len w(2) by (simp add: data_read_def sint_small_nat data_read_loop.simps [of ?len] sys_read_def Let_def)
  then have "upload_chunk errno fd firmware_fd toc name w = Some (Done (errno ?w1, toc_size entry), ?w1)"
    using e n grants_after [OF w(1)] by (simp add: upload_chunk_def Let_def and_then_def then_run_def image_lseek_def
        upload_loop.simps [of _ _ _ ?n] not_less)
  moreover have "grants ?w1" using w(1) by (auto simp: grants_def dest: stl_sset)
  ultimately show "\<exists>a w' es. upload_chunk errno fd firmware_fd toc name w = Some (Done a, w') \<and>
      (case a of (rc, s) \<Rightarrow> 0 < rc) \<and> grants w' \<and> w_rd w' = rest \<and> w_trace w' = w_trace w @ es \<and> (strict \<longrightarrow> no_block es)"
    using assms(2) by (intro exI conjI) (auto simp: no_block_def)
qed

lemma passes_handshake: "passes strict (handshake errno fd word expected) [Some (le32 expected)] (\<lambda>r. r = None)"
proof (rule passesI)
  fix w rest
  assume w: "grants w" "w_rd w = [Some (le32 expected)] @- rest"
  let ?w1 = "w\<lparr>w_wr := stl (w_wr w), w_trace := w_trace w @ [EvWrite fd (le32 word)]\<rparr>"
  have "4 \<le> nat (shd (w_wr w))" "\<not> shd (w_wr w) < 0" using grants_after [OF w(1)] by linarith+
  then have "sys_write fd (le32 word) w = (Done 4, ?w1)" by (simp add: sys_write_def Let_def min_def take_all)
  then have wr: "data_write fd (le32 word) w = Some (Done (), ?w1)"
    by (simp add: data_write_start data_write_loop_step data_write_loop_done)
  have rd: "data_read 4 (le32 word) ?w1 = Some (Done (le32 expected), after_read 4 (le32 expected) ?w1)"
    using w(2) by (simp add: data_read_def data_read_loop_step data_read_loop_done)
  have "handshake errno fd word expected w = Some (Done None, after_read 4 (le32 expected) ?w1)"
    by (simp add: handshake_def wr rd layout_simps)
  moreover have "grants (after_read 4 (le32 expected) ?w1)" using w(1) by (auto simp: grants_def after_read_def dest: stl_sset)
  ultimately show "\<exists>a w' es. handshake errno fd word expected w = Some (Done a, w') \<and> a = None \<and> grants w' \<and>
      w_rd w' = rest \<and> w_trace w' = w_trace w @ es \<and> (strict \<longrightarrow> no_block es)"
    using w(2) by (intro exI conjI) (auto simp: after_read_def no_block_def)
qed

text \<open>Reading all of an entry that fits one block.\<close>

lemma data_read_once:
  "0 < k \<Longrightarrow> k < 2 ^ 31 \<Longrightarrow> shd (w_rd w) = Some d \<Longrightarrow> length d = k \<Longrightarrow>
   data_read k buf w = Some (Done (d @ drop k buf), after_read k d w)"
  by (simp add: data_read_def sint_small_nat data_read_loop_step data_read_loop_done)

lemma passes_read:
  assumes e: "find_toc_entry (ascii ''BOOT'') toc = Some boot" "find_toc_entry (ascii name) toc = Some entry"
    "0 \<le> sint (toc_offset entry)" and d: "length d = unat (toc_size entry)" "d \<noteq> []" "length d \<le> MAX_CHUNK_LEN"
  shows "passes False (upload_chunk errno fd firmware_fd toc name) [Some d] (\<lambda>(rc, s). rc = 0)"
proof (rule passesI)
  fix w rest
  assume w: "grants w" "w_rd w = [Some d] @- rest"
  let ?n = "unat (toc_size entry)"
  let ?seek = "EvSeek firmware_fd (nat (sint (toc_offset entry)))"
  let ?w0 = "w\<lparr>w_ioc := stl (w_ioc w), w_trace := w_trace w @ [?seek]\<rparr>"
  have n: "0 < ?n" "\<not> MAX_CHUNK_LEN < ?n" "?n < 2 ^ 31" using d by (auto simp: MAX_CHUNK_LEN_def simp flip: d(1))
  have len: "(if ?n < MAX_CHUNK_LEN then ?n else MAX_CHUNK_LEN) = ?n" using n(2) by simp
  have rd: "data_read ?n buf ?w0 = Some (Done (d @ drop ?n buf), after_read ?n d ?w0)" for buf
    using n(1,3) w(2) d(1) by (intro data_read_once) simp_all
  have io: "\<not> shd (w_ioc w) < 0" "\<not> shd (w_ioc (after_read ?n d ?w0)) < 0"
    using grants_after [OF w(1)] grants_after [of "w\<lparr>w_ioc := stl (w_ioc w)\<rparr>"] by (simp_all add: after_read_def not_less)
  obtain bs where u: "upload_chunk errno fd firmware_fd toc name w = Some (Done (0, toc_size entry),
      (after_read ?n d ?w0)\<lparr>w_ioc := stl (stl (w_ioc w)), w_trace := w_trace (after_read ?n d ?w0) @
        [EvWrite fd bs, EvIoctl fd IOCTL_DPRAM_SEND_BOOT 0]\<rparr>)" (is "_ = Some (?r, ?w1 bs)")
    using e n io by (simp add: upload_chunk_def Let_def and_then_def then_run_def image_lseek_def not_less
        upload_loop.simps [of _ _ _ ?n] upload_loop.simps [of _ _ _ 0] len rd ioctl_struct_eq) (simp add: after_read_def)
  have "grants (?w1 bs)" using w(1) by (auto simp: grants_def after_read_def dest: stl_sset)
  moreover have "w_rd (?w1 bs) = rest" using w(2) by (simp add: after_read_def)
  moreover have "w_trace (?w1 bs) = w_trace w @ [?seek, EvRead (take ?n d), EvWrite fd bs, EvIoctl fd IOCTL_DPRAM_SEND_BOOT 0]"
    by (simp add: after_read_def)
  ultimately show "\<exists>a w' es. upload_chunk errno fd firmware_fd toc name w = Some (Done a, w') \<and> (case a of (rc, s) \<Rightarrow> rc = 0) \<and>
      grants w' \<and> w_rd w' = rest \<and> w_trace w' = w_trace w @ es \<and> (False \<longrightarrow> no_block es)"
    using u by blast
qed

lemma passes_herolte_steps:
  assumes loads: "\<And>ffd. passes strict (upload_chunk errno fd ffd toc ''BOOT'') rs1 (\<lambda>(rc, s). 0 \<le> rc)"
      "\<And>ffd. passes strict (upload_chunk errno fd ffd toc ''MAIN'') rs2 (\<lambda>(rc, s). 0 \<le> rc)"
      "\<And>ffd. passes strict (upload_chunk errno fd ffd toc ''NV'') rs3 (\<lambda>(rc, s). 0 \<le> rc)"
    and fd: "0 \<le> fd"
  shows "passes strict (herolte_steps errno fd ifd nvfd toc) ([] @ [] @ rs1 @ rs2 @ rs3 @ [] @ [] @ [] @ [] @
    [Some (le32 0xa00d)] @ [Some (le32 0xaf00)] @ [] @ []) (\<lambda>rc. rc = 0)"
proof -
  note power = power_plain(1) [OF fd, of 1, simplified] power_plain(2) [OF fd, of 1, simplified]
    power_plain(2) [OF fd, of 0, simplified]
  note requests = IOCTL_MODEM_RESET_def IOCTL_MODEM_DL_START_def IOCTL_DPRAM_SEND_BOOT_def IOCTL_SECURITY_REQ_def
    IOCTL_MODEM_ON_def IOCTL_MODEM_BOOT_ON_def IOCTL_MODEM_BOOT_OFF_def IO_o_def
  have up: "passes strict (then_run (upload_chunk errno fd ffd toc name) (\<lambda>(rc, s). if rc < 0 then (\<lambda>w. Some (Done (-1), w)) else k s))
      (rs0 @ rs) Q" if "passes strict (upload_chunk errno fd ffd toc name) rs0 (\<lambda>(rc, s). 0 \<le> rc)" "\<And>s. passes strict (k s) rs Q"
    for name k rs0 rs ffd and Q :: "int \<Rightarrow> bool"
    by (rule passes_then [OF that(1)]) (use that(2) in auto)
  show ?thesis
    unfolding herolte_steps_def power select_secure_mode_def
    by (intro passes_or_exit passes_steps passes_handshake passes_return up loads) (simp_all add: requests)
qed

lemma herolte_boot_passes:
  assumes t: "length t = 512"
    and loads: "\<And>fd ffd. passes strict (upload_chunk errno fd ffd (toc_of t) ''BOOT'') rs1 (\<lambda>(rc, s). 0 \<le> rc)"
      "\<And>fd ffd. passes strict (upload_chunk errno fd ffd (toc_of t) ''MAIN'') rs2 (\<lambda>(rc, s). 0 \<le> rc)"
      "\<And>fd ffd. passes strict (upload_chunk errno fd ffd (toc_of t) ''NV'') rs3 (\<lambda>(rc, s). 0 \<le> rc)"
    and w: "\<forall>x \<in> sset (w_open w). 0 \<le> x" "\<forall>x \<in> sset (w_ioc w). 0 \<le> x" "\<forall>x \<in> sset (w_wr w). 4 \<le> x"
      "w_rd w = ([Some t] @ rs1 @ rs2 @ rs3 @ [Some (le32 0xa00d), Some (le32 0xaf00)]) @- rest"
  shows "\<exists>w' es. herolte_boot errno w = Some (Done 0, w') \<and> w_rd w' = rest \<and> w_trace w' = w_trace w @ es \<and>
    (strict \<longrightarrow> no_block es)"
proof -
  define ifd nvfd fd where fd: "ifd = shd (w_open w)" "nvfd = shd (stl (w_open w))" "fd = shd (stl (stl (w_open w)))"
  have pos: "0 \<le> ifd" "0 \<le> nvfd" "0 \<le> fd" unfolding fd using w(1) by (meson shd_sset stl_sset)+
  let ?path = "''/dev/disk/by-partlabel/RADIO''"
  define w1 where "w1 = w\<lparr>w_open := stl (w_open w), w_trace := w_trace w @ [EvOpen ?path ifd]\<rparr>"
  define w2 where "w2 = after_read 512 t w1"
  define w3 where "w3 = w2\<lparr>w_open := stl (stl (w_open w)), w_trace := w_trace w2 @ [EvOpen ''/efs/nv_data.bin'' nvfd]\<rparr>"
  define w4 where "w4 = w3\<lparr>w_open := stl (stl (stl (w_open w))), w_trace := w_trace w3 @ [EvOpen ''/dev/umts_boot0'' fd]\<rparr>"
  have o1: "open_android_modem_partition modem_image_devices w = (Done (ifd, 0), w1)"
    using pos by (simp add: modem_image_devices_def sys_open_errno_def bnd_def sys_open_def Let_def ret_eq w1_def flip: fd)
  have rd: "data_read 512 (calloc 512) w1 = Some (Done t, w2)"
    using w(4) t by (simp add: w2_def w1_def data_read_def data_read_loop_step data_read_loop_done)
  have o2: "sys_open ''/efs/nv_data.bin'' w2 = (Done nvfd, w3)" "sys_open ''/dev/umts_boot0'' w3 = (Done fd, w4)"
    using pos by (simp_all add: sys_open_def Let_def w2_def w1_def w3_def w4_def after_read_def flip: fd)
  have "grants w4" "w_rd w4 = ([] @ [] @ rs1 @ rs2 @ rs3 @ [] @ [] @ [] @ [] @
      [Some (le32 0xa00d)] @ [Some (le32 0xaf00)] @ [] @ []) @- rest"
    using w(2-4) by (simp_all add: w4_def w3_def w2_def w1_def after_read_def grants_def)
  note g = this
  have "passes strict (herolte_steps errno fd ifd nvfd (toc_of t)) ([] @ [] @ rs1 @ rs2 @ rs3 @ [] @ [] @ [] @ [] @
      [Some (le32 0xa00d)] @ [Some (le32 0xaf00)] @ [] @ []) (\<lambda>rc. rc = 0)"
    by (rule passes_herolte_steps [OF loads pos(3)])
  from passesD [OF this g] obtain w5 es where
    s: "herolte_steps errno fd ifd nvfd (toc_of t) w4 = Some (Done 0, w5)" "w_rd w5 = rest" "w_trace w5 = w_trace w4 @ es"
      "strict \<longrightarrow> no_block es" by auto
  have l: "herolte_load errno ifd w1 = Some (Done (0, nvfd, fd), w5)"
    using pos by (simp add: herolte_load_def rd and_then_def o2 then_run_def s(1))
  let ?w' = "w5\<lparr>w_trace := w_trace w5 @ closes fd @ closes ifd @ closes nvfd\<rparr>"
  have "herolte_boot errno w = Some (Done 0, ?w')"
    using pos by (simp add: herolte_boot_def and_then_def o1 then_run_def l close_valid_shape)
  moreover have "w_rd ?w' = rest" using s(2) by simp
  moreover have "w_trace ?w' = w_trace w @ ([EvOpen ?path ifd, EvRead (take 512 t), EvOpen ''/efs/nv_data.bin'' nvfd,
      EvOpen ''/dev/umts_boot0'' fd] @ es @ closes fd @ closes ifd @ closes nvfd)" (is "_ = _ @ ?es")
    using s(3) by (simp add: w4_def w3_def w2_def w1_def after_read_def)
  moreover have "strict \<longrightarrow> no_block ?es" using s(4) by (auto simp: no_block_def closes_def)
  ultimately show ?thesis by blast
qed

text \<open>
  C37: a kernel that cannot read one byte of the firmware, and a modem that answers all the same: booting
  then ends with 0, though no block of the firmware has been handed over, as the positive \<open>errno\<close> that the
  uploads return is not taken for a failure.
\<close>

theorem herolte_boot_misses_failed_uploads:
  assumes errno: "\<And>w. 0 < errno w" and t: "length t = 512"
    and toc: "\<forall>name \<in> {''BOOT'', ''MAIN'', ''NV''}. reachable_entry (toc_of t) name"
    and w: "\<forall>x \<in> sset (w_open w). 0 \<le> x" "\<forall>x \<in> sset (w_ioc w). 0 \<le> x" "\<forall>x \<in> sset (w_wr w). 4 \<le> x"
      "w_rd w = [Some t, None, None, None, Some (le32 0xa00d), Some (le32 0xaf00)] @- rest"
  shows "\<exists>w' es. herolte_boot errno w = Some (Done 0, w') \<and> w_rd w' = rest \<and> w_trace w' = w_trace w @ es \<and>
    (\<forall>fd arg. EvIoctl fd IOCTL_DPRAM_SEND_BOOT arg \<notin> set es)"
proof -
  have "passes True (upload_chunk errno fd ffd (toc_of t) name) [None] (\<lambda>(rc, s). 0 \<le> rc)"
    if "name \<in> {''BOOT'', ''MAIN'', ''NV''}" for fd ffd name
    by (rule passes_mono [OF passes_unread]) (use toc that errno in auto)
  then show ?thesis
    using herolte_boot_passes [OF t, of True errno "[None]" "[None]" "[None]" w rest] w by (auto simp: no_block_def)
qed

definition demo_toc_entry :: "string \<Rightarrow> u32 \<Rightarrow> u32 \<Rightarrow> u32 \<Rightarrow> u8 list" where
  "demo_toc_entry name offset loadaddr sz = ascii name @ calloc (12 - length name) @ le32 offset @ le32 loadaddr @
     le32 sz @ calloc 8"

definition demo_toc :: "u8 list" where
  "demo_toc = demo_toc_entry ''BOOT'' 0x200 0x40000000 4 @ demo_toc_entry ''MAIN'' 0x400 0x40010000 2 @
     demo_toc_entry ''NV'' 0 0x48000000 1 @ calloc 416"

definition demo_herolte_world :: "u8 list option list \<Rightarrow> world" where
  "demo_herolte_world answers = demo_world\<lparr>w_open := 3 ## 4 ## sconst 5, w_ioc := sconst 0, w_wr := sconst 4, w_trace := [],
     w_rd := answers @- sconst None\<rparr>"

lemma demo_toc_entry_of:
  assumes "length name \<le> 12"
  shows "length (demo_toc_entry name offset loadaddr sz) = 32"
    "firmware_toc_entry_of (demo_toc_entry name offset loadaddr sz @ bs) = \<lparr>toc_name = ascii name @ calloc (12 - length name),
       toc_offset = offset, toc_loadaddr = loadaddr, toc_size = sz, toc_crc = 0, toc_entryid = 0\<rparr>"
proof -
  have l: "length (ascii name) = length name" by (simp add: ascii_def)
  then show "length (demo_toc_entry name offset loadaddr sz) = 32" using assms by (simp add: demo_toc_entry_def)
  let ?n = "ascii name @ calloc (12 - length name)"
  have n: "length ?n = 12" using assms l by simp
  define n12 where "n12 = ?n"
  have d: "demo_toc_entry name offset loadaddr sz @ bs = n12 @ le32 offset @ le32 loadaddr @ le32 sz @ le32 0 @ le32 0 @ bs"
    by (simp add: demo_toc_entry_def n12_def le32_def calloc_def eval_nat_numeral)
  have n12: "length n12 = 12" using n by (simp add: n12_def)
  show "firmware_toc_entry_of (demo_toc_entry name offset loadaddr sz @ bs) = \<lparr>toc_name = ?n,
       toc_offset = offset, toc_loadaddr = loadaddr, toc_size = sz, toc_crc = 0, toc_entryid = 0\<rparr>"
    unfolding d n12_def [symmetric] by (simp add: firmware_toc_entry_of_def n12 layout_simps)
qed

lemma demo_toc_of: "length demo_toc = 512 \<and> (\<exists>es. toc_of demo_toc =
    \<lparr>toc_name = ascii ''BOOT'' @ calloc 8, toc_offset = 0x200, toc_loadaddr = 0x40000000, toc_size = 4, toc_crc = 0, toc_entryid = 0\<rparr> #
    \<lparr>toc_name = ascii ''MAIN'' @ calloc 8, toc_offset = 0x400, toc_loadaddr = 0x40010000, toc_size = 2, toc_crc = 0, toc_entryid = 0\<rparr> #
    \<lparr>toc_name = ascii ''NV'' @ calloc 10, toc_offset = 0, toc_loadaddr = 0x48000000, toc_size = 1, toc_crc = 0, toc_entryid = 0\<rparr> # es \<and>
    length es = 13)"
proof -
  have "[0..<N_TOC_ENTRIES] = [0, 1, 2] @ [3..<16]" by (simp add: N_TOC_ENTRIES_def sizeof_firmware_toc_entry_def upt_rec)
  then show ?thesis
    by (simp add: toc_of_def sizeof_firmware_toc_entry_def demo_toc_def demo_toc_entry_of)
qed

lemma demo_toc_found:
  "find_toc_entry (ascii ''BOOT'') (toc_of demo_toc) = Some \<lparr>toc_name = ascii ''BOOT'' @ calloc 8, toc_offset = 0x200,
     toc_loadaddr = 0x40000000, toc_size = 4, toc_crc = 0, toc_entryid = 0\<rparr>"
  "find_toc_entry (ascii ''MAIN'') (toc_of demo_toc) = Some \<lparr>toc_name = ascii ''MAIN'' @ calloc 8, toc_offset = 0x400,
     toc_loadaddr = 0x40010000, toc_size = 2, toc_crc = 0, toc_entryid = 0\<rparr>"
  "find_toc_entry (ascii ''NV'') (toc_of demo_toc) = Some \<lparr>toc_name = ascii ''NV'' @ calloc 10, toc_offset = 0,
     toc_loadaddr = 0x48000000, toc_size = 1, toc_crc = 0, toc_entryid = 0\<rparr>"
proof -
  obtain es where e: "toc_of demo_toc =
    \<lparr>toc_name = ascii ''BOOT'' @ calloc 8, toc_offset = 0x200, toc_loadaddr = 0x40000000, toc_size = 4, toc_crc = 0, toc_entryid = 0\<rparr> #
    \<lparr>toc_name = ascii ''MAIN'' @ calloc 8, toc_offset = 0x400, toc_loadaddr = 0x40010000, toc_size = 2, toc_crc = 0, toc_entryid = 0\<rparr> #
    \<lparr>toc_name = ascii ''NV'' @ calloc 10, toc_offset = 0, toc_loadaddr = 0x48000000, toc_size = 1, toc_crc = 0, toc_entryid = 0\<rparr> # es"
    using demo_toc_of by blast
  have n: "N_TOC_ENTRIES = 16" by (simp add: N_TOC_ENTRIES_def sizeof_firmware_toc_entry_def)
  show "find_toc_entry (ascii ''BOOT'') (toc_of demo_toc) = Some \<lparr>toc_name = ascii ''BOOT'' @ calloc 8, toc_offset = 0x200,
     toc_loadaddr = 0x40000000, toc_size = 4, toc_crc = 0, toc_entryid = 0\<rparr>"
    "find_toc_entry (ascii ''MAIN'') (toc_of demo_toc) = Some \<lparr>toc_name = ascii ''MAIN'' @ calloc 8, toc_offset = 0x400,
     toc_loadaddr = 0x40010000, toc_size = 2, toc_crc = 0, toc_entryid = 0\<rparr>"
    "find_toc_entry (ascii ''NV'') (toc_of demo_toc) = Some \<lparr>toc_name = ascii ''NV'' @ calloc 10, toc_offset = 0,
     toc_loadaddr = 0x48000000, toc_size = 1, toc_crc = 0, toc_entryid = 0\<rparr>"
    by (simp_all add: find_toc_entry_def n e strncmp_eq_iff) (simp_all add: ascii_def cstr_def)
qed

lemma demo_toc_reachable: "\<forall>name \<in> {''BOOT'', ''MAIN'', ''NV''}. reachable_entry (toc_of demo_toc) name"
  by (auto simp: reachable_entry_def demo_toc_found)

lemma demo_herolte: "\<forall>x \<in> sset (w_open (demo_herolte_world rs)). 0 \<le> x" "\<forall>x \<in> sset (w_ioc (demo_herolte_world rs)). 0 \<le> x"
  "\<forall>x \<in> sset (w_wr (demo_herolte_world rs)). 4 \<le> x" "w_rd (demo_herolte_world rs) = rs @- sconst None"
  "w_trace (demo_herolte_world rs) = []"
  by (simp_all add: demo_herolte_world_def)

theorem herolte_boot_misses_failed_uploads_witness:
  "\<exists>w'. herolte_boot (\<lambda>_. 5) (demo_herolte_world [Some demo_toc, None, None, None, Some (le32 0xa00d), Some (le32 0xaf00)]) =
     Some (Done 0, w') \<and> EvIoctl 5 IOCTL_DPRAM_SEND_BOOT 0 \<notin> set (w_trace w')"
proof -
  let ?w = "demo_herolte_world [Some demo_toc, None, None, None, Some (le32 0xa00d), Some (le32 0xaf00)]"
  have "length demo_toc = 512" using demo_toc_of by blast
  from herolte_boot_misses_failed_uploads [OF _ this demo_toc_reachable demo_herolte(1-4), of "\<lambda>_. 5"]
  show ?thesis by (auto simp: demo_herolte(5))
qed

lemma demo_herolte_load:
  assumes "find_toc_entry (ascii name) (toc_of demo_toc) = Some entry" "0 \<le> sint (toc_offset entry)"
    "length d = unat (toc_size entry)" "d \<noteq> []" "length d \<le> MAX_CHUNK_LEN"
  shows "passes False (upload_chunk errno fd ffd (toc_of demo_toc) name) [Some d] (\<lambda>(rc, s). 0 \<le> rc)"
  by (rule passes_mono [OF passes_read [OF demo_toc_found(1) assms]]) auto

lemma demo_herolte_loads:
  "passes False (upload_chunk errno fd ffd (toc_of demo_toc) ''BOOT'') [Some [1, 2, 3, 4]] (\<lambda>(rc, s). 0 \<le> rc)"
  "passes False (upload_chunk errno fd ffd (toc_of demo_toc) ''MAIN'') [Some [5, 6]] (\<lambda>(rc, s). 0 \<le> rc)"
  "passes False (upload_chunk errno fd ffd (toc_of demo_toc) ''NV'') [Some [7]] (\<lambda>(rc, s). 0 \<le> rc)"
  by (rule demo_herolte_load, rule demo_toc_found, simp_all add: MAX_CHUNK_LEN_def)+

theorem herolte_boot_hands_image_witness:
  "\<exists>w' path ifd nvfd fd bss es. herolte_boot (\<lambda>_. 5) (demo_herolte_world []\<lparr>w_rd := [Some demo_toc, Some [1, 2, 3, 4],
       Some [5, 6], Some [7], Some (le32 0xa00d), Some (le32 0xaf00)] @- sconst (Some [])\<rparr>) = Some (Done 0, w') \<and>
     w_trace w' = [EvOpen path ifd] @ map EvRead bss @ [EvOpen ''/efs/nv_data.bin'' nvfd, EvOpen ''/dev/umts_boot0'' fd] @ es @
       [EvClose fd, EvClose ifd, EvClose nvfd] \<and>
     handed ifd nvfd fd (toc_of (filled bss (calloc 512))) [0, 0, 0] es"
proof -
  let ?answers = "[Some demo_toc, Some [1, 2, 3, 4], Some [5, 6], Some [7], Some (le32 0xa00d), Some (le32 0xaf00)]"
  let ?w = "demo_herolte_world []\<lparr>w_rd := ?answers @- sconst (Some [])\<rparr>"
  have l: "length demo_toc = 512" using demo_toc_of by blast
  have w: "\<forall>x \<in> sset (w_open ?w). 0 \<le> x" "\<forall>x \<in> sset (w_ioc ?w). 0 \<le> x" "\<forall>x \<in> sset (w_wr ?w). 4 \<le> x"
    "w_rd ?w = ([Some demo_toc] @ [Some [1, 2, 3, 4]] @ [Some [5, 6]] @ [Some [7]] @ [Some (le32 0xa00d), Some (le32 0xaf00)]) @-
      sconst (Some [])" using demo_herolte(1-3) [of "[]"] by simp_all
  have obl: "obliging ?w" by (auto simp: obliging_def demo_herolte_world_def)
  from herolte_boot_passes [OF l demo_herolte_loads w] obtain w' where
    b: "herolte_boot (\<lambda>_. 5) ?w = Some (Done 0, w')" by blast
  from herolte_boot_hands_image [OF _ b] obl show ?thesis
    unfolding b by (simp add: demo_herolte(5)) blast
qed

section \<open>Whether booting ends\<close>

text \<open>No read and no write ends with nothing transferred.\<close>

definition progress :: "world \<Rightarrow> bool" where
  "progress w \<longleftrightarrow> Some [] \<notin> sset (w_rd w) \<and> 0 \<notin> sset (w_wr w)"

text \<open>It returns a result; undefined behaviour is met only where there is a gap.\<close>

definition returns :: "bool \<Rightarrow> (world \<Rightarrow> ('a outcome \<times> world) option) \<Rightarrow> bool" where
  "returns gap m \<longleftrightarrow> (\<forall>w. progress w \<longrightarrow>
     (\<exists>r w'. m w = Some (r, w') \<and> progress w' \<and> r \<noteq> Fail \<and> (r = Undef \<longrightarrow> gap)))"

lemma returnsD: "returns gap m \<Longrightarrow> progress w \<Longrightarrow> \<exists>r w'. m w = Some (r, w') \<and> progress w' \<and> r \<noteq> Fail \<and> (r = Undef \<longrightarrow> gap)"
  unfolding returns_def by blast

lemma returns_then:
  assumes "returns gap m" "\<And>a. returns gap (f a)"
  shows "returns gap (then_run m f)"
  unfolding returns_def
proof (intro allI impI)
  fix w
  assume "progress w"
  from returnsD [OF assms(1) this] obtain r w1 where
    m: "m w = Some (r, w1)" "progress w1" "r \<noteq> Fail" "r = Undef \<longrightarrow> gap" by blast
  show "\<exists>r w'. then_run m f w = Some (r, w') \<and> progress w' \<and> r \<noteq> Fail \<and> (r = Undef \<longrightarrow> gap)"
  proof (cases r)
    case (Done a)
    with returnsD [OF assms(2) m(2), of a] m(1) show ?thesis by (simp add: then_run_def)
  qed (use m in \<open>simp_all add: then_run_def\<close>)
qed

lemma returns_Done: "returns gap (\<lambda>w. Some (Done (f w), w))"
  by (simp add: returns_def)

lemma returns_or_exit: "returns gap m \<Longrightarrow> returns gap k \<Longrightarrow> returns gap (or_exit m k)"
  unfolding or_exit_def by (intro returns_then) (auto simp: returns_def split: option.split)

lemma returns_steps: "returns gap (step (ioctl_plain fd rq) code)" "returns gap (step (ioctl_struct fd rq bs) code)"
  by (auto simp: returns_def step_def and_then_def try_rc_def ioctl_plain_eq ioctl_struct_eq progress_def)

lemma returns_data_read:
  assumes "progress w" "0 < k"
  shows "\<exists>r w'. data_read k buf w = Some (r, w') \<and> progress w' \<and> r \<noteq> Undef"
proof -
  have "\<exists>r w'. data_read_loop k m buf w = Some (r, w') \<and> progress w' \<and> r \<noteq> Undef" if "progress w" for m
    using that
  proof (induction "nat m" arbitrary: m buf w rule: less_induct)
    case less
    show ?case
    proof (cases "0 < m")
      case True
      show ?thesis
      proof (cases "shd (w_rd w)")
        case None
        then show ?thesis using True less.prems
          by (auto simp: data_read_loop.simps [of _ m] sys_read_def Let_def progress_def dest: stl_sset)
      next
        case (Some bs)
        then have "bs \<noteq> []" using less.prems by (metis progress_def shd_sset)
        then have n: "nat (m - int (length (take k bs))) < nat m" using assms(2) True by (cases bs) auto
        have "progress (after_read k bs w)" using less.prems by (auto simp: progress_def after_read_def dest: stl_sset)
        from less.hyps [OF n this] show ?thesis unfolding data_read_loop_step [OF True Some] .
      qed
    qed (use less.prems in \<open>simp add: data_read_loop_done\<close>)
  qed
  with assms(1) show ?thesis unfolding data_read_def by blast
qed

lemma returns_data_write:
  assumes "progress w" "bs \<noteq> []"
  shows "\<exists>r w'. data_write fd bs w = Some (r, w') \<and> progress w' \<and> r \<noteq> Undef"
proof -
  have "\<exists>r w'. data_write_loop fd bs m w = Some (r, w') \<and> progress w' \<and> r \<noteq> Undef" if "progress w" for m
    using that
  proof (induction "nat m" arbitrary: m w rule: less_induct)
    case less
    show ?case
    proof (cases "0 < m")
      case True
      let ?d = "shd (w_wr w)"
      have d: "?d \<noteq> 0" using less.prems by (metis progress_def shd_sset)
      obtain rc w1 where wr: "sys_write fd bs w = (Done rc, w1)" "if ?d < 0 then rc = -1 else rc = int (min (nat ?d) (length bs))"
        and w1: "w_rd w1 = w_rd w" "w_wr w1 = stl (w_wr w)" by (cases "?d < 0") (simp_all add: sys_write_def Let_def)
      have p: "progress w1" using less.prems w1 by (auto simp: progress_def dest: stl_sset)
      show ?thesis
      proof (cases "rc = -1")
        case True
        then show ?thesis using wr(1) p \<open>0 < m\<close> by (simp add: data_write_loop.simps [of _ _ m])
      next
        case False
        then have "0 < rc" using wr(2) d assms(2) by (cases bs) (auto split: if_splits)
        then have "nat (m - rc) < nat m" using True by simp
        from less.hyps [OF this p] show ?thesis unfolding data_write_loop_step [OF True wr(1) False] .
      qed
    qed (use less.prems in \<open>simp add: data_write_loop_done\<close>)
  qed
  with assms(1) show ?thesis unfolding data_write_def by blast
qed

lemma returns_handshake: "returns gap (handshake errno fd word expected)"
  unfolding returns_def
proof (intro allI impI)
  fix w
  assume w: "progress w"
  have "le32 word \<noteq> []" by (simp add: le32_def)
  from returns_data_write [OF w this] obtain r1 w1 where wr: "data_write fd (le32 word) w = Some (r1, w1)" "progress w1" "r1 \<noteq> Undef"
    by blast
  from returns_data_read [OF wr(2), of 4 "le32 word"] obtain r2 w2 where rd: "data_read 4 (le32 word) w1 = Some (r2, w2)" "progress w2" "r2 \<noteq> Undef"
    by auto
  show "\<exists>r w'. handshake errno fd word expected w = Some (r, w') \<and> progress w' \<and> r \<noteq> Fail \<and> (r = Undef \<longrightarrow> gap)"
    using wr rd by (cases r1; cases r2) (auto simp: handshake_def)
qed

lemma returns_upload_loop: "progress w \<Longrightarrow> \<exists>rc w'. upload_loop errno fd part remaining w = Some (Done rc, w') \<and> progress w'"
proof (induction remaining arbitrary: part w rule: less_induct)
  case (less remaining)
  show ?case
  proof (cases "0 < remaining")
    case True
    define len where "len = (if remaining < MAX_CHUNK_LEN then remaining else MAX_CHUNK_LEN)"
    have len: "0 < len" "remaining - len < remaining" using True by (auto simp: len_def MAX_CHUNK_LEN_def)
    from returns_data_read [OF less.prems len(1)] obtain r1 w1 where
      rd: "data_read len (fp_binary part) w = Some (r1, w1)" "progress w1" "r1 \<noteq> Undef" by blast
    note eq = upload_loop.simps [of errno fd part remaining w, folded len_def]
    show ?thesis
    proof (cases r1)
      case (Done buf)
      let ?p = "part\<lparr>fp_binary := buf, fp_len := len\<rparr>"
      obtain r2 w2 where io: "ioctl_struct fd IOCTL_DPRAM_SEND_BOOT (partition_bytes ?p) w1 = (r2, w2)" "progress w2" "r2 \<noteq> Undef"
        using rd(2) by (simp add: ioctl_struct_eq progress_def)
      show ?thesis
      proof (cases r2)
        case Done2: (Done u)
        have "upload_loop errno fd part remaining w = upload_loop errno fd
            (?p\<lparr>fp_m_offset := fp_m_offset ?p + of_nat len, fp_b_offset := fp_b_offset ?p + of_nat len\<rparr>) (remaining - len) w2"
          using eq True rd(1) Done io(1) Done2 by (simp flip: len_def)
        with less.IH [OF len(2) io(2)] show ?thesis by simp
      qed (use eq True rd(1) Done io in \<open>simp_all flip: len_def\<close>)
    qed (use eq True rd in \<open>simp_all flip: len_def\<close>)
  qed (use less.prems in \<open>simp add: upload_loop.simps [of _ _ _ _ w]\<close>)
qed

lemma returns_upload_chunk:
  assumes name: "name \<in> {''BOOT'', ''MAIN'', ''NV''}"
  shows "returns (lacks_entry toc) (upload_chunk errno fd firmware_fd toc name)" (is "returns ?gap _")
proof (cases "find_toc_entry (ascii ''BOOT'') toc = None \<or> find_toc_entry (ascii name) toc = None")
  case True
  with name have "?gap" by (auto simp: lacks_entry_def)
  with upload_chunk_missing [OF True, of errno fd firmware_fd] show ?thesis by (simp add: returns_def)
next
  case False
  have "returns ?gap (upload_loop errno fd part remaining)" for part remaining
    using returns_upload_loop unfolding returns_def by fastforce
  then have k: "returns ?gap (then_run (upload_loop errno fd part remaining) (\<lambda>rc w. Some (Done (rc, s), w)))"
    for part remaining and s :: u32
    by (intro returns_then returns_Done)
  have "returns ?gap (and_then (image_lseek firmware_fd off) (\<lambda>found. if \<not> found then (\<lambda>w. Some (Done (- errno w, s), w))
      else then_run (upload_loop errno fd part remaining) (\<lambda>rc w. Some (Done (rc, s), w))))" for off part remaining and s :: u32
    unfolding returns_def
  proof (intro allI impI)
    fix w
    assume "progress w"
    then have p: "progress (w\<lparr>w_ioc := stl (w_ioc w)\<rparr>)"
      "progress (w\<lparr>w_ioc := stl (w_ioc w), w_trace := w_trace w @ [EvSeek firmware_fd (nat (sint off))]\<rparr>)"
      by (simp_all add: progress_def)
    from p(1) returnsD [OF k p(2)] show "\<exists>r w'. and_then (image_lseek firmware_fd off) (\<lambda>found. if \<not> found
        then (\<lambda>w. Some (Done (- errno w, s), w)) else then_run (upload_loop errno fd part remaining)
          (\<lambda>rc w. Some (Done (rc, s), w))) w = Some (r, w') \<and> progress w' \<and> r \<noteq> Fail \<and> (r = Undef \<longrightarrow> ?gap)"
      by (auto simp: and_then_def image_lseek_def Let_def)
  qed
  with False show ?thesis
    by (auto simp: upload_chunk_def Let_def cong: if_cong)
qed

lemma returns_herolte_steps: "0 \<le> fd \<Longrightarrow> returns (lacks_entry toc) (herolte_steps errno fd ifd nvfd toc)"
  unfolding herolte_steps_def select_secure_mode_def
  by (auto simp: power_plain intro!: returns_or_exit returns_steps returns_then returns_upload_chunk returns_handshake returns_Done)

lemma open_progress: "progress w \<Longrightarrow> \<exists>fd w'. sys_open path w = (Done fd, w') \<and> progress w'"
  by (cases "shd (w_open w) < 0") (simp_all add: sys_open_def Let_def progress_def)

text \<open>The table of contents that one read delivers.\<close>

lemma read_toc:
  assumes "shd (w_rd w) = Some t" "length t = 512"
  shows "data_read 512 (calloc 512) w = Some (Done t, after_read 512 t w)"
  using data_read_once [of 512 w t "calloc 512"] assms by simp

lemma herolte_load_returns:
  assumes w: "progress w"
  shows "\<exists>r w'. herolte_load errno ifd w = Some (r, w') \<and> r \<noteq> Fail \<and>
    (\<forall>t. shd (w_rd w) = Some t \<and> length t = 512 \<and> r = Undef \<longrightarrow> lacks_entry (toc_of t))"
proof -
  from returns_data_read [OF w, of 512 "calloc 512"] obtain r1 w1 where
    rd: "data_read 512 (calloc 512) w = Some (r1, w1)" "progress w1" "r1 \<noteq> Undef" by auto
  show ?thesis
  proof (cases r1)
    case (Done toc)
    have toc: "t = toc" if "shd (w_rd w) = Some t" "length t = 512" for t
      using read_toc [OF that] rd(1) Done by simp
    obtain nvfd w2 where o2: "sys_open ''/efs/nv_data.bin'' w1 = (Done nvfd, w2)" "progress w2"
      using open_progress [OF rd(2)] by blast
    obtain fd w3 where o3: "sys_open ''/dev/umts_boot0'' w2 = (Done fd, w3)" "progress w3"
      using open_progress [OF o2(2)] by blast
    show ?thesis
    proof (cases "nvfd = -1 \<or> fd < 0")
      case True
      with rd(1) Done o2 o3 show ?thesis by (cases "nvfd = -1") (simp_all add: herolte_load_def and_then_def)
    next
      case False
      have "returns (lacks_entry (toc_of toc)) (then_run (herolte_steps errno fd ifd nvfd (toc_of toc)) (\<lambda>rc w. Some (Done (rc, nvfd, fd), w)))"
        using False by (intro returns_then returns_herolte_steps returns_Done) simp
      from returnsD [OF this o3(2)] obtain r w' where
        "then_run (herolte_steps errno fd ifd nvfd (toc_of toc)) (\<lambda>rc w. Some (Done (rc, nvfd, fd), w)) w3 = Some (r, w')"
        "r \<noteq> Fail" "r = Undef \<longrightarrow> lacks_entry (toc_of toc)" by blast
      moreover from this(1) have "herolte_load errno ifd w = Some (r, w')"
        using False rd(1) Done o2(1) o3(1) by (simp add: herolte_load_def and_then_def)
      ultimately show ?thesis using toc by blast
    qed
  qed (use rd in \<open>simp_all add: herolte_load_def\<close>)
qed

text \<open>A table without the boot code: the first upload looks at a pointer that was never set.\<close>

lemma herolte_load_undefined:
  assumes o: "0 \<le> shd (w_open w)" "0 \<le> shd (stl (w_open w))" and io: "0 \<le> shd (w_ioc w)" "0 \<le> shd (stl (w_ioc w))"
    and t: "shd (w_rd w) = Some t" "length t = 512" "find_toc_entry (ascii ''BOOT'') (toc_of t) = None"
  shows "\<exists>w'. herolte_load errno ifd w = Some (Undef, w')"
proof -
  let ?w1 = "after_read 512 t w"
  let ?w2 = "?w1\<lparr>w_open := stl (w_open w), w_trace := w_trace ?w1 @ [EvOpen ''/efs/nv_data.bin'' (shd (w_open w))]\<rparr>"
  let ?w3 = "?w2\<lparr>w_open := stl (stl (w_open w)), w_trace := w_trace ?w2 @ [EvOpen ''/dev/umts_boot0'' (shd (stl (w_open w)))]\<rparr>"
  have o2: "sys_open ''/efs/nv_data.bin'' ?w1 = (Done (shd (w_open w)), ?w2)"
    and o3: "sys_open ''/dev/umts_boot0'' ?w2 = (Done (shd (stl (w_open w))), ?w3)"
    using o by (simp_all add: sys_open_def Let_def after_read_def)
  have io3: "w_ioc ?w3 = w_ioc w" by (simp add: after_read_def)
  have "\<exists>w'. herolte_steps errno fd ifd nvfd (toc_of t) v = Some (Undef, w')"
    if "w_ioc v = w_ioc w" for fd nvfd v
    using that io t(3) by (simp add: herolte_steps_def or_exit_def then_run_def step_def and_then_def try_rc_def
        ioctl_plain_eq select_secure_mode_def ioctl_struct_eq upload_chunk_missing)
  from this [OF io3, of "shd (stl (w_open w))" "shd (w_open w)"] obtain w' where
    "herolte_steps errno (shd (stl (w_open w))) ifd (shd (w_open w)) (toc_of t) ?w3 = Some (Undef, w')" by blast
  then have "herolte_load errno ifd w = Some (Undef, w')"
    using o by (simp add: herolte_load_def read_toc [OF t(1,2)] and_then_def o2 o3 then_run_def)
  then show ?thesis ..
qed

text \<open>
  C35: booting the Galaxy S7 returns a result when no read and no write ends with nothing transferred,
  however the calls fail; when one read delivers the table of contents, the behaviour is undefined only if
  the table lacks one of the parts. A table without the boot code, on a kernel that opens the devices and
  grants the first two requests, does lead there: the upload leaves before the pointer to its buffer is set,
  and looks at it on the way out. When the image is opened and ends at its start, the function never returns.
\<close>

theorem herolte_boot_returns:
  "(Some [] \<notin> sset (w_rd w) \<and> 0 \<notin> sset (w_wr w) \<longrightarrow>
     (\<exists>r w'. herolte_boot errno w = Some (r, w') \<and> r \<noteq> Fail \<and>
       (\<forall>t. shd (w_rd w) = Some t \<and> length t = 512 \<and> r = Undef \<longrightarrow> lacks_entry (toc_of t)))) \<and>
   (0 \<le> shd (w_open w) \<and> 0 \<le> shd (stl (w_open w)) \<and> 0 \<le> shd (stl (stl (w_open w))) \<and>
     0 \<le> shd (w_ioc w) \<and> 0 \<le> shd (stl (w_ioc w)) \<and> shd (w_rd w) = Some t \<and> length t = 512 \<and>
     find_toc_entry (ascii ''BOOT'') (toc_of t) = None \<longrightarrow> (\<exists>w'. herolte_boot errno w = Some (Undef, w'))) \<and>
   (0 \<le> shd (w_open w) \<and> w_rd w = sconst (Some []) \<longrightarrow> herolte_boot errno w = None)"
proof -
  obtain ifd err w1 where o: "open_android_modem_partition modem_image_devices w = (Done (ifd, err), w1)"
    "w_rd w1 = w_rd w" "w_wr w1 = w_wr w" "w_ioc w1 = w_ioc w"
    using open_partition_shape by metis
  have found: "ifd \<noteq> -1 \<and> w_open w1 = stl (w_open w)" if "0 \<le> shd (w_open w)"
    using that o(1) by (auto simp: modem_image_devices_def sys_open_errno_def bnd_def sys_open_def Let_def ret_eq)
  let ?rest = "\<lambda>(rc, nvfd, boot0_fd). and_then (close_valid boot0_fd) (\<lambda>_. and_then (close_valid ifd) (\<lambda>_.
    and_then (close_valid nvfd) (\<lambda>_ w. Some (Done rc, w))))"
  have eq: "herolte_boot errno w = (if ifd = -1 then Some (Done err, w1) else then_run (herolte_load errno ifd) ?rest w1)"
    using o(1) by (simp add: herolte_boot_def and_then_def [of "open_android_modem_partition _"])
  have rest: "\<exists>rc w'. ?rest a w2 = Some (Done rc, w')" for a w2
    by (cases a) (simp add: and_then_def close_valid_shape)
  show ?thesis
  proof (intro conjI impI)
    assume "Some [] \<notin> sset (w_rd w) \<and> 0 \<notin> sset (w_wr w)"
    then have "progress w1" using o(2,3) by (simp add: progress_def)
    from herolte_load_returns [OF this, of errno ifd] obtain r w2 where
      l: "herolte_load errno ifd w1 = Some (r, w2)" "r \<noteq> Fail"
        "\<forall>t. shd (w_rd w) = Some t \<and> length t = 512 \<and> r = Undef \<longrightarrow> lacks_entry (toc_of t)" unfolding o(2) by blast
    show "\<exists>r w'. herolte_boot errno w = Some (r, w') \<and> r \<noteq> Fail \<and>
       (\<forall>t. shd (w_rd w) = Some t \<and> length t = 512 \<and> r = Undef \<longrightarrow> lacks_entry (toc_of t))"
    proof (cases r)
      case (Done a)
      from rest [of a w2] obtain rc w' where "?rest a w2 = Some (Done rc, w')" by blast
      with l(1) Done eq show ?thesis by (cases "ifd = -1") (simp_all add: then_run_def)
    next
      case Undef
      with l eq show ?thesis by (cases "ifd = -1") (simp_all add: then_run_def)
    qed (use l(2) in simp)
  next
    assume a: "0 \<le> shd (w_open w) \<and> 0 \<le> shd (stl (w_open w)) \<and> 0 \<le> shd (stl (stl (w_open w))) \<and>
     0 \<le> shd (w_ioc w) \<and> 0 \<le> shd (stl (w_ioc w)) \<and> shd (w_rd w) = Some t \<and> length t = 512 \<and>
     find_toc_entry (ascii ''BOOT'') (toc_of t) = None"
    with found have f: "ifd \<noteq> -1" "w_open w1 = stl (w_open w)" by simp_all
    have "\<exists>w'. herolte_load errno ifd w1 = Some (Undef, w')"
      by (rule herolte_load_undefined [of _ t]) (use a f(2) o(2,4) in simp_all)
    with eq f(1) show "\<exists>w'. herolte_boot errno w = Some (Undef, w')" by (auto simp: then_run_def)
  next
    assume eof: "0 \<le> shd (w_open w) \<and> w_rd w = sconst (Some [])"
    moreover have "data_read 512 (calloc 512) w1 = None"
      using eof o(2) by (simp add: data_read_def data_read_loop_eof)
    ultimately show "herolte_boot errno w = None" using eq found by (simp add: then_run_def herolte_load_def)
  qed
qed

lemma empty_toc: "find_toc_entry name (toc_of (calloc 512)) = None"
proof -
  have "[0..<N_TOC_ENTRIES] = 0 # [1..<16]" by (simp add: N_TOC_ENTRIES_def sizeof_firmware_toc_entry_def upt_rec)
  then show ?thesis by (simp add: find_toc_entry_def toc_of_def firmware_toc_entry_of_def calloc_def N_TOC_ENTRIES_def
        sizeof_firmware_toc_entry_def)
qed

lemma demo_toc_complete: "\<not> lacks_entry (toc_of demo_toc)"
  by (simp add: lacks_entry_def demo_toc_found)

theorem herolte_boot_returns_witness:
  "(\<exists>rc w'. herolte_boot (\<lambda>_. 5) (demo_herolte_world [Some demo_toc]) = Some (Done rc, w')) \<and>
   (\<exists>w'. herolte_boot (\<lambda>_. 5) (demo_herolte_world [Some (calloc 512)]) = Some (Undef, w')) \<and>
   herolte_boot (\<lambda>_. 5) (demo_herolte_world []\<lparr>w_rd := sconst (Some [])\<rparr>) = None"
proof -
  have l: "length demo_toc = 512" "demo_toc \<noteq> []" using demo_toc_of by auto
  from herolte_boot_returns [of "demo_herolte_world [Some demo_toc]" "\<lambda>_. 5" demo_toc] l obtain r w' where
    r: "herolte_boot (\<lambda>_. 5) (demo_herolte_world [Some demo_toc]) = Some (r, w')" "r \<noteq> Fail" "r \<noteq> Undef"
    by (auto simp: demo_herolte_world_def demo_toc_complete)
  then have "\<exists>rc w'. herolte_boot (\<lambda>_. 5) (demo_herolte_world [Some demo_toc]) = Some (Done rc, w')" by (cases r) auto
  then show ?thesis
    using herolte_boot_returns [of "demo_herolte_world [Some (calloc 512)]" "\<lambda>_. 5" "calloc 512"]
      herolte_boot_returns [of "demo_herolte_world []\<lparr>w_rd := sconst (Some [])\<rparr>" "\<lambda>_. 5"]
    by (auto simp: demo_herolte_world_def empty_toc)
qed

text \<open>Without an image the code is \<open>ENOENT\<close>, which the caller of the operation takes for success.\<close>

lemma herolte_missing_image_succeeds:
  assumes "shd (w_open w) = - ENOENT" "shd (stl (w_open w)) = - ENOENT"
  shows "\<exists>w'. herolte_boot errno w = Some (Done ENOENT, w') \<and> w_trace w' = w_trace w \<and>
    (case op_boot (herolte_fmt_ops errno) of Some boot \<Rightarrow> boot c w = (Done (), w'))"
proof -
  have "herolte_boot errno w = Some (Done ENOENT, w\<lparr>w_open := stl (stl (w_open w))\<rparr>)"
    using assms by (simp add: herolte_boot_def modem_image_devices_def and_then_def sys_open_errno_def bnd_def sys_open_def
        ret_eq ENOENT_def)
  then show ?thesis by (simp add: herolte_fmt_ops_def returning_def bnd_def check_eq ENOENT_def)
qed

end
