(* ===== verification/IpcModem.thy ===== *)
theory IpcModem
  imports Modem Sec Call "HOL-Library.Sublist"
begin

text \<open>
  tools/ipc-modem.c and tools/ipc-test.c: the tool that boots the modem, brings it to a ready SIM
  and places a call, and the tool that receives five messages.

  The global variables of ipc-modem.c are the record \<open>tool\<close>; the return codes of
  \<open>ipc_client_send\<close> are ignored by every caller. What is printed is left out. A loop that never
  ends is the value \<open>None\<close>.
\<close>

section \<open>Constants\<close>

definition TOOL_STATE_LPM :: int where "TOOL_STATE_LPM = 0"
definition TOOL_STATE_NORMAL :: int where "TOOL_STATE_NORMAL = 2"
definition TOOL_STATE_SIM_OK :: int where "TOOL_STATE_SIM_OK = 4"

definition IPC_TYPE_EXEC :: u8 where "IPC_TYPE_EXEC = 0x01"
definition IPC_TYPE_SET :: u8 where "IPC_TYPE_SET = 0x03"

definition IPC_GROUP_CALL :: u8 where "IPC_GROUP_CALL = 0x02"
definition IPC_GROUP_SMS :: u8 where "IPC_GROUP_SMS = 0x04"
definition IPC_GROUP_DISP :: u8 where "IPC_GROUP_DISP = 0x07"
definition IPC_GROUP_NET :: u8 where "IPC_GROUP_NET = 0x08"

definition IPC_CALL_OUTGOING :: u16 where "IPC_CALL_OUTGOING = 0x0201"
definition IPC_CALL_INCOMING :: u16 where "IPC_CALL_INCOMING = 0x0202"
definition IPC_CALL_ANSWER :: u16 where "IPC_CALL_ANSWER = 0x0204"
definition IPC_CALL_STATUS :: u16 where "IPC_CALL_STATUS = 0x0205"
definition IPC_CALL_LIST :: u16 where "IPC_CALL_LIST = 0x0206"
definition IPC_SMS_DEVICE_READY :: u16 where "IPC_SMS_DEVICE_READY = 0x0407"
definition IPC_NET_SERVING_NETWORK :: u16 where "IPC_NET_SERVING_NETWORK = 0x0803"
definition IPC_NET_REGIST :: u16 where "IPC_NET_REGIST = 0x0805"
definition IPC_SND_SPKR_VOLUME_CTRL :: u16 where "IPC_SND_SPKR_VOLUME_CTRL = 0x0901"
definition IPC_SND_MIC_MUTE_CTRL :: u16 where "IPC_SND_MIC_MUTE_CTRL = 0x0902"
definition IPC_SND_AUDIO_PATH_CTRL :: u16 where "IPC_SND_AUDIO_PATH_CTRL = 0x0903"
definition IPC_SND_CLOCK_CTRL :: u16 where "IPC_SND_CLOCK_CTRL = 0x0909"

definition IPC_CALL_TYPE_VOICE :: u8 where "IPC_CALL_TYPE_VOICE = 0x01"
definition IPC_CALL_IDENTITY_DEFAULT :: u8 where "IPC_CALL_IDENTITY_DEFAULT = 0x00"
definition IPC_CALL_PREFIX_NONE :: u8 where "IPC_CALL_PREFIX_NONE = 0x00"
definition IPC_CALL_STATUS_DIALING :: u8 where "IPC_CALL_STATUS_DIALING = 0x01"
definition IPC_CALL_STATUS_CONNECTED :: u8 where "IPC_CALL_STATUS_CONNECTED = 0x03"
definition IPC_CALL_STATUS_RELEASED :: u8 where "IPC_CALL_STATUS_RELEASED = 0x04"
definition IPC_SEC_PIN_TYPE_PIN1 :: u8 where "IPC_SEC_PIN_TYPE_PIN1 = 0x03"
definition IPC_SEC_FACILITY_LOCK_TYPE_SC_PIN1_REQ :: u8 where
  "IPC_SEC_FACILITY_LOCK_TYPE_SC_PIN1_REQ = 0x01"

lemmas tool_states = TOOL_STATE_LPM_def TOOL_STATE_NORMAL_def TOOL_STATE_SIM_OK_def

lemmas tool_groups = modem_groups IPC_GROUP_CALL_def IPC_GROUP_SMS_def IPC_GROUP_DISP_def IPC_GROUP_NET_def

lemmas tool_commands = modem_commands IPC_CALL_OUTGOING_def IPC_CALL_INCOMING_def IPC_CALL_ANSWER_def
  IPC_CALL_STATUS_def IPC_CALL_LIST_def IPC_SMS_DEVICE_READY_def IPC_NET_SERVING_NETWORK_def
  IPC_NET_REGIST_def IPC_SND_SPKR_VOLUME_CTRL_def IPC_SND_MIC_MUTE_CTRL_def
  IPC_SND_AUDIO_PATH_CTRL_def IPC_SND_CLOCK_CTRL_def

section \<open>State\<close>

text \<open>The arrays \<open>call_number[14]\<close> and \<open>sim_pin[8]\<close> are kept as the strings they hold.\<close>

record tool =
  tm_state :: int
  tm_seq :: int
  tm_in_call :: int
  tm_out_call :: int
  tm_call_done :: int
  tm_call_number :: "u8 list"
  tm_sim_pin :: "u8 list"

definition tool0 :: tool where
  "tool0 = \<lparr>tm_state = TOOL_STATE_LPM, tm_seq = 0, tm_in_call = 0, tm_out_call = 0,
     tm_call_done = 0, tm_call_number = [], tm_sim_pin = []\<rparr>"

section \<open>Messages the tool sends\<close>

definition send_next ::
  "ipc_client option \<Rightarrow> u16 \<Rightarrow> u8 \<Rightarrow> u8 list option \<Rightarrow> u32 \<Rightarrow> tool \<Rightarrow> tool io" where
  "send_next client command type data sz t =
     bnd (try_rc (ipc_client_send client (of_int (seq_get (tm_seq t))) command type data sz)) (\<lambda>_.
     ret (t\<lparr>tm_seq := seq_get (tm_seq t)\<rparr>))"

definition modem_snd_no_mic_mute :: "ipc_client option \<Rightarrow> tool \<Rightarrow> tool io" where
  "modem_snd_no_mic_mute client = send_next client IPC_SND_MIC_MUTE_CTRL IPC_TYPE_SET (Some [0]) 1"

definition modem_snd_clock_ctrl :: "ipc_client option \<Rightarrow> tool \<Rightarrow> tool io" where
  "modem_snd_clock_ctrl client = send_next client IPC_SND_CLOCK_CTRL IPC_TYPE_EXEC (Some [1]) 1"

definition modem_snd_spkr_volume_ctrl :: "ipc_client option \<Rightarrow> tool \<Rightarrow> tool io" where
  "modem_snd_spkr_volume_ctrl client =
     send_next client IPC_SND_SPKR_VOLUME_CTRL IPC_TYPE_SET (Some (le16 0x0411)) 2"

definition modem_snd_audio_path_ctrl :: "ipc_client option \<Rightarrow> tool \<Rightarrow> tool io" where
  "modem_snd_audio_path_ctrl client = send_next client IPC_SND_AUDIO_PATH_CTRL IPC_TYPE_SET (Some [1]) 1"

definition call_outgoing_bytes :: "ipc_call_outgoing_data \<Rightarrow> u8 list" where
  "call_outgoing_bytes d = [co_unknown d, co_type d, co_identity d, co_number_length d, co_prefix d] @ co_number d"

text \<open>The length is stored in a byte, and that many bytes of the number are copied to the array.\<close>

definition call_out_data :: "u8 list \<Rightarrow> ipc_call_outgoing_data outcome" where
  "call_out_data num =
     (let number_length = (of_nat (strlen num) :: u8)
      in obind (poke 0 (take (unat number_length) (cstr num)) (calloc 86)) (\<lambda>number.
         Done \<lparr>co_unknown = 0, co_type = IPC_CALL_TYPE_VOICE, co_identity = IPC_CALL_IDENTITY_DEFAULT,
           co_number_length = number_length, co_prefix = IPC_CALL_PREFIX_NONE, co_number = number\<rparr>))"

definition modem_exec_call_out :: "ipc_client option \<Rightarrow> u8 list \<Rightarrow> tool \<Rightarrow> tool io" where
  "modem_exec_call_out client num t =
     bnd (modem_snd_no_mic_mute client t) (\<lambda>t.
     bnd (lift_outcome (call_out_data num)) (\<lambda>call_out.
     bnd (send_next client IPC_CALL_OUTGOING IPC_TYPE_EXEC (Some (call_outgoing_bytes call_out)) 91 t) (\<lambda>t.
     bnd (modem_snd_no_mic_mute client (t\<lparr>tm_out_call := 1\<rparr>)) (\<lambda>t.
     bnd (modem_snd_spkr_volume_ctrl client t)
       (modem_snd_audio_path_ctrl client)))))"

definition modem_exec_call_answer :: "ipc_client option \<Rightarrow> tool \<Rightarrow> tool io" where
  "modem_exec_call_answer client t =
     bnd (modem_snd_clock_ctrl client t) (\<lambda>t.
     bnd (send_next client IPC_CALL_ANSWER IPC_TYPE_EXEC None 0 t)
       (modem_snd_no_mic_mute client))"

definition modem_get_call_list :: "ipc_client option \<Rightarrow> tool \<Rightarrow> tool io" where
  "modem_get_call_list client t =
     bnd (send_next client IPC_CALL_LIST IPC_TYPE_GET None 0 t)
       (modem_snd_no_mic_mute client)"

definition modem_exec_power_normal :: "ipc_client option \<Rightarrow> tool \<Rightarrow> tool io" where
  "modem_exec_power_normal client =
     send_next client IPC_PWR_PHONE_STATE IPC_TYPE_EXEC (Some (le16 0x0202)) 2"

definition modem_set_sms_device_ready :: "ipc_client option \<Rightarrow> tool \<Rightarrow> tool io" where
  "modem_set_sms_device_ready client = send_next client IPC_SMS_DEVICE_READY IPC_TYPE_SET None 0"

definition pin_status_bytes :: "ipc_sec_pin_status_request_data \<Rightarrow> u8 list" where
  "pin_status_bytes d = [pin_type d, pin1_length d, pin2_length d] @ pin1 d @ pin2 d"

text \<open>The structure on the stack that is filled in, uninitialised before.\<close>

definition pin_status0 :: ipc_sec_pin_status_request_data where
  "pin_status0 = \<lparr>pin_type = 0, pin1_length = 0, pin2_length = 0, pin1 = calloc 8, pin2 = calloc 8\<rparr>"

definition modem_set_sec_pin_status ::
  "ipc_client option \<Rightarrow> u8 list option \<Rightarrow> u8 list option \<Rightarrow> tool \<Rightarrow> tool io" where
  "modem_set_sec_pin_status client p1 p2 t =
     bnd (lift_outcome (ipc_sec_pin_status_setup (Some pin_status0) IPC_SEC_PIN_TYPE_PIN1 p1 p2)) (\<lambda>d.
     send_next client IPC_SEC_PIN_STATUS IPC_TYPE_SET (Some (pin_status_bytes d)) 19 t)"

section \<open>Messages the tool handles\<close>

definition tool_response_sec :: "ipc_client option \<Rightarrow> ipc_message \<Rightarrow> tool \<Rightarrow> tool io" where
  "tool_response_sec client resp t =
     (if msg_command resp = IPC_SEC_PIN_STATUS then
        bnd (lift_outcome (payload_bytes 0 1 resp)) (\<lambda>status.
        if hd status = IPC_SEC_PIN_STATUS_CARD_NOT_PRESENT then ret t
        else if hd status = IPC_SEC_PIN_STATUS_LOCK_SC then
          bnd (lift_outcome (payload_bytes 1 1 resp)) (\<lambda>facility_lock.
          if hd facility_lock = IPC_SEC_FACILITY_LOCK_TYPE_SC_PIN1_REQ \<and> strlen (tm_sim_pin t) > 0
          then modem_set_sec_pin_status client (Some (tm_sim_pin t)) None t
          else ret t)
        else if hd status = IPC_SEC_PIN_STATUS_INIT_COMPLETE then
          ret (if tm_state t = TOOL_STATE_NORMAL then t\<lparr>tm_state := TOOL_STATE_SIM_OK\<rparr> else t)
        else ret t)
      else if msg_command resp = IPC_SEC_SIM_ICC_TYPE then
        bnd (lift_outcome (payload_bytes 0 1 resp)) (\<lambda>type. ret t)
      else ret t)"

definition tool_response_sms :: "ipc_client option \<Rightarrow> ipc_message \<Rightarrow> tool \<Rightarrow> tool io" where
  "tool_response_sms client resp t =
     (if msg_command resp = IPC_SMS_DEVICE_READY then
        if tm_state t = TOOL_STATE_LPM then modem_exec_power_normal client t
        else if tm_state t = TOOL_STATE_SIM_OK then modem_set_sms_device_ready client t
        else ret t
      else ret t)"

text \<open>The status is the fourth byte of its structure.\<close>

definition tool_response_call :: "ipc_client option \<Rightarrow> ipc_message \<Rightarrow> tool \<Rightarrow> tool io" where
  "tool_response_call client resp t =
     (if msg_command resp = IPC_CALL_LIST then ret t
      else if msg_command resp = IPC_CALL_INCOMING then
        modem_get_call_list client (t\<lparr>tm_in_call := 1\<rparr>)
      else if msg_command resp = IPC_CALL_STATUS then
        bnd (lift_outcome (payload_bytes 3 1 resp)) (\<lambda>status.
        bnd (if hd status = IPC_CALL_STATUS_DIALING then
               bnd (modem_snd_clock_ctrl client t) (\<lambda>t.
               bnd (modem_snd_spkr_volume_ctrl client t) (\<lambda>t.
               bnd (modem_snd_audio_path_ctrl client t)
                 (modem_get_call_list client)))
             else ret t) (\<lambda>t.
        bnd (if hd status = IPC_CALL_STATUS_CONNECTED then modem_snd_no_mic_mute client t else ret t) (\<lambda>t.
        if hd status = IPC_CALL_STATUS_RELEASED then modem_snd_no_mic_mute client t else ret t)))
      else ret t)"

definition tool_response_pwr :: "ipc_message \<Rightarrow> tool \<Rightarrow> tool io" where
  "tool_response_pwr resp t =
     (if msg_command resp = IPC_PWR_PHONE_PWR_UP then ret (t\<lparr>tm_state := TOOL_STATE_LPM\<rparr>)
      else if msg_command resp = IPC_PWR_PHONE_STATE then
        bnd (lift_outcome (payload_bytes 0 4 resp)) (\<lambda>state_n. ret (t\<lparr>tm_state := sint (get32 state_n)\<rparr>))
      else ret t)"

text \<open>The status of the registration is the third byte of its structure and is only printed, like the PLMN.\<close>

definition tool_response_net :: "ipc_client option \<Rightarrow> ipc_message \<Rightarrow> tool \<Rightarrow> tool io" where
  "tool_response_net client resp t =
     (if msg_command resp = IPC_NET_REGIST then
        bnd (lift_outcome (payload_bytes 2 1 resp)) (\<lambda>status. ret t)
      else if msg_command resp = IPC_NET_SERVING_NETWORK then
        bnd (lift_outcome (payload_bytes 3 5 resp)) (\<lambda>mnc.
        bnd (if tm_call_done t = 0 then modem_exec_call_out client (tm_call_number t) t else ret t) (\<lambda>t.
        ret (t\<lparr>tm_call_done := 1\<rparr>)))
      else ret t)"

definition tool_response_handle :: "ipc_client option \<Rightarrow> ipc_message \<Rightarrow> tool \<Rightarrow> tool io" where
  "tool_response_handle client resp t =
     (let grp = IPC_GROUP (msg_command resp) in
      if grp = IPC_GROUP_NET then tool_response_net client resp t
      else if grp = IPC_GROUP_PWR then tool_response_pwr resp t
      else if grp = IPC_GROUP_SEC then tool_response_sec client resp t
      else if grp = IPC_GROUP_SMS then tool_response_sms client resp t
      else if grp = IPC_GROUP_CALL then tool_response_call client resp t
      else if grp = IPC_GROUP_DISP \<and> tm_in_call t \<noteq> 0 then modem_snd_no_mic_mute client t
      else ret t)"

text \<open>
  The structure \<open>resp\<close> is cleared once; in later rounds it is what the round before left, with a
  payload that was freed, and receiving clears it again.
\<close>

partial_function (option) tool_read_loop ::
  "ipc_client option \<Rightarrow> ipc_message \<Rightarrow> tool \<Rightarrow> world \<Rightarrow> (tool outcome \<times> world) option" where
  "tool_read_loop client resp t w =
     (case ipc_client_poll client None w of
        (Undef, w1) \<Rightarrow> Some (Undef, w1)
      | (Fail, w1) \<Rightarrow> tool_read_loop client resp t w1
      | (Done (rc, fds), w1) \<Rightarrow>
          if rc < 0 then tool_read_loop client resp t w1
          else
            (case ipc_client_recv client (Some resp) w1 of
               (Undef, w2) \<Rightarrow> Some (Undef, w2)
             | (Fail, w2) \<Rightarrow> Some (Done t, w2)
             | (Done resp', w2) \<Rightarrow>
                 (case tool_response_handle client resp' t w2 of
                    (Done t', w3) \<Rightarrow> tool_read_loop client (resp'\<lparr>msg_data := None\<rparr>) t' w3
                  | r \<Rightarrow> Some r)))"

section \<open>Starting and stopping\<close>

text \<open>The code of creating the data is ignored. The client the caller goes on with is returned as well.\<close>

definition tool_modem_start :: "ipc_client option \<Rightarrow> (int \<times> ipc_client option) io" where
  "tool_modem_start client w =
     (case ipc_client_data_create client w of
        (Undef, w1) \<Rightarrow> (Undef, w1)
      | (r, w1) \<Rightarrow>
          (let client = (case r of Done c \<Rightarrow> Some c | _ \<Rightarrow> client) in
           bnd (try_rc (bnd (ipc_client_boot client) (\<lambda>_.
                        bnd (ipc_client_open client) (\<lambda>_.
                        ipc_client_power_on client)))) (\<lambda>rc.
           ret (rc, client)) w1))"

definition tool_modem_stop :: "ipc_client option \<Rightarrow> unit io" where
  "tool_modem_stop client =
     bnd (try_rc (ipc_client_power_off client)) (\<lambda>_.
     bnd (try_rc (ipc_client_close client)) (\<lambda>_. ret ()))"

section \<open>The log\<close>

text \<open>
  Both tools print a line of the log without the newlines at its end, but never drop its first
  character: \<open>i\<close> is the index the loop looks at. ipc-modem leaves out lines of at most one character.
\<close>

fun trim_loop :: "nat \<Rightarrow> u8 list \<Rightarrow> u8 list" where
  "trim_loop 0 buffer = buffer"
| "trim_loop (Suc i) buffer =
     (if buffer ! Suc i = 10 then trim_loop i (buffer[Suc i := 0])
      else if buffer ! Suc i \<noteq> 0 then buffer
      else trim_loop i buffer)"

definition modem_log_handler :: "u8 list \<Rightarrow> u8 list option" where
  "modem_log_handler msg =
     (if strlen msg > 1 then Some (cstr (trim_loop (strlen msg) (cstr msg @ [0]))) else None)"

definition test_log_callback :: "u8 list option \<Rightarrow> u8 list option" where
  "test_log_callback message =
     (case message of None \<Rightarrow> None
      | Some m \<Rightarrow> Some (cstr (trim_loop (strlen m) (cstr m @ [0]))))"

lemma trim_loop_zeros:
  "0 \<notin> set (c # s) \<Longrightarrow> cstr (trim_loop (length s) (c # s @ calloc n)) = c # rev (dropWhile (\<lambda>x. x = 10) (rev s))"
proof (induction s arbitrary: n rule: rev_induct)
  case Nil
  then show ?case using cstr_append_zero [of "[c]" n] by (simp add: cstr_id)
next
  case (snoc x s)
  show ?case
  proof (cases "x = 10")
    case True
    have "(c # (s @ [x]) @ calloc n)[Suc (length s) := 0] = c # s @ calloc (Suc n)"
      by (simp add: calloc_def list_update_append)
    with True snoc.IH [of "Suc n"] snoc.prems show ?thesis by (simp add: nth_append)
  next
    case False
    then show ?thesis
      using snoc.prems cstr_append_zero [of "c # s @ [x]" n] by (simp add: nth_append cstr_id)
  qed
qed

lemma log_handler_trims:
  assumes "0 \<notin> set (c # s)"
  shows "test_log_callback (Some (c # s)) = Some (c # rev (dropWhile (\<lambda>x. x = 10) (rev s)))"
    and "modem_log_handler (c # s) = (if s = [] then None else test_log_callback (Some (c # s)))"
proof -
  have z: "cstr (c # s) = c # s" "strlen (c # s) = Suc (length s)" using assms by (simp_all add: cstr_id strlen_id)
  have "trim_loop (Suc (length s)) ((c # s) @ [0]) = trim_loop (length s) (c # s @ calloc 1)"
    by (simp add: nth_append calloc_def)
  with trim_loop_zeros [OF assms, of 1] show "test_log_callback (Some (c # s)) = Some (c # rev (dropWhile (\<lambda>x. x = 10) (rev s)))"
    by (simp only: test_log_callback_def z option.case)
  show "modem_log_handler (c # s) = (if s = [] then None else test_log_callback (Some (c # s)))"
    using z by (simp add: modem_log_handler_def test_log_callback_def)
qed

section \<open>The command line\<close>

text \<open>
  \<open>getopt_long\<close> with no short options and four long ones, which may be shortened: it delivers the
  options and moves all other arguments behind them; what follows \<open>--\<close> is no option.
\<close>

datatype tool_option = Tool_help | Tool_debug | Tool_pin string | Tool_call string | Tool_unknown

definition tool_option :: "string \<Rightarrow> string list \<Rightarrow> tool_option \<times> string list" where
  "tool_option body rest =
     (let name = takeWhile (\<lambda>c. c \<noteq> CHR ''='') body;
          has_value = CHR ''='' \<in> set body;
          value = drop (length name + 1) body
      in case filter (\<lambda>n. prefix name n) [''help'', ''debug'', ''pin'', ''call''] of
           [n] \<Rightarrow>
             if n = ''help'' then (if has_value then Tool_unknown else Tool_help, rest)
             else if n = ''debug'' then (if has_value then Tool_unknown else Tool_debug, rest)
             else let f = (if n = ''pin'' then Tool_pin else Tool_call)
                  in if has_value then (f value, rest)
                     else (case rest of [] \<Rightarrow> (Tool_unknown, []) | a # rest' \<Rightarrow> (f a, rest'))
         | _ \<Rightarrow> (Tool_unknown, rest))"

lemma tool_option_shorter: "length (snd (tool_option body rest)) \<le> length rest"
  by (auto simp: tool_option_def Let_def split: list.splits)

function tool_getopt :: "string list \<Rightarrow> tool_option list \<times> string list" where
  "tool_getopt [] = ([], [])"
| "tool_getopt (a # rest) =
     (if a = ''--'' then ([], rest)
      else if a = [] \<or> hd a \<noteq> CHR ''-'' \<or> tl a = [] then apsnd (Cons a) (tool_getopt rest)
      else if hd (tl a) = CHR ''-'' then
        apfst (Cons (fst (tool_option (drop 2 a) rest))) (tool_getopt (snd (tool_option (drop 2 a) rest)))
      else apfst (Cons Tool_unknown) (tool_getopt rest))"
  by pat_completeness auto
termination
  by (relation "measure length") (auto simp: less_Suc_eq_le tool_option_shorter)

text \<open>The loop over the options; \<open>Inl\<close> is the exit status of the program.\<close>

fun tool_options :: "tool_option list \<Rightarrow> bool \<Rightarrow> tool \<Rightarrow> int + (bool \<times> tool)" where
  "tool_options [] debug t = Inr (debug, t)"
| "tool_options (Tool_help # opts) debug t = Inl 1"
| "tool_options (Tool_debug # opts) debug t = tool_options opts True t"
| "tool_options (Tool_pin optarg # opts) debug t =
     (if length optarg < 8 then tool_options opts debug (t\<lparr>tm_sim_pin := ascii optarg\<rparr>) else Inl 1)"
| "tool_options (Tool_call optarg # opts) debug t =
     (if length optarg < 14 then tool_options opts debug (t\<lparr>tm_call_number := ascii optarg\<rparr>) else Inl 1)"
| "tool_options (Tool_unknown # opts) debug t = tool_options opts debug t"

text \<open>
  The loop over the other arguments, with the exit status. Most paths destroy the client on their
  way out; the flag tells whether it was.
\<close>

fun tool_arguments ::
  "ipc_client option \<Rightarrow> tool \<Rightarrow> string list \<Rightarrow> world \<Rightarrow> ((int \<times> bool) outcome \<times> world) option" where
  "tool_arguments client t [] w = Some (Done (0, True), w)"
| "tool_arguments client t (a # rest) w =
     (if strncmp_eq 8 (ascii a) (ascii ''power-on'') then
        Some (bnd (try_rc (ipc_client_power_on client)) (\<lambda>_. ret (0, True)) w)
      else if strncmp_eq 9 (ascii a) (ascii ''power-off'') then
        Some (bnd (try_rc (ipc_client_power_off client)) (\<lambda>_. ret (0, True)) w)
      else if strncmp_eq 9 (ascii a) (ascii ''boot'') then
        (case try_rc (ipc_client_boot client) w of
           (Done rc, w1) \<Rightarrow> tool_arguments client t rest w1
         | (_, w1) \<Rightarrow> Some (Undef, w1))
      else if strncmp_eq 5 (ascii a) (ascii ''start'') then
        (case tool_modem_start client w of
           (Done (rc, client'), w1) \<Rightarrow>
             if rc < 0 then Some (bnd (tool_modem_stop client') (\<lambda>_. ret (1, False)) w1)
             else
               (case tool_read_loop client' zero_message t w1 of
                  None \<Rightarrow> None
                | Some (Done t', w2) \<Rightarrow>
                    (case tool_modem_stop client' w2 of
                       (Done _, w3) \<Rightarrow> tool_arguments client' t' rest w3
                     | (_, w3) \<Rightarrow> Some (Undef, w3))
                | Some (_, w2) \<Rightarrow> Some (Undef, w2))
         | (_, w1) \<Rightarrow> Some (Undef, w1))
      else Some (Done (1, False), w))"

text \<open>
  \<open>main\<close> with the arguments behind the program's name; \<open>log_handler\<close> are the addresses of the two
  functions that log. The result is the exit status and whether the client was destroyed.
\<close>

definition ipc_modem_main ::
  "ipc_device_desc list \<Rightarrow> (bool \<Rightarrow> ptr) \<Rightarrow> string list \<Rightarrow> world \<Rightarrow> ((int \<times> bool) outcome \<times> world) option" where
  "ipc_modem_main ipc_devices log_handler args w =
     (if args = [] then Some (Done (1, True), w)
      else
        (case tool_getopt args of (opts, rest) \<Rightarrow>
          (case tool_options opts False tool0 of
             Inl status \<Rightarrow> Some (Done (status, True), w)
           | Inr (debug, t) \<Rightarrow>
               (case ipc_client_create ipc_devices IPC_CLIENT_TYPE_FMT of
                  Undef \<Rightarrow> Some (Undef, w)
                | Fail \<Rightarrow> Some (Done (0, True), w)
                | Done c \<Rightarrow>
                    (case ipc_client_log_callback_register (Some c) (log_handler debug) None of
                       Done c' \<Rightarrow> tool_arguments (Some c') t rest w
                     | _ \<Rightarrow> tool_arguments (Some c) t rest w)))))"

section \<open>ipc-test\<close>

text \<open>At most \<open>n\<close> messages; the loop ends when polling or receiving fails.\<close>

fun test_receive :: "nat \<Rightarrow> ipc_client option \<Rightarrow> ipc_message \<Rightarrow> unit io" where
  "test_receive 0 client m = ret ()"
| "test_receive (Suc n) client m = (\<lambda>w.
     (case bnd (ipc_client_poll client None) (\<lambda>(rc, fds).
           bnd (check (\<not> rc < 0)) (\<lambda>_. ipc_client_recv client (Some m))) w of
        (Done m', w') \<Rightarrow> test_receive n client (if msg_size m' > 0 then m'\<lparr>msg_data := None\<rparr> else m') w'
      | (Fail, w') \<Rightarrow> (Done (), w')
      | (Undef, w') \<Rightarrow> (Undef, w')))"

definition test_steps :: "ptr \<Rightarrow> ipc_client \<Rightarrow> unit io" where
  "test_steps log_callback c =
     bnd (lift_outcome (ipc_client_log_callback_register (Some c) log_callback None)) (\<lambda>c.
     bnd (ipc_client_data_create (Some c)) (\<lambda>c.
     bnd (ipc_client_boot (Some c)) (\<lambda>_.
     bnd (ipc_client_power_on (Some c)) (\<lambda>_.
     bnd (ipc_client_open (Some c)) (\<lambda>_.
     bnd (test_receive 5 (Some c) zero_message) (\<lambda>_.
     bnd (ipc_client_close (Some c)) (\<lambda>_.
     ipc_client_power_off (Some c))))))))"

text \<open>The exit status; the client is destroyed whenever there is one.\<close>

definition ipc_test_main :: "ipc_device_desc list \<Rightarrow> ptr \<Rightarrow> int io" where
  "ipc_test_main ipc_devices log_callback w =
     (case ipc_client_create ipc_devices IPC_CLIENT_TYPE_FMT of
        Undef \<Rightarrow> (Undef, w)
      | Fail \<Rightarrow> (Done 1, w)
      | Done c \<Rightarrow>
          (case test_steps log_callback c w of
             (Done _, w') \<Rightarrow> (Done 0, w')
           | (Fail, w') \<Rightarrow> (Done 1, w')
           | (Undef, w') \<Rightarrow> (Undef, w')))"

section \<open>What the tool does with a message\<close>

text \<open>
  The specification: how many bytes of the payload a message must have, the requests it is answered
  with, and the state after it. A request is its command, type, data and size.
\<close>

type_synonym request = "u16 \<times> u8 \<times> u8 list option \<times> u32"

definition needs :: "u16 \<Rightarrow> u8 list \<Rightarrow> nat" where
  "needs cmd d =
     (if cmd = 0x0501 then (if d \<noteq> [] \<and> hd d = 0x03 then 2 else 1)
      else if cmd = 0x0507 then 1
      else if cmd = 0x0205 then 4
      else if cmd = 0x0107 then 4
      else if cmd = 0x0805 then 3
      else if cmd = 0x0803 then 8
      else 0)"

definition mute_request :: request where "mute_request = (0x0902, 3, Some [0], 1)"
definition clock_request :: request where "clock_request = (0x0909, 1, Some [1], 1)"
definition volume_request :: request where "volume_request = (0x0901, 3, Some [0x11, 0x04], 2)"
definition path_request :: request where "path_request = (0x0903, 3, Some [1], 1)"
definition list_request :: request where "list_request = (0x0206, 2, None, 0)"
definition normal_request :: request where "normal_request = (0x0107, 1, Some [0x02, 0x02], 2)"
definition ready_request :: request where "ready_request = (0x0407, 3, None, 0)"

definition pin_request :: "u8 list \<Rightarrow> request" where
  "pin_request pin = (0x0501, 3, Some ([3, of_nat (length pin), 0] @ pin @ calloc (8 - length pin) @ calloc 8), 19)"

definition call_request :: "u8 list \<Rightarrow> request" where
  "call_request num = (0x0201, 1, Some ([0, 1, 0, of_nat (length num), 0] @ num @ calloc (86 - length num)), 91)"

definition requests_for :: "tool \<Rightarrow> u16 \<Rightarrow> u8 list \<Rightarrow> request list" where
  "requests_for t cmd d =
     (if cmd = 0x0501 then
        (if hd d = 0x03 \<and> d ! 1 = 0x01 \<and> tm_sim_pin t \<noteq> [] then [pin_request (tm_sim_pin t)] else [])
      else if cmd = 0x0407 then
        (if tm_state t = 0 then [normal_request] else if tm_state t = 4 then [ready_request] else [])
      else if cmd = 0x0202 then [list_request, mute_request]
      else if cmd = 0x0205 then
        (if d ! 3 = 1 then [clock_request, volume_request, path_request, list_request, mute_request]
         else if d ! 3 = 3 \<or> d ! 3 = 4 then [mute_request] else [])
      else if cmd = 0x0803 then
        (if tm_call_done t = 0
         then [mute_request, call_request (tm_call_number t), mute_request, volume_request, path_request]
         else [])
      else if IPC_GROUP cmd = 0x07 \<and> tm_in_call t \<noteq> 0 then [mute_request]
      else [])"

definition state_after :: "tool \<Rightarrow> u16 \<Rightarrow> u8 list \<Rightarrow> tool" where
  "state_after t cmd d =
     (if cmd = 0x0101 then t\<lparr>tm_state := 0\<rparr>
      else if cmd = 0x0107 then t\<lparr>tm_state := sint (get32 (take 4 d))\<rparr>
      else if cmd = 0x0501 \<and> hd d = 0x82 \<and> tm_state t = 2 then t\<lparr>tm_state := 4\<rparr>
      else if cmd = 0x0202 then t\<lparr>tm_in_call := 1\<rparr>
      else if cmd = 0x0803 then (if tm_call_done t = 0 then t\<lparr>tm_out_call := 1, tm_call_done := 1\<rparr> else t\<lparr>tm_call_done := 1\<rparr>)
      else t)"

text \<open>Requests are sent one after the other, each with the next sequence number; failures are ignored.\<close>

fun send_requests :: "ipc_client option \<Rightarrow> request list \<Rightarrow> tool \<Rightarrow> tool io" where
  "send_requests client [] t = ret t"
| "send_requests client ((command, type, data, sz) # rs) t =
     bnd (send_next client command type data sz t) (send_requests client rs)"

text \<open>The strings fit their arrays.\<close>

definition tool_ok :: "tool \<Rightarrow> bool" where
  "tool_ok t \<longleftrightarrow> length (tm_call_number t) < 14 \<and> 0 \<notin> set (tm_call_number t) \<and>
     length (tm_sim_pin t) < 8 \<and> 0 \<notin> set (tm_sim_pin t)"

definition payload_of :: "ipc_message \<Rightarrow> u8 list" where
  "payload_of m = (case msg_data m of None \<Rightarrow> [] | Some d \<Rightarrow> d)"

section \<open>Sending requests\<close>

lemma ret_then: "bnd (ret a) f = f a"
  by (rule ext) (simp add: bnd_def ret_eq)

lemma then_ret: "bnd m ret = m"
  by (rule ext) (simp add: bnd_def ret_eq split: prod.split outcome.split)

lemma send_requests_one: "send_requests client [(command, type, data, sz)] t = send_next client command type data sz t"
proof -
  have "send_requests client [] = ret" by (rule ext) simp
  then show ?thesis by (simp add: then_ret)
qed

lemma send_requests_append:
  "send_requests client (xs @ ys) t = bnd (send_requests client xs t) (send_requests client ys)"
proof (induction client xs t rule: send_requests.induct)
  case (2 client command type data sz rs t)
  have "send_requests client (rs @ ys) = (\<lambda>t. bnd (send_requests client rs t) (send_requests client ys))"
    by (rule ext) (rule 2)
  then show ?case by (simp add: bnd_assoc)
qed (simp add: ret_then)

text \<open>A change of the state that leaves the sequence number alone may come before or after the requests.\<close>

definition seq_free :: "(tool \<Rightarrow> tool) \<Rightarrow> bool" where
  "seq_free f \<longleftrightarrow> (\<forall>t n. f (t\<lparr>tm_seq := n\<rparr>) = (f t)\<lparr>tm_seq := n\<rparr> \<and> tm_seq (f t) = tm_seq t)"

lemma send_next_commute:
  "seq_free f \<Longrightarrow> bnd (send_next client command type data sz t) (\<lambda>t. ret (f t)) =
     send_next client command type data sz (f t)"
  unfolding send_next_def bnd_assoc ret_then seq_free_def by simp

lemma send_requests_commute:
  assumes "seq_free f"
  shows "bnd (send_requests client rs t) (\<lambda>t. ret (f t)) = send_requests client rs (f t)"
proof (induction client rs t rule: send_requests.induct)
  case (1 client t)
  then show ?case by (simp add: ret_then)
next
  case (2 client command type data sz rs t)
  have "bnd (send_requests client ((command, type, data, sz) # rs) t) (\<lambda>t. ret (f t)) =
      bnd (send_next client command type data sz t) (\<lambda>t. send_requests client rs (f t))"
    by (simp add: bnd_assoc 2)
  also have "\<dots> = bnd (bnd (send_next client command type data sz t) (\<lambda>t. ret (f t))) (send_requests client rs)"
    by (simp add: bnd_assoc ret_then)
  finally show ?case by (simp add: send_next_commute [OF assms])
qed

lemma snd_requests:
  "modem_snd_no_mic_mute client t = send_requests client [mute_request] t"
  "modem_snd_clock_ctrl client t = send_requests client [clock_request] t"
  "modem_snd_spkr_volume_ctrl client t = send_requests client [volume_request] t"
  "modem_snd_audio_path_ctrl client t = send_requests client [path_request] t"
  "modem_exec_power_normal client t = send_requests client [normal_request] t"
  "modem_set_sms_device_ready client t = send_requests client [ready_request] t"
proof -
  have "le16 0x0411 = [0x11, 0x04]" "le16 0x0202 = [0x02, 0x02]" by (simp_all add: le16_def)
  then show "modem_snd_spkr_volume_ctrl client t = send_requests client [volume_request] t"
    "modem_exec_power_normal client t = send_requests client [normal_request] t"
    by (simp_all only: modem_snd_spkr_volume_ctrl_def modem_exec_power_normal_def volume_request_def
        normal_request_def send_requests_one tool_commands IPC_TYPE_SET_def IPC_TYPE_EXEC_def)
qed (simp_all only: modem_snd_no_mic_mute_def modem_snd_clock_ctrl_def modem_snd_audio_path_ctrl_def
      modem_set_sms_device_ready_def mute_request_def clock_request_def path_request_def ready_request_def
      send_requests_one tool_commands IPC_TYPE_SET_def IPC_TYPE_EXEC_def)

lemma list_requests: "modem_get_call_list client t = send_requests client [list_request, mute_request] t"
proof -
  have mute: "modem_snd_no_mic_mute client = send_requests client [mute_request]"
    by (rule ext) (rule snd_requests)
  show ?thesis
    unfolding modem_get_call_list_def mute
    by (simp add: list_request_def IPC_CALL_LIST_def IPC_TYPE_GET_def)
qed

lemma pin_requests:
  assumes "tool_ok t" "tm_sim_pin t \<noteq> []"
  shows "modem_set_sec_pin_status client (Some (tm_sim_pin t)) None t = send_requests client [pin_request (tm_sim_pin t)] t"
proof -
  have pin: "strlen (tm_sim_pin t) = length (tm_sim_pin t)" "length (tm_sim_pin t) < 8" "0 \<notin> set (tm_sim_pin t)"
    using assms(1) by (auto simp: tool_ok_def strlen_id)
  then have "clip_length 8 (tm_sim_pin t) = length (tm_sim_pin t)"
    "clip_field 8 (tm_sim_pin t) = tm_sim_pin t @ calloc (8 - length (tm_sim_pin t))"
    by (simp_all add: clip_length_def clip_field_def strncpy_id)
  then show ?thesis
    by (simp add: modem_set_sec_pin_status_def ipc_sec_pin_status_setup_def bnd_lift pin_status_bytes_def pin_request_def
        send_requests_one IPC_SEC_PIN_TYPE_PIN1_def IPC_SEC_PIN_STATUS_def IPC_TYPE_SET_def del: send_requests.simps)
qed

lemma call_requests:
  assumes "tool_ok t"
  shows "modem_exec_call_out client (tm_call_number t) t =
    send_requests client [mute_request, call_request (tm_call_number t), mute_request, volume_request, path_request]
      (t\<lparr>tm_out_call := 1\<rparr>)"
proof -
  let ?num = "tm_call_number t" and ?f = "\<lambda>t. t\<lparr>tm_out_call := 1\<rparr>"
  have num: "strlen ?num = length ?num" "cstr ?num = ?num" "length ?num < 14"
    using assms by (auto simp: tool_ok_def strlen_id cstr_id)
  then have "unat (of_nat (length ?num) :: u8) = length ?num" by (simp add: unat_of_nat)
  with num have data: "call_out_data ?num = Done \<lparr>co_unknown = 0, co_type = 1, co_identity = 0,
      co_number_length = of_nat (length ?num), co_prefix = 0, co_number = ?num @ calloc (86 - length ?num)\<rparr>"
    by (simp add: call_out_data_def Let_def poke_calloc0 IPC_CALL_TYPE_VOICE_def IPC_CALL_IDENTITY_DEFAULT_def
        IPC_CALL_PREFIX_NONE_def)
  have call: "send_next client IPC_CALL_OUTGOING IPC_TYPE_EXEC
      (Some (call_outgoing_bytes \<lparr>co_unknown = 0, co_type = 1, co_identity = 0,
      co_number_length = of_nat (length ?num), co_prefix = 0, co_number = ?num @ calloc (86 - length ?num)\<rparr>)) 91 =
      send_requests client [call_request ?num]"
    by (rule ext) (simp add: call_outgoing_bytes_def call_request_def send_requests_one IPC_CALL_OUTGOING_def
        IPC_TYPE_EXEC_def del: send_requests.simps)
  have free: "seq_free ?f" by (simp add: seq_free_def)
  have path: "modem_snd_audio_path_ctrl client = send_requests client [path_request]" by (rule ext) (rule snd_requests)
  have "modem_exec_call_out client ?num t =
      bnd (send_requests client [mute_request] t) (\<lambda>t. bnd (send_requests client [call_request ?num] t)
        (\<lambda>t. send_requests client [mute_request, volume_request, path_request] (?f t)))"
    unfolding modem_exec_call_out_def snd_requests data bnd_lift call path send_requests_append [symmetric]
    by simp
  also have "\<dots> = bnd (send_requests client [mute_request, call_request ?num] t)
        (\<lambda>t. send_requests client [mute_request, volume_request, path_request] (?f t))"
    using send_requests_append [of client "[mute_request]" "[call_request ?num]" t] by (simp add: bnd_assoc)
  also have "\<dots> = bnd (bnd (send_requests client [mute_request, call_request ?num] t) (\<lambda>t. ret (?f t)))
        (send_requests client [mute_request, volume_request, path_request])"
    by (simp only: bnd_assoc ret_then)
  also have "\<dots> = send_requests client ([mute_request, call_request ?num] @ [mute_request, volume_request, path_request]) (?f t)"
    by (simp only: send_requests_commute [OF free] send_requests_append)
  finally show ?thesis by simp
qed

lemma network_requests:
  assumes "tool_ok t"
  shows "bnd (if tm_call_done t = 0 then modem_exec_call_out client (tm_call_number t) t else ret t) (\<lambda>t.
      ret (t\<lparr>tm_call_done := 1\<rparr>)) = send_requests client (requests_for t 0x0803 d) (state_after t 0x0803 d)"
proof -
  let ?f = "\<lambda>t. t\<lparr>tm_call_done := 1\<rparr>"
  have free: "seq_free ?f" by (simp add: seq_free_def)
  show ?thesis
  proof (cases "tm_call_done t = 0")
    case True
    have "bnd (modem_exec_call_out client (tm_call_number t) t) (\<lambda>t. ret (?f t)) =
        send_requests client [mute_request, call_request (tm_call_number t), mute_request, volume_request, path_request]
          (?f (t\<lparr>tm_out_call := 1\<rparr>))"
      unfolding call_requests [OF assms] by (rule send_requests_commute [OF free])
    with True show ?thesis by (simp add: requests_for_def state_after_def del: send_requests.simps) 
  qed (simp add: ret_then requests_for_def state_after_def IPC_GROUP_def drop_bit_eq_div)
qed

lemma payload_there:
  "0 < n \<Longrightarrow> payload_bytes off n resp =
     (if off + n \<le> length (payload_of resp) then Done (take n (drop off (payload_of resp))) else Undef)"
  by (auto simp: payload_bytes_def payload_of_def peek_def split: option.split)

lemma hd_take_drop: "k < length d \<Longrightarrow> hd (take 1 (drop k d)) = d ! k"
  by (simp add: hd_drop_conv_nth take_Suc)

lemma lift_bnd: "bnd (lift_outcome Undef) f = undef"
  by (rule ext) (simp add: bnd_def lift_outcome_eq undef_eq)

abbreviation reacts :: "ipc_client option \<Rightarrow> ipc_message \<Rightarrow> tool \<Rightarrow> tool io \<Rightarrow> bool" where
  "reacts client resp t m \<equiv> m =
     (if length (payload_of resp) < needs (msg_command resp) (payload_of resp) then undef
      else send_requests client (requests_for t (msg_command resp) (payload_of resp))
             (state_after t (msg_command resp) (payload_of resp)))"

lemma sec_reacts:
  assumes "tool_ok t" "IPC_GROUP (msg_command resp) = 0x05"
  shows "reacts client resp t (tool_response_sec client resp t)"
proof -
  let ?d = "payload_of resp"
  have pin: "strlen (tm_sim_pin t) > 0 \<longleftrightarrow> tm_sim_pin t \<noteq> []"
    using assms(1) by (auto simp: tool_ok_def strlen_id)
  consider "msg_command resp = 0x0501" | "msg_command resp = 0x0507"
    | "msg_command resp \<noteq> 0x0501" "msg_command resp \<noteq> 0x0507" by blast
  then show ?thesis
  proof cases
    case 1
    show ?thesis
    proof (cases "?d")
      case Nil
      with 1 show ?thesis
        by (simp add: tool_response_sec_def IPC_SEC_PIN_STATUS_def payload_there lift_bnd needs_def)
    next
      case (Cons b bs)
      with 1 show ?thesis
        using pin_requests [OF assms(1), of client]
        by (cases bs) (auto simp: tool_response_sec_def IPC_SEC_PIN_STATUS_def payload_there lift_bnd bnd_lift needs_def
            requests_for_def state_after_def IPC_SEC_PIN_STATUS_CARD_NOT_PRESENT_def IPC_SEC_PIN_STATUS_LOCK_SC_def
            IPC_SEC_PIN_STATUS_INIT_COMPLETE_def IPC_SEC_FACILITY_LOCK_TYPE_SC_PIN1_REQ_def tool_states pin
            simp del: send_requests.simps(2))
    qed
  next
    case 2
    then show ?thesis
      by (cases "payload_of resp") (auto simp: tool_response_sec_def tool_commands payload_there lift_bnd bnd_lift needs_def
          requests_for_def state_after_def IPC_GROUP_def drop_bit_eq_div)
  next
    case 3
    with assms(2) show ?thesis
      by (auto simp: tool_response_sec_def tool_commands needs_def requests_for_def state_after_def IPC_GROUP_def drop_bit_eq_div)
  qed
qed

lemma sms_reacts:
  assumes "IPC_GROUP (msg_command resp) = 0x04"
  shows "reacts client resp t (tool_response_sms client resp t)"
proof (cases "msg_command resp = 0x0407")
  case True
  then show ?thesis
    by (simp add: tool_response_sms_def IPC_SMS_DEVICE_READY_def needs_def requests_for_def state_after_def
        snd_requests tool_states IPC_GROUP_def drop_bit_eq_div del: send_requests.simps(2))
next
  case False
  have "msg_command resp \<notin> {0x0501, 0x0507, 0x0205, 0x0107, 0x0803, 0x0805, 0x0202, 0x0101}"
    using assms by (auto simp: IPC_GROUP_def drop_bit_eq_div)
  with False assms show ?thesis
    by (simp add: tool_response_sms_def IPC_SMS_DEVICE_READY_def needs_def requests_for_def state_after_def)
qed

lemma pwr_reacts:
  assumes "IPC_GROUP (msg_command resp) = 0x01"
  shows "reacts client resp t (tool_response_pwr resp t)"
proof -
  have "msg_command resp \<notin> {0x0501, 0x0507, 0x0205, 0x0407, 0x0803, 0x0805, 0x0202}"
    using assms by (auto simp: IPC_GROUP_def drop_bit_eq_div)
  with assms show ?thesis
    by (simp add: tool_response_pwr_def IPC_PWR_PHONE_PWR_UP_def IPC_PWR_PHONE_STATE_def needs_def requests_for_def
        state_after_def payload_there lift_bnd bnd_lift tool_states not_le)
qed

lemma net_reacts:
  assumes "tool_ok t" "IPC_GROUP (msg_command resp) = 0x08"
  shows "reacts client resp t (tool_response_net client resp t)"
proof -
  consider "msg_command resp = 0x0803" | "msg_command resp = 0x0805"
    | "msg_command resp \<noteq> 0x0803" "msg_command resp \<noteq> 0x0805" by blast
  then show ?thesis
  proof cases
    case 1
    then show ?thesis
      using network_requests [OF assms(1), of client "payload_of resp"]
      by (simp add: tool_response_net_def IPC_NET_REGIST_def IPC_NET_SERVING_NETWORK_def needs_def
          payload_there lift_bnd bnd_lift)
  next
    case 2
    then show ?thesis
      by (simp add: tool_response_net_def IPC_NET_REGIST_def needs_def payload_there lift_bnd bnd_lift
          requests_for_def state_after_def IPC_GROUP_def drop_bit_eq_div)
  next
    case 3
    have "msg_command resp \<notin> {0x0501, 0x0507, 0x0205, 0x0107, 0x0407, 0x0202, 0x0101}"
      using assms(2) by (auto simp: IPC_GROUP_def drop_bit_eq_div)
    with 3 assms(2) show ?thesis
      by (simp add: tool_response_net_def IPC_NET_REGIST_def IPC_NET_SERVING_NETWORK_def needs_def
          requests_for_def state_after_def)
  qed
qed

lemma call_reacts:
  assumes "IPC_GROUP (msg_command resp) = 0x02"
  shows "reacts client resp t (tool_response_call client resp t)"
proof -
  let ?d = "payload_of resp"
  consider "msg_command resp = 0x0206" | "msg_command resp = 0x0202" | "msg_command resp = 0x0205"
    | "msg_command resp \<notin> {0x0202, 0x0205, 0x0206}" by blast
  then show ?thesis
  proof cases
    case 1
    then show ?thesis
      by (simp add: tool_response_call_def tool_commands needs_def requests_for_def state_after_def IPC_GROUP_def drop_bit_eq_div)
  next
    case 2
    then show ?thesis
      by (simp add: tool_response_call_def tool_commands needs_def requests_for_def state_after_def list_requests
          del: send_requests.simps(2))
  next
    case 3
    have dialing: "bnd (modem_snd_clock_ctrl client t) (\<lambda>t. bnd (modem_snd_spkr_volume_ctrl client t) (\<lambda>t.
        bnd (modem_snd_audio_path_ctrl client t) (modem_get_call_list client))) =
        send_requests client [clock_request, volume_request, path_request, list_request, mute_request] t"
    proof -
      have "modem_get_call_list client = send_requests client [list_request, mute_request]"
        by (rule ext) (rule list_requests)
      then show ?thesis
        by (simp only: snd_requests send_requests_append [symmetric] append.simps)
    qed
    show ?thesis
    proof (cases "4 \<le> length ?d")
      case True
      then have "hd (take 1 (drop 3 ?d)) = ?d ! 3" by (intro hd_take_drop) simp
      with 3 True show ?thesis
        by (simp add: tool_response_call_def IPC_CALL_LIST_def IPC_CALL_INCOMING_def IPC_CALL_STATUS_def needs_def
            payload_there bnd_lift requests_for_def state_after_def IPC_CALL_STATUS_DIALING_def
            IPC_CALL_STATUS_CONNECTED_def IPC_CALL_STATUS_RELEASED_def dialing [unfolded snd_requests] ret_then then_ret snd_requests
            del: send_requests.simps(2))
    next
      case False
      with 3 show ?thesis
        by (simp add: tool_response_call_def IPC_CALL_LIST_def IPC_CALL_INCOMING_def IPC_CALL_STATUS_def needs_def
            payload_there lift_bnd)
    qed
  next
    case 4
    have "msg_command resp \<notin> {0x0501, 0x0507, 0x0107, 0x0407, 0x0101, 0x0803, 0x0805}"
      using assms by (auto simp: IPC_GROUP_def drop_bit_eq_div)
    with 4 assms show ?thesis
      by (simp add: tool_response_call_def IPC_CALL_LIST_def IPC_CALL_INCOMING_def IPC_CALL_STATUS_def needs_def
          requests_for_def state_after_def)
  qed
qed

lemma handle_reacts:
  assumes "tool_ok t"
  shows "reacts client resp t (tool_response_handle client resp t)"
proof -
  let ?g = "IPC_GROUP (msg_command resp)"
  consider "?g = 0x08" | "?g = 0x01" | "?g = 0x05" | "?g = 0x04" | "?g = 0x02" | "?g \<notin> {0x08, 0x01, 0x05, 0x04, 0x02}"
    by blast
  then show ?thesis
  proof cases
    case 6
    then have "msg_command resp \<notin> {0x0501, 0x0507, 0x0107, 0x0407, 0x0101, 0x0803, 0x0805, 0x0202, 0x0205}"
      by (auto simp: IPC_GROUP_def drop_bit_eq_div)
    with 6 show ?thesis
      by (simp add: tool_response_handle_def tool_groups needs_def requests_for_def state_after_def snd_requests
          del: send_requests.simps(2))
  qed (simp_all add: tool_response_handle_def tool_groups net_reacts [OF assms] pwr_reacts
      sec_reacts [OF assms] sms_reacts call_reacts del: send_requests.simps(2))
qed

section \<open>Conversations\<close>

text \<open>Handling one message after the other, and the requests and the state the specification gives for it.\<close>

fun tool_handles :: "ipc_client option \<Rightarrow> ipc_message list \<Rightarrow> tool \<Rightarrow> tool io" where
  "tool_handles client [] t = ret t"
| "tool_handles client (m # ms) t = bnd (tool_response_handle client m t) (tool_handles client ms)"

fun conversation :: "tool \<Rightarrow> ipc_message list \<Rightarrow> request list \<times> tool" where
  "conversation t [] = ([], t)"
| "conversation t (m # ms) =
     apfst (append (requests_for t (msg_command m) (payload_of m)))
       (conversation (state_after t (msg_command m) (payload_of m)) ms)"

definition complete_message :: "ipc_message \<Rightarrow> bool" where
  "complete_message m \<longleftrightarrow> needs (msg_command m) (payload_of m) \<le> length (payload_of m)"

lemma handle_complete:
  "tool_ok t \<Longrightarrow> complete_message m \<Longrightarrow> tool_response_handle client m t =
     send_requests client (requests_for t (msg_command m) (payload_of m)) (state_after t (msg_command m) (payload_of m))"
  using handle_reacts [of t client m] by (simp add: complete_message_def)

lemma handle_incomplete: "tool_ok t \<Longrightarrow> \<not> complete_message m \<Longrightarrow> tool_response_handle client m t = undef"
  using handle_reacts [of t client m] by (simp add: complete_message_def)

lemma state_after_ok: "tool_ok t \<Longrightarrow> tool_ok (state_after t cmd d)"
  by (simp add: state_after_def tool_ok_def)

lemma tool_ok_seq [simp]: "tool_ok (t\<lparr>tm_seq := n\<rparr>) = tool_ok t"
  by (simp add: tool_ok_def)

lemma state_after_strings [simp]:
  "tm_sim_pin (state_after t cmd d) = tm_sim_pin t" "tm_call_number (state_after t cmd d) = tm_call_number t"
  "tm_seq (state_after t cmd d) = tm_seq t"
  by (simp_all add: state_after_def)

lemma requests_for_seq [simp]: "requests_for (t\<lparr>tm_seq := n\<rparr>) cmd d = requests_for t cmd d"
  by (simp add: requests_for_def)

lemma state_after_seq: "state_after (t\<lparr>tm_seq := n\<rparr>) cmd d = (state_after t cmd d)\<lparr>tm_seq := n\<rparr>"
  by (simp add: state_after_def)

lemma conversation_seq:
  "fst (conversation (t\<lparr>tm_seq := n\<rparr>) ms) = fst (conversation t ms) \<and>
   snd (conversation (t\<lparr>tm_seq := n\<rparr>) ms) = (snd (conversation t ms))\<lparr>tm_seq := n\<rparr>"
  by (induction ms arbitrary: t) (simp_all add: state_after_seq)

lemma conversation_keeps:
  "tm_seq (snd (conversation t ms)) = tm_seq t" "tm_sim_pin (snd (conversation t ms)) = tm_sim_pin t"
  "tm_call_number (snd (conversation t ms)) = tm_call_number t"
  by (induction ms arbitrary: t) simp_all

text \<open>Each request takes the next sequence number; nothing else of the state changes.\<close>

lemma send_requests_state:
  "send_requests client rs t w = (Done t', w') \<Longrightarrow> t' = t\<lparr>tm_seq := (seq_get ^^ length rs) (tm_seq t)\<rparr>"
proof (induction client rs t arbitrary: w rule: send_requests.induct)
  case (1 client t)
  then show ?case by (simp add: ret_eq)
next
  case (2 client command type data sz rs t)
  then obtain w1 where "send_requests client rs (t\<lparr>tm_seq := seq_get (tm_seq t)\<rparr>) w1 = (Done t', w')"
    by (auto simp: bnd_eq_Done send_next_def ret_eq)
  from 2(1) [OF this] show ?case by (simp add: funpow_Suc_right del: funpow.simps)
qed

lemma handles_conversation:
  assumes "tool_ok t" "list_all complete_message ms"
  shows "tool_handles client ms t = send_requests client (fst (conversation t ms)) (snd (conversation t ms))"
  using assms
proof (induction ms arbitrary: t)
  case Nil
  then show ?case by simp
next
  case (Cons m ms)
  let ?rs = "requests_for t (msg_command m) (payload_of m)" and ?t = "state_after t (msg_command m) (payload_of m)"
  let ?c = "conversation ?t ms"
  have "tool_handles client (m # ms) t = bnd (send_requests client ?rs ?t) (tool_handles client ms)"
    using Cons.prems by (simp add: handle_complete)
  also have "\<dots> = bnd (send_requests client ?rs ?t) (\<lambda>t1. send_requests client (fst ?c) ((snd ?c)\<lparr>tm_seq := tm_seq t1\<rparr>))"
  proof (rule ext, clarsimp simp: bnd_def split: prod.split outcome.split)
    fix w t1 w1
    assume "send_requests client ?rs ?t w = (Done t1, w1)"
    then obtain n where t1: "t1 = ?t\<lparr>tm_seq := n\<rparr>" by (blast dest: send_requests_state)
    have "tool_ok t1" unfolding t1 by (simp add: state_after_ok Cons.prems(1))
    with Cons.prems(2)
    have "tool_handles client ms t1 = send_requests client (fst (conversation t1 ms)) (snd (conversation t1 ms))"
      by (intro Cons.IH) simp_all
    then show "tool_handles client ms t1 w1 = send_requests client (fst ?c) ((snd ?c)\<lparr>tm_seq := tm_seq t1\<rparr>) w1"
      unfolding t1 by (simp add: conversation_seq)
  qed
  also have "\<dots> = bnd (bnd (send_requests client ?rs ?t) (\<lambda>t1. ret ((snd ?c)\<lparr>tm_seq := tm_seq t1\<rparr>)))
      (send_requests client (fst ?c))"
    by (simp only: bnd_assoc ret_then)
  also have "bnd (send_requests client ?rs ?t) (\<lambda>t1. ret ((snd ?c)\<lparr>tm_seq := tm_seq t1\<rparr>)) =
      send_requests client ?rs ((snd ?c)\<lparr>tm_seq := tm_seq ?t\<rparr>)"
    by (rule send_requests_commute) (simp add: seq_free_def)
  also have "(snd ?c)\<lparr>tm_seq := tm_seq ?t\<rparr> = snd ?c"
    using conversation_keeps(1) [of ?t ms] by simp
  finally show ?case by (simp add: send_requests_append)
qed

section \<open>The loop as rounds\<close>

text \<open>
  A run of the loop that ends: polling may fail, a message that is received is answered as the
  specification says, and receiving fails in the end.
\<close>

inductive tool_rounds ::
  "ipc_client option \<Rightarrow> ipc_message \<Rightarrow> tool \<Rightarrow> world \<Rightarrow> ipc_message list \<Rightarrow> tool \<Rightarrow> world \<Rightarrow> bool" for client where
  failed: "ipc_client_poll client None w = (Fail, w1) \<Longrightarrow>
     tool_rounds client resp t w1 ms t' w' \<Longrightarrow> tool_rounds client resp t w ms t' w'"
| nothing: "ipc_client_poll client None w = (Done (rc, fds), w1) \<Longrightarrow> rc < 0 \<Longrightarrow>
     tool_rounds client resp t w1 ms t' w' \<Longrightarrow> tool_rounds client resp t w ms t' w'"
| lost: "ipc_client_poll client None w = (Done (rc, fds), w1) \<Longrightarrow> 0 \<le> rc \<Longrightarrow>
     ipc_client_recv client (Some resp) w1 = (Fail, w2) \<Longrightarrow> tool_rounds client resp t w [] t w2"
| answered: "ipc_client_poll client None w = (Done (rc, fds), w1) \<Longrightarrow> 0 \<le> rc \<Longrightarrow>
     ipc_client_recv client (Some resp) w1 = (Done m, w2) \<Longrightarrow> complete_message m \<Longrightarrow>
     send_requests client (requests_for t (msg_command m) (payload_of m))
       (state_after t (msg_command m) (payload_of m)) w2 = (Done t1, w3) \<Longrightarrow>
     tool_rounds client (m\<lparr>msg_data := None\<rparr>) t1 w3 ms t' w' \<Longrightarrow>
     tool_rounds client resp t w (m # ms) t' w'"

lemma answered_state:
  assumes "send_requests client (requests_for t cmd d) (state_after t cmd d) w2 = (Done t1, w3)"
  shows "t1 = (state_after t cmd d)\<lparr>tm_seq := (seq_get ^^ length (requests_for t cmd d)) (tm_seq t)\<rparr>"
  using send_requests_state [OF assms] by simp

lemma answered_ok:
  assumes "send_requests client (requests_for t cmd d) (state_after t cmd d) w2 = (Done t1, w3)" "tool_ok t"
  shows "tool_ok t1"
  using answered_state [OF assms(1)] state_after_ok [OF assms(2)] by simp

lemma rounds_loop:
  "tool_rounds client resp t w ms t' w' \<Longrightarrow> tool_ok t \<Longrightarrow> tool_read_loop client resp t w = Some (Done t', w')"
proof (induction rule: tool_rounds.induct)
  case (answered w rc fds w1 resp m w2 t t1 w3 ms t' w')
  then have "tool_read_loop client (m\<lparr>msg_data := None\<rparr>) t1 w3 = Some (Done t', w')"
    by (blast intro: answered_ok)
  with answered show ?case by (subst tool_read_loop.simps) (simp add: handle_complete)
qed (subst tool_read_loop.simps, simp)+

lemma loop_rounds:
  assumes "tool_read_loop client resp t w = Some (Done t', w')" "tool_ok t"
  shows "\<exists>ms. tool_rounds client resp t w ms t' w'"
proof -
  let ?P = "\<lambda>client resp t w y. tool_ok t \<longrightarrow> (\<forall>t' w'. y = (Done t', w') \<longrightarrow> (\<exists>ms. tool_rounds client resp t w ms t' w'))"
  have "?P client resp t w (Done t', w')"
  proof (rule tool_read_loop.raw_induct [where P = ?P, OF _ assms(1)], intro impI allI)
    fix loop client resp t w y t' w'
    assume IH: "\<And>client resp t w y. loop client resp t w = Some y \<Longrightarrow> ?P client resp t w y"
      and body: "(case ipc_client_poll client None w of
        (Undef, w1) \<Rightarrow> Some (Undef, w1)
      | (Fail, w1) \<Rightarrow> loop client resp t w1
      | (Done (rc, fds), w1) \<Rightarrow>
          if rc < 0 then loop client resp t w1
          else
            (case ipc_client_recv client (Some resp) w1 of
               (Undef, w2) \<Rightarrow> Some (Undef, w2)
             | (Fail, w2) \<Rightarrow> Some (Done t, w2)
             | (Done resp', w2) \<Rightarrow>
                 (case tool_response_handle client resp' t w2 of
                    (Done t', w3) \<Rightarrow> loop client (resp'\<lparr>msg_data := None\<rparr>) t' w3
                  | (Fail, w3) \<Rightarrow> Some (Fail, w3) | (Undef, w3) \<Rightarrow> Some (Undef, w3)))) = Some y"
      and ok: "tool_ok t" and y: "y = (Done t', w')"
    obtain r1 w1 where p: "ipc_client_poll client None w = (r1, w1)" by fastforce
    obtain r2 w2 where q: "ipc_client_recv client (Some resp) w1 = (r2, w2)" by fastforce
    show "\<exists>ms. tool_rounds client resp t w ms t' w'"
    proof (cases "\<exists>rc fds. r1 = Done (rc, fds) \<and> 0 \<le> rc")
      case False
      with body p y have "loop client resp t w1 = Some y" by (auto split: outcome.splits if_splits)
      from IH [OF this] ok y obtain ms where "tool_rounds client resp t w1 ms t' w'" by blast
      with False p body y show ?thesis
        by (cases r1) (auto simp: not_le intro: tool_rounds.failed tool_rounds.nothing split: if_splits)
    next
      case True
      then obtain rc fds where r1: "r1 = Done (rc, fds)" "0 \<le> rc" by blast
      show ?thesis
      proof (cases r2)
        case Undef
        with body p q r1 y show ?thesis by simp
      next
        case Fail
        with body p q r1 y show ?thesis by (auto intro: tool_rounds.lost)
      next
        case (Done m)
        obtain r3 w3 where h: "tool_response_handle client m t w2 = (r3, w3)" by fastforce
        with body p q r1 y Done obtain t1 where r3: "r3 = Done t1" by (cases r3) auto
        with body p q r1 Done h have "loop client (m\<lparr>msg_data := None\<rparr>) t1 w3 = Some y" by simp
        from IH [OF this] have next_run: "tool_ok t1 \<Longrightarrow> \<exists>ms. tool_rounds client (m\<lparr>msg_data := None\<rparr>) t1 w3 ms t' w'"
          using y by blast
        have complete: "complete_message m"
        proof (rule ccontr)
          assume "\<not> complete_message m"
          from handle_incomplete [OF ok this, of client] h r3 show False by (simp add: undef_eq)
        qed
        with h r3 handle_complete [OF ok] have sends: "send_requests client (requests_for t (msg_command m) (payload_of m))
            (state_after t (msg_command m) (payload_of m)) w2 = (Done t1, w3)" by simp
        with next_run answered_ok [OF sends ok] show ?thesis
          using tool_rounds.answered [of client w rc fds w1 resp m w2 t t1 w3] p q r1 Done complete by blast
      qed
    qed
  qed
  with assms(2) show ?thesis by blast
qed

lemma rounds_conversation:
  "tool_rounds client resp t w ms t' w' \<Longrightarrow>
   t' = (snd (conversation t ms))\<lparr>tm_seq := (seq_get ^^ length (fst (conversation t ms))) (tm_seq t)\<rparr>"
proof (induction rule: tool_rounds.induct)
  case (answered w rc fds w1 resp m w2 t t1 w3 ms t' w')
  let ?rs = "requests_for t (msg_command m) (payload_of m)" and ?t = "state_after t (msg_command m) (payload_of m)"
  have t1: "t1 = ?t\<lparr>tm_seq := (seq_get ^^ length ?rs) (tm_seq t)\<rparr>" by (rule answered_state [OF answered(5)])
  from answered.IH show ?case
    by (simp add: t1 conversation_seq funpow_add add.commute [of "length ?rs"])
qed simp_all

lemma rounds_complete: "tool_rounds client resp t w ms t' w' \<Longrightarrow> list_all complete_message ms"
  by (induction rule: tool_rounds.induct) simp_all

section \<open>Calls and PINs\<close>

definition is_call :: "request \<Rightarrow> bool" where
  "is_call r = (fst r = IPC_CALL_OUTGOING)"

definition is_pin :: "request \<Rightarrow> bool" where
  "is_pin r = (fst r = IPC_SEC_PIN_STATUS)"

lemmas request_defs = mute_request_def clock_request_def volume_request_def path_request_def list_request_def
  normal_request_def ready_request_def

lemma calls_for:
  "filter is_call (requests_for t cmd d) =
     (if cmd = 0x0803 \<and> tm_call_done t = 0 then [call_request (tm_call_number t)] else [])"
  by (simp add: requests_for_def is_call_def request_defs pin_request_def call_request_def IPC_CALL_OUTGOING_def)

lemma pins_for:
  "filter is_pin (requests_for t cmd d) =
     (if cmd = 0x0501 \<and> hd d = 0x03 \<and> d ! 1 = 0x01 \<and> tm_sim_pin t \<noteq> [] then [pin_request (tm_sim_pin t)] else [])"
  by (simp add: requests_for_def is_pin_def request_defs pin_request_def call_request_def IPC_SEC_PIN_STATUS_def)

text \<open>The call is placed when the first message about the serving network comes, and never again.\<close>

lemma conversation_calls:
  "filter is_call (fst (conversation t ms)) =
     (if tm_call_done t = 0 \<and> (\<exists>m \<in> set ms. msg_command m = 0x0803) then [call_request (tm_call_number t)] else [])"
proof (induction ms arbitrary: t)
  case (Cons m ms)
  have "tm_call_done (state_after t (msg_command m) (payload_of m)) = (if msg_command m = 0x0803 then 1 else tm_call_done t)"
    by (simp add: state_after_def)
  with Cons [of "state_after t (msg_command m) (payload_of m)"] show ?case
    by (cases "msg_command m = 0x0803") (simp_all add: calls_for)
qed simp

lemma conversation_pins: "set (filter is_pin (fst (conversation t ms))) \<subseteq> {pin_request (tm_sim_pin t)}"
proof (induction ms arbitrary: t)
  case (Cons m ms)
  then show ?case
    using Cons [of "state_after t (msg_command m) (payload_of m)"] by (auto simp: pins_for)
qed simp

section \<open>Arguments\<close>

text \<open>An argument has no zero character. The options accept only strings that fit the arrays.\<close>

fun opt_text :: "tool_option \<Rightarrow> string" where
  "opt_text (Tool_pin s) = s"
| "opt_text (Tool_call s) = s"
| "opt_text opt = []"

lemma options_ok:
  "tool_options opts debug t = Inr (debug', t') \<Longrightarrow> tool_ok t \<Longrightarrow> \<forall>opt \<in> set opts. 0 \<notin> set (ascii (opt_text opt)) \<Longrightarrow>
   tool_ok t' \<and> tm_call_done t' = tm_call_done t \<and> tm_state t' = tm_state t"
proof (induction opts debug t rule: tool_options.induct)
  case (4 optarg opts debug t)
  then have "0 \<notin> set (ascii optarg)" by simp
  with 4 show ?case by (auto simp: tool_ok_def ascii_def split: if_splits)
next
  case (5 optarg opts debug t)
  then have "0 \<notin> set (ascii optarg)" by simp
  with 5 show ?case by (auto simp: tool_ok_def ascii_def split: if_splits)
qed auto

lemma tool0_ok: "tool_ok tool0"
  by (simp add: tool_ok_def tool0_def)

text \<open>When starting fails, \<open>main\<close> returns without destroying the client.\<close>

lemma failed_start_keeps_client:
  assumes "tool_modem_start client w = (Done (rc, client'), w1)" "rc < 0"
    and "tool_modem_stop client' w1 = (Done (), w2)"
  shows "tool_arguments client t (''start'' # rest) w = Some (Done (1, False), w2)"
  using assms by (simp add: strncmp_eq_iff ascii_def cstr_def bnd_def ret_eq)

section \<open>Properties\<close>

definition message :: "u16 \<Rightarrow> u8 list \<Rightarrow> ipc_message" where
  "message cmd d = zero_message\<lparr>msg_command := cmd, msg_data := Some d, msg_size := of_nat (length d)\<rparr>"

lemma message_fields [simp]: "msg_command (message cmd d) = cmd" "payload_of (message cmd d) = d"
  by (simp_all add: message_def payload_of_def zero_message_def)

text \<open>
  C21: from low power to a call. A tool that has a PIN and has not placed its call answers the
  messages of a modem that starts, reports the normal state, asks for the PIN, completes its
  initialisation and registers, with these requests in this order: the normal mode, the PIN, that
  SMS may come, and the call to the number given with what makes it audible; each request takes the
  next sequence number. Before the end of the initialisation the second message about SMS would be
  answered by nothing.
\<close>

theorem tool_brings_modem_up:
  assumes "tool_ok t" "tm_sim_pin t \<noteq> []" "tm_call_done t = 0" "length network = 8"
  shows "tool_handles client
      [message IPC_PWR_PHONE_PWR_UP [], message IPC_SMS_DEVICE_READY [], message IPC_PWR_PHONE_STATE [2, 0, 0, 0],
       message IPC_SMS_DEVICE_READY [], message IPC_SEC_PIN_STATUS [0x03, 0x01],
       message IPC_SEC_PIN_STATUS [0x82, 0], message IPC_SMS_DEVICE_READY [],
       message IPC_NET_SERVING_NETWORK network] t =
    send_requests client
      [normal_request, pin_request (tm_sim_pin t), ready_request, mute_request, call_request (tm_call_number t),
       mute_request, volume_request, path_request]
      (t\<lparr>tm_state := TOOL_STATE_SIM_OK, tm_out_call := 1, tm_call_done := 1\<rparr>)"
proof -
  let ?ms = "[message IPC_PWR_PHONE_PWR_UP [], message IPC_SMS_DEVICE_READY [], message IPC_PWR_PHONE_STATE [2, 0, 0, 0],
       message IPC_SMS_DEVICE_READY [], message IPC_SEC_PIN_STATUS [0x03, 0x01],
       message IPC_SEC_PIN_STATUS [0x82, 0], message IPC_SMS_DEVICE_READY [],
       message IPC_NET_SERVING_NETWORK network]"
  have "list_all complete_message ?ms" using assms(4) by (simp add: complete_message_def needs_def tool_commands)
  moreover have "conversation t ?ms = ([normal_request, pin_request (tm_sim_pin t), ready_request, mute_request,
       call_request (tm_call_number t), mute_request, volume_request, path_request],
      t\<lparr>tm_state := TOOL_STATE_SIM_OK, tm_out_call := 1, tm_call_done := 1\<rparr>)"
    using assms(2,3) by (simp add: requests_for_def state_after_def tool_commands get32_def tool_states
        IPC_GROUP_def drop_bit_eq_div)
  ultimately show ?thesis using handles_conversation [OF assms(1), of ?ms client] by simp
qed

text \<open>
  C11: the loop of the tool is the rounds of its specification: it ends, in a state and a world,
  just when polls that fail, messages that are complete and are answered as the specification
  says, and a failure to receive lead there; a message that is not complete is undefined.
\<close>

theorem tool_loop_is_rounds:
  assumes "tool_ok t"
  shows "(tool_read_loop client resp t w = Some (Done t', w') \<longleftrightarrow> (\<exists>ms. tool_rounds client resp t w ms t' w')) \<and>
    (\<not> complete_message m \<longrightarrow> tool_response_handle client m t w = (Undef, w))"
  using loop_rounds rounds_loop assms handle_incomplete [OF assms, of m client] by (auto simp: undef_eq)

text \<open>
  C10: whatever the client and the modem do, a run of the loop places at most one call, to
  the number that was given, and sends no PIN but the one given; at its end the call was
  placed just when it is noted as done.
\<close>

theorem tool_places_one_call:
  assumes "tool_read_loop client zero_message t w = Some (Done t', w')" "tool_ok t" "tm_call_done t = 0"
  shows "\<exists>ms. tool_rounds client zero_message t w ms t' w' \<and>
    filter is_call (fst (conversation t ms)) = (if tm_call_done t' = 0 then [] else [call_request (tm_call_number t)]) \<and>
    set (filter is_pin (fst (conversation t ms))) \<subseteq> {pin_request (tm_sim_pin t)}"
proof -
  obtain ms where ms: "tool_rounds client zero_message t w ms t' w'" using loop_rounds [OF assms(1,2)] by blast
  have done_iff: "tm_call_done (snd (conversation t ms)) =
      (if tm_call_done t = 0 \<and> (\<exists>m \<in> set ms. msg_command m = 0x0803) then 1 else tm_call_done t)"
    if "tm_call_done t \<in> {0, 1}" for t
    using that
  proof (induction ms arbitrary: t)
    case (Cons m ms)
    have "tm_call_done (state_after t (msg_command m) (payload_of m)) = (if msg_command m = 0x0803 then 1 else tm_call_done t)"
      by (simp add: state_after_def)
    with Cons.IH [of "state_after t (msg_command m) (payload_of m)"] Cons.prems show ?case
      by (cases "msg_command m = 0x0803") auto
  qed simp
  have "tm_call_done t' = tm_call_done (snd (conversation t ms))"
    using rounds_conversation [OF ms] by simp
  with done_iff [of t] assms(3) conversation_calls [of t ms]
  have "filter is_call (fst (conversation t ms)) = (if tm_call_done t' = 0 then [] else [call_request (tm_call_number t)])"
    by simp
  with ms conversation_pins show ?thesis by blast
qed

text \<open>
  Without the option \<open>--call\<close> the tool places a call all the same, to a number of length 0; and
  after the modem has reported the low power mode, which it does with 1 and not with the 0 the tool
  compares with, it does not ask for the normal mode.
\<close>

theorem tool_calls_nobody:
  assumes "tool_options opts False tool0 = Inr (debug, t)" "\<forall>opt \<in> set opts. 0 \<notin> set (ascii (opt_text opt))"
    and "\<forall>s. Tool_call s \<notin> set opts" "length network = 8"
  shows "tool_handles client [message IPC_NET_SERVING_NETWORK network] t =
      send_requests client [mute_request, call_request [], mute_request, volume_request, path_request]
        (t\<lparr>tm_out_call := 1, tm_call_done := 1\<rparr>) \<and>
    tool_handles client [message IPC_PWR_PHONE_STATE [1, 0, 0, 0], message IPC_SMS_DEVICE_READY []] t =
      ret (t\<lparr>tm_state := 1\<rparr>)"
proof -
  have "tool_options opts d t1 = Inr (debug, t) \<Longrightarrow> tm_call_number t = tm_call_number t1" for d t1
    using assms(3) by (induction opts d t1 rule: tool_options.induct) (auto split: if_splits)
  from this [OF assms(1)] have number: "tm_call_number t = []" by (simp add: tool0_def)
  have ok: "tool_ok t" "tm_call_done t = 0"
    using options_ok [OF assms(1) tool0_ok assms(2)] by (simp_all add: tool0_def)
  have "list_all complete_message [message IPC_NET_SERVING_NETWORK network]"
    "list_all complete_message [message IPC_PWR_PHONE_STATE [1, 0, 0, 0], message IPC_SMS_DEVICE_READY []]"
    using assms(4) by (simp_all add: complete_message_def needs_def tool_commands)
  from this [THEN handles_conversation [OF ok(1), of _ client]] show ?thesis
    using ok(2) number by (simp add: requests_for_def state_after_def tool_commands get32_def IPC_GROUP_def drop_bit_eq_div
        del: send_requests.simps(2) tool_handles.simps)
qed

section \<open>Concrete runs\<close>

text \<open>A modem that reports the serving network until \<open>w_ioc\<close> has a negative answer.\<close>

definition demo_network :: ipc_message where
  "demo_network = message IPC_NET_SERVING_NETWORK [0, 0, 0, 0x32, 0x30, 0x38, 0x30, 0x31]"

definition demo_calling :: ipc_client where
  "demo_calling = zero_client\<lparr>cl_handlers := Some (zero_handlers\<lparr>h_poll := Some (\<lambda>d fds. ret (1, fds))\<rparr>),
     cl_ops := Some \<lparr>op_boot = None, op_send = Some (\<lambda>env m. ret ()),
       op_recv = Some (\<lambda>env m w. (if shd (w_ioc w) < 0 then Fail else Done demo_network, w\<lparr>w_ioc := stl (w_ioc w)\<rparr>))\<rparr>\<rparr>"

definition demo_calls :: world where
  "demo_calls = demo_world\<lparr>w_ioc := 0 ## 0 ## sconst (-1)\<rparr>"

definition demo_tool :: tool where
  "demo_tool = tool0\<lparr>tm_call_number := [0x30, 0x31], tm_sim_pin := [0x31, 0x32, 0x33, 0x34]\<rparr>"

lemma demo_calling_sends: "send_requests (Some demo_calling) rs t w = (Done (t\<lparr>tm_seq := (seq_get ^^ length rs) (tm_seq t)\<rparr>), w)"
proof (induction rs arbitrary: t)
  case (Cons r rs)
  obtain c ty d s where "r = (c, ty, d, s)" by (cases r)
  with Cons show ?case
    by (simp add: send_next_def bnd_def try_rc_def ipc_client_send_def client_op_def demo_calling_def ret_eq
        funpow_Suc_right del: funpow.simps)
qed (simp add: ret_eq)

lemma demo_calling_polls: "ipc_client_poll (Some demo_calling) None w = (Done (1, None), w)"
  by (simp add: demo_calling_def ipc_client_poll_def client_handler_def zero_handlers_def zero_client_def ret_eq)

lemma demo_calling_receives:
  "ipc_client_recv (Some demo_calling) (Some m) w =
     (if shd (w_ioc w) < 0 then Fail else Done demo_network, w\<lparr>w_ioc := stl (w_ioc w)\<rparr>)"
  by (simp add: demo_calling_def ipc_client_recv_def client_op_def zero_client_def)

lemma demo_tool_ok: "tool_ok demo_tool" "tm_call_done demo_tool = 0" "tm_sim_pin demo_tool = [0x31, 0x32, 0x33, 0x34]"
  "tm_call_number demo_tool = [0x30, 0x31]"
  by (simp_all add: demo_tool_def tool_ok_def tool0_def)

lemma demo_network_complete: "complete_message demo_network" "msg_command demo_network = 0x0803"
  by (simp_all add: demo_network_def complete_message_def needs_def IPC_NET_SERVING_NETWORK_def)

lemma demo_calls_run:
  "\<exists>t' w'. tm_call_done t' = 1 \<and> tool_rounds (Some demo_calling) zero_message demo_tool demo_calls [demo_network, demo_network] t' w'"
proof -
  let ?r = "\<lambda>t. requests_for t (msg_command demo_network) (payload_of demo_network)"
  let ?s = "\<lambda>t. state_after t (msg_command demo_network) (payload_of demo_network)"
  let ?next = "\<lambda>t. (?s t)\<lparr>tm_seq := (seq_get ^^ length (?r t)) (tm_seq (?s t))\<rparr>"
  let ?w1 = "demo_calls\<lparr>w_ioc := 0 ## sconst (-1)\<rparr>" and ?w2 = "demo_calls\<lparr>w_ioc := sconst (-1)\<rparr>"
  have recv: "ipc_client_recv (Some demo_calling) (Some m) demo_calls = (Done demo_network, ?w1)"
    "ipc_client_recv (Some demo_calling) (Some m) ?w1 = (Done demo_network, ?w2)"
    "ipc_client_recv (Some demo_calling) (Some m) ?w2 = (Fail, ?w2)" for m
    by (simp_all add: demo_calling_receives demo_calls_def)
  have "tool_rounds (Some demo_calling) zero_message demo_tool demo_calls [demo_network, demo_network] (?next (?next demo_tool)) ?w2"
    using tool_rounds.answered [OF demo_calling_polls _ recv(1) demo_network_complete(1) demo_calling_sends
        tool_rounds.answered [OF demo_calling_polls _ recv(2) demo_network_complete(1) demo_calling_sends
          tool_rounds.lost [OF demo_calling_polls _ recv(3)]]] by simp
  moreover have "tm_call_done (?next (?next demo_tool)) = 1"
    by (simp add: state_after_def demo_network_complete(2))
  ultimately show ?thesis by blast
qed

theorem tool_brings_modem_up_witness:
  "tool_handles (Some demo_calling)
      [message 0x0101 [], message 0x0407 [], message 0x0107 [2, 0, 0, 0], message 0x0407 [], message 0x0501 [0x03, 0x01],
       message 0x0501 [0x82, 0], message 0x0407 [], message 0x0803 [0, 0, 0, 0x32, 0x30, 0x38, 0x30, 0x31]] demo_tool =
    send_requests (Some demo_calling)
      [normal_request, pin_request [0x31, 0x32, 0x33, 0x34], ready_request, mute_request, call_request [0x30, 0x31],
       mute_request, volume_request, path_request]
      (demo_tool\<lparr>tm_state := 4, tm_out_call := 1, tm_call_done := 1\<rparr>)"
  using tool_brings_modem_up [of demo_tool "[0, 0, 0, 0x32, 0x30, 0x38, 0x30, 0x31]" "Some demo_calling"] demo_tool_ok
  by (simp add: tool_commands tool_states del: send_requests.simps tool_handles.simps)

theorem tool_loop_is_rounds_witness:
  "(\<exists>t' w'. tool_read_loop (Some demo_calling) zero_message demo_tool demo_calls = Some (Done t', w')) \<and>
   tool_response_handle (Some demo_calling) (message 0x0803 []) demo_tool demo_calls = (Undef, demo_calls)"
proof -
  obtain t' w' where "tool_rounds (Some demo_calling) zero_message demo_tool demo_calls [demo_network, demo_network] t' w'"
    using demo_calls_run by blast
  moreover have "\<not> complete_message (message 0x0803 [])" by (simp add: complete_message_def needs_def)
  ultimately show ?thesis
    using tool_loop_is_rounds [OF demo_tool_ok(1), where client = "Some demo_calling" and resp = zero_message and
        w = demo_calls and t' = t' and w' = w' and m = "message 0x0803 []"]
    by blast
qed

theorem tool_places_one_call_witness:
  "\<exists>t' w' ms. tool_read_loop (Some demo_calling) zero_message demo_tool demo_calls = Some (Done t', w') \<and>
     filter is_call (fst (conversation demo_tool ms)) = [call_request [0x30, 0x31]]"
proof -
  obtain t' w' where run: "tm_call_done t' = 1"
    "tool_rounds (Some demo_calling) zero_message demo_tool demo_calls [demo_network, demo_network] t' w'"
    using demo_calls_run by blast
  from rounds_loop [OF run(2) demo_tool_ok(1)]
  have loop: "tool_read_loop (Some demo_calling) zero_message demo_tool demo_calls = Some (Done t', w')" .
  from tool_places_one_call [OF loop demo_tool_ok(1,2)] loop run(1) demo_tool_ok(4) show ?thesis by auto
qed

theorem tool_calls_nobody_witness:
  "\<exists>t. tool_options [Tool_debug] False tool0 = Inr (True, t) \<and>
    tool_handles (Some demo_calling) [message 0x0803 [0, 0, 0, 0x32, 0x30, 0x38, 0x30, 0x31]] t =
      send_requests (Some demo_calling) [mute_request, call_request [], mute_request, volume_request, path_request]
        (t\<lparr>tm_out_call := 1, tm_call_done := 1\<rparr>) \<and>
    tool_handles (Some demo_calling) [message 0x0107 [1, 0, 0, 0], message 0x0407 []] t = ret (t\<lparr>tm_state := 1\<rparr>)"
  using tool_calls_nobody [of "[Tool_debug]" True tool0 "[0, 0, 0, 0x32, 0x30, 0x38, 0x30, 0x31]" "Some demo_calling"]
  by (simp add: tool_commands ascii_def del: send_requests.simps tool_handles.simps)

end
