(* ===== verification/Table.thy ===== *)
theory Table
  imports Herolte IpcModem
begin

text \<open>
  devices/ipc_devices.c: the table of the devices, and what a client created with it is.

  \<open>md5\<close> is the hash function of the library OpenSSL, and \<open>errno\<close> the error number after a call that
  failed.
\<close>

section \<open>The table\<close>

definition ipc_devices :: "(u8 list \<Rightarrow> u8 list) \<Rightarrow> (world \<Rightarrow> int) \<Rightarrow> ipc_device_desc list" where
  "ipc_devices md5 errno =
    [\<lparr>dev_name = Some ''i9300'', dev_board_name = Some ''smdk4x12'', dev_kernel_version = None,
      dev_fmt_ops = Some (i9300_fmt_ops md5), dev_rfs_ops = Some i9300_rfs_ops, dev_handlers = Some i9300_handlers,
      dev_gprs_specs = Some i9300_gprs_specs, dev_nv_data_specs = Some i9300_nv_data_specs\<rparr>,
     \<lparr>dev_name = Some ''n7100'', dev_board_name = Some ''smdk4x12'', dev_kernel_version = None,
      dev_fmt_ops = Some (n7100_fmt_ops md5), dev_rfs_ops = Some n7100_rfs_ops, dev_handlers = Some n7100_handlers,
      dev_gprs_specs = Some n7100_gprs_specs, dev_nv_data_specs = Some n7100_nv_data_specs\<rparr>,
     \<lparr>dev_name = Some ''n5100'', dev_board_name = Some ''smdk4x12'', dev_kernel_version = None,
      dev_fmt_ops = Some (n5100_fmt_ops md5), dev_rfs_ops = Some n5100_rfs_ops, dev_handlers = Some n5100_handlers,
      dev_gprs_specs = Some n5100_gprs_specs, dev_nv_data_specs = Some n5100_nv_data_specs\<rparr>,
     \<lparr>dev_name = Some ''herolte'', dev_board_name = None, dev_kernel_version = None,
      dev_fmt_ops = Some (herolte_fmt_ops errno), dev_rfs_ops = Some herolte_rfs_ops,
      dev_handlers = Some herolte_handlers, dev_gprs_specs = Some herolte_gprs_specs,
      dev_nv_data_specs = Some herolte_nv_data_specs\<rparr>,
     \<lparr>dev_name = None, dev_board_name = Some ''samsung exynos (flattened device tree)'', dev_kernel_version = None,
      dev_fmt_ops = Some (generic_fmt_ops md5), dev_rfs_ops = Some generic_rfs_ops,
      dev_handlers = Some generic_handlers, dev_gprs_specs = Some generic_gprs_specs,
      dev_nv_data_specs = Some generic_nv_data_specs\<rparr>]"

definition ipc_devices_count :: "(u8 list \<Rightarrow> u8 list) \<Rightarrow> (world \<Rightarrow> int) \<Rightarrow> nat" where
  "ipc_devices_count md5 errno = length (ipc_devices md5 errno)"

section \<open>A created client\<close>

text \<open>The device is not detected: whatever the phone, the client is one of the i9300.\<close>

definition i9300_client :: "(u8 list \<Rightarrow> u8 list) \<Rightarrow> int \<Rightarrow> ipc_client" where
  "i9300_client md5 type = zero_client\<lparr>cl_type := type, cl_handlers := Some i9300_handlers,
     cl_gprs_specs := Some i9300_gprs_specs, cl_nv_data_specs := Some i9300_nv_data_specs,
     cl_ops := Some (if type = IPC_CLIENT_TYPE_RFS then i9300_rfs_ops else i9300_fmt_ops md5)\<rparr>"

lemma created_client:
  "ipc_client_create (ipc_devices md5 errno) type =
     (if type = IPC_CLIENT_TYPE_FMT \<or> type = IPC_CLIENT_TYPE_RFS then Done (i9300_client md5 type)
      else if type = IPC_CLIENT_TYPE_DUMMY then ipc_dummy_client_create else Fail)"
  by (auto simp: ipc_client_create_def ipc_transport_client_create_def ipc_devices_def ipc_device_detect_def
      client_types i9300_client_def Let_def zero_client_def)

lemma i9300_client_configured:
  assumes "ipc_client_data_create (Some (i9300_client md5 type)) w = (Done c, w')"
  shows "nv_configured (env_of c) ''/efs/nv_data.bin'' ''/efs/nv_data.bin.md5'' ''/efs/.nv_data.bak''
      ''/efs/.nv_data.bak.md5'' (ascii ''Samsung_Android_RIL'') 0x200000 0x1000"
    and "cl_ops c = Some (if type = IPC_CLIENT_TYPE_RFS then i9300_rfs_ops else i9300_fmt_ops md5)"
    and "w_trace w' = w_trace w" "w_files w' = w_files w"
  using assms
  by (auto simp: ipc_client_data_create_def i9300_client_def zero_client_def i9300_handlers_def i9300_data_create_def
      io_Done heap_calloc_def env_of_def client_env.truncate_def nv_configured_def nv_accessors i9300_nv_data_specs_def)

section \<open>Properties\<close>

text \<open>
  C3: from the table to the modem. On every device, a client created with the table that
  creates its data and boots with success has sent the modem exactly the stages of the i9300, from
  the partition of that phone's modem image, with the NV data of \<open>/efs\<close>, which then matches the
  digest stored beside it; a client of another type than FMT, RFS and DUMMY is refused, and only an
  FMT client can boot.
\<close>

theorem created_client_boots_i9300:
  assumes "ipc_client_create (ipc_devices md5 errno) type = Done c" and "type \<noteq> IPC_CLIENT_TYPE_DUMMY"
    and "ipc_client_data_create (Some c) w = (Done c1, w1)" and "ipc_client_boot (Some c1) w1 = (Done u, w2)"
  shows "type = IPC_CLIENT_TYPE_FMT \<and> (\<exists>fd nv out. EvOpen ''/dev/umts_boot0'' fd \<in> set (drop (length (w_trace w)) (w_trace w2)) \<and>
    sent fd w2 = sent fd w @ out \<and>
    boot_bytes i9300_image (take 0x1000000 (file_of w ''/dev/mmcblk0p7'')) nv out \<and>
    w_files w2 ''/efs/nv_data.bin'' = Some nv \<and>
    nv_valid md5 (ascii ''Samsung_Android_RIL'') 0x200000 (w_files w2) ''/efs/nv_data.bin'' ''/efs/nv_data.bin.md5'')"
proof -
  from assms(1,2) have c: "c = i9300_client md5 type" and ty: "type = IPC_CLIENT_TYPE_FMT \<or> type = IPC_CLIENT_TYPE_RFS"
    by (auto simp: created_client split: if_splits)
  note created = i9300_client_configured [OF assms(3) [unfolded c]]
  have "op_boot i9300_rfs_ops = None" by (simp add: i9300_rfs_ops_def)
  with assms(4) created(2) ty have fmt: "type = IPC_CLIENT_TYPE_FMT"
    by (auto simp: ipc_client_boot_def client_op_def fail_eq split: if_splits)
  with assms(4) created(2) have "i9300_boot md5 (Some (env_of c1)) w1 = (Done u, w2)"
    by (simp add: ipc_client_boot_def client_op_def i9300_fmt_ops_def client_types)
  moreover have "(i9300_boot, i9300_image) \<in> boot_devices" by (simp add: boot_devices_def)
  ultimately show ?thesis
    using boot_device_loads [of i9300_boot i9300_image, OF _ created(1), of md5 w1 u w2] fmt
    by (simp add: i9300_image_def file_of_def created(3,4) sent_def)
qed

text \<open>The files of an i9300 with an empty image and cleared NV data.\<close>

definition demo_i9300 :: world where
  "demo_i9300 = demo_boot_world\<lparr>w_files := (w_files demo_boot_world)(
     ''/efs/nv_data.bin'' \<mapsto> calloc 0x200000,
     ''/efs/nv_data.bin.md5'' \<mapsto> nv_digest demo_md5 (ascii ''Samsung_Android_RIL'') (calloc 0x200000)),
     w_next := 0, w_heap := (\<lambda>a. None)\<rparr>"

lemma demo_i9300_boots:
  assumes "nv_configured c ''/efs/nv_data.bin'' ''/efs/nv_data.bin.md5'' ''/efs/.nv_data.bak''
      ''/efs/.nv_data.bak.md5'' (ascii ''Samsung_Android_RIL'') 0x200000 0x1000"
    and w: "w = demo_i9300\<lparr>w_heap := h, w_next := n\<rparr>"
  shows "\<exists>w'. i9300_boot demo_md5 (Some c) w = (Done (), w')"
proof -
  have "boot_ok demo_md5 (ascii ''Samsung_Android_RIL'') 0x200000 ''/efs/nv_data.bin'' ''/efs/nv_data.bin.md5'' w"
    by (auto simp: w boot_ok_def host_ok_def willing_def boot_files_def demo_boot_world_def demo_i9300_def ehci_def nv_valid_def)
  moreover have "bi_size i9300_image \<le> length (file_of w (bi_device i9300_image))"
    by (simp add: w demo_i9300_def demo_boot_world_def i9300_image_def file_of_def)
  ultimately have "\<exists>w'. i9300_boot demo_md5 (Some c) w = (Done (), w') \<and> w_rd w' = sconst None"
    using boot_device_completes [OF _ assms(1) _ _ _ _ _ demo_answers_ok, of i9300_boot i9300_image demo_md5 w "sconst None"]
    by (simp add: boot_devices_def ehci_def ohci_def w demo_i9300_def demo_boot_world_def)
  then show ?thesis by blast
qed

theorem created_client_boots_i9300_witness:
  "\<exists>c c1 w1 w2 fd nv out. ipc_client_create (ipc_devices demo_md5 (\<lambda>w. 0)) IPC_CLIENT_TYPE_FMT = Done c \<and>
     ipc_client_data_create (Some c) demo_i9300 = (Done c1, w1) \<and> ipc_client_boot (Some c1) w1 = (Done (), w2) \<and>
     EvOpen ''/dev/umts_boot0'' fd \<in> set (w_trace w2) \<and> sent fd w2 = out \<and>
     boot_bytes i9300_image (calloc 0x1000000) nv out"
proof -
  let ?c = "i9300_client demo_md5 IPC_CLIENT_TYPE_FMT"
  have create: "ipc_client_create (ipc_devices demo_md5 (\<lambda>w. 0)) IPC_CLIENT_TYPE_FMT = Done ?c"
    by (simp add: created_client)
  obtain c1 h n where data: "ipc_client_data_create (Some ?c) demo_i9300 = (Done c1, demo_i9300\<lparr>w_heap := h, w_next := n\<rparr>)"
    by (auto simp: ipc_client_data_create_def i9300_client_def zero_client_def i9300_handlers_def i9300_data_create_def
        bnd_def heap_calloc_def ret_eq)
  note created = i9300_client_configured [OF data]
  obtain w2 where "i9300_boot demo_md5 (Some (env_of c1)) (demo_i9300\<lparr>w_heap := h, w_next := n\<rparr>) = (Done (), w2)"
    using demo_i9300_boots [OF created(1)] by blast
  then have boot: "ipc_client_boot (Some c1) (demo_i9300\<lparr>w_heap := h, w_next := n\<rparr>) = (Done (), w2)"
    by (simp add: ipc_client_boot_def client_op_def created(2) i9300_fmt_ops_def client_types)
  have t: "w_trace demo_i9300 = []" by (simp add: demo_i9300_def demo_boot_world_def)
  have m: "take 0x1000000 (file_of demo_i9300 ''/dev/mmcblk0p7'') = calloc 0x1000000"
    by (simp add: demo_i9300_def demo_boot_world_def file_of_def)
  have "IPC_CLIENT_TYPE_FMT \<noteq> IPC_CLIENT_TYPE_DUMMY" by (simp add: client_types)
  from created_client_boots_i9300 [OF create this data boot] obtain fd nv out where
    "EvOpen ''/dev/umts_boot0'' fd \<in> set (w_trace w2)" "sent fd w2 = out" "boot_bytes i9300_image (calloc 0x1000000) nv out"
    unfolding m by (auto simp: t sent_def)
  with create data boot show ?thesis by blast
qed

end
