(* ===== verification/Log.thy ===== *)
theory Log
  imports Client Strings
begin

text \<open>
  The logging of samsung-ipc/ipc.c and samsung-ipc/ipc_utils.c: \<open>ipc_client_log\<close>, the hexadecimal
  dump and the two functions that log a message. The result of a function that logs is the list of
  the lines it hands to the client's callback.

  A row of the dump is written into \<open>string[81]\<close>, and from there, with every percent sign doubled,
  into \<open>final[161]\<close>, which is then the format of a line.
\<close>

section \<open>Formats\<close>

text \<open>A format without arguments: \<open>%%\<close> is a percent sign, and any other conversion lacks its argument.\<close>

fun c_format :: "u8 list \<Rightarrow> u8 list outcome" where
  "c_format [] = Done []"
| "c_format [c] = (if c = 37 then Undef else Done [c])"
| "c_format (c # d # s) =
     (if c = 37 then (if d = 37 then obind (c_format s) (\<lambda>r. Done (37 # r)) else Undef)
      else obind (c_format (d # s)) (\<lambda>r. Done (c # r)))"

text \<open>The formatted text, cut to the buffer of 4096 bytes; nothing without a callback.\<close>

definition ipc_client_log :: "ipc_client option \<Rightarrow> u8 list outcome \<Rightarrow> u8 list list outcome" where
  "ipc_client_log client formatted =
     (case client of None \<Rightarrow> Done []
      | Some c \<Rightarrow>
          if cl_log_callback c = None then Done []
          else obind formatted (\<lambda>s. Done [take 4095 s]))"

section \<open>The dump\<close>

text \<open>\<open>%02X\<close> and \<open>[%04x]\<close>.\<close>

definition nibble_char :: "nat \<Rightarrow> u8" where
  "nibble_char n = (if n < 10 then of_nat (48 + n) else of_nat (55 + n))"

definition hex_byte :: "u8 \<Rightarrow> u8 list" where
  "hex_byte b = [nibble_char (unat b div 16), nibble_char (unat b mod 16)]"

definition offset_text :: "nat \<Rightarrow> u8 list" where
  "offset_text off = [91] @ ascii (hexpad 4 off) @ [93]"

text \<open>\<open>isascii (c) && isprint (c)\<close>.\<close>

definition shown :: "u8 \<Rightarrow> u8" where
  "shown c = (if 32 \<le> unat c \<and> unat c < 127 then c else 46)"

text \<open>
  The array \<open>string\<close> with the index of \<open>print\<close>: \<open>length\<close> is always what is left of the array. A
  character is stored with \<open>*print++ = c\<close>, a text with \<open>snprintf\<close>, which adds a zero byte.
\<close>

type_synonym cursor = "u8 list \<times> nat"

definition put :: "u8 \<Rightarrow> cursor \<Rightarrow> cursor outcome" where
  "put c cur = obind (poke (snd cur) [c] (fst cur)) (\<lambda>buf. Done (buf, snd cur + 1))"

primrec put_spaces :: "nat \<Rightarrow> cursor \<Rightarrow> cursor outcome" where
  "put_spaces 0 cur = Done cur"
| "put_spaces (Suc n) cur = obind (put 32 cur) (put_spaces n)"

definition put_text :: "u8 list \<Rightarrow> cursor \<Rightarrow> cursor outcome" where
  "put_text s cur =
     (if snd cur < length (fst cur) then
        obind (poke (snd cur) (take (length (fst cur) - snd cur - 1) s @ [0]) (fst cur)) (\<lambda>buf.
        Done (buf, snd cur + length s))
      else if snd cur = length (fst cur) then Done (fst cur, snd cur + length s)
      else Undef)"

text \<open>\<open>n\<close> columns are left in a group, and \<open>m\<close> groups in a row; the offset goes on while there is data.\<close>

fun hex_columns :: "nat \<Rightarrow> u8 list \<Rightarrow> nat \<Rightarrow> cursor \<Rightarrow> (nat \<times> cursor) outcome" where
  "hex_columns 0 data off cur = Done (off, cur)"
| "hex_columns (Suc n) data off cur =
     obind (if off < length data then put_text (hex_byte (data ! off)) cur else put_spaces 2 cur) (\<lambda>cur.
     obind (if n \<noteq> 0 then put 32 cur else Done cur)
       (hex_columns n data (if off < length data then off + 1 else off)))"

fun hex_groups :: "nat \<Rightarrow> u8 list \<Rightarrow> nat \<Rightarrow> cursor \<Rightarrow> (nat \<times> cursor) outcome" where
  "hex_groups 0 data off cur = Done (off, cur)"
| "hex_groups (Suc m) data off cur =
     obind (hex_columns 8 data off cur) (\<lambda>(off, cur).
     obind (if m \<noteq> 0 then put_spaces 2 cur else Done cur) (hex_groups m data off))"

fun ascii_columns :: "nat \<Rightarrow> u8 list \<Rightarrow> nat \<Rightarrow> cursor \<Rightarrow> (nat \<times> cursor) outcome" where
  "ascii_columns 0 data off cur = Done (off, cur)"
| "ascii_columns (Suc n) data off cur =
     (if off < length data
      then obind (put (shown (data ! off)) cur) (ascii_columns n data (off + 1))
      else ascii_columns n data off cur)"

fun ascii_groups :: "nat \<Rightarrow> u8 list \<Rightarrow> nat \<Rightarrow> cursor \<Rightarrow> (nat \<times> cursor) outcome" where
  "ascii_groups 0 data off cur = Done (off, cur)"
| "ascii_groups (Suc m) data off cur =
     obind (ascii_columns 8 data off cur) (\<lambda>(off, cur).
     obind (if m \<noteq> 0 \<and> off < length data then put 32 cur else Done cur) (ascii_groups m data off))"

text \<open>One row: the offset behind it and the array. The spacers are (81 - 1 - 6 - 48 - 17) / 3 wide.\<close>

definition dump_row :: "u8 list \<Rightarrow> nat \<Rightarrow> u8 list \<Rightarrow> (nat \<times> u8 list) outcome" where
  "dump_row data off string =
     obind (put_text (offset_text off) (string, 0)) (\<lambda>cur.
     obind (put_spaces 3 cur) (\<lambda>cur.
     obind (hex_groups 2 data off cur) (\<lambda>(off', cur).
     obind (put_spaces 3 cur) (\<lambda>cur.
     obind (ascii_groups 2 data (off' - (off' - off)) cur) (\<lambda>(off', cur).
     obind (poke (snd cur) [0] (fst cur)) (\<lambda>string. Done (off', string)))))))"

text \<open>The whole array is copied, and each percent sign twice.\<close>

fun escape_loop :: "u8 list \<Rightarrow> nat \<Rightarrow> u8 list \<Rightarrow> u8 list outcome" where
  "escape_loop [] j final = Done final"
| "escape_loop (c # string) j final =
     (if c = 37 then
        obind (poke j [c] final) (\<lambda>final. obind (poke (j + 1) [c] final) (escape_loop string (j + 2)))
      else obind (poke j [c] final) (escape_loop string (j + 1)))"

text \<open>
  The loop over the rows; a row always moves the offset on, so that the loop ends when no row can.
\<close>

function dump_rows :: "ipc_client option \<Rightarrow> u8 list \<Rightarrow> nat \<Rightarrow> u8 list \<Rightarrow> u8 list \<Rightarrow> u8 list list outcome" where
  "dump_rows client data off string final =
     (if off < length data then
        (case dump_row data off string of
           Done (off', string') \<Rightarrow>
             if off < off' then
               obind (escape_loop string' 0 final) (\<lambda>final'.
               obind (ipc_client_log client (c_format (cstr final'))) (\<lambda>l.
               obind (dump_rows client data off' string' final') (\<lambda>ls. Done (l @ ls))))
             else Undef
         | _ \<Rightarrow> Undef)
      else Done [])"
  by pat_completeness auto
termination
  by (relation "measure (\<lambda>(client, data, off, string, final). length data - off)") auto

declare dump_rows.simps [simp del]

text \<open>The pointer and its size are one region. With \<open>Fail\<close>, nothing was logged.\<close>

definition ipc_data_dump :: "ipc_client option \<Rightarrow> u8 list option \<Rightarrow> u8 list list outcome" where
  "ipc_data_dump client data =
     (case data of None \<Rightarrow> Fail
      | Some d \<Rightarrow> if d = [] then Fail else dump_rows client d 0 (calloc 81) (calloc 161))"

section \<open>Logging a message\<close>

text \<open>A line without percent signs of its own but for the arguments, which are formatted already.\<close>

definition log_line :: "ipc_client option \<Rightarrow> u8 list \<Rightarrow> u8 list list outcome" where
  "log_line client s = ipc_client_log client (Done s)"

definition frame_line :: "u8 list" where
  "frame_line = replicate 80 61"

definition title_line :: "string \<Rightarrow> u8 list" where
  "title_line kind = replicate 33 61 @ ascii ('' IPC '' @ kind @ '' data '') @ replicate 33 61"

text \<open>With \<open>DEBUG\<close> the first 256 bytes are dumped; the code of the dump is ignored.\<close>

definition log_data :: "bool \<Rightarrow> ipc_client option \<Rightarrow> string \<Rightarrow> ipc_message \<Rightarrow> u8 list list outcome" where
  "log_data debug client kind message =
     (if debug \<and> msg_size message > 0 then
        obind (log_line client (title_line kind)) (\<lambda>l1.
        obind (case msg_data message of None \<Rightarrow> Done None
               | Some d \<Rightarrow> obind (peek 0 (if msg_size message > 0x100 then 0x100 else unat (msg_size message)) d)
                   (\<lambda>bs. Done (Some bs))) (\<lambda>region.
        obind (case ipc_data_dump client region of Fail \<Rightarrow> Done [] | r \<Rightarrow> r) (\<lambda>l2.
        obind (log_line client frame_line) (\<lambda>l3. Done (l1 @ l2 @ l3)))))
      else Done [])"

definition size_text :: "u32 \<Rightarrow> u8 list" where
  "size_text n = print_int (sint n)"

definition ipc_client_log_send ::
  "bool \<Rightarrow> ipc_client option \<Rightarrow> ipc_message option \<Rightarrow> u8 list option \<Rightarrow> u8 list list outcome" where
  "ipc_client_log_send debug client message prefix =
     (case (client, message, prefix) of
        (Some c, Some m, Some p) \<Rightarrow>
          if cl_type c = IPC_CLIENT_TYPE_FMT then
            obind (log_line client [10]) (\<lambda>l1.
            obind (log_line client (cstr p @ ascii '': Sent FMT message'')) (\<lambda>l2.
            obind (log_line client (cstr p @ ascii ('': Message: mseq=0x'' @ hexpad 2 (unat (msg_mseq m)) @
              '', command='' @ ipc_command_string (msg_command m) @ '', type='' @
              ipc_request_type_string (msg_type m) @ '', size='') @ size_text (msg_size m))) (\<lambda>l3.
            obind (log_data debug client ''FMT'' m) (\<lambda>l4. Done (l1 @ l2 @ l3 @ l4)))))
          else if cl_type c = IPC_CLIENT_TYPE_RFS then
            obind (log_line client [10]) (\<lambda>l1.
            obind (log_line client (cstr p @ ascii '': Sent RFS message'')) (\<lambda>l2.
            obind (log_line client (cstr p @ ascii ('': Message: mseq=0x'' @ hexpad 2 (unat (msg_mseq m)) @
              '', command='' @ ipc_command_string (msg_command m) @ '', size='') @ size_text (msg_size m))) (\<lambda>l3.
            obind (log_data debug client ''RFS'' m) (\<lambda>l4. Done (l1 @ l2 @ l3 @ l4)))))
          else Done []
      | _ \<Rightarrow> Done [])"

definition ipc_client_log_recv ::
  "bool \<Rightarrow> ipc_client option \<Rightarrow> ipc_message option \<Rightarrow> u8 list option \<Rightarrow> u8 list list outcome" where
  "ipc_client_log_recv debug client message prefix =
     (case (client, message, prefix) of
        (Some c, Some m, Some p) \<Rightarrow>
          if cl_type c = IPC_CLIENT_TYPE_FMT then
            obind (log_line client [10]) (\<lambda>l1.
            obind (log_line client (cstr p @ ascii '': Received FMT message'')) (\<lambda>l2.
            obind (log_line client (cstr p @ ascii ('': Message: aseq=0x'' @ hexpad 2 (unat (msg_aseq m)) @
              '', command='' @ ipc_command_string (msg_command m) @ '', type='' @
              ipc_response_type_string (msg_type m) @ '', size='') @ size_text (msg_size m))) (\<lambda>l3.
            obind (log_data debug client ''FMT'' m) (\<lambda>l4. Done (l1 @ l2 @ l3 @ l4)))))
          else if cl_type c = IPC_CLIENT_TYPE_RFS then
            obind (log_line client [10]) (\<lambda>l1.
            obind (log_line client (cstr p @ ascii '': Received RFS message'')) (\<lambda>l2.
            obind (log_line client (cstr p @ ascii ('': Message: aseq=0x'' @ hexpad 2 (unat (msg_aseq m)) @
              '', command='' @ ipc_command_string (msg_command m) @ '', size='') @ size_text (msg_size m))) (\<lambda>l3.
            obind (log_data debug client ''RFS'' m) (\<lambda>l4. Done (l1 @ l2 @ l3 @ l4)))))
          else Done []
      | _ \<Rightarrow> Done [])"

section \<open>What a row is\<close>

text \<open>The specification: the offset, sixteen cells in two groups, and the characters of the bytes.\<close>

definition cell :: "u8 list \<Rightarrow> nat \<Rightarrow> u8 list" where
  "cell data k = (if k < length data then hex_byte (data ! k) else [32, 32])"

fun spaced :: "u8 list list \<Rightarrow> u8 list" where
  "spaced [] = []"
| "spaced [c] = c"
| "spaced (c # d # cs) = c @ [32] @ spaced (d # cs)"

definition row_text :: "u8 list \<Rightarrow> nat \<Rightarrow> u8 list" where
  "row_text data off =
     offset_text off @ replicate 3 32 @
     spaced (map (cell data) [off..<off + 8]) @ replicate 2 32 @ spaced (map (cell data) [off + 8..<off + 16]) @
     replicate 3 32 @
     map shown (take 8 (drop off data)) @ (if off + 8 < length data then [32] else []) @
     map shown (take 8 (drop (off + 8) data))"

text \<open>A cursor behind a text: the array starts with it, has its size, and its last byte is zero.\<close>

definition wrote :: "cursor \<Rightarrow> u8 list \<Rightarrow> bool" where
  "wrote cur s \<longleftrightarrow> length (fst cur) = 81 \<and> snd cur = length s \<and> length s \<le> 80 \<and> take (length s) (fst cur) = s \<and>
     fst cur ! 80 = 0"

lemma wrote_put:
  assumes "wrote cur s" "length s < 80"
  shows "\<exists>cur'. put c cur = Done cur' \<and> wrote cur' (s @ [c])"
  using assms by (auto simp: put_def wrote_def poke_def nth_append min_def)

lemma wrote_put_spaces:
  "wrote cur s \<Longrightarrow> length s + n \<le> 80 \<Longrightarrow> \<exists>cur'. put_spaces n cur = Done cur' \<and> wrote cur' (s @ replicate n 32)"
proof (induction n arbitrary: cur s)
  case (Suc n)
  from wrote_put [OF Suc.prems(1), of 32] Suc.prems(2) obtain cur1 where
    c: "put 32 cur = Done cur1" "wrote cur1 (s @ [32])" by auto
  from Suc.IH [OF c(2)] Suc.prems(2) c(1) show ?case by auto
qed simp

lemma wrote_put_text:
  assumes "wrote cur s" "length s + length t \<le> 80"
  shows "\<exists>cur'. put_text t cur = Done cur' \<and> wrote cur' (s @ t)"
proof -
  let ?b = "fst cur"
  have w: "length ?b = 81" "snd cur = length s" "take (length s) ?b = s" "?b ! 80 = 0"
    using assms(1) by (simp_all add: wrote_def)
  let ?b' = "take (length s) ?b @ (t @ [0]) @ drop (length s + length t + 1) ?b"
  have "put_text t cur = Done (?b', length s + length t)"
    using w assms(2) by (simp add: put_text_def poke_def)
  moreover have "?b' ! 80 = 0"
  proof (cases "length s + length t = 80")
    case True
    then have "80 - length s = length t" by simp
    then show ?thesis using w True by (simp add: nth_append)
  next
    case False
    have "\<not> 80 - length s < length t" using assms(2) by simp
    with assms(2) w False show ?thesis by (simp add: nth_append)
  qed
  ultimately show ?thesis using w assms(2) by (simp add: wrote_def)
qed

lemma length_hex_byte [simp]: "length (hex_byte b) = 2"
  by (simp add: hex_byte_def)

lemma length_cell [simp]: "length (cell data k) = 2"
  by (simp add: cell_def)

lemma length_spaced: "length (spaced (map (cell data) ks)) = 3 * length ks - 1"
proof (induction ks)
  case (Cons k ks)
  then show ?case by (cases ks) auto
qed simp

lemma spaced_Cons: "spaced (c # cs) = c @ (if cs = [] then [] else [32] @ spaced cs)"
  by (cases cs) simp_all

lemma hex_columns_writes:
  assumes "wrote cur s" "length s + 3 * n - 1 \<le> 80" "off = min k (length data)"
  shows "\<exists>cur'. hex_columns n data off cur = Done (min (k + n) (length data), cur') \<and>
    wrote cur' (s @ spaced (map (cell data) [k..<k + n]))"
  using assms
proof (induction n arbitrary: k s cur off)
  case (Suc n)
  have "\<exists>cur1. (if off < length data then put_text (hex_byte (data ! off)) cur else put_spaces 2 cur) = Done cur1 \<and>
      wrote cur1 (s @ cell data k)"
  proof (cases "k < length data")
    case True
    with Suc.prems wrote_put_text [OF Suc.prems(1), of "hex_byte (data ! k)"] show ?thesis
      by (simp add: cell_def min_def)
  next
    case False
    with Suc.prems wrote_put_spaces [OF Suc.prems(1), of 2] show ?thesis
      by (simp add: cell_def numeral_2_eq_2)
  qed
  then obtain cur1 where c1: "(if off < length data then put_text (hex_byte (data ! off)) cur else put_spaces 2 cur) = Done cur1"
    "wrote cur1 (s @ cell data k)" by blast
  have next_off: "(if off < length data then off + 1 else off) = min (Suc k) (length data)"
    using Suc.prems(3) by auto
  show ?case
  proof (cases n)
    case 0
    with c1 next_off show ?thesis by simp
  next
    case (Suc n')
    have "length (s @ cell data k) < 80" using Suc Suc.prems(2) by simp
    from wrote_put [OF c1(2) this, of 32] obtain cur2 where
      c2: "put 32 cur1 = Done cur2" "wrote cur2 (s @ cell data k @ [32])" by auto
    have "length (s @ cell data k @ [32]) + 3 * n - 1 \<le> 80" using Suc.prems(2) Suc by simp
    from Suc.IH [OF c2(2) this next_off] obtain cur3 where
      c3: "hex_columns n data (if off < length data then off + 1 else off) cur2 = Done (min (Suc k + n) (length data), cur3)"
      "wrote cur3 ((s @ cell data k @ [32]) @ spaced (map (cell data) [Suc k..<Suc k + n]))" by blast
    have "spaced (map (cell data) [k..<k + Suc n]) = cell data k @ [32] @ spaced (map (cell data) [Suc k..<Suc k + n])"
      using Suc by (simp add: upt_conv_Cons spaced_Cons del: upt_Suc)
    with c3(2) have "wrote cur3 (s @ spaced (map (cell data) [k..<k + Suc n]))" by (simp only: append_assoc)
    moreover have "hex_columns (Suc n) data off cur = Done (min (k + Suc n) (length data), cur3)"
      using c1(1) c2(1) c3(1) Suc by simp
    ultimately show ?thesis by blast
  qed
qed simp

lemma hex_groups_writes:
  assumes "wrote cur s" "length s \<le> 32" "off \<le> length data"
  shows "\<exists>cur'. hex_groups 2 data off cur = Done (min (off + 16) (length data), cur') \<and>
    wrote cur' (s @ spaced (map (cell data) [off..<off + 8]) @ replicate 2 32 @ spaced (map (cell data) [off + 8..<off + 16]))"
proof -
  let ?t1 = "spaced (map (cell data) [off..<off + 8])" and ?t2 = "spaced (map (cell data) [off + 8..<off + 8 + 8])"
  have len: "length ?t1 = 23" "length ?t2 = 23" by (simp_all add: length_spaced)
  from hex_columns_writes [OF assms(1), of 8 off off data] assms(2,3) obtain cur1 where
    c1: "hex_columns 8 data off cur = Done (min (off + 8) (length data), cur1)" "wrote cur1 (s @ ?t1)" by auto
  from wrote_put_spaces [OF c1(2), of 2] assms(2) len obtain cur2 where
    c2: "put_spaces 2 cur1 = Done cur2" "wrote cur2 ((s @ ?t1) @ replicate 2 32)" by auto
  from hex_columns_writes [OF c2(2), of 8 "min (off + 8) (length data)" "off + 8" data] assms(2) len obtain cur3 where
    c3: "hex_columns 8 data (min (off + 8) (length data)) cur2 = Done (min (off + 8 + 8) (length data), cur3)"
    "wrote cur3 (((s @ ?t1) @ replicate 2 32) @ ?t2)" by auto
  have "hex_groups 2 data off cur = Done (min (off + 8 + 8) (length data), cur3)"
    using c1(1) c2(1) c3(1) by (simp add: numeral_2_eq_2 del: put_spaces.simps)
  with c3(2) show ?thesis by (simp add: add.assoc)
qed

lemma ascii_columns_writes:
  "wrote cur s \<Longrightarrow> length s + n \<le> 80 \<Longrightarrow>
   \<exists>cur'. ascii_columns n data off cur = Done (if off < length data then min (off + n) (length data) else off, cur') \<and>
     wrote cur' (s @ map shown (take n (drop off data)))"
proof (induction n arbitrary: off s cur)
  case (Suc n)
  show ?case
  proof (cases "off < length data")
    case True
    from wrote_put [OF Suc.prems(1), of "shown (data ! off)"] Suc.prems(2) obtain cur1 where
      c: "put (shown (data ! off)) cur = Done cur1" "wrote cur1 (s @ [shown (data ! off)])" by auto
    from Suc.IH [OF c(2), of "off + 1"] Suc.prems(2) c(1) True show ?thesis
      by (auto simp: Cons_nth_drop_Suc [symmetric, OF True])
  next
    case False
    with Suc.IH [of cur s off] Suc.prems show ?thesis by simp
  qed
qed simp

lemma ascii_groups_writes:
  assumes "wrote cur s" "length s \<le> 63" "off \<le> length data"
  shows "\<exists>cur'. ascii_groups 2 data off cur = Done (min (off + 16) (length data), cur') \<and>
    wrote cur' (s @ map shown (take 8 (drop off data)) @ (if off + 8 < length data then [32] else []) @
      map shown (take 8 (drop (off + 8) data)))"
proof -
  let ?t1 = "map shown (take 8 (drop off data))" and ?off1 = "min (off + 8) (length data)"
  from ascii_columns_writes [OF assms(1), of 8 data off] assms(2,3) obtain cur1 where
    c1: "ascii_columns 8 data off cur = Done (?off1, cur1)" "wrote cur1 (s @ ?t1)"
    by (auto split: if_splits)
  have "\<exists>cur2. (if ?off1 < length data then put 32 cur1 else Done cur1) = Done cur2 \<and>
      wrote cur2 ((s @ ?t1) @ (if off + 8 < length data then [32] else []))"
  proof (cases "off + 8 < length data")
    case True
    then show ?thesis using wrote_put [OF c1(2), of 32] assms(2) by simp
  next
    case False
    with c1(2) show ?thesis by simp
  qed
  then obtain cur2 where c2: "(if ?off1 < length data then put 32 cur1 else Done cur1) = Done cur2"
    "wrote cur2 ((s @ ?t1) @ (if off + 8 < length data then [32] else []))" by blast
  have "length ((s @ ?t1) @ (if off + 8 < length data then [32] else [])) + 8 \<le> 80" using assms(2) by (auto simp: min_def)
  from ascii_columns_writes [OF c2(2) this, of data ?off1] obtain cur3 where
    c3: "ascii_columns 8 data ?off1 cur2 = Done (min (off + 16) (length data), cur3)"
    "wrote cur3 (((s @ ?t1) @ (if off + 8 < length data then [32] else [])) @ map shown (take 8 (drop ?off1 data)))"
    by (auto simp: min_def split: if_splits)
  have "drop ?off1 data = drop (off + 8) data" by (simp add: min_def)
  with c3(2) have "wrote cur3 (s @ ?t1 @ (if off + 8 < length data then [32] else []) @ map shown (take 8 (drop (off + 8) data)))"
    by simp
  moreover have "ascii_groups 2 data off cur = Done (min (off + 16) (length data), cur3)"
    using c1(1) c2(1) c3(1) by (simp add: numeral_2_eq_2)
  ultimately show ?thesis by blast
qed

lemma length_hexpad_0: "n < 16 ^ k \<Longrightarrow> length (hexpad 0 n) \<le> k"
proof (induction k arbitrary: n)
  case (Suc k)
  then have "n div 16 < 16 ^ k" by (simp add: div_less_iff_less_mult mult.commute)
  from Suc.IH [OF this] show ?case by (simp add: hexpad.simps(1))
qed simp

lemma length_hexpad_4: "n < 0x10000000 \<Longrightarrow> length (hexpad 4 n) \<le> 7"
proof -
  assume "n < 0x10000000"
  then have "n div 16 div 16 div 16 div 16 < 16 ^ 3" by simp
  from length_hexpad_0 [OF this] have "length (hexpad (Suc (Suc (Suc (Suc 0)))) n) \<le> 7" by simp
  moreover have "Suc (Suc (Suc (Suc 0))) = 4" by simp
  ultimately show ?thesis by (simp only:)
qed

lemma length_offset_text: "off < 0x10000000 \<Longrightarrow> length (offset_text off) \<le> 9"
  using length_hexpad_4 [of off] by (simp add: offset_text_def ascii_def)

lemma length_row_text: "length (row_text data off) \<le> length (offset_text off) + 71"
  by (auto simp: row_text_def length_spaced min_def)

text \<open>A row fits the array while its offset has at most seven digits, and always moves on.\<close>

lemma dump_row_writes:
  assumes "length string = 81" "string ! 80 = 0" "off < length data" "off < 0x10000000"
  shows "\<exists>string'. dump_row data off string = Done (min (off + 16) (length data), string') \<and>
    length string' = 81 \<and> string' ! 80 = 0 \<and>
    take (length (row_text data off) + 1) string' = row_text data off @ [0]"
proof -
  let ?o = "offset_text off" and ?off' = "min (off + 16) (length data)"
  let ?h = "spaced (map (cell data) [off..<off + 8]) @ replicate 2 32 @ spaced (map (cell data) [off + 8..<off + 16])"
  let ?a = "map shown (take 8 (drop off data)) @ (if off + 8 < length data then [32] else []) @
      map shown (take 8 (drop (off + 8) data))"
  have o: "length ?o \<le> 9" by (rule length_offset_text [OF assms(4)])
  have h: "length ?h = 48" by (simp add: length_spaced)
  have "wrote (string, 0) []" using assms by (simp add: wrote_def)
  from wrote_put_text [OF this, of ?o] o obtain c1 where
    c1: "put_text ?o (string, 0) = Done c1" "wrote c1 ?o" by auto
  from wrote_put_spaces [OF c1(2), of 3] o obtain c2 where
    c2: "put_spaces 3 c1 = Done c2" "wrote c2 (?o @ replicate 3 32)" by auto
  from hex_groups_writes [OF c2(2), of off data] o assms(3) obtain c3 where
    c3: "hex_groups 2 data off c2 = Done (?off', c3)" "wrote c3 ((?o @ replicate 3 32) @ ?h)" by auto
  have "length ((?o @ replicate 3 32) @ ?h) + 3 \<le> 80" using o h by simp
  from wrote_put_spaces [OF c3(2) this] obtain c4 where
    c4: "put_spaces 3 c3 = Done c4" "wrote c4 (((?o @ replicate 3 32) @ ?h) @ replicate 3 32)" by blast
  have "length (((?o @ replicate 3 32) @ ?h) @ replicate 3 32) \<le> 63" using o h by simp
  from ascii_groups_writes [OF c4(2) this, of off data] assms(3) obtain c5 where
    c5: "ascii_groups 2 data off c4 = Done (?off', c5)" "wrote c5 ((((?o @ replicate 3 32) @ ?h) @ replicate 3 32) @ ?a)"
    by auto
  have row: "row_text data off = (((?o @ replicate 3 32) @ ?h) @ replicate 3 32) @ ?a"
    by (simp add: row_text_def)
  let ?n = "length (row_text data off)"
  from c5(2) have w: "length (fst c5) = 81" "snd c5 = ?n" "?n \<le> 80" "take ?n (fst c5) = row_text data off" "fst c5 ! 80 = 0"
    unfolding row wrote_def by blast+
  let ?s = "take ?n (fst c5) @ [0] @ drop (?n + 1) (fst c5)"
  have last: "poke (snd c5) [0] (fst c5) = Done ?s" using w by (simp add: poke_def)
  have rolled: "?off' - (?off' - off) = off" using assms(3) by simp
  have "dump_row data off string = Done (?off', ?s)"
    unfolding dump_row_def using c1(1) c2(1) c3(1) c4(1) c5(1) last
    by (simp add: rolled del: put_spaces.simps hex_groups.simps ascii_groups.simps)
  moreover have "?s ! 80 = 0" using w by (cases "?n = 80") (simp_all add: nth_append)
  moreover have "take (?n + 1) ?s = row_text data off @ [0]" using w by simp
  ultimately show ?thesis using w by (intro exI [of _ ?s]) simp
qed

text \<open>Doubling the percent signs, and formatting what comes of it.\<close>

definition doubled :: "u8 list \<Rightarrow> u8 list" where
  "doubled s = concat (map (\<lambda>c. if c = 37 then [c, c] else [c]) s)"

lemma doubled_simps [simp]: "doubled [] = []" "doubled (c # s) = (if c = 37 then [c, c] else [c]) @ doubled s"
  "doubled (s @ t) = doubled s @ doubled t"
  by (simp_all add: doubled_def)

lemma length_doubled: "length (doubled s) \<le> 2 * length s"
  by (induction s) auto

lemma escape_loop_doubles:
  "j + length (doubled s) \<le> length final \<Longrightarrow>
   escape_loop s j final = Done (take j final @ doubled s @ drop (j + length (doubled s)) final)"
proof (induction s arbitrary: j final)
  case (Cons c s)
  show ?case
  proof (cases "c = 37")
    case True
    let ?f = "take j final @ [37, 37] @ drop (j + 2) final"
    have j: "poke j [37] final = Done (take j final @ [37] @ drop (j + 1) final)"
      "poke (j + 1) [37] (take j final @ [37] @ drop (j + 1) final) = Done ?f"
      using Cons.prems True by (simp_all add: poke_def min_def)
    have "escape_loop s (j + 2) ?f = Done (take (j + 2) ?f @ doubled s @ drop (j + 2 + length (doubled s)) ?f)"
      using Cons.prems True by (intro Cons.IH) simp
    with Cons.prems True j show ?thesis by (simp add: min_def numeral_2_eq_2 add.commute [of j])
  next
    case False
    let ?f = "take j final @ [c] @ drop (j + 1) final"
    have "escape_loop s (j + 1) ?f = Done (take (j + 1) ?f @ doubled s @ drop (j + 1 + length (doubled s)) ?f)"
      using Cons.prems False by (intro Cons.IH) simp
    with Cons.prems False show ?thesis by (simp add: poke_def min_def add.commute [of j])
  qed
qed simp

lemma c_format_doubled: "c_format (doubled s) = Done s"
proof (induction s)
  case (Cons c s)
  show ?case
  proof (cases "c = 37")
    case False
    with Cons show ?thesis by (cases "doubled s") auto
  qed (use Cons in simp)
qed simp

lemma doubled_zero: "0 \<notin> set s \<Longrightarrow> 0 \<notin> set (doubled s)"
  by (induction s) auto

lemma cstr_prefix_zero: "0 \<notin> set s \<Longrightarrow> cstr (s @ 0 # t) = s"
  by (simp add: cstr_def takeWhile_append)

lemma escape_row:
  assumes "length string = 81" "string ! 80 = 0" "length final = 161" "take (length s + 1) string = s @ [0]" "0 \<notin> set s"
  shows "\<exists>final'. escape_loop string 0 final = Done final' \<and> length final' = 161 \<and> c_format (cstr final') = Done s"
proof -
  have "string = take 80 string @ [0]"
    using take_Suc_conv_app_nth [of 80 string] assms(1,2) by simp
  then have "doubled string = doubled (take 80 string @ [0])" by (rule arg_cong)
  then have len: "length (doubled string) \<le> 161"
    using length_doubled [of "take 80 string"] assms(1) by simp
  have run: "escape_loop string 0 final = Done (doubled string @ drop (length (doubled string)) final)"
    using escape_loop_doubles [of 0 string final] len assms(3) by simp
  have "string = (s @ [0]) @ drop (length s + 1) string"
    unfolding assms(4) [symmetric] by (rule append_take_drop_id [symmetric])
  then have "doubled string = doubled ((s @ [0]) @ drop (length s + 1) string)" by (rule arg_cong)
  then have "doubled string = doubled s @ 0 # doubled (drop (length s + 1) string)" by simp
  then have "cstr (doubled string @ drop (length (doubled string)) final) = doubled s"
    using cstr_prefix_zero [OF doubled_zero [OF assms(5)]] by simp
  with run len assms(3) c_format_doubled show ?thesis by simp
qed

section \<open>The rows of a dump\<close>

lemma hexchar_byte: "(of_char (hexchar n) :: u8) \<noteq> 0"
  using hexval_not_space [OF hexval_hexchar] by blast

lemma hexpad_bytes: "0 \<notin> set (ascii (hexpad 0 n))"
proof (induction n rule: less_induct)
  case (less n)
  show ?case
  proof (cases "n = 0")
    case False
    then have "n div 16 < n" by simp
    with less [of "n div 16"] False show ?thesis
      by (subst hexpad.simps(1)) (use hexchar_byte [of n] in \<open>auto simp: ascii_def\<close>)
  qed (simp add: ascii_def)
qed

lemma offset_text_no_zero: "0 \<notin> set (offset_text off)"
proof -
  have "0 \<notin> set (ascii (hexpad (Suc (Suc (Suc (Suc 0)))) off))"
    using hexpad_bytes hexchar_byte by (auto simp: ascii_def dest: sym)
  moreover have "Suc (Suc (Suc (Suc 0))) = 4" by simp
  ultimately have "0 \<notin> set (ascii (hexpad 4 off))" by (metis (no_types))
  then show ?thesis by (simp add: offset_text_def)
qed

lemma nibble_char_no_zero: "n < 16 \<Longrightarrow> nibble_char n \<noteq> 0"
proof -
  have "\<forall>n \<in> set [0..<16]. nibble_char n \<noteq> 0" by (simp add: nibble_char_def upt_rec)
  then show "n < 16 \<Longrightarrow> nibble_char n \<noteq> 0" by simp
qed

lemma cell_no_zero: "0 \<notin> set (cell data k)"
proof -
  have "nibble_char (unat b div 16) \<noteq> 0" "nibble_char (unat b mod 16) \<noteq> 0" for b :: u8
    using unat_u8_less [of b] by (auto intro!: nibble_char_no_zero simp: div_less_iff_less_mult)
  then show ?thesis by (auto simp: cell_def hex_byte_def dest: sym)
qed

lemma spaced_no_zero: "0 \<notin> set (spaced (map (cell data) ks))"
  by (induction ks) (auto simp: spaced_Cons cell_no_zero)

lemma shown_no_zero: "0 \<notin> set (map shown s)"
  by (auto simp: shown_def split: if_splits)

lemma row_text_no_zero: "0 \<notin> set (row_text data off)"
  using offset_text_no_zero spaced_no_zero shown_no_zero
  by (simp add: row_text_def)

lemma one_row: "1 \<le> n \<Longrightarrow> n \<le> 16 \<Longrightarrow> (n + 15) div 16 = (1 :: nat)"
  by (rule div_nat_eqI) simp_all

lemma dump_rows_rows:
  assumes "cl_log_callback c \<noteq> None" "length data \<le> 0x10000000"
  shows "length string = 81 \<Longrightarrow> string ! 80 = 0 \<Longrightarrow> length final = 161 \<Longrightarrow>
    dump_rows (Some c) data off string final =
      Done (map (\<lambda>k. row_text data (off + 16 * k)) [0..<(length data - off + 15) div 16])"
proof (induction "length data - off" arbitrary: off string final rule: less_induct)
  case less
  show ?case
  proof (cases "off < length data")
    case False
    then show ?thesis by (simp add: dump_rows.simps [of _ data off])
  next
    case True
    let ?off' = "min (off + 16) (length data)" and ?row = "row_text data off"
    have small: "off < 0x10000000" using True assms(2) by simp
    obtain string' where r: "dump_row data off string = Done (?off', string')" "length string' = 81" "string' ! 80 = 0"
      "take (length ?row + 1) string' = ?row @ [0]"
      using dump_row_writes [OF less.prems(1,2) True small] by blast
    obtain final' where f: "escape_loop string' 0 final = Done final'" "length final' = 161" "c_format (cstr final') = Done ?row"
      using escape_row [OF r(2,3) less.prems(3) r(4) row_text_no_zero] by blast
    have "length ?row \<le> 4095" using length_row_text [of data off] length_offset_text [OF small] by simp
    with assms(1) f(3) have l: "ipc_client_log (Some c) (c_format (cstr final')) = Done [?row]"
      by (simp add: ipc_client_log_def)
    have "dump_rows (Some c) data ?off' string' final' =
        Done (map (\<lambda>k. row_text data (?off' + 16 * k)) [0..<(length data - ?off' + 15) div 16])"
      using True r(2,3) f(2) by (intro less.hyps) auto
    moreover have "off < ?off'" using True by simp
    ultimately have run: "dump_rows (Some c) data off string final =
        Done (?row # map (\<lambda>k. row_text data (?off' + 16 * k)) [0..<(length data - ?off' + 15) div 16])"
      using True r(1) f(1) l by (simp add: dump_rows.simps [of _ data off])
    show ?thesis
    proof (cases "off + 16 < length data")
      case False
      with True have "1 \<le> length data - off" "length data - off \<le> 16" "length data - ?off' = 0" by simp_all
      then have row: "(length data - off + 15) div 16 = 1" and no_row: "(length data - ?off' + 15) div 16 = 0"
        by (simp only: one_row, simp)
      show ?thesis unfolding run row no_row by simp
    next
      case more: True
      then have n: "(length data - off + 15) div 16 = Suc ((length data - ?off' + 15) div 16)"
        by (simp add: min_def)
      have "[0..<Suc m] = 0 # map Suc [0..<m]" for m by (simp add: upt_conv_Cons map_Suc_upt del: upt_Suc)
      with run more n show ?thesis by (simp add: min_def o_def add.assoc del: upt_Suc)
    qed
  qed
qed

text \<open>Logging a message whose block has its size never runs into undefined behaviour.\<close>

lemma dump_defined:
  assumes "cl_log_callback c \<noteq> None" "length d \<le> 0x10000000"
  shows "ipc_data_dump (Some c) (Some d) \<noteq> Undef"
  using dump_rows_rows [OF assms, of "calloc 81" "calloc 161" 0] by (simp add: ipc_data_dump_def calloc_def)

lemma log_data_defined:
  assumes "cl_log_callback c \<noteq> None" "\<forall>d. msg_data m = Some d \<longrightarrow> unat (msg_size m) \<le> length d"
  shows "\<exists>ls. log_data debug (Some c) kind m = Done ls"
proof (cases "msg_data m")
  case None
  then show ?thesis using assms(1) by (simp add: log_data_def ipc_data_dump_def log_line_def ipc_client_log_def)
next
  case (Some d)
  let ?n = "if msg_size m > 0x100 then 0x100 else unat (msg_size m)"
  have n: "?n \<le> length d" "?n \<le> 0x100"
    using assms(2) Some by (auto simp: word_less_nat_alt word_le_nat_alt not_less)
  have "ipc_data_dump (Some c) (Some (take ?n d)) \<noteq> Undef"
    using n by (intro dump_defined assms(1)) simp
  then show ?thesis
    using n(1) assms(1) Some
    by (cases "ipc_data_dump (Some c) (Some (take ?n d))") (auto simp: log_data_def peek_def log_line_def ipc_client_log_def)
qed

lemma log_message_defined:
  assumes "cl_log_callback c \<noteq> None" "\<forall>d. msg_data m = Some d \<longrightarrow> unat (msg_size m) \<le> length d"
  shows "\<exists>ls. ipc_client_log_send debug (Some c) (Some m) prefix = Done ls"
    and "\<exists>ls. ipc_client_log_recv debug (Some c) (Some m) prefix = Done ls"
  using log_data_defined [OF assms, of debug "''FMT''"] log_data_defined [OF assms, of debug "''RFS''"] assms(1)
  by (auto simp: ipc_client_log_send_def ipc_client_log_recv_def log_line_def ipc_client_log_def split: option.split)

section \<open>Properties\<close>

text \<open>
  C30: a dump of at most 256 MiB stays within its two buffers and loses nothing: the lines are the rows
  of the data in order, one for each sixteen bytes, each with its offset, the bytes in
  hexadecimal and their printable characters, percent signs included, and none is longer than 80.
\<close>

theorem data_dump_rows:
  assumes "data \<noteq> []" "length data \<le> 0x10000000" "cl_log_callback c \<noteq> None"
  shows "ipc_data_dump (Some c) (Some data) =
      Done (map (\<lambda>k. row_text data (16 * k)) [0..<(length data + 15) div 16]) \<and>
    (16 * k < length data \<longrightarrow> length (row_text data (16 * k)) \<le> 80)"
proof -
  have "ipc_data_dump (Some c) (Some data) =
      Done (map (\<lambda>k. row_text data (16 * k)) [0..<(length data + 15) div 16])"
    using dump_rows_rows [OF assms(3,2), of "calloc 81" "calloc 161" 0] assms(1)
    by (simp add: ipc_data_dump_def calloc_def)
  moreover have "length (row_text data (16 * k)) \<le> 80" if "16 * k < length data"
    using length_row_text [of data "16 * k"] length_offset_text [of "16 * k"] that assms(2) by simp
  ultimately show ?thesis by blast
qed

definition demo_logging :: ipc_client where
  "demo_logging = zero_client\<lparr>cl_log_callback := Some 1\<rparr>"

theorem data_dump_rows_witness:
  "\<exists>l. ipc_data_dump (Some demo_logging) (Some [37, 65, 0]) = Done [l] \<and> length l \<le> 80 \<and>
     row_text [37, 65, 0] 0 = l \<and> drop (length l - 3) l = [37, 65, 46]"
  using data_dump_rows [of "[37, 65, 0]" demo_logging 0]
  by (simp add: demo_logging_def row_text_def shown_def)

end
