(* ===== verification/Spec2Isabelle.thy ===== *)
theory Spec2Isabelle
  imports Call Sms Sec Net Misc Strings MipiBoot Modem Crespo NvTool Generic Aries Herolte IpcModem Table Log
begin

text \<open>
  libsamsung-ipc: the C library by which a free phone system talks to the modem of a Samsung phone,
  and its tools.

  \<^bold>\<open>The program.\<close> A client (samsung-ipc/ipc.c) stands for one channel to the modem: FMT for
  commands like calls, SMS and security, RFS for the modem's file store. It dispatches to the operations
  and handlers of one device (samsung-ipc/devices). Booting loads the firmware image of the modem and
  its NV data over the bus of that device, stage by stage, with the loader of the modem
  (samsung-ipc/modems); sending and receiving put a header before a message and take it off again; the
  message families (call.c, sms.c, sec.c, net.c, svc.c, misc.c, gprs.c, gen.c) build and take apart the
  payloads; rfs.c keeps the NV data in a file beside its digest and a backup of both. The tools
  (src/tools) drive a client through booting and registration, and edit the IMEI in the NV data.

  \<^bold>\<open>Conventions.\<close> The target is ILP32: \<open>size_t\<close>, \<open>int\<close> and pointers have four bytes. An integer that can
  wrap is a word of its width; otherwise it is an \<open>int\<close> or \<open>nat\<close>. A pointer is an option with \<open>None\<close>
  for null, and a pointer with the size of its region is one list of bytes, so that an access outside it
  is \<open>Undef\<close>. \<open>calloc\<close> does not fail. A function gives \<open>Done\<close> with its value, \<open>Fail\<close> for its error value or
  \<open>Undef\<close> for undefined behaviour (theory Prelude). An I/O computation takes the world and returns such an
  outcome and the next world (System). The world holds the files and endless streams of the answers of
  kernel and modem, so that a statement about all worlds is one about all their behaviours; what
  was done to devices is the trace. A loop that need not end is a \<open>partial_function\<close> with \<open>None\<close> for
  running on for ever. A structure that goes with a request is in the trace as bytes just
  before the request. MD5 and the \<open>errno\<close> that a failed call sets are parameters. What the library logs in passing, the waiting, the
  times of \<open>select\<close> and the attributes of terminals are left out.

  \<^bold>\<open>Messages.\<close> Protocol: commands, messages, headers (ipc_utils.c, protocol.h). Strings: the tables of
  names (ipc_strings.c). Call, Sms, Sec, Net (with svc.c) and Misc (with gprs.c and gen.c): the families, each
  with its packed structures. Extract holds the two contracts they share, a payload whose header
  has its length (\<open>sized_payload\<close>) and a list of entries of one size (\<open>fixed_entries\<close>), interpreted
  for the extractors of the code. Their lemmas show layouts, bounds and which messages make an extractor
  read outside the message.

  \<^bold>\<open>System and files.\<close> System: the calls. Files: utils.c, with the vocabulary of the file proofs:
  \<open>keeps\<close> (files that stay as they are), \<open>tame\<close>, \<open>runs_to\<close>. Trace: \<open>adds\<close> (the events a computation can
  add), \<open>unchanged\<close> and \<open>stable\<close>. NvData: rfs.c; the locale \<open>nv_device\<close> states what a client's
  configuration of the NV data promises, and its lemmas show that loading returns only data that
  matches its digest, that a write keeps the digest in step, and that backup and restore are inverse.

  \<^bold>\<open>Client and devices.\<close> Client: ipc.c, whose device table is an argument. Transport: the loops that
  write or read a whole block, over the locales \<open>modem_out\<close> and \<open>modem_in\<close>, the contracts of the
  functions they call; they are interpreted for plain descriptors, the SMDK4412 driver, the i9300's
  handlers and the Aries' socket. Smdk4412: the driver's interface (xmm626_kernel_smdk4412.c) and the
  handlers of the i9300; Devices: the handlers of the n7100, n5100, galaxys2, maguro and piranha, proved to
  be the same functions. Crespo, Generic (with partitions/android), Aries and Herolte (with
  partitions/toc): one device each, complete with its loader. Table: devices/ipc_devices.c, and
  the client that is created with it, through to the boot.

  \<^bold>\<open>Loading.\<close> Xmm626: the vocabulary of the loaders: \<open>emits\<close> says what a stage sends when it succeeds,
  \<open>completes\<close> that it succeeds with the answers of the protocol, and the locale \<open>block_sender\<close> how
  data goes out in blocks. Hsic and Boot: xmm626_hsic.c and the boot functions of the i9300, n7100, n5100
  and galaxys2; Mipi and MipiBoot: xmm626_mipi.c and those of the maguro and piranha; Xmm616:
  the loader of the Crespo and the Aries. For each way to boot the lemmas show what a success has sent,
  that just the descriptors that were opened are closed however it ends, and, over HSIC and MIPI, that
  it succeeds with a willing kernel and modem. In Herolte \<open>does\<close>, \<open>passes\<close> and \<open>returns\<close> say what
  a computation that may not return does, is handed and when it returns; \<open>uploads\<close> are the traces of the
  upload of one entry, \<open>handed\<close> that of a whole boot that ends with 0, with the codes of the uploads, and
  \<open>obliging\<close> is a kernel that fails no read and refuses no request. The upload of an entry that the table
  of contents lacks looks at a pointer that was never set (\<open>upload_exit\<close>), which is \<open>Undef\<close>.

  \<^bold>\<open>Tools and logging.\<close> Modem: tools/common/modem.c and ipc-imei.c as a state machine, the step relation
  \<open>modem_step\<close>, which the loop refines; \<open>news_of\<close> and \<open>reaction\<close> are a table of what the messages tell and
  what the tools make of them, and \<open>follow\<close> what becomes of a sequence of messages, as the loop does it.
  The pointer to the client is a \<open>client_ref\<close>, null, live or freed. IpcModem: ipc-modem.c and ipc-test.c; its specification gives for each
  message the requests it is answered with and the state after it (\<open>needs\<close>, \<open>requests_for\<close>,
  \<open>state_after\<close>), and \<open>tool_rounds\<close> the runs of the loop. NvImei and NvTool: nv_data-imei.c and nv_data-md5.c, the
  IMEI and the command line; since the exit status of write-imei is the \<open>errno\<close> that \<open>file_data_write\<close> leaves,
  NvImei has that function with its \<open>errno\<close> (\<open>file_data_write_errno\<close>). Log: \<open>ipc_client_log\<close> and the dump, with the rows as the specification.

  \<^bold>\<open>Bounds.\<close> No fuel is used: the loops that count down in the code are functions on their counter, with
  the source's bounds (51 attempts for AT, the PSI stage and the onedram, 50 for acknowledgements, 100 and 10
  for link requests, 30 and 10000 for opening devices), and the loops that read or write a block
  are functions on what is left where a call without progress ends them, and \<open>partial_function\<close>s where
  it does not. For the latter, that they return is proved (Aries, Herolte) or that they do not (Modem).

  \<^bold>\<open>Not modelled.\<close> samsung-ipc/tests: a test driver that creates its file with shell commands.
  Messages for the user, the calls of \<open>lsusb\<close> and the peer address of a socket. An \<open>lseek\<close> fails for
  negative offsets only, except on the images of the HeroLTE, where the kernel can refuse it; on the device
  of the Crespo its result is not looked at. The
  headers' declarations that no function uses: most command codes, of which only names are printed
  (Strings), and the interfaces of kernel drivers no device calls. The Python and Scheme scripts of
  the repository are no part of the library.
\<close>

end
